(* ===== verification/Vireon_Prelude.thy ===== *)
theory Vireon_Prelude
  imports Main "HOL-Library.Word" "HOL-Library.List_Lexorder" "HOL-Library.Char_ord"
begin

text \<open>
  Shared vocabulary of the development: Rust's machine integers and their checked and
  saturating operations, \<open>Result\<close> as a sum with the operations that model \<open>?\<close>,
  \<open>ok_or\<close> and \<open>try_fold\<close>, mutation through \<open>&mut\<close> as state passing in which the
  state survives an error, \<open>BTreeMap\<close> as a key-sorted association list, and the
  contracts (locales) that several components share.
\<close>

named_theorems result_simps \<open>rewrite rules that invert a successful computation\<close>
named_theorems arith_simps \<open>readings of checked and saturating arithmetic on nat\<close>
named_theorems map_laws \<open>laws of the ordered map\<close>

section \<open>Machine integers\<close>

type_synonym u8 = "8 word"
type_synonym u16 = "16 word"
type_synonym u32 = "32 word"
type_synonym u64 = "64 word"
type_synonym u128 = "128 word"
type_synonym bytes = "u8 list"

definition checked_add :: "'a::len word \<Rightarrow> 'a word \<Rightarrow> 'a word option" where
  "checked_add a b = (if unat a + unat b < 2 ^ LENGTH('a) then Some (a + b) else None)"

definition checked_sub :: "'a::len word \<Rightarrow> 'a word \<Rightarrow> 'a word option" where
  "checked_sub a b = (if b \<le> a then Some (a - b) else None)"

definition checked_mul :: "'a::len word \<Rightarrow> 'a word \<Rightarrow> 'a word option" where
  "checked_mul a b = (if unat a * unat b < 2 ^ LENGTH('a) then Some (a * b) else None)"

definition saturating_add :: "'a::len word \<Rightarrow> 'a word \<Rightarrow> 'a word" where
  "saturating_add a b = (case checked_add a b of Some c \<Rightarrow> c | None \<Rightarrow> - 1)"

definition saturating_sub :: "'a::len word \<Rightarrow> 'a word \<Rightarrow> 'a word" where
  "saturating_sub a b = (if b \<le> a then a - b else 0)"

definition saturating_mul :: "'a::len word \<Rightarrow> 'a word \<Rightarrow> 'a word" where
  "saturating_mul a b = (case checked_mul a b of Some c \<Rightarrow> c | None \<Rightarrow> - 1)"

definition clamp :: "'a::linorder \<Rightarrow> 'a \<Rightarrow> 'a \<Rightarrow> 'a" where
  "clamp x lo hi = (if x < lo then lo else if hi < x then hi else x)"

lemma unat_max_word: "unat (- 1 :: 'a::len word) = 2 ^ LENGTH('a) - 1"
  by (simp add: unsigned_minus_1_eq_mask mask_eq_exp_minus_1)

lemma unat_add_small:
  "unat (a::'a::len word) + unat b < 2 ^ LENGTH('a) \<Longrightarrow> unat (a + b) = unat a + unat b"
  by (simp add: unat_word_ariths)

lemma unat_mult_small:
  "unat (a::'a::len word) * unat b < 2 ^ LENGTH('a) \<Longrightarrow> unat (a * b) = unat a * unat b"
  by (simp add: unat_word_ariths)

lemma checked_add_Some [arith_simps]:
  "checked_add a b = Some c \<longleftrightarrow> unat c = unat a + unat b"
  unfolding checked_add_def
  by (auto simp: unat_add_small word_unat_eq_iff) (metis unsigned_less)

lemma checked_add_None [arith_simps]:
  "checked_add (a::'a::len word) b = None \<longleftrightarrow> 2 ^ LENGTH('a) \<le> unat a + unat b"
  by (auto simp: checked_add_def)

lemma checked_sub_Some [arith_simps]:
  "checked_sub a b = Some c \<longleftrightarrow> unat a = unat c + unat b"
proof
  assume "checked_sub a b = Some c"
  then have "b \<le> a" and "c = a - b" by (auto simp: checked_sub_def split: if_splits)
  then show "unat a = unat c + unat b"
    by (simp add: unat_sub word_le_nat_alt)
next
  assume eq: "unat a = unat c + unat b"
  then have "b \<le> a" by (simp add: word_le_nat_alt)
  moreover from this eq have "a - b = c"
    by (simp add: word_unat_eq_iff unat_sub word_le_nat_alt)
  ultimately show "checked_sub a b = Some c" by (simp add: checked_sub_def)
qed

lemma checked_sub_None [arith_simps]:
  "checked_sub a b = None \<longleftrightarrow> unat a < unat b"
  by (auto simp: checked_sub_def word_le_nat_alt)

lemma checked_mul_Some [arith_simps]:
  "checked_mul a b = Some c \<longleftrightarrow> unat c = unat a * unat b"
  unfolding checked_mul_def
  by (auto simp: unat_mult_small word_unat_eq_iff) (metis unsigned_less)

lemma unat_saturating_add [arith_simps]:
  "unat (saturating_add a b :: 'a::len word) = min (unat a + unat b) (2 ^ LENGTH('a) - 1)"
  by (auto simp: saturating_add_def checked_add_def unat_max_word unat_add_small min_def)

lemma unat_saturating_sub [arith_simps]:
  "unat (saturating_sub a b) = unat a - unat b"
  by (auto simp: saturating_sub_def unat_sub word_le_nat_alt)

lemma unat_saturating_mul [arith_simps]:
  "unat (saturating_mul a b :: 'a::len word) = min (unat a * unat b) (2 ^ LENGTH('a) - 1)"
proof (cases "unat a * unat b < 2 ^ LENGTH('a)")
  case True
  then show ?thesis
    by (simp add: saturating_mul_def checked_mul_def unat_mult_small)
next
  case False
  then have "min (unat a * unat b) (2 ^ LENGTH('a) - 1) = 2 ^ LENGTH('a) - (1::nat)"
    by (intro min_absorb2) linarith
  with False show ?thesis
    by (simp add: saturating_mul_def checked_mul_def unat_max_word)
qed

lemma clamp_bounds: "lo \<le> hi \<Longrightarrow> lo \<le> clamp x lo hi \<and> clamp x lo hi \<le> hi"
  by (auto simp: clamp_def)

lemma clamp_id [simp]: "lo \<le> x \<Longrightarrow> x \<le> hi \<Longrightarrow> clamp x lo hi = x"
  by (auto simp: clamp_def)

lemma unat_clamp: "unat (clamp x lo hi) = clamp (unat x) (unat lo) (unat hi)"
  by (auto simp: clamp_def word_less_nat_alt)


section \<open>Results\<close>

text \<open>
  Rust's \<open>Result\<close> is a sum: \<open>Inl\<close> is \<open>Err\<close>, \<open>Inr\<close> is \<open>Ok\<close>. The operator \<open>?\<close> is
  \<open>rbind\<close>; an \<open>if c { return Err(e) }\<close> is \<open>reject_if c e\<close> followed by the rest.
\<close>

abbreviation Ok :: "'a \<Rightarrow> 'e + 'a" where "Ok \<equiv> Inr"
abbreviation Err :: "'e \<Rightarrow> 'e + 'a" where "Err \<equiv> Inl"

definition rbind :: "'e + 'a \<Rightarrow> ('a \<Rightarrow> 'e + 'b) \<Rightarrow> 'e + 'b" where
  "rbind r f = (case r of Inl e \<Rightarrow> Inl e | Inr a \<Rightarrow> f a)"

definition reject_if :: "bool \<Rightarrow> 'e \<Rightarrow> 'e + unit" where
  "reject_if c e = (if c then Inl e else Inr ())"

definition ok_or :: "'a option \<Rightarrow> 'e \<Rightarrow> 'e + 'a" where
  "ok_or x e = (case x of None \<Rightarrow> Inl e | Some a \<Rightarrow> Inr a)"

definition map_err :: "('e \<Rightarrow> 'f) \<Rightarrow> 'e + 'a \<Rightarrow> 'f + 'a" where
  "map_err f r = (case r of Inl e \<Rightarrow> Inl (f e) | Inr a \<Rightarrow> Inr a)"

definition is_ok :: "'e + 'a \<Rightarrow> bool" where
  "is_ok r = (case r of Inl _ \<Rightarrow> False | Inr _ \<Rightarrow> True)"

primrec try_fold :: "('b \<Rightarrow> 'a \<Rightarrow> 'e + 'b) \<Rightarrow> 'b \<Rightarrow> 'a list \<Rightarrow> 'e + 'b" where
  "try_fold f acc [] = Inr acc"
| "try_fold f acc (x # xs) = rbind (f acc x) (\<lambda>acc'. try_fold f acc' xs)"

primrec try_each :: "('a \<Rightarrow> 'e + 'b) \<Rightarrow> 'a list \<Rightarrow> 'e + unit" where
  "try_each f [] = Inr ()"
| "try_each f (x # xs) = rbind (f x) (\<lambda>_. try_each f xs)"

lemma rbind_simps [simp]:
  "rbind (Inl e) f = Inl e"
  "rbind (Inr a) f = f a"
  by (simp_all add: rbind_def)

lemma rbind_Ok [result_simps]: "rbind r f = Inr b \<longleftrightarrow> (\<exists>a. r = Inr a \<and> f a = Inr b)"
  by (cases r) simp_all

lemma rbind_Err [result_simps]:
  "rbind r f = Inl e \<longleftrightarrow> r = Inl e \<or> (\<exists>a. r = Inr a \<and> f a = Inl e)"
  by (cases r) auto

lemma rbind_assoc: "rbind (rbind r f) g = rbind r (\<lambda>a. rbind (f a) g)"
  by (cases r) simp_all

text \<open>Evaluation looks at the continuation only once the first result is known.\<close>

lemma rbind_weak_cong [cong]: "r = r' \<Longrightarrow> rbind r f = rbind r' f"
  by simp

lemma rbind_cong_Ok:
  "r = r' \<Longrightarrow> (\<And>a. r' = Inr a \<Longrightarrow> f a = g a) \<Longrightarrow> rbind r f = rbind r' g"
  by (cases r') auto

lemma reject_if_simps [simp]:
  "reject_if c e = Inr u \<longleftrightarrow> \<not> c"
  "reject_if c e = Inl e' \<longleftrightarrow> c \<and> e' = e"
  "reject_if True e = Inl e"
  "reject_if False e = Inr ()"
  by (auto simp: reject_if_def)

lemma ok_or_simps [simp]:
  "ok_or None e = Inl e"
  "ok_or (Some a) e = Inr a"
  "ok_or x e = Inr a \<longleftrightarrow> x = Some a"
  "ok_or x e = Inl e' \<longleftrightarrow> x = None \<and> e' = e"
  by (auto simp: ok_or_def split: option.splits)

lemma map_err_simps [simp]:
  "map_err f (Inl e) = Inl (f e)"
  "map_err f (Inr a) = Inr a"
  "map_err f r = Inr a \<longleftrightarrow> r = Inr a"
  "map_err f r = Inl e' \<longleftrightarrow> (\<exists>e. r = Inl e \<and> e' = f e)"
  by (auto simp: map_err_def split: sum.splits)

lemma is_ok_iff: "is_ok r \<longleftrightarrow> (\<exists>a. r = Inr a)"
  by (cases r) (simp_all add: is_ok_def)

lemma is_ok_simps [simp]: "is_ok (Inr a)" "\<not> is_ok (Inl e)"
  by (simp_all add: is_ok_def)

lemma try_each_Ok [result_simps]:
  "try_each f xs = Inr u \<longleftrightarrow> (\<forall>x\<in>set xs. \<exists>a. f x = Inr a)"
  by (induction xs) (auto simp: rbind_Ok)

lemma try_fold_append:
  "try_fold f acc (xs @ ys) = rbind (try_fold f acc xs) (\<lambda>acc'. try_fold f acc' ys)"
proof (induction xs arbitrary: acc)
  case (Cons x xs)
  then show ?case by (cases "f acc x") simp_all
qed simp

section \<open>Mutation with errors\<close>

text \<open>
  A function that takes \<open>&mut S\<close> and returns a \<open>Result\<close> keeps what it wrote to the state
  when it returns an error: \<open>('s, 'e, 'a) mut\<close> returns the state in both cases.
\<close>

type_synonym ('s, 'e, 'a) mut = "'s \<Rightarrow> ('e + 'a) \<times> 's"

definition mret :: "'a \<Rightarrow> ('s, 'e, 'a) mut" where
  "mret a s = (Inr a, s)"

definition mlift :: "('s \<Rightarrow> 'e + 'a) \<Rightarrow> ('s, 'e, 'a) mut" where
  "mlift f s = (f s, s)"

definition mupd :: "('s \<Rightarrow> 's) \<Rightarrow> ('s, 'e, unit) mut" where
  "mupd f s = (Inr (), f s)"

definition mbind :: "('s, 'e, 'a) mut \<Rightarrow> ('a \<Rightarrow> ('s, 'e, 'b) mut) \<Rightarrow> ('s, 'e, 'b) mut" where
  "mbind m f s = (case m s of (Inl e, s') \<Rightarrow> (Inl e, s') | (Inr a, s') \<Rightarrow> f a s')"

primrec mfold :: "('b \<Rightarrow> 'a \<Rightarrow> ('s, 'e, 'b) mut) \<Rightarrow> 'b \<Rightarrow> 'a list \<Rightarrow> ('s, 'e, 'b) mut" where
  "mfold f acc [] = mret acc"
| "mfold f acc (x # xs) = mbind (f acc x) (\<lambda>acc'. mfold f acc' xs)"

lemma mret_Ok [result_simps]: "mret a s = (Inr b, s') \<longleftrightarrow> b = a \<and> s' = s"
  by (auto simp: mret_def)

lemma mret_Err [simp]: "mret a s \<noteq> (Inl e, s')"
  by (simp add: mret_def)

lemma mlift_Ok [result_simps]: "mlift f s = (r, s') \<longleftrightarrow> f s = r \<and> s' = s"
  by (auto simp: mlift_def)

lemma mupd_Ok [result_simps]: "mupd f s = (r, s') \<longleftrightarrow> r = Inr () \<and> s' = f s"
  by (auto simp: mupd_def)

lemma mbind_Ok [result_simps]:
  "mbind m f s = (Inr b, s') \<longleftrightarrow> (\<exists>a t. m s = (Inr a, t) \<and> f a t = (Inr b, s'))"
  by (auto simp: mbind_def split: prod.splits sum.splits)

lemma mbind_Err [result_simps]:
  "mbind m f s = (Inl e, s') \<longleftrightarrow>
     m s = (Inl e, s') \<or> (\<exists>a t. m s = (Inr a, t) \<and> f a t = (Inl e, s'))"
  by (auto simp: mbind_def split: prod.splits sum.splits)

lemma mut_eval:
  "mbind m f s = (case fst (m s) of Inl e \<Rightarrow> (Inl e, snd (m s)) | Inr a \<Rightarrow> f a (snd (m s)))"
  by (simp add: mbind_def split: prod.splits sum.splits)

definition merr :: "'e \<Rightarrow> ('s, 'e, 'a) mut" where
  "merr e s = (Inl e, s)"

lemma merr_Ok [result_simps]: "merr e s = (r, s') \<longleftrightarrow> r = Inl e \<and> s' = s"
  by (auto simp: merr_def)

section \<open>Runs\<close>

text \<open>
  A component that accepts or refuses inputs: \<open>run\<close> feeds it a list of inputs that are all
  accepted. The contract says that an accepted input keeps the invariant and that a quantity
  of the state follows the inputs; the components interpret it with their own operations.
\<close>

primrec run :: "('i \<Rightarrow> 's \<Rightarrow> 's option) \<Rightarrow> 'i list \<Rightarrow> 's \<Rightarrow> 's option" where
  "run step [] s = Some s"
| "run step (i # is) s = Option.bind (step i s) (run step is)"

lemma run_append: "run step (xs @ ys) s = Option.bind (run step xs s) (run step ys)"
proof (induction xs arbitrary: s)
  case (Cons x xs)
  then show ?case by (cases "step x s") simp_all
qed simp

locale guarded_machine =
  fixes step :: "'i \<Rightarrow> 's \<Rightarrow> 's option" and inv :: "'s \<Rightarrow> bool"
  assumes step_inv: "inv s \<Longrightarrow> step i s = Some s' \<Longrightarrow> inv s'"
begin

lemma run_inv: "inv s \<Longrightarrow> run step is s = Some s' \<Longrightarrow> inv s'"
proof (induction "is" arbitrary: s)
  case (Cons i rest)
  then show ?case by (cases "step i s") (auto dest: step_inv)
qed simp

end

section \<open>Ordered maps\<close>

text \<open>
  \<open>BTreeMap<K, V>\<close> is a list of pairs sorted strictly by key; \<open>get\<close> is \<open>map_of\<close>,
  iteration visits the pairs in list order. \<open>String\<close> keys are compared byte by byte.
\<close>

type_synonym ('k, 'v) btree_map = "('k \<times> 'v) list"

definition map_wf :: "('k::linorder, 'v) btree_map \<Rightarrow> bool" where
  "map_wf m = sorted_wrt (<) (map fst m)"

fun map_insert :: "'k::linorder \<Rightarrow> 'v \<Rightarrow> ('k, 'v) btree_map \<Rightarrow> ('k, 'v) btree_map" where
  "map_insert k v [] = [(k, v)]"
| "map_insert k v ((k', v') # m) =
     (if k < k' then (k, v) # (k', v') # m
      else if k = k' then (k, v) # m
      else (k', v') # map_insert k v m)"

definition map_total :: "('v \<Rightarrow> nat) \<Rightarrow> ('k, 'v) btree_map \<Rightarrow> nat" where
  "map_total f m = sum_list (map (\<lambda>p. f (snd p)) m)"

lemma map_of_insert [map_laws, simp]: "map_of (map_insert k v m) = (map_of m)(k \<mapsto> v)"
  by (induction k v m rule: map_insert.induct) auto

lemma set_map_insert: "set (map fst (map_insert k v m)) = insert k (set (map fst m))"
  by (induction k v m rule: map_insert.induct) auto

lemma map_wf_Nil [simp]: "map_wf []"
  by (simp add: map_wf_def)

lemma map_wf_Cons [simp]: "map_wf ((k, v) # m) \<longleftrightarrow> (\<forall>x\<in>set m. k < fst x) \<and> map_wf m"
  by (simp add: map_wf_def)

lemma map_wf_insert [map_laws, simp]: "map_wf m \<Longrightarrow> map_wf (map_insert k v m)"
proof (induction k v m rule: map_insert.induct)
  case (2 k v k' v' m)
  have "set (map fst (map_insert k v m)) = insert k (fst ` set m)"
    by (simp add: set_map_insert del: set_map) simp
  then have "\<forall>x\<in>set (map_insert k v m). fst x = k \<or> fst x \<in> fst ` set m"
    by (metis imageI image_set insertE)
  with 2 show ?case by fastforce
qed simp

lemma map_of_head_None: "map_wf ((k, v) # m) \<Longrightarrow> map_of m k = None"
  by (auto simp: map_of_eq_None_iff)

lemma map_of_below_None:
  assumes "map_wf m" and "\<forall>x\<in>set m. k < fst x"
  shows "map_of m k = None"
  using assms(2) by (auto simp: map_of_eq_None_iff)

lemma map_total_Nil [simp]: "map_total f [] = 0"
  by (simp add: map_total_def)

lemma map_total_Cons [simp]: "map_total f ((k, v) # m) = f v + map_total f m"
  by (simp add: map_total_def)

lemma map_total_insert [map_laws]:
  assumes "map_wf m"
  shows "map_total f (map_insert k v m) + (case map_of m k of None \<Rightarrow> 0 | Some w \<Rightarrow> f w)
       = map_total f m + f v"
  using assms
proof (induction k v m rule: map_insert.induct)
  case (2 k v k' v' m)
  show ?case
  proof (cases "k < k'")
    case True
    with 2(2) have "map_of ((k', v') # m) k = None"
      by (intro map_of_below_None) auto
    with True show ?thesis by simp
  next
    case False
    then show ?thesis using 2 by (cases "k = k'") (auto simp: map_of_head_None)
  qed
qed simp

lemma map_total_ge: "map_of m k = Some v \<Longrightarrow> f v \<le> map_total f m"
  by (induction m) (auto split: if_splits)

end
