(* ===== verification/Vireon_Bytes.thy ===== *)
theory Vireon_Bytes
  imports Vireon_Prelude
begin

text \<open>
  Strings and byte encodings. The first part models what the sources use of Rust's string
  library (\<open>trim\<close>, \<open>split\<close>, decimal printing and \<open>parse::<u64>\<close>) on ASCII text; the
  second part models \<open>to_le_bytes\<close> and \<open>as_bytes\<close> and states, as locales, what the
  wire formats need of an encoder: a \<open>prefix_code\<close> can be cut off the front of any
  message in one way only, and a \<open>fixed_code\<close> is one with a constant width.
\<close>

section \<open>Strings\<close>

abbreviation char_code :: "char \<Rightarrow> nat" where
  "char_code \<equiv> of_char"

definition is_ws :: "char \<Rightarrow> bool" where
  "is_ws c = (char_code c = 32 \<or> 9 \<le> char_code c \<and> char_code c \<le> 13)"

definition trim :: "string \<Rightarrow> string" where
  "trim s = rev (dropWhile is_ws (rev (dropWhile is_ws s)))"

fun split_on :: "char \<Rightarrow> string \<Rightarrow> string list" where
  "split_on c [] = [[]]"
| "split_on c (x # xs) =
     (if x = c then [] # split_on c xs
      else (case split_on c xs of [] \<Rightarrow> [[x]] | p # ps \<Rightarrow> (x # p) # ps))"

definition digit_char :: "nat \<Rightarrow> char" where
  "digit_char d = char_of (48 + d)"

fun show_nat :: "nat \<Rightarrow> string" where
  "show_nat n = (if n < 10 then [digit_char n] else show_nat (n div 10) @ [digit_char (n mod 10)])"

declare show_nat.simps [simp del]

text \<open>\<open>{n:0w$}\<close>: at least \<open>w\<close> digits, padded on the left with zeros.\<close>

definition show_padded :: "nat \<Rightarrow> nat \<Rightarrow> string" where
  "show_padded w n = replicate (w - length (show_nat n)) (CHR ''0'') @ show_nat n"

definition digit_val :: "char \<Rightarrow> nat option" where
  "digit_val c = (if 48 \<le> char_code c \<and> char_code c \<le> 57 then Some (char_code c - 48) else None)"

fun parse_digits :: "nat \<Rightarrow> string \<Rightarrow> nat option" where
  "parse_digits acc [] = Some acc"
| "parse_digits acc (c # cs) =
     (case digit_val c of None \<Rightarrow> None | Some d \<Rightarrow> parse_digits (acc * 10 + d) cs)"

text \<open>
  \<open>str::parse::<u64>\<close>: one leading \<open>+\<close> is accepted, a sign alone and the empty string are
  not, every other character must be a digit, and the value must fit 64 bits.
\<close>

definition parse_u64 :: "string \<Rightarrow> u64 option" where
  "parse_u64 s =
     (let body = (case s of [] \<Rightarrow> [] | c # cs \<Rightarrow> if c = CHR ''+'' then cs else s)
      in if body = [] then None
         else (case parse_digits 0 body of
                 None \<Rightarrow> None
               | Some n \<Rightarrow> if n < 2 ^ 64 then Some (of_nat n) else None))"

lemma digit_val_char: "d < 10 \<Longrightarrow> digit_val (digit_char d) = Some d"
  by (simp add: digit_val_def digit_char_def)

lemma digit_char_range:
  "d < 10 \<Longrightarrow> 48 \<le> char_code (digit_char d) \<and> char_code (digit_char d) \<le> 57"
  by (simp add: digit_char_def)

lemma parse_digits_append:
  "parse_digits acc (xs @ ys) =
     (case parse_digits acc xs of None \<Rightarrow> None | Some n \<Rightarrow> parse_digits n ys)"
  by (induction xs arbitrary: acc) (auto split: option.splits)

lemma parse_digits_zeros: "parse_digits 0 (replicate k (CHR ''0'') @ xs) = parse_digits 0 xs"
proof (induction k)
  case (Suc k)
  have "digit_val (CHR ''0'') = Some 0" by (simp add: digit_val_def)
  with Suc show ?case by simp
qed simp

lemma parse_show_nat: "parse_digits 0 (show_nat n) = Some n"
proof (induction n rule: show_nat.induct)
  case (1 n)
  show ?case
  proof (cases "n < 10")
    case True
    then show ?thesis by (simp add: show_nat.simps [of n] digit_val_char)
  next
    case False
    with 1 show ?thesis
      by (simp add: show_nat.simps [of n] parse_digits_append digit_val_char)
  qed
qed

lemma parse_show_padded: "parse_digits 0 (show_padded w n) = Some n"
  by (simp add: show_padded_def parse_digits_zeros parse_show_nat)

lemma show_nat_digits: "c \<in> set (show_nat n) \<Longrightarrow> 48 \<le> char_code c \<and> char_code c \<le> 57"
proof (induction n rule: show_nat.induct)
  case (1 n)
  then show ?case
    by (cases "n < 10") (auto simp: show_nat.simps [of n] digit_char_range)
qed

lemma show_nat_not_Nil [simp]: "show_nat n \<noteq> []"
  by (subst show_nat.simps) simp

lemma length_show_nat: "0 < w \<Longrightarrow> n < 10 ^ w \<Longrightarrow> length (show_nat n) \<le> w"
proof (induction n arbitrary: w rule: show_nat.induct)
  case (1 n)
  show ?case
  proof (cases "n < 10")
    case True
    with 1 show ?thesis by (simp add: show_nat.simps [of n] Suc_leI)
  next
    case False
    with 1(3) have "1 < w" by (cases w; cases "w - 1") auto
    then obtain v where v: "w = Suc v" "0 < v" by (cases w) auto
    with 1(3) have "n div 10 < 10 ^ v" by (simp add: less_mult_imp_div_less mult.commute)
    with 1(1) False v show ?thesis by (simp add: show_nat.simps [of n])
  qed
qed

lemma length_show_padded: "0 < w \<Longrightarrow> n < 10 ^ w \<Longrightarrow> length (show_padded w n) = w"
  using length_show_nat [of w n] by (simp add: show_padded_def)

lemma show_padded_digits:
  "c \<in> set (show_padded w n) \<Longrightarrow> 48 \<le> char_code c \<and> char_code c \<le> 57"
  by (auto simp: show_padded_def dest: show_nat_digits)

text \<open>A non-empty text of digits only is read as the number it denotes.\<close>

lemma parse_u64_digits:
  assumes "s \<noteq> []" and "\<forall>c\<in>set s. 48 \<le> char_code c \<and> char_code c \<le> 57"
    and "parse_digits 0 s = Some n" and "n < 2 ^ 64"
  shows "parse_u64 s = Some (of_nat n)"
proof -
  from assms(1) obtain c cs where s: "s = c # cs" by (cases s) auto
  with assms(2) have "48 \<le> char_code c \<and> char_code c \<le> 57" by simp
  then have "c \<noteq> CHR ''+''" by auto
  with s assms(3,4) show ?thesis by (simp add: parse_u64_def Let_def del: parse_digits.simps)
qed

lemma dropWhile_id: "(\<forall>c\<in>set s. \<not> P c) \<Longrightarrow> dropWhile P s = s"
  by (cases s) auto

lemma trim_id: "(\<forall>c\<in>set s. \<not> is_ws c) \<Longrightarrow> trim s = s"
  by (simp add: trim_def dropWhile_id)

lemma split_on_none: "c \<notin> set xs \<Longrightarrow> split_on c xs = [xs]"
  by (induction xs) auto

lemma split_on_append:
  "c \<notin> set xs \<Longrightarrow> split_on c (xs @ c # ys) = xs # split_on c ys"
  by (induction xs) auto

section \<open>Little-endian integers and text\<close>

primrec nat_le_bytes :: "nat \<Rightarrow> nat \<Rightarrow> bytes" where
  "nat_le_bytes 0 x = []"
| "nat_le_bytes (Suc k) x = word_of_nat (x mod 256) # nat_le_bytes k (x div 256)"

definition le_bytes :: "'a::len word \<Rightarrow> bytes" where
  "le_bytes w = nat_le_bytes (LENGTH('a) div 8) (unat w)"

definition str_bytes :: "string \<Rightarrow> bytes" where
  "str_bytes s = map (\<lambda>c. word_of_nat (char_code c)) s"

lemma length_nat_le_bytes [simp]: "length (nat_le_bytes k x) = k"
  by (induction k arbitrary: x) simp_all

lemma nat_le_bytes_inj:
  "x < 256 ^ k \<Longrightarrow> y < 256 ^ k \<Longrightarrow> nat_le_bytes k x = nat_le_bytes k y \<Longrightarrow> x = y"
proof (induction k arbitrary: x y)
  case (Suc k)
  have "x div 256 < 256 ^ k" "y div 256 < 256 ^ k"
    using Suc.prems(1,2) by (simp_all add: less_mult_imp_div_less mult.commute)
  with Suc have d: "x div 256 = y div 256" by simp
  have "word_of_nat (x mod 256) = (word_of_nat (y mod 256) :: u8)"
    using Suc.prems(3) by simp
  then have "unat (word_of_nat (x mod 256) :: u8) = unat (word_of_nat (y mod 256) :: u8)"
    by simp
  then have "x mod 256 = y mod 256" by (simp add: unat_of_nat)
  with d show ?case by (metis div_mult_mod_eq)
qed simp

lemma length_le_bytes [simp]: "length (le_bytes (w::'a::len word)) = LENGTH('a) div 8"
  by (simp add: le_bytes_def)

lemma le_bytes_inj:
  assumes "8 dvd LENGTH('a::len)" and "le_bytes (v::'a word) = le_bytes w"
  shows "v = w"
proof -
  have "(256::nat) ^ (LENGTH('a) div 8) = 2 ^ (8 * (LENGTH('a) div 8))"
    by (simp add: power_mult)
  also have "\<dots> = 2 ^ LENGTH('a)" using assms(1) by simp
  finally have p: "(256::nat) ^ (LENGTH('a) div 8) = 2 ^ LENGTH('a)" .
  have "unat v = unat w"
    by (rule nat_le_bytes_inj [of _ "LENGTH('a) div 8"])
       (use assms(2) p in \<open>simp_all add: le_bytes_def\<close>)
  then show ?thesis by (rule word_unat_eq_iff [THEN iffD2])
qed

lemma length_str_bytes [simp]: "length (str_bytes s) = length s"
  by (simp add: str_bytes_def)

lemma str_bytes_inj: "str_bytes s = str_bytes t \<Longrightarrow> s = t"
proof -
  have "inj (\<lambda>c. word_of_nat (char_code c) :: u8)"
  proof (rule injI)
    fix c d :: char
    assume "word_of_nat (char_code c) = (word_of_nat (char_code d) :: u8)"
    then have "unat (word_of_nat (char_code c) :: u8) = unat (word_of_nat (char_code d) :: u8)"
      by simp
    then show "c = d" by (simp add: unat_of_nat)
  qed
  then show "str_bytes s = str_bytes t \<Longrightarrow> s = t"
    unfolding str_bytes_def by (simp add: inj_map_eq_map)
qed

section \<open>What a wire format needs of an encoder\<close>

locale prefix_code =
  fixes enc :: "'a \<Rightarrow> bytes" and ok :: "'a \<Rightarrow> bool"
  assumes cut: "ok x \<Longrightarrow> ok y \<Longrightarrow> enc x @ r = enc y @ s \<Longrightarrow> x = y \<and> r = s"
begin

lemma cut_iff: "ok x \<Longrightarrow> ok y \<Longrightarrow> enc x @ r = enc y @ s \<longleftrightarrow> x = y \<and> r = s"
  using cut by blast

lemma enc_inj: "ok x \<Longrightarrow> ok y \<Longrightarrow> enc x = enc y \<Longrightarrow> x = y"
  using cut [of x y "[]" "[]"] by simp

end

locale fixed_code =
  fixes enc :: "'a \<Rightarrow> bytes" and ok :: "'a \<Rightarrow> bool" and width :: nat
  assumes fixed_width: "ok x \<Longrightarrow> length (enc x) = width"
    and fixed_inj: "ok x \<Longrightarrow> ok y \<Longrightarrow> enc x = enc y \<Longrightarrow> x = y"

sublocale fixed_code \<subseteq> prefix_code enc ok
proof unfold_locales
  fix x y r s
  assume ok: "ok x" "ok y" and eq: "enc x @ r = enc y @ s"
  have "length (enc x) = length (enc y)" using ok by (simp add: fixed_width)
  with eq have "enc x = enc y \<and> r = s" by simp
  with ok show "x = y \<and> r = s" by (simp add: fixed_inj)
qed

text \<open>A tagged option, as the code writes it: \<open>1\<close> and the value, or \<open>0\<close>.\<close>

definition enc_option :: "('a \<Rightarrow> bytes) \<Rightarrow> 'a option \<Rightarrow> bytes" where
  "enc_option f x = (case x of Some a \<Rightarrow> 1 # f a | None \<Rightarrow> [0])"

locale option_code = prefix_code
begin

lemma option_cut:
  "pred_option ok x \<Longrightarrow> pred_option ok y \<Longrightarrow>
     enc_option enc x @ r = enc_option enc y @ s \<Longrightarrow> x = y \<and> r = s"
  by (cases x; cases y) (auto simp: enc_option_def dest: cut)

lemma option_cut_iff:
  "pred_option ok x \<Longrightarrow> pred_option ok y \<Longrightarrow>
     enc_option enc x @ r = enc_option enc y @ s \<longleftrightarrow> x = y \<and> r = s"
  using option_cut by blast

end

text \<open>Length-prefixed text (\<open>push_string\<close>); \<open>len as u32\<close> keeps the low 32 bits.\<close>

definition enc_string :: "string \<Rightarrow> bytes" where
  "enc_string s = le_bytes (word_of_nat (length s) :: u32) @ str_bytes s"

definition string_fits :: "string \<Rightarrow> bool" where
  "string_fits s = (length s < 2 ^ 32)"

interpretation u32c: fixed_code "le_bytes :: u32 \<Rightarrow> bytes" "\<lambda>_. True" 4
  by unfold_locales (auto intro: le_bytes_inj)

interpretation u64c: fixed_code "le_bytes :: u64 \<Rightarrow> bytes" "\<lambda>_. True" 8
  by unfold_locales (auto intro: le_bytes_inj)

interpretation strc: option_code enc_string string_fits
proof unfold_locales
  fix x y r s
  assume ok: "string_fits x" "string_fits y"
    and eq: "enc_string x @ r = enc_string y @ s"
  then have "(word_of_nat (length x) :: u32) = word_of_nat (length y)"
    and rest: "str_bytes x @ r = str_bytes y @ s"
    using u32c.cut [of "word_of_nat (length x)" "str_bytes x @ r" "word_of_nat (length y)"
        "str_bytes y @ s"] by (simp_all add: enc_string_def)
  then have "unat (word_of_nat (length x) :: u32) = unat (word_of_nat (length y) :: u32)"
    by simp
  with ok have "length x = length y" by (simp add: string_fits_def unat_of_nat)
  with rest have "str_bytes x = str_bytes y \<and> r = s" by simp
  then show "x = y \<and> r = s" by (auto dest: str_bytes_inj)
qed

end
