(* ===== verification/Vireon_Crypto.thy ===== *)
theory Vireon_Crypto
  imports Vireon_Bytes
begin

text \<open>
  \<^verbatim>\<open>vireon-core/src/crypto.rs\<close>: the 32-byte \<open>Hash\<close>, its hexadecimal form and its leading
  zero bits; and the record \<open>externals\<close> of everything the core calls in code that is not
  part of the program (hash functions, Ed25519, Bech32, BIP-39, HMAC and the vendored
  FiroPoW library). Every definition that reaches such code takes the record as an argument.
\<close>

unbundle bit_operations_syntax

section \<open>Code outside the program\<close>

datatype bech32_variant = Bech32 | Bech32m

record externals =
  sha256_digest :: "bytes \<Rightarrow> bytes"
  blake3_digest :: "bytes \<Rightarrow> bytes"
  native_keccak256 :: "bytes \<Rightarrow> bytes"
  native_firopow_hash :: "int \<Rightarrow> bytes \<Rightarrow> u64 \<Rightarrow> int \<times> bytes \<times> bytes"
  native_firopow_verify :: "int \<Rightarrow> bytes \<Rightarrow> bytes \<Rightarrow> u64 \<Rightarrow> bytes \<Rightarrow> int"
  native_search_light ::
    "int \<Rightarrow> bytes \<Rightarrow> bytes \<Rightarrow> u64 \<Rightarrow> u64 \<Rightarrow> int \<times> u64 \<times> bytes \<times> bytes"
  native_search_mt ::
    "int \<Rightarrow> bytes \<Rightarrow> bytes \<Rightarrow> u64 \<Rightarrow> u64 \<Rightarrow> int \<Rightarrow> int \<times> u64 \<times> bytes \<times> bytes \<times> u64"
  native_epoch_number :: "int \<Rightarrow> int"
  native_epoch_length :: int
  native_period_length :: int
  native_revision :: int
  native_prewarm :: "int \<Rightarrow> int"
  native_light_cache :: "int \<Rightarrow> int \<times> u64 \<times> u32 \<times> u64 \<times> u32 \<times> int"
  native_full_dag :: "int \<Rightarrow> int \<times> u64 \<times> u64 \<times> u64 \<times> u32 \<times> int"
  native_dataset_item :: "int \<Rightarrow> u32 \<Rightarrow> int \<times> bytes"
  native_dataset_bytes :: "int \<Rightarrow> u64"
  bech32_encode :: "string \<Rightarrow> bytes \<Rightarrow> bech32_variant \<Rightarrow> string + string"
  bech32_decode :: "string \<Rightarrow> string + string \<times> bytes \<times> bech32_variant"
  to_base32 :: "bytes \<Rightarrow> bytes"
  from_base32 :: "bytes \<Rightarrow> string + bytes"
  ed_check_key :: "bytes \<Rightarrow> string + unit"
  ed_verify :: "bytes \<Rightarrow> bytes \<Rightarrow> bytes \<Rightarrow> string + unit"
  ed_public_key :: "bytes \<Rightarrow> bytes"
  ed_sign :: "bytes \<Rightarrow> bytes \<Rightarrow> bytes"
  bip39_parse :: "string \<Rightarrow> string + string"
  bip39_seed :: "string \<Rightarrow> string \<Rightarrow> bytes"
  hmac_sha512 :: "bytes \<Rightarrow> bytes \<Rightarrow> string + bytes"

section \<open>Hash\<close>

definition HASH_SIZE :: nat where "HASH_SIZE = 32"

datatype hash = Hash (hash_bytes: bytes)

text \<open>The type \<open>[u8; HASH_SIZE]\<close> fixes the length; the model carries it as a predicate.\<close>

definition hash_wf :: "hash \<Rightarrow> bool" where
  "hash_wf h = (length (hash_bytes h) = HASH_SIZE)"

definition hash_zero :: hash where
  "hash_zero = Hash (replicate HASH_SIZE 0)"

definition hex_char :: "u8 \<Rightarrow> char" where
  "hex_char v = (if v \<le> 9 then char_of (48 + unat v) else char_of (97 + (unat v - 10)))"

definition decode_hex_nibble :: "u8 \<Rightarrow> string + u8" where
  "decode_hex_nibble b =
     (if 48 \<le> b \<and> b \<le> 57 then Ok (b - 48)
      else if 97 \<le> b \<and> b \<le> 102 then Ok (b - 97 + 10)
      else if 65 \<le> b \<and> b \<le> 70 then Ok (b - 65 + 10)
      else Err (''invalid hex character '' @ [char_of (unat b)]))"

fun hex_of_bytes :: "bytes \<Rightarrow> string" where
  "hex_of_bytes [] = []"
| "hex_of_bytes (b # bs) = hex_char (drop_bit 4 b) # hex_char (b AND 15) # hex_of_bytes bs"

definition hash_to_hex :: "hash \<Rightarrow> string" where
  "hash_to_hex h = hex_of_bytes (hash_bytes h)"

text \<open>The loop of \<open>from_hex\<close>; an odd rest cannot occur after the length check.\<close>

fun decode_hex_pairs :: "(u8 \<Rightarrow> 'e + u8) \<Rightarrow> bytes \<Rightarrow> 'e + bytes" where
  "decode_hex_pairs nib (a # b # rest) =
     rbind (nib a) (\<lambda>h. rbind (nib b) (\<lambda>l.
     rbind (decode_hex_pairs nib rest) (\<lambda>bs. Ok ((push_bit 4 h OR l) # bs))))"
| "decode_hex_pairs nib _ = Ok []"

definition hash_from_hex :: "string \<Rightarrow> string + hash" where
  "hash_from_hex input =
     (let trimmed = trim input in
      if length trimmed \<noteq> HASH_SIZE * 2
      then Err (''expected '' @ show_nat (HASH_SIZE * 2) @ '' hex chars, got '' @ show_nat (length trimmed))
      else rbind (decode_hex_pairs decode_hex_nibble (str_bytes trimmed)) (\<lambda>bs. Ok (Hash bs)))"

section \<open>Hash functions\<close>

definition sha256 :: "externals \<Rightarrow> bytes \<Rightarrow> hash" where
  "sha256 X data = Hash (sha256_digest X data)"

definition blake3_hash :: "externals \<Rightarrow> bytes \<Rightarrow> hash" where
  "blake3_hash X data = Hash (blake3_digest X data)"

definition double_sha256 :: "externals \<Rightarrow> bytes \<Rightarrow> hash" where
  "double_sha256 X data = sha256 X (hash_bytes (sha256 X data))"

text \<open>Documented behaviour: every digest has 32 bytes.\<close>

definition digests_32 :: "externals \<Rightarrow> bool" where
  "digests_32 X \<longleftrightarrow> (\<forall>m. length (sha256_digest X m) = 32 \<and> length (blake3_digest X m) = 32)"

section \<open>Leading zero bits\<close>

text \<open>\<open>u8::leading_zeros\<close>: the number of \<open>k\<close> below 8 with \<open>b < 2^k\<close>.\<close>

definition u8_leading_zeros :: "u8 \<Rightarrow> nat" where
  "u8_leading_zeros b = length (filter (\<lambda>k. unat b < 2 ^ k) [0..<8])"

fun leading_zero_bits_bytes :: "bytes \<Rightarrow> nat" where
  "leading_zero_bits_bytes [] = 0"
| "leading_zero_bits_bytes (b # bs) =
     (if b = 0 then 8 + leading_zero_bits_bytes bs else u8_leading_zeros b)"

definition leading_zero_bits :: "hash \<Rightarrow> nat" where
  "leading_zero_bits h = leading_zero_bits_bytes (hash_bytes h)"

section \<open>Facts\<close>

lemma hash_wf_zero [simp]: "hash_wf hash_zero"
  by (simp add: hash_wf_def hash_zero_def)

lemma hash_wf_double_sha256: "digests_32 X \<Longrightarrow> hash_wf (double_sha256 X m)"
  by (simp add: digests_32_def hash_wf_def double_sha256_def sha256_def HASH_SIZE_def)

lemma hash_wf_blake3: "digests_32 X \<Longrightarrow> hash_wf (blake3_hash X m)"
  by (simp add: digests_32_def hash_wf_def blake3_hash_def HASH_SIZE_def)

lemma length_hex_of_bytes [simp]: "length (hex_of_bytes bs) = 2 * length bs"
  by (induction bs) simp_all

text \<open>Sixteen nibbles: the two hexadecimal tables are inverse to each other.\<close>

lemma nibble_cases:
  assumes "v < (16::u8)"
  shows "v \<in> set [0,1,2,3,4,5,6,7,8,9,10,11,12,13,14,15]"
proof -
  have "unat v < 16" using assms by (simp add: word_less_nat_alt)
  then have "unat v \<in> set [0..<16]" by simp
  then have "word_of_nat (unat v) \<in> (word_of_nat ` set [0..<16] :: u8 set)" by (rule imageI)
  then have "v \<in> word_of_nat ` set [0..<16]" by simp
  then show ?thesis by (simp add: upt_rec)
qed

lemma decode_hex_char:
  assumes "v < (16::u8)"
  shows "decode_hex_nibble (word_of_nat (char_code (hex_char v))) = Ok v"
proof -
  have "list_all (\<lambda>v. decode_hex_nibble (word_of_nat (char_code (hex_char v))) = Ok v)
          [0,1,2,3,4,5,6,7,8,9,10,11,12,13,14,15]"
    by (simp add: hex_char_def decode_hex_nibble_def)
  with nibble_cases [OF assms] show ?thesis unfolding list_all_iff by blast
qed

lemma hex_char_not_ws:
  assumes "v < (16::u8)"
  shows "\<not> is_ws (hex_char v)"
proof -
  have "list_all (\<lambda>v. \<not> is_ws (hex_char v)) [0,1,2,3,4,5,6,7,8,9,10,11,12,13,14,15]"
    by (simp add: hex_char_def is_ws_def)
  with nibble_cases [OF assms] show ?thesis unfolding list_all_iff by blast
qed

lemma nibble_bounds: "drop_bit 4 b < (16::u8)" "b AND 15 < (16::u8)"
proof -
  have "unat b < 256" using unsigned_less [of b] by simp
  then have "unat (drop_bit 4 b) < 16" by (simp add: drop_bit_eq_div unat_div)
  then show "drop_bit 4 b < (16::u8)" by (simp add: word_less_nat_alt)
  have "unat (b AND 15) \<le> unat (15 :: u8)"
    by (rule word_and_le1 [THEN word_le_nat_alt [THEN iffD1]])
  then show "b AND 15 < (16::u8)" by (simp add: word_less_nat_alt)
qed

lemma nibbles_join: "push_bit 4 (drop_bit 4 b) OR (b AND 15) = (b::u8)"
proof -
  have "b AND 15 = take_bit 4 b" by (simp add: take_bit_eq_mask mask_eq_exp_minus_1)
  then show ?thesis by (intro bit_word_eqI) (auto simp: bit_simps)
qed

lemma decode_hex_of_bytes: "decode_hex_pairs decode_hex_nibble (str_bytes (hex_of_bytes bs)) = Ok bs"
  by (induction bs)
     (simp_all add: str_bytes_def decode_hex_char nibble_bounds nibbles_join)

lemma hex_of_bytes_not_ws: "c \<in> set (hex_of_bytes bs) \<Longrightarrow> \<not> is_ws c"
  by (induction bs) (auto simp: hex_char_not_ws nibble_bounds)

lemma hex_of_bytes_inj: "hex_of_bytes a = hex_of_bytes b \<Longrightarrow> a = b"
  by (metis decode_hex_of_bytes sum.inject(2))

lemma hash_to_hex_inj [simp]: "hash_to_hex a = hash_to_hex b \<longleftrightarrow> a = b"
  by (metis hash_to_hex_def hex_of_bytes_inj hash.expand)

lemma u8_leading_zeros_ge: "r \<le> 8 \<Longrightarrow> r \<le> u8_leading_zeros b \<longleftrightarrow> unat b < 2 ^ (8 - r)"
proof -
  assume r: "r \<le> 8"
  have f: "filter (\<lambda>k. unat b < 2 ^ k) [0..<8] = [m..<8]" if "m \<le> 8"
    "\<forall>k<m. \<not> unat b < 2 ^ k" "\<forall>k\<ge>m. k < 8 \<longrightarrow> unat b < 2 ^ k" for m
  proof -
    have "[0..<8] = [0..<m] @ [m..<8]"
      using that(1) by (metis le_add_diff_inverse upt_add_eq_append zero_le)
    then show ?thesis using that(2,3) by (simp add: filter_empty_conv filter_id_conv)
  qed
  obtain m where m: "m \<le> 8" "\<forall>k<m. \<not> unat b < 2 ^ k" "\<forall>k\<ge>m. unat b < 2 ^ k"
  proof -
    have ex: "unat b < 2 ^ (8::nat)" using unsigned_less [of b] by simp
    let ?m = "LEAST k. unat b < 2 ^ k"
    have "unat b < 2 ^ ?m" by (rule LeastI [where P = "\<lambda>k. unat b < 2 ^ k", OF ex])
    moreover have "?m \<le> 8" by (rule Least_le [where P = "\<lambda>k. unat b < 2 ^ k", OF ex])
    moreover have "\<forall>k<?m. \<not> unat b < 2 ^ k" using not_less_Least by blast
    moreover have "\<forall>k\<ge>?m. unat b < 2 ^ k"
      using calculation(1) by (meson less_le_trans one_le_numeral power_increasing)
    ultimately show thesis using that by blast
  qed
  have "u8_leading_zeros b = 8 - m"
    using f [of m] m by (simp add: u8_leading_zeros_def)
  moreover have "unat b < 2 ^ (8 - r) \<longleftrightarrow> m \<le> 8 - r"
    using m(2,3) by (meson not_le)
  ultimately show ?thesis using r m(1) by auto
qed

end
