(* ===== verification/Vireon_Errors.thy ===== *)
theory Vireon_Errors
  imports Vireon_Crypto
begin

text \<open>
  \<^verbatim>\<open>vireon-core/src/errors.rs\<close>: the error type of the core, with one constructor per
  variant, and its \<open>Display\<close> text, which the node forwards to its callers and to the peer
  scoring of \<^verbatim>\<open>peer_reputation.rs\<close>.
\<close>

datatype VireonError =
    AmountOverflow
  | AmountParse string
  | TooManyDecimals string u32
  | InvalidAddress string
  | InvalidKey string
  | InvalidMnemonic string
  | InvalidDerivationPath string
  | InvalidSignature string
  | InvalidHex string
  | InvalidTransaction string
  | InvalidFee string
  | ZeroAmountTransaction
  | DuplicateTransactionHash string
  | InsufficientBalance string u64 u64
  | InvalidNonce string u64 u64
  | EmptyTransactions
  | TooManyTransactions nat nat
  | TransactionTooLarge nat nat
  | MissingCoinbase
  | DuplicateCoinbase
  | CoinbaseNotFirst
  | InvalidCoinbaseFee
  | InvalidCoinbaseAmount u64 u64
  | InvalidBaseFee u64 u64
  | InvalidMerkleRoot
  | InvalidNetwork string string
  | InvalidPreviousHash hash hash
  | InvalidHeight u64 u64
  | InvalidBlockVersion u32 u32 u64
  | InvalidCheckpoint u64 hash hash
  | InvalidCheckpointDefinition string
  | InvalidPow u8 nat
  | InvalidDifficultyAdjustment u8 u8
  | InvalidCoinbaseReward u64 u64
  | InvalidTimestamp u64 u64
  | InvalidFutureTimestamp u64 u64 u64
  | InvalidMedianTimePast u64 u64
  | SupplyOverflow
  | ChainWorkOverflow
  | InvalidGenesis string

type_synonym 'a result = "VireonError + 'a"

abbreviation show_word :: "'a::len word \<Rightarrow> string" where
  "show_word w \<equiv> show_nat (unat w)"

fun error_display :: "VireonError \<Rightarrow> string" where
  "error_display AmountOverflow = ''amount overflow''"
| "error_display (AmountParse v) = ''invalid amount: '' @ v"
| "error_display (TooManyDecimals v m) =
     ''too many decimal places in amount '' @ v @ ''; max is '' @ show_word m"
| "error_display (InvalidAddress m) = ''invalid address: '' @ m"
| "error_display (InvalidKey m) = ''invalid key: '' @ m"
| "error_display (InvalidMnemonic m) = ''invalid mnemonic: '' @ m"
| "error_display (InvalidDerivationPath m) = ''invalid derivation path: '' @ m"
| "error_display (InvalidSignature m) = ''invalid signature: '' @ m"
| "error_display (InvalidHex m) = ''invalid hex: '' @ m"
| "error_display (InvalidTransaction m) = ''invalid transaction: '' @ m"
| "error_display (InvalidFee m) = ''invalid fee: '' @ m"
| "error_display ZeroAmountTransaction = ''transaction amount must be greater than zero''"
| "error_display (DuplicateTransactionHash h) = ''duplicate transaction hash: '' @ h"
| "error_display (InsufficientBalance a av r) =
     ''insufficient balance for '' @ a @ '': available '' @ show_word av @ '', required '' @ show_word r"
| "error_display (InvalidNonce a e n) =
     ''invalid nonce for '' @ a @ '': expected '' @ show_word e @ '', got '' @ show_word n"
| "error_display EmptyTransactions = ''block must contain at least one transaction''"
| "error_display (TooManyTransactions m a) =
     ''block has too many transactions: '' @ show_nat a @ '' exceeds max '' @ show_nat m"
| "error_display (TransactionTooLarge m a) =
     ''transaction wire encoding is too large: '' @ show_nat a @ '' bytes exceeds max '' @ show_nat m"
| "error_display MissingCoinbase = ''block is missing the first coinbase transaction''"
| "error_display DuplicateCoinbase = ''block contains more than one coinbase transaction''"
| "error_display CoinbaseNotFirst = ''coinbase transaction must be first''"
| "error_display InvalidCoinbaseFee = ''coinbase transaction fee must be zero''"
| "error_display (InvalidCoinbaseAmount e a) =
     ''invalid coinbase amount: expected '' @ show_word e @ '', got '' @ show_word a"
| "error_display (InvalidBaseFee e a) =
     ''invalid base fee: expected '' @ show_word e @ '', got '' @ show_word a"
| "error_display InvalidMerkleRoot = ''invalid merkle root''"
| "error_display (InvalidNetwork e a) = ''invalid network: expected '' @ e @ '', got '' @ a"
| "error_display (InvalidPreviousHash e a) =
     ''invalid previous hash: expected '' @ hash_to_hex e @ '', got '' @ hash_to_hex a"
| "error_display (InvalidHeight e a) =
     ''invalid height: expected '' @ show_word e @ '', got '' @ show_word a"
| "error_display (InvalidBlockVersion e a h) =
     ''invalid block version at height '' @ show_word h @ '': expected '' @ show_word e @ '', got ''
       @ show_word a"
| "error_display (InvalidCheckpoint h e a) =
     ''invalid checkpoint at height '' @ show_word h @ '': expected '' @ hash_to_hex e @ '', got ''
       @ hash_to_hex a"
| "error_display (InvalidCheckpointDefinition m) = ''invalid checkpoint definition: '' @ m"
| "error_display (InvalidPow r a) =
     ''invalid proof of work: required '' @ show_word r @ '' leading zero bits, got '' @ show_nat a"
| "error_display (InvalidDifficultyAdjustment e a) =
     ''invalid difficulty adjustment: expected '' @ show_word e @ '' leading zero bits, got ''
       @ show_word a"
| "error_display (InvalidCoinbaseReward l a) =
     ''coinbase reward exceeds allowed reward: allowed '' @ show_word l @ '', got '' @ show_word a"
| "error_display (InvalidTimestamp p a) =
     ''invalid block timestamp: must be strictly greater than previous '' @ show_word p @ '', got ''
       @ show_word a"
| "error_display (InvalidFutureTimestamp n a d) =
     ''invalid block timestamp: '' @ show_word a @ '' is more than '' @ show_word d
       @ ''s ahead of local time '' @ show_word n"
| "error_display (InvalidMedianTimePast m a) =
     ''invalid block timestamp: must be strictly greater than median-time-past '' @ show_word m
       @ '', got '' @ show_word a"
| "error_display SupplyOverflow = ''emitted supply would exceed max supply''"
| "error_display ChainWorkOverflow = ''cumulative chain work overflow''"
| "error_display (InvalidGenesis m) = ''invalid genesis configuration: '' @ m"

end
