(* ===== verification/Vireon_Amount.thy ===== *)
theory Vireon_Amount
  imports Vireon_Errors
begin

text \<open>
  \<^verbatim>\<open>vireon-core/src/constants.rs\<close> (the numeric constants) and \<^verbatim>\<open>vireon-core/src/amount.rs\<close>:
  amounts in atomic units, their checked arithmetic, and the decimal text format. The
  lemmas show that printing and parsing are inverse up to the maximum supply and that
  every parsed amount respects it.
\<close>

section \<open>Constants\<close>

definition DECIMALS :: u32 where "DECIMALS = 8"
definition ATOMIC_UNITS_PER_VIRE :: u64 where "ATOMIC_UNITS_PER_VIRE = 100000000"
definition MAX_SUPPLY_VIRE :: u64 where "MAX_SUPPLY_VIRE = 60000000"
definition MAX_SUPPLY_ATOMIC :: u64 where "MAX_SUPPLY_ATOMIC = 6000000000000000"
definition BLOCK_TIME_SECONDS :: u64 where "BLOCK_TIME_SECONDS = 60"
definition MAX_FUTURE_BLOCK_DRIFT_SECONDS :: u64 where "MAX_FUTURE_BLOCK_DRIFT_SECONDS = 7200"
definition MEDIAN_TIME_PAST_WINDOW :: nat where "MEDIAN_TIME_PAST_WINDOW = 11"
definition HALVING_INTERVAL_BLOCKS :: u64 where "HALVING_INTERVAL_BLOCKS = 1576800"
definition INITIAL_BLOCK_REWARD_ATOMIC :: u64 where "INITIAL_BLOCK_REWARD_ATOMIC = 1902587519"
definition DAA_WINDOW_BLOCKS :: nat where "DAA_WINDOW_BLOCKS = 60"
definition DAA_SOLVETIME_CLAMP_MULTIPLIER :: u64 where "DAA_SOLVETIME_CLAMP_MULTIPLIER = 12"
definition INITIAL_BASE_FEE_ATOMIC :: u64 where "INITIAL_BASE_FEE_ATOMIC = 1"
definition MIN_BASE_FEE_ATOMIC :: u64 where "MIN_BASE_FEE_ATOMIC = 1"
definition BASE_FEE_MAX_CHANGE_DENOMINATOR :: u64 where "BASE_FEE_MAX_CHANGE_DENOMINATOR = 8"
definition TARGET_TRANSACTIONS_PER_BLOCK :: u64 where "TARGET_TRANSACTIONS_PER_BLOCK = 1"
definition MAX_TRANSACTIONS_PER_BLOCK :: nat where "MAX_TRANSACTIONS_PER_BLOCK = 1024"
definition MAX_TRANSACTION_WIRE_BYTES :: nat where "MAX_TRANSACTION_WIRE_BYTES = 16384"
definition TX_SIGNING_DOMAIN_PREFIX :: bytes where
  "TX_SIGNING_DOMAIN_PREFIX = str_bytes ''veiron-tx-ed25519-v1''"

lemmas core_constants =
  DECIMALS_def ATOMIC_UNITS_PER_VIRE_def MAX_SUPPLY_VIRE_def MAX_SUPPLY_ATOMIC_def
  BLOCK_TIME_SECONDS_def MAX_FUTURE_BLOCK_DRIFT_SECONDS_def MEDIAN_TIME_PAST_WINDOW_def
  HALVING_INTERVAL_BLOCKS_def INITIAL_BLOCK_REWARD_ATOMIC_def DAA_WINDOW_BLOCKS_def
  DAA_SOLVETIME_CLAMP_MULTIPLIER_def INITIAL_BASE_FEE_ATOMIC_def MIN_BASE_FEE_ATOMIC_def
  BASE_FEE_MAX_CHANGE_DENOMINATOR_def TARGET_TRANSACTIONS_PER_BLOCK_def
  MAX_TRANSACTIONS_PER_BLOCK_def MAX_TRANSACTION_WIRE_BYTES_def

section \<open>Amount\<close>

text \<open>The newtype \<open>Amount(u64)\<close>; \<open>from_atomic\<close> and \<open>as_atomic\<close> are the identity.\<close>

type_synonym amount = u64

definition amount_checked_add :: "amount \<Rightarrow> amount \<Rightarrow> amount result" where
  "amount_checked_add a b = ok_or (checked_add a b) AmountOverflow"

definition amount_checked_sub :: "amount \<Rightarrow> amount \<Rightarrow> amount result" where
  "amount_checked_sub a b = ok_or (checked_sub a b) AmountOverflow"

definition format_vire :: "amount \<Rightarrow> string" where
  "format_vire a =
     (let whole = a div ATOMIC_UNITS_PER_VIRE; fractional = a mod ATOMIC_UNITS_PER_VIRE
      in show_nat (unat whole) @ ''.'' @ show_padded (unat DECIMALS) (unat fractional))"

text \<open>The loop that appends \<open>'0'\<close> until the fraction has \<open>DECIMALS\<close> characters.\<close>

function pad_zeros :: "nat \<Rightarrow> string \<Rightarrow> string" where
  "pad_zeros w s = (if length s < w then pad_zeros w (s @ ''0'') else s)"
  by pat_completeness auto
termination
  by (relation "measure (\<lambda>(w, s). w - length s)") auto

declare pad_zeros.simps [simp del]

definition parse_vire :: "string \<Rightarrow> amount result" where
  "parse_vire input =
     (let trimmed = trim input in
      if trimmed = [] then Err (AmountParse input)
      else
        (let parts = split_on (CHR ''.'') trimmed;
             whole_part = (case parts of [] \<Rightarrow> [] | p # _ \<Rightarrow> p);
             fractional_part = (case parts of _ # f # _ \<Rightarrow> Some f | _ \<Rightarrow> None)
         in if length parts > 2 then Err (AmountParse trimmed)
            else
              rbind (if whole_part = [] then Ok 0
                     else ok_or (parse_u64 whole_part) (AmountParse trimmed)) (\<lambda>whole_value.
              rbind (ok_or (checked_mul whole_value ATOMIC_UNITS_PER_VIRE) AmountOverflow)
                (\<lambda>whole_atomic.
              rbind (case fractional_part of
                       None \<Rightarrow> Ok 0
                     | Some part \<Rightarrow>
                         if length part > unat DECIMALS then Err (TooManyDecimals trimmed DECIMALS)
                         else (let padded = pad_zeros (unat DECIMALS) part
                               in if padded = [] then Ok 0
                                  else ok_or (parse_u64 padded) (AmountParse trimmed)))
                (\<lambda>fractional_atomic.
              rbind (ok_or (checked_add whole_atomic fractional_atomic) AmountOverflow) (\<lambda>total.
              if total > MAX_SUPPLY_ATOMIC
              then Err (AmountParse (trimmed @ '' exceeds max supply''))
              else Ok total))))))"

section \<open>Facts\<close>

lemma amount_add_Ok [result_simps]:
  "amount_checked_add a b = Ok c \<longleftrightarrow> unat c = unat a + unat b"
  by (simp add: amount_checked_add_def checked_add_Some)

lemma amount_sub_Ok [result_simps]:
  "amount_checked_sub a b = Ok c \<longleftrightarrow> unat a = unat c + unat b"
  by (simp add: amount_checked_sub_def checked_sub_Some)

lemma amount_add_exact:
  "unat a + unat b < 2 ^ 64 \<Longrightarrow> amount_checked_add a b = Ok (a + b)"
  by (simp add: amount_checked_add_def checked_add_def)

lemma amount_sub_exact: "b \<le> a \<Longrightarrow> amount_checked_sub a b = Ok (a - b)"
  by (simp add: amount_checked_sub_def checked_sub_def)

lemma amount_add_Err [result_simps]:
  "amount_checked_add a b = Err e \<longleftrightarrow> e = AmountOverflow \<and> 2 ^ 64 \<le> unat a + unat b"
  by (auto simp: amount_checked_add_def checked_add_None)

lemma amount_sub_Err [result_simps]:
  "amount_checked_sub a b = Err e \<longleftrightarrow> e = AmountOverflow \<and> unat a < unat b"
  by (auto simp: amount_checked_sub_def checked_sub_None)

lemma amount_sub_zero [simp]: "amount_checked_sub a 0 = Ok a"
  by (simp add: amount_checked_sub_def checked_sub_def)

lemma pad_zeros_done: "w \<le> length s \<Longrightarrow> pad_zeros w s = s"
  by (subst pad_zeros.simps) simp

lemma pad_zeros_eq: "pad_zeros w s = s @ replicate (w - length s) (CHR ''0'')"
proof (induction w s rule: pad_zeros.induct)
  case (1 w s)
  show ?case
  proof (cases "length s < w")
    case True
    with 1 have "pad_zeros w (s @ ''0'') = s @ replicate (Suc (w - Suc (length s))) (CHR ''0'')"
      by simp
    moreover have "Suc (w - Suc (length s)) = w - length s" using True by simp
    ultimately show ?thesis using True by (subst pad_zeros.simps) simp
  next
    case False
    then show ?thesis by (simp add: pad_zeros_done)
  qed
qed

lemma digits_not_special:
  "48 \<le> char_code c \<and> char_code c \<le> 57 \<Longrightarrow> \<not> is_ws c \<and> c \<noteq> CHR ''.''"
  by (auto simp: is_ws_def)

lemma format_vire_parts:
  fixes a :: amount
  defines "w \<equiv> show_nat (unat (a div ATOMIC_UNITS_PER_VIRE))"
    and "f \<equiv> show_padded 8 (unat (a mod ATOMIC_UNITS_PER_VIRE))"
  shows "format_vire a = w @ ''.'' @ f"
    and "trim (format_vire a) = w @ ''.'' @ f"
    and "split_on (CHR ''.'') (w @ ''.'' @ f) = [w, f]"
    and "length f = 8"
proof -
  show fmt: "format_vire a = w @ ''.'' @ f"
    by (simp add: format_vire_def w_def f_def DECIMALS_def Let_def)
  have digits: "\<forall>c\<in>set w \<union> set f. 48 \<le> char_code c \<and> char_code c \<le> 57"
    by (auto simp: w_def f_def dest: show_nat_digits show_padded_digits)
  then have clean: "\<forall>c\<in>set w \<union> set f. \<not> is_ws c \<and> c \<noteq> CHR ''.''"
    using digits_not_special by blast
  have "\<not> is_ws (CHR ''.'')" by (simp add: is_ws_def)
  then show "trim (format_vire a) = w @ ''.'' @ f"
    unfolding fmt using clean by (intro trim_id) auto
  have "CHR ''.'' \<notin> set w" and "CHR ''.'' \<notin> set f" using clean by blast+
  then show "split_on (CHR ''.'') (w @ ''.'' @ f) = [w, f]"
    by (simp add: split_on_append split_on_none)
  have "unat (a mod ATOMIC_UNITS_PER_VIRE) < 10 ^ 8"
    by (simp add: ATOMIC_UNITS_PER_VIRE_def unat_mod)
  then show "length f = 8" by (simp add: f_def length_show_padded)
qed

lemma parse_u64_show_nat: "n < 2 ^ 64 \<Longrightarrow> parse_u64 (show_nat n) = Some (of_nat n)"
  by (rule parse_u64_digits) (auto simp: parse_show_nat dest: show_nat_digits)

lemma parse_u64_show_padded:
  "n < 2 ^ 64 \<Longrightarrow> show_padded w n \<noteq> [] \<Longrightarrow> parse_u64 (show_padded w n) = Some (of_nat n)"
  by (rule parse_u64_digits) (auto simp: parse_show_padded dest: show_padded_digits)


text \<open>Reading back the two numbers that \<open>format_vire\<close> printed gives the amount.\<close>

lemma amount_recombine:
  fixes a :: amount
  shows "checked_mul (a div ATOMIC_UNITS_PER_VIRE) ATOMIC_UNITS_PER_VIRE
           = Some (a div ATOMIC_UNITS_PER_VIRE * ATOMIC_UNITS_PER_VIRE)"
    and "checked_add (a div ATOMIC_UNITS_PER_VIRE * ATOMIC_UNITS_PER_VIRE)
           (a mod ATOMIC_UNITS_PER_VIRE) = Some a"
proof -
  have le: "unat a div 100000000 * 100000000 \<le> unat a" by simp
  have lt: "unat a div 100000000 * 100000000 < 2 ^ LENGTH(64)"
    by (rule le_less_trans [OF le]) (rule unsigned_less)
  have m: "unat (a div ATOMIC_UNITS_PER_VIRE * ATOMIC_UNITS_PER_VIRE) = unat a div 100000000 * 100000000"
    using lt by (subst unat_mult_small) (simp_all add: ATOMIC_UNITS_PER_VIRE_def unat_div)
  then show "checked_mul (a div ATOMIC_UNITS_PER_VIRE) ATOMIC_UNITS_PER_VIRE
           = Some (a div ATOMIC_UNITS_PER_VIRE * ATOMIC_UNITS_PER_VIRE)"
    by (simp add: checked_mul_Some) (simp add: ATOMIC_UNITS_PER_VIRE_def unat_div)
  show "checked_add (a div ATOMIC_UNITS_PER_VIRE * ATOMIC_UNITS_PER_VIRE)
           (a mod ATOMIC_UNITS_PER_VIRE) = Some a"
    by (simp add: checked_add_Some m) (simp add: ATOMIC_UNITS_PER_VIRE_def unat_mod)
qed

lemmas parse_vire_eval =
  parse_vire_def Let_def trim_def is_ws_def parse_u64_def digit_val_def pad_zeros.simps
  checked_mul_def checked_add_def core_constants

text \<open>
  Printing an amount and parsing the text gives the amount back for every amount up to
  the maximum supply; the text of a larger amount is rejected with the supply message.
\<close>

theorem parse_format_vire:
  "parse_vire (format_vire a) =
     (if a \<le> MAX_SUPPLY_ATOMIC then Ok a
      else Err (AmountParse (format_vire a @ '' exceeds max supply'')))"
proof -
  define w where "w = show_nat (unat (a div ATOMIC_UNITS_PER_VIRE))"
  define f where "f = show_padded 8 (unat (a mod ATOMIC_UNITS_PER_VIRE))"
  note parts = format_vire_parts [of a, folded w_def f_def]
  have whole: "parse_u64 w = Some (a div ATOMIC_UNITS_PER_VIRE)"
    using parse_u64_show_nat [of "unat (a div ATOMIC_UNITS_PER_VIRE)"]
      unsigned_less [of "a div ATOMIC_UNITS_PER_VIRE"] by (simp add: w_def)
  have "f \<noteq> []" using parts(4) by auto
  then have frac: "parse_u64 f = Some (a mod ATOMIC_UNITS_PER_VIRE)"
    using parse_u64_show_padded [of "unat (a mod ATOMIC_UNITS_PER_VIRE)" 8]
      unsigned_less [of "a mod ATOMIC_UNITS_PER_VIRE"] by (simp add: f_def)
  have "w \<noteq> []" by (simp add: w_def)
  with whole frac \<open>f \<noteq> []\<close> parts show ?thesis
    by (simp add: parse_vire_def Let_def DECIMALS_def pad_zeros_done amount_recombine
        linorder_not_le)
qed

text \<open>
  Every amount that \<open>parse_vire\<close> accepts is at most the maximum supply.
\<close>

theorem parse_vire_bounded: "parse_vire s = Ok a \<Longrightarrow> a \<le> MAX_SUPPLY_ATOMIC"
  by (auto simp: parse_vire_def Let_def result_simps not_less split: if_splits)

theorem parse_vire_bounded_witness:
  "parse_vire ''60000000.0'' = Ok 6000000000000000 \<and> (6000000000000000::u64) \<le> MAX_SUPPLY_ATOMIC"
proof -
  have "parse_vire ''60000000.0'' = Ok 6000000000000000"
    by (simp add: parse_vire_eval)
  then show ?thesis using parse_vire_bounded by blast
qed

text \<open>
  A sign inside the fraction is accepted: \<open>1.+5\<close> is read as 1.05, because the fraction
  is padded to \<open>+5000000\<close> and \<open>parse::<u64>\<close> takes a leading plus sign; the same digits
  without the sign are read as 1.5.
\<close>

theorem parse_vire_signed_fraction:
  "parse_vire ''1.+5'' = Ok 105000000 \<and> parse_vire ''1.5'' = Ok 150000000"
  by (simp add: parse_vire_eval)

end
