(* ===== verification/Vireon_Network.thy ===== *)
theory Vireon_Network
  imports Vireon_Amount
begin

text \<open>
  The network profiles and the frozen launch policies: \<^verbatim>\<open>network.rs\<close>, \<^verbatim>\<open>upgrade.rs\<close>,
  \<^verbatim>\<open>checkpoint.rs\<close>, \<^verbatim>\<open>protocol.rs\<close> of \<^verbatim>\<open>vireon-core/src\<close>. The lemmas show that the textual
  forms of a network are read back, that the difficulty range of every network is not
  empty, that flag-day upgrades select the last activated version, and what a checkpoint
  admits.
\<close>

section \<open>Network profiles\<close>

datatype network = Devnet | Testnet | MainnetCandidate

fun network_id :: "network \<Rightarrow> string" where
  "network_id Devnet = ''veiron-devnet''"
| "network_id Testnet = ''veiron-testnet''"
| "network_id MainnetCandidate = ''veiron-mainnet-candidate''"

fun human_name :: "network \<Rightarrow> string" where
  "human_name Devnet = ''Vireon Devnet''"
| "human_name Testnet = ''Vireon Testnet''"
| "human_name MainnetCandidate = ''Vireon Mainnet Candidate''"

fun address_prefix :: "network \<Rightarrow> string" where
  "address_prefix Devnet = ''dvire''"
| "address_prefix Testnet = ''tvire''"
| "address_prefix MainnetCandidate = ''vire''"

fun default_data_root :: "network \<Rightarrow> string" where
  "default_data_root Devnet = ''.vireon-dev''"
| "default_data_root Testnet = ''.vireon-testnet''"
| "default_data_root MainnetCandidate = ''.vireon-mainnet''"

fun default_rpc_port :: "network \<Rightarrow> u16" where
  "default_rpc_port Devnet = 8787"
| "default_rpc_port Testnet = 9787"
| "default_rpc_port MainnetCandidate = 10787"

fun default_p2p_port :: "network \<Rightarrow> u16" where
  "default_p2p_port Devnet = 18787"
| "default_p2p_port Testnet = 19787"
| "default_p2p_port MainnetCandidate = 20787"

fun genesis_config_path :: "network \<Rightarrow> string" where
  "genesis_config_path Devnet = ''vireon-devnet/config/genesis-devnet.json''"
| "genesis_config_path Testnet = ''vireon-devnet/config/genesis-testnet.json''"
| "genesis_config_path MainnetCandidate = ''configs/genesis.mainnet-candidate.toml''"

fun chain_magic_bytes :: "network \<Rightarrow> bytes" where
  "chain_magic_bytes Devnet = str_bytes ''VDEV''"
| "chain_magic_bytes Testnet = str_bytes ''VTST''"
| "chain_magic_bytes MainnetCandidate = str_bytes ''VMNC''"

fun status_label :: "network \<Rightarrow> string" where
  "status_label Devnet = ''Draft / Private Devnet''"
| "status_label Testnet = ''Planned / Public Testnet Candidate''"
| "status_label MainnetCandidate = ''Planned / Mainnet Candidate''"

definition is_resettable :: "network \<Rightarrow> bool" where
  "is_resettable n = (n = Devnet)"

definition is_local_private_only :: "network \<Rightarrow> bool" where
  "is_local_private_only n = (n = Devnet)"

definition allows_low_difficulty_defaults :: "network \<Rightarrow> bool" where
  "allows_low_difficulty_defaults n = (n = Devnet)"

definition requires_explicit_allow :: "network \<Rightarrow> bool" where
  "requires_explicit_allow n = (n = MainnetCandidate)"

fun difficulty_adjustment_window :: "network \<Rightarrow> nat" where
  "difficulty_adjustment_window Devnet = 60"
| "difficulty_adjustment_window Testnet = 60"
| "difficulty_adjustment_window MainnetCandidate = 60"

fun minimum_difficulty_leading_zero_bits :: "network \<Rightarrow> u8" where
  "minimum_difficulty_leading_zero_bits Devnet = 4"
| "minimum_difficulty_leading_zero_bits Testnet = 12"
| "minimum_difficulty_leading_zero_bits MainnetCandidate = 16"

fun maximum_difficulty_leading_zero_bits :: "network \<Rightarrow> u8" where
  "maximum_difficulty_leading_zero_bits Devnet = 24"
| "maximum_difficulty_leading_zero_bits Testnet = 32"
| "maximum_difficulty_leading_zero_bits MainnetCandidate = 34"

definition from_network_id :: "string \<Rightarrow> network option" where
  "from_network_id v =
     (if v = ''veiron-devnet'' then Some Devnet
      else if v = ''veiron-testnet'' then Some Testnet
      else if v = ''veiron-mainnet-candidate'' then Some MainnetCandidate
      else None)"

definition from_address_prefix :: "string \<Rightarrow> network option" where
  "from_address_prefix v =
     (if v = ''dvire'' then Some Devnet
      else if v = ''tvire'' then Some Testnet
      else if v = ''vire'' then Some MainnetCandidate
      else None)"

definition network_display :: "network \<Rightarrow> string" where
  "network_display n = network_id n"

definition network_from_str :: "string \<Rightarrow> network result" where
  "network_from_str v =
     (if v = ''devnet'' \<or> v = ''veiron-devnet'' then Ok Devnet
      else if v = ''testnet'' \<or> v = ''veiron-testnet'' then Ok Testnet
      else if v = ''mainnet-candidate'' \<or> v = ''veiron-mainnet-candidate'' then Ok MainnetCandidate
      else Err (InvalidNetwork
        ''mainnet-candidate (devnet and testnet are internal test profiles)'' v))"

section \<open>Upgrade activation\<close>

definition LAUNCH_PROTOCOL_VERSION :: u32 where "LAUNCH_PROTOCOL_VERSION = 1"
definition LAUNCH_BLOCK_VERSION :: u32 where "LAUNCH_BLOCK_VERSION = 1"

record scheduled_upgrade =
  su_protocol_version :: u32
  su_block_version :: u32
  su_activation_height :: u64
  su_status_label :: string

fun scheduled_protocol_upgrades :: "network \<Rightarrow> scheduled_upgrade list" where
  "scheduled_protocol_upgrades Devnet = []"
| "scheduled_protocol_upgrades Testnet = []"
| "scheduled_protocol_upgrades MainnetCandidate = []"

text \<open>The loop over a schedule, shared by both version functions.\<close>

fun version_from_schedule ::
  "(scheduled_upgrade \<Rightarrow> u32) \<Rightarrow> u32 \<Rightarrow> scheduled_upgrade list \<Rightarrow> u64 \<Rightarrow> u32" where
  "version_from_schedule sel current [] height = current"
| "version_from_schedule sel current (u # us) height =
     version_from_schedule sel (if height \<ge> su_activation_height u then sel u else current) us height"

definition protocol_version_at_height :: "network \<Rightarrow> u64 \<Rightarrow> u32" where
  "protocol_version_at_height n height =
     version_from_schedule su_protocol_version LAUNCH_PROTOCOL_VERSION
       (scheduled_protocol_upgrades n) height"

definition expected_block_version :: "network \<Rightarrow> u64 \<Rightarrow> u32" where
  "expected_block_version n height =
     version_from_schedule su_block_version LAUNCH_BLOCK_VERSION
       (scheduled_protocol_upgrades n) height"

record upgrade_policy =
  up_policy_id :: string
  up_activation_mode :: string
  up_network_id :: string
  up_launch_protocol_version :: u32
  up_launch_block_version :: u32
  up_current_protocol_version :: u32
  up_current_block_version :: u32
  up_scheduled_upgrades :: "scheduled_upgrade list"
  up_migration_path :: string

definition launch_upgrade_policy :: "network \<Rightarrow> upgrade_policy" where
  "launch_upgrade_policy n =
     \<lparr>up_policy_id = ''vireon-flag-day-upgrade-v1'',
      up_activation_mode = ''fixed-height-flag-day'',
      up_network_id = network_id n,
      up_launch_protocol_version = LAUNCH_PROTOCOL_VERSION,
      up_launch_block_version = LAUNCH_BLOCK_VERSION,
      up_current_protocol_version = protocol_version_at_height n 0,
      up_current_block_version = expected_block_version n 0,
      up_scheduled_upgrades = scheduled_protocol_upgrades n,
      up_migration_path = ''Launch uses fixed-height flag-day activation only. Any later negotiated or governance-driven activation path remains a separate follow-up freeze.''\<rparr>"

section \<open>Checkpoints\<close>

record chain_checkpoint =
  cp_height :: u64
  cp_hash_hex :: string
  cp_status_label :: string

definition mainnet_candidate_checkpoint :: chain_checkpoint where
  "mainnet_candidate_checkpoint =
     \<lparr>cp_height = 0,
      cp_hash_hex = ''0000f156b7271a3807b16efdf96d21ac30011fbdcd2ce68af7fdd3bc77ae4f3d'',
      cp_status_label = ''Planned / Mainnet Candidate''\<rparr>"

fun scheduled_checkpoints :: "network \<Rightarrow> chain_checkpoint list" where
  "scheduled_checkpoints Devnet = []"
| "scheduled_checkpoints Testnet = []"
| "scheduled_checkpoints MainnetCandidate = [mainnet_candidate_checkpoint]"

definition checkpoint_at_height :: "network \<Rightarrow> u64 \<Rightarrow> chain_checkpoint option" where
  "checkpoint_at_height n height = find (\<lambda>c. cp_height c = height) (scheduled_checkpoints n)"

definition validate_checkpoint :: "network \<Rightarrow> u64 \<Rightarrow> hash \<Rightarrow> unit result" where
  "validate_checkpoint n height actual_hash =
     (case checkpoint_at_height n height of
        None \<Rightarrow> Ok ()
      | Some checkpoint \<Rightarrow>
          rbind (map_err InvalidCheckpointDefinition (hash_from_hex (cp_hash_hex checkpoint)))
            (\<lambda>expected_hash.
               if actual_hash \<noteq> expected_hash
               then Err (InvalidCheckpoint height expected_hash actual_hash)
               else Ok ()))"

record checkpoint_policy =
  ck_policy_id :: string
  ck_mode :: string
  ck_network_id :: string
  ck_checkpoints :: "chain_checkpoint list"
  ck_relaxation_path :: string

definition launch_checkpoint_policy :: "network \<Rightarrow> checkpoint_policy" where
  "launch_checkpoint_policy n =
     \<lparr>ck_policy_id = ''vireon-hardcoded-checkpoints-v1'',
      ck_mode = ''social-hardcoded-early-network'',
      ck_network_id = network_id n,
      ck_checkpoints = scheduled_checkpoints n,
      ck_relaxation_path = ''Checkpoints remain active for early environments and can be reduced later only through an explicit follow-up protocol freeze.''\<rparr>"

section \<open>Protocol parameters\<close>

record protocol_parameters =
  pp_parameters_id :: string
  pp_protocol_version :: u32
  pp_block_version :: u32
  pp_network :: network
  pp_network_id :: string
  pp_network_name :: string
  pp_status_label :: string
  pp_project_name :: string
  pp_ticker :: string
  pp_address_prefix :: string
  pp_decimals :: u32
  pp_atomic_units_per_vire :: u64
  pp_max_supply_vire :: u64
  pp_max_supply_atomic :: u64
  pp_block_time_seconds :: u64
  pp_halving_interval_blocks :: u64
  pp_initial_block_reward_vire :: string
  pp_initial_block_reward_atomic :: u64
  pp_consensus :: string
  pp_pow_hash_algorithm :: string
  pp_difficulty_adjustment_algorithm :: string
  pp_fee_policy :: string
  pp_default_rpc_port :: u16
  pp_default_p2p_port :: u16
  pp_chain_magic_bytes :: bytes
  pp_max_transactions_per_block :: nat
  pp_max_transaction_wire_bytes :: nat
  pp_median_time_past_window :: nat
  pp_max_future_block_drift_seconds :: u64

definition launch_protocol_parameters :: "network \<Rightarrow> protocol_parameters" where
  "launch_protocol_parameters n =
     \<lparr>pp_parameters_id = ''vireon-launch-parameters-v1'',
      pp_protocol_version = LAUNCH_PROTOCOL_VERSION,
      pp_block_version = LAUNCH_BLOCK_VERSION,
      pp_network = n,
      pp_network_id = network_id n,
      pp_network_name = human_name n,
      pp_status_label = status_label n,
      pp_project_name = ''Vireon Network'',
      pp_ticker = ''VIRE'',
      pp_address_prefix = address_prefix n,
      pp_decimals = DECIMALS,
      pp_atomic_units_per_vire = ATOMIC_UNITS_PER_VIRE,
      pp_max_supply_vire = MAX_SUPPLY_VIRE,
      pp_max_supply_atomic = MAX_SUPPLY_ATOMIC,
      pp_block_time_seconds = BLOCK_TIME_SECONDS,
      pp_halving_interval_blocks = HALVING_INTERVAL_BLOCKS,
      pp_initial_block_reward_vire = ''19.02587519'',
      pp_initial_block_reward_atomic = INITIAL_BLOCK_REWARD_ATOMIC,
      pp_consensus = ''PoW first'',
      pp_pow_hash_algorithm = ''FiroPoW-0.9.4'',
      pp_difficulty_adjustment_algorithm = ''LWMA'',
      pp_fee_policy = ''EIP-1559-like base fee burn plus priority tip'',
      pp_default_rpc_port = default_rpc_port n,
      pp_default_p2p_port = default_p2p_port n,
      pp_chain_magic_bytes = chain_magic_bytes n,
      pp_max_transactions_per_block = MAX_TRANSACTIONS_PER_BLOCK,
      pp_max_transaction_wire_bytes = MAX_TRANSACTION_WIRE_BYTES,
      pp_median_time_past_window = MEDIAN_TIME_PAST_WINDOW,
      pp_max_future_block_drift_seconds = MAX_FUTURE_BLOCK_DRIFT_SECONDS\<rparr>"

section \<open>Facts\<close>

lemma from_network_id_Some [simp]: "from_network_id v = Some n \<longleftrightarrow> v = network_id n"
  by (cases n) (auto simp: from_network_id_def)

lemma from_address_prefix_Some [simp]: "from_address_prefix v = Some n \<longleftrightarrow> v = address_prefix n"
  by (cases n) (auto simp: from_address_prefix_def)

lemma network_id_inj [simp]: "network_id a = network_id b \<longleftrightarrow> a = b"
  by (cases a; cases b) simp_all

lemma address_prefix_inj [simp]: "address_prefix a = address_prefix b \<longleftrightarrow> a = b"
  by (cases a; cases b) simp_all

lemma difficulty_range:
  "minimum_difficulty_leading_zero_bits n \<le> maximum_difficulty_leading_zero_bits n"
  by (cases n) simp_all

lemma difficulty_max_34: "unat (maximum_difficulty_leading_zero_bits n) \<le> 34"
  by (cases n) simp_all

lemma expected_block_version_launch [simp]: "expected_block_version n h = LAUNCH_BLOCK_VERSION"
  by (cases n) (simp_all add: expected_block_version_def)

text \<open>A schedule yields the version of its last activated entry.\<close>

lemma version_from_schedule_last:
  "version_from_schedule sel v us h =
     (case filter (\<lambda>u. su_activation_height u \<le> h) us of [] \<Rightarrow> v | as \<Rightarrow> sel (last as))"
  by (induction us arbitrary: v) (auto split: list.splits)

lemma validate_checkpoint_unscheduled:
  "checkpoint_at_height n h = None \<Longrightarrow> validate_checkpoint n h x = Ok ()"
  by (simp add: validate_checkpoint_def)

text \<open>
  The textual names of the networks are read back: \<open>from_network_id\<close>,
  \<open>from_address_prefix\<close> and \<open>FromStr\<close> invert \<open>network_id\<close>, \<open>address_prefix\<close> and \<open>Display\<close>,
  and no other text has that network id or address prefix.
\<close>

theorem network_text_roundtrip:
  "(from_network_id v = Some n \<longleftrightarrow> v = network_id n)
   \<and> (from_address_prefix p = Some n \<longleftrightarrow> p = address_prefix n)
   \<and> network_from_str (network_display n) = Ok n"
  by (cases n) (auto simp: network_from_str_def network_display_def from_network_id_def
      from_address_prefix_def)

text \<open>
  On the mainnet candidate a block at height 0 passes the checkpoint exactly when its
  hash prints as the pinned genesis hash; no other height and no other network has one.
\<close>

theorem checkpoint_admits:
  "validate_checkpoint n h x = Ok () \<longleftrightarrow>
     (n = MainnetCandidate \<and> h = 0 \<longrightarrow> hash_to_hex x = cp_hash_hex mainnet_candidate_checkpoint)"
proof (cases "n = MainnetCandidate \<and> h = 0")
  case True
  obtain g where g: "hash_from_hex (cp_hash_hex mainnet_candidate_checkpoint) = Ok g"
    and hex: "hash_to_hex g = cp_hash_hex mainnet_candidate_checkpoint"
  proof -
    let ?g = "Hash [0x00,0x00,0xf1,0x56,0xb7,0x27,0x1a,0x38,0x07,0xb1,0x6e,0xfd,0xf9,0x6d,0x21,0xac,
      0x30,0x01,0x1f,0xbd,0xcd,0x2c,0xe6,0x8a,0xf7,0xfd,0xd3,0xbc,0x77,0xae,0x4f,0x3d]"
    have h: "hash_to_hex ?g = cp_hash_hex mainnet_candidate_checkpoint"
      by (simp add: hash_to_hex_def hex_char_def mainnet_candidate_checkpoint_def char_of_def
          drop_bit_eq_div bit_0)
    have "hash_from_hex (hash_to_hex ?g) = Ok ?g"
      by (simp add: hash_from_hex_def hash_to_hex_def trim_id hex_of_bytes_not_ws
          decode_hex_of_bytes HASH_SIZE_def del: hex_of_bytes.simps)
    with h that show thesis by simp
  qed
  have c: "checkpoint_at_height n h = Some mainnet_candidate_checkpoint"
    using True by (simp add: checkpoint_at_height_def mainnet_candidate_checkpoint_def)
  have "validate_checkpoint n h x = Ok () \<longleftrightarrow> x = g"
    by (simp add: validate_checkpoint_def c g)
  also have "\<dots> \<longleftrightarrow> hash_to_hex x = cp_hash_hex mainnet_candidate_checkpoint"
    by (simp flip: hex)
  finally show ?thesis using True by simp
next
  case False
  then have "checkpoint_at_height n h = None"
    by (cases n) (auto simp: checkpoint_at_height_def mainnet_candidate_checkpoint_def)
  with False show ?thesis by (auto simp: validate_checkpoint_unscheduled)
qed

theorem checkpoint_admits_witness:
  "validate_checkpoint Devnet 7 hash_zero = Ok () \<and>
   validate_checkpoint MainnetCandidate 0 hash_zero \<noteq> Ok ()"
  using checkpoint_admits [of Devnet 7 hash_zero] checkpoint_admits [of MainnetCandidate 0 hash_zero]
  by (simp add: hash_to_hex_def hash_zero_def HASH_SIZE_def numeral_eq_Suc hex_char_def
      mainnet_candidate_checkpoint_def char_of_def bit_0)

end
