(* ===== verification/Vireon_Keys.thy ===== *)
theory Vireon_Keys
  imports Vireon_Network
begin

text \<open>
  Keys and addresses: \<^verbatim>\<open>standards.rs\<close>, \<^verbatim>\<open>signing.rs\<close>, \<^verbatim>\<open>address.rs\<close> and \<^verbatim>\<open>seed.rs\<close> of
  \<^verbatim>\<open>vireon-core/src\<close>. Ed25519, Bech32, BIP-39 and HMAC are fields of \<open>externals\<close>; what
  the code relies on is stated as \<open>bech32_laws\<close> and \<open>ed25519_laws\<close>. The lemmas show that an
  accepted address text is the canonical text of the address it denotes, that hexadecimal
  keys are read back, and that derivation paths are hardened without wrap-around.
\<close>

unbundle bit_operations_syntax

section \<open>Frozen standards\<close>

definition ADDRESS_VERSION :: u8 where "ADDRESS_VERSION = 0"
definition ADDRESS_PAYLOAD_SIZE :: nat where "ADDRESS_PAYLOAD_SIZE = 33"
definition HD_DERIVATION_PURPOSE :: u32 where "HD_DERIVATION_PURPOSE = 44"
definition HD_DERIVATION_COIN_TYPE :: u32 where "HD_DERIVATION_COIN_TYPE = 7330"

record address_standard =
  as_standard_id :: string
  as_network_id :: string
  as_network_name :: string
  as_address_prefix :: string
  as_encoding :: string
  as_checksum_rule :: string
  as_canonical_case :: string
  as_payload_version :: u8
  as_payload_size_bytes :: nat
  as_payload_layout :: string
  as_public_key_scheme :: string

definition launch_address_standard :: "network \<Rightarrow> address_standard" where
  "launch_address_standard n =
     \<lparr>as_standard_id = ''vireon-address-bech32m-ed25519-v1'',
      as_network_id = network_id n,
      as_network_name = human_name n,
      as_address_prefix = address_prefix n,
      as_encoding = ''Bech32m'',
      as_checksum_rule = ''Bech32m canonical lowercase checksum'',
      as_canonical_case = ''lowercase'',
      as_payload_version = ADDRESS_VERSION,
      as_payload_size_bytes = ADDRESS_PAYLOAD_SIZE,
      as_payload_layout = ''version-byte || ed25519-public-key'',
      as_public_key_scheme = ''ed25519''\<rparr>"

record signing_standard =
  ss_standard_id :: string
  ss_public_key_scheme :: string
  ss_private_key_format :: string
  ss_signature_scheme :: string
  ss_public_key_size_bytes :: nat
  ss_signature_size_bytes :: nat
  ss_tx_signing_domain :: string
  ss_implementation_status :: string

definition launch_signing_standard :: signing_standard where
  "launch_signing_standard =
     \<lparr>ss_standard_id = ''vireon-signature-ed25519-v1'',
      ss_public_key_scheme = ''ed25519'',
      ss_private_key_format = ''raw 32-byte ed25519 signing seed'',
      ss_signature_scheme = ''ed25519'',
      ss_public_key_size_bytes = 32,
      ss_signature_size_bytes = 64,
      ss_tx_signing_domain = ''veiron-tx-ed25519-v1'',
      ss_implementation_status = ''Prototype implementation on frozen launch standard''\<rparr>"

section \<open>Hexadecimal keys\<close>

definition signing_decode_hex_nibble :: "u8 \<Rightarrow> u8 result" where
  "signing_decode_hex_nibble b =
     (if 48 \<le> b \<and> b \<le> 57 then Ok (b - 48)
      else if 97 \<le> b \<and> b \<le> 102 then Ok (b - 97 + 10)
      else if 65 \<le> b \<and> b \<le> 70 then Ok (b - 65 + 10)
      else Err (InvalidHex (''invalid hex character '' @ [char_of (unat b)])))"

definition parse_hex_array :: "nat \<Rightarrow> string \<Rightarrow> bytes result" where
  "parse_hex_array N input =
     (let trimmed = trim input in
      if length trimmed \<noteq> N * 2
      then Err (InvalidHex (''expected '' @ show_nat (N * 2) @ '' hex chars, got ''
             @ show_nat (length trimmed)))
      else decode_hex_pairs signing_decode_hex_nibble (str_bytes trimmed))"

section \<open>Signing keys\<close>

datatype public_key = PublicKey (pk_bytes: bytes)
datatype signature = Signature (sig_bytes: bytes)
datatype private_key = PrivateKey (sk_bytes: bytes)

definition pk_wf :: "public_key \<Rightarrow> bool" where "pk_wf k = (length (pk_bytes k) = 32)"
definition sig_wf :: "signature \<Rightarrow> bool" where "sig_wf s = (length (sig_bytes s) = 64)"

definition public_key_from_bytes :: "externals \<Rightarrow> bytes \<Rightarrow> public_key result" where
  "public_key_from_bytes X bs =
     rbind (map_err InvalidKey (ed_check_key X bs)) (\<lambda>_. Ok (PublicKey bs))"

definition public_key_from_hex :: "externals \<Rightarrow> string \<Rightarrow> public_key result" where
  "public_key_from_hex X input = rbind (parse_hex_array 32 input) (public_key_from_bytes X)"

definition public_key_to_hex :: "public_key \<Rightarrow> string" where
  "public_key_to_hex k = hex_of_bytes (pk_bytes k)"

definition public_key_verify :: "externals \<Rightarrow> public_key \<Rightarrow> bytes \<Rightarrow> signature \<Rightarrow> unit result" where
  "public_key_verify X k message sig =
     rbind (map_err InvalidKey (ed_check_key X (pk_bytes k))) (\<lambda>_.
       map_err InvalidSignature (ed_verify X (pk_bytes k) message (sig_bytes sig)))"

definition signature_from_bytes :: "bytes \<Rightarrow> signature result" where
  "signature_from_bytes bs = Ok (Signature bs)"

definition signature_from_hex :: "string \<Rightarrow> signature result" where
  "signature_from_hex input = rbind (parse_hex_array 64 input) signature_from_bytes"

definition signature_to_hex :: "signature \<Rightarrow> string" where
  "signature_to_hex s = hex_of_bytes (sig_bytes s)"

definition private_key_from_hex :: "string \<Rightarrow> private_key result" where
  "private_key_from_hex input = rbind (parse_hex_array 32 input) (\<lambda>bs. Ok (PrivateKey bs))"

definition private_key_to_hex :: "private_key \<Rightarrow> string" where
  "private_key_to_hex k = hex_of_bytes (sk_bytes k)"

definition private_key_public_key :: "externals \<Rightarrow> private_key \<Rightarrow> public_key" where
  "private_key_public_key X k = PublicKey (ed_public_key X (sk_bytes k))"

definition private_key_sign :: "externals \<Rightarrow> private_key \<Rightarrow> bytes \<Rightarrow> signature" where
  "private_key_sign X k message = Signature (ed_sign X (sk_bytes k) message)"

section \<open>Addresses\<close>

record address =
  addr_network :: network
  addr_payload :: bytes

definition address_wf :: "address \<Rightarrow> bool" where
  "address_wf a \<longleftrightarrow> length (addr_payload a) = ADDRESS_PAYLOAD_SIZE
     \<and> hd (addr_payload a) = ADDRESS_VERSION"

definition address_from_public_key :: "public_key \<Rightarrow> network \<Rightarrow> address" where
  "address_from_public_key k n = \<lparr>addr_network = n, addr_payload = ADDRESS_VERSION # pk_bytes k\<rparr>"

definition ascii_lower :: "char \<Rightarrow> char" where
  "ascii_lower c = (if 65 \<le> char_code c \<and> char_code c \<le> 90 then char_of (char_code c + 32) else c)"

definition address_parse :: "externals \<Rightarrow> string \<Rightarrow> address result" where
  "address_parse X input =
     (if input \<noteq> map ascii_lower input
      then Err (InvalidAddress ''address must use lowercase canonical encoding'')
      else
        rbind (map_err InvalidAddress (bech32_decode X input)) (\<lambda>(hrp, data, variant).
        rbind (ok_or (from_address_prefix hrp)
                 (InvalidAddress (''unsupported address prefix '' @ hrp))) (\<lambda>n.
        if variant \<noteq> Bech32m
        then Err (InvalidAddress ''address must use Bech32m checksum'')
        else
          rbind (map_err InvalidAddress (from_base32 X data)) (\<lambda>bs.
          if length bs \<noteq> ADDRESS_PAYLOAD_SIZE
          then Err (InvalidAddress (''expected '' @ show_nat ADDRESS_PAYLOAD_SIZE
                 @ '' payload bytes, got '' @ show_nat (length bs)))
          else if hd bs \<noteq> ADDRESS_VERSION
          then Err (InvalidAddress (''unsupported address version '' @ show_word (hd bs)))
          else Ok \<lparr>addr_network = n, addr_payload = bs\<rparr>))))"

text \<open>
  \<open>Display\<close> turns an encoder error into \<open>fmt::Error\<close>. The encoder rejects malformed
  prefixes only, and the three prefixes are constants, so \<open>to_string\<close> is written with the
  empty text in that branch; \<open>bech32_laws\<close> rules it out.
\<close>

definition address_display :: "externals \<Rightarrow> address \<Rightarrow> unit + string" where
  "address_display X a =
     map_err (\<lambda>_. ())
       (bech32_encode X (address_prefix (addr_network a)) (to_base32 X (addr_payload a)) Bech32m)"

definition address_to_string :: "externals \<Rightarrow> address \<Rightarrow> string" where
  "address_to_string X a = (case address_display X a of Inr s \<Rightarrow> s | Inl _ \<Rightarrow> [])"

definition address_to_public_key :: "externals \<Rightarrow> address \<Rightarrow> public_key result" where
  "address_to_public_key X a = public_key_from_bytes X (tl (addr_payload a))"

definition address_matches_public_key :: "address \<Rightarrow> public_key \<Rightarrow> bool" where
  "address_matches_public_key a k = (tl (addr_payload a) = pk_bytes k)"

text \<open>
  What the code relies on of the Bech32 crate (BIP-173 and BIP-350): encoding under one of
  the three prefixes succeeds with a lowercase text that decodes to what was encoded; a
  lowercase text is the encoding of what it decodes to; and the conversion between 8-bit
  and 5-bit groups, with zero padding, is one to one.
\<close>

definition bech32_laws :: "externals \<Rightarrow> bool" where
  "bech32_laws X \<longleftrightarrow>
     (\<forall>n d. \<exists>s. bech32_encode X (address_prefix n) d Bech32m = Ok s
            \<and> map ascii_lower s = s
            \<and> bech32_decode X s = Ok (address_prefix n, d, Bech32m))
   \<and> (\<forall>s h d v. map ascii_lower s = s \<longrightarrow> bech32_decode X s = Ok (h, d, v) \<longrightarrow>
            bech32_encode X h d v = Ok s)
   \<and> (\<forall>bs. from_base32 X (to_base32 X bs) = Ok bs)
   \<and> (\<forall>d bs. from_base32 X d = Ok bs \<longrightarrow> to_base32 X bs = d)"

text \<open>Ed25519 (RFC 8032): sizes, and a signature made with a key verifies under it.\<close>

definition ed25519_laws :: "externals \<Rightarrow> bool" where
  "ed25519_laws X \<longleftrightarrow>
     (\<forall>k. length (ed_public_key X k) = 32 \<and> ed_check_key X (ed_public_key X k) = Ok ())
   \<and> (\<forall>k m. length (ed_sign X k m) = 64 \<and> ed_verify X (ed_public_key X k) m (ed_sign X k m) = Ok ())"

section \<open>Wallet seeds\<close>

datatype mnemonic_word_count = Twelve | TwentyFour

fun word_count_as_usize :: "mnemonic_word_count \<Rightarrow> nat" where
  "word_count_as_usize Twelve = 12"
| "word_count_as_usize TwentyFour = 24"

definition word_count_from_u16 :: "u16 \<Rightarrow> mnemonic_word_count result" where
  "word_count_from_u16 v =
     (if v = 12 then Ok Twelve else if v = 24 then Ok TwentyFour
      else Err (InvalidMnemonic (''unsupported mnemonic word count '' @ show_word v
             @ ''; expected 12 or 24'')))"

definition HARDENED_OFFSET :: u32 where "HARDENED_OFFSET = 2147483648"

record derivation_path =
  dp_account :: u32
  dp_change :: u32
  dp_address_index :: u32

definition hardened :: "u32 \<Rightarrow> u32 result" where
  "hardened index =
     ok_or (checked_add index HARDENED_OFFSET)
       (InvalidDerivationPath (''path segment '' @ show_word index @ '' is too large''))"

definition hardened_segments :: "derivation_path \<Rightarrow> (u32 list) result" where
  "hardened_segments p =
     rbind (hardened HD_DERIVATION_PURPOSE) (\<lambda>a.
     rbind (hardened HD_DERIVATION_COIN_TYPE) (\<lambda>b.
     rbind (hardened (dp_account p)) (\<lambda>c.
     rbind (hardened (dp_change p)) (\<lambda>d.
     rbind (hardened (dp_address_index p)) (\<lambda>e. Ok [a, b, c, d, e])))))"

definition path_display :: "derivation_path \<Rightarrow> string" where
  "path_display p =
     ''m/'' @ show_word HD_DERIVATION_PURPOSE @ [CHR 0x27] @ ''/''
      @ show_word HD_DERIVATION_COIN_TYPE @ [CHR 0x27] @ ''/''
      @ show_word (dp_account p) @ [CHR 0x27] @ ''/''
      @ show_word (dp_change p) @ [CHR 0x27] @ ''/''
      @ show_word (dp_address_index p) @ [CHR 0x27]"

record derived_node =
  dn_key :: bytes
  dn_chain_code :: bytes

definition derive_node :: "externals \<Rightarrow> bytes \<Rightarrow> bytes \<Rightarrow> derived_node result" where
  "derive_node X key data =
     rbind (map_err InvalidDerivationPath (hmac_sha512 X key data)) (\<lambda>digest.
       Ok \<lparr>dn_key = take 32 digest, dn_chain_code = drop 32 digest\<rparr>)"

definition derive_master_node :: "externals \<Rightarrow> bytes \<Rightarrow> derived_node result" where
  "derive_master_node X seed = derive_node X (str_bytes ''ed25519 seed'') seed"

text \<open>\<open>to_be_bytes\<close> is the reverse of \<open>to_le_bytes\<close>.\<close>

definition derive_child_node :: "externals \<Rightarrow> derived_node \<Rightarrow> u32 \<Rightarrow> derived_node result" where
  "derive_child_node X node index =
     derive_node X (dn_chain_code node) (0 # dn_key node @ rev (le_bytes index))"

definition normalize_mnemonic :: "externals \<Rightarrow> string \<Rightarrow> string result" where
  "normalize_mnemonic X phrase = map_err InvalidMnemonic (bip39_parse X phrase)"

definition derive_private_key_from_mnemonic ::
  "externals \<Rightarrow> string \<Rightarrow> string \<Rightarrow> derivation_path \<Rightarrow> private_key result" where
  "derive_private_key_from_mnemonic X phrase passphrase path =
     rbind (map_err InvalidMnemonic (bip39_parse X phrase)) (\<lambda>mnemonic.
     rbind (derive_master_node X (bip39_seed X mnemonic passphrase)) (\<lambda>master.
     rbind (hardened_segments path) (\<lambda>segments.
     rbind (try_fold (derive_child_node X) master segments) (\<lambda>node.
       Ok (PrivateKey (dn_key node))))))"

section \<open>Facts\<close>

lemma signing_nibble_eq: "signing_decode_hex_nibble b = map_err InvalidHex (decode_hex_nibble b)"
  by (simp add: signing_decode_hex_nibble_def decode_hex_nibble_def)

lemma decode_hex_pairs_map_err:
  "decode_hex_pairs (\<lambda>b. map_err f (nib b)) bs = map_err f (decode_hex_pairs nib bs)"
proof (induction nib bs rule: decode_hex_pairs.induct)
  case (1 nib a b rest)
  show ?case
  proof (cases "nib a")
    case h: (Inr h)
    show ?thesis
    proof (cases "nib b")
      case (Inr l)
      with h 1 show ?thesis by (cases "decode_hex_pairs nib rest") simp_all
    qed (simp add: h)
  qed simp
qed simp_all

lemma parse_hex_array_hex: "parse_hex_array (length bs) (hex_of_bytes bs) = Ok bs"
proof -
  have "signing_decode_hex_nibble = (\<lambda>b. map_err InvalidHex (decode_hex_nibble b))"
    by (rule ext) (rule signing_nibble_eq)
  note eq = this
  have "decode_hex_pairs signing_decode_hex_nibble (str_bytes (hex_of_bytes bs)) = Ok bs"
    unfolding eq by (simp only: decode_hex_pairs_map_err decode_hex_of_bytes map_err_simps)
  then show ?thesis
    by (simp add: parse_hex_array_def trim_id hex_of_bytes_not_ws)
qed

lemma address_parse_Ok:
  "address_parse X s = Ok a \<longleftrightarrow>
     map ascii_lower s = s \<and> address_wf a \<and>
     (\<exists>data. bech32_decode X s = Ok (address_prefix (addr_network a), data, Bech32m)
         \<and> from_base32 X data = Ok (addr_payload a))"
  by (cases a)
     (auto simp: address_parse_def address_wf_def result_simps split: if_splits)

lemma address_parse_wf: "address_parse X s = Ok a \<Longrightarrow> address_wf a"
  by (simp add: address_parse_Ok)

lemma address_wf_from_key [simp]: "pk_wf k \<Longrightarrow> address_wf (address_from_public_key k n)"
  by (simp add: address_wf_def address_from_public_key_def pk_wf_def ADDRESS_PAYLOAD_SIZE_def)

lemma address_parse_to_string:
  assumes "bech32_laws X" and "address_wf a"
  shows "address_parse X (address_to_string X a) = Ok a"
proof -
  obtain s where
    "bech32_encode X (address_prefix (addr_network a)) (to_base32 X (addr_payload a)) Bech32m = Ok s"
    "map ascii_lower s = s"
    "bech32_decode X s = Ok (address_prefix (addr_network a), to_base32 X (addr_payload a), Bech32m)"
    using assms(1) unfolding bech32_laws_def by blast
  moreover have "from_base32 X (to_base32 X (addr_payload a)) = Ok (addr_payload a)"
    using assms(1) unfolding bech32_laws_def by blast
  ultimately show ?thesis
    using assms(2) by (simp add: address_parse_Ok address_to_string_def address_display_def)
qed

lemma address_to_string_parse:
  assumes "bech32_laws X" and "address_parse X s = Ok a"
  shows "address_to_string X a = s"
proof -
  from assms(2) obtain data where low: "map ascii_lower s = s"
    and dec: "bech32_decode X s = Ok (address_prefix (addr_network a), data, Bech32m)"
    and b32: "from_base32 X data = Ok (addr_payload a)"
    by (auto simp: address_parse_Ok)
  from assms(1) low dec have "bech32_encode X (address_prefix (addr_network a)) data Bech32m = Ok s"
    unfolding bech32_laws_def by blast
  moreover from assms(1) b32 have "to_base32 X (addr_payload a) = data"
    unfolding bech32_laws_def by blast
  ultimately show ?thesis by (simp add: address_to_string_def address_display_def)
qed

lemma hardened_Ok:
  "hardened i = Ok j \<longleftrightarrow> unat i < 2 ^ 31 \<and> unat j = unat i + 2 ^ 31"
proof -
  have "unat j < 2 ^ 32" using unsigned_less [of j] by simp
  then show ?thesis by (auto simp: hardened_def checked_add_Some HARDENED_OFFSET_def)
qed


section \<open>A concrete instance of the external code\<close>

text \<open>
  A small executable instance that satisfies every law above. It shows that the laws can
  hold together and gives the witnesses of the later theories concrete inputs. The text of
  an address is \<open>variant:prefix:hex\<close>, a digest is the zero-padded front of its input, a
  signature is the zero-padded front of key and message, and the last byte of a proof of work is
  the lowest byte of the nonce.
\<close>

definition sample_variant :: "bech32_variant \<Rightarrow> string" where
  "sample_variant v = (case v of Bech32 \<Rightarrow> ''b'' | Bech32m \<Rightarrow> ''m'')"

definition sample_encode :: "string \<Rightarrow> bytes \<Rightarrow> bech32_variant \<Rightarrow> string + string" where
  "sample_encode h d v = Ok (sample_variant v @ '':'' @ h @ '':'' @ hex_of_bytes d)"

definition sample_decode :: "string \<Rightarrow> string + string \<times> bytes \<times> bech32_variant" where
  "sample_decode s =
     (case split_on (CHR '':'') s of
        [v, h, x] \<Rightarrow>
          rbind (decode_hex_pairs decode_hex_nibble (str_bytes x)) (\<lambda>d.
            if hex_of_bytes d \<noteq> x then Err ''data''
            else if v = ''m'' then Ok (h, d, Bech32m)
            else if v = ''b'' then Ok (h, d, Bech32)
            else Err ''variant'')
      | _ \<Rightarrow> Err ''format'')"

definition zero_fit :: "nat \<Rightarrow> bytes \<Rightarrow> bytes" where
  "zero_fit n bs = take n (bs @ replicate n 0)"

definition sample_externals :: externals where
  "sample_externals =
     \<lparr>sha256_digest = zero_fit 32,
      blake3_digest = zero_fit 32,
      native_keccak256 = zero_fit 32,
      native_firopow_hash = (\<lambda>h s n. (0, replicate 31 0 @ [ucast n], replicate 32 0)),
      native_firopow_verify = (\<lambda>h s m n b. if m = replicate 32 0 then 1 else 0),
      native_search_light = (\<lambda>h s b st it. (1, 0, replicate 32 0, replicate 32 0)),
      native_search_mt = (\<lambda>h s b st it th. (1, 0, replicate 32 0, replicate 32 0, 1)),
      native_epoch_number = (\<lambda>h. h div 1300),
      native_epoch_length = 1300,
      native_period_length = 1,
      native_revision = 5,
      native_prewarm = (\<lambda>h. 0),
      native_light_cache = (\<lambda>h. (0, 1, 1, 1, 1, 1)),
      native_full_dag = (\<lambda>h. (0, 1, 1, 1, 1, 1)),
      native_dataset_item = (\<lambda>h i. (0, replicate 128 0)),
      native_dataset_bytes = (\<lambda>h. 128),
      bech32_encode = sample_encode,
      bech32_decode = sample_decode,
      to_base32 = (\<lambda>bs. bs),
      from_base32 = (\<lambda>d. Ok d),
      ed_check_key = (\<lambda>k. Ok ()),
      ed_verify = (\<lambda>k m s. if s = zero_fit 64 (k @ m) then Ok () else Err ''bad signature''),
      ed_public_key = zero_fit 32,
      ed_sign = (\<lambda>k m. zero_fit 64 (zero_fit 32 k @ m)),
      bip39_parse = (\<lambda>p. if p = [] then Err ''empty mnemonic'' else Ok p),
      bip39_seed = (\<lambda>m p. zero_fit 64 (str_bytes (m @ p))),
      hmac_sha512 = (\<lambda>k d. Ok (zero_fit 64 (k @ d)))\<rparr>"

lemma length_zero_fit [simp]: "length (zero_fit n bs) = n"
  by (simp add: zero_fit_def)

lemma split_on_not_Nil [simp]: "split_on c s \<noteq> []"
  by (induction s) (auto split: list.splits)

lemma split_on_join: "split_on c s = [a, b, d] \<Longrightarrow> s = a @ [c] @ b @ [c] @ d"
proof -
  have gen: "split_on c s = p # ps \<Longrightarrow> s = p @ concat (map (\<lambda>q. c # q) ps)" for s p ps
  proof (induction s arbitrary: p ps)
    case (Cons x s)
    obtain q qs where q: "split_on c s = q # qs" by (cases "split_on c s") simp_all
    with Cons.prems have "p = (if x = c then [] else x # q)" "ps = (if x = c then q # qs else qs)"
      by (auto split: if_splits)
    with Cons.IH [OF q] show ?case by simp
  qed simp
  show "split_on c s = [a, b, d] \<Longrightarrow> s = a @ [c] @ b @ [c] @ d"
    using gen by fastforce
qed

lemma hex_char_clean:
  assumes "v < (16::u8)"
  shows "CHR '':'' \<noteq> hex_char v \<and> ascii_lower (hex_char v) = hex_char v"
proof -
  have "list_all (\<lambda>v. CHR '':'' \<noteq> hex_char v \<and> ascii_lower (hex_char v) = hex_char v)
          [0,1,2,3,4,5,6,7,8,9,10,11,12,13,14,15]"
    by (simp add: hex_char_def ascii_lower_def char_of_def bit_0)
  with nibble_cases [OF assms] show ?thesis unfolding list_all_iff by blast
qed

lemma hex_of_bytes_clean:
  "CHR '':'' \<notin> set (hex_of_bytes bs) \<and> map ascii_lower (hex_of_bytes bs) = hex_of_bytes bs"
  by (induction bs) (simp_all add: hex_char_clean nibble_bounds)

lemma sample_decode_encode:
  "bech32_decode sample_externals (sample_variant v @ '':'' @ address_prefix n @ '':'' @ hex_of_bytes d)
     = Ok (address_prefix n, d, v)"
proof -
  have v: "CHR '':'' \<notin> set (sample_variant v)" by (cases v) (simp_all add: sample_variant_def)
  have n: "CHR '':'' \<notin> set (address_prefix n)" by (cases n) simp_all
  have d: "CHR '':'' \<notin> set (hex_of_bytes d)" using hex_of_bytes_clean by blast
  have "split_on (CHR '':'') (sample_variant v @ '':'' @ address_prefix n @ '':'' @ hex_of_bytes d)
      = [sample_variant v, address_prefix n, hex_of_bytes d]"
    using v n d by (simp add: split_on_append split_on_none)
  then show ?thesis
    by (cases v) (simp_all add: sample_externals_def sample_decode_def decode_hex_of_bytes
        sample_variant_def)
qed

lemma sample_bech32_laws: "bech32_laws sample_externals"
  unfolding bech32_laws_def
proof (intro conjI allI impI)
  fix n d
  have "map ascii_lower (address_prefix n) = address_prefix n"
    by (cases n) (simp_all add: ascii_lower_def)
  then have "map ascii_lower (sample_variant Bech32m @ '':'' @ address_prefix n @ '':'' @ hex_of_bytes d)
      = sample_variant Bech32m @ '':'' @ address_prefix n @ '':'' @ hex_of_bytes d"
    using hex_of_bytes_clean [of d] by (simp add: sample_variant_def ascii_lower_def)
  then show "\<exists>s. bech32_encode sample_externals (address_prefix n) d Bech32m = Ok s
      \<and> map ascii_lower s = s
      \<and> bech32_decode sample_externals s = Ok (address_prefix n, d, Bech32m)"
    using sample_decode_encode [of Bech32m n d]
    by (simp add: sample_externals_def sample_encode_def)
next
  fix s h d v
  assume "bech32_decode sample_externals s = Ok (h, d, v)"
  then have dec: "sample_decode s = Ok (h, d, v)" by (simp add: sample_externals_def)
  then obtain a x where "split_on (CHR '':'') s = [a, h, x]" "hex_of_bytes d = x"
    "a = sample_variant v"
    by (auto simp: sample_decode_def sample_variant_def result_simps
        split: list.splits if_splits)
  then have "s = sample_variant v @ '':'' @ h @ '':'' @ hex_of_bytes d"
    by (auto dest: split_on_join)
  then show "bech32_encode sample_externals h d v = Ok s"
    by (simp add: sample_externals_def sample_encode_def)
qed (simp_all add: sample_externals_def)

lemma sample_ed25519_laws: "ed25519_laws sample_externals"
  by (simp add: ed25519_laws_def sample_externals_def)

lemma sample_digests_32: "digests_32 sample_externals"
  by (simp add: digests_32_def sample_externals_def)

lemma hash_hex_roundtrip: "length (hash_bytes h) = 32 \<Longrightarrow> hash_from_hex (hash_to_hex h) = Ok h"
  by (cases h) (simp add: hash_from_hex_def hash_to_hex_def trim_id hex_of_bytes_not_ws decode_hex_of_bytes
      HASH_SIZE_def)

lemma hash_hex_same: "hash_from_hex (hash_to_hex h) = Ok h' \<Longrightarrow> h' = h"
  by (cases h) (auto simp: hash_from_hex_def hash_to_hex_def trim_id hex_of_bytes_not_ws decode_hex_of_bytes
      Let_def split: if_splits)

lemma hex_char_lower: "v < (16::u8) \<Longrightarrow> ascii_lower (hex_char v) = hex_char v"
proof -
  assume v: "v < (16::u8)"
  have "list_all (\<lambda>v. ascii_lower (hex_char v) = hex_char v) [0,1,2,3,4,5,6,7,8,9,10,11,12,13,14,15]"
    by (simp add: hex_char_def ascii_lower_def)
  with nibble_cases [OF v] show ?thesis unfolding list_all_iff by blast
qed

lemma hash_hex_lower: "map ascii_lower (hash_to_hex h) = hash_to_hex h"
proof -
  have "map ascii_lower (hex_of_bytes bs) = hex_of_bytes bs" for bs
    by (induction bs) (simp_all add: hex_char_lower nibble_bounds)
  then show ?thesis by (simp add: hash_to_hex_def)
qed

lemma zero_hash_hex: "hash_from_hex (hash_to_hex hash_zero) = Ok hash_zero"
  by (rule hash_hex_roundtrip) (simp add: hash_zero_def HASH_SIZE_def)

section \<open>Properties\<close>

text \<open>
  A text is accepted as an address exactly when it is the canonical text of a
  well-formed address (33 payload bytes, version 0), under the laws of the Bech32 crate: an
  account therefore has exactly one name in the ledger, the text of its address.
\<close>

theorem address_text_canonical:
  assumes "bech32_laws X"
  shows "address_parse X s = Ok a \<longleftrightarrow> address_wf a \<and> address_to_string X a = s"
  using assms by (auto simp: address_parse_wf address_parse_to_string dest: address_to_string_parse)

theorem address_text_canonical_witness:
  "bech32_laws sample_externals \<and>
   address_parse sample_externals
     (address_to_string sample_externals (address_from_public_key (PublicKey (replicate 32 7)) Devnet))
     = Ok (address_from_public_key (PublicKey (replicate 32 7)) Devnet)"
  using address_text_canonical [OF sample_bech32_laws] sample_bech32_laws
  by (simp add: pk_wf_def)

text \<open>
  Hexadecimal keys and signatures are read back: 32-byte private and public keys and
  64-byte signatures survive printing and parsing (public keys after the curve check).
\<close>

theorem key_hex_roundtrip:
  "(length (sk_bytes k) = 32 \<longrightarrow> private_key_from_hex (private_key_to_hex k) = Ok k)
   \<and> (sig_wf s \<longrightarrow> signature_from_hex (signature_to_hex s) = Ok s)
   \<and> (pk_wf p \<and> ed_check_key X (pk_bytes p) = Ok () \<longrightarrow>
        public_key_from_hex X (public_key_to_hex p) = Ok p)"
  using parse_hex_array_hex [of "sk_bytes k"] parse_hex_array_hex [of "sig_bytes s"]
    parse_hex_array_hex [of "pk_bytes p"]
  by (auto simp: private_key_from_hex_def private_key_to_hex_def signature_from_hex_def
      signature_from_bytes_def signature_to_hex_def public_key_from_hex_def public_key_from_bytes_def
      public_key_to_hex_def sig_wf_def pk_wf_def)

theorem key_hex_roundtrip_witness:
  "private_key_from_hex (private_key_to_hex (PrivateKey (replicate 32 3))) = Ok (PrivateKey (replicate 32 3))
   \<and> signature_from_hex (signature_to_hex (Signature (replicate 64 9))) = Ok (Signature (replicate 64 9))
   \<and> public_key_from_hex sample_externals (public_key_to_hex (PublicKey (replicate 32 5)))
       = Ok (PublicKey (replicate 32 5))"
  using key_hex_roundtrip [of "PrivateKey (replicate 32 3)" "Signature (replicate 64 9)"
      "PublicKey (replicate 32 5)" sample_externals]
  by (simp add: sig_wf_def pk_wf_def sample_externals_def)

text \<open>
  The derivation path is accepted exactly when account, change and index are below
  \<open>2^31\<close>, and then every segment has the hardened bit added without wrap-around.
\<close>

theorem hardened_segments_exact:
  "hardened_segments p = Ok segs \<longleftrightarrow>
     unat (dp_account p) < 2 ^ 31 \<and> unat (dp_change p) < 2 ^ 31 \<and> unat (dp_address_index p) < 2 ^ 31
     \<and> map unat segs = [44 + 2 ^ 31, 7330 + 2 ^ 31, unat (dp_account p) + 2 ^ 31,
          unat (dp_change p) + 2 ^ 31, unat (dp_address_index p) + 2 ^ 31]"
  (is "?L \<longleftrightarrow> ?R")
proof
  assume ?L
  then show ?R
    by (auto simp: hardened_segments_def result_simps hardened_Ok HD_DERIVATION_PURPOSE_def
        HD_DERIVATION_COIN_TYPE_def)
next
  assume R: ?R
  then obtain a b c d e where segs: "segs = [a, b, c, d, e]" by (auto simp: map_eq_Cons_conv)
  with R have "hardened HD_DERIVATION_PURPOSE = Ok a" "hardened HD_DERIVATION_COIN_TYPE = Ok b"
    "hardened (dp_account p) = Ok c" "hardened (dp_change p) = Ok d"
    "hardened (dp_address_index p) = Ok e"
    by (simp_all add: hardened_Ok HD_DERIVATION_PURPOSE_def HD_DERIVATION_COIN_TYPE_def)
  then show ?L by (simp add: hardened_segments_def segs)
qed

end
