(* ===== verification/Vireon_Transaction.thy ===== *)
theory Vireon_Transaction
  imports Vireon_Keys
begin

text \<open>
  \<^verbatim>\<open>vireon-core/src/transaction.rs\<close>: transactions, their canonical encodings, the fee rules
  and signature checks. The lemmas show that the encodings are injective (so a transaction
  id commits to every field and a signature to every unsigned field), what a verified
  transaction satisfies, and that the fee charged lies between base fee and maximum fee.
\<close>

section \<open>Data\<close>

record unsigned_transaction =
  ut_version :: u32
  ut_nonce :: u64
  ut_from :: "string option"
  ut_to :: string
  ut_amount :: amount
  ut_max_fee :: amount
  ut_priority_fee :: amount
  ut_memo_hash :: "hash option"

record transaction =
  tx_version :: u32
  tx_nonce :: u64
  tx_from :: "string option"
  tx_to :: string
  tx_amount :: amount
  tx_max_fee :: amount
  tx_priority_fee :: amount
  tx_memo_hash :: "hash option"
  tx_sender_public_key :: "public_key option"
  tx_signature :: "signature option"

text \<open>The sizes that the Rust array types fix, and texts whose length fits the prefix.\<close>

definition tx_wf :: "transaction \<Rightarrow> bool" where
  "tx_wf t \<longleftrightarrow> pred_option string_fits (tx_from t) \<and> string_fits (tx_to t)
     \<and> pred_option hash_wf (tx_memo_hash t)
     \<and> pred_option pk_wf (tx_sender_public_key t) \<and> pred_option sig_wf (tx_signature t)"

definition is_coinbase :: "transaction \<Rightarrow> bool" where
  "is_coinbase t \<longleftrightarrow> tx_from t = None \<and> tx_sender_public_key t = None \<and> tx_signature t = None"

definition unsigned_payload :: "transaction \<Rightarrow> unsigned_transaction" where
  "unsigned_payload t =
     \<lparr>ut_version = tx_version t, ut_nonce = tx_nonce t, ut_from = tx_from t, ut_to = tx_to t,
      ut_amount = tx_amount t, ut_max_fee = tx_max_fee t, ut_priority_fee = tx_priority_fee t,
      ut_memo_hash = tx_memo_hash t\<rparr>"

section \<open>Encodings\<close>

definition tx_network :: "externals \<Rightarrow> transaction \<Rightarrow> network result" where
  "tx_network X t =
     rbind (address_parse X (tx_to t)) (\<lambda>recipient.
     rbind (case tx_from t of
              None \<Rightarrow> Ok ()
            | Some from \<Rightarrow>
                rbind (address_parse X from) (\<lambda>sender.
                  reject_if (addr_network sender \<noteq> addr_network recipient)
                    (InvalidNetwork (network_id (addr_network recipient))
                                    (network_id (addr_network sender))))) (\<lambda>_.
     Ok (addr_network recipient)))"

definition unsigned_payload_bytes :: "externals \<Rightarrow> transaction \<Rightarrow> bytes" where
  "unsigned_payload_bytes X t =
     (let payload = unsigned_payload t;
          net = (case tx_network X t of Inr n \<Rightarrow> network_id n | Inl _ \<Rightarrow> ''unknown-network'')
      in TX_SIGNING_DOMAIN_PREFIX
         @ enc_string net
         @ le_bytes (ut_version payload)
         @ le_bytes (ut_nonce payload)
         @ enc_option enc_string (ut_from payload)
         @ enc_string (ut_to payload)
         @ le_bytes (ut_amount payload)
         @ le_bytes (ut_max_fee payload)
         @ le_bytes (ut_priority_fee payload)
         @ enc_option hash_bytes (ut_memo_hash payload))"

definition legacy_encode :: "transaction \<Rightarrow> bytes" where
  "legacy_encode t =
     le_bytes (tx_version t)
     @ le_bytes (tx_nonce t)
     @ enc_option enc_string (tx_from t)
     @ enc_string (tx_to t)
     @ le_bytes (tx_amount t)
     @ le_bytes (tx_max_fee t)
     @ le_bytes (tx_priority_fee t)
     @ enc_option hash_bytes (tx_memo_hash t)"

definition tx_encode :: "externals \<Rightarrow> transaction \<Rightarrow> bytes" where
  "tx_encode X t =
     (if tx_sender_public_key t = None \<and> tx_signature t = None then legacy_encode t
      else unsigned_payload_bytes X t
           @ enc_option pk_bytes (tx_sender_public_key t)
           @ enc_option sig_bytes (tx_signature t))"

definition tx_hash :: "externals \<Rightarrow> transaction \<Rightarrow> hash" where
  "tx_hash X t = double_sha256 X (tx_encode X t)"

section \<open>Fees\<close>

definition effective_priority_fee :: "transaction \<Rightarrow> amount \<Rightarrow> amount result" where
  "effective_priority_fee t base_fee =
     (if is_coinbase t then Ok 0
      else rbind (map_err (\<lambda>_. InvalidFee ''max fee is below the block base fee'')
                    (amount_checked_sub (tx_max_fee t) base_fee)) (\<lambda>available_tip.
           Ok (if tx_priority_fee t > available_tip then available_tip else tx_priority_fee t)))"

definition effective_fee :: "transaction \<Rightarrow> amount \<Rightarrow> amount result" where
  "effective_fee t base_fee =
     (if is_coinbase t then Ok 0
      else rbind (effective_priority_fee t base_fee) (amount_checked_add base_fee))"

definition total_debit :: "transaction \<Rightarrow> amount \<Rightarrow> amount result" where
  "total_debit t base_fee = rbind (effective_fee t base_fee) (amount_checked_add (tx_amount t))"

definition validate_fee_against_base_fee :: "transaction \<Rightarrow> amount \<Rightarrow> unit result" where
  "validate_fee_against_base_fee t base_fee =
     (if is_coinbase t then Ok ()
      else if tx_max_fee t < base_fee
      then Err (InvalidFee ''max fee is below the block base fee'')
      else rbind (effective_priority_fee t base_fee) (\<lambda>_. Ok ()))"

section \<open>Shape, signing and verification\<close>

definition validate_shape :: "externals \<Rightarrow> transaction \<Rightarrow> unit result" where
  "validate_shape X t =
     (if trim (tx_to t) = [] then Err (InvalidTransaction ''recipient cannot be empty'')
      else rbind (address_parse X (tx_to t)) (\<lambda>_.
      if tx_amount t = 0 then Err ZeroAmountTransaction
      else if tx_max_fee t > MAX_SUPPLY_ATOMIC
      then Err (InvalidFee ''max fee exceeds max supply bounds'')
      else if tx_priority_fee t > MAX_SUPPLY_ATOMIC
      then Err (InvalidFee ''priority fee exceeds max supply bounds'')
      else if is_coinbase t
      then (if tx_max_fee t \<noteq> 0 \<or> tx_priority_fee t \<noteq> 0
            then Err (InvalidTransaction ''coinbase max fee and priority fee must be zero'')
            else Ok ())
      else if tx_priority_fee t > tx_max_fee t
      then Err (InvalidFee ''priority fee cannot exceed max fee'')
      else if (case tx_from t of Some v \<Rightarrow> trim v = [] | None \<Rightarrow> False)
      then Err (InvalidTransaction ''sender cannot be empty'')
      else if (tx_sender_public_key t \<noteq> None) \<noteq> (tx_signature t \<noteq> None)
      then Err (InvalidTransaction
             ''sender public key and signature must both be present or both be absent'')
      else (case tx_from t of
              None \<Rightarrow> Ok ()
            | Some from \<Rightarrow>
                rbind (address_parse X from) (\<lambda>sender.
                rbind (address_parse X (tx_to t)) (\<lambda>recipient.
                  reject_if (addr_network sender \<noteq> addr_network recipient)
                    (InvalidNetwork (network_id (addr_network recipient))
                                    (network_id (addr_network sender))))))))"

definition tx_new ::
  "externals \<Rightarrow> u32 \<Rightarrow> u64 \<Rightarrow> string option \<Rightarrow> string \<Rightarrow> amount \<Rightarrow> amount \<Rightarrow> amount \<Rightarrow> hash option
     \<Rightarrow> transaction result" where
  "tx_new X version nonce from to amt max_fee priority_fee memo_hash =
     (let tx = \<lparr>tx_version = version, tx_nonce = nonce, tx_from = from, tx_to = to, tx_amount = amt,
                tx_max_fee = max_fee, tx_priority_fee = priority_fee, tx_memo_hash = memo_hash,
                tx_sender_public_key = None, tx_signature = None\<rparr>
      in rbind (validate_shape X tx) (\<lambda>_. Ok tx))"

definition tx_coinbase :: "externals \<Rightarrow> u64 \<Rightarrow> string \<Rightarrow> amount \<Rightarrow> transaction result" where
  "tx_coinbase X height to amt = tx_new X 1 height None to amt 0 0 None"

definition tx_sign :: "externals \<Rightarrow> private_key \<Rightarrow> (transaction, VireonError, unit) mut" where
  "tx_sign X key t =
     (case tx_from t of
        None \<Rightarrow> (Err (InvalidTransaction ''coinbase transactions cannot be signed''), t)
      | Some from \<Rightarrow>
          (case address_parse X from of
             Inl e \<Rightarrow> (Err e, t)
           | Inr sender_address \<Rightarrow>
               (let public_key = private_key_public_key X key;
                    expected_from = address_to_string X
                      (address_from_public_key public_key (addr_network sender_address))
                in if from \<noteq> expected_from
                   then (Err (InvalidTransaction ''sender address does not match signing key''), t)
                   else (let t' = t\<lparr>tx_sender_public_key := Some public_key,
                                    tx_signature := Some (private_key_sign X key
                                                            (unsigned_payload_bytes X t))\<rparr>
                         in (validate_shape X t', t')))))"

definition tx_new_signed ::
  "externals \<Rightarrow> u32 \<Rightarrow> u64 \<Rightarrow> network \<Rightarrow> private_key \<Rightarrow> string \<Rightarrow> amount \<Rightarrow> amount \<Rightarrow> amount
     \<Rightarrow> hash option \<Rightarrow> transaction result" where
  "tx_new_signed X version nonce n key to amt max_fee priority_fee memo_hash =
     (let from = address_to_string X (address_from_public_key (private_key_public_key X key) n)
      in rbind (tx_new X version nonce (Some from) to amt max_fee priority_fee memo_hash) (\<lambda>tx.
         (case tx_sign X key tx of (r, tx') \<Rightarrow> rbind r (\<lambda>_. Ok tx'))))"

definition tx_verify :: "externals \<Rightarrow> transaction \<Rightarrow> unit result" where
  "tx_verify X t =
     rbind (validate_shape X t) (\<lambda>_.
     if is_coinbase t then Ok ()
     else
       rbind (ok_or (tx_from t)
         (InvalidTransaction ''non-coinbase transaction requires sender'')) (\<lambda>from.
       rbind (ok_or (tx_sender_public_key t)
         (InvalidTransaction ''non-coinbase transaction requires sender public key'')) (\<lambda>key.
       rbind (ok_or (tx_signature t)
         (InvalidTransaction ''non-coinbase transaction requires signature'')) (\<lambda>sig.
       rbind (address_parse X from) (\<lambda>sender.
       rbind (address_parse X (tx_to t)) (\<lambda>recipient.
       if addr_network sender \<noteq> addr_network recipient
       then Err (InvalidNetwork (network_id (addr_network recipient))
                                (network_id (addr_network sender)))
       else if address_to_string X (address_from_public_key key (addr_network sender)) \<noteq> from
       then Err (InvalidTransaction ''sender address does not match sender public key'')
       else public_key_verify X key (unsigned_payload_bytes X t) sig))))))"

section \<open>Injectivity of the encodings\<close>

interpretation hash32: fixed_code hash_bytes hash_wf 32
  by unfold_locales (auto simp: hash_wf_def HASH_SIZE_def intro: hash.expand)

interpretation hashc: option_code hash_bytes hash_wf
  by unfold_locales

interpretation pk32: fixed_code pk_bytes pk_wf 32
  by unfold_locales (auto simp: pk_wf_def intro: public_key.expand)

interpretation pkc: option_code pk_bytes pk_wf
  by unfold_locales

interpretation sig64: fixed_code sig_bytes sig_wf 64
  by unfold_locales (auto simp: sig_wf_def intro: signature.expand)

interpretation sigc: option_code sig_bytes sig_wf
  by unfold_locales

lemmas wire_cut =
  u32c.cut_iff u64c.cut_iff strc.cut_iff strc.option_cut_iff hash32.cut_iff hashc.option_cut_iff
  pkc.option_cut_iff sigc.option_cut_iff

text \<open>The fields that both encodings write, in the order in which they write them.\<close>

definition tx_body :: "transaction \<Rightarrow> bytes" where
  "tx_body t =
     le_bytes (tx_version t) @ le_bytes (tx_nonce t) @ enc_option enc_string (tx_from t)
     @ enc_string (tx_to t) @ le_bytes (tx_amount t) @ le_bytes (tx_max_fee t)
     @ le_bytes (tx_priority_fee t) @ enc_option hash_bytes (tx_memo_hash t)"

definition payload_network_id :: "externals \<Rightarrow> transaction \<Rightarrow> string" where
  "payload_network_id X t =
     (case tx_network X t of Inr n \<Rightarrow> network_id n | Inl _ \<Rightarrow> ''unknown-network'')"

lemma legacy_encode_body: "legacy_encode t = tx_body t"
  by (simp add: legacy_encode_def tx_body_def)

lemma payload_bytes_body:
  "unsigned_payload_bytes X t =
     TX_SIGNING_DOMAIN_PREFIX @ enc_string (payload_network_id X t) @ tx_body t"
  by (simp add: unsigned_payload_bytes_def payload_network_id_def tx_body_def unsigned_payload_def
      Let_def)

lemma tx_body_cut:
  assumes "tx_wf a" and "tx_wf b" and "tx_body a @ r = tx_body b @ s"
  shows "unsigned_payload a = unsigned_payload b \<and> r = s"
proof -
  note wf = assms(1,2) [unfolded tx_wf_def]
  from assms(3) wf show ?thesis
    by (simp add: tx_body_def wire_cut unsigned_payload_def del: append_eq_append_conv)
qed

lemma string_fits_small: "length s < 1000 \<Longrightarrow> string_fits s"
  by (simp add: string_fits_def)

lemma payload_network_id_fits: "string_fits (payload_network_id X t)"
proof -
  have "length (network_id n) < 1000" for n by (cases n) simp_all
  then show ?thesis
    by (auto simp: payload_network_id_def intro: string_fits_small split: sum.splits)
qed

lemma unsigned_payload_bytes_cut:
  assumes "tx_wf a" and "tx_wf b"
    and "unsigned_payload_bytes X a @ r = unsigned_payload_bytes X b @ s"
  shows "unsigned_payload a = unsigned_payload b \<and> r = s"
proof -
  have "tx_body a @ r = tx_body b @ s"
    using assms(3) by (simp add: payload_bytes_body strc.cut_iff payload_network_id_fits)
  with assms(1,2) show ?thesis by (rule tx_body_cut)
qed

lemma tx_eqI:
  "unsigned_payload a = unsigned_payload b \<Longrightarrow> tx_sender_public_key a = tx_sender_public_key b
     \<Longrightarrow> tx_signature a = tx_signature b \<Longrightarrow> a = (b::transaction)"
  by (cases a; cases b) (simp add: unsigned_payload_def)

text \<open>
  The thirteenth byte tells the two encodings apart: it is the tag of the optional sender in
  the legacy form and the character \<open>2\<close> of the signing domain in the signed form.
\<close>

lemma tx_body_byte_12: "tx_body t ! 12 = (case tx_from t of None \<Rightarrow> 0 | Some _ \<Rightarrow> 1)"
  by (simp add: tx_body_def nth_append enc_option_def split: option.splits)

lemma payload_byte_12: "(unsigned_payload_bytes X t @ r) ! 12 = 50"
  by (simp add: payload_bytes_body TX_SIGNING_DOMAIN_PREFIX_def str_bytes_def nth_append)

lemma tx_encode_legacy: "is_coinbase t \<Longrightarrow> tx_encode X t = legacy_encode t"
  by (simp add: tx_encode_def is_coinbase_def)

lemma tx_encode_inj:
  assumes "tx_wf a" and "tx_wf b" and "tx_encode X a = tx_encode X b"
  shows "a = b"
proof -
  let ?legacy = "\<lambda>t::transaction. tx_sender_public_key t = None \<and> tx_signature t = None"
  have "\<not> (?legacy t \<and> \<not> ?legacy u) \<or> tx_encode X t \<noteq> tx_encode X u" for t u
  proof -
    have "tx_body t ! 12 \<noteq> 50" by (simp add: tx_body_byte_12 split: option.splits)
    then show ?thesis
      using payload_byte_12 [of X u] by (auto simp: tx_encode_def legacy_encode_body)
  qed
  with assms(3) have same: "?legacy a \<longleftrightarrow> ?legacy b" by metis
  show ?thesis
  proof (cases "?legacy a")
    case True
    with same assms(3) have "tx_body a @ [] = tx_body b @ []"
      by (simp add: tx_encode_def legacy_encode_body)
    with assms(1,2) have "unsigned_payload a = unsigned_payload b" by (blast dest: tx_body_cut)
    with True same show ?thesis by (intro tx_eqI) simp_all
  next
    case False
    with same assms(3) have eq:
      "unsigned_payload_bytes X a @ enc_option pk_bytes (tx_sender_public_key a)
         @ enc_option sig_bytes (tx_signature a) @ []
       = unsigned_payload_bytes X b @ enc_option pk_bytes (tx_sender_public_key b)
         @ enc_option sig_bytes (tx_signature b) @ []"
      by (auto simp: tx_encode_def)
    with assms(1,2) have payload: "unsigned_payload a = unsigned_payload b"
      and rest: "enc_option pk_bytes (tx_sender_public_key a)
           @ enc_option sig_bytes (tx_signature a) @ []
         = enc_option pk_bytes (tx_sender_public_key b) @ enc_option sig_bytes (tx_signature b) @ []"
      by (blast dest: unsigned_payload_bytes_cut)+
    from rest assms(1,2)
    have "tx_sender_public_key a = tx_sender_public_key b" "tx_signature a = tx_signature b"
      by (simp_all only: tx_wf_def pkc.option_cut_iff sigc.option_cut_iff)
    with payload show ?thesis by (rule tx_eqI)
  qed
qed

section \<open>Fees and verification\<close>

lemma effective_priority_fee_eq:
  assumes "\<not> is_coinbase t" and "b \<le> tx_max_fee t"
  shows "effective_priority_fee t b = Ok (min (tx_priority_fee t) (tx_max_fee t - b))"
  using assms by (auto simp: effective_priority_fee_def amount_sub_exact min_def)

lemma unat_u64_less: "unat (w::u64) < 18446744073709551616"
  using unsigned_less [of w] by simp

lemma effective_priority_fee_low:
  assumes "\<not> is_coinbase t" and "tx_max_fee t < b"
  shows "effective_priority_fee t b = Err (InvalidFee ''max fee is below the block base fee'')"
  using assms
  by (simp add: effective_priority_fee_def amount_checked_sub_def checked_sub_def not_less [symmetric])

lemma base_plus_tip_le:
  fixes b p m :: u64
  assumes "b \<le> m"
  shows "unat b + unat (min p (m - b)) \<le> unat m"
proof -
  have "unat (min p (m - b)) \<le> unat (m - b)" by (simp add: min_def word_le_nat_alt)
  also have "unat (m - b) = unat m - unat b" using assms by (simp add: unat_sub word_le_nat_alt)
  finally show ?thesis using assms by (simp add: word_le_nat_alt)
qed

lemma effective_fee_eq:
  assumes "\<not> is_coinbase t" and "b \<le> tx_max_fee t"
  shows "effective_fee t b = Ok (b + min (tx_priority_fee t) (tx_max_fee t - b))"
proof -
  have "unat b + unat (min (tx_priority_fee t) (tx_max_fee t - b)) < 2 ^ 64"
    using base_plus_tip_le [OF assms(2), of "tx_priority_fee t"] unat_u64_less [of "tx_max_fee t"]
    by simp
  then show ?thesis
    using assms by (simp add: effective_fee_def effective_priority_fee_eq amount_add_exact)
qed

lemma unat_effective_fee:
  assumes "\<not> is_coinbase t" and "effective_fee t b = Ok f" and "effective_priority_fee t b = Ok p"
  shows "unat f = unat b + unat p" and "unat f \<le> unat (tx_max_fee t)" and "b \<le> tx_max_fee t"
proof -
  show b: "b \<le> tx_max_fee t"
    using assms(1,3) effective_priority_fee_low [of t b] by (cases "b \<le> tx_max_fee t") auto
  from assms show f: "unat f = unat b + unat p"
    by (simp add: effective_fee_def amount_add_Ok)
  show "unat f \<le> unat (tx_max_fee t)"
    using f base_plus_tip_le [OF b, of "tx_priority_fee t"] assms(1,3) b
    by (simp add: effective_priority_fee_eq)
qed

lemma validate_fee_Ok:
  "validate_fee_against_base_fee t b = Ok () \<longleftrightarrow> is_coinbase t \<or> b \<le> tx_max_fee t"
  by (auto simp: validate_fee_against_base_fee_def effective_priority_fee_eq not_less)

lemma validate_shape_Ok_facts:
  assumes "validate_shape X t = Ok ()"
  shows "tx_amount t \<noteq> 0" "tx_max_fee t \<le> MAX_SUPPLY_ATOMIC"
    "tx_priority_fee t \<le> MAX_SUPPLY_ATOMIC" "\<exists>a. address_parse X (tx_to t) = Ok a"
    "\<not> is_coinbase t \<Longrightarrow> tx_priority_fee t \<le> tx_max_fee t"
    "is_coinbase t \<Longrightarrow> tx_max_fee t = 0 \<and> tx_priority_fee t = 0"
  using assms by (auto simp: validate_shape_def result_simps not_less split: if_splits)

lemma validate_shape_spendI:
  assumes "tx_from t = Some f" and "trim f \<noteq> []" and "trim (tx_to t) \<noteq> []"
    and "address_parse X f = Ok a" and "address_parse X (tx_to t) = Ok b"
    and "addr_network a = addr_network b" and "tx_amount t \<noteq> 0"
    and "tx_max_fee t \<le> MAX_SUPPLY_ATOMIC" and "tx_priority_fee t \<le> tx_max_fee t"
    and "(tx_sender_public_key t = None) = (tx_signature t = None)"
  shows "validate_shape X t = Ok ()"
proof -
  have "\<not> tx_priority_fee t > MAX_SUPPLY_ATOMIC" using assms(8,9) by order
  with assms show ?thesis by (simp add: validate_shape_def is_coinbase_def not_less)
qed

lemma tx_network_cong:
  "tx_to a = tx_to b \<Longrightarrow> tx_from a = tx_from b \<Longrightarrow> tx_network X a = tx_network X b"
  by (simp add: tx_network_def cong: rbind_cong_Ok)

lemma unsigned_payload_bytes_cong:
  assumes "unsigned_payload a = unsigned_payload b"
  shows "unsigned_payload_bytes X a = unsigned_payload_bytes X b"
proof -
  from assms have "tx_network X a = tx_network X b"
    by (intro tx_network_cong) (simp_all add: unsigned_payload_def)
  with assms show ?thesis by (simp add: unsigned_payload_bytes_def)
qed

lemma unsigned_payload_bytes_sig [simp]:
  "unsigned_payload_bytes X (t\<lparr>tx_sender_public_key := k, tx_signature := s\<rparr>)
     = unsigned_payload_bytes X t"
  by (rule unsigned_payload_bytes_cong) (simp add: unsigned_payload_def)

lemma tx_verify_OkI:
  assumes "validate_shape X t = Ok ()" and "tx_from t = Some frm"
    and "tx_sender_public_key t = Some key" and "tx_signature t = Some sig"
    and "address_parse X frm = Ok sender" and "address_parse X (tx_to t) = Ok recipient"
    and "addr_network sender = addr_network recipient"
    and "address_to_string X (address_from_public_key key (addr_network sender)) = frm"
    and "public_key_verify X key (unsigned_payload_bytes X t) sig = Ok ()"
  shows "tx_verify X t = Ok ()"
  using assms by (simp add: tx_verify_def is_coinbase_def)

lemma tx_verify_OkE:
  assumes "tx_verify X t = Ok ()" and "\<not> is_coinbase t"
  obtains frm key sig sender recipient where
    "validate_shape X t = Ok ()" "tx_from t = Some frm"
    "tx_sender_public_key t = Some key" "tx_signature t = Some sig"
    "address_parse X frm = Ok sender" "address_parse X (tx_to t) = Ok recipient"
    "addr_network sender = addr_network recipient"
    "address_to_string X (address_from_public_key key (addr_network sender)) = frm"
    "public_key_verify X key (unsigned_payload_bytes X t) sig = Ok ()"
proof (rule that)
  note v = assms(1) [unfolded tx_verify_def]
  show "validate_shape X t = Ok ()" using v by (simp add: rbind_Ok)
  from v assms(2) show f: "tx_from t = Some (the (tx_from t))" by (auto simp: rbind_Ok)
  from v assms(2) show k: "tx_sender_public_key t = Some (the (tx_sender_public_key t))"
    by (auto simp: rbind_Ok)
  from v assms(2) show s: "tx_signature t = Some (the (tx_signature t))" by (auto simp: rbind_Ok)
  from v assms(2) obtain a where a: "address_parse X (the (tx_from t)) = Ok a" by (auto simp: rbind_Ok)
  from v assms(2) obtain b where b: "address_parse X (tx_to t) = Ok b" by (auto simp: rbind_Ok)
  show "address_parse X (the (tx_from t)) = Ok (projr (address_parse X (the (tx_from t))))"
    "address_parse X (tx_to t) = Ok (projr (address_parse X (tx_to t)))"
    using a b by simp_all
  obtain frm key sig where e: "tx_from t = Some frm" "tx_sender_public_key t = Some key"
    "tx_signature t = Some sig" using f k s by blast
  have "addr_network a = addr_network b \<and>
      address_to_string X (address_from_public_key key (addr_network a)) = frm \<and>
      public_key_verify X key (unsigned_payload_bytes X t) sig = Ok ()"
    using v assms(2) a b e by (simp add: rbind_Ok split: if_splits)
  then show "addr_network (projr (address_parse X (the (tx_from t))))
      = addr_network (projr (address_parse X (tx_to t)))"
    "address_to_string X (address_from_public_key (the (tx_sender_public_key t))
      (addr_network (projr (address_parse X (the (tx_from t)))))) = the (tx_from t)"
    "public_key_verify X (the (tx_sender_public_key t)) (unsigned_payload_bytes X t)
      (the (tx_signature t)) = Ok ()"
    using a b e by simp_all (metis)
qed

lemma tx_verify_coinbase: "is_coinbase t \<Longrightarrow> tx_verify X t = validate_shape X t"
  by (cases "validate_shape X t") (simp_all add: tx_verify_def)

lemma tx_network_Ok_of_verify:
  assumes "tx_verify X t = Ok ()" and "\<not> is_coinbase t"
  shows "\<exists>n. tx_network X t = Ok n"
proof -
  obtain f a b where "tx_from t = Some f" "address_parse X f = Ok a"
    "address_parse X (tx_to t) = Ok b" "addr_network a = addr_network b"
    using tx_verify_OkE [OF assms] by metis
  then show ?thesis by (simp add: tx_network_def)
qed

lemma tx_new_signed_verify:
  assumes "bech32_laws X" and "ed25519_laws X"
    and "tx_new_signed X v nonce n key to amt max_fee prio memo = Ok tx"
  shows "tx_verify X tx = Ok ()"
proof -
  let ?k = "private_key_public_key X key"
  let ?a = "address_from_public_key ?k n"
  let ?from = "address_to_string X ?a"
  have pk: "pk_wf ?k"
    using assms(2) by (simp add: pk_wf_def private_key_public_key_def ed25519_laws_def)
  have parse: "address_parse X ?from = Ok ?a"
    using address_parse_to_string [OF assms(1)] pk by simp
  have an: "addr_network ?a = n" by (simp add: address_from_public_key_def)
  define t where "t = \<lparr>tx_version = v, tx_nonce = nonce, tx_from = Some ?from, tx_to = to,
      tx_amount = amt, tx_max_fee = max_fee, tx_priority_fee = prio, tx_memo_hash = memo,
      tx_sender_public_key = None, tx_signature = None\<rparr>"
  have t: "tx_from t = Some ?from" by (simp add: t_def)
  from assms(3) have "tx_sign X key t = (Ok (), tx)"
    by (auto simp: tx_new_signed_def tx_new_def Let_def result_simps t_def split: prod.splits)
  with t have tx: "tx = t\<lparr>tx_sender_public_key := Some ?k,
      tx_signature := Some (private_key_sign X key (unsigned_payload_bytes X t))\<rparr>"
    and shape: "validate_shape X tx = Ok ()"
    by (auto simp: tx_sign_def parse an Let_def split: if_splits)
  have nc: "\<not> is_coinbase tx" by (simp add: tx is_coinbase_def)
  have "public_key_verify X ?k (unsigned_payload_bytes X t)
      (private_key_sign X key (unsigned_payload_bytes X t)) = Ok ()"
    using assms(2) by (simp add: public_key_verify_def private_key_public_key_def
        private_key_sign_def ed25519_laws_def)
  then have sig: "public_key_verify X ?k (unsigned_payload_bytes X tx)
      (private_key_sign X key (unsigned_payload_bytes X t)) = Ok ()"
    by (simp add: tx)
  obtain r where r: "address_parse X (tx_to tx) = Ok r"
    using validate_shape_Ok_facts(4) [OF shape] by blast
  have "addr_network ?a = addr_network r"
    using shape r parse t by (simp add: validate_shape_def tx is_coinbase_def split: if_splits)
  with sig r parse shape an t show ?thesis
    by (intro tx_verify_OkI [where frm = ?from and sender = ?a and recipient = r and key = ?k])
       (simp_all add: tx)
qed

section \<open>Sample transactions\<close>

definition sample_coinbase :: transaction where
  "sample_coinbase =
     \<lparr>tx_version = 1, tx_nonce = 0, tx_from = None, tx_to = ''m:dvire:00'', tx_amount = 5,
      tx_max_fee = 0, tx_priority_fee = 0, tx_memo_hash = None, tx_sender_public_key = None,
      tx_signature = None\<rparr>"

definition sample_key :: private_key where
  "sample_key = PrivateKey (replicate 32 1)"

definition sample_address :: "u8 \<Rightarrow> string" where
  "sample_address b = address_to_string sample_externals
     (address_from_public_key (PublicKey (replicate 32 b)) Devnet)"

definition sample_signed :: "u64 \<Rightarrow> u64 \<Rightarrow> u64 \<Rightarrow> transaction result" where
  "sample_signed nonce amt prio =
     tx_new_signed sample_externals 1 nonce Devnet sample_key (sample_address 2) amt 20 prio None"

definition sample_spend :: "u64 \<Rightarrow> u64 \<Rightarrow> u64 \<Rightarrow> transaction" where
  "sample_spend nonce amt prio =
     (let t = \<lparr>tx_version = 1, tx_nonce = nonce, tx_from = Some (sample_address 1),
               tx_to = sample_address 2, tx_amount = amt, tx_max_fee = 20, tx_priority_fee = prio,
               tx_memo_hash = None, tx_sender_public_key = None, tx_signature = None\<rparr>
      in t\<lparr>tx_sender_public_key := Some (PublicKey (replicate 32 1)),
           tx_signature := Some (private_key_sign sample_externals sample_key
             (unsigned_payload_bytes sample_externals t))\<rparr>)"

lemma zero_fit_same [simp]: "length bs = n \<Longrightarrow> zero_fit n bs = bs"
  by (simp add: zero_fit_def)

lemma sample_public_key:
  "private_key_public_key sample_externals sample_key = PublicKey (replicate 32 1)"
  by (simp add: private_key_public_key_def sample_key_def sample_externals_def)

lemma sample_address_parse:
  "address_parse sample_externals (sample_address b)
     = Ok (address_from_public_key (PublicKey (replicate 32 b)) Devnet)"
  unfolding sample_address_def
  by (rule address_parse_to_string [OF sample_bech32_laws]) (simp add: pk_wf_def)

lemma sample_address_trim: "trim (sample_address 1) \<noteq> []" "trim (sample_address 2) \<noteq> []"
  by code_simp+

lemma sample_signed_eq:
  assumes "amt \<noteq> 0" and "prio \<le> 20"
  shows "sample_signed nonce amt prio = Ok (sample_spend nonce amt prio)"
proof -
  have net: "addr_network (address_from_public_key k n) = n" for k n
    by (simp add: address_from_public_key_def)
  have shape: "validate_shape sample_externals t = Ok ()"
    if "tx_from t = Some (sample_address 1)" "tx_to t = sample_address 2" "tx_amount t \<noteq> 0"
      "tx_max_fee t = 20" "tx_priority_fee t = prio"
      "(tx_sender_public_key t = None) = (tx_signature t = None)" for t
    using that sample_address_trim assms(2)
    by (intro validate_shape_spendI [where f = "sample_address 1"
          and a = "address_from_public_key (PublicKey (replicate 32 1)) Devnet"
          and b = "address_from_public_key (PublicKey (replicate 32 2)) Devnet"])
       (simp_all add: sample_address_parse net core_constants)
  have adr: "address_to_string sample_externals
      (address_from_public_key (PublicKey (replicate 32 1)) Devnet) = sample_address 1"
    by (simp add: sample_address_def)
  show ?thesis using assms
    by (simp add: sample_signed_def sample_spend_def tx_new_signed_def tx_new_def tx_sign_def
        sample_public_key adr sample_address_parse net shape Let_def)
qed

lemma sample_spend_verify:
  "amt \<noteq> 0 \<Longrightarrow> prio \<le> 20 \<Longrightarrow> tx_verify sample_externals (sample_spend nonce amt prio) = Ok ()"
  using tx_new_signed_verify [OF sample_bech32_laws sample_ed25519_laws]
    sample_signed_eq [of amt prio nonce] unfolding sample_signed_def by blast

lemma sample_spend_not_coinbase [simp]: "\<not> is_coinbase (sample_spend nonce amt prio)"
  by (simp add: is_coinbase_def sample_spend_def)

section \<open>Properties\<close>

text \<open>
  C35: The canonical transaction encoding is injective: two transactions have the same wire
  bytes exactly when they agree in every field, whether signed or not.
\<close>

theorem tx_encode_injective:
  assumes "tx_wf a" and "tx_wf b"
  shows "tx_encode X a = tx_encode X b \<longleftrightarrow> a = b"
  using assms tx_encode_inj by blast

lemma sample_coinbase_wf: "tx_wf sample_coinbase" "tx_wf (sample_coinbase\<lparr>tx_nonce := n\<rparr>)"
  by (simp_all add: tx_wf_def sample_coinbase_def string_fits_def)

theorem tx_encode_injective_witness:
  "tx_wf sample_coinbase \<and> tx_wf (sample_coinbase\<lparr>tx_nonce := 1\<rparr>) \<and>
   tx_encode sample_externals sample_coinbase
     \<noteq> tx_encode sample_externals (sample_coinbase\<lparr>tx_nonce := 1\<rparr>)"
  using tx_encode_injective [OF sample_coinbase_wf, of sample_externals 1] sample_coinbase_wf
  by (simp add: sample_coinbase_def)

text \<open>
  The bytes that are signed commit to every unsigned field: equal signing payloads come
  from transactions that agree in version, nonce, sender, recipient, amount, fees and memo.
\<close>

theorem signing_payload_binds_fields:
  assumes "tx_wf a" and "tx_wf b"
  shows "unsigned_payload_bytes X a = unsigned_payload_bytes X b \<longleftrightarrow>
         unsigned_payload a = unsigned_payload b"
proof
  assume "unsigned_payload_bytes X a = unsigned_payload_bytes X b"
  then show "unsigned_payload a = unsigned_payload b"
    using unsigned_payload_bytes_cut [OF assms, of X "[]" "[]"] by simp
next
  assume "unsigned_payload a = unsigned_payload b"
  then show "unsigned_payload_bytes X a = unsigned_payload_bytes X b"
    by (rule unsigned_payload_bytes_cong)
qed

theorem signing_payload_binds_fields_witness:
  "unsigned_payload_bytes sample_externals sample_coinbase
     \<noteq> unsigned_payload_bytes sample_externals (sample_coinbase\<lparr>tx_nonce := 1\<rparr>)"
  using signing_payload_binds_fields [OF sample_coinbase_wf, of sample_externals 1]
  by (simp add: sample_coinbase_def unsigned_payload_def)

text \<open>
  C24: A verified spend is authorised: its sender text is the canonical address of the key it
  carries, the signature verifies under that key over the signing payload, sender and
  recipient are addresses of the same network, the amount is not zero and the fees are
  within the maximum supply with the priority fee at most the maximum fee.
\<close>

theorem tx_verify_authorised:
  assumes "tx_verify X t = Ok ()" and "\<not> is_coinbase t"
  shows "\<exists>key sig n recipient.
     tx_sender_public_key t = Some key \<and> tx_signature t = Some sig
     \<and> tx_from t = Some (address_to_string X (address_from_public_key key n))
     \<and> ed_verify X (pk_bytes key) (unsigned_payload_bytes X t) (sig_bytes sig) = Ok ()
     \<and> address_parse X (tx_to t) = Ok recipient \<and> addr_network recipient = n
     \<and> tx_amount t \<noteq> 0 \<and> tx_priority_fee t \<le> tx_max_fee t \<and> tx_max_fee t \<le> MAX_SUPPLY_ATOMIC"
proof -
  obtain frm key sig sender recipient where
    f: "validate_shape X t = Ok ()" "tx_from t = Some frm" "tx_sender_public_key t = Some key"
    "tx_signature t = Some sig" "address_parse X frm = Ok sender"
    "address_parse X (tx_to t) = Ok recipient"
    "addr_network sender = addr_network recipient"
    "address_to_string X (address_from_public_key key (addr_network sender)) = frm"
    "public_key_verify X key (unsigned_payload_bytes X t) sig = Ok ()"
    using assms by (rule tx_verify_OkE)
  moreover from f(9) have
    "ed_verify X (pk_bytes key) (unsigned_payload_bytes X t) (sig_bytes sig) = Ok ()"
    by (auto simp: public_key_verify_def result_simps)
  ultimately show ?thesis using validate_shape_Ok_facts [OF f(1)] assms(2) by auto
qed

theorem tx_verify_authorised_witness:
  "tx_verify sample_externals (sample_spend 0 5 15) = Ok () \<and> \<not> is_coinbase (sample_spend 0 5 15)
   \<and> (\<exists>key sig. tx_sender_public_key (sample_spend 0 5 15) = Some key
        \<and> ed_verify sample_externals (pk_bytes key)
            (unsigned_payload_bytes sample_externals (sample_spend 0 5 15)) (sig_bytes sig) = Ok ())"
  using tx_verify_authorised [OF sample_spend_verify sample_spend_not_coinbase, of 5 15 0]
    sample_spend_verify [of 5 15 0] by auto

text \<open>
  A transaction built by \<open>new_signed\<close> verifies, under the laws of Ed25519 and Bech32.
\<close>

theorem new_signed_verifies:
  assumes "bech32_laws X" and "ed25519_laws X"
    and "tx_new_signed X v nonce n key to amt max_fee prio memo = Ok tx"
  shows "tx_verify X tx = Ok ()"
  using assms by (rule tx_new_signed_verify)

theorem new_signed_verifies_witness:
  "bech32_laws sample_externals \<and> ed25519_laws sample_externals
   \<and> tx_new_signed sample_externals 1 0 Devnet sample_key (sample_address 2) 5 20 15 None
      = Ok (sample_spend 0 5 15)
   \<and> tx_verify sample_externals (sample_spend 0 5 15) = Ok ()"
proof -
  have "tx_new_signed sample_externals 1 0 Devnet sample_key (sample_address 2) 5 20 15 None
      = Ok (sample_spend 0 5 15)"
    using sample_signed_eq [of 5 15 0] by (simp add: sample_signed_def)
  then show ?thesis
    using new_signed_verifies [OF sample_bech32_laws sample_ed25519_laws]
      sample_bech32_laws sample_ed25519_laws by blast
qed

text \<open>
  The fee of a spend is exact on every branch: below the base fee it is refused, and
  otherwise it is the base fee plus the tip, which is the priority fee capped by what the
  maximum fee leaves; it is never above the maximum fee and the sum never overflows.
\<close>

theorem effective_fee_exact:
  assumes "\<not> is_coinbase t"
  shows "effective_fee t b =
     (if tx_max_fee t < b then Err (InvalidFee ''max fee is below the block base fee'')
      else Ok (of_nat (unat b + min (unat (tx_priority_fee t)) (unat (tx_max_fee t) - unat b))))
   \<and> (\<forall>f. effective_fee t b = Ok f \<longrightarrow> b \<le> f \<and> f \<le> tx_max_fee t)"
proof (cases "tx_max_fee t < b")
  case True
  with assms show ?thesis by (simp add: effective_fee_def effective_priority_fee_low)
next
  case False
  then have le: "b \<le> tx_max_fee t" by simp
  let ?tip = "min (tx_priority_fee t) (tx_max_fee t - b)"
  have tip: "unat ?tip = min (unat (tx_priority_fee t)) (unat (tx_max_fee t) - unat b)"
    using le by (simp add: min_def word_le_nat_alt unat_sub)
  have fee: "effective_fee t b = Ok (b + ?tip)" by (rule effective_fee_eq [OF assms le])
  have bound: "unat b + unat ?tip \<le> unat (tx_max_fee t)" by (rule base_plus_tip_le [OF le])
  then have sum: "unat (b + ?tip) = unat b + unat ?tip"
    using unat_u64_less [of "tx_max_fee t"] by (intro unat_add_small) simp
  have "b + ?tip = of_nat (unat b + unat ?tip)" by simp
  with False fee tip sum bound show ?thesis by (simp add: word_le_nat_alt)
qed

theorem effective_fee_exact_witness:
  "\<not> is_coinbase (sample_spend 0 5 15) \<and> effective_fee (sample_spend 0 5 15) 10 = Ok 20"
  using effective_fee_exact [of "sample_spend 0 5 15" 10]
  by (simp add: is_coinbase_def sample_spend_def)

end
