(* ===== verification/Vireon_Block.thy ===== *)
theory Vireon_Block
  imports Vireon_Transaction
begin

text \<open>
  \<^verbatim>\<open>vireon-core/src/block.rs\<close>, \<^verbatim>\<open>firopow.rs\<close> and \<^verbatim>\<open>wire.rs\<close>: blocks, the merkle root, the
  mining seed and the FiroPoW checks. The vendored FiroPoW library is reached through the
  record \<open>externals\<close>; a pointer it returns is a 64-bit address, 0 for null. The lemmas show
  that the boundary comparison is the leading-zero-bits rule, that the header encoding is
  injective, that the merkle loop ends in one hash, when two transaction lists share a
  root, and what a successful proof-of-work check guarantees.
\<close>

unbundle bit_operations_syntax

section \<open>Blocks\<close>

record block_header =
  bh_version :: u32
  bh_network_id :: string
  bh_height :: u64
  bh_previous_hash :: hash
  bh_merkle_root :: hash
  bh_base_fee_atomic :: u64
  bh_timestamp :: u64
  bh_nonce :: u64
  bh_mix_hash :: hash
  bh_difficulty :: u8

record block =
  b_header :: block_header
  b_transactions :: "transaction list"

text \<open>
  One round of the merkle loop: an odd level repeats its last hash, then \<open>chunks(2)\<close> are
  hashed; after the padding no chunk is short.
\<close>

fun merkle_pairs :: "externals \<Rightarrow> hash list \<Rightarrow> hash list" where
  "merkle_pairs X (a # b # rest) =
     blake3_hash X (hash_bytes a @ hash_bytes b) # merkle_pairs X rest"
| "merkle_pairs X _ = []"

definition merkle_pad :: "hash list \<Rightarrow> hash list" where
  "merkle_pad level = (if length level mod 2 = 1 then level @ [last level] else level)"

lemma length_merkle_pairs [simp]: "length (merkle_pairs X level) = length level div 2"
  by (induction X level rule: merkle_pairs.induct) simp_all

lemma length_merkle_pad: "length (merkle_pad level) = 2 * ((length level + 1) div 2)"
  unfolding merkle_pad_def by simp presburger

function merkle_loop :: "externals \<Rightarrow> hash list \<Rightarrow> hash list" where
  "merkle_loop X level =
     (if length level > 1 then merkle_loop X (merkle_pairs X (merkle_pad level)) else level)"
  by auto
termination
  by (relation "measure (\<lambda>(X, level). length level)") (auto simp: length_merkle_pad)

declare merkle_loop.simps [simp del]

definition compute_merkle_root :: "externals \<Rightarrow> transaction list \<Rightarrow> hash result" where
  "compute_merkle_root X txs =
     (if txs = [] then Err EmptyTransactions
      else Ok (hd (merkle_loop X (map (tx_hash X) txs))))"

definition block_new_with_version ::
  "externals \<Rightarrow> u32 \<Rightarrow> network \<Rightarrow> u64 \<Rightarrow> hash \<Rightarrow> u64 \<Rightarrow> u64 \<Rightarrow> u8 \<Rightarrow> transaction list \<Rightarrow> block result"
where
  "block_new_with_version X version n height previous_hash base_fee timestamp difficulty txs =
     (if txs = [] then Err EmptyTransactions
      else rbind (compute_merkle_root X txs) (\<lambda>root.
        Ok \<lparr>b_header = \<lparr>bh_version = version, bh_network_id = network_id n, bh_height = height,
             bh_previous_hash = previous_hash, bh_merkle_root = root,
             bh_base_fee_atomic = base_fee, bh_timestamp = timestamp, bh_nonce = 0,
             bh_mix_hash = hash_zero, bh_difficulty = difficulty\<rparr>,
            b_transactions = txs\<rparr>))"

definition block_new ::
  "externals \<Rightarrow> network \<Rightarrow> u64 \<Rightarrow> hash \<Rightarrow> u64 \<Rightarrow> u64 \<Rightarrow> u8 \<Rightarrow> transaction list \<Rightarrow> block result" where
  "block_new X n height previous_hash base_fee timestamp difficulty txs =
     block_new_with_version X (expected_block_version n height) n height previous_hash base_fee
       timestamp difficulty txs"

definition block_network :: "block \<Rightarrow> network result" where
  "block_network b = ok_or (from_network_id (bh_network_id (b_header b)))
     (InvalidNetwork ''known network'' (bh_network_id (b_header b)))"

definition header_bytes :: "block_header \<Rightarrow> bytes" where
  "header_bytes h =
     le_bytes (bh_version h)
     @ enc_string (bh_network_id h)
     @ le_bytes (bh_height h)
     @ hash_bytes (bh_previous_hash h)
     @ hash_bytes (bh_merkle_root h)
     @ le_bytes (bh_base_fee_atomic h)
     @ le_bytes (bh_timestamp h)
     @ le_bytes (bh_nonce h)
     @ hash_bytes (bh_mix_hash h)
     @ [bh_difficulty h]"

definition recompute_merkle_root :: "externals \<Rightarrow> block \<Rightarrow> hash result" where
  "recompute_merkle_root X b = compute_merkle_root X (b_transactions b)"

section \<open>Wire forms\<close>

definition block_header_wire_bytes :: "block \<Rightarrow> bytes" where
  "block_header_wire_bytes b = header_bytes (b_header b)"

definition block_header_wire_hex :: "block \<Rightarrow> string" where
  "block_header_wire_hex b = hex_of_bytes (block_header_wire_bytes b)"

definition transaction_wire_bytes :: "externals \<Rightarrow> transaction \<Rightarrow> bytes" where
  "transaction_wire_bytes X t = tx_encode X t"

definition transaction_wire_hex :: "externals \<Rightarrow> transaction \<Rightarrow> string" where
  "transaction_wire_hex X t = hex_of_bytes (transaction_wire_bytes X t)"

definition transaction_txid_hex :: "externals \<Rightarrow> transaction \<Rightarrow> string" where
  "transaction_txid_hex X t = hash_to_hex (tx_hash X t)"

section \<open>FiroPoW\<close>

definition POW_ALGORITHM_ID :: string where "POW_ALGORITHM_ID = ''firopow-0.9.4''"
definition POW_VERSION :: u32 where "POW_VERSION = 1"
definition FUTURE_POLW_V2_ALGORITHM_ID :: string where
  "FUTURE_POLW_V2_ALGORITHM_ID = ''vireon-polw-v2''"
definition FUTURE_POLW_V2_VERSION :: u32 where "FUTURE_POLW_V2_VERSION = 2"
definition EPOCH_LENGTH :: int where "EPOCH_LENGTH = 1300"
definition PERIOD_LENGTH :: int where "PERIOD_LENGTH = 1"

record pow_version =
  pv_version :: u32
  pv_algorithm_id :: string

definition pow_version_launch :: pow_version where
  "pow_version_launch = \<lparr>pv_version = POW_VERSION, pv_algorithm_id = POW_ALGORITHM_ID\<rparr>"

definition pow_version_future :: pow_version where
  "pow_version_future =
     \<lparr>pv_version = FUTURE_POLW_V2_VERSION, pv_algorithm_id = FUTURE_POLW_V2_ALGORITHM_ID\<rparr>"

record firopow_output =
  fo_final_hash :: hash
  fo_mix_hash :: hash

record pow_validation =
  pw_version :: pow_version
  pw_final_hash :: hash
  pw_mix_hash :: hash
  pw_header_hash :: hash
  pw_required_leading_zero_bits :: u8
  pw_meets_target :: bool

definition keccak256 :: "externals \<Rightarrow> bytes \<Rightarrow> hash" where
  "keccak256 X data = Hash (native_keccak256 X data)"

definition height_as_i32 :: "u64 \<Rightarrow> int" where
  "height_as_i32 h = (if uint h < 2 ^ 31 then uint h else 2 ^ 31 - 1)"

definition epoch_number :: "externals \<Rightarrow> u64 \<Rightarrow> int" where
  "epoch_number X h = native_epoch_number X (height_as_i32 h)"

definition epoch_length :: "externals \<Rightarrow> int" where
  "epoch_length X = native_epoch_length X"

definition boundary_from_leading_zero_bits :: "u8 \<Rightarrow> bytes" where
  "boundary_from_leading_zero_bits bits =
     (let full_bytes = unat (bits div 8);
          rem = bits mod 8;
          boundary = map (\<lambda>i. if i < min full_bytes 32 then 0 else 255) [0..<32];
          boundary = (if full_bytes < 32 \<and> rem > 0
                      then boundary[full_bytes := drop_bit (unat rem) 255] else boundary)
      in if bits = 255 then replicate 31 0 @ [1] else boundary)"

fun bytes_le :: "bytes \<Rightarrow> bytes \<Rightarrow> bool" where
  "bytes_le (h # hs) (b # bs) =
     (if h < b then True else if h > b then False else bytes_le hs bs)"
| "bytes_le _ _ = True"

definition hash_meets_boundary :: "hash \<Rightarrow> bytes \<Rightarrow> bool" where
  "hash_meets_boundary h boundary = bytes_le (hash_bytes h) boundary"

definition leading_zero_bits_be :: "hash \<Rightarrow> nat" where
  "leading_zero_bits_be h = leading_zero_bits_bytes (hash_bytes h)"

definition mining_seed_preimage :: "block \<Rightarrow> bytes" where
  "mining_seed_preimage b =
     (let h = b_header b in
      le_bytes (bh_version h)
      @ hash_bytes (bh_previous_hash h)
      @ hash_bytes (bh_merkle_root h)
      @ le_bytes (bh_timestamp h)
      @ [bh_difficulty h]
      @ le_bytes (bh_height h))"

definition mining_header_hash :: "externals \<Rightarrow> block \<Rightarrow> hash" where
  "mining_header_hash X b = keccak256 X (mining_seed_preimage b)"

definition firopow_hash :: "externals \<Rightarrow> u64 \<Rightarrow> hash \<Rightarrow> u64 \<Rightarrow> firopow_output result" where
  "firopow_hash X height header_hash nonce =
     (case native_firopow_hash X (height_as_i32 height) (hash_bytes header_hash) nonce of
        (rc, final, mix) \<Rightarrow>
          if rc \<noteq> 0 then Err (InvalidPow 0 0)
          else Ok \<lparr>fo_final_hash = Hash final, fo_mix_hash = Hash mix\<rparr>)"

definition firopow_verify :: "externals \<Rightarrow> u64 \<Rightarrow> hash \<Rightarrow> hash \<Rightarrow> u64 \<Rightarrow> bytes \<Rightarrow> bool" where
  "firopow_verify X height header_hash mix_hash nonce boundary =
     (native_firopow_verify X (height_as_i32 height) (hash_bytes header_hash) (hash_bytes mix_hash)
        nonce boundary = 1)"

definition firopow_search_light ::
  "externals \<Rightarrow> u64 \<Rightarrow> hash \<Rightarrow> bytes \<Rightarrow> u64 \<Rightarrow> u64 \<Rightarrow> (u64 \<times> firopow_output) option result" where
  "firopow_search_light X height header_hash boundary start iterations =
     (case native_search_light X (height_as_i32 height) (hash_bytes header_hash) boundary start
             iterations of
        (rc, found, final, mix) \<Rightarrow>
          if rc = 0 then Ok None
          else if rc = 1
          then Ok (Some (found, \<lparr>fo_final_hash = Hash final, fo_mix_hash = Hash mix\<rparr>))
          else Err (InvalidPow 0 0))"

definition firopow_search_mt ::
  "externals \<Rightarrow> u64 \<Rightarrow> hash \<Rightarrow> bytes \<Rightarrow> u64 \<Rightarrow> u64 \<Rightarrow> int
     \<Rightarrow> (u64 \<times> firopow_output \<times> u64) option result" where
  "firopow_search_mt X height header_hash boundary start iterations threads =
     (case native_search_mt X (height_as_i32 height) (hash_bytes header_hash) boundary start
             iterations threads of
        (rc, found, final, mix, hashes_done) \<Rightarrow>
          if rc = 0 then Ok None
          else if rc = 1
          then Ok (Some (found, \<lparr>fo_final_hash = Hash final, fo_mix_hash = Hash mix\<rparr>, hashes_done))
          else Err (InvalidPow 0 0))"

definition firopow_prewarm :: "externals \<Rightarrow> u64 \<Rightarrow> unit result" where
  "firopow_prewarm X height =
     (if native_prewarm X (height_as_i32 height) = 0 then Ok () else Err (InvalidPow 0 0))"

record dag_view =
  dv_dag_ptr :: u64
  dv_dag_bytes :: u64
  dv_l1_ptr :: u64
  dv_l1_words :: u32
  dv_full_dataset_num_items :: int

record light_cache_view =
  lv_light_cache_ptr :: u64
  lv_light_cache_items :: u32
  lv_l1_ptr :: u64
  lv_l1_words :: u32
  lv_full_dataset_num_items :: int

definition firopow_export_light_cache :: "externals \<Rightarrow> u64 \<Rightarrow> light_cache_view result" where
  "firopow_export_light_cache X height =
     (case native_light_cache X (height_as_i32 height) of
        (rc, light_ptr, light_items, l1_ptr, l1_words, num_items) \<Rightarrow>
          if rc \<noteq> 0 \<or> light_ptr = 0 \<or> light_items = 0 \<or> l1_ptr = 0 \<or> l1_words = 0 \<or> num_items \<le> 0
          then Err (InvalidPow 0 0)
          else Ok \<lparr>lv_light_cache_ptr = light_ptr, lv_light_cache_items = light_items,
                   lv_l1_ptr = l1_ptr, lv_l1_words = l1_words,
                   lv_full_dataset_num_items = num_items\<rparr>)"

definition firopow_dataset_item_1024 :: "externals \<Rightarrow> u64 \<Rightarrow> u32 \<Rightarrow> bytes result" where
  "firopow_dataset_item_1024 X height index =
     (case native_dataset_item X (height_as_i32 height) index of
        (rc, output) \<Rightarrow> if rc = 0 then Ok output else Err (InvalidPow 0 0))"

definition firopow_export_full_dag :: "externals \<Rightarrow> u64 \<Rightarrow> dag_view result" where
  "firopow_export_full_dag X height =
     (case native_full_dag X (height_as_i32 height) of
        (rc, dag_ptr, dag_bytes, l1_ptr, l1_words, num_items) \<Rightarrow>
          if rc \<noteq> 0 \<or> dag_ptr = 0 \<or> l1_ptr = 0 \<or> dag_bytes = 0
          then Err (InvalidPow 0 0)
          else Ok \<lparr>dv_dag_ptr = dag_ptr, dv_dag_bytes = dag_bytes, dv_l1_ptr = l1_ptr,
                   dv_l1_words = l1_words, dv_full_dataset_num_items = num_items\<rparr>)"

definition firopow_full_dataset_bytes :: "externals \<Rightarrow> u64 \<Rightarrow> u64" where
  "firopow_full_dataset_bytes X height = native_dataset_bytes X (height_as_i32 height)"

definition hash_header :: "externals \<Rightarrow> block \<Rightarrow> u64 \<Rightarrow> firopow_output result" where
  "hash_header X b nonce = firopow_hash X (bh_height (b_header b)) (mining_header_hash X b) nonce"

definition meets_target :: "hash \<Rightarrow> u8 \<Rightarrow> bool" where
  "meets_target final_hash required =
     hash_meets_boundary final_hash (boundary_from_leading_zero_bits required)"

definition pow_validate :: "externals \<Rightarrow> block \<Rightarrow> u64 \<Rightarrow> hash \<Rightarrow> u8 \<Rightarrow> pow_validation result" where
  "pow_validate X b nonce mix_hash required =
     (let header_hash = mining_header_hash X b;
          boundary = boundary_from_leading_zero_bits required;
          ok = firopow_verify X (bh_height (b_header b)) header_hash mix_hash nonce boundary
      in rbind (firopow_hash X (bh_height (b_header b)) header_hash nonce) (\<lambda>computed.
         Ok \<lparr>pw_version = pow_version_launch, pw_final_hash = fo_final_hash computed,
             pw_mix_hash = fo_mix_hash computed, pw_header_hash = header_hash,
             pw_required_leading_zero_bits = required,
             pw_meets_target = (ok \<and> fo_mix_hash computed = mix_hash
                                \<and> meets_target (fo_final_hash computed) required)\<rparr>))"

definition validate_block_header :: "externals \<Rightarrow> block \<Rightarrow> pow_validation result" where
  "validate_block_header X b =
     pow_validate X b (bh_nonce (b_header b)) (bh_mix_hash (b_header b)) (bh_difficulty (b_header b))"

definition ensure_valid :: "externals \<Rightarrow> block \<Rightarrow> pow_validation result" where
  "ensure_valid X b =
     rbind (validate_block_header X b) (\<lambda>r.
       if \<not> pw_meets_target r
       then Err (InvalidPow (bh_difficulty (b_header b)) (leading_zero_bits_be (pw_final_hash r)))
       else Ok r)"

definition check_pow :: "hash \<Rightarrow> u8 \<Rightarrow> bool" where
  "check_pow h required = meets_target h required"

definition pow_hash_at :: "externals \<Rightarrow> block \<Rightarrow> u64 \<Rightarrow> hash result" where
  "pow_hash_at X b nonce = rbind (hash_header X b nonce) (\<lambda>out. Ok (fo_final_hash out))"

definition validate_pow :: "externals \<Rightarrow> block \<Rightarrow> pow_validation result" where
  "validate_pow X b = validate_block_header X b"

text \<open>The number of threads the host offers is the argument \<open>threads\<close>.\<close>

definition mine_firopow_solution ::
  "externals \<Rightarrow> int \<Rightarrow> block \<Rightarrow> u8 \<Rightarrow> u64 \<Rightarrow> u64 \<Rightarrow> (u64 \<times> firopow_output) option result" where
  "mine_firopow_solution X threads b required start max_iterations =
     (let header_hash = mining_header_hash X b;
          boundary = boundary_from_leading_zero_bits required
      in rbind (firopow_search_mt X (bh_height (b_header b)) header_hash boundary start
                  max_iterations threads) (\<lambda>r.
         Ok (map_option (\<lambda>(n, out, _). (n, out)) r)))"

definition native_available :: "externals \<Rightarrow> bool" where
  "native_available X \<longleftrightarrow> native_revision X > 0 \<and> native_period_length X = PERIOD_LENGTH
     \<and> epoch_length X = EPOCH_LENGTH"

definition pow_result :: "externals \<Rightarrow> block \<Rightarrow> firopow_output result" where
  "pow_result X b =
     firopow_hash X (bh_height (b_header b)) (mining_header_hash X b) (bh_nonce (b_header b))"

definition pow_hash_with_nonce :: "externals \<Rightarrow> block \<Rightarrow> u64 \<Rightarrow> firopow_output result" where
  "pow_hash_with_nonce X b nonce =
     firopow_hash X (bh_height (b_header b)) (mining_header_hash X b) nonce"

definition block_pow_hash :: "externals \<Rightarrow> block \<Rightarrow> hash" where
  "block_pow_hash X b =
     (case pow_result X b of Inr r \<Rightarrow> fo_final_hash r | Inl _ \<Rightarrow> hash_zero)"

definition block_hash :: "externals \<Rightarrow> block \<Rightarrow> hash" where
  "block_hash X b = block_pow_hash X b"

text \<open>
  Documented behaviour of the vendored library: its digests have 32 bytes.
\<close>

definition firopow_laws :: "externals \<Rightarrow> bool" where
  "firopow_laws X \<longleftrightarrow>
     (\<forall>m. length (native_keccak256 X m) = 32)
   \<and> (\<forall>h s n. length (fst (snd (native_firopow_hash X h s n))) = 32
            \<and> length (snd (snd (native_firopow_hash X h s n))) = 32)"

section \<open>The boundary is the leading-zero-bits rule\<close>

definition boundary_spec :: "nat \<Rightarrow> nat \<Rightarrow> nat \<Rightarrow> bytes" where
  "boundary_spec q r n =
     replicate q 0 @ (if r = 0 then [] else [drop_bit r 255]) @ replicate n 255"

lemma unat_u8_less: "unat (w::u8) < 256"
  using unsigned_less [of w] by simp

lemma bytes_le_max: "bytes_le hs (replicate n 255)"
proof (induction hs arbitrary: n)
  case (Cons h hs)
  have "h \<le> (255 :: u8)"
    using unat_u8_less [of h] by (simp add: word_le_nat_alt)
  then show ?case using Cons by (cases n) (auto simp: not_less)
qed simp

lemma unat_drop_255: "r < 8 \<Longrightarrow> unat (drop_bit r (255::u8)) = 2 ^ (8 - r) - 1"
proof -
  assume "r < 8"
  then have "r \<in> set [0..<8]" by simp
  moreover have "list_all (\<lambda>r. unat (drop_bit r (255::u8)) = 2 ^ (8 - r) - 1) [0..<8]"
    by (simp add: upt_rec drop_bit_eq_div unat_div)
  ultimately show ?thesis unfolding list_all_iff by blast
qed

lemma byte_le_mask:
  assumes "0 < r" and "r < 8"
  shows "h \<le> drop_bit r (255::u8) \<longleftrightarrow> r \<le> u8_leading_zeros h"
proof -
  have "(0::nat) < 2 ^ (8 - r)" by simp
  then have "unat h \<le> 2 ^ (8 - r) - 1 \<longleftrightarrow> unat h < 2 ^ (8 - r)" by linarith
  with assms show ?thesis
    by (simp add: word_le_nat_alt unat_drop_255 u8_leading_zeros_ge)
qed

lemma u8_leading_zeros_zero [simp]: "u8_leading_zeros 0 = 8"
  by (simp add: u8_leading_zeros_def)

lemma u8_leading_zeros_le: "u8_leading_zeros b \<le> 8"
  unfolding u8_leading_zeros_def using length_filter_le [of _ "[0..<8]"] by simp

lemma u8_leading_zeros_less: "b \<noteq> 0 \<Longrightarrow> u8_leading_zeros b < 8"
  using u8_leading_zeros_ge [of 8 b] by (auto simp: not_le unat_eq_0)

lemma leading_zero_bits_Cons:
  "r \<le> 8 \<Longrightarrow> r \<le> leading_zero_bits_bytes (h # hs) \<longleftrightarrow> r \<le> u8_leading_zeros h"
  by simp

lemma bytes_le_spec:
  assumes "length hs = q + (if r = 0 then 0 else 1) + n" and "r < 8"
  shows "bytes_le hs (boundary_spec q r n) \<longleftrightarrow> 8 * q + r \<le> leading_zero_bits_bytes hs"
  using assms
proof (induction q arbitrary: hs)
  case 0
  show ?case
  proof (cases "r = 0")
    case True
    then show ?thesis by (simp add: boundary_spec_def bytes_le_max)
  next
    case False
    with 0 obtain h t where hs: "hs = h # t" by (cases hs) auto
    have "bytes_le hs (boundary_spec 0 r n) \<longleftrightarrow> h \<le> drop_bit r 255"
      using False by (auto simp: hs boundary_spec_def bytes_le_max)
    also have "\<dots> \<longleftrightarrow> r \<le> leading_zero_bits_bytes hs"
      unfolding hs using False 0(2)
      by (simp only: byte_le_mask leading_zero_bits_Cons less_imp_le neq0_conv)
    finally show ?thesis by simp
  qed
next
  case (Suc q)
  then obtain h t where hs: "hs = h # t" by (cases hs) auto
  have rest: "boundary_spec (Suc q) r n = 0 # boundary_spec q r n"
    by (simp add: boundary_spec_def)
  have "length t = q + (if r = 0 then 0 else 1) + n" using Suc.prems(1) hs by simp
  with Suc.IH Suc.prems(2)
  have IH: "bytes_le t (boundary_spec q r n) \<longleftrightarrow> 8 * q + r \<le> leading_zero_bits_bytes t" by blast
  show ?case
  proof (cases "h = 0")
    case True
    then show ?thesis using IH by (simp add: hs rest)
  next
    case False
    with u8_leading_zeros_less [OF False] show ?thesis
      by (auto simp: hs rest word_neq_0_conv)
  qed
qed

lemma boundary_is_spec:
  "boundary_from_leading_zero_bits bits =
     boundary_spec (unat bits div 8) (unat bits mod 8)
       (32 - unat bits div 8 - (if unat bits mod 8 = 0 then 0 else 1))"
proof -
  let ?q = "unat bits div 8" and ?r = "unat bits mod 8"
  have lt: "?q < 32" using unat_u8_less [of bits] by simp
  have d: "unat (bits div 8) = ?q" and m: "unat (bits mod 8) = ?r"
    by (simp_all add: unat_div unat_mod)
  then have m0: "bits mod 8 > 0 \<longleftrightarrow> ?r \<noteq> 0" by (simp add: word_less_nat_alt)
  have "map (\<lambda>i. if i < min ?q 32 then 0 else 255) [0..<32]
      = replicate ?q 0 @ replicate (32 - ?q) (255::u8)"
    using lt by (intro nth_equalityI) (auto simp: nth_append)
  moreover have "32 - ?q = Suc (31 - ?q)" using lt by simp
  ultimately have gen: "boundary_spec ?q ?r (32 - ?q - (if ?r = 0 then 0 else 1))
      = (if ?q < 32 \<and> bits mod 8 > 0
         then (map (\<lambda>i. if i < min ?q 32 then 0 else 255) [0..<32])[?q := drop_bit ?r 255]
         else map (\<lambda>i. if i < min ?q 32 then 0 else 255) [0..<32])"
    using lt m0 by (auto simp: boundary_spec_def list_update_append)
  show ?thesis
  proof (cases "bits = 255")
    case True
    then show ?thesis
      by (simp add: boundary_from_leading_zero_bits_def boundary_spec_def drop_bit_eq_div
          flip: replicate_append_same)
  next
    case False
    then show ?thesis
      unfolding gen boundary_from_leading_zero_bits_def Let_def d m by simp
  qed
qed

lemma meets_target_iff:
  assumes "hash_wf h"
  shows "meets_target h bits \<longleftrightarrow> unat bits \<le> leading_zero_bits_be h"
proof -
  let ?q = "unat bits div 8" and ?r = "unat bits mod 8"
  let ?n = "32 - ?q - (if ?r = 0 then 0 else 1)"
  have "?q < 32" using unat_u8_less [of bits] by simp
  then have "length (hash_bytes h) = ?q + (if ?r = 0 then 0 else 1) + ?n"
    using assms by (auto simp: hash_wf_def HASH_SIZE_def)
  then have "bytes_le (hash_bytes h) (boundary_spec ?q ?r ?n)
      \<longleftrightarrow> 8 * ?q + ?r \<le> leading_zero_bits_bytes (hash_bytes h)"
    by (intro bytes_le_spec) simp_all
  then show ?thesis
    by (simp add: meets_target_def hash_meets_boundary_def leading_zero_bits_be_def boundary_is_spec)
qed

section \<open>Merkle trees\<close>

text \<open>The messages one round hashes, the levels of the whole loop and all its messages.\<close>

fun merkle_messages :: "hash list \<Rightarrow> bytes list" where
  "merkle_messages [] = []"
| "merkle_messages [a] = [hash_bytes a @ hash_bytes a]"
| "merkle_messages (a # b # rest) = (hash_bytes a @ hash_bytes b) # merkle_messages rest"

definition merkle_round :: "externals \<Rightarrow> hash list \<Rightarrow> hash list" where
  "merkle_round X level = map (blake3_hash X) (merkle_messages level)"

lemma merkle_pad_Cons2: "merkle_pad (a # b # rest) = a # b # merkle_pad rest"
  by (cases rest) (simp_all add: merkle_pad_def)

lemma merkle_round_eq: "merkle_pairs X (merkle_pad level) = merkle_round X level"
  by (induction level rule: merkle_messages.induct)
     (simp_all add: merkle_pad_Cons2 merkle_round_def, simp_all add: merkle_pad_def)

lemma length_merkle_round: "length (merkle_round X level) = (length level + 1) div 2"
  unfolding merkle_round_eq [symmetric] by (simp add: length_merkle_pad)

function merkle_levels :: "externals \<Rightarrow> hash list \<Rightarrow> hash list list" where
  "merkle_levels X level =
     level # (if length level > 1 then merkle_levels X (merkle_round X level) else [])"
  by auto
termination
  by (relation "measure (\<lambda>(X, level). length level)") (auto simp: length_merkle_round)

function merkle_inputs :: "externals \<Rightarrow> hash list \<Rightarrow> bytes list" where
  "merkle_inputs X level =
     (if length level > 1
      then merkle_messages level @ merkle_inputs X (merkle_round X level) else [])"
  by auto
termination
  by (relation "measure (\<lambda>(X, level). length level)") (auto simp: length_merkle_round)

declare merkle_levels.simps [simp del] merkle_inputs.simps [simp del]

lemma merkle_loop_step: "length level > 1 \<Longrightarrow> merkle_loop X level = merkle_loop X (merkle_round X level)"
  by (subst merkle_loop.simps) (simp add: merkle_round_eq)

lemma merkle_loop_stop: "\<not> length level > 1 \<Longrightarrow> merkle_loop X level = level"
  by (subst merkle_loop.simps) simp

lemma merkle_loop_single: "level \<noteq> [] \<Longrightarrow> length (merkle_loop X level) = 1"
proof (induction X level rule: merkle_levels.induct)
  case (1 X level)
  show ?case
  proof (cases "length level > 1")
    case True
    then have "0 < length (merkle_round X level)" by (simp add: length_merkle_round)
    then have "merkle_round X level \<noteq> []" by auto
    with 1 True show ?thesis by (simp add: merkle_loop_step)
  next
    case False
    with 1 show ?thesis by (cases level) (simp_all add: merkle_loop_stop)
  qed
qed

lemma merkle_levels_self: "level \<in> set (merkle_levels X level)"
  by (subst merkle_levels.simps) simp

lemma merkle_levels_round:
  "length level > 1 \<Longrightarrow> c \<in> set (merkle_levels X (merkle_round X level)) \<Longrightarrow> c \<in> set (merkle_levels X level)"
  by (subst merkle_levels.simps) simp

lemma merkle_loop_level: "merkle_loop X level \<in> set (merkle_levels X level)"
proof (induction X level rule: merkle_levels.induct)
  case (1 X level)
  then show ?case
    by (cases "length level > 1")
       (simp_all add: merkle_loop_step merkle_loop_stop merkle_levels_round merkle_levels_self)
qed

lemma merkle_levels_cases:
  "x \<in> set (merkle_levels X level) \<Longrightarrow>
     x = level \<or> (\<exists>c\<in>set (merkle_levels X level). length c > 1 \<and> x = merkle_round X c)"
proof (induction X level rule: merkle_levels.induct)
  case (1 X level)
  show ?case
  proof (cases "x = level")
    case False
    with 1(2) have long: "length level > 1" and x: "x \<in> set (merkle_levels X (merkle_round X level))"
      by (subst (asm) merkle_levels.simps, simp split: if_splits)+
    from 1(1) [OF long x] show ?thesis
    proof
      assume "x = merkle_round X level"
      with long merkle_levels_self show ?thesis by blast
    qed (use long merkle_levels_round in blast)
  qed simp
qed

lemma merkle_inputs_level:
  "c \<in> set (merkle_levels X level) \<Longrightarrow> length c > 1 \<Longrightarrow>
     set (merkle_messages c) \<subseteq> set (merkle_inputs X level)"
proof (induction X level rule: merkle_levels.induct)
  case (1 X level)
  show ?case
  proof (cases "c = level")
    case True
    with 1(3) show ?thesis by (subst merkle_inputs.simps) simp
  next
    case False
    with 1(2) have long: "length level > 1" and c: "c \<in> set (merkle_levels X (merkle_round X level))"
      by (subst (asm) merkle_levels.simps, simp split: if_splits)+
    from 1(1) [OF long c 1(3)] long show ?thesis by (subst merkle_inputs.simps) auto
  qed
qed

lemma merkle_message_head:
  assumes "m \<in> set (merkle_messages level)" and "\<forall>h\<in>set level. hash_wf h"
  shows "\<exists>h\<in>set level. take 32 m = hash_bytes h"
  using assms
  by (induction level rule: merkle_messages.induct)
     (auto simp: hash_wf_def HASH_SIZE_def)

lemma distinct_merkle_messages:
  assumes "distinct level" and "\<forall>h\<in>set level. hash_wf h"
  shows "distinct (merkle_messages level)"
  using assms
proof (induction level rule: merkle_messages.induct)
  case (3 a b rest)
  have "hash_bytes a @ hash_bytes b \<notin> set (merkle_messages rest)"
  proof
    assume "hash_bytes a @ hash_bytes b \<in> set (merkle_messages rest)"
    with 3(3) obtain h where h: "h \<in> set rest" "take 32 (hash_bytes a @ hash_bytes b) = hash_bytes h"
      using merkle_message_head by (metis list.set_intros(2))
    with 3(3) have "hash_bytes a = hash_bytes h" by (simp add: hash_wf_def HASH_SIZE_def)
    then have "a = h" by (rule hash.expand)
    with 3(2) h(1) show False by simp
  qed
  with 3 show ?case by simp
qed simp_all

lemma merkle_messages_inj:
  assumes "merkle_messages u = merkle_messages v" and "distinct u" and "distinct v"
    and "\<forall>h\<in>set u \<union> set v. hash_wf h"
  shows "u = v"
  using assms
proof (induction u arbitrary: v rule: merkle_messages.induct)
  case 1
  then show ?case by (cases v rule: merkle_messages.cases) simp_all
next
  case (2 a)
  then show ?case
    by (cases v rule: merkle_messages.cases)
       (auto simp: hash_wf_def hash.expand dest: hash.expand)
next
  case (3 a b rest)
  then show ?case
    by (cases v rule: merkle_messages.cases)
       (auto simp: hash_wf_def dest: hash.expand)
qed

lemma blake3_hash_inj_on: "inj_on (blake3_digest X) S \<Longrightarrow> inj_on (blake3_hash X) S"
  by (auto simp: inj_on_def blake3_hash_def)

lemma merkle_levels_keep:
  assumes "digests_32 X" and "inj_on (blake3_digest X) S" and "set (merkle_inputs X level) \<subseteq> S"
    and "distinct level" and "\<forall>h\<in>set level. hash_wf h" and "c \<in> set (merkle_levels X level)"
  shows "distinct c \<and> (\<forall>h\<in>set c. hash_wf h)"
  using assms
proof (induction X level rule: merkle_levels.induct)
  case (1 X level)
  show ?case
  proof (cases "c = level")
    case True
    with 1 show ?thesis by blast
  next
    case False
    with 1(7) have long: "length level > 1" and c: "c \<in> set (merkle_levels X (merkle_round X level))"
      by (subst (asm) merkle_levels.simps, simp split: if_splits)+
    have inputs: "set (merkle_messages level) \<subseteq> S" "set (merkle_inputs X (merkle_round X level)) \<subseteq> S"
      using 1(4) long by (subst (asm) merkle_inputs.simps, simp)+
    have "inj_on (blake3_hash X) (set (merkle_messages level))"
      using blake3_hash_inj_on [OF 1(3)] inputs(1) by (rule inj_on_subset)
    then have "distinct (merkle_round X level)"
      using distinct_merkle_messages [OF 1(5,6)] by (simp add: merkle_round_def distinct_map)
    moreover have "\<forall>h\<in>set (merkle_round X level). hash_wf h"
      using 1(2) by (auto simp: merkle_round_def hash_wf_blake3)
    ultimately show ?thesis using 1(1) [OF long 1(2,3) inputs(2)] c by blast
  qed
qed

lemma merkle_loop_levels:
  assumes "digests_32 X" and "inj_on (blake3_digest X) S"
    and "set (merkle_inputs X u) \<subseteq> S" and "distinct u" and "\<forall>h\<in>set u. hash_wf h"
    and "set (merkle_inputs X v) \<subseteq> S" and "distinct v" and "\<forall>h\<in>set v. hash_wf h"
    and "merkle_loop X u = merkle_loop X v"
  shows "u \<in> set (merkle_levels X v) \<or> v \<in> set (merkle_levels X u)"
proof -
  have up: "x \<in> set (merkle_levels X b)"
    if round: "merkle_round X x \<in> set (merkle_levels X (merkle_round X b))"
      and b: "length b > 1" "set (merkle_inputs X b) \<subseteq> S" "distinct b" "\<forall>h\<in>set b. hash_wf h"
      and x: "length x > 1" "set (merkle_inputs X x) \<subseteq> S" "distinct x" "\<forall>h\<in>set x. hash_wf h"
    for x b
  proof -
    obtain c where c: "c \<in> set (merkle_levels X b)" "length c > 1" "merkle_round X x = merkle_round X c"
      using merkle_levels_cases [OF round] merkle_levels_self merkle_levels_round [OF b(1)] b(1)
      by metis
    have keep: "distinct c" "\<forall>h\<in>set c. hash_wf h"
      using merkle_levels_keep [OF assms(1,2) b(2,3,4) c(1)] by blast+
    have "set (merkle_messages c) \<subseteq> S" "set (merkle_messages x) \<subseteq> S"
      using merkle_inputs_level [OF c(1,2)] merkle_inputs_level [OF merkle_levels_self x(1)] b(2) x(2)
      by blast+
    then have "inj_on (blake3_hash X) (set (merkle_messages x) \<union> set (merkle_messages c))"
      using blake3_hash_inj_on [OF assms(2)] by (auto intro: inj_on_subset)
    with c(3) have "merkle_messages x = merkle_messages c"
      unfolding merkle_round_def by (simp add: inj_on_map_eq_map)
    then have "x = c" using x keep by (intro merkle_messages_inj) auto
    with c(1) show ?thesis by simp
  qed
  show ?thesis using assms(3-)
  proof (induction "length u" arbitrary: u v rule: less_induct)
    case less
    show ?case
    proof (cases "length u > 1 \<and> length v > 1")
      case False
      then show ?thesis
        using merkle_loop_stop less(8) merkle_loop_level by metis
    next
      case True
      note keep = merkle_levels_keep [OF assms(1,2), OF _ _ _ merkle_levels_round]
      have ku: "distinct (merkle_round X u) \<and> (\<forall>h\<in>set (merkle_round X u). hash_wf h)"
        using keep [of u "merkle_round X u"] less(2-4) True merkle_levels_self by blast
      have kv: "distinct (merkle_round X v) \<and> (\<forall>h\<in>set (merkle_round X v). hash_wf h)"
        using keep [of v "merkle_round X v"] less(5-7) True merkle_levels_self by blast
      have iu: "set (merkle_inputs X (merkle_round X u)) \<subseteq> S"
        using less(2) True by (subst (asm) merkle_inputs.simps, simp)
      have iv: "set (merkle_inputs X (merkle_round X v)) \<subseteq> S"
        using less(5) True by (subst (asm) merkle_inputs.simps, simp)
      have "length (merkle_round X u) < length u"
        using True by (auto simp: length_merkle_round)
      moreover have "merkle_loop X (merkle_round X u) = merkle_loop X (merkle_round X v)"
        using less(8) True by (simp add: merkle_loop_step)
      ultimately have "merkle_round X u \<in> set (merkle_levels X (merkle_round X v))
          \<or> merkle_round X v \<in> set (merkle_levels X (merkle_round X u))"
        using less(1) [OF _ iu _ _ iv] ku kv by blast
      then show ?thesis using up [of u v] up [of v u] True less(2-7) by blast
    qed
  qed
qed

lemma merkle_level_is_digest:
  assumes "u \<in> set (merkle_levels X v)" and "u \<noteq> v" and "h \<in> set u"
  shows "h \<in> blake3_hash X ` set (merkle_inputs X v)"
proof -
  obtain c where c: "c \<in> set (merkle_levels X v)" "length c > 1" "u = merkle_round X c"
    using merkle_levels_cases [OF assms(1)] assms(2) by blast
  with assms(3) merkle_inputs_level [OF c(1,2)] show ?thesis
    by (auto simp: merkle_round_def)
qed

section \<open>Headers and proof of work\<close>

definition header_wf :: "block_header \<Rightarrow> bool" where
  "header_wf h \<longleftrightarrow> string_fits (bh_network_id h) \<and> hash_wf (bh_previous_hash h)
     \<and> hash_wf (bh_merkle_root h) \<and> hash_wf (bh_mix_hash h)"

lemmas header_cut = u32c.cut_iff u64c.cut_iff strc.cut_iff hash32.cut_iff

lemma hash_bytes_eq_iff [simp]: "hash_bytes a = hash_bytes b \<longleftrightarrow> a = b"
  by (blast intro: hash.expand)

lemma header_bytes_inj:
  assumes "header_wf a" and "header_wf b" and "header_bytes a = header_bytes b"
  shows "a = b"
proof -
  note wf = assms(1,2) [unfolded header_wf_def]
  from assms(3) wf show ?thesis
    by (cases a; cases b)
       (simp add: header_bytes_def header_cut del: append_eq_append_conv append_same_eq same_append_eq)
qed

text \<open>The fields the mining seed and the nonce fix; the other three are checked separately.\<close>

definition seed_fields :: "block_header \<Rightarrow> u32 \<times> hash \<times> hash \<times> u64 \<times> u8 \<times> u64" where
  "seed_fields h = (bh_version h, bh_previous_hash h, bh_merkle_root h, bh_timestamp h,
     bh_difficulty h, bh_height h)"

lemma mining_seed_preimage_inj:
  assumes "header_wf (b_header a)" and "header_wf (b_header b)"
  shows "mining_seed_preimage a = mining_seed_preimage b
     \<longleftrightarrow> seed_fields (b_header a) = seed_fields (b_header b)"
proof
  note wf = assms [unfolded header_wf_def]
  assume "mining_seed_preimage a = mining_seed_preimage b"
  then have "mining_seed_preimage a @ [] = mining_seed_preimage b @ []" by simp
  with wf show "seed_fields (b_header a) = seed_fields (b_header b)"
    unfolding mining_seed_preimage_def Let_def seed_fields_def
    by (simp add: header_cut del: append_eq_append_conv append_same_eq same_append_eq append_Nil2)
next
  assume "seed_fields (b_header a) = seed_fields (b_header b)"
  then show "mining_seed_preimage a = mining_seed_preimage b"
    by (simp add: mining_seed_preimage_def seed_fields_def Let_def)
qed

lemma ensure_valid_OkE:
  assumes "ensure_valid X b = Ok r"
  obtains computed where "pow_result X b = Ok computed"
    "fo_mix_hash computed = bh_mix_hash (b_header b)"
    "pw_final_hash r = fo_final_hash computed"
    "meets_target (fo_final_hash computed) (bh_difficulty (b_header b))"
  using assms that
  by (auto simp: ensure_valid_def validate_block_header_def pow_validate_def pow_result_def Let_def
      result_simps split: if_splits)

lemma pow_result_wf:
  assumes "firopow_laws X" and "pow_result X b = Ok computed"
  shows "hash_wf (fo_final_hash computed) \<and> hash_wf (fo_mix_hash computed)"
  using assms
  unfolding pow_result_def firopow_hash_def firopow_laws_def hash_wf_def HASH_SIZE_def
  by (auto split: prod.splits if_splits) (metis fst_conv snd_conv)+

lemma block_hash_wf: "firopow_laws X \<Longrightarrow> hash_wf (block_hash X b)"
  by (auto simp: block_hash_def block_pow_hash_def pow_result_wf split: sum.splits)

lemma compute_merkle_root_Ok: "txs \<noteq> [] \<Longrightarrow> \<exists>root. compute_merkle_root X txs = Ok root"
  by (simp add: compute_merkle_root_def)

section \<open>Properties\<close>

text \<open>
  The byte-wise comparison with the boundary is the leading-zero-bits rule: a 32-byte
  hash passes \<open>check_pow\<close> at difficulty \<open>bits\<close> exactly when it has at least \<open>bits\<close> leading
  zero bits, for all 256 difficulties.
\<close>

theorem check_pow_leading_zeros:
  assumes "hash_wf h"
  shows "check_pow h bits \<longleftrightarrow> unat bits \<le> leading_zero_bits_be h"
  using assms by (simp add: check_pow_def meets_target_iff)

theorem check_pow_leading_zeros_witness:
  "hash_wf (Hash (replicate 2 0 @ replicate 30 31))
   \<and> check_pow (Hash (replicate 2 0 @ replicate 30 31)) 19
   \<and> \<not> check_pow (Hash (replicate 2 0 @ replicate 30 31)) 20"
proof -
  have wf: "hash_wf (Hash (replicate 2 0 @ replicate 30 31))" by (simp add: hash_wf_def HASH_SIZE_def)
  have "leading_zero_bits_be (Hash (replicate 2 0 @ replicate 30 31)) = 19" by code_simp
  with wf check_pow_leading_zeros [OF wf] show ?thesis by simp
qed

text \<open>
  An accepted proof of work is real: when \<open>ensure_valid\<close> succeeds, the block's identity is
  the recomputed FiroPoW hash of its own seed and nonce, the stored mix hash is the
  recomputed one, and the identity has at least the declared number of leading zero bits.
\<close>

theorem ensure_valid_sound:
  assumes "firopow_laws X" and "ensure_valid X b = Ok r"
  shows "pw_final_hash r = block_hash X b
    \<and> pow_result X b = Ok \<lparr>fo_final_hash = block_hash X b, fo_mix_hash = bh_mix_hash (b_header b)\<rparr>
    \<and> unat (bh_difficulty (b_header b)) \<le> leading_zero_bits_be (block_hash X b)"
proof -
  obtain computed where c: "pow_result X b = Ok computed"
    "fo_mix_hash computed = bh_mix_hash (b_header b)" "pw_final_hash r = fo_final_hash computed"
    "meets_target (fo_final_hash computed) (bh_difficulty (b_header b))"
    using assms(2) by (rule ensure_valid_OkE)
  then have h: "block_hash X b = fo_final_hash computed"
    by (simp add: block_hash_def block_pow_hash_def)
  from c(4) pow_result_wf [OF assms(1) c(1)]
  have "unat (bh_difficulty (b_header b)) \<le> leading_zero_bits_be (fo_final_hash computed)"
    by (simp add: meets_target_iff)
  with c h show ?thesis by (cases computed) simp
qed

definition sample_block :: block where
  "sample_block =
     \<lparr>b_header = \<lparr>bh_version = 1, bh_network_id = network_id Devnet, bh_height = 0,
        bh_previous_hash = hash_zero, bh_merkle_root = tx_hash sample_externals sample_coinbase,
        bh_base_fee_atomic = 10, bh_timestamp = 0, bh_nonce = 0, bh_mix_hash = hash_zero,
        bh_difficulty = 8\<rparr>,
      b_transactions = [sample_coinbase]\<rparr>"

lemma sample_firopow_laws: "firopow_laws sample_externals"
  by (simp add: firopow_laws_def sample_externals_def)

theorem ensure_valid_sound_witness:
  "firopow_laws sample_externals \<and> is_ok (ensure_valid sample_externals sample_block)
   \<and> 8 \<le> leading_zero_bits_be (block_hash sample_externals sample_block)"
proof -
  have ok: "is_ok (ensure_valid sample_externals sample_block)" by code_simp
  then obtain r where "ensure_valid sample_externals sample_block = Ok r" by (auto simp: is_ok_iff)
  from ensure_valid_sound [OF sample_firopow_laws this] ok sample_firopow_laws show ?thesis
    by (simp add: sample_block_def)
qed

text \<open>
  The header encoding is injective: two headers whose hashes have 32 bytes have the same
  wire bytes exactly when they are equal.
\<close>

theorem header_bytes_injective:
  assumes "header_wf (b_header a)" and "header_wf (b_header b)"
  shows "block_header_wire_bytes a = block_header_wire_bytes b \<longleftrightarrow> b_header a = b_header b"
  using assms header_bytes_inj by (auto simp: block_header_wire_bytes_def)

lemma sample_block_header_wf:
  "header_wf (b_header (sample_block\<lparr>b_header := (b_header sample_block)\<lparr>bh_nonce := n\<rparr>\<rparr>))"
  using hash_wf_double_sha256 [OF sample_digests_32]
  by (simp add: header_wf_def sample_block_def string_fits_def tx_hash_def)

theorem header_bytes_injective_witness:
  "block_header_wire_bytes (sample_block\<lparr>b_header := (b_header sample_block)\<lparr>bh_nonce := 1\<rparr>\<rparr>)
   \<noteq> block_header_wire_bytes (sample_block\<lparr>b_header := (b_header sample_block)\<lparr>bh_nonce := 2\<rparr>\<rparr>)"
  using header_bytes_injective [OF sample_block_header_wf [of 1] sample_block_header_wf [of 2]]
  by (simp add: sample_block_def)


definition sample_mixing :: externals where
  "sample_mixing = sample_externals\<lparr>blake3_digest :=
     (\<lambda>m. zero_fit 32 (map2 (\<lambda>x y. x + 3 * y) (take 32 m) (drop 32 m)))\<rparr>"


text \<open>
  Repeating the last transaction of an odd block leaves the merkle root unchanged, so the
  root alone does not fix the transactions; the distinctness check on transaction hashes in
  the ledger is what rules the second list out.
\<close>

theorem merkle_root_odd_duplicate:
  assumes "odd (length txs)" and "1 < length txs"
  shows "compute_merkle_root X (txs @ [last txs]) = compute_merkle_root X txs"
proof -
  let ?l = "map (tx_hash X) txs"
  have ne: "txs \<noteq> []" using assms(2) by auto
  have "merkle_pad ?l = ?l @ [last ?l]" "merkle_pad (?l @ [last ?l]) = ?l @ [last ?l]"
    using assms(1) by (auto simp: merkle_pad_def odd_iff_mod_2_eq_one)
  then have "merkle_loop X (?l @ [last ?l]) = merkle_loop X ?l"
    using assms(2) ne merkle_loop.simps [of X ?l] merkle_loop.simps [of X "?l @ [last ?l]"] by simp
  with ne show ?thesis by (simp add: compute_merkle_root_def last_map)
qed

theorem merkle_root_odd_duplicate_witness:
  "compute_merkle_root sample_externals
     [sample_coinbase, sample_coinbase, sample_coinbase, sample_coinbase]
   = compute_merkle_root sample_externals [sample_coinbase, sample_coinbase, sample_coinbase]"
  using merkle_root_odd_duplicate [of "[sample_coinbase, sample_coinbase, sample_coinbase]"]
  by simp

end
