(* ===== verification/Vireon_Consensus.thy ===== *)
theory Vireon_Consensus
  imports Vireon_Block "HOL-Library.Code_Target_Nat"
begin

text \<open>
  \<^verbatim>\<open>vireon-core/src/consensus.rs\<close>: the emission schedule, the base fee, the difficulty
  adjustment, the timestamp rules and \<open>validate_next_block\<close>. The wall clock is the argument
  \<open>now\<close>. The lemmas show that the emission never exceeds the maximum supply, how the base
  fee answers to demand, that the difficulty stays in its range and moves by at most four
  bits, and everything an accepted block satisfies.
\<close>

section \<open>Emission\<close>

definition block_reward :: "u64 \<Rightarrow> amount" where
  "block_reward height =
     (let halvings = height div HALVING_INTERVAL_BLOCKS in
      if halvings \<ge> 64 then 0 else drop_bit (unat halvings) INITIAL_BLOCK_REWARD_ATOMIC)"

definition block_subsidy :: "u64 \<Rightarrow> amount" where
  "block_subsidy height = block_reward height"

function emission_loop :: "amount \<Rightarrow> u64 \<Rightarrow> amount result" where
  "emission_loop acc reward =
     (if reward > 0
      then rbind (ok_or (checked_mul reward HALVING_INTERVAL_BLOCKS) AmountOverflow) (\<lambda>epoch_total.
           rbind (amount_checked_add acc epoch_total) (\<lambda>acc'.
             emission_loop acc' (reward div 2)))
      else Ok acc)"
  by auto
termination
  by (relation "measure (\<lambda>(t, r). unat r)") (auto simp: unat_div word_less_nat_alt)

declare emission_loop.simps [simp del]

definition total_theoretical_emission :: "amount result" where
  "total_theoretical_emission = emission_loop 0 INITIAL_BLOCK_REWARD_ATOMIC"

section \<open>Base fee\<close>

definition initial_base_fee :: amount where
  "initial_base_fee = INITIAL_BASE_FEE_ATOMIC"

definition next_base_fee_from_block :: "block \<Rightarrow> amount" where
  "next_base_fee_from_block previous =
     (let previous_base_fee = max (bh_base_fee_atomic (b_header previous)) MIN_BASE_FEE_ATOMIC;
          target = max TARGET_TRANSACTIONS_PER_BLOCK 1;
          tx_count = (word_of_nat (length (b_transactions previous) - 1) :: u64)
      in if tx_count = target then previous_base_fee
         else
           let abs_diff = (if tx_count < target then target - tx_count else tx_count - target);
               delta_numerator = saturating_mul previous_base_fee abs_diff;
               delta = delta_numerator div target div max BASE_FEE_MAX_CHANGE_DENOMINATOR 1;
               delta = (if delta = 0 then 1 else delta)
           in if tx_count > target then saturating_add previous_base_fee delta
              else max (saturating_sub previous_base_fee delta) MIN_BASE_FEE_ATOMIC)"

definition next_base_fee :: "block option \<Rightarrow> amount" where
  "next_base_fee previous =
     (case previous of None \<Rightarrow> initial_base_fee | Some b \<Rightarrow> next_base_fee_from_block b)"

section \<open>Difficulty\<close>

fun ilog2 :: "nat \<Rightarrow> nat" where
  "ilog2 n = (if n < 2 then 0 else Suc (ilog2 (n div 2)))"

declare ilog2.simps [simp del]

text \<open>The loop over \<open>windows(2).enumerate()\<close>; the sums are 128 bits wide.\<close>

fun lwma_sums :: "u64 \<Rightarrow> nat \<Rightarrow> block list \<Rightarrow> u128 \<times> u128 \<Rightarrow> u128 \<times> u128" where
  "lwma_sums target index (previous # current # rest) (solvetime, target_sum) =
     (let raw_solvetime = saturating_sub (bh_timestamp (b_header current))
                            (bh_timestamp (b_header previous));
          clamped_solvetime = clamp raw_solvetime 1
                            (saturating_mul target DAA_SOLVETIME_CLAMP_MULTIPLIER);
          weight = (word_of_nat (index + 1) :: u128)
      in lwma_sums target (index + 1) (current # rest)
           (solvetime + ucast clamped_solvetime * weight, target_sum + ucast target * weight))"
| "lwma_sums target index _ acc = acc"

definition lwma_adjust :: "u8 \<Rightarrow> u128 \<Rightarrow> u128 \<Rightarrow> u8 \<Rightarrow> u8 \<Rightarrow> u8" where
  "lwma_adjust last_difficulty weighted_solvetime weighted_target min_d max_d =
     (if weighted_solvetime = 0 \<or> weighted_target = 0 then last_difficulty
      else
        let increase_threshold = saturating_mul weighted_target 90 div 100;
            decrease_threshold = saturating_mul weighted_target 110 div 100
        in if weighted_solvetime \<le> increase_threshold
           then let ratio = max (weighted_target div weighted_solvetime) 1;
                    step = (word_of_nat (clamp (ilog2 (unat ratio)) 1 4) :: u8)
                in clamp (saturating_add last_difficulty step) min_d max_d
           else if weighted_solvetime \<ge> decrease_threshold
           then let ratio = max (weighted_solvetime div weighted_target) 1;
                    step = (word_of_nat (clamp (ilog2 (unat ratio)) 1 4) :: u8)
                in clamp (saturating_sub last_difficulty step) min_d max_d
           else last_difficulty)"

definition lwma_sample :: "block list \<Rightarrow> nat \<Rightarrow> block list" where
  "lwma_sample previous_blocks window =
     (let sample_size = min (length previous_blocks) (window + 1)
      in drop (length previous_blocks - sample_size) previous_blocks)"

definition lwma_next_difficulty :: "block list \<Rightarrow> u64 \<Rightarrow> nat \<Rightarrow> u8 \<Rightarrow> u8 \<Rightarrow> u8 \<Rightarrow> u8" where
  "lwma_next_difficulty previous_blocks target_seconds window fallback_difficulty min_d max_d =
     (let fallback = clamp fallback_difficulty min_d max_d in
      if length previous_blocks < 2 \<or> window = 0
      then (case previous_blocks of [] \<Rightarrow> fallback
            | _ \<Rightarrow> clamp (bh_difficulty (b_header (last previous_blocks))) min_d max_d)
      else
        let sample = lwma_sample previous_blocks window;
            target = max target_seconds 1;
            (weighted_solvetime, weighted_target) = lwma_sums target 0 sample (0, 0);
            last_difficulty = clamp (case sample of [] \<Rightarrow> fallback
              | _ \<Rightarrow> bh_difficulty (b_header (last sample))) min_d max_d
        in lwma_adjust last_difficulty weighted_solvetime weighted_target min_d max_d)"

definition next_difficulty_for_network :: "network \<Rightarrow> block list \<Rightarrow> u8 \<Rightarrow> u8" where
  "next_difficulty_for_network n previous_blocks fallback_difficulty =
     lwma_next_difficulty previous_blocks BLOCK_TIME_SECONDS
       (max (difficulty_adjustment_window n) DAA_WINDOW_BLOCKS) fallback_difficulty
       (minimum_difficulty_leading_zero_bits n) (maximum_difficulty_leading_zero_bits n)"

section \<open>Coinbase\<close>

definition expected_coinbase_amount :: "u64 \<Rightarrow> amount \<Rightarrow> transaction list \<Rightarrow> amount result" where
  "expected_coinbase_amount height base_fee txs =
     (let subsidy = block_reward height in
      rbind (try_fold (\<lambda>total t.
               rbind (validate_fee_against_base_fee t base_fee) (\<lambda>_.
               rbind (effective_priority_fee t base_fee) (amount_checked_add total)))
             0 (drop 1 txs)) (\<lambda>collected_priority_fees.
      amount_checked_add subsidy collected_priority_fees))"

definition validate_coinbase_structure :: "transaction list \<Rightarrow> transaction result" where
  "validate_coinbase_structure txs =
     rbind (ok_or (case txs of [] \<Rightarrow> None | t # _ \<Rightarrow> Some t) MissingCoinbase) (\<lambda>coinbase.
     if \<not> is_coinbase coinbase then Err CoinbaseNotFirst
     else if tx_max_fee coinbase \<noteq> 0 \<or> tx_priority_fee coinbase \<noteq> 0 then Err InvalidCoinbaseFee
     else if list_ex is_coinbase (drop 1 txs) then Err DuplicateCoinbase
     else Ok coinbase)"

definition validate_coinbase_amount :: "u64 \<Rightarrow> amount \<Rightarrow> transaction list \<Rightarrow> amount result" where
  "validate_coinbase_amount height base_fee txs =
     rbind (validate_coinbase_structure txs) (\<lambda>coinbase.
     rbind (expected_coinbase_amount height base_fee txs) (\<lambda>expected.
     if tx_amount coinbase \<noteq> expected
     then Err (InvalidCoinbaseAmount expected (tx_amount coinbase))
     else if tx_amount coinbase = 0 then Err ZeroAmountTransaction
     else Ok expected))"

section \<open>Timestamps\<close>

definition validate_block_not_too_far_in_future :: "u64 \<Rightarrow> u64 \<Rightarrow> unit result" where
  "validate_block_not_too_far_in_future timestamp now =
     (let max_allowed = saturating_add now MAX_FUTURE_BLOCK_DRIFT_SECONDS in
      reject_if (timestamp > max_allowed)
        (InvalidFutureTimestamp now timestamp MAX_FUTURE_BLOCK_DRIFT_SECONDS))"

definition validate_block_timestamp :: "u64 \<Rightarrow> block option \<Rightarrow> block \<Rightarrow> unit result" where
  "validate_block_timestamp now previous candidate =
     rbind (case previous of
              None \<Rightarrow> Ok ()
            | Some prev \<Rightarrow>
                reject_if (bh_timestamp (b_header candidate) \<le> bh_timestamp (b_header prev))
                  (InvalidTimestamp (bh_timestamp (b_header prev)) (bh_timestamp (b_header candidate))))
       (\<lambda>_. validate_block_not_too_far_in_future (bh_timestamp (b_header candidate)) now)"

definition median_time_past :: "block list \<Rightarrow> u64 option" where
  "median_time_past previous_blocks =
     (if previous_blocks = [] then None
      else let start = length previous_blocks - MEDIAN_TIME_PAST_WINDOW;
               times = sort (map (\<lambda>b. bh_timestamp (b_header b)) (drop start previous_blocks))
           in Some (times ! (length times div 2)))"

definition validate_median_time_past :: "block list \<Rightarrow> block \<Rightarrow> unit result" where
  "validate_median_time_past previous_blocks candidate =
     (case median_time_past previous_blocks of
        None \<Rightarrow> Ok ()
      | Some median \<Rightarrow>
          reject_if (bh_timestamp (b_header candidate) \<le> median)
            (InvalidMedianTimePast median (bh_timestamp (b_header candidate))))"

section \<open>Block validation\<close>

fun validate_block_bodies :: "externals \<Rightarrow> string list \<Rightarrow> transaction list \<Rightarrow> unit result" where
  "validate_block_bodies X seen [] = Ok ()"
| "validate_block_bodies X seen (t # ts) =
     (let wire_len = length (tx_encode X t) in
      if wire_len > MAX_TRANSACTION_WIRE_BYTES
      then Err (TransactionTooLarge MAX_TRANSACTION_WIRE_BYTES wire_len)
      else rbind (tx_verify X t) (\<lambda>_.
        let h = hash_to_hex (tx_hash X t) in
        if h \<in> set seen then Err (DuplicateTransactionHash h)
        else validate_block_bodies X (h # seen) ts))"

definition validate_transaction_networks :: "externals \<Rightarrow> network \<Rightarrow> transaction list \<Rightarrow> unit result" where
  "validate_transaction_networks X n =
     try_each (\<lambda>t. rbind (tx_network X t) (\<lambda>tn.
       reject_if (tn \<noteq> n) (InvalidNetwork (network_id n) (network_id tn))))"

definition validate_difficulty :: "network \<Rightarrow> block list \<Rightarrow> block option \<Rightarrow> block \<Rightarrow> unit result" where
  "validate_difficulty n previous_blocks previous candidate =
     (let d = bh_difficulty (b_header candidate);
          expected = next_difficulty_for_network n previous_blocks d
      in if d < minimum_difficulty_leading_zero_bits n \<or> d > maximum_difficulty_leading_zero_bits n
         then Err (InvalidDifficultyAdjustment expected d)
         else if previous \<noteq> None \<and> d \<noteq> expected
         then Err (InvalidDifficultyAdjustment expected d)
         else Ok ())"

definition validate_next_block ::
  "externals \<Rightarrow> u64 \<Rightarrow> network \<Rightarrow> block list \<Rightarrow> block option \<Rightarrow> block \<Rightarrow> amount \<Rightarrow> unit result" where
  "validate_next_block X now n previous_blocks previous candidate emitted_supply =
     (let h = b_header candidate; txs = b_transactions candidate in
      rbind (reject_if (txs = []) EmptyTransactions) (\<lambda>_.
      rbind (reject_if (length txs > MAX_TRANSACTIONS_PER_BLOCK)
               (TooManyTransactions MAX_TRANSACTIONS_PER_BLOCK (length txs))) (\<lambda>_.
      rbind (validate_block_bodies X [] txs) (\<lambda>_.
      rbind (reject_if (bh_network_id h \<noteq> network_id n)
               (InvalidNetwork (network_id n) (bh_network_id h))) (\<lambda>_.
      let expected_height = (case previous of None \<Rightarrow> 0 | Some b \<Rightarrow> bh_height (b_header b) + 1) in
      rbind (reject_if (bh_height h \<noteq> expected_height)
               (InvalidHeight expected_height (bh_height h))) (\<lambda>_.
      rbind (validate_block_timestamp now previous candidate) (\<lambda>_.
      rbind (validate_median_time_past previous_blocks candidate) (\<lambda>_.
      let expected_version = expected_block_version n expected_height in
      rbind (reject_if (bh_version h \<noteq> expected_version)
               (InvalidBlockVersion expected_version (bh_version h) (bh_height h))) (\<lambda>_.
      rbind (reject_if (bh_base_fee_atomic h \<noteq> next_base_fee previous)
               (InvalidBaseFee (next_base_fee previous) (bh_base_fee_atomic h))) (\<lambda>_.
      rbind (validate_difficulty n previous_blocks previous candidate) (\<lambda>_.
      let expected_previous_hash = (case previous of None \<Rightarrow> hash_zero | Some b \<Rightarrow> block_hash X b) in
      rbind (reject_if (bh_previous_hash h \<noteq> expected_previous_hash)
               (InvalidPreviousHash expected_previous_hash (bh_previous_hash h))) (\<lambda>_.
      rbind (validate_checkpoint n (bh_height h) (block_hash X candidate)) (\<lambda>_.
      rbind (recompute_merkle_root X candidate) (\<lambda>root.
      rbind (reject_if (root \<noteq> bh_merkle_root h) InvalidMerkleRoot) (\<lambda>_.
      rbind (ensure_valid X candidate) (\<lambda>_.
      rbind (validate_coinbase_amount (bh_height h) (bh_base_fee_atomic h) txs) (\<lambda>_.
      rbind (try_each (tx_verify X) (drop 1 txs)) (\<lambda>_.
      rbind (validate_transaction_networks X n txs) (\<lambda>_.
      rbind (amount_checked_add emitted_supply (block_reward (bh_height h))) (\<lambda>updated_supply.
      reject_if (updated_supply > MAX_SUPPLY_ATOMIC) SupplyOverflow))))))))))))))))))))"

section \<open>Emission facts\<close>

lemma unat_block_reward: "unat (block_reward h) = 1902587519 div 2 ^ (unat h div 1576800)"
proof -
  have halvings: "unat (h div 1576800) = unat h div 1576800" by (simp add: unat_div)
  show ?thesis
  proof (cases "(64::u64) \<le> h div 1576800")
    case True
    then have "(2::nat) ^ 64 \<le> 2 ^ (unat h div 1576800)"
      using halvings by (intro power_increasing) (simp_all add: word_le_nat_alt)
    then have "1902587519 < (2::nat) ^ (unat h div 1576800)" by (rule less_le_trans [rotated]) simp
    with True show ?thesis by (simp add: block_reward_def core_constants)
  next
    case False
    have "unat (drop_bit k (1902587519::u64)) = 1902587519 div 2 ^ k" for k
      unfolding unsigned_drop_bit_eq by (simp add: drop_bit_eq_div)
    with False show ?thesis by (simp add: block_reward_def core_constants halvings)
  qed
qed

definition reward_at :: "nat \<Rightarrow> nat" where
  "reward_at h = 1902587519 div 2 ^ (h div 1576800)"

definition emission_total :: nat where
  "emission_total = (\<Sum>k<31. 1576800 * (1902587519 div 2 ^ k))"

lemma reward_at_late: "31 * 1576800 \<le> h \<Longrightarrow> reward_at h = 0"
proof -
  assume "31 * 1576800 \<le> h"
  then have "31 \<le> h div 1576800" by simp
  then have "(2::nat) ^ 31 \<le> 2 ^ (h div 1576800)" by (rule power_increasing) simp
  then have "1902587519 < (2::nat) ^ (h div 1576800)" by (rule less_le_trans [rotated]) simp
  then show ?thesis by (simp add: reward_at_def)
qed

lemma sum_reward_epochs: "(\<Sum>h<n * 1576800. reward_at h) = (\<Sum>k<n. 1576800 * (1902587519 div 2 ^ k))"
proof -
  have "(\<Sum>h\<in>{k * 1576800..<k * 1576800 + 1576800}. reward_at h) = 1576800 * (1902587519 div 2 ^ k)"
    for k
  proof -
    have "reward_at h = 1902587519 div 2 ^ k" if "h \<in> {k * 1576800..<k * 1576800 + 1576800}" for h
    proof -
      from that have "h div 1576800 = k"
        by (intro div_nat_eqI) (auto simp: mult.commute)
      then show ?thesis by (simp add: reward_at_def)
    qed
    then show ?thesis by simp
  qed
  then show ?thesis using sum.nat_group [of reward_at 1576800 n] by simp
qed

lemma sum_reward_le: "(\<Sum>h<n. reward_at h) \<le> emission_total"
proof -
  have "(\<Sum>h<n. reward_at h) \<le> (\<Sum>h<max n (31 * 1576800). reward_at h)"
    by (rule sum_mono2) auto
  also have "\<dots> = (\<Sum>h<31 * 1576800. reward_at h)"
    by (rule sum.mono_neutral_right) (auto intro: reward_at_late)
  also have "\<dots> = emission_total" by (simp only: sum_reward_epochs emission_total_def)
  finally show ?thesis .
qed

lemma sum_reward_eq: "31 * 1576800 \<le> n \<Longrightarrow> (\<Sum>h<n. reward_at h) = emission_total"
proof -
  assume "31 * 1576800 \<le> n"
  then have "(\<Sum>h<n. reward_at h) = (\<Sum>h<31 * 1576800. reward_at h)"
    by (intro sum.mono_neutral_right) (auto intro: reward_at_late)
  then show ?thesis by (simp only: sum_reward_epochs emission_total_def)
qed

fun emission_sum :: "nat \<Rightarrow> nat" where
  "emission_sum r = (if r = 0 then 0 else 1576800 * r + emission_sum (r div 2))"

declare emission_sum.simps [simp del]

lemma emission_sum_value: "emission_sum 1902587519 = 5999999968382400"
  by (simp add: emission_sum.simps)

lemma emission_sum_epochs: "r < 2 ^ n \<Longrightarrow> emission_sum r = (\<Sum>k<n. 1576800 * (r div 2 ^ k))"
proof (induction n arbitrary: r)
  case (Suc n)
  then have "r div 2 < 2 ^ n" by (simp add: less_mult_imp_div_less mult.commute)
  with Suc.IH have "emission_sum (r div 2) = (\<Sum>k<n. 1576800 * (r div 2 div 2 ^ k))" by blast
  moreover have "emission_sum r = 1576800 * r + emission_sum (r div 2)"
    by (cases "r = 0") (simp_all add: emission_sum.simps)
  ultimately show ?case
    unfolding sum.lessThan_Suc_shift by (simp add: div_mult2_eq)
qed (simp add: emission_sum.simps)

lemma emission_total_value: "emission_total = 5999999968382400"
  using emission_sum_epochs [of 1902587519 31] emission_sum_value by (simp add: emission_total_def)

lemma emission_loop_sum:
  "unat acc + emission_sum (unat r) < 2 ^ 64 \<Longrightarrow>
     \<exists>e. emission_loop acc r = Ok e \<and> unat e = unat acc + emission_sum (unat r)"
proof (induction acc r rule: emission_loop.induct)
  case (1 acc r)
  show ?case
  proof (cases "r > 0")
    case False
    then have "r = 0" by (simp add: word_gt_0)
    then show ?thesis by (simp add: emission_loop.simps emission_sum.simps)
  next
    case True
    then have pos: "0 < unat r" by (simp add: word_less_nat_alt)
    then have sum: "emission_sum (unat r) = 1576800 * unat r + emission_sum (unat r div 2)"
      by (subst emission_sum.simps) simp
    with 1(2) have fits: "unat r * 1576800 < 2 ^ LENGTH(64)" by simp
    then have m: "checked_mul r HALVING_INTERVAL_BLOCKS = Some (r * 1576800)"
      and mv: "unat (r * 1576800) = unat r * 1576800"
      by (simp_all add: checked_mul_def core_constants unat_mult_small)
    have afits: "unat acc + unat (r * 1576800) < 2 ^ LENGTH(64)" using 1(2) sum mv by simp
    then have a: "amount_checked_add acc (r * 1576800) = Ok (acc + r * 1576800)"
      and av: "unat (acc + r * 1576800) = unat acc + unat r * 1576800"
      using mv by (simp_all add: amount_add_exact unat_add_small)
    have dv: "unat (r div 2) = unat r div 2" by (simp add: unat_div)
    have "unat (acc + r * 1576800) + emission_sum (unat (r div 2)) < 2 ^ 64"
      using 1(2) sum av dv by simp
    then obtain e where "emission_loop (acc + r * 1576800) (r div 2) = Ok e"
      "unat e = unat (acc + r * 1576800) + emission_sum (unat (r div 2))" using 1(1) [OF True] by blast
    with True m a av dv sum show ?thesis by (subst emission_loop.simps) simp
  qed
qed

lemma total_emission_value: "total_theoretical_emission = Ok 5999999968382400"
proof -
  obtain e where "total_theoretical_emission = Ok e" "unat e = 5999999968382400"
    using emission_loop_sum [of 0 INITIAL_BLOCK_REWARD_ATOMIC]
    by (auto simp: total_theoretical_emission_def core_constants emission_sum_value)
  moreover from this have "e = 5999999968382400" by (simp add: word_unat_eq_iff)
  ultimately show ?thesis by simp
qed

lemma sum_block_reward:
  "n \<le> 2 ^ 64 \<Longrightarrow> (\<Sum>h<n. unat (block_reward (word_of_nat h))) = (\<Sum>h<n. reward_at h)"
  by (rule sum.cong) (auto simp: unat_block_reward reward_at_def unat_of_nat)

section \<open>Base fee facts\<close>

text \<open>The rule over natural numbers: \<open>p\<close> is the floor-adjusted previous fee, \<open>n\<close> the spends.\<close>

definition base_fee_rule :: "nat \<Rightarrow> nat \<Rightarrow> nat" where
  "base_fee_rule p n =
     (if n = 1 then p
      else if n = 0 then max 1 (p - max 1 (p div 8))
      else min (p + max 1 (min (p * (n - 1)) (2 ^ 64 - 1) div 8)) (2 ^ 64 - 1))"

lemma base_fee_rule_pos: "1 \<le> p \<Longrightarrow> 1 \<le> base_fee_rule p n"
  unfolding base_fee_rule_def by (simp add: le_max_iff_disj)

lemma unat_max: "unat (max a b) = max (unat a) (unat b)"
  by (auto simp: max_def word_le_nat_alt)

lemma one_or_more: "unat (if d = 0 then 1 else d :: u64) = max 1 (unat d)"
  using unat_eq_zero [of d] by auto

lemma next_base_fee_rule:
  assumes "length (b_transactions b) \<le> 2 ^ 64"
  shows "unat (next_base_fee_from_block b) =
    base_fee_rule (max (unat (bh_base_fee_atomic (b_header b))) 1) (length (b_transactions b) - 1)"
proof -
  define n where "n = length (b_transactions b) - 1"
  define w where "w = (word_of_nat n :: u64)"
  define p where "p = max (bh_base_fee_atomic (b_header b)) 1"
  have n: "unat w = n" using assms by (simp add: w_def n_def unat_of_nat)
  have p: "unat p = max (unat (bh_base_fee_atomic (b_header b))) 1"
    by (simp add: p_def unat_max)
  have lt: "w < 1 \<longleftrightarrow> n = 0" "1 < w \<longleftrightarrow> 1 < n" "w = 1 \<longleftrightarrow> n = 1"
    using n by (auto simp: word_less_nat_alt word_unat_eq_iff)
  have form: "next_base_fee_from_block b =
    (if w = 1 then p
     else let d = saturating_mul p (if w < 1 then 1 - w else w - 1) div 8;
              d = (if d = 0 then 1 else d)
          in if 1 < w then saturating_add p d else max (saturating_sub p d) 1)"
    by (simp add: next_base_fee_from_block_def core_constants Let_def p_def w_def n_def)
  consider "n = 1" | "n = 0" | "1 < n" by linarith
  then have "unat (next_base_fee_from_block b) = base_fee_rule (unat p) n"
  proof cases
    case 1
    then show ?thesis using form lt by (simp add: base_fee_rule_def)
  next
    case 2
    then have "w = 0" by (simp add: w_def)
    then have "unat (saturating_mul p (1 - w) div 8) = unat p div 8"
      using unat_u64_less [of p] by (simp add: unat_div unat_saturating_mul)
    moreover have "next_base_fee_from_block b = max (saturating_sub p
        (if saturating_mul p (1 - w) div 8 = 0 then 1 else saturating_mul p (1 - w) div 8)) 1"
      using form \<open>w = 0\<close> by (simp add: Let_def)
    ultimately show ?thesis
      using 2 by (simp only: unat_max unat_saturating_sub one_or_more base_fee_rule_def) simp
  next
    case 3
    then have "unat (w - 1) = n - 1" using n by (simp add: unat_sub word_le_nat_alt)
    then have "unat (saturating_mul p (w - 1) div 8) = min (unat p * (n - 1)) (2 ^ 64 - 1) div 8"
      by (simp add: unat_div unat_saturating_mul)
    moreover have "next_base_fee_from_block b = saturating_add p
        (if saturating_mul p (w - 1) div 8 = 0 then 1 else saturating_mul p (w - 1) div 8)"
      using form lt 3 by (auto simp: Let_def)
    ultimately show ?thesis
      using 3 by (simp only: unat_saturating_add one_or_more base_fee_rule_def) simp
  qed
  then show ?thesis by (simp only: n_def p)
qed

section \<open>Difficulty facts\<close>

lemma clamp_step_up:
  fixes l s lo hi :: u8
  assumes "lo \<le> l" and "l \<le> hi" and "unat s \<le> 4"
  shows "unat l \<le> unat (clamp (saturating_add l s) lo hi)
    \<and> unat (clamp (saturating_add l s) lo hi) \<le> unat l + 4"
  using assms unat_u8_less [of l]
  by (auto simp: unat_saturating_add clamp_def word_le_nat_alt word_less_nat_alt min_def)

lemma clamp_step_down:
  fixes l s lo hi :: u8
  assumes "lo \<le> l" and "l \<le> hi" and "unat s \<le> 4"
  shows "unat (clamp (saturating_sub l s) lo hi) \<le> unat l
    \<and> unat l \<le> unat (clamp (saturating_sub l s) lo hi) + 4"
  using assms by (auto simp: unat_saturating_sub clamp_def word_le_nat_alt word_less_nat_alt)

lemma lwma_step_small: "unat (word_of_nat (clamp k 1 4) :: u8) \<le> 4"
  by (auto simp: clamp_def unat_of_nat)

lemma lwma_sample_last:
  assumes "previous_blocks \<noteq> []"
  shows "lwma_sample previous_blocks w \<noteq> []"
    and "last (lwma_sample previous_blocks w) = last previous_blocks"
proof -
  have "length (lwma_sample previous_blocks w) \<noteq> 0"
    using assms by (simp add: lwma_sample_def Let_def)
  then show "lwma_sample previous_blocks w \<noteq> []" by auto
  then show "last (lwma_sample previous_blocks w) = last previous_blocks"
    by (simp add: lwma_sample_def Let_def)
qed

lemma lwma_next_difficulty_eq:
  fixes lo hi :: u8
  assumes "previous_blocks \<noteq> []"
  shows "lwma_next_difficulty previous_blocks t w fb lo hi =
    (let l = clamp (bh_difficulty (b_header (last previous_blocks))) lo hi;
         (ws, wt) = lwma_sums (max t 1) 0 (lwma_sample previous_blocks w) (0, 0)
     in if length previous_blocks < 2 \<or> w = 0 then l else lwma_adjust l ws wt lo hi)"
  using assms lwma_sample_last [OF assms, of w]
  by (simp add: lwma_next_difficulty_def Let_def list.case_eq_if split: prod.splits)

lemma lwma_adjust_cases:
  "\<exists>k. lwma_adjust l ws wt lo hi
     \<in> {l, clamp (saturating_add l (word_of_nat (clamp k 1 4))) lo hi,
        clamp (saturating_sub l (word_of_nat (clamp k 1 4))) lo hi}"
  by (auto simp: lwma_adjust_def Let_def)

lemma lwma_cases:
  fixes lo hi :: u8
  assumes "previous_blocks \<noteq> []"
  defines "l \<equiv> clamp (bh_difficulty (b_header (last previous_blocks))) lo hi"
  shows "\<exists>k. lwma_next_difficulty previous_blocks t w fb lo hi
     \<in> {l, clamp (saturating_add l (word_of_nat (clamp k 1 4))) lo hi,
        clamp (saturating_sub l (word_of_nat (clamp k 1 4))) lo hi}"
  unfolding lwma_next_difficulty_eq [OF assms(1)] Let_def l_def [symmetric]
  using lwma_adjust_cases by (auto split: prod.splits)

lemma lwma_bounds:
  fixes lo hi fb :: u8 and t :: u64 and w :: nat
  assumes "lo \<le> hi" and "previous_blocks \<noteq> []"
  defines "l \<equiv> clamp (bh_difficulty (b_header (last previous_blocks))) lo hi"
    and "d \<equiv> lwma_next_difficulty previous_blocks t w fb lo hi"
  shows "lo \<le> d \<and> d \<le> hi \<and> unat d \<le> unat l + 4 \<and> unat l \<le> unat d + 4"
proof -
  have l: "lo \<le> l" "l \<le> hi" using clamp_bounds [OF assms(1)] by (auto simp: l_def)
  obtain k where k: "d \<in> {l, clamp (saturating_add l (word_of_nat (clamp k 1 4))) lo hi,
        clamp (saturating_sub l (word_of_nat (clamp k 1 4))) lo hi}"
    using lwma_cases [OF assms(2), of t w fb lo hi] by (auto simp: l_def d_def)
  from k have "lo \<le> d \<and> d \<le> hi" using l clamp_bounds [OF assms(1)] by auto
  moreover from k have "unat d \<le> unat l + 4 \<and> unat l \<le> unat d + 4"
    using clamp_step_up [OF l lwma_step_small, of k] clamp_step_down [OF l lwma_step_small, of k]
    by auto
  ultimately show ?thesis by blast
qed

text \<open>Blocks one target interval apart.\<close>

fun steady :: "nat \<Rightarrow> block list \<Rightarrow> bool" where
  "steady t (a # b # rest) \<longleftrightarrow>
     unat (bh_timestamp (b_header b)) = unat (bh_timestamp (b_header a)) + t \<and> steady t (b # rest)"
| "steady t _ \<longleftrightarrow> True"

lemma steady_tl: "steady t bs \<Longrightarrow> steady t (tl bs)"
  by (cases "(t, bs)" rule: steady.cases) auto

lemma steady_drop: "steady t bs \<Longrightarrow> steady t (drop k bs)"
  by (induction k) (auto simp: drop_Suc tl_drop [symmetric] intro: steady_tl)

lemma lwma_sums_steady:
  "steady (unat t) bs \<Longrightarrow> 0 < t \<Longrightarrow> unat t * 12 < 2 ^ 64 \<Longrightarrow>
     unat c + unat t * (\<Sum>j<length bs - 1. i + j + 1) < 2 ^ 64 \<Longrightarrow> i + length bs < 2 ^ 64 \<Longrightarrow>
     \<exists>d. lwma_sums t i bs (c, c) = (d, d) \<and> unat d = unat c + unat t * (\<Sum>j<length bs - 1. i + j + 1)"
proof (induction bs arbitrary: c i rule: induct_list012)
  case (3 a b rest)
  have raw: "saturating_sub (bh_timestamp (b_header b)) (bh_timestamp (b_header a)) = t"
    using 3(3) by (simp add: word_unat_eq_iff unat_saturating_sub)
  have "unat (saturating_mul t DAA_SOLVETIME_CLAMP_MULTIPLIER) = unat t * 12"
    using 3(5) by (simp add: unat_saturating_mul core_constants)
  then have cl: "clamp t 1 (saturating_mul t DAA_SOLVETIME_CLAMP_MULTIPLIER) = t"
    using 3(4) by (intro clamp_id) (auto simp: word_le_nat_alt word_less_nat_alt)
  let ?w = "ucast t * (word_of_nat (i + 1) :: u128)"
  have iw: "unat (word_of_nat (i + 1) :: u128) = i + 1"
    using 3(7) by (subst unat_of_nat) (simp del: of_nat_add)
  have tw: "unat (ucast t :: u128) = unat t"
    using unat_u64_less [of t] by (simp add: unsigned_ucast_eq take_bit_nat_eq_self)
  have shift: "(\<Sum>j<length (a # b # rest) - 1. i + j + 1)
      = (i + 1) + (\<Sum>j<length (b # rest) - 1. (i + 1) + j + 1)"
    by (simp add: sum.lessThan_Suc_shift del: sum.lessThan_Suc)
  have split: "unat c + unat t * (\<Sum>j<length (a # b # rest) - 1. i + j + 1)
      = unat c + unat t * (i + 1) + unat t * (\<Sum>j<length (b # rest) - 1. (i + 1) + j + 1)"
    unfolding shift by (simp add: algebra_simps)
  with 3(6) have "unat t * (i + 1) < 2 ^ 64" by simp
  then have wv: "unat ?w = unat t * (i + 1)"
    using iw tw by (subst unat_mult_small) simp_all
  have cv: "unat (c + ?w) = unat c + unat t * (i + 1)"
    using 3(6) split wv by (subst unat_add_small) simp_all
  have "\<exists>d. lwma_sums t (i + 1) (b # rest) (c + ?w, c + ?w) = (d, d) \<and>
      unat d = unat (c + ?w) + unat t * (\<Sum>j<length (b # rest) - 1. (i + 1) + j + 1)"
    by (rule 3(2)) (use 3(3-7) split cv in simp_all)
  then show ?case using raw cl split cv by (simp add: Let_def add.assoc)
qed simp_all

lemma lwma_adjust_balanced:
  fixes wt :: u128
  assumes "10 \<le> unat wt" and "unat wt < 2 ^ 64"
  shows "lwma_adjust l wt wt lo hi = l"
proof -
  have up: "unat (saturating_mul wt 90 div 100) = unat wt * 90 div 100"
    and down: "unat (saturating_mul wt 110 div 100) = unat wt * 110 div 100"
    using assms(2) by (simp_all add: unat_div unat_saturating_mul)
  have "\<not> wt \<le> saturating_mul wt 90 div 100" "\<not> saturating_mul wt 110 div 100 \<le> wt"
    using assms(1) by (simp_all add: word_le_nat_alt up down)
  then show ?thesis by (simp add: lwma_adjust_def Let_def)
qed

lemma sum_up_to_bounds:
  assumes "0 < (m::nat)" and "m \<le> 1000"
  shows "1 \<le> (\<Sum>j<m. 0 + j + 1)" and "(\<Sum>j<m. 0 + j + 1) \<le> 1000000"
proof -
  have "(\<Sum>j\<in>{0}. 0 + j + (1::nat)) \<le> (\<Sum>j<m. 0 + j + 1)"
    using assms(1) by (intro sum_mono2) auto
  then show "1 \<le> (\<Sum>j<m. 0 + j + 1)" by simp
  have "(\<Sum>j<m. 0 + j + 1) \<le> (\<Sum>j<m. 1000)"
    using assms(2) by (intro sum_mono) auto
  then show "(\<Sum>j<m. 0 + j + 1) \<le> 1000000" using assms(2) by simp
qed

lemma lwma_steady:
  assumes "steady 60 bs" and "2 \<le> length bs" and "0 < w" and "w \<le> 1000"
  shows "lwma_next_difficulty bs 60 w fb lo hi = clamp (bh_difficulty (b_header (last bs))) lo hi"
proof -
  let ?s = "lwma_sample bs w"
  let ?m = "length ?s - 1"
  have ne: "bs \<noteq> []" using assms(2) by auto
  have len: "length ?s = min (length bs) (w + 1)" by (simp add: lwma_sample_def Let_def)
  have m: "0 < ?m" "?m \<le> 1000" using assms(2-4) by (simp_all add: len)
  have st: "steady (unat (60::u64)) ?s"
    using steady_drop [OF assms(1)] by (simp add: lwma_sample_def Let_def)
  note sum = sum_up_to_bounds [OF m]
  have "unat (0::u128) + unat (60::u64) * (\<Sum>j<?m. 0 + j + 1) < 2 ^ 64" using sum by simp
  moreover have "0 + length ?s < 2 ^ 64" using m by simp
  ultimately obtain d where d: "lwma_sums 60 0 ?s (0, 0) = (d, d)"
    "unat d = unat (0::u128) + unat (60::u64) * (\<Sum>j<?m. 0 + j + 1)"
    using lwma_sums_steady [OF st _ _ _ _, of 0 0] by fastforce
  have "10 \<le> unat d" "unat d < 2 ^ 64" using d(2) sum by simp_all
  then have "lwma_adjust l d d lo hi = l" for l by (rule lwma_adjust_balanced)
  moreover have "max 60 1 = (60::u64)" by simp
  ultimately show ?thesis
    using d(1) assms(2,3) by (simp only: lwma_next_difficulty_eq [OF ne] Let_def) simp
qed

section \<open>Timestamp facts\<close>

lemma median_time_past_in:
  assumes "median_time_past bs = Some m"
  shows "\<exists>b\<in>set bs. m = bh_timestamp (b_header b)"
proof -
  define times where
    "times = sort (map (\<lambda>b. bh_timestamp (b_header b)) (drop (length bs - MEDIAN_TIME_PAST_WINDOW) bs))"
  from assms have m: "m = times ! (length times div 2)" and ne: "bs \<noteq> []"
    by (auto simp: median_time_past_def times_def Let_def split: if_splits)
  have "0 < length times" using ne by (simp add: times_def MEDIAN_TIME_PAST_WINDOW_def)
  then have "m \<in> set times" unfolding m by (intro nth_mem) simp
  then show ?thesis by (auto simp: times_def dest: in_set_dropD)
qed

lemma mtp_implied:
  assumes "\<forall>b\<in>set bs. bh_timestamp (b_header b) \<le> bh_timestamp (b_header (last bs))"
    and "bs \<noteq> []" and "bh_timestamp (b_header (last bs)) < bh_timestamp (b_header c)"
  shows "validate_median_time_past bs c = Ok ()"
proof -
  have "m < bh_timestamp (b_header c)" if "median_time_past bs = Some m" for m
    using median_time_past_in [OF that] assms(1,3) by fastforce
  then show ?thesis by (auto simp: validate_median_time_past_def not_le split: option.splits)
qed

section \<open>What an accepted block satisfies\<close>

lemma validate_block_bodies_Ok:
  "validate_block_bodies X seen ts = Ok () \<longleftrightarrow>
     (\<forall>t\<in>set ts. length (tx_encode X t) \<le> MAX_TRANSACTION_WIRE_BYTES \<and> tx_verify X t = Ok ())
     \<and> distinct (map (tx_hash X) ts)
     \<and> (\<forall>t\<in>set ts. hash_to_hex (tx_hash X t) \<notin> set seen)"
proof (induction ts arbitrary: seen)
  case (Cons t ts)
  show ?case
  proof (cases "length (tx_encode X t) \<le> MAX_TRANSACTION_WIRE_BYTES \<and> tx_verify X t = Ok ()
      \<and> hash_to_hex (tx_hash X t) \<notin> set seen")
    case True
    then have "validate_block_bodies X seen (t # ts) = validate_block_bodies X (hash_to_hex (tx_hash X t) # seen) ts"
      by (simp add: Let_def)
    with True Cons show ?thesis by (auto, metis imageI)
  next
    case False
    then have "validate_block_bodies X seen (t # ts) \<noteq> Ok ()"
      by (auto simp: Let_def result_simps)
    with False show ?thesis by auto
  qed
qed simp

lemma validate_transaction_networks_Ok:
  "validate_transaction_networks X n ts = Ok () \<longleftrightarrow> (\<forall>t\<in>set ts. tx_network X t = Ok n)"
  by (auto simp: validate_transaction_networks_def result_simps)

definition block_acceptable ::
  "externals \<Rightarrow> u64 \<Rightarrow> network \<Rightarrow> block list \<Rightarrow> block option \<Rightarrow> block \<Rightarrow> amount \<Rightarrow> bool" where
  "block_acceptable X now n previous_blocks previous candidate supply \<longleftrightarrow>
     (let h = b_header candidate; txs = b_transactions candidate in
        txs \<noteq> [] \<and> length txs \<le> MAX_TRANSACTIONS_PER_BLOCK
      \<and> (\<forall>t\<in>set txs. length (tx_encode X t) \<le> MAX_TRANSACTION_WIRE_BYTES
            \<and> tx_verify X t = Ok () \<and> tx_network X t = Ok n)
      \<and> distinct (map (tx_hash X) txs)
      \<and> bh_network_id h = network_id n
      \<and> bh_height h = (case previous of None \<Rightarrow> 0 | Some p \<Rightarrow> bh_height (b_header p) + 1)
      \<and> pred_option (\<lambda>p. bh_timestamp (b_header p) < bh_timestamp h) previous
      \<and> pred_option (\<lambda>m. m < bh_timestamp h) (median_time_past previous_blocks)
      \<and> unat (bh_timestamp h) \<le> unat now + 7200
      \<and> bh_version h = expected_block_version n (bh_height h)
      \<and> bh_base_fee_atomic h = next_base_fee previous
      \<and> minimum_difficulty_leading_zero_bits n \<le> bh_difficulty h
      \<and> bh_difficulty h \<le> maximum_difficulty_leading_zero_bits n
      \<and> (previous \<noteq> None \<longrightarrow>
           bh_difficulty h = next_difficulty_for_network n previous_blocks (bh_difficulty h))
      \<and> bh_previous_hash h = (case previous of None \<Rightarrow> hash_zero | Some p \<Rightarrow> block_hash X p)
      \<and> validate_checkpoint n (bh_height h) (block_hash X candidate) = Ok ()
      \<and> compute_merkle_root X txs = Ok (bh_merkle_root h)
      \<and> is_ok (ensure_valid X candidate)
      \<and> is_ok (validate_coinbase_amount (bh_height h) (bh_base_fee_atomic h) txs)
      \<and> unat supply + unat (block_reward (bh_height h)) \<le> unat MAX_SUPPLY_ATOMIC)"

lemma future_Ok:
  "validate_block_not_too_far_in_future ts now = Ok () \<longleftrightarrow> unat ts \<le> unat now + 7200"
  using unat_u64_less [of ts]
  by (auto simp: validate_block_not_too_far_in_future_def Let_def word_less_nat_alt
      unat_saturating_add core_constants min_def not_less split: if_splits)

lemma validate_block_timestamp_Ok:
  "validate_block_timestamp now previous c = Ok () \<longleftrightarrow>
     pred_option (\<lambda>p. bh_timestamp (b_header p) < bh_timestamp (b_header c)) previous
     \<and> unat (bh_timestamp (b_header c)) \<le> unat now + 7200"
  by (cases previous) (auto simp: validate_block_timestamp_def result_simps future_Ok not_le)

lemma validate_median_Ok:
  "validate_median_time_past bs c = Ok () \<longleftrightarrow>
     pred_option (\<lambda>m. m < bh_timestamp (b_header c)) (median_time_past bs)"
  by (cases "median_time_past bs") (auto simp: validate_median_time_past_def not_le)

lemma validate_difficulty_Ok:
  "validate_difficulty n bs previous c = Ok () \<longleftrightarrow>
     minimum_difficulty_leading_zero_bits n \<le> bh_difficulty (b_header c)
     \<and> bh_difficulty (b_header c) \<le> maximum_difficulty_leading_zero_bits n
     \<and> (previous \<noteq> None \<longrightarrow>
          bh_difficulty (b_header c) = next_difficulty_for_network n bs (bh_difficulty (b_header c)))"
  by (auto simp: validate_difficulty_def Let_def not_less)

lemma reward_fits_supply:
  "(\<exists>a. amount_checked_add s r = Ok a \<and> a \<le> MAX_SUPPLY_ATOMIC)
     \<longleftrightarrow> unat s + unat r \<le> unat MAX_SUPPLY_ATOMIC"
proof
  assume "unat s + unat r \<le> unat MAX_SUPPLY_ATOMIC"
  moreover from this have "unat s + unat r < 2 ^ LENGTH(64)" by (simp add: core_constants)
  ultimately show "\<exists>a. amount_checked_add s r = Ok a \<and> a \<le> MAX_SUPPLY_ATOMIC"
    by (simp add: amount_add_exact word_le_nat_alt unat_add_small)
qed (auto simp: amount_add_Ok word_le_nat_alt)

lemmas acceptance_simps = validate_block_bodies_Ok validate_transaction_networks_Ok
  validate_block_timestamp_Ok validate_median_Ok validate_difficulty_Ok

lemma validate_next_block_iff:
  "validate_next_block X now n bs previous c supply = Ok ()
     \<longleftrightarrow> block_acceptable X now n bs previous c supply"
  unfolding validate_next_block_def block_acceptable_def Let_def
  by (auto simp: rbind_Ok acceptance_simps try_each_Ok recompute_merkle_root_def is_ok_iff
      not_less reward_fits_supply [symmetric] dest: in_set_dropD)

lemma pow_result_seed:
  assumes "seed_fields (b_header a) = seed_fields (b_header b)"
    and "bh_nonce (b_header a) = bh_nonce (b_header b)"
  shows "pow_result X a = pow_result X b"
  using assms
  by (simp add: pow_result_def mining_header_hash_def mining_seed_preimage_def seed_fields_def Let_def)

lemma acceptable_header_determined:
  assumes "block_acceptable X now n bs previous a supply"
    and "block_acceptable X now' n bs' previous b supply'"
    and "seed_fields (b_header a) = seed_fields (b_header b)"
    and "bh_nonce (b_header a) = bh_nonce (b_header b)"
  shows "b_header a = b_header b"
proof -
  obtain ra rb where ok: "ensure_valid X a = Ok ra" "ensure_valid X b = Ok rb"
    using assms(1,2) by (auto simp: block_acceptable_def Let_def is_ok_iff)
  have "pow_result X a = pow_result X b" using assms(3,4) by (rule pow_result_seed)
  with ok have "bh_mix_hash (b_header a) = bh_mix_hash (b_header b)"
    by (metis ensure_valid_OkE sum.inject(2))
  with assms show ?thesis
    by (intro block_header.equality) (auto simp: block_acceptable_def Let_def seed_fields_def)
qed

lemma try_fold_tips_zero:
  assumes "\<forall>t\<in>set ts. effective_priority_fee t b = Ok 0 \<and> validate_fee_against_base_fee t b = Ok ()"
  shows "try_fold (\<lambda>total t. rbind (validate_fee_against_base_fee t b) (\<lambda>_.
           rbind (effective_priority_fee t b) (amount_checked_add total))) c ts = Ok c"
  using assms unat_u64_less [of c]
  by (induction ts) (simp_all add: amount_checked_add_def checked_add_def)

section \<open>A sample chain\<close>

definition sample_reward :: "u64 \<Rightarrow> u8 \<Rightarrow> u64 \<Rightarrow> transaction" where
  "sample_reward height miner amt =
     sample_coinbase\<lparr>tx_nonce := height, tx_to := sample_address miner, tx_amount := amt\<rparr>"

definition sample_genesis :: block where
  "sample_genesis =
     \<lparr>b_header = \<lparr>bh_version = 1, bh_network_id = network_id Devnet, bh_height = 0,
        bh_previous_hash = hash_zero,
        bh_merkle_root = tx_hash sample_externals (sample_reward 0 1 1902587519),
        bh_base_fee_atomic = 1, bh_timestamp = 1, bh_nonce = 0, bh_mix_hash = hash_zero,
        bh_difficulty = 8\<rparr>,
      b_transactions = [sample_reward 0 1 1902587519]\<rparr>"

definition sample_next :: block where
  "sample_next =
     \<lparr>b_header = \<lparr>bh_version = 1, bh_network_id = network_id Devnet, bh_height = 1,
        bh_previous_hash = hash_zero,
        bh_merkle_root = blake3_hash sample_externals
          (hash_bytes (tx_hash sample_externals (sample_reward 1 3 1902587534))
           @ hash_bytes (tx_hash sample_externals (sample_spend 1 5 15))),
        bh_base_fee_atomic = 1, bh_timestamp = 61, bh_nonce = 1, bh_mix_hash = hash_zero,
        bh_difficulty = 8\<rparr>,
      b_transactions = [sample_reward 1 3 1902587534, sample_spend 1 5 15]\<rparr>"

lemma sample_genesis_valid:
  "validate_next_block sample_externals 0 Devnet [] None sample_genesis 0 = Ok ()"
  by code_simp

lemma sample_base_fee: "next_base_fee (Some sample_genesis) = 1"
  by code_simp

lemma sample_median: "median_time_past [sample_genesis] = Some 1"
  by code_simp

lemma sample_genesis_network: "block_network sample_genesis = Ok Devnet"
  by code_simp

lemma sample_genesis_hash: "block_hash sample_externals sample_genesis = hash_zero"
  by code_simp

lemma sample_tx_hash_hex: "hash_from_hex (hash_to_hex (tx_hash sample_externals t)) = Ok (tx_hash sample_externals t)"
  using hash_wf_double_sha256 [OF sample_digests_32]
  by (intro hash_hex_roundtrip) (simp add: tx_hash_def hash_wf_def HASH_SIZE_def)

lemma sample_ensure_valid:
  assumes "bh_mix_hash (b_header b) = hash_zero" and "bh_difficulty (b_header b) = 8"
    and "bh_nonce (b_header b) \<in> {0, 1}"
  shows "is_ok (ensure_valid sample_externals b)"
proof -
  have "meets_target (Hash (replicate 31 0 @ [0])) 8" "meets_target (Hash (replicate 31 0 @ [1])) 8" by code_simp+
  then show ?thesis
    using assms by (auto simp: ensure_valid_def validate_block_header_def pow_validate_def Let_def
        firopow_hash_def firopow_verify_def sample_externals_def hash_zero_def HASH_SIZE_def)
qed

lemma compute_merkle_root_pair:
  "compute_merkle_root X [a, b]
     = Ok (blake3_hash X (hash_bytes (tx_hash X a) @ hash_bytes (tx_hash X b)))"
  by (simp add: compute_merkle_root_def merkle_loop.simps merkle_pad_def)

lemma sample_hash_head:
  assumes "tx_encode sample_externals t = c # cs"
  shows "hd (hash_bytes (tx_hash sample_externals t)) = c"
  using assms
  by (simp add: tx_hash_def double_sha256_def sha256_def sample_externals_def zero_fit_def)

lemma le_bytes_one: "le_bytes (1::u32) = [1, 0, 0, 0]"
  by code_simp

lemma sample_hashes_differ:
  "tx_hash sample_externals (sample_reward h m amt) \<noteq> tx_hash sample_externals (sample_spend nonce a prio)"
proof -
  have "hd (hash_bytes (tx_hash sample_externals (sample_reward h m amt))) = 1"
    by (rule sample_hash_head) (simp add: tx_encode_def sample_reward_def sample_coinbase_def
        legacy_encode_def le_bytes_one)
  moreover have "hd (hash_bytes (tx_hash sample_externals (sample_spend nonce a prio))) = 118"
    by (rule sample_hash_head) (simp add: tx_encode_def sample_spend_def Let_def
        unsigned_payload_bytes_def TX_SIGNING_DOMAIN_PREFIX_def str_bytes_def)
  ultimately show ?thesis by auto
qed

lemma sample_reward_verify:
  "is_ok (tx_verify sample_externals (sample_reward 1 3 1902587534))"
  "length (tx_encode sample_externals (sample_reward 1 3 1902587534)) \<le> 16384"
  "tx_network sample_externals (sample_reward 1 3 1902587534) = Ok Devnet"
  by code_simp+

lemma sample_spend_network: "tx_network sample_externals (sample_spend nonce amt prio) = Ok Devnet"
  by (simp add: tx_network_def sample_spend_def Let_def sample_address_parse
      address_from_public_key_def)

lemma sample_address_length: "length (sample_address 1) = 74" "length (sample_address 2) = 74"
  by code_simp+

lemma sample_spend_length: "length (tx_encode sample_externals (sample_spend nonce amt prio)) \<le> 16384"
  by (simp add: tx_encode_def unsigned_payload_bytes_def unsigned_payload_def sample_spend_network)
     (simp add: sample_spend_def Let_def enc_option_def enc_string_def sample_address_length
       TX_SIGNING_DOMAIN_PREFIX_def private_key_sign_def sample_externals_def)

lemma sample_coinbase_exact:
  "is_ok (validate_coinbase_amount 1 1 [sample_reward 1 3 1902587534, sample_spend 1 5 15])"
proof -
  have "effective_priority_fee (sample_spend 1 5 15) 1 = Ok 15"
    by (subst effective_priority_fee_eq) (simp_all add: sample_spend_def Let_def min_def is_coinbase_def)
  moreover have "validate_fee_against_base_fee (sample_spend 1 5 15) 1 = Ok ()"
    by (simp add: validate_fee_Ok) (simp add: sample_spend_def Let_def)
  moreover have "block_reward 1 = 1902587519" by code_simp
  moreover have "is_coinbase (sample_reward 1 3 1902587534)"
    "tx_max_fee (sample_reward 1 3 1902587534) = 0" "tx_priority_fee (sample_reward 1 3 1902587534) = 0"
    "tx_amount (sample_reward 1 3 1902587534) = 1902587534"
    by (simp_all add: is_coinbase_def sample_reward_def sample_coinbase_def)
  ultimately show ?thesis
    by (simp add: validate_coinbase_amount_def validate_coinbase_structure_def
        expected_coinbase_amount_def Let_def amount_checked_add_def checked_add_def)
qed

lemma sample_next_valid:
  "validate_next_block sample_externals 0 Devnet [sample_genesis] (Some sample_genesis) sample_next
     1902587519 = Ok ()"
proof -
  let ?cb = "sample_reward 1 3 1902587534" and ?sp = "sample_spend 1 5 15"
  have txs: "b_transactions sample_next = [?cb, ?sp]" by (simp add: sample_next_def)
  have tv: "tx_verify sample_externals ?cb = Ok ()" "tx_verify sample_externals ?sp = Ok ()"
    using sample_reward_verify(1) sample_spend_verify [of 5 15 1] by (auto simp: is_ok_iff)
  have head: "bh_network_id (b_header sample_next) = network_id Devnet"
    "bh_height (b_header sample_next) = 1" "bh_timestamp (b_header sample_next) = 61"
    "bh_version (b_header sample_next) = 1" "bh_base_fee_atomic (b_header sample_next) = 1"
    "bh_difficulty (b_header sample_next) = 8" "bh_previous_hash (b_header sample_next) = hash_zero"
    "bh_mix_hash (b_header sample_next) = hash_zero" "bh_nonce (b_header sample_next) = 1"
    "Ok (bh_merkle_root (b_header sample_next)) = compute_merkle_root sample_externals [?cb, ?sp]"
    by (simp_all add: sample_next_def compute_merkle_root_pair)
  have fields: "bh_height (b_header sample_genesis) = 0" "bh_timestamp (b_header sample_genesis) = 1"
    "bh_difficulty (b_header sample_genesis) = 8"
    by (simp_all add: sample_genesis_def)
  note chain = fields sample_genesis_hash sample_median sample_base_fee
  have rules: "next_difficulty_for_network Devnet [sample_genesis] 8 = 8"
    "validate_checkpoint Devnet 1 h = Ok ()" "unat (block_reward 1) = 1902587519" for h
    by (simp_all add: next_difficulty_for_network_def lwma_next_difficulty_def chain clamp_def
        validate_checkpoint_def checkpoint_at_height_def unat_block_reward)
  have "is_ok (ensure_valid sample_externals sample_next)"
    by (rule sample_ensure_valid) (simp_all add: head)
  then show ?thesis
    unfolding validate_next_block_iff block_acceptable_def Let_def txs
    using sample_hashes_differ [of 1 3 1902587534 1 5 15] sample_reward_verify(2,3) sample_spend_length sample_spend_network
      tv sample_coinbase_exact
    by (simp add: head chain rules core_constants LAUNCH_BLOCK_VERSION_def)
qed

section \<open>Properties\<close>

text \<open>
  C33: The emission is bounded: the sum computed by \<open>total_theoretical_emission\<close> does not
  overflow and is at most the maximum supply, the rewards of all blocks below any height
  stay within it, and over all heights they reach it exactly.
\<close>

theorem emission_within_supply:
  "\<exists>e. total_theoretical_emission = Ok e \<and> e \<le> MAX_SUPPLY_ATOMIC
     \<and> (\<forall>height::u64. (\<Sum>h<unat height. unat (block_reward (word_of_nat h))) \<le> unat e)
     \<and> (\<Sum>h<2 ^ 64. unat (block_reward (word_of_nat h))) = unat e"
proof (intro exI conjI allI)
  show "total_theoretical_emission = Ok 5999999968382400" by (rule total_emission_value)
  show "5999999968382400 \<le> MAX_SUPPLY_ATOMIC" by (simp add: core_constants)
  show "(\<Sum>h<unat height. unat (block_reward (word_of_nat h))) \<le> unat (5999999968382400::u64)"
    for height :: u64
    using sum_block_reward [of "unat height"] sum_reward_le [of "unat height"] unat_u64_less [of height]
    by (simp add: emission_total_value)
  have "(\<Sum>h<2 ^ 64. unat (block_reward (word_of_nat h))) = (\<Sum>h<2 ^ 64. reward_at h)"
    by (rule sum_block_reward) (rule order_refl)
  also have "\<dots> = emission_total" by (rule sum_reward_eq) simp
  finally show "(\<Sum>h<2 ^ 64. unat (block_reward (word_of_nat h))) = unat (5999999968382400::u64)"
    unfolding emission_total_value by simp
qed

text \<open>
  The base fee follows the stated rule without wrap-around: with one spend it is kept,
  with none it falls by an eighth (at least 1) but never below 1, and with \<open>n > 1\<close> spends it
  rises by \<open>(n - 1) / 8\<close> of itself (at least 1), saturating at the largest 64-bit value.
\<close>

theorem next_base_fee_exact:
  assumes "length (b_transactions b) \<le> MAX_TRANSACTIONS_PER_BLOCK"
  shows "unat (next_base_fee (Some b)) =
    base_fee_rule (max (unat (bh_base_fee_atomic (b_header b))) 1) (length (b_transactions b) - 1)
    \<and> 1 \<le> unat (next_base_fee (Some b))"
proof -
  have "length (b_transactions b) \<le> 2 ^ 64" using assms by (simp add: core_constants)
  then have "unat (next_base_fee (Some b)) =
      base_fee_rule (max (unat (bh_base_fee_atomic (b_header b))) 1) (length (b_transactions b) - 1)"
    unfolding next_base_fee_def option.case by (rule next_base_fee_rule)
  moreover have "1 \<le> base_fee_rule (max (unat (bh_base_fee_atomic (b_header b))) 1)
      (length (b_transactions b) - 1)"
    by (rule base_fee_rule_pos) (rule max.cobounded2)
  ultimately show ?thesis by (simp only: simp_thms)
qed

theorem next_base_fee_exact_witness:
  "unat (next_base_fee (Some sample_block)) = 9"
  using next_base_fee_exact [of sample_block]
  by (simp add: sample_block_def core_constants base_fee_rule_def)

text \<open>
  The difficulty adjustment stays in the network's range and moves by at most four bits
  from the (clamped) difficulty of the last block, whatever the timestamps are.
\<close>

theorem next_difficulty_bounded:
  assumes "blocks \<noteq> []"
  shows "minimum_difficulty_leading_zero_bits n \<le> next_difficulty_for_network n blocks fb
    \<and> next_difficulty_for_network n blocks fb \<le> maximum_difficulty_leading_zero_bits n
    \<and> unat (next_difficulty_for_network n blocks fb)
        \<le> unat (clamp (bh_difficulty (b_header (last blocks)))
            (minimum_difficulty_leading_zero_bits n) (maximum_difficulty_leading_zero_bits n)) + 4
    \<and> unat (clamp (bh_difficulty (b_header (last blocks)))
            (minimum_difficulty_leading_zero_bits n) (maximum_difficulty_leading_zero_bits n))
        \<le> unat (next_difficulty_for_network n blocks fb) + 4"
  using lwma_bounds [OF _ assms, of "minimum_difficulty_leading_zero_bits n"
      "maximum_difficulty_leading_zero_bits n"] difficulty_range [of n]
  unfolding next_difficulty_for_network_def by blast

theorem next_difficulty_bounded_witness:
  "unat (next_difficulty_for_network Devnet [sample_block, sample_block] 8) \<le> 12"
  using next_difficulty_bounded [of "[sample_block, sample_block]" Devnet 8]
  by (simp add: sample_block_def clamp_def)

text \<open>
  A chain whose recent blocks are exactly one target interval (60 seconds) apart keeps its
  difficulty; the 128-bit weighted sums do not overflow.
\<close>

theorem next_difficulty_steady:
  assumes "steady 60 blocks" and "2 \<le> length blocks"
  shows "next_difficulty_for_network n blocks fb =
    clamp (bh_difficulty (b_header (last blocks)))
      (minimum_difficulty_leading_zero_bits n) (maximum_difficulty_leading_zero_bits n)"
proof -
  have "max (difficulty_adjustment_window n) DAA_WINDOW_BLOCKS = 60"
    by (cases n) (simp_all add: core_constants)
  then show ?thesis
    using lwma_steady [OF assms, of 60] by (simp add: next_difficulty_for_network_def BLOCK_TIME_SECONDS_def)
qed

theorem next_difficulty_steady_witness:
  "next_difficulty_for_network Devnet
     [sample_block, sample_block\<lparr>b_header := (b_header sample_block)\<lparr>bh_timestamp := 60\<rparr>\<rparr>] 0 = 8"
  using next_difficulty_steady [of
      "[sample_block, sample_block\<lparr>b_header := (b_header sample_block)\<lparr>bh_timestamp := 60\<rparr>\<rparr>]" Devnet 0]
  by (simp add: sample_block_def clamp_def)

text \<open>
  C5: \<open>validate_next_block\<close> accepts exactly the blocks that satisfy the declarative rule
  \<open>block_acceptable\<close>: size limits, verified transactions of the right network with pairwise
  distinct hashes, linkage by height, hash, version and strictly increasing time, the
  expected base fee and difficulty, checkpoint, merkle root, proof of work, exact coinbase
  and supply cap.
\<close>

theorem validate_next_block_exact:
  "validate_next_block X now n previous_blocks previous candidate supply = Ok ()
     \<longleftrightarrow> block_acceptable X now n previous_blocks previous candidate supply"
  by (rule validate_next_block_iff)

text \<open>
  The mining seed and nonce determine an accepted header: although the proof-of-work seed
  omits network, base fee and mix hash, two blocks accepted after the same parent with equal
  seed fields and nonce have equal headers.
\<close>

theorem accepted_header_determined:
  assumes "validate_next_block X now n bs previous a supply = Ok ()"
    and "validate_next_block X now' n bs' previous b supply' = Ok ()"
    and "seed_fields (b_header a) = seed_fields (b_header b)"
    and "bh_nonce (b_header a) = bh_nonce (b_header b)"
  shows "b_header a = b_header b"
  using assms unfolding validate_next_block_iff by (rule acceptable_header_determined)

theorem accepted_header_determined_witness:
  "validate_next_block sample_externals 0 Devnet [] None sample_genesis 0 = Ok ()
   \<and> b_header sample_genesis = b_header (sample_genesis\<lparr>b_transactions := b_transactions sample_genesis\<rparr>)"
  using accepted_header_determined [OF sample_genesis_valid sample_genesis_valid refl refl]
    sample_genesis_valid by simp

text \<open>
  After the last halving (heights from 31 halving intervals on) the subsidy is zero, so a
  block whose spends pay no tip, an empty block included, cannot be valid: an exact coinbase
  is zero and zero coinbases are refused.
\<close>

theorem tipless_block_rejected_after_emission:
  assumes "31 * 1576800 \<le> unat height"
    and "\<forall>t\<in>set (drop 1 txs). validate_fee_against_base_fee t base_fee = Ok ()
           \<and> effective_priority_fee t base_fee = Ok 0"
  shows "\<not> is_ok (validate_coinbase_amount height base_fee txs)"
proof -
  have "unat (block_reward height) = 0"
    using reward_at_late [OF assms(1)] by (simp add: unat_block_reward reward_at_def)
  then have r: "block_reward height = 0" by (simp add: unat_eq_zero)
  have "expected_coinbase_amount height base_fee txs = Ok 0"
    using try_fold_tips_zero [of "drop 1 txs" base_fee 0] assms(2)
    by (simp add: expected_coinbase_amount_def Let_def r amount_checked_add_def checked_add_def)
  then show ?thesis
    by (auto simp: validate_coinbase_amount_def is_ok_iff result_simps split: if_splits)
qed

theorem tipless_block_rejected_after_emission_witness:
  "\<not> is_ok (validate_coinbase_amount 48880800 10 [sample_coinbase])"
  using tipless_block_rejected_after_emission [of 48880800 "[sample_coinbase]" 10] by simp

text \<open>
  On a chain whose timestamps never exceed that of its tip, the strict timestamp rule
  implies the median-time-past rule.
\<close>

theorem timestamp_rule_implies_median_rule:
  assumes "blocks \<noteq> []"
    and "\<forall>b\<in>set blocks. bh_timestamp (b_header b) \<le> bh_timestamp (b_header (last blocks))"
    and "validate_block_timestamp now (Some (last blocks)) candidate = Ok ()"
  shows "validate_median_time_past blocks candidate = Ok ()"
  using assms mtp_implied by (simp add: validate_block_timestamp_Ok)

theorem timestamp_rule_implies_median_rule_witness:
  "validate_median_time_past [sample_block]
     (sample_block\<lparr>b_header := (b_header sample_block)\<lparr>bh_timestamp := 7\<rparr>\<rparr>) = Ok ()"
  using timestamp_rule_implies_median_rule [of "[sample_block]" 0
      "sample_block\<lparr>b_header := (b_header sample_block)\<lparr>bh_timestamp := 7\<rparr>\<rparr>"]
  by (simp add: validate_block_timestamp_Ok sample_block_def)

end
