(* ===== verification/Vireon_State.thy ===== *)
theory Vireon_State
  imports Vireon_Consensus
begin

text \<open>
  \<^verbatim>\<open>vireon-core/src/state.rs\<close>: the ledger. Functions that take \<open>&mut LedgerState\<close> return the
  state also when they fail, so what a failed call leaves behind is visible. The lemmas show
  the exact effect of every applied transaction, conservation of money over every run of
  blocks, sequencing of nonces, that no transaction is applied twice, and in which cases a
  failing \<open>apply_block\<close> leaves the state unchanged.
\<close>

section \<open>State\<close>

record block_ledger_summary =
  bs_total_fees :: amount
  bs_burned_fees :: amount
  bs_priority_fees :: amount
  bs_coinbase_reward :: amount
  bs_base_fee :: amount

record transaction_fee_summary =
  fs_total_fee :: amount
  fs_burned_fee :: amount
  fs_priority_fee :: amount

definition FIRST_ACCOUNT_NONCE :: u64 where "FIRST_ACCOUNT_NONCE = 1"

record ledger_state =
  ls_balances :: "(string, amount) btree_map"
  ls_nonces :: "(string, u64) btree_map"
  ls_emitted_supply :: amount
  ls_block_fees :: "(u64, amount) btree_map"
  ls_block_burned_fees :: "(u64, amount) btree_map"
  ls_block_priority_fees :: "(u64, amount) btree_map"
  ls_coinbase_rewards :: "(u64, amount) btree_map"
  ls_total_burned_fees :: amount
  ls_applied_hashes :: "string set"
  ls_applied_block_height :: "u64 option"
  ls_tip_hash :: "hash option"
  ls_tip_timestamp :: "u64 option"

definition ledger_new :: ledger_state where
  "ledger_new =
     \<lparr>ls_balances = [], ls_nonces = [], ls_emitted_supply = 0, ls_block_fees = [],
      ls_block_burned_fees = [], ls_block_priority_fees = [], ls_coinbase_rewards = [],
      ls_total_burned_fees = 0, ls_applied_hashes = {}, ls_applied_block_height = None,
      ls_tip_hash = None, ls_tip_timestamp = None\<rparr>"

definition balance_of :: "ledger_state \<Rightarrow> string \<Rightarrow> amount" where
  "balance_of s address = (case map_of (ls_balances s) address of Some a \<Rightarrow> a | None \<Rightarrow> 0)"

definition next_nonce_of :: "ledger_state \<Rightarrow> string \<Rightarrow> u64" where
  "next_nonce_of s address =
     (case map_of (ls_nonces s) address of Some n \<Rightarrow> n | None \<Rightarrow> FIRST_ACCOUNT_NONCE)"

definition ensure_transaction_hash_is_new ::
  "externals \<Rightarrow> ledger_state \<Rightarrow> transaction \<Rightarrow> unit result" where
  "ensure_transaction_hash_is_new X s t =
     (let h = hash_to_hex (tx_hash X t) in
      reject_if (h \<in> ls_applied_hashes s) (DuplicateTransactionHash h))"

definition set_balance :: "string \<Rightarrow> amount \<Rightarrow> ledger_state \<Rightarrow> ledger_state" where
  "set_balance address v s = s\<lparr>ls_balances := map_insert address v (ls_balances s)\<rparr>"

definition credit_balance :: "string \<Rightarrow> amount \<Rightarrow> (ledger_state, VireonError, unit) mut" where
  "credit_balance address amt =
     mbind (mlift (\<lambda>s. amount_checked_add (balance_of s address) amt)) (\<lambda>v.
     mupd (set_balance address v))"

definition debit_balance :: "string \<Rightarrow> amount \<Rightarrow> (ledger_state, VireonError, unit) mut" where
  "debit_balance address amt =
     mbind (mlift (\<lambda>s. amount_checked_sub (balance_of s address) amt)) (\<lambda>v.
     mupd (set_balance address v))"

section \<open>Transactions\<close>

definition validate_transaction_against_state ::
  "externals \<Rightarrow> ledger_state \<Rightarrow> transaction \<Rightarrow> amount \<Rightarrow> unit result" where
  "validate_transaction_against_state X s t base_fee =
     (if is_coinbase t then Ok ()
      else
        rbind (ensure_transaction_hash_is_new X s t) (\<lambda>_.
        rbind (tx_verify X t) (\<lambda>_.
        rbind (validate_fee_against_base_fee t base_fee) (\<lambda>_.
        rbind (reject_if (tx_amount t = 0) ZeroAmountTransaction) (\<lambda>_.
        rbind (ok_or (tx_from t)
                 (InvalidTransaction ''non-coinbase transaction requires sender'')) (\<lambda>sender.
        let expected_nonce = next_nonce_of s sender in
        rbind (reject_if (tx_nonce t \<noteq> expected_nonce)
                 (InvalidNonce sender expected_nonce (tx_nonce t))) (\<lambda>_.
        rbind (total_debit t base_fee) (\<lambda>required.
        let available = balance_of s sender in
        reject_if (available < required) (InsufficientBalance sender available required)))))))))"

definition no_fees :: transaction_fee_summary where
  "no_fees = \<lparr>fs_total_fee = 0, fs_burned_fee = 0, fs_priority_fee = 0\<rparr>"

definition apply_transaction ::
  "externals \<Rightarrow> transaction \<Rightarrow> amount \<Rightarrow> (ledger_state, VireonError, transaction_fee_summary) mut" where
  "apply_transaction X t base_fee =
     (if is_coinbase t
      then
        mbind (mlift (\<lambda>s. ensure_transaction_hash_is_new X s t)) (\<lambda>_.
        mbind (mlift (\<lambda>_. reject_if (tx_amount t = 0) ZeroAmountTransaction)) (\<lambda>_.
        mbind (credit_balance (tx_to t) (tx_amount t)) (\<lambda>_.
        mbind (mupd (\<lambda>s. s\<lparr>ls_applied_hashes :=
                         insert (hash_to_hex (tx_hash X t)) (ls_applied_hashes s)\<rparr>)) (\<lambda>_.
        mret no_fees))))
      else
        mbind (mlift (\<lambda>s. validate_transaction_against_state X s t base_fee)) (\<lambda>_.
        mbind (mlift (\<lambda>_. ok_or (tx_from t)
                (InvalidTransaction
                   ''non-coinbase transaction is missing sender after validation''))) (\<lambda>sender.
        mbind (mlift (\<lambda>_. effective_fee t base_fee)) (\<lambda>total_fee.
        mbind (mlift (\<lambda>_. effective_priority_fee t base_fee)) (\<lambda>priority_fee.
        mbind (mlift (\<lambda>_. total_debit t base_fee)) (\<lambda>debit.
        mbind (debit_balance sender debit) (\<lambda>_.
        mbind (credit_balance (tx_to t) (tx_amount t)) (\<lambda>_.
        mbind (mlift (\<lambda>s. amount_checked_add (ls_total_burned_fees s) base_fee)) (\<lambda>burned.
        mbind (mupd (\<lambda>s. s\<lparr>ls_total_burned_fees := burned\<rparr>)) (\<lambda>_.
        mbind (mupd (\<lambda>s. s\<lparr>ls_nonces :=
                 map_insert sender (saturating_add (tx_nonce t) 1) (ls_nonces s)\<rparr>)) (\<lambda>_.
        mbind (mupd (\<lambda>s. s\<lparr>ls_applied_hashes :=
                 insert (hash_to_hex (tx_hash X t)) (ls_applied_hashes s)\<rparr>)) (\<lambda>_.
        mret \<lparr>fs_total_fee = total_fee, fs_burned_fee = base_fee,
              fs_priority_fee = priority_fee\<rparr>))))))))))))"

section \<open>Blocks\<close>

fun check_sender_nonces ::
  "ledger_state \<Rightarrow> (string \<times> u64) list \<Rightarrow> transaction list \<Rightarrow> unit result" where
  "check_sender_nonces s seen [] = Ok ()"
| "check_sender_nonces s seen (t # ts) =
     (case tx_from t of
        None \<Rightarrow> check_sender_nonces s seen ts
      | Some sender \<Rightarrow>
          if (sender, tx_nonce t) \<in> set seen
          then Err (InvalidNonce sender (next_nonce_of s sender) (tx_nonce t))
          else check_sender_nonces s ((sender, tx_nonce t) # seen) ts)"

text \<open>The loop of the simulation: totals of fees, burned fees and priority fees.\<close>

definition simulate_step ::
  "externals \<Rightarrow> amount \<Rightarrow> amount \<times> amount \<times> amount \<Rightarrow> transaction
     \<Rightarrow> (ledger_state, VireonError, amount \<times> amount \<times> amount) mut" where
  "simulate_step X base_fee totals t =
     (case totals of (total_fees, burned_fees, priority_fees) \<Rightarrow>
        mbind (apply_transaction X t base_fee) (\<lambda>fee_summary.
        mlift (\<lambda>_.
          rbind (amount_checked_add total_fees (fs_total_fee fee_summary)) (\<lambda>total_fees'.
          rbind (amount_checked_add burned_fees (fs_burned_fee fee_summary)) (\<lambda>burned_fees'.
          rbind (amount_checked_add priority_fees (fs_priority_fee fee_summary)) (\<lambda>priority_fees'.
          Ok (total_fees', burned_fees', priority_fees')))))))"

definition simulate_block ::
  "externals \<Rightarrow> ledger_state \<Rightarrow> amount \<Rightarrow> transaction list \<Rightarrow> (amount \<times> amount \<times> amount) result" where
  "simulate_block X s base_fee spends = fst (mfold (simulate_step X base_fee) (0, 0, 0) spends s)"

definition validate_block_against_state ::
  "externals \<Rightarrow> ledger_state \<Rightarrow> block \<Rightarrow> block_ledger_summary result" where
  "validate_block_against_state X s blk =
     (let h = b_header blk; txs = b_transactions blk; base_fee = bh_base_fee_atomic h;
          expected_height = (case ls_applied_block_height s of None \<Rightarrow> 0 | Some x \<Rightarrow> x + 1);
          expected_previous_hash = (case ls_tip_hash s of None \<Rightarrow> hash_zero | Some x \<Rightarrow> x)
      in
      rbind (reject_if (bh_height h \<noteq> expected_height)
               (InvalidHeight expected_height (bh_height h))) (\<lambda>_.
      rbind (reject_if (bh_previous_hash h \<noteq> expected_previous_hash)
               (InvalidPreviousHash expected_previous_hash (bh_previous_hash h))) (\<lambda>_.
      rbind (case ls_tip_timestamp s of
               None \<Rightarrow> Ok ()
             | Some previous_ts \<Rightarrow> reject_if (bh_timestamp h \<le> previous_ts)
                 (InvalidTimestamp previous_ts (bh_timestamp h))) (\<lambda>_.
      rbind (validate_coinbase_structure txs) (\<lambda>_.
      rbind (expected_coinbase_amount (bh_height h) base_fee txs) (\<lambda>expected_amount.
      rbind (ok_or (case txs of [] \<Rightarrow> None | t # _ \<Rightarrow> Some t) MissingCoinbase) (\<lambda>coinbase.
      rbind (reject_if (tx_amount coinbase \<noteq> expected_amount)
               (InvalidCoinbaseAmount expected_amount (tx_amount coinbase))) (\<lambda>_.
      rbind (reject_if (tx_amount coinbase = 0) ZeroAmountTransaction) (\<lambda>_.
      rbind (check_sender_nonces s [] (drop 1 txs)) (\<lambda>_.
      rbind (simulate_block X s base_fee (drop 1 txs)) (\<lambda>(total_fees, burned_fees, priority_fees).
      let coinbase_reward = block_reward (bh_height h) in
      rbind (amount_checked_add coinbase_reward priority_fees) (\<lambda>expected_from_sim.
      rbind (reject_if (tx_amount coinbase \<noteq> expected_from_sim)
               (InvalidCoinbaseAmount expected_from_sim (tx_amount coinbase))) (\<lambda>_.
      rbind (amount_checked_add (ls_emitted_supply s) coinbase_reward) (\<lambda>updated_supply.
      rbind (reject_if (updated_supply > MAX_SUPPLY_ATOMIC) SupplyOverflow) (\<lambda>_.
      Ok \<lparr>bs_total_fees = total_fees, bs_burned_fees = burned_fees,
          bs_priority_fees = priority_fees, bs_coinbase_reward = coinbase_reward,
          bs_base_fee = base_fee\<rparr>)))))))))))))))"

definition apply_spends ::
  "externals \<Rightarrow> amount \<Rightarrow> transaction list \<Rightarrow> (ledger_state, VireonError, unit) mut" where
  "apply_spends X base_fee = mfold (\<lambda>_ t. mbind (apply_transaction X t base_fee) (\<lambda>_. mret ())) ()"

definition record_block ::
  "externals \<Rightarrow> block \<Rightarrow> block_ledger_summary \<Rightarrow> amount \<Rightarrow> ledger_state \<Rightarrow> ledger_state" where
  "record_block X blk summary emitted s =
     (let height = bh_height (b_header blk) in
      s\<lparr>ls_emitted_supply := emitted,
        ls_block_fees := map_insert height (bs_total_fees summary) (ls_block_fees s),
        ls_block_burned_fees := map_insert height (bs_burned_fees summary) (ls_block_burned_fees s),
        ls_block_priority_fees := map_insert height (bs_priority_fees summary) (ls_block_priority_fees s),
        ls_coinbase_rewards := map_insert height (bs_coinbase_reward summary) (ls_coinbase_rewards s),
        ls_applied_block_height := Some height,
        ls_tip_hash := Some (block_hash X blk),
        ls_tip_timestamp := Some (bh_timestamp (b_header blk))\<rparr>)"

definition apply_block ::
  "externals \<Rightarrow> block \<Rightarrow> (ledger_state, VireonError, block_ledger_summary) mut" where
  "apply_block X blk =
     mbind (mlift (\<lambda>s. validate_block_against_state X s blk)) (\<lambda>summary.
     mbind (apply_spends X (bs_base_fee summary) (drop 1 (b_transactions blk))) (\<lambda>_.
     mbind (mlift (\<lambda>_. ok_or (case b_transactions blk of [] \<Rightarrow> None | t # _ \<Rightarrow> Some t)
                          MissingCoinbase)) (\<lambda>coinbase.
     mbind (apply_transaction X coinbase (bs_base_fee summary)) (\<lambda>_.
     mbind (mlift (\<lambda>s. amount_checked_add (ls_emitted_supply s) (bs_coinbase_reward summary))) (\<lambda>emitted.
     mbind (mupd (record_block X blk summary emitted)) (\<lambda>_.
     mret summary))))))"

section \<open>The contract of the balance store\<close>

locale account_store =
  fixes get :: "'s \<Rightarrow> string \<Rightarrow> amount" and put :: "string \<Rightarrow> amount \<Rightarrow> 's \<Rightarrow> 's"
    and total :: "'s \<Rightarrow> nat" and wf :: "'s \<Rightarrow> bool"
  assumes get_put: "get (put a v s) b = (if b = a then v else get s b)"
    and wf_put: "wf s \<Longrightarrow> wf (put a v s)"
    and total_put: "wf s \<Longrightarrow> total (put a v s) + unat (get s a) = total s + unat v"
    and total_get: "unat (get s a) \<le> total s"
begin

lemma total_credit:
  assumes "wf s" and "amount_checked_add (get s a) amt = Ok v"
  shows "total (put a v s) = total s + unat amt"
  using total_put [OF assms(1), of a v] assms(2) by (simp add: amount_add_Ok)

lemma total_debit_put:
  assumes "wf s" and "amount_checked_sub (get s a) amt = Ok v"
  shows "total (put a v s) + unat amt = total s"
  using total_put [OF assms(1), of a v] assms(2) by (simp add: amount_sub_Ok)

lemma credit_fits:
  assumes "total s + unat amt < 2 ^ 64"
  shows "\<exists>v. amount_checked_add (get s a) amt = Ok v"
proof -
  have "unat (get s a) + unat amt < 2 ^ LENGTH(64)" using total_get [of s a] assms by simp
  then show ?thesis by (simp add: amount_add_exact)
qed

end

definition ledger_total :: "ledger_state \<Rightarrow> nat" where
  "ledger_total s = map_total unat (ls_balances s)"

definition balances_wf :: "ledger_state \<Rightarrow> bool" where
  "balances_wf s = map_wf (ls_balances s)"

interpretation bal: account_store balance_of set_balance ledger_total balances_wf
proof unfold_locales
  fix s a v b
  show "balance_of (set_balance a v s) b = (if b = a then v else balance_of s b)"
    by (simp add: balance_of_def set_balance_def)
  show "balances_wf s \<Longrightarrow> balances_wf (set_balance a v s)"
    by (simp add: balances_wf_def set_balance_def)
  show "balances_wf s \<Longrightarrow>
      ledger_total (set_balance a v s) + unat (balance_of s a) = ledger_total s + unat v"
    using map_total_insert [of "ls_balances s" unat a v]
    by (simp add: balances_wf_def ledger_total_def set_balance_def balance_of_def split: option.splits)
  show "unat (balance_of s a) \<le> ledger_total s"
    using map_total_ge [of "ls_balances s" a _ unat]
    by (auto simp: balance_of_def ledger_total_def split: option.splits)
qed

lemma set_balance_frame [simp]:
  "ls_nonces (set_balance a v s) = ls_nonces s"
  "ls_emitted_supply (set_balance a v s) = ls_emitted_supply s"
  "ls_total_burned_fees (set_balance a v s) = ls_total_burned_fees s"
  "ls_applied_hashes (set_balance a v s) = ls_applied_hashes s"
  "ls_applied_block_height (set_balance a v s) = ls_applied_block_height s"
  "ls_tip_hash (set_balance a v s) = ls_tip_hash s"
  "ls_tip_timestamp (set_balance a v s) = ls_tip_timestamp s"
  by (simp_all add: set_balance_def)

section \<open>The effect of one transaction\<close>

lemma validate_spend_Ok:
  assumes "\<not> is_coinbase t"
  shows "validate_transaction_against_state X s t b = Ok () \<longleftrightarrow>
    (\<exists>sender debit. tx_from t = Some sender
       \<and> hash_to_hex (tx_hash X t) \<notin> ls_applied_hashes s \<and> tx_verify X t = Ok ()
       \<and> b \<le> tx_max_fee t \<and> tx_amount t \<noteq> 0 \<and> tx_nonce t = next_nonce_of s sender
       \<and> total_debit t b = Ok debit \<and> debit \<le> balance_of s sender)"
  using assms
  by (auto simp: validate_transaction_against_state_def ensure_transaction_hash_is_new_def
      rbind_Ok Let_def validate_fee_Ok not_less)

text \<open>The state a spend leaves: sender debited, recipient credited, fee burned, nonce advanced.\<close>

definition spend_state ::
  "externals \<Rightarrow> transaction \<Rightarrow> string \<Rightarrow> amount \<Rightarrow> amount \<Rightarrow> amount \<Rightarrow> ledger_state \<Rightarrow> ledger_state" where
  "spend_state X t sender left got burned s =
     (set_balance (tx_to t) got (set_balance sender left s))
       \<lparr>ls_total_burned_fees := burned,
        ls_nonces := map_insert sender (saturating_add (tx_nonce t) 1) (ls_nonces s),
        ls_applied_hashes := insert (hash_to_hex (tx_hash X t)) (ls_applied_hashes s)\<rparr>"

definition coinbase_state :: "externals \<Rightarrow> transaction \<Rightarrow> amount \<Rightarrow> ledger_state \<Rightarrow> ledger_state" where
  "coinbase_state X t got s =
     (set_balance (tx_to t) got s)
       \<lparr>ls_applied_hashes := insert (hash_to_hex (tx_hash X t)) (ls_applied_hashes s)\<rparr>"

lemma apply_coinbase_iff:
  assumes "is_coinbase t"
  shows "apply_transaction X t b s = (Ok fs, s') \<longleftrightarrow>
    hash_to_hex (tx_hash X t) \<notin> ls_applied_hashes s \<and> tx_amount t \<noteq> 0 \<and> fs = no_fees
    \<and> (\<exists>got. amount_checked_add (balance_of s (tx_to t)) (tx_amount t) = Ok got
         \<and> s' = coinbase_state X t got s)"
  using assms
  by (auto simp: apply_transaction_def mbind_Ok mlift_Ok mupd_Ok mret_Ok credit_balance_def
      ensure_transaction_hash_is_new_def Let_def coinbase_state_def)

lemma apply_spend_iff:
  assumes "\<not> is_coinbase t"
  shows "apply_transaction X t b s = (Ok fs, s') \<longleftrightarrow>
    (\<exists>sender total_fee tip debit left got burned.
        validate_transaction_against_state X s t b = Ok () \<and> tx_from t = Some sender
      \<and> effective_fee t b = Ok total_fee \<and> effective_priority_fee t b = Ok tip
      \<and> total_debit t b = Ok debit
      \<and> amount_checked_sub (balance_of s sender) debit = Ok left
      \<and> amount_checked_add (balance_of (set_balance sender left s) (tx_to t)) (tx_amount t) = Ok got
      \<and> amount_checked_add (ls_total_burned_fees s) b = Ok burned
      \<and> fs = \<lparr>fs_total_fee = total_fee, fs_burned_fee = b, fs_priority_fee = tip\<rparr>
      \<and> s' = spend_state X t sender left got burned s)"
  using assms
  by (auto simp: apply_transaction_def mbind_Ok mlift_Ok mupd_Ok mret_Ok credit_balance_def
      debit_balance_def spend_state_def)

definition same_chain :: "ledger_state \<Rightarrow> ledger_state \<Rightarrow> bool" where
  "same_chain s s' \<longleftrightarrow> ls_emitted_supply s' = ls_emitted_supply s
     \<and> ls_applied_block_height s' = ls_applied_block_height s \<and> ls_tip_hash s' = ls_tip_hash s
     \<and> ls_tip_timestamp s' = ls_tip_timestamp s"

lemma spend_state_frame:
  "same_chain s (spend_state X t sender left got burned s)"
  "ls_total_burned_fees (spend_state X t sender left got burned s) = burned"
  "ls_balances (spend_state X t sender left got burned s)
     = ls_balances (set_balance (tx_to t) got (set_balance sender left s))"
  "ls_applied_hashes (spend_state X t sender left got burned s)
     = insert (hash_to_hex (tx_hash X t)) (ls_applied_hashes s)"
  "next_nonce_of (spend_state X t sender left got burned s) a
     = (if a = sender then saturating_add (tx_nonce t) 1 else next_nonce_of s a)"
  by (simp_all add: same_chain_def spend_state_def next_nonce_of_def)

lemma coinbase_state_frame:
  "same_chain s (coinbase_state X t got s)"
  "ls_total_burned_fees (coinbase_state X t got s) = ls_total_burned_fees s"
  "ls_balances (coinbase_state X t got s) = ls_balances (set_balance (tx_to t) got s)"
  "ls_applied_hashes (coinbase_state X t got s)
     = insert (hash_to_hex (tx_hash X t)) (ls_applied_hashes s)"
  by (simp_all add: same_chain_def coinbase_state_def)

lemma total_balances_only:
  "ls_balances s = ls_balances s' \<Longrightarrow> ledger_total s = ledger_total s'"
  "ls_balances s = ls_balances s' \<Longrightarrow> balances_wf s = balances_wf s'"
  "ls_balances s = ls_balances s' \<Longrightarrow> balance_of s a = balance_of s' a"
  by (simp_all add: ledger_total_def balances_wf_def balance_of_def)

lemma total_debit_Ok:
  "total_debit t b = Ok d \<Longrightarrow> effective_fee t b = Ok f \<Longrightarrow> unat d = unat (tx_amount t) + unat f"
  by (simp add: total_debit_def amount_add_Ok)

lemma apply_spend_effect:
  assumes "\<not> is_coinbase t" and "balances_wf s" and "apply_transaction X t b s = (Ok fs, s')"
  shows "balances_wf s' \<and> same_chain s s' \<and> fs_burned_fee fs = b
    \<and> unat (fs_total_fee fs) = unat b + unat (fs_priority_fee fs)
    \<and> ledger_total s' + unat b + unat (fs_priority_fee fs) = ledger_total s
    \<and> unat (ls_total_burned_fees s') = unat (ls_total_burned_fees s) + unat b
    \<and> ls_applied_hashes s' = insert (hash_to_hex (tx_hash X t)) (ls_applied_hashes s)"
proof -
  obtain sender total_fee tip debit left got burned where
    v: "validate_transaction_against_state X s t b = Ok ()" "tx_from t = Some sender"
    "effective_fee t b = Ok total_fee" "effective_priority_fee t b = Ok tip"
    "total_debit t b = Ok debit"
    and left: "amount_checked_sub (balance_of s sender) debit = Ok left"
    and got: "amount_checked_add (balance_of (set_balance sender left s) (tx_to t)) (tx_amount t) = Ok got"
    and burned: "amount_checked_add (ls_total_burned_fees s) b = Ok burned"
    and fs: "fs = \<lparr>fs_total_fee = total_fee, fs_burned_fee = b, fs_priority_fee = tip\<rparr>"
    and s': "s' = spend_state X t sender left got burned s"
    using assms(3) unfolding apply_spend_iff [OF assms(1)] by blast
  let ?s1 = "set_balance sender left s"
  have wf1: "balances_wf ?s1" by (rule bal.wf_put [OF assms(2)])
  have d: "ledger_total ?s1 + unat debit = ledger_total s"
    by (rule bal.total_debit_put [OF assms(2) left])
  have c: "ledger_total (set_balance (tx_to t) got ?s1) = ledger_total ?s1 + unat (tx_amount t)"
    by (rule bal.total_credit [OF wf1 got])
  have fee: "unat total_fee = unat b + unat tip" by (rule unat_effective_fee(1) [OF assms(1) v(3,4)])
  have "ledger_total s' = ledger_total (set_balance (tx_to t) got ?s1)"
    and "balances_wf s' = balances_wf (set_balance (tx_to t) got ?s1)"
    unfolding s' by (rule total_balances_only, rule spend_state_frame)+
  with wf1 d c fee total_debit_Ok [OF v(5,3)] burned show ?thesis
    by (simp add: s' fs spend_state_frame bal.wf_put amount_add_Ok)
qed

lemma apply_coinbase_effect:
  assumes "is_coinbase t" and "balances_wf s" and "apply_transaction X t b s = (Ok fs, s')"
  shows "balances_wf s' \<and> same_chain s s'
    \<and> ledger_total s' = ledger_total s + unat (tx_amount t)
    \<and> ls_total_burned_fees s' = ls_total_burned_fees s
    \<and> ls_applied_hashes s' = insert (hash_to_hex (tx_hash X t)) (ls_applied_hashes s)"
proof -
  obtain got where got: "amount_checked_add (balance_of s (tx_to t)) (tx_amount t) = Ok got"
    and s': "s' = coinbase_state X t got s"
    using assms(3) unfolding apply_coinbase_iff [OF assms(1)] by blast
  have "ledger_total s' = ledger_total (set_balance (tx_to t) got s)"
    and "balances_wf s' = balances_wf (set_balance (tx_to t) got s)"
    unfolding s' by (rule total_balances_only, rule coinbase_state_frame)+
  with bal.total_credit [OF assms(2) got] bal.wf_put [OF assms(2)] show ?thesis
    by (simp add: s' coinbase_state_frame)
qed

lemma apply_transaction_hashes:
  assumes "apply_transaction X t b s = (Ok fs, s')"
  shows "ls_applied_hashes s' = insert (hash_to_hex (tx_hash X t)) (ls_applied_hashes s)
    \<and> hash_to_hex (tx_hash X t) \<notin> ls_applied_hashes s"
proof (cases "is_coinbase t")
  case True
  with assms show ?thesis by (auto simp: apply_coinbase_iff coinbase_state_frame)
next
  case False
  with assms show ?thesis
    unfolding apply_spend_iff [OF False] validate_spend_Ok [OF False]
    by (auto simp: spend_state_frame)
qed

section \<open>The effect of a block\<close>

lemma simulate_step_Ok:
  "simulate_step X b (tf, bf, pf) t s = (Ok r, s') \<longleftrightarrow>
     (\<exists>fs tf' bf' pf'. apply_transaction X t b s = (Ok fs, s') \<and> r = (tf', bf', pf')
        \<and> unat tf' = unat tf + unat (fs_total_fee fs) \<and> unat bf' = unat bf + unat (fs_burned_fee fs)
        \<and> unat pf' = unat pf + unat (fs_priority_fee fs))"
  by (auto simp: simulate_step_def mbind_Ok mlift_Ok rbind_Ok amount_add_Ok)

lemma same_chain_trans: "same_chain a b \<Longrightarrow> same_chain b c \<Longrightarrow> same_chain a c"
  by (simp add: same_chain_def)

lemma simulate_effect:
  assumes "list_all (\<lambda>t. \<not> is_coinbase t) ts" and "balances_wf s"
    and "mfold (simulate_step X b) (tf, bf, pf) ts s = (Ok (tf', bf', pf'), s')"
    and "unat tf = unat bf + unat pf"
  shows "apply_spends X b ts s = (Ok (), s') \<and> balances_wf s' \<and> same_chain s s'
    \<and> unat tf' = unat bf' + unat pf'
    \<and> unat bf' = unat bf + length ts * unat b
    \<and> ledger_total s' + unat (ls_total_burned_fees s') + unat pf'
      = ledger_total s + unat (ls_total_burned_fees s) + unat pf
    \<and> ls_applied_hashes s' = ls_applied_hashes s \<union> (\<lambda>t. hash_to_hex (tx_hash X t)) ` set ts"
  using assms
proof (induction ts arbitrary: s tf bf pf)
  case Nil
  then show ?case by (simp add: apply_spends_def mret_def same_chain_def)
next
  case (Cons t ts)
  obtain fs s1 tf1 bf1 pf1 where step: "apply_transaction X t b s = (Ok fs, s1)"
    "unat tf1 = unat tf + unat (fs_total_fee fs)" "unat bf1 = unat bf + unat (fs_burned_fee fs)"
    "unat pf1 = unat pf + unat (fs_priority_fee fs)"
    and rest: "mfold (simulate_step X b) (tf1, bf1, pf1) ts s1 = (Ok (tf', bf', pf'), s')"
    using Cons.prems(3) by (auto simp: mbind_Ok simulate_step_Ok)
  note e = apply_spend_effect [OF _ Cons.prems(2) step(1)]
  have nc: "\<not> is_coinbase t" "list_all (\<lambda>t. \<not> is_coinbase t) ts" using Cons.prems(1) by simp_all
  have "unat tf1 = unat bf1 + unat pf1" using step e nc Cons.prems(4) by simp
  with Cons.IH [OF nc(2) _ rest] e nc(1) have ih: "apply_spends X b ts s1 = (Ok (), s') \<and> balances_wf s'
    \<and> same_chain s1 s' \<and> unat tf' = unat bf' + unat pf' \<and> unat bf' = unat bf1 + length ts * unat b
    \<and> ledger_total s' + unat (ls_total_burned_fees s') + unat pf'
      = ledger_total s1 + unat (ls_total_burned_fees s1) + unat pf1
    \<and> ls_applied_hashes s' = ls_applied_hashes s1 \<union> (\<lambda>t. hash_to_hex (tx_hash X t)) ` set ts"
    by blast
  have "apply_spends X b (t # ts) s = (Ok (), s')"
    using step(1) ih by (simp add: apply_spends_def mbind_def mret_def)
  with ih e [OF nc(1)] step same_chain_trans [of s s1 s'] show ?case by auto
qed

lemma validate_coinbase_structure_Ok:
  "validate_coinbase_structure txs = Ok c \<longleftrightarrow>
     (\<exists>rest. txs = c # rest \<and> is_coinbase c \<and> tx_max_fee c = 0 \<and> tx_priority_fee c = 0
        \<and> list_all (\<lambda>t. \<not> is_coinbase t) rest)"
  by (cases txs)
     (auto simp: validate_coinbase_structure_def rbind_Ok list_ex_iff list_all_iff)

lemma validate_block_OkE:
  assumes "validate_block_against_state X s blk = Ok sm"
  obtains coinbase spends totals where
    "b_transactions blk = coinbase # spends" "is_coinbase coinbase"
    "list_all (\<lambda>t. \<not> is_coinbase t) spends" "tx_amount coinbase \<noteq> 0"
    "simulate_block X s (bh_base_fee_atomic (b_header blk)) spends = Ok totals"
    "bh_height (b_header blk) = (case ls_applied_block_height s of None \<Rightarrow> 0 | Some x \<Rightarrow> x + 1)"
    "bh_previous_hash (b_header blk) = (case ls_tip_hash s of None \<Rightarrow> hash_zero | Some x \<Rightarrow> x)"
    "pred_option (\<lambda>ts. ts < bh_timestamp (b_header blk)) (ls_tip_timestamp s)"
    "unat (tx_amount coinbase) = unat (block_reward (bh_height (b_header blk))) + unat (snd (snd totals))"
    "unat (ls_emitted_supply s) + unat (block_reward (bh_height (b_header blk))) \<le> unat MAX_SUPPLY_ATOMIC"
    "sm = \<lparr>bs_total_fees = fst totals, bs_burned_fees = fst (snd totals),
          bs_priority_fees = snd (snd totals),
          bs_coinbase_reward = block_reward (bh_height (b_header blk)),
          bs_base_fee = bh_base_fee_atomic (b_header blk)\<rparr>"
proof -
  note v = assms [unfolded validate_block_against_state_def Let_def]
  obtain coinbase where "validate_coinbase_structure (b_transactions blk) = Ok coinbase"
    using v by (auto simp: rbind_Ok)
  then obtain spends where txs: "b_transactions blk = coinbase # spends" "is_coinbase coinbase"
    "list_all (\<lambda>t. \<not> is_coinbase t) spends"
    by (auto simp: validate_coinbase_structure_Ok)
  from v obtain totals expected where t:
    "simulate_block X s (bh_base_fee_atomic (b_header blk)) spends = Ok totals"
    "tx_amount coinbase \<noteq> 0"
    "amount_checked_add (block_reward (bh_height (b_header blk))) (snd (snd totals)) = Ok expected"
    "tx_amount coinbase = expected"
    "\<exists>a. amount_checked_add (ls_emitted_supply s) (block_reward (bh_height (b_header blk))) = Ok a
        \<and> a \<le> MAX_SUPPLY_ATOMIC"
    "sm = \<lparr>bs_total_fees = fst totals, bs_burned_fees = fst (snd totals),
          bs_priority_fees = snd (snd totals),
          bs_coinbase_reward = block_reward (bh_height (b_header blk)),
          bs_base_fee = bh_base_fee_atomic (b_header blk)\<rparr>"
    by (auto simp: rbind_Ok txs(1) not_less split: prod.splits)
  have "bh_height (b_header blk) = (case ls_applied_block_height s of None \<Rightarrow> 0 | Some x \<Rightarrow> x + 1)"
    and "bh_previous_hash (b_header blk) = (case ls_tip_hash s of None \<Rightarrow> hash_zero | Some x \<Rightarrow> x)"
    using v by (auto simp: rbind_Ok)
  moreover have "pred_option (\<lambda>ts. ts < bh_timestamp (b_header blk)) (ls_tip_timestamp s)"
    using v by (cases "ls_tip_timestamp s") (auto simp: rbind_Ok)
  moreover have "unat (tx_amount coinbase)
      = unat (block_reward (bh_height (b_header blk))) + unat (snd (snd totals))"
    using t(3,4) by (simp add: amount_add_Ok)
  moreover have "unat (ls_emitted_supply s) + unat (block_reward (bh_height (b_header blk)))
      \<le> unat MAX_SUPPLY_ATOMIC"
    using t(5) unfolding reward_fits_supply .
  ultimately show thesis using that [OF txs t(2,1)] t(6) by blast
qed

text \<open>Nothing is created or destroyed except by the schedule and the burn.\<close>

definition ledger_blocks :: "ledger_state \<Rightarrow> nat" where
  "ledger_blocks s = (case ls_applied_block_height s of None \<Rightarrow> 0 | Some h \<Rightarrow> unat h + 1)"

definition ledger_inv :: "ledger_state \<Rightarrow> bool" where
  "ledger_inv s \<longleftrightarrow> balances_wf s
     \<and> ledger_total s + unat (ls_total_burned_fees s) = unat (ls_emitted_supply s)
     \<and> unat (ls_emitted_supply s) = (\<Sum>h<ledger_blocks s. reward_at h)
     \<and> unat (ls_emitted_supply s) \<le> unat MAX_SUPPLY_ATOMIC"

lemma ledger_inv_new: "ledger_inv ledger_new"
  by (simp add: ledger_inv_def ledger_new_def balances_wf_def ledger_total_def ledger_blocks_def)

text \<open>The height never wraps: after \<open>2^64\<close> blocks the supply cap refuses the next reward.\<close>

lemma ledger_blocks_next:
  assumes "unat (ls_emitted_supply s) = (\<Sum>h<ledger_blocks s. reward_at h)"
    and "height = (case ls_applied_block_height s of None \<Rightarrow> 0 | Some x \<Rightarrow> x + 1)"
    and "unat (ls_emitted_supply s) + unat (block_reward height) \<le> unat MAX_SUPPLY_ATOMIC"
  shows "unat height = ledger_blocks s"
proof (cases "ls_applied_block_height s")
  case None
  then show ?thesis using assms(2) by (simp add: ledger_blocks_def)
next
  case (Some x)
  show ?thesis
  proof (cases "unat x + 1 < 2 ^ 64")
    case True
    then have "unat (x + 1) = unat x + 1" by (subst unat_add_small) simp_all
    with Some assms(2) show ?thesis by (simp add: ledger_blocks_def)
  next
    case False
    then have top: "unat x + 1 = 2 ^ 64" using unat_u64_less [of x] by simp
    then have "x + 1 = 0"
      using unat_word_ariths(1) [of x 1] by (simp add: unat_eq_zero [symmetric])
    with assms(2) Some have "unat (block_reward height) = 1902587519"
      by (simp add: unat_block_reward)
    moreover have "unat (ls_emitted_supply s) = emission_total"
      unfolding assms(1) ledger_blocks_def Some option.case
      by (rule sum_reward_eq) (use top in simp)
    then have "unat (ls_emitted_supply s) = 5999999968382400" by (simp add: emission_total_value)
    ultimately show ?thesis using assms(3) by (simp add: core_constants)
  qed
qed

lemma apply_block_OkE:
  assumes "apply_block X blk s = (Ok sm, s')"
  obtains coinbase spends fs s1 s2 emitted where
    "validate_block_against_state X s blk = Ok sm" "b_transactions blk = coinbase # spends"
    "apply_spends X (bs_base_fee sm) spends s = (Ok (), s1)"
    "apply_transaction X coinbase (bs_base_fee sm) s1 = (Ok fs, s2)"
    "amount_checked_add (ls_emitted_supply s2) (bs_coinbase_reward sm) = Ok emitted"
    "s' = record_block X blk sm emitted s2"
proof -
  from assms obtain s1 coinbase fs s2 emitted where a:
    "validate_block_against_state X s blk = Ok sm"
    "apply_spends X (bs_base_fee sm) (drop 1 (b_transactions blk)) s = (Ok (), s1)"
    "(case b_transactions blk of [] \<Rightarrow> None | t # _ \<Rightarrow> Some t) = Some coinbase"
    "apply_transaction X coinbase (bs_base_fee sm) s1 = (Ok fs, s2)"
    "amount_checked_add (ls_emitted_supply s2) (bs_coinbase_reward sm) = Ok emitted"
    "s' = record_block X blk sm emitted s2"
    by (auto simp: apply_block_def mbind_Ok mlift_Ok mupd_Ok mret_Ok)
  obtain spends where "b_transactions blk = coinbase # spends"
    using a(3) by (cases "b_transactions blk") auto
  with a show thesis by (intro that) simp_all
qed

lemma simulate_blockE:
  assumes "simulate_block X s b ts = Ok (tf, bf, pf)" and "list_all (\<lambda>t. \<not> is_coinbase t) ts"
    and "balances_wf s"
  obtains s' where "apply_spends X b ts s = (Ok (), s')" "balances_wf s'" "same_chain s s'"
    "unat tf = unat bf + unat pf" "unat bf = length ts * unat b"
    "ledger_total s' + unat (ls_total_burned_fees s') + unat pf
      = ledger_total s + unat (ls_total_burned_fees s)"
    "ls_applied_hashes s' = ls_applied_hashes s \<union> (\<lambda>t. hash_to_hex (tx_hash X t)) ` set ts"
proof -
  obtain s' where "mfold (simulate_step X b) (0, 0, 0) ts s = (Ok (tf, bf, pf), s')"
    using assms(1) by (metis prod.collapse simulate_block_def)
  from simulate_effect [OF assms(2,3) this] show thesis by (intro that) auto
qed

lemma record_block_frame:
  "ls_balances (record_block X blk sm e s) = ls_balances s"
  "ls_total_burned_fees (record_block X blk sm e s) = ls_total_burned_fees s"
  "ls_emitted_supply (record_block X blk sm e s) = e"
  "ls_applied_hashes (record_block X blk sm e s) = ls_applied_hashes s"
  "ls_applied_block_height (record_block X blk sm e s) = Some (bh_height (b_header blk))"
  "ls_tip_hash (record_block X blk sm e s) = Some (block_hash X blk)"
  "ls_tip_timestamp (record_block X blk sm e s) = Some (bh_timestamp (b_header blk))"
  by (simp_all add: record_block_def Let_def)

lemma apply_block_inv:
  assumes "ledger_inv s" and "apply_block X blk s = (Ok sm, s')"
  shows "ledger_inv s' \<and> ledger_blocks s' = ledger_blocks s + 1
    \<and> unat (bh_height (b_header blk)) = ledger_blocks s
    \<and> ls_applied_hashes s' = ls_applied_hashes s
        \<union> (\<lambda>t. hash_to_hex (tx_hash X t)) ` set (b_transactions blk)"
proof -
  obtain coinbase spends fs s1 s2 emitted where b:
    "validate_block_against_state X s blk = Ok sm" "b_transactions blk = coinbase # spends"
    "apply_spends X (bs_base_fee sm) spends s = (Ok (), s1)"
    "apply_transaction X coinbase (bs_base_fee sm) s1 = (Ok fs, s2)"
    "amount_checked_add (ls_emitted_supply s2) (bs_coinbase_reward sm) = Ok emitted"
    "s' = record_block X blk sm emitted s2"
    using assms(2) by (rule apply_block_OkE)
  let ?h = "bh_height (b_header blk)"
  obtain tf bf pf where v: "is_coinbase coinbase" "list_all (\<lambda>t. \<not> is_coinbase t) spends"
    "simulate_block X s (bs_base_fee sm) spends = Ok (tf, bf, pf)"
    "?h = (case ls_applied_block_height s of None \<Rightarrow> 0 | Some x \<Rightarrow> x + 1)"
    "unat (tx_amount coinbase) = unat (block_reward ?h) + unat pf"
    "unat (ls_emitted_supply s) + unat (block_reward ?h) \<le> unat MAX_SUPPLY_ATOMIC"
    "bs_coinbase_reward sm = block_reward ?h"
    using validate_block_OkE [OF b(1)] b(2) by (metis (no_types, lifting)
        block_ledger_summary.select_convs(4,5) list.inject prod.collapse snd_conv)
  note inv = assms(1) [unfolded ledger_inv_def]
  have wf: "balances_wf s" using inv by blast
  obtain s1' where sp: "apply_spends X (bs_base_fee sm) spends s = (Ok (), s1')" "balances_wf s1'"
    "same_chain s s1'"
    "ledger_total s1' + unat (ls_total_burned_fees s1') + unat pf
      = ledger_total s + unat (ls_total_burned_fees s)"
    "ls_applied_hashes s1' = ls_applied_hashes s \<union> (\<lambda>t. hash_to_hex (tx_hash X t)) ` set spends"
    using simulate_blockE [OF v(3,2) wf] by metis
  have s1: "s1' = s1" using sp(1) b(3) by simp
  note cb = apply_coinbase_effect [OF v(1) sp(2) [unfolded s1] b(4)]
  have height: "unat ?h = ledger_blocks s"
    using ledger_blocks_next [OF _ v(4,6)] inv by blast
  have blocks: "ledger_blocks s' = ledger_blocks s + 1"
    unfolding ledger_blocks_def [of s'] by (simp add: b(6) record_block_frame height)
  have em: "unat emitted = unat (ls_emitted_supply s) + unat (block_reward ?h)"
    using b(5) cb sp(3) s1 v(7) by (simp add: amount_add_Ok same_chain_def)
  then have "unat emitted = (\<Sum>h<ledger_blocks s'. reward_at h)"
    using inv height by (simp add: blocks unat_block_reward reward_at_def)
  moreover have "ledger_total s' = ledger_total s2" "balances_wf s' = balances_wf s2"
    unfolding b(6) by (rule total_balances_only, rule record_block_frame)+
  ultimately show ?thesis
    using cb sp(4,5) s1 v(5,6) em inv height blocks b(2)
    by (auto simp: ledger_inv_def b(6) record_block_frame)
qed

definition ledger_step :: "externals \<Rightarrow> block \<Rightarrow> ledger_state \<Rightarrow> ledger_state option" where
  "ledger_step X blk s = (case apply_block X blk s of (Inr _, s') \<Rightarrow> Some s' | (Inl _, _) \<Rightarrow> None)"

lemma ledger_step_Some: "ledger_step X blk s = Some s' \<longleftrightarrow> (\<exists>sm. apply_block X blk s = (Ok sm, s'))"
  by (auto simp: ledger_step_def split: prod.splits sum.splits)

interpretation ledger: guarded_machine "ledger_step X" ledger_inv for X
  by unfold_locales (auto simp: ledger_step_Some dest: apply_block_inv)

lemma run_ledger_blocks:
  "ledger_inv s \<Longrightarrow> run (ledger_step X) bs s = Some s' \<Longrightarrow> ledger_blocks s' = ledger_blocks s + length bs"
proof (induction bs arbitrary: s)
  case (Cons b bs)
  then obtain s1 where "ledger_step X b s = Some s1" "run (ledger_step X) bs s1 = Some s'"
    by (cases "ledger_step X b s") auto
  with Cons show ?case using apply_block_inv by (fastforce simp: ledger_step_Some)
qed simp

lemma apply_block_hashes:
  assumes "apply_block X blk s = (Ok sm, s')"
  shows "ls_applied_hashes s \<subseteq> ls_applied_hashes s'"
proof -
  have spends: "ls_applied_hashes u \<subseteq> ls_applied_hashes u'"
    if "apply_spends X b ts u = (Ok (), u')" for b ts u u'
    using that
  proof (induction ts arbitrary: u)
    case Nil
    then show ?case by (simp add: apply_spends_def mret_Ok)
  next
    case (Cons t ts)
    then show ?case
      by (auto simp: apply_spends_def mbind_Ok mret_Ok dest!: apply_transaction_hashes)
  qed
  from assms obtain coinbase sp fs s1 s2 e where
    "apply_spends X (bs_base_fee sm) sp s = (Ok (), s1)"
    "apply_transaction X coinbase (bs_base_fee sm) s1 = (Ok fs, s2)"
    "s' = record_block X blk sm e s2"
    by (rule apply_block_OkE) blast
  then show ?thesis
    using spends apply_transaction_hashes by (fastforce simp: record_block_frame)
qed

lemma run_ledger_hashes:
  "run (ledger_step X) bs s = Some s' \<Longrightarrow> ls_applied_hashes s \<subseteq> ls_applied_hashes s'"
proof (induction bs arbitrary: s)
  case (Cons b bs)
  then obtain s1 where "ledger_step X b s = Some s1" "run (ledger_step X) bs s1 = Some s'"
    by (cases "ledger_step X b s") auto
  with Cons.IH show ?case using apply_block_hashes by (fastforce simp: ledger_step_Some)
qed simp

lemma apply_known_hash:
  assumes "hash_to_hex (tx_hash X t) \<in> ls_applied_hashes s"
  shows "apply_transaction X t b s = (Err (DuplicateTransactionHash (hash_to_hex (tx_hash X t))), s)"
  using assms
  by (simp add: apply_transaction_def mbind_def mlift_def validate_transaction_against_state_def
      ensure_transaction_hash_is_new_def Let_def)

section \<open>When a failing block leaves the state alone\<close>

lemma apply_block_validated:
  assumes "ledger_inv s" and "validate_block_against_state X s blk = Ok sm"
  obtains coinbase spends s1 where "b_transactions blk = coinbase # spends"
    "apply_spends X (bs_base_fee sm) spends s = (Ok (), s1)"
    "ls_applied_hashes s1 = ls_applied_hashes s \<union> (\<lambda>t. hash_to_hex (tx_hash X t)) ` set spends"
    "hash_to_hex (tx_hash X coinbase) \<notin> ls_applied_hashes s1 \<longrightarrow> (\<exists>s'. apply_block X blk s = (Ok sm, s'))"
proof -
  let ?h = "bh_height (b_header blk)"
  obtain coinbase spends tf bf pf where v: "b_transactions blk = coinbase # spends"
    "is_coinbase coinbase" "list_all (\<lambda>t. \<not> is_coinbase t) spends" "tx_amount coinbase \<noteq> 0"
    "simulate_block X s (bs_base_fee sm) spends = Ok (tf, bf, pf)"
    "unat (tx_amount coinbase) = unat (block_reward ?h) + unat pf"
    "unat (ls_emitted_supply s) + unat (block_reward ?h) \<le> unat MAX_SUPPLY_ATOMIC"
    "bs_coinbase_reward sm = block_reward ?h"
    using validate_block_OkE [OF assms(2)] by (metis (no_types, lifting)
        block_ledger_summary.select_convs(4,5) prod.collapse snd_conv)
  note inv = assms(1) [unfolded ledger_inv_def]
  have wf: "balances_wf s" using inv by blast
  obtain s1 where sp: "apply_spends X (bs_base_fee sm) spends s = (Ok (), s1)" "same_chain s s1"
    "ledger_total s1 + unat (ls_total_burned_fees s1) + unat pf
      = ledger_total s + unat (ls_total_burned_fees s)"
    "ls_applied_hashes s1 = ls_applied_hashes s \<union> (\<lambda>t. hash_to_hex (tx_hash X t)) ` set spends"
    using simulate_blockE [OF v(5,3) wf] by metis
  have "\<exists>s'. apply_block X blk s = (Ok sm, s')"
    if new: "hash_to_hex (tx_hash X coinbase) \<notin> ls_applied_hashes s1"
  proof -
    have "ledger_total s1 + unat (tx_amount coinbase) < 2 ^ 64"
      using sp(3) v(6,7) inv by (simp add: core_constants)
    then obtain got where got: "amount_checked_add (balance_of s1 (tx_to coinbase)) (tx_amount coinbase) = Ok got"
      using bal.credit_fits by blast
    let ?s2 = "coinbase_state X coinbase got s1"
    have cb: "apply_transaction X coinbase (bs_base_fee sm) s1 = (Ok no_fees, ?s2)"
      unfolding apply_coinbase_iff [OF v(2)] using new v(4) got by blast
    have "same_chain s1 ?s2" by (rule coinbase_state_frame)
    then have "ls_emitted_supply ?s2 = ls_emitted_supply s" using sp(2) by (simp add: same_chain_def)
    then obtain e where "amount_checked_add (ls_emitted_supply ?s2) (bs_coinbase_reward sm) = Ok e"
      using v(7,8) reward_fits_supply by metis
    with cb sp(1) v(1) assms(2) show ?thesis
      by (simp add: apply_block_def mbind_def mlift_def mupd_def mret_def)
  qed
  with v(1) sp(1,4) show thesis by (intro that impI)
qed

lemma apply_block_fails_clean:
  assumes "ledger_inv s" and "apply_block X blk s = (Err e, s')"
  shows "s' = s \<or> (\<exists>coinbase spends. b_transactions blk = coinbase # spends
    \<and> e = DuplicateTransactionHash (hash_to_hex (tx_hash X coinbase))
    \<and> hash_to_hex (tx_hash X coinbase)
        \<in> ls_applied_hashes s \<union> (\<lambda>t. hash_to_hex (tx_hash X t)) ` set spends)"
proof (cases "validate_block_against_state X s blk")
  case (Inl e')
  with assms(2) show ?thesis by (auto simp: apply_block_def mbind_Err mlift_Ok)
next
  case (Inr sm)
  obtain coinbase spends s1 where v: "b_transactions blk = coinbase # spends"
    "apply_spends X (bs_base_fee sm) spends s = (Ok (), s1)"
    "ls_applied_hashes s1 = ls_applied_hashes s \<union> (\<lambda>t. hash_to_hex (tx_hash X t)) ` set spends"
    "hash_to_hex (tx_hash X coinbase) \<notin> ls_applied_hashes s1 \<longrightarrow> (\<exists>s'. apply_block X blk s = (Ok sm, s'))"
    using assms(1) Inr by (rule apply_block_validated)
  with assms(2) have known: "hash_to_hex (tx_hash X coinbase) \<in> ls_applied_hashes s1" by auto
  then have "apply_block X blk s
      = (Err (DuplicateTransactionHash (hash_to_hex (tx_hash X coinbase))), s1)"
    using Inr v(1,2) by (simp add: apply_block_def mbind_def mlift_def apply_known_hash)
  with assms(2) v(1,3) known show ?thesis by auto
qed

lemma apply_block_partial:
  assumes "balances_wf s" and "validate_block_against_state X s blk = Ok sm"
    and "b_transactions blk = coinbase # t # spends"
    and "hash_to_hex (tx_hash X coinbase) \<in> ls_applied_hashes s"
  shows "\<exists>s'. apply_block X blk s
      = (Err (DuplicateTransactionHash (hash_to_hex (tx_hash X coinbase))), s') \<and> s' \<noteq> s"
proof -
  obtain tf bf pf where v: "list_all (\<lambda>t. \<not> is_coinbase t) (t # spends)"
    "simulate_block X s (bs_base_fee sm) (t # spends) = Ok (tf, bf, pf)"
    using validate_block_OkE [OF assms(2)] assms(3) by (metis (no_types, lifting)
        block_ledger_summary.select_convs(5) list.inject prod.collapse)
  obtain s1 where sp: "apply_spends X (bs_base_fee sm) (t # spends) s = (Ok (), s1)"
    "ls_applied_hashes s1 = ls_applied_hashes s \<union> (\<lambda>t. hash_to_hex (tx_hash X t)) ` set (t # spends)"
    using simulate_blockE [OF v(2,1) assms(1)] by metis
  obtain fs u where "apply_transaction X t (bs_base_fee sm) s = (Ok fs, u)"
    using sp(1) by (auto simp: apply_spends_def mbind_Ok)
  then have "hash_to_hex (tx_hash X t) \<notin> ls_applied_hashes s" using apply_transaction_hashes by blast
  with sp(2) have "s1 \<noteq> s" by auto
  moreover have "apply_block X blk s
      = (Err (DuplicateTransactionHash (hash_to_hex (tx_hash X coinbase))), s1)"
    using assms(2,3,4) sp by (simp add: apply_block_def mbind_def mlift_def apply_known_hash)
  ultimately show ?thesis by blast
qed

section \<open>A sample ledger\<close>

definition sample_ledger :: ledger_state where
  "sample_ledger = snd (apply_block sample_externals sample_genesis ledger_new)"

lemma sample_genesis_applies:
  "\<exists>sm. apply_block sample_externals sample_genesis ledger_new = (Ok sm, sample_ledger)"
proof -
  have "is_ok (fst (apply_block sample_externals sample_genesis ledger_new))" by code_simp
  then show ?thesis by (auto simp: sample_ledger_def is_ok_iff prod_eq_iff)
qed

lemma sample_ledger_run: "run (ledger_step sample_externals) [sample_genesis] ledger_new = Some sample_ledger"
  using sample_genesis_applies by (auto simp: ledger_step_def)

lemma sample_ledger_inv: "ledger_inv sample_ledger"
  using sample_genesis_applies apply_block_inv [OF ledger_inv_new] by blast

lemma sample_ledger_state:
  "\<exists>sm. sample_ledger = record_block sample_externals sample_genesis sm 1902587519
     (coinbase_state sample_externals (sample_reward 0 1 1902587519) 1902587519 ledger_new)"
proof -
  let ?c = "sample_reward 0 1 1902587519"
  obtain sm where "apply_block sample_externals sample_genesis ledger_new = (Ok sm, sample_ledger)"
    using sample_genesis_applies by blast
  then obtain coinbase spends fs s1 s2 emitted where b:
    "validate_block_against_state sample_externals ledger_new sample_genesis = Ok sm"
    "b_transactions sample_genesis = coinbase # spends"
    "apply_spends sample_externals (bs_base_fee sm) spends ledger_new = (Ok (), s1)"
    "apply_transaction sample_externals coinbase (bs_base_fee sm) s1 = (Ok fs, s2)"
    "amount_checked_add (ls_emitted_supply s2) (bs_coinbase_reward sm) = Ok emitted"
    "sample_ledger = record_block sample_externals sample_genesis sm emitted s2"
    by (rule apply_block_OkE)
  have c: "coinbase = ?c" "spends = []" using b(2) by (simp_all add: sample_genesis_def)
  have s1: "s1 = ledger_new" using b(3) c by (simp add: apply_spends_def mret_def)
  have cb: "is_coinbase ?c" "tx_to ?c = sample_address 1" "tx_amount ?c = 1902587519"
    by (simp_all add: is_coinbase_def sample_reward_def sample_coinbase_def)
  obtain got where got: "amount_checked_add (balance_of ledger_new (sample_address 1)) 1902587519 = Ok got"
    "s2 = coinbase_state sample_externals ?c got ledger_new"
    using b(4) unfolding c s1 apply_coinbase_iff [OF cb(1)] cb by blast
  have "got = 1902587519"
    using got(1) by (simp add: amount_add_Ok balance_of_def ledger_new_def word_unat_eq_iff)
  moreover have "unat (bs_coinbase_reward sm) = 1902587519"
    by (rule validate_block_OkE [OF b(1)]) (simp add: sample_genesis_def unat_block_reward)
  then have "emitted = 1902587519"
    using b(5) got(2) by (simp add: amount_add_Ok word_unat_eq_iff coinbase_state_def ledger_new_def)
  ultimately show ?thesis using b(6) got(2) by blast
qed

lemma sample_address_differ: "sample_address 1 \<noteq> sample_address 2"
  by code_simp

lemma sample_block_hash_nonce: "block_hash sample_externals b = Hash (replicate 31 0 @ [ucast (bh_nonce (b_header b))])"
  by (simp add: block_hash_def block_pow_hash_def pow_result_def firopow_hash_def sample_externals_def)

lemma sample_nonces [simp]: "bh_nonce (b_header sample_genesis) = 0" "bh_nonce (b_header sample_next) = 1"
  by (simp_all add: sample_genesis_def sample_next_def)

lemma sample_block_hash: "bh_nonce (b_header b) = 0 \<Longrightarrow> block_hash sample_externals b = hash_zero"
  by (simp add: sample_block_hash_nonce hash_zero_def HASH_SIZE_def numeral_eq_Suc)

lemma sample_ledger_view:
  "balance_of sample_ledger (sample_address 1) = 1902587519"
  "balance_of sample_ledger (sample_address 2) = 0"
  "next_nonce_of sample_ledger (sample_address 1) = 1"
  "ls_total_burned_fees sample_ledger = 0"
  "ls_emitted_supply sample_ledger = 1902587519"
  "ls_applied_block_height sample_ledger = Some 0"
  "ls_tip_hash sample_ledger = Some hash_zero"
  "ls_tip_timestamp sample_ledger = Some 1"
proof -
  obtain sm where l: "sample_ledger = record_block sample_externals sample_genesis sm 1902587519
     (coinbase_state sample_externals (sample_reward 0 1 1902587519) 1902587519 ledger_new)"
    using sample_ledger_state by blast
  show "balance_of sample_ledger (sample_address 1) = 1902587519"
    "balance_of sample_ledger (sample_address 2) = 0"
    "next_nonce_of sample_ledger (sample_address 1) = 1"
    "ls_total_burned_fees sample_ledger = 0"
    "ls_emitted_supply sample_ledger = 1902587519"
    "ls_applied_block_height sample_ledger = Some 0"
    "ls_tip_hash sample_ledger = Some hash_zero"
    "ls_tip_timestamp sample_ledger = Some 1"
    unfolding l using sample_address_differ
    by (simp_all add: record_block_def Let_def coinbase_state_def balance_of_def next_nonce_of_def
        set_balance_def ledger_new_def sample_reward_def sample_coinbase_def sample_genesis_def
        sample_block_hash FIRST_ACCOUNT_NONCE_def)
qed

lemma sample_ledger_hashes:
  "ls_applied_hashes sample_ledger
     = {hash_to_hex (tx_hash sample_externals (sample_reward 0 1 1902587519))}"
proof -
  obtain sm where "apply_block sample_externals sample_genesis ledger_new = (Ok sm, sample_ledger)"
    using sample_genesis_applies by blast
  from apply_block_inv [OF ledger_inv_new this] show ?thesis
    by (simp add: ledger_new_def sample_genesis_def)
qed

lemma sample_spend_fields [simp]:
  "tx_from (sample_spend nonce amt prio) = Some (sample_address 1)"
  "tx_to (sample_spend nonce amt prio) = sample_address 2"
  "tx_amount (sample_spend nonce amt prio) = amt" "tx_nonce (sample_spend nonce amt prio) = nonce"
  "tx_max_fee (sample_spend nonce amt prio) = 20" "tx_priority_fee (sample_spend nonce amt prio) = prio"
  by (simp_all add: sample_spend_def Let_def)

lemma sample_spend_fees:
  assumes "prio \<le> 19"
  shows "effective_priority_fee (sample_spend nonce 5 prio) 1 = Ok prio"
    and "effective_fee (sample_spend nonce 5 prio) 1 = Ok (1 + prio)"
    and "total_debit (sample_spend nonce 5 prio) 1 = Ok (6 + prio)"
proof -
  show tip: "effective_priority_fee (sample_spend nonce 5 prio) 1 = Ok prio"
    using assms by (subst effective_priority_fee_eq) (auto simp: min_def)
  show fee: "effective_fee (sample_spend nonce 5 prio) 1 = Ok (1 + prio)"
    using assms by (subst effective_fee_eq) (auto simp: min_def)
  have p: "unat prio \<le> 19" using assms by (simp add: word_le_nat_alt)
  then have "unat (1 + prio) = 1 + unat prio" by (subst unat_add_small) simp_all
  moreover from this p have "unat (5 + (1 + prio)) = 6 + unat prio" by (subst unat_add_small) simp_all
  ultimately show "total_debit (sample_spend nonce 5 prio) 1 = Ok (6 + prio)"
    using fee p by (simp add: total_debit_def amount_add_exact add.assoc [symmetric])
qed

lemma sample_spend_validates:
  assumes "prio \<le> 19"
  shows "validate_transaction_against_state sample_externals sample_ledger (sample_spend 1 5 prio) 1 = Ok ()"
proof -
  have "prio \<le> 20" using assms by (rule order_trans) simp
  then have v: "tx_verify sample_externals (sample_spend 1 5 prio) = Ok ()"
    using sample_spend_verify [of 5 prio 1] by simp
  have new: "hash_to_hex (tx_hash sample_externals (sample_spend 1 5 prio))
      \<notin> ls_applied_hashes sample_ledger"
    using sample_hashes_differ [of 0 1 1902587519 1 5 prio] by (auto simp: sample_ledger_hashes)
  have p: "unat prio \<le> 19" using assms by (simp add: word_le_nat_alt)
  then have "6 + prio \<le> 1902587519" by (simp add: word_le_nat_alt unat_word_ariths)
  with v new sample_spend_fees [OF assms, of 1] show ?thesis
    by (simp add: validate_spend_Ok sample_ledger_view)
qed

section \<open>Properties\<close>

text \<open>
  C3: Money is conserved. After any sequence of blocks applied to the empty ledger, the sum of
  all balances plus the burned fees is the emitted supply, the emitted supply is exactly the
  sum of the scheduled rewards of those blocks, it stays within the maximum supply, and no
  single balance exceeds it.
\<close>

theorem ledger_conservation:
  assumes "run (ledger_step X) blocks ledger_new = Some s"
  shows "ledger_total s + unat (ls_total_burned_fees s) = unat (ls_emitted_supply s)
    \<and> unat (ls_emitted_supply s) = (\<Sum>h<length blocks. unat (block_reward (word_of_nat h)))
    \<and> unat (ls_emitted_supply s) \<le> unat MAX_SUPPLY_ATOMIC
    \<and> (\<forall>a. balance_of s a \<le> ls_emitted_supply s)"
proof -
  have inv: "ledger_inv s" by (rule ledger.run_inv [OF ledger_inv_new assms])
  have n: "ledger_blocks s = length blocks"
    using run_ledger_blocks [OF ledger_inv_new assms] by (simp add: ledger_new_def ledger_blocks_def)
  have "ledger_blocks s \<le> 2 ^ 64"
    using unat_u64_less by (simp add: ledger_blocks_def Suc_le_eq split: option.splits)
  then have "(\<Sum>h<length blocks. unat (block_reward (word_of_nat h))) = (\<Sum>h<length blocks. reward_at h)"
    using n by (intro sum_block_reward) simp
  moreover have "balance_of s a \<le> ls_emitted_supply s" for a
    using bal.total_get [of s a] inv by (simp add: ledger_inv_def word_le_nat_alt)
  ultimately show ?thesis using inv n by (simp add: ledger_inv_def)
qed

theorem ledger_conservation_witness:
  "run (ledger_step sample_externals) [sample_genesis] ledger_new = Some sample_ledger
   \<and> unat (ls_emitted_supply sample_ledger) = 1902587519
   \<and> ledger_total sample_ledger = 1902587519"
  using ledger_conservation [OF sample_ledger_run] sample_ledger_run
  by (simp add: sample_ledger_view)

text \<open>
  C6: An applied spend moves exactly what it says: every account changes by its debit (amount
  plus base fee plus tip) and its credit and by nothing else, also when sender and recipient
  coincide; the spend carried the sender's expected nonce, which advances by one, and no
  other nonce changes.
\<close>

theorem apply_spend_exact:
  assumes "\<not> is_coinbase t" and "apply_transaction X t base_fee s = (Ok fs, s')"
  shows "\<exists>sender. tx_from t = Some sender
    \<and> unat (fs_total_fee fs) = unat base_fee + unat (fs_priority_fee fs)
    \<and> (\<forall>a. unat (balance_of s' a)
            + (if a = sender then unat (tx_amount t) + unat (fs_total_fee fs) else 0)
          = unat (balance_of s a) + (if a = tx_to t then unat (tx_amount t) else 0))
    \<and> tx_nonce t = next_nonce_of s sender
    \<and> (\<forall>a. next_nonce_of s' a = (if a = sender then saturating_add (tx_nonce t) 1 else next_nonce_of s a))"
proof -
  obtain sender total_fee tip debit left got burned where
    v: "validate_transaction_against_state X s t base_fee = Ok ()" "tx_from t = Some sender"
    "effective_fee t base_fee = Ok total_fee" "effective_priority_fee t base_fee = Ok tip"
    "total_debit t base_fee = Ok debit"
    and left: "amount_checked_sub (balance_of s sender) debit = Ok left"
    and got: "amount_checked_add (balance_of (set_balance sender left s) (tx_to t)) (tx_amount t) = Ok got"
    and fs: "fs = \<lparr>fs_total_fee = total_fee, fs_burned_fee = base_fee, fs_priority_fee = tip\<rparr>"
    and s': "s' = spend_state X t sender left got burned s"
    using assms(2) unfolding apply_spend_iff [OF assms(1)] by blast
  have "balance_of s' a = balance_of (set_balance (tx_to t) got (set_balance sender left s)) a" for a
    unfolding s' by (rule total_balances_only) (rule spend_state_frame)
  then have "unat (balance_of s' a)
      + (if a = sender then unat (tx_amount t) + unat (fs_total_fee fs) else 0)
      = unat (balance_of s a) + (if a = tx_to t then unat (tx_amount t) else 0)" for a
    using left got total_debit_Ok [OF v(5,3)]
    by (auto simp: fs bal.get_put amount_add_Ok amount_sub_Ok)
  moreover have "tx_nonce t = next_nonce_of s sender"
    using v(1,2) unfolding validate_spend_Ok [OF assms(1)] by auto
  moreover have "unat (fs_total_fee fs) = unat base_fee + unat (fs_priority_fee fs)"
    using unat_effective_fee(1) [OF assms(1) v(3,4)] by (simp add: fs)
  moreover have "next_nonce_of s' a
      = (if a = sender then saturating_add (tx_nonce t) 1 else next_nonce_of s a)" for a
    unfolding s' by (rule spend_state_frame)
  ultimately show ?thesis using v(2) by blast
qed

lemma sample_spend_applies:
  "\<exists>fs s'. apply_transaction sample_externals (sample_spend 1 5 15) 1 sample_ledger = (Ok fs, s')"
proof -
  have "unat (balance_of sample_ledger (sample_address 1)) = 1902587519"
    "unat (balance_of (set_balance (sample_address 1) v sample_ledger) (sample_address 2)) = 0" for v
    using sample_address_differ by (simp_all add: sample_ledger_view bal.get_put)
  then show ?thesis
    using sample_spend_validates [of 15] sample_spend_fees [of 15 1]
    by (simp add: apply_spend_iff sample_ledger_view amount_checked_sub_def checked_sub_def
        amount_checked_add_def checked_add_def)
qed

theorem apply_spend_exact_witness:
  "\<exists>fs s'. apply_transaction sample_externals (sample_spend 1 5 15) 1 sample_ledger = (Ok fs, s')
     \<and> next_nonce_of s' (sample_address 1) = 2"
proof -
  obtain fs s' where a: "apply_transaction sample_externals (sample_spend 1 5 15) 1 sample_ledger = (Ok fs, s')"
    using sample_spend_applies by blast
  have "saturating_add 1 1 = (2::u64)" by (simp add: saturating_add_def checked_add_def)
  with apply_spend_exact [OF sample_spend_not_coinbase a] a show ?thesis by auto
qed

text \<open>
  C23: No transaction is applied twice: once a transaction (coinbase or spend) has been applied,
  applying it again is refused with \<open>DuplicateTransactionHash\<close> and leaves the state unchanged,
  after any further sequence of applied blocks.
\<close>

theorem transaction_never_replayed:
  assumes "apply_transaction X t base_fee s = (Ok fs, s1)"
    and "run (ledger_step X) blocks s1 = Some s2"
  shows "apply_transaction X t base_fee' s2
    = (Err (DuplicateTransactionHash (hash_to_hex (tx_hash X t))), s2)"
  using apply_transaction_hashes [OF assms(1)] run_ledger_hashes [OF assms(2)]
  by (intro apply_known_hash) blast

theorem transaction_never_replayed_witness:
  "\<exists>fs s1. apply_transaction sample_externals (sample_spend 1 5 15) 1 sample_ledger = (Ok fs, s1)
     \<and> \<not> is_ok (fst (apply_transaction sample_externals (sample_spend 1 5 15) 1 s1))"
proof -
  obtain fs s1 where a: "apply_transaction sample_externals (sample_spend 1 5 15) 1 sample_ledger = (Ok fs, s1)"
    using sample_spend_applies by blast
  with transaction_never_replayed [OF a, of "[]" s1 1] show ?thesis by auto
qed

text \<open>
  On a reachable ledger a failing \<open>apply_block\<close> leaves the state unchanged, with one
  exception: the block's coinbase hash had been applied before.
\<close>

theorem apply_block_failure_clean:
  assumes "run (ledger_step X) blocks ledger_new = Some s" and "apply_block X blk s = (Err e, s')"
  shows "s' = s \<or> (\<exists>coinbase spends. b_transactions blk = coinbase # spends
    \<and> e = DuplicateTransactionHash (hash_to_hex (tx_hash X coinbase))
    \<and> hash_to_hex (tx_hash X coinbase)
        \<in> ls_applied_hashes s \<union> (\<lambda>t. hash_to_hex (tx_hash X t)) ` set spends)"
  using ledger.run_inv [OF ledger_inv_new assms(1)] assms(2) by (rule apply_block_fails_clean)

theorem apply_block_failure_clean_witness:
  "apply_block sample_externals sample_genesis sample_ledger = (Err (InvalidHeight 1 0), sample_ledger)"
proof -
  have fail: "apply_block sample_externals sample_genesis sample_ledger = (Err (InvalidHeight 1 0),
      snd (apply_block sample_externals sample_genesis sample_ledger))"
    by (simp add: apply_block_def mbind_def mlift_def validate_block_against_state_def Let_def
        sample_ledger_view) (simp add: sample_genesis_def)
  from apply_block_failure_clean [OF sample_ledger_run fail] fail show ?thesis by auto
qed

text \<open>
  The exception is real: a block that passes validation, carries at least one spend and
  reuses an applied coinbase (the coinbase nonce is never compared with the height) makes
  \<open>apply_block\<close> fail after its spends have been applied, and the changed state remains.
\<close>

theorem apply_block_not_atomic:
  assumes "run (ledger_step X) blocks ledger_new = Some s"
    and "validate_block_against_state X s blk = Ok sm"
    and "b_transactions blk = coinbase # t # spends"
    and "hash_to_hex (tx_hash X coinbase) \<in> ls_applied_hashes s"
  shows "\<exists>s'. apply_block X blk s
      = (Err (DuplicateTransactionHash (hash_to_hex (tx_hash X coinbase))), s') \<and> s' \<noteq> s"
proof -
  have "balances_wf s" using ledger.run_inv [OF ledger_inv_new assms(1)] by (simp add: ledger_inv_def)
  then show ?thesis using assms(2-4) by (rule apply_block_partial)
qed

definition sample_replay :: block where
  "sample_replay =
     \<lparr>b_header = \<lparr>bh_version = 1, bh_network_id = network_id Devnet, bh_height = 1,
        bh_previous_hash = hash_zero, bh_merkle_root = hash_zero, bh_base_fee_atomic = 1,
        bh_timestamp = 61, bh_nonce = 0, bh_mix_hash = hash_zero, bh_difficulty = 8\<rparr>,
      b_transactions = [sample_reward 0 1 1902587519, sample_spend 1 5 0]\<rparr>"

lemma sample_replay_simulates:
  "simulate_block sample_externals sample_ledger 1 [sample_spend 1 5 0] = Ok (1, 1, 0)"
proof -
  have "unat (balance_of sample_ledger (sample_address 1)) = 1902587519"
    "unat (balance_of (set_balance (sample_address 1) v sample_ledger) (sample_address 2)) = 0" for v
    using sample_address_differ by (simp_all add: sample_ledger_view bal.get_put)
  then obtain s' where "apply_transaction sample_externals (sample_spend 1 5 0) 1 sample_ledger
      = (Ok \<lparr>fs_total_fee = 1, fs_burned_fee = 1, fs_priority_fee = 0\<rparr>, s')"
    using sample_spend_validates [of 0] sample_spend_fees [of 0 1]
    by (simp add: apply_spend_iff sample_ledger_view amount_checked_sub_def checked_sub_def
        amount_checked_add_def checked_add_def)
  then show ?thesis
    by (simp add: simulate_block_def simulate_step_def mbind_def mlift_def mret_def
        amount_checked_add_def checked_add_def)
qed

lemma sample_replay_validates:
  "\<exists>sm. validate_block_against_state sample_externals sample_ledger sample_replay = Ok sm"
proof -
  let ?c = "sample_reward 0 1 1902587519" and ?t = "sample_spend 1 5 0"
  have c: "is_coinbase ?c" "tx_max_fee ?c = 0" "tx_priority_fee ?c = 0" "tx_amount ?c = 1902587519"
    by (simp_all add: is_coinbase_def sample_reward_def sample_coinbase_def)
  have r: "block_reward 1 = 1902587519" by (simp add: word_unat_eq_iff unat_block_reward)
  have "validate_coinbase_structure [?c, ?t] = Ok ?c"
    using c by (simp add: validate_coinbase_structure_Ok)
  moreover have "validate_fee_against_base_fee ?t 1 = Ok ()" by (simp add: validate_fee_Ok)
  then have "expected_coinbase_amount 1 1 [?c, ?t] = Ok 1902587519"
    using sample_spend_fees [of 0 1]
    by (simp add: expected_coinbase_amount_def Let_def r amount_checked_add_def checked_add_def)
  moreover have "\<not> (61::u64) \<le> 1" by (simp add: word_le_nat_alt)
  ultimately show ?thesis
    using sample_replay_simulates c r
    by (simp add: validate_block_against_state_def Let_def sample_replay_def sample_ledger_view
        amount_checked_add_def checked_add_def core_constants)
qed

theorem apply_block_not_atomic_witness:
  "\<exists>e s'. apply_block sample_externals sample_replay sample_ledger = (Err e, s') \<and> s' \<noteq> sample_ledger"
proof -
  obtain sm where "validate_block_against_state sample_externals sample_ledger sample_replay = Ok sm"
    using sample_replay_validates by blast
  from apply_block_not_atomic [OF sample_ledger_run this, of "sample_reward 0 1 1902587519"
      "sample_spend 1 5 0" "[]"] show ?thesis
    by (auto simp: sample_replay_def sample_ledger_hashes)
qed

end
