(* ===== verification/Vireon_Chain.thy ===== *)
theory Vireon_Chain
  imports Vireon_State
begin

text \<open>
  \<^verbatim>\<open>vireon-core/src/chain.rs\<close> and \<^verbatim>\<open>genesis.rs\<close>: the chain of validated blocks with its ledger,
  cumulative work and fork choice, and the builders of genesis and child blocks with their
  mining loops. The lemmas show the shape of every chain that \<open>append_block\<close> can build and
  that its ledger is the replay of its blocks, that fork choice is a strict order on work,
  and when the mining loops return and with what.
\<close>

section \<open>Work and fork choice\<close>

datatype fork_choice = KeepCurrent | AdoptCandidate

definition block_work :: "block \<Rightarrow> u128 result" where
  "block_work b =
     (let n = unat (bh_difficulty (b_header b)) in
      ok_or (if n < 128 then Some (push_bit n 1) else None) ChainWorkOverflow)"

definition cumulative_work :: "block list \<Rightarrow> u128 result" where
  "cumulative_work =
     try_fold (\<lambda>acc b. rbind (block_work b) (\<lambda>w. ok_or (checked_add acc w) ChainWorkOverflow)) 0"

definition common_ancestor_height :: "externals \<Rightarrow> block list \<Rightarrow> block list \<Rightarrow> u64 option" where
  "common_ancestor_height X current candidate =
     (case takeWhile (\<lambda>(l, r). block_hash X l = block_hash X r) (zip current candidate) of
        [] \<Rightarrow> None
      | ps \<Rightarrow> Some (bh_height (b_header (fst (last ps)))))"

definition first_block :: "block list \<Rightarrow> block option" where
  "first_block bs = (case bs of [] \<Rightarrow> None | b # _ \<Rightarrow> Some b)"

definition last_block :: "block list \<Rightarrow> block option" where
  "last_block bs = (if bs = [] then None else Some (last bs))"

definition select_fork :: "externals \<Rightarrow> block list \<Rightarrow> block list \<Rightarrow> fork_choice result" where
  "select_fork X current candidate =
     rbind (ok_or (first_block current) (InvalidGenesis ''current chain is empty'')) (\<lambda>current_genesis.
     rbind (ok_or (first_block candidate) (InvalidGenesis ''candidate chain is empty'')) (\<lambda>candidate_genesis.
     rbind (reject_if (block_hash X current_genesis \<noteq> block_hash X candidate_genesis)
              (InvalidGenesis ''candidate chain has a different genesis'')) (\<lambda>_.
     rbind (cumulative_work candidate) (\<lambda>candidate_work.
     rbind (cumulative_work current) (\<lambda>current_work.
     Ok (if candidate_work > current_work then AdoptCandidate else KeepCurrent))))))"

section \<open>The chain\<close>

record chain =
  c_network :: network
  c_blocks :: "block list"
  c_state :: ledger_state

definition chain_new :: "network \<Rightarrow> chain" where
  "chain_new n = \<lparr>c_network = n, c_blocks = [], c_state = ledger_new\<rparr>"

definition append_block :: "externals \<Rightarrow> u64 \<Rightarrow> block \<Rightarrow> (chain, VireonError, unit) mut" where
  "append_block X now blk =
     mbind (mlift (\<lambda>c. validate_next_block X now (c_network c) (c_blocks c) (last_block (c_blocks c))
                       blk (ls_emitted_supply (c_state c)))) (\<lambda>_.
     mbind (\<lambda>c. case apply_block X blk (c_state c) of (r, s') \<Rightarrow> (r, c\<lparr>c_state := s'\<rparr>)) (\<lambda>_.
     mupd (\<lambda>c. c\<lparr>c_blocks := c_blocks c @ [blk]\<rparr>)))"

text \<open>Each block of \<open>from_blocks\<close> comes with the clock reading of its own append.\<close>

definition chain_from_blocks :: "externals \<Rightarrow> network \<Rightarrow> (u64 \<times> block) list \<Rightarrow> chain result" where
  "chain_from_blocks X n inputs =
     (case mfold (\<lambda>_ i. append_block X (fst i) (snd i)) () inputs (chain_new n) of
        (r, c) \<Rightarrow> rbind r (\<lambda>_. Ok c))"

definition chain_height :: "chain \<Rightarrow> u64 option" where
  "chain_height c = map_option (\<lambda>b. bh_height (b_header b)) (last_block (c_blocks c))"

definition chain_tip_hash :: "externals \<Rightarrow> chain \<Rightarrow> hash option" where
  "chain_tip_hash X c = map_option (block_hash X) (last_block (c_blocks c))"

definition chain_emitted_supply :: "chain \<Rightarrow> amount" where
  "chain_emitted_supply c = ls_emitted_supply (c_state c)"

definition chain_cumulative_work :: "chain \<Rightarrow> u128 result" where
  "chain_cumulative_work c = cumulative_work (c_blocks c)"

section \<open>Mining\<close>

definition with_solution :: "block \<Rightarrow> u64 \<Rightarrow> hash \<Rightarrow> block" where
  "with_solution b nonce mix =
     b\<lparr>b_header := (b_header b)\<lparr>bh_nonce := nonce, bh_mix_hash := mix\<rparr>\<rparr>"

text \<open>
  The two loops of \<open>mine_block\<close>: \<open>search_loop\<close> returns \<open>Some None\<close> when the start nonce has
  wrapped around to 0 without a solution; a loop that never ends is \<open>None\<close>.
\<close>

partial_function (option) search_loop ::
  "externals \<Rightarrow> int \<Rightarrow> block \<Rightarrow> u64 \<Rightarrow> block option option" where
  "search_loop X threads b start =
     (case mine_firopow_solution X threads b (bh_difficulty (b_header b)) start 250000 of
        Inr (Some (nonce, out)) \<Rightarrow> Some (Some (with_solution b nonce (fo_mix_hash out)))
      | _ \<Rightarrow> (if start + 250000 = 0 then Some None else search_loop X threads b (start + 250000)))"

partial_function (option) nonce_loop :: "externals \<Rightarrow> block \<Rightarrow> block option" where
  "nonce_loop X b =
     (case pow_hash_with_nonce X b (bh_nonce (b_header b)) of
        Inr out \<Rightarrow>
          (if check_pow (fo_final_hash out) (bh_difficulty (b_header b))
           then Some (with_solution b (bh_nonce (b_header b)) (fo_mix_hash out))
           else nonce_loop X (b\<lparr>b_header := (b_header b)\<lparr>bh_nonce := bh_nonce (b_header b) + 1\<rparr>\<rparr>))
      | Inl _ \<Rightarrow> nonce_loop X (b\<lparr>b_header := (b_header b)\<lparr>bh_nonce := bh_nonce (b_header b) + 1\<rparr>\<rparr>))"

definition mine_block :: "externals \<Rightarrow> int \<Rightarrow> block \<Rightarrow> block option" where
  "mine_block X threads b =
     (case search_loop X threads b 0 of
        None \<Rightarrow> None
      | Some (Some b') \<Rightarrow> Some b'
      | Some None \<Rightarrow> nonce_loop X b)"

section \<open>Genesis and child blocks\<close>

definition DEVNET_GENESIS_TIMESTAMP :: u64 where "DEVNET_GENESIS_TIMESTAMP = 1720000000"
definition DEVNET_DIFFICULTY_LEADING_ZERO_BITS :: u8 where "DEVNET_DIFFICULTY_LEADING_ZERO_BITS = 8"

text \<open>The builders, up to the call of \<open>mine_block\<close>.\<close>

definition genesis_template ::
  "externals \<Rightarrow> network \<Rightarrow> string \<Rightarrow> u64 \<Rightarrow> u8 \<Rightarrow> block result" where
  "genesis_template X n recipient timestamp difficulty =
     (if trim recipient = [] then Err (InvalidGenesis ''recipient cannot be empty'')
      else rbind (tx_coinbase X 0 recipient (block_reward 0)) (\<lambda>coinbase.
           block_new X n 0 hash_zero initial_base_fee timestamp difficulty [coinbase]))"

definition child_template ::
  "externals \<Rightarrow> block \<Rightarrow> string \<Rightarrow> u64 \<Rightarrow> transaction list \<Rightarrow> u8 \<Rightarrow> block result" where
  "child_template X previous recipient timestamp transactions difficulty =
     (if trim recipient = [] then Err (InvalidGenesis ''recipient cannot be empty'')
      else
        let base_fee = next_base_fee (Some previous); height = bh_height (b_header previous) + 1 in
        rbind (try_fold (\<lambda>acc t.
                 rbind (validate_fee_against_base_fee t base_fee) (\<lambda>_.
                 rbind (effective_priority_fee t base_fee) (amount_checked_add acc)))
               0 transactions) (\<lambda>total_priority_fees.
        rbind (block_network previous) (\<lambda>n.
        rbind (amount_checked_add (block_reward height) total_priority_fees) (\<lambda>reward.
        rbind (tx_coinbase X height recipient reward) (\<lambda>coinbase.
        block_new X n height (block_hash X previous) base_fee
          (max timestamp (saturating_add (bh_timestamp (b_header previous)) 1))
          difficulty (coinbase # transactions))))))"

definition mined :: "externals \<Rightarrow> int \<Rightarrow> block result \<Rightarrow> block result option" where
  "mined X threads r = (case r of Inl e \<Rightarrow> Some (Err e) | Inr b \<Rightarrow> map_option Ok (mine_block X threads b))"

definition genesis_with_timestamp_for_network ::
  "externals \<Rightarrow> int \<Rightarrow> network \<Rightarrow> string \<Rightarrow> u64 \<Rightarrow> u8 \<Rightarrow> block result option" where
  "genesis_with_timestamp_for_network X threads n recipient timestamp difficulty =
     mined X threads (genesis_template X n recipient timestamp difficulty)"

definition genesis_with_difficulty_for_network ::
  "externals \<Rightarrow> int \<Rightarrow> network \<Rightarrow> string \<Rightarrow> u8 \<Rightarrow> block result option" where
  "genesis_with_difficulty_for_network X threads n recipient difficulty =
     genesis_with_timestamp_for_network X threads n recipient DEVNET_GENESIS_TIMESTAMP difficulty"

definition devnet_genesis_with_difficulty ::
  "externals \<Rightarrow> int \<Rightarrow> string \<Rightarrow> u8 \<Rightarrow> block result option" where
  "devnet_genesis_with_difficulty X threads recipient difficulty =
     genesis_with_difficulty_for_network X threads Devnet recipient difficulty"

definition devnet_genesis :: "externals \<Rightarrow> int \<Rightarrow> string \<Rightarrow> block result option" where
  "devnet_genesis X threads recipient =
     devnet_genesis_with_difficulty X threads recipient DEVNET_DIFFICULTY_LEADING_ZERO_BITS"

definition devnet_child_block_with_difficulty ::
  "externals \<Rightarrow> int \<Rightarrow> block \<Rightarrow> string \<Rightarrow> u64 \<Rightarrow> transaction list \<Rightarrow> u8 \<Rightarrow> block result option" where
  "devnet_child_block_with_difficulty X threads previous recipient timestamp transactions difficulty =
     mined X threads (child_template X previous recipient timestamp transactions difficulty)"

definition devnet_child_block ::
  "externals \<Rightarrow> int \<Rightarrow> block \<Rightarrow> string \<Rightarrow> u64 \<Rightarrow> transaction list \<Rightarrow> block result option" where
  "devnet_child_block X threads previous recipient timestamp transactions =
     devnet_child_block_with_difficulty X threads previous recipient timestamp transactions
       DEVNET_DIFFICULTY_LEADING_ZERO_BITS"

definition child_block_with_consensus_difficulty ::
  "externals \<Rightarrow> int \<Rightarrow> block list \<Rightarrow> string \<Rightarrow> u64 \<Rightarrow> transaction list \<Rightarrow> u8 \<Rightarrow> block result option" where
  "child_block_with_consensus_difficulty X threads previous_chain recipient timestamp transactions fallback =
     (case rbind (ok_or (last_block previous_chain) (InvalidGenesis ''previous chain cannot be empty''))
             (\<lambda>previous. rbind (block_network previous) (\<lambda>n. Ok (previous, n))) of
        Inl e \<Rightarrow> Some (Err e)
      | Inr (previous, n) \<Rightarrow>
          devnet_child_block_with_difficulty X threads previous recipient timestamp transactions
            (next_difficulty_for_network n previous_chain fallback))"

section \<open>Work facts\<close>

definition work_sum :: "block list \<Rightarrow> nat" where
  "work_sum bs = sum_list (map (\<lambda>b. 2 ^ unat (bh_difficulty (b_header b))) bs)"

lemma unat_push_one: "n < 128 \<Longrightarrow> unat (push_bit n (1::u128)) = 2 ^ n"
proof -
  assume "n < 128"
  then have "(2::nat) ^ n < 2 ^ 128" by (rule power_strict_increasing) simp
  moreover have "push_bit n (1::u128) = word_of_nat (2 ^ n)" by (simp add: push_bit_eq_mult)
  ultimately show ?thesis by (simp add: unat_of_nat del: of_nat_power)
qed

lemma block_work_Ok:
  "block_work b = Ok w \<longleftrightarrow> unat (bh_difficulty (b_header b)) < 128
     \<and> unat w = 2 ^ unat (bh_difficulty (b_header b))"
proof (cases "unat (bh_difficulty (b_header b)) < 128")
  case True
  have "block_work b = Ok w \<longleftrightarrow> unat (push_bit (unat (bh_difficulty (b_header b))) (1::u128)) = unat w"
    using True by (simp add: block_work_def Let_def word_unat_eq_iff del: push_bit_of_1)
  with True show ?thesis by (simp only: unat_push_one) auto
qed (simp add: block_work_def)

lemma work_fold_Ok:
  "try_fold (\<lambda>acc b. rbind (block_work b) (\<lambda>w. ok_or (checked_add acc w) ChainWorkOverflow)) acc bs = Ok w
     \<Longrightarrow> unat w = unat acc + work_sum bs"
proof (induction bs arbitrary: acc)
  case (Cons b bs)
  then show ?case
    by (fastforce simp: rbind_Ok block_work_Ok checked_add_Some work_sum_def)
qed (simp add: work_sum_def)

lemma work_fold_total:
  "\<forall>b\<in>set bs. unat (bh_difficulty (b_header b)) < 128 \<Longrightarrow> unat acc + work_sum bs < 2 ^ 128 \<Longrightarrow>
     \<exists>w. try_fold (\<lambda>acc b. rbind (block_work b) (\<lambda>w. ok_or (checked_add acc w) ChainWorkOverflow)) acc bs
       = Ok w"
proof (induction bs arbitrary: acc)
  case (Cons b bs)
  obtain w where w: "block_work b = Ok w" "unat w = 2 ^ unat (bh_difficulty (b_header b))"
    using Cons.prems(1) block_work_Ok [of b] by (auto simp: block_work_def Let_def unat_push_one)
  have "unat acc + unat w < 2 ^ LENGTH(128)"
    using Cons.prems(2) w(2) by (simp add: work_sum_def)
  then have a: "checked_add acc w = Some (acc + w)" "unat (acc + w) = unat acc + unat w"
    by (simp_all add: checked_add_def unat_add_small)
  have "unat (acc + w) + work_sum bs < 2 ^ 128"
    using Cons.prems(2) w(2) a(2) by (simp add: work_sum_def)
  with Cons.IH [of "acc + w"] Cons.prems(1) w(1) a(1) show ?case by simp
qed simp

lemma cumulative_work_Ok: "cumulative_work bs = Ok w \<Longrightarrow> unat w = work_sum bs"
  using work_fold_Ok [of 0 bs w] by (simp add: cumulative_work_def)

lemma work_sum_bound:
  assumes "\<forall>b\<in>set bs. unat (bh_difficulty (b_header b)) \<le> 34"
  shows "work_sum bs \<le> length bs * 2 ^ 34"
  using assms
proof (induction bs)
  case (Cons b bs)
  then have "(2::nat) ^ unat (bh_difficulty (b_header b)) \<le> 2 ^ 34"
    by (intro power_increasing) simp_all
  with Cons show ?case by (simp add: work_sum_def)
qed (simp add: work_sum_def)

section \<open>Every chain that can be built\<close>

definition chain_linked :: "externals \<Rightarrow> network \<Rightarrow> block list \<Rightarrow> bool" where
  "chain_linked X n bs \<longleftrightarrow> (\<forall>i<length bs. let b = bs ! i; h = b_header b in
       unat (bh_height h) = i
     \<and> bh_network_id h = network_id n
     \<and> bh_previous_hash h = (if i = 0 then hash_zero else block_hash X (bs ! (i - 1)))
     \<and> (0 < i \<longrightarrow> bh_timestamp (b_header (bs ! (i - 1))) < bh_timestamp h)
     \<and> minimum_difficulty_leading_zero_bits n \<le> bh_difficulty h
     \<and> bh_difficulty h \<le> maximum_difficulty_leading_zero_bits n
     \<and> is_ok (ensure_valid X b)
     \<and> compute_merkle_root X (b_transactions b) = Ok (bh_merkle_root h)
     \<and> distinct (map (tx_hash X) (b_transactions b))
     \<and> (\<forall>t\<in>set (b_transactions b). tx_verify X t = Ok ()))"

definition chain_ok :: "externals \<Rightarrow> chain \<Rightarrow> bool" where
  "chain_ok X c \<longleftrightarrow> chain_linked X (c_network c) (c_blocks c)
     \<and> run (ledger_step X) (c_blocks c) ledger_new = Some (c_state c)"

definition chain_step :: "externals \<Rightarrow> u64 \<times> block \<Rightarrow> chain \<Rightarrow> chain option" where
  "chain_step X i c =
     (case append_block X (fst i) (snd i) c of (Inr _, c') \<Rightarrow> Some c' | (Inl _, _) \<Rightarrow> None)"

lemma append_block_Ok:
  "append_block X now blk c = (Ok (), c') \<longleftrightarrow>
     validate_next_block X now (c_network c) (c_blocks c) (last_block (c_blocks c)) blk
       (ls_emitted_supply (c_state c)) = Ok ()
     \<and> (\<exists>sm s'. apply_block X blk (c_state c) = (Ok sm, s')
          \<and> c' = c\<lparr>c_state := s', c_blocks := c_blocks c @ [blk]\<rparr>)"
  by (auto simp: append_block_def mbind_Ok mlift_Ok mupd_Ok split: prod.splits)

lemma chain_step_Some: "chain_step X i c = Some c' \<longleftrightarrow> append_block X (fst i) (snd i) c = (Ok (), c')"
  by (auto simp: chain_step_def split: prod.splits sum.splits)

lemma chain_ok_ledger:
  assumes "chain_ok X c"
  shows "ledger_inv (c_state c)" and "ledger_blocks (c_state c) = length (c_blocks c)"
  using assms ledger.run_inv [OF ledger_inv_new] run_ledger_blocks [OF ledger_inv_new]
  by (auto simp: chain_ok_def ledger_new_def ledger_blocks_def)

lemma chain_linked_snoc:
  assumes "chain_linked X n bs"
    and "block_acceptable X now n bs (last_block bs) b supply" and "unat (bh_height (b_header b)) = length bs"
  shows "chain_linked X n (bs @ [b])"
proof -
  have last: "bs \<noteq> [] \<Longrightarrow> last bs = bs ! (length bs - 1)" by (rule last_conv_nth)
  from assms show ?thesis
    unfolding chain_linked_def length_append_singleton
    by (intro allI impI, case_tac "i = length bs")
       (auto simp: nth_append block_acceptable_def Let_def last_block_def last less_Suc_eq
         split: if_splits)
qed

lemma chain_ok_append:
  assumes "chain_ok X c" and "append_block X now blk c = (Ok (), c')"
  shows "chain_ok X c'"
proof -
  obtain sm s' where a: "block_acceptable X now (c_network c) (c_blocks c) (last_block (c_blocks c)) blk
      (ls_emitted_supply (c_state c))" "apply_block X blk (c_state c) = (Ok sm, s')"
    "c' = c\<lparr>c_state := s', c_blocks := c_blocks c @ [blk]\<rparr>"
    using assms(2) by (auto simp: append_block_Ok validate_next_block_iff)
  have h: "unat (bh_height (b_header blk)) = length (c_blocks c)"
    using apply_block_inv [OF chain_ok_ledger(1) [OF assms(1)] a(2)] chain_ok_ledger(2) [OF assms(1)]
    by simp
  have "ledger_step X blk (c_state c) = Some s'" using a(2) by (auto simp: ledger_step_Some)
  then have "run (ledger_step X) (c_blocks c') ledger_new = Some (c_state c')"
    using assms(1) by (simp add: a(3) chain_ok_def run_append)
  moreover have "chain_linked X (c_network c') (c_blocks c')"
    using chain_linked_snoc [OF _ a(1) h] assms(1) by (simp add: a(3) chain_ok_def)
  ultimately show ?thesis by (simp add: chain_ok_def)
qed

lemma chain_ok_new: "chain_ok X (chain_new n)"
  by (simp add: chain_ok_def chain_new_def chain_linked_def)

interpretation chain: guarded_machine "chain_step X" "chain_ok X" for X
  by unfold_locales (auto simp: chain_step_Some dest: chain_ok_append)

lemma append_fold_run:
  "mfold (\<lambda>_ i. append_block X (fst i) (snd i)) () inputs c = (Ok (), c') \<longleftrightarrow>
     run (chain_step X) inputs c = Some c'"
proof (induction inputs arbitrary: c)
  case (Cons i inputs)
  show ?case
  proof (cases "chain_step X i c")
    case None
    then obtain e c1 where "append_block X (fst i) (snd i) c = (Err e, c1)"
      by (auto simp: chain_step_def split: prod.splits sum.splits)
    with None show ?thesis by (simp add: mbind_def)
  next
    case (Some c1)
    then have "append_block X (fst i) (snd i) c = (Ok (), c1)" by (simp add: chain_step_Some)
    with Some Cons show ?thesis by (simp add: mbind_def)
  qed
qed (auto simp: mret_def)

lemma chain_from_blocks_Ok:
  "chain_from_blocks X n inputs = Ok c \<longleftrightarrow> run (chain_step X) inputs (chain_new n) = Some c"
  unfolding append_fold_run [symmetric]
  by (auto simp: chain_from_blocks_def rbind_Ok split: prod.splits)

lemma run_chain_blocks:
  "run (chain_step X) inputs c = Some c' \<Longrightarrow>
     c_blocks c' = c_blocks c @ map snd inputs \<and> c_network c' = c_network c"
proof (induction inputs arbitrary: c)
  case (Cons i inputs)
  then obtain c1 where "chain_step X i c = Some c1" "run (chain_step X) inputs c1 = Some c'"
    by (cases "chain_step X i c") auto
  with Cons.IH show ?case by (fastforce simp: chain_step_Some append_block_Ok)
qed simp

lemma chain_ok_length: "chain_ok X c \<Longrightarrow> length (c_blocks c) \<le> 2 ^ 64"
proof -
  assume "chain_ok X c"
  then have "length (c_blocks c) = ledger_blocks (c_state c)" by (simp add: chain_ok_ledger)
  also have "\<dots> \<le> 2 ^ 64"
    using unat_u64_less by (simp add: ledger_blocks_def Suc_le_eq split: option.splits)
  finally show ?thesis .
qed

lemma chain_ok_work:
  assumes "chain_ok X c"
  shows "\<exists>w. cumulative_work (c_blocks c) = Ok w \<and> unat w = work_sum (c_blocks c)"
proof -
  have d: "unat (bh_difficulty (b_header b)) \<le> 34" if "b \<in> set (c_blocks c)" for b
  proof -
    from that obtain i where "i < length (c_blocks c)" "c_blocks c ! i = b"
      by (auto simp: in_set_conv_nth)
    then have "bh_difficulty (b_header b) \<le> maximum_difficulty_leading_zero_bits (c_network c)"
      using assms by (auto simp: chain_ok_def chain_linked_def Let_def)
    then show ?thesis using difficulty_max_34 [of "c_network c"] by (simp add: word_le_nat_alt)
  qed
  have "work_sum (c_blocks c) \<le> length (c_blocks c) * 2 ^ 34" using d by (intro work_sum_bound) blast
  also have "\<dots> \<le> 2 ^ 64 * 2 ^ 34" by (rule mult_right_mono) (use chain_ok_length [OF assms] in simp_all)
  finally have "unat (0::u128) + work_sum (c_blocks c) < 2 ^ 128" by simp
  moreover have "\<forall>b\<in>set (c_blocks c). unat (bh_difficulty (b_header b)) < 128" using d by fastforce
  ultimately obtain w where "cumulative_work (c_blocks c) = Ok w"
    using work_fold_total [of "c_blocks c" 0] by (auto simp: cumulative_work_def)
  then show ?thesis using cumulative_work_Ok by blast
qed

lemma select_fork_ok:
  assumes "chain_ok X a" and "chain_ok X b" and "c_blocks a \<noteq> []" and "c_blocks b \<noteq> []"
  shows "select_fork X (c_blocks a) (c_blocks b) =
    (if block_hash X (hd (c_blocks a)) \<noteq> block_hash X (hd (c_blocks b))
     then Err (InvalidGenesis ''candidate chain has a different genesis'')
     else Ok (if work_sum (c_blocks a) < work_sum (c_blocks b) then AdoptCandidate else KeepCurrent))"
proof -
  obtain wa wb where "cumulative_work (c_blocks a) = Ok wa" "unat wa = work_sum (c_blocks a)"
    "cumulative_work (c_blocks b) = Ok wb" "unat wb = work_sum (c_blocks b)"
    using chain_ok_work assms(1,2) by metis
  moreover have "first_block (c_blocks a) = Some (hd (c_blocks a))"
    "first_block (c_blocks b) = Some (hd (c_blocks b))"
    using assms(3,4) by (cases "c_blocks a"; cases "c_blocks b"; simp add: first_block_def)+
  ultimately show ?thesis by (simp add: select_fork_def word_less_nat_alt)
qed

lemma common_ancestor_index:
  assumes "chain_linked X n as" and "common_ancestor_height X as bs = Some h"
  shows "unat h < length as \<and> unat h < length bs
    \<and> (\<forall>i\<le>unat h. block_hash X (as ! i) = block_hash X (bs ! i))
    \<and> (Suc (unat h) < length as \<and> Suc (unat h) < length bs \<longrightarrow>
         block_hash X (as ! Suc (unat h)) \<noteq> block_hash X (bs ! Suc (unat h)))"
proof -
  let ?P = "\<lambda>(l, r). block_hash X l = block_hash X r"
  define ps where "ps = takeWhile ?P (zip as bs)"
  from assms(2) have ne: "ps \<noteq> []" and h: "h = bh_height (b_header (fst (last ps)))"
    by (auto simp: common_ancestor_height_def ps_def split: list.splits)
  have len: "length ps \<le> length as" "length ps \<le> length bs"
    using length_takeWhile_le [of ?P "zip as bs"] by (simp_all add: ps_def)
  have nth: "ps ! i = (as ! i, bs ! i)" if "i < length ps" for i
    using that len takeWhile_nth [of i ?P "zip as bs"] by (simp add: ps_def)
  have "last ps = (as ! (length ps - 1), bs ! (length ps - 1))"
    using nth [of "length ps - 1"] ne by (simp add: last_conv_nth)
  then have hl: "unat h = length ps - 1"
    using assms(1) ne len Suc_le_lessD [of "length ps - 1" "length as"]
    by (simp add: h chain_linked_def Let_def)
  have eq: "block_hash X (as ! i) = block_hash X (bs ! i)" if "i < length ps" for i
    using nth [OF that] nth_mem [OF that] set_takeWhileD [of "ps ! i" ?P "zip as bs"]
    by (auto simp: ps_def)
  moreover have "block_hash X (as ! length ps) \<noteq> block_hash X (bs ! length ps)"
    if "length ps < length as" "length ps < length bs"
    using nth_length_takeWhile [of ?P "zip as bs"] that by (simp add: ps_def)
  ultimately show ?thesis using ne len hl by (cases ps) auto
qed

section \<open>When mining returns\<close>

text \<open>Documented behaviour of the native search: what it reports is a hash within the boundary.\<close>

definition search_laws :: "externals \<Rightarrow> bool" where
  "search_laws X \<longleftrightarrow> (\<forall>h s b st it th n f m d. native_search_mt X h s b st it th = (1, n, f, m, d)
     \<longrightarrow> native_firopow_hash X h s n = (0, f, m) \<and> bytes_le f b)"

definition solved :: "externals \<Rightarrow> block \<Rightarrow> bool" where
  "solved X b \<longleftrightarrow> (\<exists>out. pow_result X b = Ok out \<and> fo_mix_hash out = bh_mix_hash (b_header b)
     \<and> check_pow (fo_final_hash out) (bh_difficulty (b_header b)))"

lemma with_solution_header [simp]:
  "bh_nonce (b_header (with_solution b n m)) = n" "bh_mix_hash (b_header (with_solution b n m)) = m"
  "bh_height (b_header (with_solution b n m)) = bh_height (b_header b)"
  "bh_difficulty (b_header (with_solution b n m)) = bh_difficulty (b_header b)"
  "seed_fields (b_header (with_solution b n m)) = seed_fields (b_header b)"
  "mining_header_hash X (with_solution b n m) = mining_header_hash X b"
  by (simp_all add: with_solution_def seed_fields_def mining_header_hash_def mining_seed_preimage_def Let_def)

lemma solvedI:
  assumes "pow_hash_with_nonce X b n = Ok out" and "check_pow (fo_final_hash out) (bh_difficulty (b_header b))"
  shows "solved X (with_solution b n (fo_mix_hash out))"
  using assms by (simp add: solved_def pow_result_def pow_hash_with_nonce_def)

lemma mine_solution_solves:
  assumes "search_laws X"
    and "mine_firopow_solution X threads b (bh_difficulty (b_header b)) start it = Ok (Some (n, out))"
  shows "solved X (with_solution b n (fo_mix_hash out))"
proof -
  let ?bd = "boundary_from_leading_zero_bits (bh_difficulty (b_header b))"
  obtain f m d where nat: "native_search_mt X (height_as_i32 (bh_height (b_header b)))
      (hash_bytes (mining_header_hash X b)) ?bd start it threads = (1, n, f, m, d)"
    and out: "out = \<lparr>fo_final_hash = Hash f, fo_mix_hash = Hash m\<rparr>"
    using assms(2)
    by (auto simp: mine_firopow_solution_def firopow_search_mt_def Let_def rbind_Ok
        split: prod.splits if_splits)
  from assms(1) nat have "native_firopow_hash X (height_as_i32 (bh_height (b_header b)))
      (hash_bytes (mining_header_hash X b)) n = (0, f, m)" "bytes_le f ?bd"
    unfolding search_laws_def by blast+
  then show ?thesis
    by (intro solvedI) (simp_all add: pow_hash_with_nonce_def firopow_hash_def out check_pow_def
        meets_target_def hash_meets_boundary_def)
qed

lemma search_loop_ends:
  assumes "search_laws X"
  shows "start + word_of_nat (250000 * Suc m) = 0 \<Longrightarrow>
    \<exists>r. search_loop X threads b start = Some r
      \<and> (\<forall>b'. r = Some b' \<longrightarrow> solved X b' \<and> seed_fields (b_header b') = seed_fields (b_header b))"
proof (induction m arbitrary: start)
  case 0
  then show ?case
    using mine_solution_solves [OF assms]
    by (subst search_loop.simps) (auto split: sum.splits option.splits)
next
  case (Suc m)
  have "(start + 250000) + word_of_nat (250000 * Suc m) = start + word_of_nat (250000 * Suc (Suc m))"
    by (simp add: algebra_simps)
  with Suc have "\<exists>r. search_loop X threads b (start + 250000) = Some r
      \<and> (\<forall>b'. r = Some b' \<longrightarrow> solved X b' \<and> seed_fields (b_header b') = seed_fields (b_header b))"
    by simp
  then show ?case
    using mine_solution_solves [OF assms]
    by (subst search_loop.simps) (auto split: sum.splits option.splits)
qed

lemma search_loop_returns:
  assumes "search_laws X"
  shows "\<exists>r. search_loop X threads b 0 = Some r
      \<and> (\<forall>b'. r = Some b' \<longrightarrow> solved X b' \<and> seed_fields (b_header b') = seed_fields (b_header b))"
proof -
  have "250000 * Suc (2 ^ 60 - 1) = 2 ^ 64 * (15625::nat)" by simp
  then have "(0::u64) + word_of_nat (250000 * Suc (2 ^ 60 - 1)) = 0"
    by (simp only: of_nat_mult) (simp add: word_unat_eq_iff)
  with assms show ?thesis by (rule search_loop_ends)
qed

lemma pow_hash_nonce_irrelevant [simp]:
  "pow_hash_with_nonce X (b\<lparr>b_header := (b_header b)\<lparr>bh_nonce := k\<rparr>\<rparr>) n = pow_hash_with_nonce X b n"
  by (simp add: pow_hash_with_nonce_def mining_header_hash_def mining_seed_preimage_def Let_def)

lemma nonce_loop_returns:
  assumes "pow_hash_with_nonce X b (bh_nonce (b_header b) + word_of_nat k) = Ok out"
    and "check_pow (fo_final_hash out) (bh_difficulty (b_header b))"
  shows "\<exists>b'. nonce_loop X b = Some b' \<and> solved X b' \<and> seed_fields (b_header b') = seed_fields (b_header b)"
  using assms
proof (induction k arbitrary: b)
  case 0
  then show ?case using solvedI [of X b] by (subst nonce_loop.simps) auto
next
  case (Suc k)
  let ?b = "b\<lparr>b_header := (b_header b)\<lparr>bh_nonce := bh_nonce (b_header b) + 1\<rparr>\<rparr>"
  have "\<exists>b'. nonce_loop X ?b = Some b' \<and> solved X b' \<and> seed_fields (b_header b') = seed_fields (b_header ?b)"
    using Suc.prems by (intro Suc.IH) (simp_all add: add.assoc)
  moreover have "seed_fields (b_header ?b) = seed_fields (b_header b)" by (simp add: seed_fields_def)
  ultimately show ?case
    using solvedI [of X b "bh_nonce (b_header b)"]
    by (subst nonce_loop.simps) (auto split: sum.splits)
qed

lemma mine_block_returns:
  assumes "search_laws X" and "pow_hash_with_nonce X b n = Ok out"
    and "check_pow (fo_final_hash out) (bh_difficulty (b_header b))"
  shows "\<exists>b'. mine_block X threads b = Some b' \<and> solved X b'
    \<and> seed_fields (b_header b') = seed_fields (b_header b)"
proof -
  have "n = bh_nonce (b_header b) + word_of_nat (unat (n - bh_nonce (b_header b)))" by simp
  with assms(2,3) have "\<exists>b'. nonce_loop X b = Some b' \<and> solved X b'
      \<and> seed_fields (b_header b') = seed_fields (b_header b)"
    using nonce_loop_returns by metis
  then show ?thesis
    using search_loop_returns [OF assms(1), of threads b]
    by (auto simp: mine_block_def split: option.splits)
qed

section \<open>Properties\<close>

text \<open>
  C17: Every chain that \<open>from_blocks\<close> (or repeated \<open>append_block\<close>) accepts holds exactly the given
  blocks, numbered from 0 without gap, linked by hash, with strictly increasing timestamps,
  difficulties in the network's range, valid proof of work, correct merkle roots and verified,
  pairwise distinct transactions; and its ledger is the replay of its blocks.
\<close>

theorem chain_from_blocks_wellformed:
  assumes "chain_from_blocks X n inputs = Ok c"
  shows "c_blocks c = map snd inputs \<and> chain_linked X n (c_blocks c)
    \<and> run (ledger_step X) (c_blocks c) ledger_new = Some (c_state c)"
proof -
  have r: "run (chain_step X) inputs (chain_new n) = Some c"
    using assms by (simp add: chain_from_blocks_Ok)
  have "chain_ok X c" by (rule chain.run_inv [OF chain_ok_new r])
  with run_chain_blocks [OF r] show ?thesis by (simp add: chain_ok_def chain_new_def)
qed

definition sample_chain :: chain where
  "sample_chain = \<lparr>c_network = Devnet, c_blocks = [sample_genesis], c_state = sample_ledger\<rparr>"

lemma sample_chain_built: "chain_from_blocks sample_externals Devnet [(0, sample_genesis)] = Ok sample_chain"
proof -
  have "append_block sample_externals 0 sample_genesis (chain_new Devnet) = (Ok (), sample_chain)"
    using sample_genesis_valid sample_genesis_applies
    by (auto simp: append_block_Ok sample_chain_def chain_new_def last_block_def ledger_new_def)
  then have "chain_step sample_externals (0, sample_genesis) (chain_new Devnet) = Some sample_chain"
    by (simp add: chain_step_Some)
  then show ?thesis by (simp add: chain_from_blocks_Ok)
qed

theorem chain_from_blocks_wellformed_witness:
  "chain_from_blocks sample_externals Devnet [(0, sample_genesis)] = Ok sample_chain
   \<and> chain_linked sample_externals Devnet [sample_genesis]"
  using chain_from_blocks_wellformed [OF sample_chain_built] sample_chain_built by auto

lemma chain_from_blocks_ok: "chain_from_blocks X n inputs = Ok c \<Longrightarrow> chain_ok X c"
  unfolding chain_from_blocks_Ok by (rule chain.run_inv [OF chain_ok_new])

text \<open>
  A refused \<open>append_block\<close> never adds the block; the ledger is unchanged too, except when
  the refused block reuses a coinbase that was applied before.
\<close>

theorem append_block_refused:
  assumes "chain_from_blocks X n inputs = Ok c" and "append_block X now blk c = (Err e, c')"
  shows "c_blocks c' = c_blocks c \<and> (c' = c \<or> (\<exists>coinbase spends. b_transactions blk = coinbase # spends
    \<and> e = DuplicateTransactionHash (hash_to_hex (tx_hash X coinbase))
    \<and> hash_to_hex (tx_hash X coinbase) \<in> ls_applied_hashes (c_state c)
        \<union> (\<lambda>t. hash_to_hex (tx_hash X t)) ` set spends))"
proof -
  have inv: "ledger_inv (c_state c)" by (rule chain_ok_ledger [OF chain_from_blocks_ok [OF assms(1)]])
  from assms(2) consider "c' = c"
    | s' where "apply_block X blk (c_state c) = (Err e, s')" "c' = c\<lparr>c_state := s'\<rparr>"
    by (auto simp: append_block_def mbind_Err mlift_Ok mupd_Ok split: prod.splits)
  then show ?thesis
  proof cases
    case 2
    from apply_block_fails_clean [OF inv 2(1)] 2(2) show ?thesis by auto
  qed simp
qed

theorem append_block_refused_witness:
  "append_block sample_externals 0 sample_genesis sample_chain = (Err (InvalidHeight 1 0), sample_chain)"
proof -
  have body: "validate_block_bodies sample_externals [] (b_transactions sample_genesis) = Ok ()"
    using sample_genesis_valid by (auto simp: validate_next_block_def Let_def rbind_Ok)
  have "validate_next_block sample_externals 0 Devnet [sample_genesis] (Some sample_genesis)
      sample_genesis 1902587519 = Err (InvalidHeight 1 0)"
    using body by (simp add: validate_next_block_def Let_def) (simp add: sample_genesis_def core_constants)
  then have fail: "append_block sample_externals 0 sample_genesis sample_chain
      = (Err (InvalidHeight 1 0), snd (append_block sample_externals 0 sample_genesis sample_chain))"
    by (simp add: append_block_def mbind_def mlift_def sample_chain_def last_block_def sample_ledger_view)
  from append_block_refused [OF sample_chain_built fail] fail show ?thesis by auto
qed

text \<open>
  Fork choice is total and strict on valid chains: for two non-empty chains of a network
  \<open>select_fork\<close> refuses a different genesis and otherwise adopts the candidate exactly when its
  total work is strictly larger; the 128-bit work never overflows.
\<close>

theorem select_fork_exact:
  assumes "chain_from_blocks X n is = Ok a" and "chain_from_blocks X n js = Ok b"
    and "is \<noteq> []" and "js \<noteq> []"
  shows "select_fork X (c_blocks a) (c_blocks b) =
    (if block_hash X (hd (c_blocks a)) \<noteq> block_hash X (hd (c_blocks b))
     then Err (InvalidGenesis ''candidate chain has a different genesis'')
     else Ok (if work_sum (c_blocks a) < work_sum (c_blocks b) then AdoptCandidate else KeepCurrent))"
proof -
  have "c_blocks a \<noteq> []" "c_blocks b \<noteq> []"
    using run_chain_blocks [of X "is" "chain_new n" a] run_chain_blocks [of X js "chain_new n" b] assms
    by (simp_all add: chain_from_blocks_Ok chain_new_def)
  with chain_from_blocks_ok [OF assms(1)] chain_from_blocks_ok [OF assms(2)] show ?thesis
    by (rule select_fork_ok)
qed

theorem select_fork_exact_witness:
  "select_fork sample_externals [sample_genesis] [sample_genesis] = Ok KeepCurrent"
  using select_fork_exact [OF sample_chain_built sample_chain_built] by (simp add: sample_chain_def)

text \<open>
  The common ancestor reported for two valid chains is the last block of their common
  prefix: the chains agree at every height up to it and differ at the next one.
\<close>

theorem common_ancestor_is_fork_point:
  assumes "chain_from_blocks X n is = Ok a"
    and "common_ancestor_height X (c_blocks a) bs = Some h"
  shows "unat h < length (c_blocks a) \<and> unat h < length bs
    \<and> (\<forall>i\<le>unat h. block_hash X (c_blocks a ! i) = block_hash X (bs ! i))
    \<and> (Suc (unat h) < length (c_blocks a) \<and> Suc (unat h) < length bs \<longrightarrow>
         block_hash X (c_blocks a ! Suc (unat h)) \<noteq> block_hash X (bs ! Suc (unat h)))"
  using chain_from_blocks_ok [OF assms(1)] assms(2)
  by (intro common_ancestor_index [where n = "c_network a"]) (simp_all add: chain_ok_def)

theorem common_ancestor_is_fork_point_witness:
  "common_ancestor_height sample_externals (c_blocks sample_chain) [sample_genesis, sample_next] = Some 0
   \<and> block_hash sample_externals (c_blocks sample_chain ! 0)
       = block_hash sample_externals ([sample_genesis, sample_next] ! 0)"
proof -
  have h: "common_ancestor_height sample_externals (c_blocks sample_chain) [sample_genesis, sample_next] = Some 0"
    by (simp add: common_ancestor_height_def sample_chain_def) (simp add: sample_genesis_def)
  with common_ancestor_is_fork_point [OF sample_chain_built h] show ?thesis by simp
qed

text \<open>
  C37: Mining succeeds whenever a solution exists: if the native search reports only real
  solutions and some nonce meets the target, \<open>mine_block\<close> returns, both loops ending, with the
  same seed fields, a recomputable mix hash and a hash that meets the target.
\<close>

theorem mine_block_liveness:
  assumes "search_laws X" and "pow_hash_with_nonce X b n = Ok out"
    and "check_pow (fo_final_hash out) (bh_difficulty (b_header b))"
  shows "\<exists>b'. mine_block X threads b = Some b' \<and> solved X b'
    \<and> seed_fields (b_header b') = seed_fields (b_header b)"
  using assms by (rule mine_block_returns)

lemma sample_search_laws: "search_laws sample_externals"
proof -
  have "bytes_le (replicate k 0) bs" for k bs
  proof (induction k arbitrary: bs)
    case (Suc k)
    then show ?case by (cases bs) (auto simp: word_neq_0_conv)
  qed simp
  from this [of 32] show ?thesis by (simp add: search_laws_def sample_externals_def numeral_eq_Suc)
qed

theorem mine_block_liveness_witness:
  "search_laws sample_externals \<and> (\<exists>b'. mine_block sample_externals 4 sample_block = Some b'
     \<and> solved sample_externals b')"
proof -
  have "pow_hash_with_nonce sample_externals sample_block 0
      = Ok \<lparr>fo_final_hash = hash_zero, fo_mix_hash = hash_zero\<rparr>"
    by (simp add: pow_hash_with_nonce_def firopow_hash_def sample_externals_def hash_zero_def HASH_SIZE_def numeral_eq_Suc)
  moreover have "check_pow hash_zero (bh_difficulty (b_header sample_block))" by code_simp
  ultimately show ?thesis
    using mine_block_liveness [OF sample_search_laws, of sample_block 0] sample_search_laws by fastforce
qed

end
