(* ===== verification/Vireon_Mempool.thy ===== *)
theory Vireon_Mempool
  imports Vireon_Chain "HOL-Library.Product_Lexorder" "HOL-Library.Multiset"
begin

text \<open>
  \<^verbatim>\<open>vireon-node/src/mempool.rs\<close> and the error type of the node (\<^verbatim>\<open>error.rs\<close>): the pending
  transactions a node keeps, the filters that drop stale, mined and repeated records, the two
  sort orders, sanitising against the chain state, selection for a block template, the choice
  of the package to evict, and the reconciliation after a reorganisation. The pending file is
  the list of its records. The lemmas show that sanitising and selection never fail on a
  reachable chain, that what they keep applies in the returned order, and that no record is
  lost or duplicated.
\<close>

section \<open>Node errors\<close>

text \<open>The errors of other crates are carried as their texts.\<close>

datatype node_error =
    NodeIo string
  | NodeJson string
  | NodeToml string
  | NodeSqlite string
  | NodeCore VireonError
  | ConfigMismatch string
  | NodeInput string
  | ChainNotInitialized string
  | InvalidChainFile string nat string
  | InvalidChainDatabase string string
  | InvalidMempoolFile string string
  | MempoolFull nat
  | ResetNotAllowed string
  | ResetConfirmationRequired string
  | NetworkMismatch string string
  | ChainMagicMismatch string string
  | GenesisMismatch string string
  | NodeP2p string
  | StaleChainTip string string
  | InvalidDataPath string string string
  | ShutdownNotRunning string
  | ResetWhileNodeRunning string

type_synonym 'a node_result = "node_error + 'a"

fun node_error_display :: "node_error \<Rightarrow> string" where
  "node_error_display (NodeIo m) = ''I/O error: '' @ m"
| "node_error_display (NodeJson m) = ''JSON error: '' @ m"
| "node_error_display (NodeToml m) = ''TOML error: '' @ m"
| "node_error_display (NodeSqlite m) = ''SQLite storage error: '' @ m"
| "node_error_display (NodeCore e) = ''core validation error: '' @ error_display e"
| "node_error_display (ConfigMismatch m) = ''network config mismatch: '' @ m"
| "node_error_display (NodeInput m) = ''invalid local input: '' @ m"
| "node_error_display (ChainNotInitialized p) = ''local chain is not initialized at '' @ p"
| "node_error_display (InvalidChainFile p l m) =
     ''invalid chain file at '' @ p @ '' on line '' @ show_nat l @ '': '' @ m"
| "node_error_display (InvalidChainDatabase p m) = ''invalid chain database at '' @ p @ '': '' @ m"
| "node_error_display (InvalidMempoolFile p m) = ''invalid mempool file at '' @ p @ '': '' @ m"
| "node_error_display (MempoolFull l) =
     ''mempool is full: limit '' @ show_nat l @ '' pending transactions reached''"
| "node_error_display (ResetNotAllowed n) = ''reset is not allowed for network '' @ n"
| "node_error_display (ResetConfirmationRequired n) =
     ''reset requires explicit confirmation with --confirm for network '' @ n"
| "node_error_display (NetworkMismatch e a) = ''network mismatch: expected '' @ e @ '', got '' @ a"
| "node_error_display (ChainMagicMismatch e a) = ''chain magic mismatch: expected '' @ e @ '', got '' @ a"
| "node_error_display (GenesisMismatch e a) = ''genesis mismatch: expected '' @ e @ '', got '' @ a"
| "node_error_display (NodeP2p m) = ''P2P error: '' @ m"
| "node_error_display (StaleChainTip e a) = ''stale chain tip: expected '' @ e @ '', got '' @ a"
| "node_error_display (InvalidDataPath n r p) =
     ''invalid storage path for network '' @ n @ '': expected a path under '' @ r @ '', got '' @ p"
| "node_error_display (ShutdownNotRunning n) =
     ''node shutdown requested but no running node marker exists for network '' @ n"
| "node_error_display (ResetWhileNodeRunning n) =
     ''reset refused because the local node is still marked running for network '' @ n"

section \<open>Pending transactions\<close>

definition DEFAULT_MEMPOOL_MAX_AGE_SECONDS :: u64 where "DEFAULT_MEMPOOL_MAX_AGE_SECONDS = 3600"
definition MAX_PENDING_TXS_PER_SENDER :: nat where "MAX_PENDING_TXS_PER_SENDER = 32"

record pending_record =
  pr_tx_hash :: string
  pr_received_at :: u64
  pr_transaction :: transaction

definition tx_hash_string :: "externals \<Rightarrow> transaction \<Rightarrow> string" where
  "tx_hash_string X t = hash_to_hex (tx_hash X t)"

definition validate_pending_transaction ::
  "externals \<Rightarrow> ledger_state \<Rightarrow> transaction \<Rightarrow> amount \<Rightarrow> unit node_result" where
  "validate_pending_transaction X s t base_fee =
     rbind (reject_if (is_coinbase t)
              (NodeInput ''coinbase transactions cannot enter the local mempool'')) (\<lambda>_.
     rbind (map_err (\<lambda>e. NodeInput (error_display e)) (address_parse X (tx_to t))) (\<lambda>_.
     case validate_transaction_against_state X s t base_fee of
       Inr _ \<Rightarrow> Ok ()
     | Inl (InvalidNonce address expected actual) \<Rightarrow>
         Err (NodeInput (''nonce gap for '' @ address @ '': expected sequential nonce ''
           @ show_word expected @ '', got '' @ show_word actual))
     | Inl e \<Rightarrow> Err (NodeCore e)))"

definition effective_priority_atomic :: "amount \<Rightarrow> pending_record \<Rightarrow> u64" where
  "effective_priority_atomic base_fee r =
     (case effective_priority_fee (pr_transaction r) base_fee of Inr a \<Rightarrow> a | Inl _ \<Rightarrow> 0)"

definition mined_transaction_hashes :: "externals \<Rightarrow> chain \<Rightarrow> string set" where
  "mined_transaction_hashes X c =
     set (map (tx_hash_string X) (concat (map b_transactions (c_blocks c))))"

text \<open>The loop of \<open>filter_pending_candidates\<close>; \<open>seen\<close> holds the hashes inserted so far.\<close>

fun filter_loop ::
  "u64 \<Rightarrow> u64 \<Rightarrow> string set \<Rightarrow> string set \<Rightarrow> pending_record list \<Rightarrow> pending_record list \<times> string list" where
  "filter_loop now max_age onchain seen [] = ([], [])"
| "filter_loop now max_age onchain seen (r # rs) =
     (if max_age > 0 \<and> saturating_sub now (pr_received_at r) > max_age
      then (case filter_loop now max_age onchain seen rs of (cs, ds) \<Rightarrow> (cs, pr_tx_hash r # ds))
      else if pr_tx_hash r \<in> onchain
      then (case filter_loop now max_age onchain seen rs of (cs, ds) \<Rightarrow> (cs, pr_tx_hash r # ds))
      else if pr_tx_hash r \<in> seen
      then (case filter_loop now max_age onchain seen rs of (cs, ds) \<Rightarrow> (cs, pr_tx_hash r # ds))
      else (case filter_loop now max_age onchain (insert (pr_tx_hash r) seen) rs of
              (cs, ds) \<Rightarrow> (r # cs, ds)))"

definition filter_pending_candidates ::
  "externals \<Rightarrow> u64 \<Rightarrow> chain \<Rightarrow> pending_record list \<Rightarrow> u64 \<Rightarrow> pending_record list \<times> string list" where
  "filter_pending_candidates X now c records max_age =
     filter_loop now max_age (mined_transaction_hashes X c) {} records"

text \<open>
  The comparators chain \<open>cmp\<close> with \<open>then_with\<close>: a lexicographic order on a key. A reversed
  comparison is a negated component. \<open>sort_by\<close> is stable, as \<open>sort_key\<close> is.
\<close>

definition admission_key :: "amount \<Rightarrow> pending_record \<Rightarrow> string \<times> u64 \<times> int \<times> u64 \<times> string" where
  "admission_key base_fee r =
     ((case tx_from (pr_transaction r) of None \<Rightarrow> [] | Some a \<Rightarrow> a), tx_nonce (pr_transaction r),
      - uint (effective_priority_atomic base_fee r), pr_received_at r, pr_tx_hash r)"

definition sort_pending_for_admission :: "amount \<Rightarrow> pending_record list \<Rightarrow> pending_record list" where
  "sort_pending_for_admission base_fee = sort_key (admission_key base_fee)"

definition fee_key :: "amount \<Rightarrow> pending_record \<Rightarrow> int \<times> int \<times> u64 \<times> string" where
  "fee_key base_fee r =
     (- uint (effective_priority_atomic base_fee r), - uint (tx_max_fee (pr_transaction r)),
      pr_received_at r, pr_tx_hash r)"

definition sort_pending_by_fee_desc :: "amount \<Rightarrow> pending_record list \<Rightarrow> pending_record list" where
  "sort_pending_by_fee_desc base_fee = sort_key (fee_key base_fee)"

section \<open>Sanitising\<close>

fun sanitize_loop ::
  "externals \<Rightarrow> amount \<Rightarrow> ledger_state \<Rightarrow> pending_record list
     \<Rightarrow> (pending_record list \<times> string list \<times> ledger_state) node_result" where
  "sanitize_loop X base_fee s [] = Ok ([], [], s)"
| "sanitize_loop X base_fee s (r # rs) =
     (case validate_pending_transaction X s (pr_transaction r) base_fee of
        Inl _ \<Rightarrow> rbind (sanitize_loop X base_fee s rs) (\<lambda>(valid, invalid, s').
                 Ok (valid, pr_tx_hash r # invalid, s'))
      | Inr _ \<Rightarrow>
          (case apply_transaction X (pr_transaction r) base_fee s of
             (Inl e, _) \<Rightarrow> Err (NodeCore e)
           | (Inr _, s1) \<Rightarrow> rbind (sanitize_loop X base_fee s1 rs) (\<lambda>(valid, invalid, s').
                             Ok (r # valid, invalid, s'))))"

definition sanitize_pending_transactions_with_age ::
  "externals \<Rightarrow> u64 \<Rightarrow> chain \<Rightarrow> pending_record list \<Rightarrow> u64
     \<Rightarrow> (pending_record list \<times> string list \<times> ledger_state) node_result" where
  "sanitize_pending_transactions_with_age X now c records max_age =
     (let base_fee = next_base_fee (last_block (c_blocks c));
          (candidates, early_dropped) = filter_pending_candidates X now c records max_age;
          ordered = sort_pending_for_admission base_fee candidates in
      rbind (sanitize_loop X base_fee (c_state c) ordered) (\<lambda>(valid, invalid, s).
      Ok (valid, early_dropped @ invalid, s)))"

definition sanitize_pending_transactions ::
  "externals \<Rightarrow> u64 \<Rightarrow> chain \<Rightarrow> pending_record list
     \<Rightarrow> (pending_record list \<times> string list \<times> ledger_state) node_result" where
  "sanitize_pending_transactions X now c records =
     sanitize_pending_transactions_with_age X now c records DEFAULT_MEMPOOL_MAX_AGE_SECONDS"

section \<open>Selection for a block template\<close>

record selection =
  sel_state :: ledger_state
  sel_selected :: "pending_record list"
  sel_hashes :: "string set"

text \<open>One pass over the remaining records: the records still pending and whether one was taken.\<close>

fun select_pass ::
  "externals \<Rightarrow> amount \<Rightarrow> nat \<Rightarrow> selection \<Rightarrow> pending_record list
     \<Rightarrow> (selection \<times> pending_record list \<times> bool) node_result" where
  "select_pass X base_fee limit z [] = Ok (z, [], False)"
| "select_pass X base_fee limit z (r # rs) =
     (if length (sel_selected z) \<ge> limit
      then rbind (select_pass X base_fee limit z rs) (\<lambda>(z', still, p). Ok (z', r # still, p))
      else if pr_tx_hash r \<in> sel_hashes z
      then select_pass X base_fee limit z rs
      else if \<not> is_ok (validate_pending_transaction X (sel_state z) (pr_transaction r) base_fee)
      then rbind (select_pass X base_fee limit z rs) (\<lambda>(z', still, p). Ok (z', r # still, p))
      else
        (case apply_transaction X (pr_transaction r) base_fee (sel_state z) of
           (Inl e, _) \<Rightarrow> Err (NodeCore e)
         | (Inr _, s1) \<Rightarrow>
             rbind (select_pass X base_fee limit
                      \<lparr>sel_state = s1, sel_selected = sel_selected z @ [r],
                       sel_hashes = insert (pr_tx_hash r) (sel_hashes z)\<rparr> rs) (\<lambda>(z', still, _).
             Ok (z', still, True))))"

primrec select_passes ::
  "nat \<Rightarrow> externals \<Rightarrow> amount \<Rightarrow> nat \<Rightarrow> selection \<Rightarrow> pending_record list
     \<Rightarrow> (selection \<times> pending_record list) node_result" where
  "select_passes 0 X base_fee limit z remaining = Ok (z, remaining)"
| "select_passes (Suc n) X base_fee limit z remaining =
     (if length (sel_selected z) \<ge> limit \<or> remaining = [] then Ok (z, remaining)
      else rbind (select_pass X base_fee limit z remaining) (\<lambda>(z', still, progress).
           if progress then select_passes n X base_fee limit z' still else Ok (z', still)))"

definition select_pending_for_template ::
  "externals \<Rightarrow> u64 \<Rightarrow> chain \<Rightarrow> pending_record list \<Rightarrow> nat
     \<Rightarrow> (pending_record list \<times> string list) node_result" where
  "select_pending_for_template X now c records limit =
     (if limit = 0 then Ok ([], [])
      else
        let base_fee = next_base_fee (last_block (c_blocks c));
            (candidates, early_dropped) =
              filter_pending_candidates X now c records DEFAULT_MEMPOOL_MAX_AGE_SECONDS;
            remaining = sort_pending_by_fee_desc base_fee candidates in
        rbind (select_passes (min (length remaining + 1) 64) X base_fee limit
                 \<lparr>sel_state = c_state c, sel_selected = [], sel_hashes = {}\<rparr> remaining) (\<lambda>(z, rest).
        Ok (sel_selected z, early_dropped @ map pr_tx_hash rest)))"

section \<open>Eviction and reorganisation\<close>

definition package_insert ::
  "amount \<Rightarrow> pending_record \<Rightarrow> (string, u64 \<times> u64) btree_map \<Rightarrow> (string, u64 \<times> u64) btree_map" where
  "package_insert base_fee r packages =
     (case tx_from (pr_transaction r) of
        None \<Rightarrow> packages
      | Some sender \<Rightarrow>
          let tip = effective_priority_atomic base_fee r;
              (min_tip, oldest) = (case map_of packages sender of
                                     None \<Rightarrow> (tip, pr_received_at r) | Some e \<Rightarrow> e) in
          map_insert sender (min min_tip tip, min oldest (pr_received_at r)) packages)"

definition sender_packages ::
  "amount \<Rightarrow> pending_record list \<Rightarrow> (string, u64 \<times> u64) btree_map" where
  "sender_packages base_fee records = fold (package_insert base_fee) records []"

definition lowest_fee_sender_package ::
  "pending_record list \<Rightarrow> amount \<Rightarrow> u64 \<Rightarrow> string option" where
  "lowest_fee_sender_package records base_fee incoming_tip =
     (case filter (\<lambda>(_, min_tip, _). min_tip < incoming_tip) (sender_packages base_fee records) of
        [] \<Rightarrow> None
      | ps \<Rightarrow> Some (fst (arg_min_list (\<lambda>(sender, min_tip, oldest). (min_tip, oldest, sender)) ps)))"

fun reinsert_detached ::
  "externals \<Rightarrow> u64 \<Rightarrow> string set \<Rightarrow> transaction list \<Rightarrow> pending_record list" where
  "reinsert_detached X now known [] = []"
| "reinsert_detached X now known (t # ts) =
     (let h = tx_hash_string X t in
      if h \<in> known then reinsert_detached X now known ts
      else \<lparr>pr_tx_hash = h, pr_received_at = now, pr_transaction = t\<rparr>
             # reinsert_detached X now (insert h known) ts)"

text \<open>
  \<open>reconcile_after_reorg\<close> with the records of the pending file: the dropped hashes and the
  records written back. \<open>now\<close> stamps the reinserted records, \<open>now'\<close> is the clock of the filter.
\<close>

definition reconcile_after_reorg ::
  "externals \<Rightarrow> u64 \<Rightarrow> u64 \<Rightarrow> chain \<Rightarrow> block list \<Rightarrow> nat \<Rightarrow> pending_record list
     \<Rightarrow> (string list \<times> pending_record list) node_result" where
  "reconcile_after_reorg X now now' c detached_blocks max_transactions records =
     (let records' = records @ reinsert_detached X now (set (map pr_tx_hash records))
                       (concat (map (\<lambda>b. drop 1 (b_transactions b)) detached_blocks)) in
      rbind (sanitize_pending_transactions X now' c records') (\<lambda>(valid, dropped, _).
      Ok (dropped, take max_transactions valid)))"

section \<open>Filtering and sorting\<close>

lemma subset_add_mset: "A \<subseteq># M \<Longrightarrow> A \<subseteq># add_mset x M"
  by (rule subset_mset.order_trans [of A M]) simp_all

lemma filter_loop_facts:
  "filter_loop now max_age onchain seen rs = (cs, ds) \<Longrightarrow>
     distinct (map pr_tx_hash cs) \<and> pr_tx_hash ` set cs \<inter> (onchain \<union> seen) = {} \<and> mset cs \<subseteq># mset rs
   \<and> mset (map pr_tx_hash cs) + mset ds = mset (map pr_tx_hash rs)
   \<and> (\<forall>r\<in>set cs. max_age > 0 \<longrightarrow> saturating_sub now (pr_received_at r) \<le> max_age)"
proof (induction rs arbitrary: seen cs ds)
  case (Cons r rs)
  show ?case
  proof (cases "(max_age > 0 \<and> saturating_sub now (pr_received_at r) > max_age)
      \<or> pr_tx_hash r \<in> onchain \<or> pr_tx_hash r \<in> seen")
    case True
    then obtain ds' where "filter_loop now max_age onchain seen rs = (cs, ds')" "ds = pr_tx_hash r # ds'"
      using Cons.prems by (auto split: prod.splits if_splits)
    with Cons.IH [of seen cs ds'] show ?thesis by (auto simp: subset_add_mset)
  next
    case False
    then obtain cs' where "filter_loop now max_age onchain (insert (pr_tx_hash r) seen) rs = (cs', ds)"
      "cs = r # cs'"
      using Cons.prems by (auto split: prod.splits if_splits)
    with Cons.IH [of "insert (pr_tx_hash r) seen" cs' ds] False show ?thesis
      by (auto simp: not_less)
  qed
qed simp

lemma filter_loop_keeps:
  "filter_loop now max_age onchain seen rs = (cs, ds) \<Longrightarrow> r \<in> set rs \<Longrightarrow>
     \<not> (max_age > 0 \<and> saturating_sub now (pr_received_at r) > max_age) \<Longrightarrow>
     pr_tx_hash r \<notin> onchain \<union> seen \<Longrightarrow> (\<forall>r'\<in>set rs. pr_tx_hash r' = pr_tx_hash r \<longrightarrow> r' = r) \<Longrightarrow>
     r \<in> set cs"
proof (induction rs arbitrary: seen cs ds)
  case (Cons x rs)
  then show ?case by (cases "x = r") (fastforce split: prod.splits if_splits)+
qed simp

lemma sorted_pending [simp]:
  "mset (sort_pending_for_admission b rs) = mset rs"
  "mset (sort_pending_by_fee_desc b rs) = mset rs"
  by (simp_all add: sort_pending_for_admission_def sort_pending_by_fee_desc_def)

lemma set_sorted_pending [simp]:
  "set (sort_pending_for_admission b rs) = set rs" "set (sort_pending_by_fee_desc b rs) = set rs"
  by (simp_all add: sort_pending_for_admission_def sort_pending_by_fee_desc_def)

section \<open>Validated transactions apply\<close>

definition pool_inv :: "ledger_state \<Rightarrow> bool" where
  "pool_inv s \<longleftrightarrow> balances_wf s \<and> ledger_total s + unat (ls_total_burned_fees s) < 2 ^ 64"

definition pending_step :: "externals \<Rightarrow> amount \<Rightarrow> transaction \<Rightarrow> ledger_state \<Rightarrow> ledger_state option" where
  "pending_step X b t s =
     (if is_ok (validate_pending_transaction X s t b)
      then (case apply_transaction X t b s of (Inr _, s') \<Rightarrow> Some s' | (Inl _, _) \<Rightarrow> None)
      else None)"

lemma validate_pending_Ok:
  "validate_pending_transaction X s t b = Ok u \<longleftrightarrow>
     \<not> is_coinbase t \<and> is_ok (address_parse X (tx_to t)) \<and> validate_transaction_against_state X s t b = Ok ()"
  by (auto simp: validate_pending_transaction_def rbind_Ok is_ok_iff
      split: sum.splits VireonError.splits)

lemma total_debit_parts:
  "total_debit t b = Ok d \<Longrightarrow> \<not> is_coinbase t \<Longrightarrow> \<exists>f p. effective_fee t b = Ok f \<and> effective_priority_fee t b = Ok p"
  by (auto simp: total_debit_def effective_fee_def rbind_Ok)

lemma validated_applies:
  assumes "validate_transaction_against_state X s t b = Ok ()" and "\<not> is_coinbase t" and "pool_inv s"
  shows "\<exists>fs s'. apply_transaction X t b s = (Ok fs, s')"
proof -
  obtain sender d where v: "tx_from t = Some sender" "total_debit t b = Ok d" "d \<le> balance_of s sender"
    using assms(1) unfolding validate_spend_Ok [OF assms(2)] by blast
  obtain f p where fp: "effective_fee t b = Ok f" "effective_priority_fee t b = Ok p"
    using total_debit_parts [OF v(2) assms(2)] by blast
  obtain left where left: "amount_checked_sub (balance_of s sender) d = Ok left"
    using v(3) by (simp add: amount_sub_exact word_le_nat_alt)
  let ?s1 = "set_balance sender left s"
  have wf: "balances_wf s" and tot: "ledger_total s + unat (ls_total_burned_fees s) < 2 ^ 64"
    using assms(3) by (simp_all add: pool_inv_def)
  have d: "ledger_total ?s1 + unat d = ledger_total s" by (rule bal.total_debit_put [OF wf left])
  have du: "unat d = unat (tx_amount t) + unat f" by (rule total_debit_Ok [OF v(2) fp(1)])
  have fu: "unat f = unat b + unat p" by (rule unat_effective_fee(1) [OF assms(2) fp])
  have "ledger_total ?s1 + unat (tx_amount t) < 2 ^ 64" using d du tot by linarith
  then obtain got where got: "amount_checked_add (balance_of ?s1 (tx_to t)) (tx_amount t) = Ok got"
    using bal.credit_fits by blast
  have "unat (ls_total_burned_fees s) + unat b < 2 ^ LENGTH(64)"
    using d du fu tot by simp
  then obtain burned where burned: "amount_checked_add (ls_total_burned_fees s) b = Ok burned"
    by (simp add: amount_add_exact)
  show ?thesis unfolding apply_spend_iff [OF assms(2)] using assms(1) v(1,2) fp left got burned by blast
qed

lemma pool_inv_applied:
  assumes "apply_transaction X t b s = (Ok fs, s')" and "\<not> is_coinbase t" and "pool_inv s"
  shows "pool_inv s'"
  using apply_spend_effect [OF assms(2) _ assms(1)] assms(3) by (auto simp: pool_inv_def)

lemma pending_step_Some:
  "pending_step X b t s = Some s' \<longleftrightarrow>
     validate_pending_transaction X s t b = Ok () \<and> (\<exists>fs. apply_transaction X t b s = (Ok fs, s'))"
  by (auto simp: pending_step_def is_ok_iff split: prod.splits sum.splits)

interpretation pool: guarded_machine "pending_step X b" pool_inv for X b
  by unfold_locales (auto simp: pending_step_Some validate_pending_Ok dest: pool_inv_applied)

lemma pending_step_total:
  assumes "pool_inv s" and "is_ok (validate_pending_transaction X s t b)"
  obtains fs s' where "apply_transaction X t b s = (Ok fs, s')" "pending_step X b t s = Some s'" "pool_inv s'"
proof -
  have v: "validate_pending_transaction X s t b = Ok ()" using assms(2) by (auto simp: is_ok_iff)
  then obtain fs s' where a: "apply_transaction X t b s = (Ok fs, s')"
    using validated_applies assms(1) unfolding validate_pending_Ok by blast
  with v have "pending_step X b t s = Some s'" by (auto simp: pending_step_Some)
  with a show thesis using pool.step_inv [OF assms(1)] that by blast
qed

lemma chain_ok_pool_inv: "chain_ok X c \<Longrightarrow> pool_inv (c_state c)"
  using chain_ok_ledger(1) [of X c] by (simp add: ledger_inv_def pool_inv_def core_constants)

section \<open>Sanitising keeps a sequence that applies\<close>

lemma sanitize_loop_ok:
  assumes "pool_inv s"
  shows "\<exists>valid invalid s'. sanitize_loop X b s rs = Ok (valid, invalid, s')
    \<and> run (pending_step X b) (map pr_transaction valid) s = Some s' \<and> mset valid \<subseteq># mset rs
    \<and> mset (map pr_tx_hash valid) + mset invalid = mset (map pr_tx_hash rs)
    \<and> (distinct (map pr_tx_hash rs) \<longrightarrow> distinct (map pr_tx_hash valid))"
  using assms
proof (induction rs arbitrary: s)
  case (Cons r rs)
  show ?case
  proof (cases "validate_pending_transaction X s (pr_transaction r) b")
    case (Inl e)
    obtain valid invalid s' where "sanitize_loop X b s rs = Ok (valid, invalid, s')"
      "run (pending_step X b) (map pr_transaction valid) s = Some s'" "mset valid \<subseteq># mset rs"
      "mset (map pr_tx_hash valid) + mset invalid = mset (map pr_tx_hash rs)"
      "distinct (map pr_tx_hash rs) \<longrightarrow> distinct (map pr_tx_hash valid)"
      using Cons.IH [OF Cons.prems] by blast
    with Inl show ?thesis
      by - (rule exI [of _ valid], rule exI [of _ "pr_tx_hash r # invalid"], rule exI [of _ s'],
          simp add: subset_add_mset)
  next
    case (Inr u)
    then obtain fs s1 where a: "apply_transaction X (pr_transaction r) b s = (Ok fs, s1)"
      "pending_step X b (pr_transaction r) s = Some s1" "pool_inv s1"
      using pending_step_total [OF Cons.prems, of X "pr_transaction r" b] by (metis is_ok_simps(1))
    obtain valid invalid s' where v: "sanitize_loop X b s1 rs = Ok (valid, invalid, s')"
      "run (pending_step X b) (map pr_transaction valid) s1 = Some s'" "mset valid \<subseteq># mset rs"
      "mset (map pr_tx_hash valid) + mset invalid = mset (map pr_tx_hash rs)"
      "distinct (map pr_tx_hash rs) \<longrightarrow> distinct (map pr_tx_hash valid)"
      using Cons.IH [OF a(3)] by blast
    have "set valid \<subseteq> set rs" using set_mset_mono [OF v(3)] by simp
    then have "pr_tx_hash r \<notin> pr_tx_hash ` set rs \<longrightarrow> pr_tx_hash r \<notin> pr_tx_hash ` set valid" by blast
    with a v Inr show ?thesis
      by - (rule exI [of _ "r # valid"], rule exI [of _ invalid], rule exI [of _ s'], simp)
  qed
qed simp

section \<open>Selection keeps a sequence that applies\<close>

definition record_rejected :: "externals \<Rightarrow> amount \<Rightarrow> ledger_state \<Rightarrow> pending_record \<Rightarrow> bool" where
  "record_rejected X b s r \<longleftrightarrow> \<not> is_ok (validate_pending_transaction X s (pr_transaction r) b)"

definition extends_selection ::
  "externals \<Rightarrow> amount \<Rightarrow> nat \<Rightarrow> selection \<Rightarrow> selection \<Rightarrow> pending_record list \<Rightarrow> bool" where
  "extends_selection X b limit z z' new \<longleftrightarrow>
     run (pending_step X b) (map pr_transaction new) (sel_state z) = Some (sel_state z')
   \<and> sel_selected z' = sel_selected z @ new \<and> sel_hashes z' = sel_hashes z \<union> pr_tx_hash ` set new
   \<and> (length (sel_selected z) \<le> limit \<longrightarrow> length (sel_selected z') \<le> limit)"

lemma extends_selection_refl: "extends_selection X b limit z z []"
  by (simp add: extends_selection_def)

lemma extends_selection_trans:
  "extends_selection X b limit z z1 new1 \<Longrightarrow> extends_selection X b limit z1 z2 new2 \<Longrightarrow>
     extends_selection X b limit z z2 (new1 @ new2)"
  by (auto simp: extends_selection_def run_append)

lemma select_pass_ok:
  assumes "pool_inv (sel_state z)" and "distinct (map pr_tx_hash rs)"
    and "pr_tx_hash ` set rs \<inter> sel_hashes z = {}"
  shows "\<exists>z' still p new. select_pass X b limit z rs = Ok (z', still, p)
    \<and> extends_selection X b limit z z' new \<and> (p \<longleftrightarrow> new \<noteq> []) \<and> mset new + mset still = mset rs
    \<and> (new = [] \<and> length (sel_selected z) < limit \<longrightarrow> list_all (record_rejected X b (sel_state z)) still)"
  using assms
proof (induction rs arbitrary: z)
  case Nil
  then show ?case using extends_selection_refl by fastforce
next
  case (Cons r rs)
  have tail: "distinct (map pr_tx_hash rs)" "pr_tx_hash ` set rs \<inter> sel_hashes z = {}"
    "pr_tx_hash r \<notin> sel_hashes z" "pr_tx_hash r \<notin> pr_tx_hash ` set rs"
    using Cons.prems by auto
  have ih: "\<exists>z' still p new. select_pass X b limit z rs = Ok (z', still, p)
    \<and> extends_selection X b limit z z' new \<and> (p \<longleftrightarrow> new \<noteq> []) \<and> mset new + mset still = mset rs
    \<and> (new = [] \<and> length (sel_selected z) < limit \<longrightarrow> list_all (record_rejected X b (sel_state z)) still)"
    by (rule Cons.IH [OF Cons.prems(1) tail(1,2)])
  consider (full) "length (sel_selected z) \<ge> limit"
    | (bad) "length (sel_selected z) < limit" "record_rejected X b (sel_state z) r"
    | (good) "length (sel_selected z) < limit" "\<not> record_rejected X b (sel_state z) r"
    by linarith
  then show ?case
  proof cases
    case full
    from ih obtain z' still p new where "select_pass X b limit z rs = Ok (z', still, p)"
      "extends_selection X b limit z z' new" "p \<longleftrightarrow> new \<noteq> []" "mset new + mset still = mset rs"
      by blast
    with full show ?thesis
      by - (rule exI [of _ z'], rule exI [of _ "r # still"], rule exI [of _ p], rule exI [of _ new], simp)
  next
    case bad
    from ih obtain z' still p new where "select_pass X b limit z rs = Ok (z', still, p)"
      "extends_selection X b limit z z' new" "p \<longleftrightarrow> new \<noteq> []" "mset new + mset still = mset rs"
      "new = [] \<and> length (sel_selected z) < limit \<longrightarrow> list_all (record_rejected X b (sel_state z)) still"
      by blast
    with bad tail(3) bad(2) [unfolded record_rejected_def] show ?thesis
      by - (rule exI [of _ z'], rule exI [of _ "r # still"], rule exI [of _ p], rule exI [of _ new], simp)
  next
    case good
    then have ok: "is_ok (validate_pending_transaction X (sel_state z) (pr_transaction r) b)"
      by (simp add: record_rejected_def)
    then obtain fs s1 where a: "apply_transaction X (pr_transaction r) b (sel_state z) = (Ok fs, s1)"
      "pending_step X b (pr_transaction r) (sel_state z) = Some s1" "pool_inv s1"
      using pending_step_total [OF Cons.prems(1)] by metis
    let ?z = "\<lparr>sel_state = s1, sel_selected = sel_selected z @ [r],
      sel_hashes = insert (pr_tx_hash r) (sel_hashes z)\<rparr>"
    obtain z' still p new where n: "select_pass X b limit ?z rs = Ok (z', still, p)"
      "extends_selection X b limit ?z z' new" "mset new + mset still = mset rs"
      using Cons.IH [of ?z] a(3) tail by auto
    have "extends_selection X b limit z ?z [r]"
      using a(2) good(1) by (simp add: extends_selection_def)
    from extends_selection_trans [OF this n(2)] have "extends_selection X b limit z z' (r # new)" by simp
    moreover have "select_pass X b limit z (r # rs) = Ok (z', still, True)"
      using good(1) tail(3) ok a(1) n(1) by simp
    ultimately show ?thesis using n(3)
      by - (rule exI [of _ z'], rule exI [of _ still], rule exI [of _ True], rule exI [of _ "r # new"], simp)
  qed
qed

lemma select_passes_ok:
  assumes "pool_inv (sel_state z)" and "distinct (map pr_tx_hash rs)"
    and "pr_tx_hash ` set rs \<inter> sel_hashes z = {}"
  shows "\<exists>z' rest new. select_passes n X b limit z rs = Ok (z', rest)
    \<and> extends_selection X b limit z z' new \<and> mset new + mset rest = mset rs
    \<and> (length (sel_selected z') < limit \<and> length rs < n \<longrightarrow> list_all (record_rejected X b (sel_state z')) rest)"
  using assms
proof (induction n arbitrary: z rs)
  case 0
  then show ?case using extends_selection_refl by fastforce
next
  case (Suc n)
  show ?case
  proof (cases "length (sel_selected z) \<ge> limit \<or> rs = []")
    case True
    then show ?thesis using extends_selection_refl by fastforce
  next
    case False
    then have open_slot: "\<not> (length (sel_selected z) \<ge> limit \<or> rs = [])" .
    obtain z1 still p new where s: "select_pass X b limit z rs = Ok (z1, still, p)"
      "extends_selection X b limit z z1 new" "p \<longleftrightarrow> new \<noteq> []" "mset new + mset still = mset rs"
      "new = [] \<and> length (sel_selected z) < limit \<longrightarrow> list_all (record_rejected X b (sel_state z)) still"
      using select_pass_ok [OF Suc.prems, of X b limit] by blast
    show ?thesis
    proof (cases p)
      case False
      then have "new = []" using s(3) by simp
      then have "sel_state z1 = sel_state z" using s(2) by (simp add: extends_selection_def)
      with s \<open>new = []\<close> open_slot show ?thesis
        by - (rule exI [of _ z1], rule exI [of _ still], rule exI [of _ new], simp)
    next
      case True
      have parts: "set new \<union> set still = set rs" "length new + length still = length rs"
        using s(4) by (metis set_mset_union set_mset_mset, metis size_mset size_union)
      have "distinct (map pr_tx_hash (new @ still))"
        using Suc.prems(2) s(4) by (metis mset_append mset_eq_imp_distinct_iff mset_map)
      then have d: "distinct (map pr_tx_hash still)" "pr_tx_hash ` set new \<inter> pr_tx_hash ` set still = {}"
        by simp_all
      have "pool_inv (sel_state z1)"
        using s(2) pool.run_inv [OF Suc.prems(1)] by (auto simp: extends_selection_def)
      moreover have "pr_tx_hash ` set still \<inter> sel_hashes z1 = {}"
      proof -
        have "pr_tx_hash ` set still \<subseteq> pr_tx_hash ` set rs" using parts(1) by blast
        moreover have "sel_hashes z1 = sel_hashes z \<union> pr_tx_hash ` set new"
          using s(2) by (simp add: extends_selection_def)
        ultimately show ?thesis using d(2) Suc.prems(3) by blast
      qed
      ultimately obtain z' rest new' where r: "select_passes n X b limit z1 still = Ok (z', rest)"
        "extends_selection X b limit z1 z' new'" "mset new' + mset rest = mset still"
        "length (sel_selected z') < limit \<and> length still < n \<longrightarrow> list_all (record_rejected X b (sel_state z')) rest"
        using Suc.IH [OF _ d(1), of z1] by blast
      have "length still < length rs" using parts(2) True s(3) by (cases new) auto
      moreover have "mset (new @ new') + mset rest = mset rs" using r(3) s(4) by (simp add: add.assoc)
      ultimately show ?thesis
        using s(1) r True open_slot extends_selection_trans [OF s(2) r(2)]
        by - (rule exI [of _ z'], rule exI [of _ rest], rule exI [of _ "new @ new'"], simp)
    qed
  qed
qed

section \<open>Packages\<close>

lemma map_wf_in_set: "map_wf m \<Longrightarrow> (k, v) \<in> set m \<longleftrightarrow> map_of m k = Some v"
  by (simp add: map_wf_def strict_sorted_iff)

definition records_of :: "string \<Rightarrow> pending_record list \<Rightarrow> pending_record list" where
  "records_of a rs = filter (\<lambda>r. tx_from (pr_transaction r) = Some a) rs"

definition package_of :: "amount \<Rightarrow> pending_record list \<Rightarrow> string \<Rightarrow> (u64 \<times> u64) option" where
  "package_of b rs a =
     (if records_of a rs = [] then None
      else Some (Min (effective_priority_atomic b ` set (records_of a rs)),
                 Min (pr_received_at ` set (records_of a rs))))"

lemma package_of_snoc:
  "package_of b (rs @ [r]) a =
     (if tx_from (pr_transaction r) \<noteq> Some a then package_of b rs a
      else Some (case package_of b rs a of
          None \<Rightarrow> (effective_priority_atomic b r, pr_received_at r)
        | Some (t, o') \<Rightarrow> (min t (effective_priority_atomic b r), min o' (pr_received_at r))))"
proof -
  have snoc: "records_of a (rs @ [r])
      = records_of a rs @ (if tx_from (pr_transaction r) = Some a then [r] else [])"
    by (simp add: records_of_def)
  show ?thesis unfolding package_of_def snoc
    by (cases "records_of a rs = []") (simp_all add: min.commute)
qed

lemma sender_packages_spec:
  "map_wf (sender_packages b rs) \<and> map_of (sender_packages b rs) = package_of b rs"
proof (induction rs rule: rev_induct)
  case Nil
  then show ?case by (simp add: sender_packages_def package_of_def records_of_def fun_eq_iff)
next
  case (snoc r rs)
  have "sender_packages b (rs @ [r]) = package_insert b r (sender_packages b rs)"
    by (simp add: sender_packages_def)
  with snoc show ?case
    by (cases "tx_from (pr_transaction r)")
       (auto simp: package_insert_def Let_def package_of_snoc fun_eq_iff split: option.splits)
qed

lemma package_of_SomeD:
  assumes "package_of b rs a = Some (t, u)"
  shows "\<exists>r\<in>set rs. tx_from (pr_transaction r) = Some a \<and> effective_priority_atomic b r = t"
    and "r \<in> set rs \<Longrightarrow> tx_from (pr_transaction r) = Some a \<Longrightarrow> t \<le> effective_priority_atomic b r"
proof -
  have ne: "records_of a rs \<noteq> []" and t: "t = Min (effective_priority_atomic b ` set (records_of a rs))"
    using assms by (auto simp: package_of_def split: if_splits)
  have "t \<in> effective_priority_atomic b ` set (records_of a rs)"
    unfolding t using ne by (intro Min_in) auto
  then show "\<exists>r\<in>set rs. tx_from (pr_transaction r) = Some a \<and> effective_priority_atomic b r = t"
    by (auto simp: records_of_def)
  show "t \<le> effective_priority_atomic b r" if "r \<in> set rs" "tx_from (pr_transaction r) = Some a"
    unfolding t using that by (intro Min_le) (auto simp: records_of_def)
qed

lemma package_of_record:
  "r \<in> set rs \<Longrightarrow> tx_from (pr_transaction r) = Some a \<Longrightarrow> \<exists>t u. package_of b rs a = Some (t, u)"
  by (auto simp: package_of_def records_of_def filter_empty_conv)

lemma sanitize_total:
  assumes "chain_ok X c"
  shows "\<exists>valid dropped s. sanitize_pending_transactions_with_age X now c records max_age
      = Ok (valid, dropped, s)
    \<and> run (pending_step X (next_base_fee (last_block (c_blocks c)))) (map pr_transaction valid) (c_state c)
        = Some s
    \<and> mset valid \<subseteq># mset records \<and> distinct (map pr_tx_hash valid)
    \<and> pr_tx_hash ` set valid \<inter> mined_transaction_hashes X c = {}
    \<and> (\<forall>r\<in>set valid. max_age > 0 \<longrightarrow> saturating_sub now (pr_received_at r) \<le> max_age)
    \<and> mset (map pr_tx_hash valid) + mset dropped = mset (map pr_tx_hash records)"
proof -
  let ?b = "next_base_fee (last_block (c_blocks c))"
  obtain cs ds where f: "filter_pending_candidates X now c records max_age = (cs, ds)" by fastforce
  note ff = filter_loop_facts [OF f [unfolded filter_pending_candidates_def]]
  let ?o = "sort_pending_for_admission ?b cs"
  have o: "mset (map pr_tx_hash ?o) = mset (map pr_tx_hash cs)" by (simp add: mset_map)
  then have "distinct (map pr_tx_hash ?o)" using ff mset_eq_imp_distinct_iff by blast
  with sanitize_loop_ok [OF chain_ok_pool_inv [OF assms], of X ?b ?o] obtain valid invalid s where l:
    "sanitize_loop X ?b (c_state c) ?o = Ok (valid, invalid, s)"
    "run (pending_step X ?b) (map pr_transaction valid) (c_state c) = Some s" "mset valid \<subseteq># mset ?o"
    "mset (map pr_tx_hash valid) + mset invalid = mset (map pr_tx_hash ?o)"
    "distinct (map pr_tx_hash valid)"
    by blast
  have "sanitize_pending_transactions_with_age X now c records max_age = Ok (valid, ds @ invalid, s)"
    using f l(1) by (simp add: sanitize_pending_transactions_with_age_def Let_def)
  moreover have "mset (map pr_tx_hash valid) + mset (ds @ invalid) = mset (map pr_tx_hash records)"
    using ff l(4) o by (simp add: ac_simps)
  moreover have "mset valid \<subseteq># mset cs" using l(3) by simp
  moreover from this have "mset valid \<subseteq># mset records" using ff subset_mset.order_trans by blast
  moreover have v: "set valid \<subseteq> set cs" using set_mset_mono [OF l(3)] by simp
  moreover from v have "pr_tx_hash ` set valid \<inter> mined_transaction_hashes X c = {}" using ff by blast
  moreover from v have "\<forall>r\<in>set valid. max_age > 0 \<longrightarrow> saturating_sub now (pr_received_at r) \<le> max_age"
    using ff by blast
  ultimately show ?thesis using l(2,5)
    by - (rule exI [of _ valid], rule exI [of _ "ds @ invalid"], rule exI [of _ s], simp)
qed

lemma select_total:
  assumes "chain_ok X c" and "0 < limit"
  shows "\<exists>sel skipped s. select_pending_for_template X now c records limit = Ok (sel, skipped)
    \<and> run (pending_step X (next_base_fee (last_block (c_blocks c)))) (map pr_transaction sel) (c_state c)
        = Some s
    \<and> length sel \<le> limit \<and> distinct (map pr_tx_hash sel) \<and> set sel \<subseteq> set records
    \<and> pr_tx_hash ` set sel \<inter> mined_transaction_hashes X c = {}
    \<and> mset (map pr_tx_hash sel) + mset skipped = mset (map pr_tx_hash records)
    \<and> (length sel < limit \<and> length records < 64 \<longrightarrow>
        (\<forall>r\<in>set records. r \<notin> set sel \<and> pr_tx_hash r \<notin> mined_transaction_hashes X c
           \<and> saturating_sub now (pr_received_at r) \<le> DEFAULT_MEMPOOL_MAX_AGE_SECONDS
           \<and> (\<forall>r'\<in>set records. pr_tx_hash r' = pr_tx_hash r \<longrightarrow> r' = r) \<longrightarrow>
           record_rejected X (next_base_fee (last_block (c_blocks c))) s r))"
proof -
  let ?b = "next_base_fee (last_block (c_blocks c))" and ?a = DEFAULT_MEMPOOL_MAX_AGE_SECONDS
  obtain cs ds where f: "filter_pending_candidates X now c records ?a = (cs, ds)" by fastforce
  note ff = filter_loop_facts [OF f [unfolded filter_pending_candidates_def]]
    and fk = filter_loop_keeps [OF f [unfolded filter_pending_candidates_def]]
  let ?o = "sort_pending_by_fee_desc ?b cs" and ?z = "\<lparr>sel_state = c_state c, sel_selected = [], sel_hashes = {}\<rparr>"
  let ?n = "min (length ?o + 1) 64"
  have o: "mset (map pr_tx_hash ?o) = mset (map pr_tx_hash cs)" "length ?o = length cs"
    by (simp_all add: mset_map sort_pending_by_fee_desc_def)
  then have d: "distinct (map pr_tx_hash ?o)" using ff mset_eq_imp_distinct_iff by blast
  obtain z rest new where p: "select_passes ?n X ?b limit ?z ?o = Ok (z, rest)"
    "extends_selection X ?b limit ?z z new" "mset new + mset rest = mset ?o"
    "length (sel_selected z) < limit \<and> length ?o < ?n \<longrightarrow> list_all (record_rejected X ?b (sel_state z)) rest"
    using select_passes_ok [of ?z ?o ?n X ?b limit] chain_ok_pool_inv [OF assms(1)] d by auto
  have sel: "sel_selected z = new" "length new \<le> limit"
    "run (pending_step X ?b) (map pr_transaction new) (c_state c) = Some (sel_state z)"
    using p(2) by (auto simp: extends_selection_def)
  have parts: "set new \<union> set rest = set cs" using p(3) by (metis set_mset_mset set_mset_union set_sorted_pending(2))
  have "length cs + length ds = length records"
    using ff by (metis length_map size_mset size_union)
  then have small: "length records < 64 \<Longrightarrow> length ?o < ?n" using o(2) by auto
  have res: "select_pending_for_template X now c records limit = Ok (new, ds @ map pr_tx_hash rest)"
    using assms(2) f p(1) sel(1) by (simp add: select_pending_for_template_def Let_def)
  have hs: "mset (map pr_tx_hash new) + mset (map pr_tx_hash rest) = mset (map pr_tx_hash cs)"
    using p(3) by (metis image_mset_union mset_map sorted_pending(2))
  then have "distinct (map pr_tx_hash (new @ rest))"
    using ff by (metis map_append mset_append mset_eq_imp_distinct_iff)
  moreover have "mset (map pr_tx_hash new) + mset (ds @ map pr_tx_hash rest) = mset (map pr_tx_hash records)"
    using ff hs by (simp add: ac_simps)
  moreover have "record_rejected X ?b (sel_state z) r"
    if "length new < limit" "length records < 64" "r \<in> set records" "r \<notin> set new"
      "pr_tx_hash r \<notin> mined_transaction_hashes X c" "saturating_sub now (pr_received_at r) \<le> ?a"
      "\<forall>r'\<in>set records. pr_tx_hash r' = pr_tx_hash r \<longrightarrow> r' = r" for r
  proof -
    have "r \<in> set cs" by (rule fk) (use that in auto)
    then have "r \<in> set rest" using parts that(4) by blast
    with p(4) that(1) small [OF that(2)] sel(1) show ?thesis by (simp add: list_all_iff)
  qed
  moreover have "pr_tx_hash ` set new \<inter> mined_transaction_hashes X c = {}" using ff parts by blast
  moreover have "set cs \<subseteq> set records" using ff set_mset_mono [of "mset cs" "mset records"] by simp
  then have "set new \<subseteq> set records" using parts by blast
  ultimately show ?thesis using res sel(2,3)
    by - (rule exI [of _ new], rule exI [of _ "ds @ map pr_tx_hash rest"], rule exI [of _ "sel_state z"],
        simp)
qed

section \<open>Properties\<close>

text \<open>
  Sanitising the pending records on a reachable chain always succeeds, and the records it keeps
  can be applied one after the other, in the returned order, from the chain's ledger: each is
  validated by the state its predecessors leave. It keeps no transaction that is in the chain,
  none twice and none that is too old, and every record is either kept or reported dropped.
\<close>

theorem sanitize_keeps_applicable:
  assumes "chain_ok X c"
  shows "\<exists>valid dropped s. sanitize_pending_transactions_with_age X now c records max_age
      = Ok (valid, dropped, s)
    \<and> run (pending_step X (next_base_fee (last_block (c_blocks c)))) (map pr_transaction valid) (c_state c)
        = Some s
    \<and> set valid \<subseteq> set records \<and> distinct (map pr_tx_hash valid)
    \<and> pr_tx_hash ` set valid \<inter> mined_transaction_hashes X c = {}
    \<and> (\<forall>r\<in>set valid. max_age > 0 \<longrightarrow> saturating_sub now (pr_received_at r) \<le> max_age)
    \<and> mset (map pr_tx_hash valid) + mset dropped = mset (map pr_tx_hash records)"
proof -
  have "set valid \<subseteq> set records" if "mset valid \<subseteq># mset records" for valid
    using set_mset_mono [OF that] by simp
  with sanitize_total [OF assms, of now records max_age] show ?thesis by blast
qed

definition sample_pending :: pending_record where
  "sample_pending = \<lparr>pr_tx_hash = ''a'', pr_received_at = 0, pr_transaction = sample_spend 1 5 15\<rparr>"

lemma sample_chain_ok: "chain_ok sample_externals sample_chain"
  by (metis chain.run_inv chain_from_blocks_Ok chain_ok_new sample_chain_built)

theorem sanitize_keeps_applicable_witness:
  "chain_ok sample_externals sample_chain \<and>
   (\<exists>valid dropped s. sanitize_pending_transactions_with_age sample_externals 7200 sample_chain
      [sample_pending] 3600 = Ok (valid, dropped, s) \<and> valid = [] \<and> dropped = [''a''])"
proof -
  let ?r = "sanitize_pending_transactions_with_age sample_externals 7200 sample_chain [sample_pending] 3600"
  obtain valid dropped s where "?r = Ok (valid, dropped, s)" "set valid \<subseteq> {sample_pending}"
    "\<forall>r\<in>set valid. saturating_sub 7200 (pr_received_at r) \<le> 3600"
    "mset (map pr_tx_hash valid) + mset dropped = {#''a''#}"
    using sanitize_keeps_applicable [OF sample_chain_ok, of 7200 "[sample_pending]" 3600]
    by (auto simp: sample_pending_def)
  moreover from this(2,3) have "valid = []"
    by (cases valid) (auto simp: sample_pending_def saturating_sub_def)
  ultimately show ?thesis using sample_chain_ok by simp
qed

text \<open>
  Selecting transactions for a block template on a reachable chain always succeeds: it takes at
  most \<open>limit\<close> records, all different, that apply in the returned order from the chain's ledger,
  and reports every other record as skipped. With fewer than 64 records the selection is
  maximal: while there is room, a fresh record that was not taken is refused by the state the
  selected transactions leave.
\<close>

theorem select_pending_maximal:
  assumes "chain_ok X c" and "0 < limit"
  shows "\<exists>sel skipped s. select_pending_for_template X now c records limit = Ok (sel, skipped)
    \<and> run (pending_step X (next_base_fee (last_block (c_blocks c)))) (map pr_transaction sel) (c_state c)
        = Some s
    \<and> length sel \<le> limit \<and> distinct (map pr_tx_hash sel)
    \<and> pr_tx_hash ` set sel \<inter> mined_transaction_hashes X c = {}
    \<and> mset (map pr_tx_hash sel) + mset skipped = mset (map pr_tx_hash records)
    \<and> (length sel < limit \<and> length records < 64 \<longrightarrow>
        (\<forall>r\<in>set records. r \<notin> set sel \<and> pr_tx_hash r \<notin> mined_transaction_hashes X c
           \<and> saturating_sub now (pr_received_at r) \<le> DEFAULT_MEMPOOL_MAX_AGE_SECONDS
           \<and> (\<forall>r'\<in>set records. pr_tx_hash r' = pr_tx_hash r \<longrightarrow> r' = r) \<longrightarrow>
           record_rejected X (next_base_fee (last_block (c_blocks c))) s r))"
  using select_total [OF assms, of now records] by blast

theorem select_pending_maximal_witness:
  "chain_ok sample_externals sample_chain \<and> (0::nat) < 1
   \<and> (\<exists>sel skipped. select_pending_for_template sample_externals 0 sample_chain [sample_pending] 1
        = Ok (sel, skipped) \<and> length sel + length skipped = 1)"
proof -
  obtain sel skipped s where "select_pending_for_template sample_externals 0 sample_chain [sample_pending] 1
      = Ok (sel, skipped)" "mset (map pr_tx_hash sel) + mset skipped = mset (map pr_tx_hash [sample_pending])"
    using select_pending_maximal [OF sample_chain_ok, of 1 0 "[sample_pending]"] by auto
  moreover from this(2) have "length sel + length skipped = 1"
    by (metis One_nat_def length_Cons length_map list.size(3) size_mset size_union)
  ultimately show ?thesis using sample_chain_ok by simp
qed

text \<open>
  When the pool is full, the package to evict is one whose smallest tip is below the incoming tip
  and at most the smallest tip of every other sender; there is none exactly when no pending
  record of any sender tips less than the incoming transaction.
\<close>

theorem evicted_package_is_lowest:
  "case lowest_fee_sender_package records base_fee incoming_tip of
     Some victim \<Rightarrow> \<exists>r\<in>set records. tx_from (pr_transaction r) = Some victim
       \<and> effective_priority_atomic base_fee r < incoming_tip
       \<and> (\<forall>r'\<in>set records. tx_from (pr_transaction r') \<noteq> None \<longrightarrow>
            effective_priority_atomic base_fee r \<le> effective_priority_atomic base_fee r')
   | None \<Rightarrow> \<forall>r\<in>set records. tx_from (pr_transaction r) \<noteq> None \<longrightarrow>
            incoming_tip \<le> effective_priority_atomic base_fee r"
proof -
  let ?m = "sender_packages base_fee records"
  let ?f = "filter (\<lambda>(_, min_tip, _). min_tip < incoming_tip) ?m"
  let ?k = "\<lambda>(sender, min_tip, oldest). (min_tip, oldest, sender) :: u64 \<times> u64 \<times> string"
  have pk: "(a, t, u) \<in> set ?m \<longleftrightarrow> package_of base_fee records a = Some (t, u)" for a t u
    using sender_packages_spec [of base_fee records] map_wf_in_set [of ?m a "(t, u)"] by simp
  have below: "\<exists>u. (a, t, u) \<in> set ?f \<and> t \<le> effective_priority_atomic base_fee r"
    if prems: "r \<in> set records" "tx_from (pr_transaction r) = Some a" "t = (case package_of base_fee records a of
      Some (t', _) \<Rightarrow> t' | None \<Rightarrow> 0)" "effective_priority_atomic base_fee r < incoming_tip" for r a t
  proof -
    obtain u where u: "package_of base_fee records a = Some (t, u)"
      using package_of_record [OF prems(1,2), of base_fee] prems(3) by auto
    then have "t \<le> effective_priority_atomic base_fee r" using package_of_SomeD(2) prems(1,2) by blast
    with u prems(4) show ?thesis by (auto simp: pk)
  qed
  show ?thesis
  proof (cases "?f = []")
    case True
    then have "lowest_fee_sender_package records base_fee incoming_tip = None"
      by (simp add: lowest_fee_sender_package_def)
    moreover have "incoming_tip \<le> effective_priority_atomic base_fee r"
      if "r \<in> set records" "tx_from (pr_transaction r) \<noteq> None" for r
      using that below [of r] True by (metis list.distinct(1) list.set_cases not_le_imp_less option.exhaust)
    ultimately show ?thesis by simp
  next
    case False
    obtain v t u where m: "arg_min_list ?k ?f = (v, t, u)" by (metis prod_cases3)
    have "lowest_fee_sender_package records base_fee incoming_tip = Some v"
      using False m by (auto simp: lowest_fee_sender_package_def split: list.split)
    moreover have vin: "(v, t, u) \<in> set ?f" using arg_min_list_in [OF False, of ?k] m by simp
    moreover have least: "t \<le> t'" if "(a, t', u') \<in> set ?f" for a t' u'
    proof -
      have "?k (v, t, u) \<le> ?k (a, t', u')"
        using f_arg_min_list_f [OF False, of ?k] m Min_le [OF finite_imageI [OF List.finite_set] imageI [OF that], of ?k]
        by (simp only:)
      then show ?thesis by (auto simp: less_eq_prod_def)
    qed
    moreover obtain r where "r \<in> set records" "tx_from (pr_transaction r) = Some v"
      "effective_priority_atomic base_fee r = t"
      using package_of_SomeD(1) [of base_fee records v t u] vin by (auto simp: pk)
    moreover have "t \<le> effective_priority_atomic base_fee r'"
      if "r' \<in> set records" "tx_from (pr_transaction r') = Some a" for r' a
    proof (cases "effective_priority_atomic base_fee r' < incoming_tip")
      case True
      from below [OF that refl True] least show ?thesis by (meson order_trans)
    qed (use vin in auto)
    ultimately show ?thesis using vin by auto
  qed
qed

end
