(* ===== verification/Vireon_Storage.thy ===== *)
theory Vireon_Storage
  imports Vireon_Mempool
begin

text \<open>
  \<^verbatim>\<open>vireon-node/src/storage.rs\<close>: the block store. The two tables of the SQLite schema are ordered
  maps on their primary keys, with the constraints the schema declares; a statement inside a
  transaction changes nothing unless the transaction commits, so every operation returns the
  old database with its error. A block is stored as the value it decodes to. Opening,
  migrating and configuring the database file are not modelled. The lemmas show that what was
  appended or replaced is what is loaded, and that failed operations leave the tables alone.
\<close>

section \<open>Tables\<close>

record canonical_row =
  cr_hash :: hash
  cr_previous_hash :: hash
  cr_network_id :: string
  cr_block :: block

record orphan_row =
  or_height :: int
  or_previous_hash :: hash
  or_network_id :: string
  or_block :: block
  or_detached_at :: u64
  or_source_tip_hash :: string

text \<open>The orphan table is keyed by the hash, in hexadecimal; \<open>db_path\<close> only occurs in errors.\<close>

record database =
  db_path :: string
  db_canonical :: "(int, canonical_row) btree_map"
  db_orphaned :: "(string, orphan_row) btree_map"

definition height_to_i64 :: "u64 \<Rightarrow> int node_result" where
  "height_to_i64 height =
     rbind (reject_if (unat height \<ge> 2 ^ 63)
              (NodeInput (''block height '' @ show_word height @ '' exceeds SQLite range''))) (\<lambda>_.
     Ok (uint height))"

definition insert_canonical_block :: "externals \<Rightarrow> block \<Rightarrow> database \<Rightarrow> database node_result" where
  "insert_canonical_block X blk db =
     rbind (height_to_i64 (bh_height (b_header blk))) (\<lambda>height.
     rbind (reject_if (map_of (db_canonical db) height \<noteq> None)
              (NodeSqlite ''UNIQUE constraint failed: canonical_blocks.height'')) (\<lambda>_.
     rbind (reject_if (list_ex (\<lambda>(_, r). cr_hash r = block_hash X blk) (db_canonical db))
              (NodeSqlite ''UNIQUE constraint failed: canonical_blocks.hash'')) (\<lambda>_.
     Ok (db\<lparr>db_canonical := map_insert height
              \<lparr>cr_hash = block_hash X blk, cr_previous_hash = bh_previous_hash (b_header blk),
               cr_network_id = bh_network_id (b_header blk), cr_block = blk\<rparr> (db_canonical db)\<rparr>))))"

definition insert_orphaned_block ::
  "externals \<Rightarrow> u64 \<Rightarrow> block \<Rightarrow> string \<Rightarrow> database \<Rightarrow> database node_result" where
  "insert_orphaned_block X now blk source_tip_hash db =
     rbind (height_to_i64 (bh_height (b_header blk))) (\<lambda>height.
     let key = hash_to_hex (block_hash X blk) in
     Ok (db\<lparr>db_orphaned := map_insert key
          (case map_of (db_orphaned db) key of
             None \<Rightarrow> \<lparr>or_height = height, or_previous_hash = bh_previous_hash (b_header blk),
                      or_network_id = bh_network_id (b_header blk), or_block = blk,
                      or_detached_at = now, or_source_tip_hash = source_tip_hash\<rparr>
           | Some r \<Rightarrow> r\<lparr>or_detached_at := now, or_source_tip_hash := source_tip_hash\<rparr>)
          (db_orphaned db)\<rparr>))"

section \<open>Loading\<close>

fun verify_links :: "externals \<Rightarrow> string \<Rightarrow> nat \<Rightarrow> block list \<Rightarrow> unit node_result" where
  "verify_links X path line (previous # blk # rest) =
     (let expected_height = saturating_add (bh_height (b_header previous)) 1;
          expected_previous = hash_to_hex (block_hash X previous);
          actual_previous = hash_to_hex (bh_previous_hash (b_header blk)) in
      rbind (reject_if (bh_height (b_header blk) \<noteq> expected_height)
               (InvalidChainFile path line (''non-contiguous height: expected ''
                  @ show_word expected_height @ '', found '' @ show_word (bh_height (b_header blk))))) (\<lambda>_.
      rbind (reject_if (expected_previous \<noteq> actual_previous)
               (InvalidChainFile path line (''broken previous_hash link: expected ''
                  @ expected_previous @ '', found '' @ actual_previous))) (\<lambda>_.
      verify_links X path (line + 1) (blk # rest))))"
| "verify_links X path line _ = Ok ()"

definition verify_chain_structure :: "externals \<Rightarrow> string \<Rightarrow> block list \<Rightarrow> unit node_result" where
  "verify_chain_structure X path blocks =
     (case blocks of
        [] \<Rightarrow> Ok ()
      | b # _ \<Rightarrow>
          rbind (reject_if (bh_height (b_header b) \<noteq> 0)
                   (InvalidChainFile path 1
                      (''genesis height must be 0, found '' @ show_word (bh_height (b_header b))))) (\<lambda>_.
          verify_links X path 2 blocks))"

definition check_row :: "externals \<Rightarrow> string \<Rightarrow> int \<times> canonical_row \<Rightarrow> block node_result" where
  "check_row X path row =
     (case row of (height, r) \<Rightarrow>
        let blk = cr_block r in
        rbind (height_to_i64 (bh_height (b_header blk))) (\<lambda>block_height.
        rbind (reject_if (block_height \<noteq> height \<or> cr_hash r \<noteq> block_hash X blk
                  \<or> cr_previous_hash r \<noteq> bh_previous_hash (b_header blk)
                  \<or> cr_network_id r \<noteq> bh_network_id (b_header blk))
                 (InvalidChainDatabase path
                    (''stored columns do not match serialized block at height ''
                       @ show_nat (nat height)))) (\<lambda>_.
        Ok blk)))"

primrec check_rows :: "externals \<Rightarrow> string \<Rightarrow> (int \<times> canonical_row) list \<Rightarrow> block list node_result" where
  "check_rows X path [] = Ok []"
| "check_rows X path (row # rows) =
     rbind (check_row X path row) (\<lambda>b. rbind (check_rows X path rows) (\<lambda>bs. Ok (b # bs)))"

definition load_blocks_from_connection ::
  "externals \<Rightarrow> database \<Rightarrow> bool \<Rightarrow> block list node_result" where
  "load_blocks_from_connection X db allow_empty =
     rbind (check_rows X (db_path db) (db_canonical db)) (\<lambda>blocks.
     rbind (reject_if (blocks = [] \<and> \<not> allow_empty) (ChainNotInitialized (db_path db))) (\<lambda>_.
     rbind (verify_chain_structure X (db_path db) blocks) (\<lambda>_.
     Ok blocks)))"

definition load_blocks :: "externals \<Rightarrow> database \<Rightarrow> block list node_result" where
  "load_blocks X db = load_blocks_from_connection X db False"

section \<open>Writing\<close>

text \<open>A transaction: its database is kept only when it commits.\<close>

definition transact :: "(database \<Rightarrow> ('a \<times> database) node_result) \<Rightarrow> (database, node_error, 'a) mut" where
  "transact f db = (case f db of Inl e \<Rightarrow> (Err e, db) | Inr (a, db') \<Rightarrow> (Ok a, db'))"

definition verify_tip_extension :: "externals \<Rightarrow> block list \<Rightarrow> block \<Rightarrow> unit node_result" where
  "verify_tip_extension X blocks blk =
     (case last_block blocks of
        Some tip \<Rightarrow>
          let expected_tip = hash_to_hex (block_hash X tip);
              actual_previous = hash_to_hex (bh_previous_hash (b_header blk));
              expected_height = saturating_add (bh_height (b_header tip)) 1 in
          rbind (reject_if (expected_tip \<noteq> actual_previous)
                   (StaleChainTip expected_tip actual_previous)) (\<lambda>_.
          reject_if (bh_height (b_header blk) \<noteq> expected_height)
            (NodeInput (''block height '' @ show_word (bh_height (b_header blk))
               @ '' does not extend tip height '' @ show_word (bh_height (b_header tip))
               @ '' (expected '' @ show_word expected_height @ '')'')))
      | None \<Rightarrow>
          reject_if (bh_height (b_header blk) \<noteq> 0)
            (NodeInput (''first chain block must be height 0, got '' @ show_word (bh_height (b_header blk)))))"

definition append_with_tip_link :: "externals \<Rightarrow> block \<Rightarrow> (database, node_error, unit) mut" where
  "append_with_tip_link X blk =
     transact (\<lambda>db.
       rbind (load_blocks_from_connection X db True) (\<lambda>blocks.
       rbind (verify_tip_extension X blocks blk) (\<lambda>_.
       rbind (insert_canonical_block X blk db) (\<lambda>db'. Ok ((), db')))))"

definition append_unchecked :: "externals \<Rightarrow> block \<Rightarrow> (database, node_error, unit) mut" where
  "append_unchecked X blk =
     transact (\<lambda>db. rbind (insert_canonical_block X blk db) (\<lambda>db'. Ok ((), db')))"

definition append_validated ::
  "externals \<Rightarrow> block \<Rightarrow> (block list \<Rightarrow> block \<Rightarrow> 'r node_result) \<Rightarrow> (database, node_error, 'r) mut" where
  "append_validated X candidate validate =
     transact (\<lambda>db.
       rbind (load_blocks_from_connection X db False) (\<lambda>blocks.
       rbind (validate blocks candidate) (\<lambda>result.
       rbind (verify_tip_extension X blocks candidate) (\<lambda>_.
       rbind (insert_canonical_block X candidate db) (\<lambda>db'. Ok (result, db'))))))"

definition replace_canonical_chain ::
  "externals \<Rightarrow> u64 \<Rightarrow> block list \<Rightarrow> block list \<Rightarrow> string \<Rightarrow> database \<Rightarrow> database node_result" where
  "replace_canonical_chain X now current candidate source_tip_hash db =
     (let candidate_hashes = set (map (block_hash X) candidate) in
      rbind (try_fold (\<lambda>d b. if block_hash X b \<in> candidate_hashes then Ok d
                             else insert_orphaned_block X now b source_tip_hash d) db current) (\<lambda>db1.
      try_fold (\<lambda>d b. insert_canonical_block X b d) (db1\<lparr>db_canonical := []\<rparr>) candidate))"

definition replace_validated ::
  "externals \<Rightarrow> u64 \<Rightarrow> string \<Rightarrow> block list \<Rightarrow> (block list \<Rightarrow> block list \<Rightarrow> 'r node_result)
     \<Rightarrow> (database, node_error, 'r) mut" where
  "replace_validated X now expected_tip candidate validate =
     transact (\<lambda>db.
       rbind (load_blocks_from_connection X db False) (\<lambda>current.
       let actual_tip = (case last_block current of
                           Some b \<Rightarrow> hash_to_hex (block_hash X b) | None \<Rightarrow> ''none'') in
       rbind (reject_if (actual_tip \<noteq> expected_tip) (StaleChainTip expected_tip actual_tip)) (\<lambda>_.
       rbind (validate current candidate) (\<lambda>result.
       rbind (replace_canonical_chain X now current candidate expected_tip db) (\<lambda>db'.
       Ok (result, db'))))))"

section \<open>What a load returns\<close>

definition row_entry :: "externals \<Rightarrow> block \<Rightarrow> int \<times> canonical_row" where
  "row_entry X b = (uint (bh_height (b_header b)),
     \<lparr>cr_hash = block_hash X b, cr_previous_hash = bh_previous_hash (b_header b),
      cr_network_id = bh_network_id (b_header b), cr_block = b\<rparr>)"

definition height_stored :: "block \<Rightarrow> bool" where
  "height_stored b \<longleftrightarrow> unat (bh_height (b_header b)) < 2 ^ 63"

definition extends_block :: "externals \<Rightarrow> block \<Rightarrow> block \<Rightarrow> bool" where
  "extends_block X a b \<longleftrightarrow> bh_height (b_header b) = saturating_add (bh_height (b_header a)) 1
     \<and> hash_to_hex (block_hash X a) = hash_to_hex (bh_previous_hash (b_header b))"

definition structured :: "externals \<Rightarrow> block list \<Rightarrow> bool" where
  "structured X bs \<longleftrightarrow> (bs \<noteq> [] \<longrightarrow> bh_height (b_header (hd bs)) = 0)
     \<and> (\<forall>i. Suc i < length bs \<longrightarrow> extends_block X (bs ! i) (bs ! Suc i))"

lemma height_to_i64_Ok: "height_to_i64 h = Ok k \<longleftrightarrow> unat h < 2 ^ 63 \<and> k = uint h"
  by (auto simp: height_to_i64_def rbind_Ok)

lemma check_row_Ok: "check_row X p row = Ok b \<longleftrightarrow> row = row_entry X b \<and> height_stored b"
  by (cases row) (auto simp: check_row_def Let_def rbind_Ok height_to_i64_Ok row_entry_def height_stored_def)

lemma check_rows_Ok:
  "check_rows X p rows = Ok bs \<longleftrightarrow> rows = map (row_entry X) bs \<and> list_all height_stored bs"
proof (induction rows arbitrary: bs)
  case (Cons row rows)
  then show ?case by (cases bs) (auto simp: rbind_Ok check_row_Ok)
qed auto

lemma verify_links_Ok:
  "verify_links X p line bs = Ok () \<longleftrightarrow> (\<forall>i. Suc i < length bs \<longrightarrow> extends_block X (bs ! i) (bs ! Suc i))"
proof (induction X p line bs rule: verify_links.induct)
  case (1 X p line a b rest)
  have "(\<forall>i. Suc i < length (a # b # rest) \<longrightarrow> extends_block X ((a # b # rest) ! i) ((a # b # rest) ! Suc i))
    \<longleftrightarrow> extends_block X a b \<and>
      (\<forall>i. Suc i < length (b # rest) \<longrightarrow> extends_block X ((b # rest) ! i) ((b # rest) ! Suc i))"
    by (auto simp: nth_Cons split: nat.splits)
  with 1 show ?case by (simp add: Let_def rbind_Ok extends_block_def)
qed auto

lemma verify_chain_structure_Ok: "verify_chain_structure X p bs = Ok () \<longleftrightarrow> structured X bs"
  by (cases bs) (auto simp: verify_chain_structure_def structured_def rbind_Ok verify_links_Ok)

lemma load_Ok:
  "load_blocks_from_connection X db ae = Ok bs \<longleftrightarrow>
     db_canonical db = map (row_entry X) bs \<and> list_all height_stored bs \<and> structured X bs \<and> (bs = [] \<longrightarrow> ae)"
  by (auto simp: load_blocks_from_connection_def rbind_Ok check_rows_Ok verify_chain_structure_Ok)

section \<open>What an insert leaves\<close>

lemma structured_snoc:
  "structured X (bs @ [b]) \<longleftrightarrow> structured X bs \<and>
     (if bs = [] then bh_height (b_header b) = 0 else extends_block X (last bs) b)"
proof (cases "bs = []")
  case False
  have "(\<forall>i. Suc i < length (bs @ [b]) \<longrightarrow> extends_block X ((bs @ [b]) ! i) ((bs @ [b]) ! Suc i)) \<longleftrightarrow>
    (\<forall>i. Suc i < length bs \<longrightarrow> extends_block X (bs ! i) (bs ! Suc i)) \<and> extends_block X (last bs) b"
    using False by (auto simp: nth_append less_Suc_eq last_conv_nth not_less_eq Suc_lessI)
      (metis diff_Suc_Suc diff_zero)
  with False show ?thesis by (simp add: structured_def)
qed (simp add: structured_def)

lemma verify_tip_Ok:
  "structured X bs \<Longrightarrow> verify_tip_extension X bs b = Ok () \<longleftrightarrow> structured X (bs @ [b])"
  by (auto simp: verify_tip_extension_def structured_snoc last_block_def Let_def rbind_Ok extends_block_def)

lemma structured_height:
  assumes "structured X bs" and "list_all height_stored bs" and "i < length bs"
  shows "unat (bh_height (b_header (bs ! i))) = i"
  using assms(3)
proof (induction i)
  case 0
  then show ?case using assms(1) by (simp add: structured_def hd_conv_nth)
next
  case (Suc i)
  then have "bh_height (b_header (bs ! Suc i)) = saturating_add (bh_height (b_header (bs ! i))) 1"
    using assms(1) by (simp add: structured_def extends_block_def)
  moreover have "height_stored (bs ! i)" using assms(2) Suc.prems by (simp add: list_all_length)
  ultimately show ?case using Suc by (simp add: unat_saturating_add height_stored_def)
qed

lemma map_insert_last: "\<forall>x\<in>set m. fst x < k \<Longrightarrow> map_insert k v m = m @ [(k, v)]"
  by (induction m) auto

lemma insert_canonical_appends:
  assumes "db_canonical db = map (row_entry X) bs" and "list_all height_stored bs"
    and "structured X (bs @ [b])" and "insert_canonical_block X b db = Ok db'"
  shows "db' = db\<lparr>db_canonical := map (row_entry X) (bs @ [b])\<rparr> \<and> height_stored b"
proof -
  have ins: "height_stored b" "db' = db\<lparr>db_canonical := map_insert (fst (row_entry X b)) (snd (row_entry X b))
      (map (row_entry X) bs)\<rparr>"
    using assms(1,4) by (auto simp: insert_canonical_block_def rbind_Ok height_to_i64_Ok height_stored_def row_entry_def)
  have "list_all height_stored (bs @ [b])" using assms(2) ins(1) by simp
  note h = structured_height [OF assms(3) this]
  have "bh_height (b_header x) < bh_height (b_header b)" if x: "x \<in> set bs" for x
  proof -
    obtain i where "i < length bs" "x = bs ! i" using x by (metis in_set_conv_nth)
    with h [of i] h [of "length bs"] show ?thesis by (simp add: nth_append word_less_nat_alt)
  qed
  then have "\<forall>x\<in>set (map (row_entry X) bs). fst x < fst (row_entry X b)"
    by (auto simp: row_entry_def word_less_def)
  with ins show ?thesis by (simp add: map_insert_last)
qed

lemma insert_all_canonical:
  assumes "db_canonical db = map (row_entry X) bs" and "list_all height_stored bs"
    and "structured X (bs @ cs)" and "try_fold (\<lambda>d b. insert_canonical_block X b d) db cs = Ok db'"
  shows "db' = db\<lparr>db_canonical := map (row_entry X) (bs @ cs)\<rparr> \<and> list_all height_stored cs"
  using assms
proof (induction cs arbitrary: bs db)
  case (Cons c cs)
  then obtain db1 where d: "insert_canonical_block X c db = Ok db1"
    "try_fold (\<lambda>d b. insert_canonical_block X b d) db1 cs = Ok db'"
    by (auto simp: rbind_Ok)
  have "structured X ((bs @ [c]) @ cs)" using Cons.prems(3) by simp
  then have "structured X (bs @ [c])"
    by (auto simp: structured_def nth_append hd_append split: if_splits)
  from insert_canonical_appends [OF Cons.prems(1,2) this d(1)]
  have a: "db1 = db\<lparr>db_canonical := map (row_entry X) (bs @ [c])\<rparr>" "height_stored c" by simp_all
  from Cons.IH [of db1 "bs @ [c]"] a d(2) Cons.prems(2,3) show ?case by simp
qed auto

section \<open>Orphaned blocks\<close>

lemma insert_orphaned_Ok:
  assumes "insert_orphaned_block X now b tip db = Ok db'"
  shows "db_canonical db' = db_canonical db" and "db_path db' = db_path db"
    and "map_of (db_orphaned db') (hash_to_hex (block_hash X b)) \<noteq> None"
    and "map_of (db_orphaned db) k \<noteq> None \<Longrightarrow> map_of (db_orphaned db') k \<noteq> None"
  using assms by (auto simp: insert_orphaned_block_def Let_def rbind_Ok)

lemma orphan_fold:
  assumes "try_fold (\<lambda>d b. if P b then Ok d else insert_orphaned_block X now b tip d) db bs = Ok db'"
  shows "db_path db' = db_path db
    \<and> (\<forall>k. map_of (db_orphaned db) k \<noteq> None \<longrightarrow> map_of (db_orphaned db') k \<noteq> None)
    \<and> (\<forall>b\<in>set bs. \<not> P b \<longrightarrow> map_of (db_orphaned db') (hash_to_hex (block_hash X b)) \<noteq> None)"
  using assms
proof (induction bs arbitrary: db)
  case (Cons b bs)
  then obtain d where d: "(if P b then Ok db else insert_orphaned_block X now b tip db) = Ok d"
    "try_fold (\<lambda>d b. if P b then Ok d else insert_orphaned_block X now b tip d) d bs = Ok db'"
    by (auto simp: rbind_Ok)
  note ih = Cons.IH [OF d(2)]
  show ?case
  proof (cases "P b")
    case True
    with d(1) ih show ?thesis by simp
  next
    case False
    with d(1) have "insert_orphaned_block X now b tip db = Ok d" by simp
    from insert_orphaned_Ok [OF this] ih False show ?thesis by (metis set_ConsD)
  qed
qed auto

lemma transact_Ok: "transact f db = (Ok a, db') \<longleftrightarrow> f db = Ok (a, db')"
  by (auto simp: transact_def split: sum.splits prod.splits)

lemma transact_Err: "transact f db = (Err e, db') \<longleftrightarrow> f db = Err e \<and> db' = db"
  by (auto simp: transact_def split: sum.splits prod.splits)

lemma append_validated_Ok:
  assumes "append_validated X b validate db = (Ok r, db')"
  obtains bs where "load_blocks X db = Ok bs" "validate bs b = Ok r" "load_blocks X db' = Ok (bs @ [b])"
    "db_orphaned db' = db_orphaned db" "db_path db' = db_path db"
proof -
  obtain bs where l: "load_blocks_from_connection X db False = Ok bs" "validate bs b = Ok r"
    "verify_tip_extension X bs b = Ok ()" "insert_canonical_block X b db = Ok db'"
    using assms by (auto simp: append_validated_def transact_Ok rbind_Ok)
  note lb = l(1) [unfolded load_Ok]
  have s: "structured X (bs @ [b])" using l(3) lb by (simp add: verify_tip_Ok)
  have "db' = db\<lparr>db_canonical := map (row_entry X) (bs @ [b])\<rparr> \<and> height_stored b"
    using insert_canonical_appends [OF _ _ s l(4)] lb by blast
  with l(1,2) lb s show thesis by (intro that [of bs]) (auto simp: load_blocks_def load_Ok)
qed

lemma replace_validated_Ok:
  assumes "replace_validated X now tip candidate validate db = (Ok r, db')" and "structured X candidate"
    and "candidate \<noteq> []"
  obtains bs where "load_blocks X db = Ok bs" "validate bs candidate = Ok r"
    "map_option (\<lambda>b. hash_to_hex (block_hash X b)) (last_block bs) = Some tip"
    "load_blocks X db' = Ok candidate"
    "\<forall>b\<in>set bs. block_hash X b \<notin> block_hash X ` set candidate \<longrightarrow>
       map_of (db_orphaned db') (hash_to_hex (block_hash X b)) \<noteq> None"
proof -
  obtain bs db1 where l: "load_blocks_from_connection X db False = Ok bs" "validate bs candidate = Ok r"
    "(case last_block bs of Some b \<Rightarrow> hash_to_hex (block_hash X b) | None \<Rightarrow> ''none'') = tip"
    "try_fold (\<lambda>d b. if block_hash X b \<in> set (map (block_hash X) candidate) then Ok d
        else insert_orphaned_block X now b tip d) db bs = Ok db1"
    "try_fold (\<lambda>d b. insert_canonical_block X b d) (db1\<lparr>db_canonical := []\<rparr>) candidate = Ok db'"
    using assms(1)
    by (auto simp: replace_validated_def transact_Ok rbind_Ok Let_def replace_canonical_chain_def)
  note o = orphan_fold [OF l(4)]
  have "db' = db1\<lparr>db_canonical := map (row_entry X) candidate\<rparr> \<and> list_all height_stored candidate"
    using insert_all_canonical [OF _ _ _ l(5), of "[]"] assms(2) by simp
  moreover have "bs \<noteq> []" using l(1) by (auto simp: load_Ok)
  ultimately show thesis
    using l(1-3) o assms(2,3)
    by (intro that [of bs]) (auto simp: load_blocks_def load_Ok last_block_def split: if_splits)
qed

section \<open>Properties\<close>

text \<open>
  C36: The block store is transactional and returns what was stored: after a successful validated
  append, loading returns the blocks that were loaded before followed by the new block, which the
  caller's validation accepted on exactly those blocks; a failed append changes nothing.
\<close>

theorem append_validated_roundtrip:
  assumes "append_validated X b validate db = (res, db')"
  shows "case res of
      Inl e \<Rightarrow> db' = db
    | Inr r \<Rightarrow> \<exists>bs. load_blocks X db = Ok bs \<and> validate bs b = Ok r \<and> load_blocks X db' = Ok (bs @ [b])"
proof (cases res)
  case (Inl e)
  with assms show ?thesis by (simp add: append_validated_def transact_Err)
next
  case (Inr r)
  with assms have "append_validated X b validate db = (Ok r, db')" by simp
  then obtain bs where "load_blocks X db = Ok bs" "validate bs b = Ok r" "load_blocks X db' = Ok (bs @ [b])"
    by (rule append_validated_Ok)
  with Inr show ?thesis by auto
qed

definition sample_db :: database where
  "sample_db = \<lparr>db_path = ''chain.sqlite3'', db_canonical = [row_entry sample_externals sample_genesis],
     db_orphaned = []\<rparr>"

lemma sample_db_loads: "load_blocks sample_externals sample_db = Ok [sample_genesis]"
  by (simp add: load_blocks_def load_Ok sample_db_def structured_def height_stored_def sample_genesis_def)

theorem append_validated_roundtrip_witness:
  "append_validated sample_externals sample_genesis (\<lambda>_ _. Ok ()) sample_db
     = (Err (NodeInput ''block height 0 does not extend tip height 0 (expected 1)''), sample_db)"
proof -
  let ?r = "append_validated sample_externals sample_genesis (\<lambda>_ _. Ok ()) sample_db"
  have digits: "char_of (48::nat) = CHR ''0''" "char_of (49::nat) = CHR ''1''" by code_simp+
  have "fst ?r = Err (NodeInput ''block height 0 does not extend tip height 0 (expected 1)'')"
    using sample_db_loads
    by (simp add: append_validated_def transact_def load_blocks_def verify_tip_extension_def last_block_def
        Let_def sample_block_hash)
      (simp add: sample_genesis_def saturating_add_def checked_add_def show_nat.simps digit_char_def digits)
  with append_validated_roundtrip [of sample_externals sample_genesis "\<lambda>_ _. Ok ()" sample_db "fst ?r" "snd ?r"]
  show ?thesis by (simp add: prod_eq_iff)
qed

end
