(* ===== verification/Vireon_Config.thy ===== *)
theory Vireon_Config
  imports Vireon_Mempool
begin

text \<open>
  \<^verbatim>\<open>vireon-node/src/config.rs\<close> and the genesis part of \<^verbatim>\<open>devnet.rs\<close>: the network configuration
  with its validation, the genesis configuration, the review manifest and approval record that
  pin the genesis of a network that needs explicit permission, and the handshake check of
  \<^verbatim>\<open>p2p.rs\<close>. Files are the values they parse to; the JSON text of the review payload is a
  parameter. A computation that mines a genesis block is \<open>None\<close> when mining never ends.
\<close>

section \<open>Network configuration\<close>

record network_config =
  nc_network :: network
  nc_network_id :: string
  nc_human_name :: string
  nc_status_label :: string
  nc_block_time_seconds :: u64
  nc_difficulty :: u8
  nc_ticker :: string
  nc_address_prefix :: string
  nc_max_supply :: string
  nc_halving_interval :: u64
  nc_initial_block_reward :: string
  nc_default_rpc_port :: u16
  nc_default_p2p_port :: u16
  nc_p2p_bind_host :: string
  nc_p2p_listen_port :: "u16 option"
  nc_max_peers :: nat
  nc_seed_nodes :: "string list"
  nc_max_mempool_transactions :: nat
  nc_genesis_config_path :: string
  nc_genesis_review_human_name :: "string option"
  nc_genesis_approval_path :: "string option"
  nc_chain_magic_hex :: string
  nc_allow_mainnet_candidate :: bool

definition chain_magic_hex :: "network \<Rightarrow> string" where
  "chain_magic_hex n = hex_of_bytes (pp_chain_magic_bytes (launch_protocol_parameters n))"

definition must_be :: "bool \<Rightarrow> string \<Rightarrow> string \<Rightarrow> unit node_result" where
  "must_be ok field expected = reject_if (\<not> ok) (ConfigMismatch (field @ '' must be '' @ expected))"

definition config_validate :: "network_config \<Rightarrow> unit node_result" where
  "config_validate c =
     (let n = nc_network c; p = launch_protocol_parameters n in
      rbind (must_be (nc_network_id c = pp_network_id p) ''network_id'' (pp_network_id p)) (\<lambda>_.
      rbind (must_be (nc_human_name c = pp_network_name p) ''human_name'' (pp_network_name p)) (\<lambda>_.
      rbind (must_be (nc_status_label c = pp_status_label p) ''status_label'' (pp_status_label p)) (\<lambda>_.
      rbind (must_be (nc_block_time_seconds c = pp_block_time_seconds p) ''block_time_seconds''
               (show_word (pp_block_time_seconds p))) (\<lambda>_.
      rbind (must_be (nc_ticker c = pp_ticker p) ''ticker'' (pp_ticker p)) (\<lambda>_.
      rbind (must_be (nc_address_prefix c = pp_address_prefix p) ''address_prefix'' (pp_address_prefix p)) (\<lambda>_.
      rbind (must_be (nc_max_supply c = show_word (pp_max_supply_vire p)) ''max_supply''
               (show_word (pp_max_supply_vire p))) (\<lambda>_.
      rbind (must_be (nc_halving_interval c = pp_halving_interval_blocks p) ''halving_interval''
               (show_word (pp_halving_interval_blocks p))) (\<lambda>_.
      rbind (must_be (nc_initial_block_reward c = pp_initial_block_reward_vire p) ''initial_block_reward''
               (pp_initial_block_reward_vire p)) (\<lambda>_.
      rbind (must_be (nc_default_rpc_port c = pp_default_rpc_port p) ''default_rpc_port''
               (show_word (pp_default_rpc_port p))) (\<lambda>_.
      rbind (must_be (nc_default_p2p_port c = pp_default_p2p_port p) ''default_p2p_port''
               (show_word (pp_default_p2p_port p))) (\<lambda>_.
      rbind (reject_if (trim (nc_p2p_bind_host c) = [])
               (ConfigMismatch ''p2p_bind_host cannot be empty'')) (\<lambda>_.
      rbind (reject_if (nc_p2p_listen_port c = Some 0)
               (ConfigMismatch ''p2p_listen_port must be greater than zero'')) (\<lambda>_.
      rbind (reject_if (nc_max_peers c = 0 \<or> nc_max_peers c > 4096)
               (ConfigMismatch ''max_peers must be between 1 and 4096'')) (\<lambda>_.
      rbind (reject_if (list_ex (\<lambda>seed. trim seed = []) (nc_seed_nodes c))
               (ConfigMismatch ''seed_nodes cannot contain empty entries'')) (\<lambda>_.
      rbind (reject_if (nc_max_mempool_transactions c = 0)
               (ConfigMismatch ''max_mempool_transactions must be greater than zero'')) (\<lambda>_.
      rbind (must_be (nc_genesis_config_path c = genesis_config_path n) ''genesis_config_path''
               (genesis_config_path n)) (\<lambda>_.
      rbind (reject_if (case nc_genesis_review_human_name c of None \<Rightarrow> False | Some v \<Rightarrow> trim v = [])
               (ConfigMismatch ''genesis_review_human_name cannot be empty when provided'')) (\<lambda>_.
      rbind (reject_if (case nc_genesis_approval_path c of None \<Rightarrow> False | Some v \<Rightarrow> trim v = [])
               (ConfigMismatch ''genesis_approval_path cannot be empty when provided'')) (\<lambda>_.
      rbind (must_be (nc_chain_magic_hex c = chain_magic_hex n) ''chain_magic_hex'' (chain_magic_hex n)) (\<lambda>_.
      rbind (reject_if (requires_explicit_allow n \<and> \<not> nc_allow_mainnet_candidate c)
               (ConfigMismatch ''mainnet candidate requires allow_mainnet_candidate = true'')) (\<lambda>_.
      rbind (reject_if (requires_explicit_allow n \<and> nc_genesis_approval_path c = None)
               (ConfigMismatch ''mainnet candidate requires genesis_approval_path'')) (\<lambda>_.
      rbind (reject_if (\<not> allows_low_difficulty_defaults n \<and> nc_difficulty c \<le> 8)
               (ConfigMismatch ''non-devnet networks must not use low difficulty defaults'')) (\<lambda>_.
      reject_if (nc_difficulty c < minimum_difficulty_leading_zero_bits n
                 \<or> nc_difficulty c > maximum_difficulty_leading_zero_bits n)
        (ConfigMismatch (''difficulty_leading_zero_bits must stay between ''
           @ show_word (minimum_difficulty_leading_zero_bits n) @ '' and ''
           @ show_word (maximum_difficulty_leading_zero_bits n) @ '' for '' @ network_id n))
      ))))))))))))))))))))))))"

definition load_network_config :: "network_config \<Rightarrow> network_config node_result" where
  "load_network_config parsed = rbind (config_validate parsed) (\<lambda>_. Ok parsed)"

definition p2p_listen_port :: "network_config \<Rightarrow> u16" where
  "p2p_listen_port c = (case nc_p2p_listen_port c of Some p \<Rightarrow> p | None \<Rightarrow> nc_default_p2p_port c)"

definition genesis_review_human_name :: "network_config \<Rightarrow> string" where
  "genesis_review_human_name c =
     (case nc_genesis_review_human_name c of Some v \<Rightarrow> v | None \<Rightarrow> nc_human_name c)"

record p2p_handshake =
  hs_network_id :: string
  hs_chain_magic_hex :: string
  hs_p2p_port :: u16

definition validate_p2p_handshake :: "network_config \<Rightarrow> p2p_handshake \<Rightarrow> unit node_result" where
  "validate_p2p_handshake c remote =
     rbind (reject_if (hs_network_id remote \<noteq> nc_network_id c)
              (NetworkMismatch (nc_network_id c) (hs_network_id remote))) (\<lambda>_.
     reject_if (hs_chain_magic_hex remote \<noteq> nc_chain_magic_hex c)
       (ChainMagicMismatch (nc_chain_magic_hex c) (hs_chain_magic_hex remote)))"

section \<open>Genesis configuration and approval\<close>

record genesis_config =
  gc_network :: network
  gc_network_id :: string
  gc_human_name :: string
  gc_status_label :: string
  gc_address_prefix :: string
  gc_timestamp :: u64
  gc_difficulty :: u8
  gc_recipient_strategy :: string
  gc_recipient_address :: "string option"

record genesis_review_payload =
  rp_review_standard_id :: string
  rp_network_id :: string
  rp_human_name :: string
  rp_status_label :: string
  rp_address_prefix :: string
  rp_block_time_seconds :: u64
  rp_difficulty :: u8
  rp_chain_magic_hex :: string
  rp_genesis_timestamp :: u64
  rp_recipient_strategy :: string
  rp_recipient_address :: "string option"
  rp_resolved_recipient_address :: string
  rp_deterministic_genesis_hash :: string

text \<open>The manifest has the fields of the payload and its hash.\<close>

record genesis_review_manifest = genesis_review_payload +
  rm_review_hash :: string

record genesis_approval_record =
  ga_approval_standard_id :: string
  ga_review_standard_id :: string
  ga_network_id :: string
  ga_human_name :: string
  ga_status_label :: string
  ga_deterministic_genesis_hash :: string
  ga_approved_review_hash :: string
  ga_approved_by :: string
  ga_approval_notes :: "string option"
  ga_approved_at :: u64

definition GENESIS_REVIEW_STANDARD_ID :: string where
  "GENESIS_REVIEW_STANDARD_ID = ''veiron-genesis-review-v1''"
definition GENESIS_APPROVAL_STANDARD_ID :: string where
  "GENESIS_APPROVAL_STANDARD_ID = ''veiron-genesis-approval-v1''"

text \<open>The files a node reads: the parsed configuration files and the outcome of reading the approval.\<close>

record node_files =
  nf_config :: network_config
  nf_genesis :: genesis_config
  nf_approval :: "genesis_approval_record node_result"

definition genesis_validate :: "genesis_config \<Rightarrow> unit node_result" where
  "genesis_validate g =
     (let n = gc_network g in
      rbind (reject_if (gc_network_id g \<noteq> network_id n)
               (ConfigMismatch (''genesis network_id must be '' @ network_id n))) (\<lambda>_.
      rbind (reject_if (gc_human_name g \<noteq> human_name n)
               (ConfigMismatch (''genesis human_name must be '' @ human_name n))) (\<lambda>_.
      rbind (reject_if (gc_status_label g \<noteq> status_label n)
               (ConfigMismatch (''genesis status_label must be '' @ status_label n))) (\<lambda>_.
      rbind (reject_if (gc_address_prefix g \<noteq> address_prefix n)
               (ConfigMismatch (''genesis address_prefix must be '' @ address_prefix n))) (\<lambda>_.
      reject_if (trim (gc_recipient_strategy g) = [])
        (ConfigMismatch ''genesis recipient_strategy cannot be empty''))))))"

definition load_genesis_config :: "genesis_config \<Rightarrow> genesis_config node_result" where
  "load_genesis_config parsed = rbind (genesis_validate parsed) (\<lambda>_. Ok parsed)"

definition load_matching_genesis_inputs :: "node_files \<Rightarrow> (network_config \<times> genesis_config) node_result" where
  "load_matching_genesis_inputs files =
     rbind (load_network_config (nf_config files)) (\<lambda>c.
     rbind (load_genesis_config (nf_genesis files)) (\<lambda>g.
     rbind (reject_if (gc_network g \<noteq> nc_network c)
              (ConfigMismatch (''genesis network '' @ network_id (gc_network g)
                 @ '' does not match node network '' @ network_id (nc_network c)))) (\<lambda>_.
     rbind (reject_if (gc_difficulty g \<noteq> nc_difficulty c)
              (ConfigMismatch ''genesis difficulty must match node difficulty'')) (\<lambda>_.
     Ok (c, g)))))"

definition default_miner_address :: "externals \<Rightarrow> network \<Rightarrow> string" where
  "default_miner_address X n =
     address_to_string X (address_from_public_key
       (private_key_public_key X (PrivateKey (replicate 32 7))) n)"

definition resolve_genesis_recipient :: "externals \<Rightarrow> network_config \<Rightarrow> genesis_config \<Rightarrow> string node_result" where
  "resolve_genesis_recipient X c g =
     (if gc_recipient_strategy g = ''default_miner_address''
      then Ok (default_miner_address X (nc_network c))
      else if gc_recipient_strategy g = ''fixed_address''
      then rbind (ok_or (gc_recipient_address g) (ConfigMismatch ''recipient_address is required'')) (\<lambda>a.
           rbind (map_err (\<lambda>e. NodeInput (error_display e)) (address_parse X a)) (\<lambda>parsed.
           rbind (reject_if (addr_network parsed \<noteq> nc_network c)
                    (NetworkMismatch (network_id (nc_network c)) (network_id (addr_network parsed)))) (\<lambda>_.
           Ok a)))
      else Err (ConfigMismatch (''unsupported genesis recipient_strategy '' @ gc_recipient_strategy g)))"

definition genesis_review_manifest ::
  "externals \<Rightarrow> int \<Rightarrow> (genesis_review_payload \<Rightarrow> bytes) \<Rightarrow> node_files
     \<Rightarrow> genesis_review_manifest node_result option" where
  "genesis_review_manifest X threads json files =
     (case rbind (load_matching_genesis_inputs files) (\<lambda>(c, g).
           rbind (resolve_genesis_recipient X c g) (\<lambda>recipient. Ok (c, g, recipient))) of
        Inl e \<Rightarrow> Some (Err e)
      | Inr (c, g, recipient) \<Rightarrow>
          map_option (\<lambda>r. rbind (map_err NodeCore r) (\<lambda>genesis.
            let p = \<lparr>rp_review_standard_id = GENESIS_REVIEW_STANDARD_ID,
                     rp_network_id = nc_network_id c, rp_human_name = genesis_review_human_name c,
                     rp_status_label = nc_status_label c, rp_address_prefix = nc_address_prefix c,
                     rp_block_time_seconds = nc_block_time_seconds c, rp_difficulty = gc_difficulty g,
                     rp_chain_magic_hex = nc_chain_magic_hex c, rp_genesis_timestamp = gc_timestamp g,
                     rp_recipient_strategy = gc_recipient_strategy g,
                     rp_recipient_address = gc_recipient_address g,
                     rp_resolved_recipient_address = recipient,
                     rp_deterministic_genesis_hash = hash_to_hex (block_hash X genesis)\<rparr> in
            Ok (genesis_review_payload.extend p
                  (genesis_review_manifest.fields (hash_to_hex (blake3_hash X (json p)))))))
            (genesis_with_timestamp_for_network X threads (nc_network c) recipient
               (gc_timestamp g) (gc_difficulty g)))"

definition genesis_approval_output_path :: "network_config \<Rightarrow> string node_result" where
  "genesis_approval_output_path c =
     ok_or (nc_genesis_approval_path c)
       (ConfigMismatch ''mainnet candidate requires genesis_approval_path'')"

definition valid_canonical_hash :: "string \<Rightarrow> bool" where
  "valid_canonical_hash v \<longleftrightarrow> length v = 64
     \<and> list_all (\<lambda>c. (48 \<le> char_code c \<and> char_code c \<le> 57) \<or> (97 \<le> char_code c \<and> char_code c \<le> 102)) v"

definition validate_pinned_genesis_approval ::
  "network_config \<Rightarrow> genesis_approval_record \<Rightarrow> unit node_result" where
  "validate_pinned_genesis_approval c a =
     rbind (reject_if (ga_approval_standard_id a \<noteq> GENESIS_APPROVAL_STANDARD_ID)
              (ConfigMismatch (''genesis approval standard must be '' @ GENESIS_APPROVAL_STANDARD_ID))) (\<lambda>_.
     rbind (reject_if (ga_review_standard_id a \<noteq> GENESIS_REVIEW_STANDARD_ID)
              (ConfigMismatch (''genesis approval review standard must be '' @ GENESIS_REVIEW_STANDARD_ID))) (\<lambda>_.
     rbind (reject_if (ga_network_id a \<noteq> nc_network_id c)
              (NetworkMismatch (nc_network_id c) (ga_network_id a))) (\<lambda>_.
     rbind (reject_if (ga_human_name a \<noteq> genesis_review_human_name c \<or> ga_status_label a \<noteq> nc_status_label c)
              (ConfigMismatch ''genesis approval metadata does not match the active network config'')) (\<lambda>_.
     rbind (reject_if (\<not> valid_canonical_hash (ga_deterministic_genesis_hash a)
                       \<or> \<not> valid_canonical_hash (ga_approved_review_hash a))
              (ConfigMismatch ''genesis approval contains an invalid canonical hash'')) (\<lambda>_.
     reject_if (trim (ga_approved_by a) = [])
       (ConfigMismatch ''genesis approval approved_by cannot be empty''))))))"

definition validate_genesis_approval_record ::
  "genesis_review_manifest \<Rightarrow> genesis_approval_record \<Rightarrow> unit node_result" where
  "validate_genesis_approval_record m a =
     rbind (reject_if (ga_approval_standard_id a \<noteq> GENESIS_APPROVAL_STANDARD_ID)
              (ConfigMismatch (''genesis approval standard must be '' @ GENESIS_APPROVAL_STANDARD_ID))) (\<lambda>_.
     rbind (reject_if (ga_review_standard_id a \<noteq> rp_review_standard_id m)
              (ConfigMismatch (''genesis approval review standard must be '' @ rp_review_standard_id m))) (\<lambda>_.
     rbind (reject_if (ga_network_id a \<noteq> rp_network_id m)
              (NetworkMismatch (rp_network_id m) (ga_network_id a))) (\<lambda>_.
     rbind (reject_if (ga_deterministic_genesis_hash a \<noteq> rp_deterministic_genesis_hash m)
              (ConfigMismatch (''approved genesis hash mismatch: expected '' @ rp_deterministic_genesis_hash m
                 @ '', got '' @ ga_deterministic_genesis_hash a))) (\<lambda>_.
     rbind (reject_if (ga_approved_review_hash a \<noteq> rm_review_hash m)
              (ConfigMismatch (''approved genesis review hash mismatch: expected '' @ rm_review_hash m
                 @ '', got '' @ ga_approved_review_hash a))) (\<lambda>_.
     reject_if (trim (ga_approved_by a) = [])
       (ConfigMismatch ''genesis approval approved_by cannot be empty''))))))"

definition verified_mainnet_genesis_manifest ::
  "externals \<Rightarrow> int \<Rightarrow> (genesis_review_payload \<Rightarrow> bytes) \<Rightarrow> node_files
     \<Rightarrow> (genesis_review_manifest \<times> genesis_approval_record \<times> string) option node_result option" where
  "verified_mainnet_genesis_manifest X threads json files =
     (case load_network_config (nf_config files) of
        Inl e \<Rightarrow> Some (Err e)
      | Inr c \<Rightarrow>
          if \<not> requires_explicit_allow (nc_network c) then Some (Ok None)
          else map_option (\<lambda>r.
            rbind r (\<lambda>m.
            rbind (genesis_approval_output_path c) (\<lambda>path.
            rbind (nf_approval files) (\<lambda>a.
            rbind (validate_genesis_approval_record m a) (\<lambda>_.
            Ok (Some (m, a, path)))))))
            (genesis_review_manifest X threads json files))"

text \<open>
  The branch of \<open>verify_existing_genesis\<close> for networks that require explicit permission, the
  only one \<open>build_validated_chain\<close> reaches.
\<close>

definition verify_pinned_genesis :: "externals \<Rightarrow> node_files \<Rightarrow> block list \<Rightarrow> unit node_result" where
  "verify_pinned_genesis X files blocks =
     rbind (ok_or (first_block blocks) (NodeInput ''expected genesis block to exist'')) (\<lambda>genesis.
     let actual_hex = hash_to_hex (block_hash X genesis) in
     rbind (load_matching_genesis_inputs files) (\<lambda>(c, g).
     rbind (genesis_approval_output_path c) (\<lambda>_.
     rbind (nf_approval files) (\<lambda>a.
     rbind (validate_pinned_genesis_approval c a) (\<lambda>_.
     rbind (resolve_genesis_recipient X c g) (\<lambda>recipient.
     let coinbase_matches = (case b_transactions genesis of
            [] \<Rightarrow> False | t # _ \<Rightarrow> is_coinbase t \<and> tx_to t = recipient);
         h = b_header genesis in
     rbind (reject_if (bh_height h \<noteq> 0 \<or> bh_network_id h \<noteq> nc_network_id c
                \<or> bh_timestamp h \<noteq> gc_timestamp g \<or> bh_difficulty h \<noteq> gc_difficulty g
                \<or> \<not> coinbase_matches)
              (ConfigMismatch ''stored genesis fields do not match the active pinned inputs'')) (\<lambda>_.
     let expected_hex = map ascii_lower (trim (ga_deterministic_genesis_hash a)) in
     reject_if (actual_hex \<noteq> expected_hex)
       (ConfigMismatch (''genesis hash mismatch vs approval: expected '' @ expected_hex
          @ '', got '' @ actual_hex)))))))))"

section \<open>Properties\<close>

lemma must_be_Ok [simp]: "must_be ok field expected = Ok u \<longleftrightarrow> ok"
  by (simp add: must_be_def)

lemma config_validate_network:
  assumes "config_validate c = Ok ()"
  shows "nc_network_id c = network_id (nc_network c)" and "nc_chain_magic_hex c = chain_magic_hex (nc_network c)"
    and "minimum_difficulty_leading_zero_bits (nc_network c) \<le> nc_difficulty c"
    and "nc_difficulty c \<le> maximum_difficulty_leading_zero_bits (nc_network c)"
    and "0 < nc_max_mempool_transactions c"
    and "requires_explicit_allow (nc_network c) \<Longrightarrow> nc_allow_mainnet_candidate c \<and> nc_genesis_approval_path c \<noteq> None"
  using assms by (auto simp: config_validate_def Let_def rbind_Ok launch_protocol_parameters_def not_less)

definition handshake_of :: "network_config \<Rightarrow> p2p_handshake" where
  "handshake_of c = \<lparr>hs_network_id = nc_network_id c, hs_chain_magic_hex = nc_chain_magic_hex c, hs_p2p_port = 0\<rparr>"

text \<open>
  Networks are isolated: a node with a valid configuration accepts the handshake of another node
  with a valid configuration exactly when both are configured for the same network.
\<close>

theorem handshake_isolates_networks:
  assumes "config_validate a = Ok ()" and "config_validate b = Ok ()"
  shows "validate_p2p_handshake a (handshake_of b) = Ok () \<longleftrightarrow> nc_network a = nc_network b"
proof -
  note ids = config_validate_network(1,2) [OF assms(1)] config_validate_network(1,2) [OF assms(2)]
  have "network_id (nc_network b) = network_id (nc_network a) \<longleftrightarrow> nc_network a = nc_network b"
    using network_id_inj [of "nc_network a" "nc_network b"] by auto
  then show ?thesis
    by (auto simp: validate_p2p_handshake_def handshake_of_def rbind_Ok ids)
qed

definition sample_config :: network_config where
  "sample_config =
     \<lparr>nc_network = Devnet, nc_network_id = network_id Devnet, nc_human_name = human_name Devnet,
      nc_status_label = status_label Devnet, nc_block_time_seconds = 60, nc_difficulty = 8,
      nc_ticker = ''VIRE'', nc_address_prefix = address_prefix Devnet, nc_max_supply = ''60000000'',
      nc_halving_interval = 1576800, nc_initial_block_reward = ''19.02587519'',
      nc_default_rpc_port = default_rpc_port Devnet, nc_default_p2p_port = default_p2p_port Devnet,
      nc_p2p_bind_host = ''127.0.0.1'', nc_p2p_listen_port = None, nc_max_peers = 64, nc_seed_nodes = [],
      nc_max_mempool_transactions = 1024, nc_genesis_config_path = genesis_config_path Devnet,
      nc_genesis_review_human_name = None, nc_genesis_approval_path = None,
      nc_chain_magic_hex = chain_magic_hex Devnet, nc_allow_mainnet_candidate = False\<rparr>"

lemma sample_config_valid: "config_validate sample_config = Ok ()"
proof -
  have "is_ok (config_validate sample_config)" by code_simp
  then show ?thesis by (auto simp: is_ok_iff)
qed

theorem handshake_isolates_networks_witness:
  "validate_p2p_handshake sample_config (handshake_of sample_config) = Ok ()"
  using handshake_isolates_networks [OF sample_config_valid sample_config_valid] by simp

text \<open>
  The genesis of a network that requires permission is pinned: a stored chain passes the check
  only if its first block has exactly the hash of the approval record, the configured timestamp
  and difficulty, and a coinbase that pays the configured recipient.
\<close>

theorem pinned_genesis_exact:
  assumes "verify_pinned_genesis X files blocks = Ok ()"
  shows "\<exists>genesis rest a coinbase txs. blocks = genesis # rest \<and> nf_approval files = Ok a
    \<and> hash_to_hex (block_hash X genesis) = ga_deterministic_genesis_hash a
    \<and> ga_network_id a = nc_network_id (nf_config files)
    \<and> bh_timestamp (b_header genesis) = gc_timestamp (nf_genesis files)
    \<and> bh_difficulty (b_header genesis) = nc_difficulty (nf_config files)
    \<and> b_transactions genesis = coinbase # txs \<and> is_coinbase coinbase
    \<and> resolve_genesis_recipient X (nf_config files) (nf_genesis files) = Ok (tx_to coinbase)"
proof -
  obtain genesis c g path a recipient where v: "first_block blocks = Some genesis"
    "load_matching_genesis_inputs files = Ok (c, g)" "nf_approval files = Ok a"
    "validate_pinned_genesis_approval c a = Ok ()" "resolve_genesis_recipient X c g = Ok recipient"
    "bh_timestamp (b_header genesis) = gc_timestamp g" "bh_difficulty (b_header genesis) = gc_difficulty g"
    "case b_transactions genesis of [] \<Rightarrow> False | t # _ \<Rightarrow> is_coinbase t \<and> tx_to t = recipient"
    "hash_to_hex (block_hash X genesis) = map ascii_lower (trim (ga_deterministic_genesis_hash a))"
    using assms by (auto simp: verify_pinned_genesis_def rbind_Ok Let_def)
  have cg: "c = nf_config files" "g = nf_genesis files" "gc_difficulty g = nc_difficulty c"
    using v(2) by (auto simp: load_matching_genesis_inputs_def load_network_config_def
        load_genesis_config_def rbind_Ok)
  have n: "ga_network_id a = nc_network_id c" "valid_canonical_hash (ga_deterministic_genesis_hash a)"
    using v(4) by (auto simp: validate_pinned_genesis_approval_def rbind_Ok)
  have ch: "\<not> is_ws x \<and> ascii_lower x = x" if "x \<in> set (ga_deterministic_genesis_hash a)" for x
    using n(2) that by (fastforce simp: valid_canonical_hash_def list_all_iff is_ws_def ascii_lower_def)
  have "map ascii_lower (trim (ga_deterministic_genesis_hash a)) = ga_deterministic_genesis_hash a"
    using ch by (subst trim_id) (auto intro: map_idI)
  with v cg n(1) show ?thesis
    by (cases blocks; cases "b_transactions genesis") (auto simp: first_block_def)
qed

definition pinned_config :: network_config where
  "pinned_config =
     (let n = MainnetCandidate; p = launch_protocol_parameters n in
      sample_config\<lparr>nc_network := n, nc_network_id := network_id n, nc_human_name := human_name n,
        nc_status_label := status_label n, nc_difficulty := minimum_difficulty_leading_zero_bits n,
        nc_address_prefix := address_prefix n, nc_default_rpc_port := default_rpc_port n,
        nc_default_p2p_port := default_p2p_port n, nc_genesis_config_path := genesis_config_path n,
        nc_genesis_approval_path := Some ''approval.json'', nc_chain_magic_hex := chain_magic_hex n,
        nc_allow_mainnet_candidate := True\<rparr>)"

definition pinned_files :: node_files where
  "pinned_files =
     (let n = MainnetCandidate in
      \<lparr>nf_config = pinned_config,
       nf_genesis = \<lparr>gc_network = n, gc_network_id = network_id n, gc_human_name = human_name n,
         gc_status_label = status_label n, gc_address_prefix = address_prefix n, gc_timestamp = 5,
         gc_difficulty = minimum_difficulty_leading_zero_bits n,
         gc_recipient_strategy = ''default_miner_address'', gc_recipient_address = None\<rparr>,
       nf_approval = Ok \<lparr>ga_approval_standard_id = GENESIS_APPROVAL_STANDARD_ID,
         ga_review_standard_id = GENESIS_REVIEW_STANDARD_ID, ga_network_id = network_id n,
         ga_human_name = human_name n, ga_status_label = status_label n,
         ga_deterministic_genesis_hash = replicate 64 (CHR ''0''),
         ga_approved_review_hash = replicate 64 (CHR ''a''), ga_approved_by = ''council'',
         ga_approval_notes = None, ga_approved_at = 1\<rparr>\<rparr>)"

definition pinned_genesis :: block where
  "pinned_genesis = sample_genesis\<lparr>
     b_header := (b_header sample_genesis)\<lparr>bh_network_id := network_id MainnetCandidate, bh_timestamp := 5,
       bh_difficulty := minimum_difficulty_leading_zero_bits MainnetCandidate\<rparr>,
     b_transactions := [sample_coinbase\<lparr>tx_to := default_miner_address sample_externals MainnetCandidate\<rparr>]\<rparr>"

lemma pinned_genesis_passes: "verify_pinned_genesis sample_externals pinned_files [pinned_genesis] = Ok ()"
proof -
  have "is_ok (config_validate pinned_config)" by code_simp
  then have c: "config_validate pinned_config = Ok ()" by (auto simp: is_ok_iff)
  have h: "hash_to_hex hash_zero = replicate 64 (CHR ''0'')"
    "map ascii_lower (trim (replicate 64 (CHR ''0''))) = replicate 64 (CHR ''0'')"
    "valid_canonical_hash (replicate 64 (CHR ''0''))" "valid_canonical_hash (replicate 64 (CHR ''a''))"
    "trim ''council'' \<noteq> []"
    by code_simp+
  have "genesis_validate (nf_genesis pinned_files) = Ok ()"
    by (simp add: genesis_validate_def pinned_files_def Let_def trim_def is_ws_def)
  with c have m: "load_matching_genesis_inputs pinned_files = Ok (pinned_config, nf_genesis pinned_files)"
    by (simp add: load_matching_genesis_inputs_def load_network_config_def load_genesis_config_def pinned_files_def Let_def)
      (simp add: pinned_config_def Let_def)
  obtain a where a: "nf_approval pinned_files = Ok a" "ga_deterministic_genesis_hash a = replicate 64 (CHR ''0'')"
    "validate_pinned_genesis_approval pinned_config a = Ok ()"
    by (simp add: pinned_files_def Let_def validate_pinned_genesis_approval_def pinned_config_def
        genesis_review_human_name_def sample_config_def h)
  have "resolve_genesis_recipient sample_externals pinned_config (nf_genesis pinned_files)
      = Ok (default_miner_address sample_externals MainnetCandidate)"
    by (simp add: resolve_genesis_recipient_def pinned_files_def Let_def pinned_config_def)
  moreover have "genesis_approval_output_path pinned_config = Ok ''approval.json''"
    by (simp add: genesis_approval_output_path_def pinned_config_def Let_def)
  moreover have "bh_height (b_header pinned_genesis) = 0"
    "bh_network_id (b_header pinned_genesis) = nc_network_id pinned_config"
    "bh_timestamp (b_header pinned_genesis) = gc_timestamp (nf_genesis pinned_files)"
    "bh_difficulty (b_header pinned_genesis) = gc_difficulty (nf_genesis pinned_files)"
    "b_transactions pinned_genesis = [sample_coinbase\<lparr>tx_to := default_miner_address sample_externals MainnetCandidate\<rparr>]"
    by (simp_all add: pinned_genesis_def pinned_config_def pinned_files_def Let_def sample_genesis_def)
  moreover have "bh_nonce (b_header pinned_genesis) = 0" by (simp add: pinned_genesis_def)
  moreover have "is_coinbase (sample_coinbase\<lparr>tx_to := r\<rparr>)" for r
    by (simp add: is_coinbase_def sample_coinbase_def)
  ultimately show ?thesis
    using a m by (simp add: verify_pinned_genesis_def first_block_def Let_def sample_block_hash h)
qed

theorem pinned_genesis_exact_witness:
  "verify_pinned_genesis sample_externals pinned_files [pinned_genesis] = Ok ()
   \<and> hash_to_hex (block_hash sample_externals pinned_genesis) = replicate 64 (CHR ''0'')"
  using pinned_genesis_exact [OF pinned_genesis_passes] pinned_genesis_passes by (auto simp: pinned_files_def Let_def)

end
