(* ===== verification/Vireon_Node.thy ===== *)
theory Vireon_Node
  imports Vireon_Storage Vireon_Config
begin

text \<open>
  The state-changing operations of \<^verbatim>\<open>vireon-node/src/devnet.rs\<close>: loading and validating the
  stored chain, submitting a transaction to the pool, building a block template, submitting a
  mined block and adopting a heavier chain. The state of a node is its database and the
  records of its pending file. Readings of the clock are arguments: \<open>clk i\<close> is the reading
  when block \<open>i\<close> of a chain is appended, \<open>t i\<close> are later readings of one call. The lemmas
  show what an accepted transaction leaves in the pool, that a template's transactions pass
  the ledger, and what the stored chain is after a block or a reorganisation.
\<close>

section \<open>State\<close>

record node_state =
  nd_db :: database
  nd_pending :: "pending_record list"

definition MAX_BLOCK_TEMPLATE_TRANSACTIONS :: nat where "MAX_BLOCK_TEMPLATE_TRANSACTIONS = 10000"
definition LOCAL_OPERATOR_ROOT :: string where "LOCAL_OPERATOR_ROOT = ''.vireon-local''"

text \<open>A path: its components and its text.\<close>

record data_path =
  dp_components :: "string list"
  dp_display :: string

definition ensure_network_storage_path :: "network \<Rightarrow> data_path \<Rightarrow> unit node_result" where
  "ensure_network_storage_path n path =
     reject_if (\<not> list_ex (\<lambda>c. c = default_data_root n \<or> c = LOCAL_OPERATOR_ROOT) (dp_components path))
       (InvalidDataPath (network_id n) (default_data_root n @ '' or '' @ LOCAL_OPERATOR_ROOT)
          (dp_display path))"

definition prototype_mode :: "network \<Rightarrow> string" where
  "prototype_mode n = status_label n @ '' / Prototype''"

section \<open>Loading the chain\<close>

definition clocked :: "(nat \<Rightarrow> u64) \<Rightarrow> block list \<Rightarrow> (u64 \<times> block) list" where
  "clocked clk bs = zip (map clk [0..<length bs]) bs"

definition build_validated_chain ::
  "externals \<Rightarrow> (nat \<Rightarrow> u64) \<Rightarrow> node_files \<Rightarrow> network_config \<Rightarrow> block list \<Rightarrow> chain node_result" where
  "build_validated_chain X clk files config blocks =
     rbind (if requires_explicit_allow (nc_network config) then verify_pinned_genesis X files blocks
            else Ok ()) (\<lambda>_.
     map_err NodeCore (chain_from_blocks X (nc_network config) (clocked clk blocks)))"

definition load_chain_only :: "externals \<Rightarrow> (nat \<Rightarrow> u64) \<Rightarrow> database \<Rightarrow> chain node_result" where
  "load_chain_only X clk db =
     rbind (load_blocks X db) (\<lambda>blocks.
     rbind (ok_or (first_block blocks) (ChainNotInitialized (db_path db))) (\<lambda>b.
     rbind (map_err NodeCore (block_network b)) (\<lambda>n.
     map_err NodeCore (chain_from_blocks X n (clocked clk blocks)))))"

text \<open>On a network that needs explicit permission the manifest check mines the genesis block again.\<close>

definition load_validated_chain ::
  "externals \<Rightarrow> int \<Rightarrow> (genesis_review_payload \<Rightarrow> bytes) \<Rightarrow> (nat \<Rightarrow> u64) \<Rightarrow> node_files \<Rightarrow> data_path
     \<Rightarrow> database \<Rightarrow> (network_config \<times> block list \<times> chain) node_result option" where
  "load_validated_chain X threads json clk files path db =
     (case rbind (load_network_config (nf_config files)) (\<lambda>c.
           rbind (ensure_network_storage_path (nc_network c) path) (\<lambda>_. Ok c)) of
        Inl e \<Rightarrow> Some (Err e)
      | Inr c \<Rightarrow>
          map_option (\<lambda>r.
            rbind r (\<lambda>_.
            rbind (load_blocks X db) (\<lambda>blocks.
            rbind (build_validated_chain X clk files c blocks) (\<lambda>ch.
            Ok (c, blocks, ch)))))
            (if requires_explicit_allow (nc_network c)
             then map_option (\<lambda>r. rbind r (\<lambda>_. Ok ())) (verified_mainnet_genesis_manifest X threads json files)
             else Some (Ok ())))"

section \<open>Submitting a transaction\<close>

record submit_summary =
  su_status :: string
  su_tx_hash :: string
  su_lifecycle_status :: string
  su_mempool_size :: nat

definition sender_indices :: "string \<Rightarrow> pending_record list \<Rightarrow> nat list" where
  "sender_indices sender records =
     filter (\<lambda>i. tx_from (pr_transaction (records ! i)) = Some sender) [0..<length records]"

definition remove_at :: "nat \<Rightarrow> 'a list \<Rightarrow> 'a list" where
  "remove_at i xs = take i xs @ drop (Suc i) xs"

text \<open>The records left when a sender at the cap loses its lowest tips.\<close>

definition evict_for_sender :: "amount \<Rightarrow> string \<Rightarrow> pending_record list \<Rightarrow> pending_record list" where
  "evict_for_sender base_fee sender records =
     (let same_sender = sort_key (\<lambda>i. (effective_priority_atomic base_fee (records ! i),
                                        pr_received_at (records ! i)))
            (sender_indices sender records);
          drop_count = length same_sender + 1 - MAX_PENDING_TXS_PER_SENDER;
          drop_idxs = rev (sort (take drop_count same_sender)) in
      fold remove_at drop_idxs records)"

definition enforce_sender_cap ::
  "externals \<Rightarrow> u64 \<Rightarrow> chain \<Rightarrow> string option \<Rightarrow> pending_record list \<times> ledger_state
     \<Rightarrow> (pending_record list \<times> ledger_state) node_result" where
  "enforce_sender_cap X now c from pool =
     (case from of
        None \<Rightarrow> Ok pool
      | Some sender \<Rightarrow>
          if length (sender_indices sender (fst pool)) \<ge> MAX_PENDING_TXS_PER_SENDER
          then rbind (sanitize_pending_transactions X now c
                  (evict_for_sender (next_base_fee (last_block (c_blocks c))) sender (fst pool)))
                (\<lambda>(rebuilt, _, s). Ok (rebuilt, s))
          else Ok pool)"

definition make_room ::
  "externals \<Rightarrow> u64 \<Rightarrow> chain \<Rightarrow> nat \<Rightarrow> transaction \<Rightarrow> pending_record list \<times> ledger_state
     \<Rightarrow> (pending_record list \<times> ledger_state) node_result" where
  "make_room X now c max_mempool t pool =
     (if length (fst pool) \<ge> max_mempool
      then
        let base_fee = next_base_fee (last_block (c_blocks c));
            incoming_tip = (case effective_priority_fee t base_fee of Inr a \<Rightarrow> a | Inl _ \<Rightarrow> 0) in
        rbind (ok_or (lowest_fee_sender_package (fst pool) base_fee incoming_tip)
                 (MempoolFull max_mempool)) (\<lambda>victim.
        rbind (sanitize_pending_transactions X now c
                 (filter (\<lambda>r. tx_from (pr_transaction r) \<noteq> Some victim) (fst pool)))
          (\<lambda>(rebuilt, _, s).
        rbind (reject_if (length rebuilt \<ge> max_mempool) (MempoolFull max_mempool)) (\<lambda>_.
        Ok (rebuilt, s))))
      else Ok pool)"

text \<open>
  \<open>t 0\<close>, \<open>t 1\<close>, \<open>t 2\<close> are the readings of the three possible sanitisings, \<open>t 3\<close> stamps the
  record. The pending file is written only at the end.
\<close>

definition submit_transaction ::
  "externals \<Rightarrow> (nat \<Rightarrow> u64) \<Rightarrow> (nat \<Rightarrow> u64) \<Rightarrow> nat \<Rightarrow> transaction
     \<Rightarrow> (node_state, node_error, submit_summary) mut" where
  "submit_transaction X clk t max_mempool tx st =
     (case
        rbind (load_chain_only X clk (nd_db st)) (\<lambda>c.
        let h = tx_hash_string X tx; base_fee = next_base_fee (last_block (c_blocks c)) in
        rbind (reject_if (h \<in> mined_transaction_hashes X c)
                 (NodeInput (''transaction '' @ h @ '' already exists in the local chain''))) (\<lambda>_.
        rbind (map_err NodeCore (tx_network X tx)) (\<lambda>tn.
        rbind (reject_if (tn \<noteq> c_network c)
                 (NetworkMismatch (network_id (c_network c)) (network_id tn))) (\<lambda>_.
        rbind (sanitize_pending_transactions X (t 0) c (nd_pending st)) (\<lambda>(valid0, _, s0).
        rbind (reject_if (list_ex (\<lambda>r. pr_tx_hash r = h) valid0)
                 (NodeInput (''transaction '' @ h @ '' already exists in the local mempool''))) (\<lambda>_.
        rbind (enforce_sender_cap X (t 1) c (tx_from tx) (valid0, s0)) (\<lambda>pool1.
        rbind (make_room X (t 2) c max_mempool tx pool1) (\<lambda>(valid, s).
        rbind (validate_pending_transaction X s tx base_fee) (\<lambda>_.
        rbind (map_err NodeCore (fst (apply_transaction X tx base_fee s))) (\<lambda>_.
        let records = valid @ [\<lparr>pr_tx_hash = h, pr_received_at = t 3, pr_transaction = tx\<rparr>] in
        Ok (\<lparr>su_status = prototype_mode (c_network c), su_tx_hash = h,
             su_lifecycle_status = ''pending'', su_mempool_size = length records\<rparr>, records)))))))))))
      of
        Inl e \<Rightarrow> (Err e, st)
      | Inr (summary, records) \<Rightarrow> (Ok summary, st\<lparr>nd_pending := records\<rparr>))"

section \<open>Templates and mined blocks\<close>

record block_template =
  bt_network_id :: string
  bt_tip_hash :: string
  bt_created_at :: u64
  bt_block :: block
  bt_included :: "string list"
  bt_skipped :: "string list"

text \<open>The part of \<open>create_block_template\<close> after the chain is loaded; \<open>t 0\<close> is the reading of the filter.\<close>

definition template_on_chain ::
  "externals \<Rightarrow> (nat \<Rightarrow> u64) \<Rightarrow> network_config \<Rightarrow> block list \<Rightarrow> chain \<Rightarrow> string \<Rightarrow> string \<Rightarrow> nat
     \<Rightarrow> pending_record list \<Rightarrow> block_template node_result" where
  "template_on_chain X t config blocks c path miner_address max_transactions pending =
     (let limit = min (min max_transactions (nc_max_mempool_transactions config))
                    (MAX_TRANSACTIONS_PER_BLOCK - 1) in
      rbind (select_pending_for_template X (t 0) c pending limit) (\<lambda>(selected, skipped).
      rbind (ok_or (last_block blocks) (ChainNotInitialized path)) (\<lambda>previous.
      let base_fee = next_base_fee (Some previous); transactions = map pr_transaction selected;
          height = bh_height (b_header previous) + 1 in
      rbind (map_err NodeCore (try_fold (\<lambda>total tx.
               rbind (validate_fee_against_base_fee tx base_fee) (\<lambda>_.
               rbind (effective_priority_fee tx base_fee) (amount_checked_add total)))
             0 transactions)) (\<lambda>priority_fees.
      rbind (map_err NodeCore (amount_checked_add (block_reward height) priority_fees)) (\<lambda>reward.
      rbind (map_err NodeCore (tx_coinbase X height miner_address reward)) (\<lambda>coinbase.
      let created_at = t 1;
          mtp_floor = (case median_time_past blocks of Some m \<Rightarrow> saturating_add m 1 | None \<Rightarrow> 0);
          min_timestamp = max (saturating_add (bh_timestamp (b_header previous)) 1) mtp_floor;
          block_timestamp = max created_at min_timestamp in
      rbind (map_err NodeCore (block_new X (nc_network config) height (block_hash X previous) base_fee
               block_timestamp (next_difficulty_for_network (nc_network config) blocks (nc_difficulty config))
               (coinbase # transactions))) (\<lambda>blk.
      Ok \<lparr>bt_network_id = nc_network_id config, bt_tip_hash = hash_to_hex (block_hash X previous),
          bt_created_at = created_at, bt_block = blk, bt_included = map pr_tx_hash selected,
          bt_skipped = skipped\<rparr>)))))))"

definition create_block_template ::
  "externals \<Rightarrow> int \<Rightarrow> (genesis_review_payload \<Rightarrow> bytes) \<Rightarrow> (nat \<Rightarrow> u64) \<Rightarrow> (nat \<Rightarrow> u64) \<Rightarrow> node_files
     \<Rightarrow> data_path \<Rightarrow> string \<Rightarrow> nat \<Rightarrow> node_state \<Rightarrow> block_template node_result option" where
  "create_block_template X threads json clk t files path miner_address max_transactions st =
     (case
        rbind (reject_if (max_transactions = 0 \<or> max_transactions > MAX_BLOCK_TEMPLATE_TRANSACTIONS)
                 (NodeInput (''max_transactions must be between 1 and ''
                    @ show_nat MAX_BLOCK_TEMPLATE_TRANSACTIONS))) (\<lambda>_.
        map_err (\<lambda>e. NodeInput (error_display e)) (address_parse X miner_address))
      of
        Inl e \<Rightarrow> Some (Err e)
      | Inr _ \<Rightarrow>
          map_option (\<lambda>r. rbind r (\<lambda>(config, blocks, c).
            template_on_chain X t config blocks c (db_path (nd_db st)) miner_address max_transactions
              (nd_pending st)))
            (load_validated_chain X threads json clk files path (nd_db st)))"

record submitted_block =
  sb_status :: string
  sb_height :: u64
  sb_hash :: string
  sb_accepted :: "string list"
  sb_pending_remaining :: "nat option"
  sb_cleanup_complete :: bool

definition submit_mined_block ::
  "externals \<Rightarrow> (nat \<Rightarrow> u64) \<Rightarrow> node_files \<Rightarrow> data_path \<Rightarrow> block
     \<Rightarrow> (node_state, node_error, submitted_block) mut" where
  "submit_mined_block X clk files path candidate st =
     (case rbind (load_network_config (nf_config files)) (\<lambda>c.
           rbind (ensure_network_storage_path (nc_network c) path) (\<lambda>_. Ok c)) of
        Inl e \<Rightarrow> (Err e, st)
      | Inr config \<Rightarrow>
          (case append_validated X candidate (\<lambda>blocks b.
                  rbind (build_validated_chain X clk files config blocks) (\<lambda>c.
                  map_err NodeCore (fst (append_block X (clk (length blocks)) b c)))) (nd_db st) of
             (Inl e, db) \<Rightarrow> (Err e, st\<lparr>nd_db := db\<rparr>)
           | (Inr _, db) \<Rightarrow>
               let accepted = map (tx_hash_string X) (drop 1 (b_transactions candidate));
                   remaining = filter (\<lambda>r. pr_tx_hash r \<notin> set accepted) (nd_pending st) in
               (Ok \<lparr>sb_status = prototype_mode (nc_network config),
                    sb_height = bh_height (b_header candidate),
                    sb_hash = hash_to_hex (block_hash X candidate), sb_accepted = accepted,
                    sb_pending_remaining = Some (length remaining), sb_cleanup_complete = True\<rparr>,
                st\<lparr>nd_db := db, nd_pending := remaining\<rparr>)))"

section \<open>Reorganisation\<close>

record reorg_summary =
  re_common_ancestor_height :: u64
  re_detached_blocks :: nat
  re_attached_blocks :: nat
  re_previous_tip_hash :: string
  re_new_tip_hash :: string
  re_previous_chain_work :: u128
  re_new_chain_work :: u128
  re_dropped :: "string list"

definition validate_reorg ::
  "externals \<Rightarrow> (nat \<Rightarrow> u64) \<Rightarrow> node_files \<Rightarrow> network_config \<Rightarrow> string \<Rightarrow> block list \<Rightarrow> block list
     \<Rightarrow> (reorg_summary \<times> block list \<times> chain) node_result" where
  "validate_reorg X clk files config expected_tip current replacement =
     rbind (build_validated_chain X clk files config current) (\<lambda>current_chain.
     rbind (build_validated_chain X clk files config replacement) (\<lambda>candidate_chain.
     rbind (map_err NodeCore (select_fork X current replacement)) (\<lambda>choice.
     rbind (reject_if (choice \<noteq> AdoptCandidate)
              (NodeInput ''candidate chain does not have strictly greater cumulative proof of work'')) (\<lambda>_.
     rbind (ok_or (common_ancestor_height X current replacement)
              (GenesisMismatch (hash_to_hex (block_hash X (hd current)))
                 (hash_to_hex (block_hash X (hd replacement))))) (\<lambda>ancestor.
     let detached = filter (\<lambda>b. bh_height (b_header b) > ancestor) current;
         attached = filter (\<lambda>b. bh_height (b_header b) > ancestor) replacement;
         new_tip = (case last_block replacement of Some b \<Rightarrow> hash_to_hex (block_hash X b) | None \<Rightarrow> []) in
     rbind (map_err NodeCore (chain_cumulative_work current_chain)) (\<lambda>previous_work.
     rbind (map_err NodeCore (chain_cumulative_work candidate_chain)) (\<lambda>new_work.
     Ok (\<lparr>re_common_ancestor_height = ancestor, re_detached_blocks = length detached,
          re_attached_blocks = length attached, re_previous_tip_hash = expected_tip,
          re_new_tip_hash = new_tip, re_previous_chain_work = previous_work,
          re_new_chain_work = new_work, re_dropped = []\<rparr>, detached, candidate_chain))))))))"

text \<open>
  The database is committed before the pool is reconciled: an error of the reconciliation is
  returned with the new chain in place. \<open>t 0\<close> stamps the orphaned blocks, \<open>t 1\<close> and \<open>t 2\<close> are
  the readings of the reconciliation.
\<close>

definition adopt_candidate_chain ::
  "externals \<Rightarrow> (nat \<Rightarrow> u64) \<Rightarrow> (nat \<Rightarrow> u64) \<Rightarrow> node_files \<Rightarrow> data_path \<Rightarrow> block list
     \<Rightarrow> (node_state, node_error, reorg_summary) mut" where
  "adopt_candidate_chain X clk t files path candidate st =
     (case rbind (load_network_config (nf_config files)) (\<lambda>config.
           rbind (ensure_network_storage_path (nc_network config) path) (\<lambda>_.
           rbind (load_blocks X (nd_db st)) (\<lambda>observed.
           rbind (ok_or (map_option (\<lambda>b. hash_to_hex (block_hash X b)) (last_block observed))
                    (ChainNotInitialized (db_path (nd_db st)))) (\<lambda>expected_tip.
           Ok (config, expected_tip))))) of
        Inl e \<Rightarrow> (Err e, st)
      | Inr (config, expected_tip) \<Rightarrow>
          (case replace_validated X (t 0) expected_tip candidate
                  (validate_reorg X clk files config expected_tip) (nd_db st) of
             (Inl e, db) \<Rightarrow> (Err e, st\<lparr>nd_db := db\<rparr>)
           | (Inr (summary, detached, candidate_chain), db) \<Rightarrow>
               (case reconcile_after_reorg X (t 1) (t 2) candidate_chain detached
                       (nc_max_mempool_transactions config) (nd_pending st) of
                  Inl e \<Rightarrow> (Err e, st\<lparr>nd_db := db\<rparr>)
                | Inr (dropped, records) \<Rightarrow>
                    (Ok (summary\<lparr>re_dropped := dropped\<rparr>),
                     st\<lparr>nd_db := db, nd_pending := records\<rparr>))))"

section \<open>Loaded chains\<close>

lemma map_snd_clocked [simp]: "map snd (clocked clk bs) = bs"
  by (simp add: clocked_def)

lemma clocked_snoc: "clocked clk (bs @ [b]) = clocked clk bs @ [(clk (length bs), b)]"
  by (simp add: clocked_def)

lemma chain_from_clocked:
  assumes "chain_from_blocks X n (clocked clk bs) = Ok c"
  shows "chain_ok X c" and "c_blocks c = bs" and "c_network c = n"
proof -
  have r: "run (chain_step X) (clocked clk bs) (chain_new n) = Some c"
    using assms by (simp add: chain_from_blocks_Ok)
  show "chain_ok X c" by (rule chain.run_inv [OF chain_ok_new r])
  show "c_blocks c = bs" "c_network c = n" using run_chain_blocks [OF r] by (simp_all add: chain_new_def)
qed

lemma build_validated_Ok:
  "build_validated_chain X clk files config bs = Ok c \<longleftrightarrow>
     (requires_explicit_allow (nc_network config) \<longrightarrow> verify_pinned_genesis X files bs = Ok ())
     \<and> chain_from_blocks X (nc_network config) (clocked clk bs) = Ok c"
  by (auto simp: build_validated_chain_def rbind_Ok)

lemma load_chain_only_Ok:
  assumes "load_chain_only X clk db = Ok c"
  shows "chain_ok X c" and "load_blocks X db = Ok (c_blocks c)"
  using assms by (auto simp: load_chain_only_def rbind_Ok dest: chain_from_clocked)

lemma verify_pinned_snoc:
  "bs \<noteq> [] \<Longrightarrow> verify_pinned_genesis X files (bs @ cs) = verify_pinned_genesis X files bs"
  by (cases bs) (simp_all add: verify_pinned_genesis_def first_block_def)

lemma chain_linked_structured: "chain_linked X n bs \<Longrightarrow> structured X bs"
proof -
  assume l: "chain_linked X n bs"
  have "extends_block X (bs ! i) (bs ! Suc i)" if i: "Suc i < length bs" for i
  proof -
    have h: "unat (bh_height (b_header (bs ! i))) = i" "unat (bh_height (b_header (bs ! Suc i))) = Suc i"
      "bh_previous_hash (b_header (bs ! Suc i)) = block_hash X (bs ! i)"
      using l i by (auto simp: chain_linked_def Let_def)
    have "Suc i < 2 ^ 64" using h(2) unat_u64_less [of "bh_height (b_header (bs ! Suc i))"] by simp
    with h show ?thesis by (simp add: extends_block_def word_unat_eq_iff unat_saturating_add)
  qed
  moreover have "bs \<noteq> [] \<Longrightarrow> bh_height (b_header (hd bs)) = 0"
    using l by (auto simp: chain_linked_def Let_def hd_conv_nth unat_eq_zero)
  ultimately show ?thesis by (simp add: structured_def)
qed

section \<open>The pool\<close>

text \<open>The records apply one after the other from the chain's ledger and reach \<open>s\<close>.\<close>

definition pool_ready :: "externals \<Rightarrow> chain \<Rightarrow> pending_record list \<Rightarrow> ledger_state \<Rightarrow> bool" where
  "pool_ready X c records s \<longleftrightarrow>
     run (pending_step X (next_base_fee (last_block (c_blocks c)))) (map pr_transaction records) (c_state c)
       = Some s
     \<and> distinct (map pr_tx_hash records) \<and> pr_tx_hash ` set records \<inter> mined_transaction_hashes X c = {}"

lemma sanitize_ready:
  assumes "chain_ok X c"
  obtains valid dropped s where "sanitize_pending_transactions X now c records = Ok (valid, dropped, s)"
    "pool_ready X c valid s" "mset valid \<subseteq># mset records"
  using sanitize_total [OF assms, of now records DEFAULT_MEMPOOL_MAX_AGE_SECONDS] that
  by (auto simp: sanitize_pending_transactions_def pool_ready_def)

lemma sanitize_readyD:
  assumes "chain_ok X c" and "sanitize_pending_transactions X now c records = Ok (valid, dropped, s)"
  shows "pool_ready X c valid s" and "mset valid \<subseteq># mset records"
  using sanitize_ready [OF assms(1), of now records] assms(2) by (metis Inr_inject Pair_inject)+

lemma remove_at_facts:
  assumes "i < length xs"
  shows "mset (remove_at i xs) \<subseteq># mset xs" and "P (xs ! i) \<Longrightarrow> length (filter P (remove_at i xs)) + 1 = length (filter P xs)"
    and "length (remove_at i xs) = length xs - 1" and "j < i \<Longrightarrow> remove_at i xs ! j = xs ! j"
proof -
  have split: "xs = take i xs @ xs ! i # drop (Suc i) xs" using assms by (rule id_take_nth_drop)
  have "mset xs = add_mset (xs ! i) (mset (remove_at i xs))"
    by (subst split) (simp add: remove_at_def)
  then show "mset (remove_at i xs) \<subseteq># mset xs" by simp
  show "length (filter P (remove_at i xs)) + 1 = length (filter P xs)" if "P (xs ! i)"
    using that by (subst (2) split) (simp add: remove_at_def)
  show "length (remove_at i xs) = length xs - 1" "j < i \<Longrightarrow> remove_at i xs ! j = xs ! j"
    using assms by (auto simp: remove_at_def nth_append)
qed

lemma fold_remove_at:
  "sorted_wrt (>) ds \<Longrightarrow> \<forall>i\<in>set ds. i < length xs \<and> P (xs ! i) \<Longrightarrow>
     mset (fold remove_at ds xs) \<subseteq># mset xs
     \<and> length (filter P (fold remove_at ds xs)) + length ds = length (filter P xs)"
proof (induction ds arbitrary: xs)
  case (Cons i ds)
  have i: "i < length xs" "P (xs ! i)" using Cons.prems(2) by simp_all
  have "\<forall>j\<in>set ds. j < length (remove_at i xs) \<and> P (remove_at i xs ! j)"
    using Cons.prems i(1) by (auto simp: remove_at_facts(3) remove_at_facts(4))
  with Cons.IH [of "remove_at i xs"] Cons.prems(1)
  have ih: "mset (fold remove_at ds (remove_at i xs)) \<subseteq># mset (remove_at i xs)"
    "length (filter P (fold remove_at ds (remove_at i xs))) + length ds = length (filter P (remove_at i xs))"
    by simp_all
  from subset_mset.order_trans [OF ih(1) remove_at_facts(1) [OF i(1)]] ih(2)
    remove_at_facts(2) [where P = P, OF i] show ?case by simp
qed simp

lemma sender_indices_facts:
  "length (sender_indices a rs) = length (records_of a rs)" "distinct (sender_indices a rs)"
  "i \<in> set (sender_indices a rs) \<Longrightarrow> i < length rs \<and> tx_from (pr_transaction (rs ! i)) = Some a"
proof -
  have "records_of a rs = map ((!) rs) (sender_indices a rs)"
    unfolding records_of_def sender_indices_def
    by (subst map_nth [of rs, symmetric]) (simp add: filter_map o_def)
  then show "length (sender_indices a rs) = length (records_of a rs)" by simp
qed (auto simp: sender_indices_def)

lemma evict_for_sender_facts:
  assumes "length (records_of a rs) \<ge> MAX_PENDING_TXS_PER_SENDER"
  shows "mset (evict_for_sender b a rs) \<subseteq># mset rs"
    and "length (records_of a (evict_for_sender b a rs)) + 1 = MAX_PENDING_TXS_PER_SENDER"
proof -
  define ix where "ix = sort_key (\<lambda>i. (effective_priority_atomic b (rs ! i), pr_received_at (rs ! i)))
    (sender_indices a rs)"
  define k where "k = length ix + 1 - MAX_PENDING_TXS_PER_SENDER"
  define ds where "ds = rev (sort (take k ix))"
  have ix: "length ix = length (records_of a rs)" "distinct ix" "set ix = set (sender_indices a rs)"
    by (simp_all add: ix_def sender_indices_facts)
  have "sorted_wrt (>) ds" using ix(2) by (simp add: ds_def sorted_wrt_rev strict_sorted_iff)
  moreover have "\<forall>i\<in>set ds. i < length rs \<and> tx_from (pr_transaction (rs ! i)) = Some a"
    using ix(3) sender_indices_facts(3) [of _ a rs] by (auto simp: ds_def dest: in_set_takeD)
  ultimately have f: "mset (fold remove_at ds rs) \<subseteq># mset rs"
    "length (records_of a (fold remove_at ds rs)) + length ds = length (records_of a rs)"
    using fold_remove_at [of ds rs "\<lambda>r. tx_from (pr_transaction r) = Some a"] by (simp_all add: records_of_def)
  have e: "evict_for_sender b a rs = fold remove_at ds rs"
    by (simp add: evict_for_sender_def Let_def ds_def k_def ix_def)
  have "length ds = length (records_of a rs) + 1 - MAX_PENDING_TXS_PER_SENDER"
    using ix(1) by (simp add: ds_def k_def MAX_PENDING_TXS_PER_SENDER_def)
  with f assms show "mset (evict_for_sender b a rs) \<subseteq># mset rs"
    and "length (records_of a (evict_for_sender b a rs)) + 1 = MAX_PENDING_TXS_PER_SENDER"
    by (simp_all add: e MAX_PENDING_TXS_PER_SENDER_def)
qed

lemma records_of_mono: "mset rs \<subseteq># mset rs' \<Longrightarrow> length (records_of a rs) \<le> length (records_of a rs')"
  unfolding records_of_def by (metis mset_filter multiset_filter_mono size_mset size_mset_mono)

lemma enforce_sender_cap_Ok:
  assumes "chain_ok X c" and "pool_ready X c rs s" and "enforce_sender_cap X now c from (rs, s) = Ok (rs', s')"
  shows "pool_ready X c rs' s'" and "mset rs' \<subseteq># mset rs"
    and "from = Some a \<Longrightarrow> length (records_of a rs') < MAX_PENDING_TXS_PER_SENDER"
    and "from = Some a \<Longrightarrow> MAX_PENDING_TXS_PER_SENDER \<le> length (records_of a rs) \<Longrightarrow>
      length (records_of a rs') < length (records_of a rs)"
proof -
  have *: "pool_ready X c rs' s' \<and> mset rs' \<subseteq># mset rs \<and>
    (\<forall>a. from = Some a \<longrightarrow> length (records_of a rs') < MAX_PENDING_TXS_PER_SENDER)"
  proof (cases "\<exists>a. from = Some a \<and> length (records_of a rs) \<ge> MAX_PENDING_TXS_PER_SENDER")
    case True
    then obtain a where a: "from = Some a" "length (records_of a rs) \<ge> MAX_PENDING_TXS_PER_SENDER" by blast
    let ?e = "evict_for_sender (next_base_fee (last_block (c_blocks c))) a rs"
    obtain dropped where v: "sanitize_pending_transactions X now c ?e = Ok (rs', dropped, s')"
      using assms(3) a by (auto simp: enforce_sender_cap_def sender_indices_facts rbind_Ok)
    note sv = sanitize_readyD [OF assms(1) v] and ev = evict_for_sender_facts [OF a(2)]
    have "mset rs' \<subseteq># mset rs" using subset_mset.order_trans [OF sv(2) ev(1)] .
    moreover have "length (records_of a rs') < MAX_PENDING_TXS_PER_SENDER"
      using records_of_mono [OF sv(2), of a] ev(2) [of "next_base_fee (last_block (c_blocks c))"] by linarith
    ultimately show ?thesis using sv(1) a(1) by simp
  next
    case False
    then have "rs' = rs" "s' = s"
      using assms(3) by (auto simp: enforce_sender_cap_def sender_indices_facts split: option.splits if_splits)
    with False assms(2) show ?thesis by (auto simp: not_le)
  qed
  then show "pool_ready X c rs' s'" "mset rs' \<subseteq># mset rs"
    "from = Some a \<Longrightarrow> length (records_of a rs') < MAX_PENDING_TXS_PER_SENDER"
    "from = Some a \<Longrightarrow> MAX_PENDING_TXS_PER_SENDER \<le> length (records_of a rs) \<Longrightarrow>
      length (records_of a rs') < length (records_of a rs)"
    by (auto intro: less_le_trans)
qed

lemma make_room_Ok:
  assumes "chain_ok X c" and "pool_ready X c rs s" and "make_room X now c limit tx (rs, s) = Ok (rs', s')"
  shows "pool_ready X c rs' s'" and "mset rs' \<subseteq># mset rs" and "length rs' < limit"
proof -
  have "pool_ready X c rs' s' \<and> mset rs' \<subseteq># mset rs \<and> length rs' < limit"
  proof (cases "length rs \<ge> limit")
    case True
    then obtain v dropped where v: "sanitize_pending_transactions X now c
        (filter (\<lambda>r. tx_from (pr_transaction r) \<noteq> Some v) rs) = Ok (rs', dropped, s')" "length rs' < limit"
      using assms(3) by (auto simp: make_room_def Let_def rbind_Ok not_le)
    note sv = sanitize_readyD [OF assms(1) v(1)]
    have "mset (filter (\<lambda>r. tx_from (pr_transaction r) \<noteq> Some v) rs) \<subseteq># mset rs"
      by (simp add: mset_filter)
    from subset_mset.order_trans [OF sv(2) this] sv(1) v(2) show ?thesis by simp
  next
    case False
    with assms(2,3) show ?thesis by (simp add: make_room_def)
  qed
  then show "pool_ready X c rs' s'" "mset rs' \<subseteq># mset rs" "length rs' < limit" by simp_all
qed

lemma submit_transaction_Ok:
  assumes "submit_transaction X clk t limit tx st = (Ok summary, st')"
  obtains c valid0 s0 rs1 s1 rs s dropped fs s' where
    "load_chain_only X clk (nd_db st) = Ok c" "tx_hash_string X tx \<notin> mined_transaction_hashes X c"
    "tx_network X tx = Ok (c_network c)"
    "sanitize_pending_transactions X (t 0) c (nd_pending st) = Ok (valid0, dropped, s0)"
    "tx_hash_string X tx \<notin> pr_tx_hash ` set valid0"
    "enforce_sender_cap X (t 1) c (tx_from tx) (valid0, s0) = Ok (rs1, s1)"
    "make_room X (t 2) c limit tx (rs1, s1) = Ok (rs, s)"
    "validate_pending_transaction X s tx (next_base_fee (last_block (c_blocks c))) = Ok ()"
    "apply_transaction X tx (next_base_fee (last_block (c_blocks c))) s = (Ok fs, s')"
    "st' = st\<lparr>nd_pending := rs @ [\<lparr>pr_tx_hash = tx_hash_string X tx, pr_received_at = t 3, pr_transaction = tx\<rparr>]\<rparr>"
    "su_tx_hash summary = tx_hash_string X tx" "su_mempool_size summary = length rs + 1"
proof -
  note a = assms [unfolded submit_transaction_def Let_def]
  from a obtain c tn valid0 dropped s0 pool1 rs s fs where v:
    "load_chain_only X clk (nd_db st) = Ok c" "tx_hash_string X tx \<notin> mined_transaction_hashes X c"
    "tx_network X tx = Ok tn" "tn = c_network c"
    "sanitize_pending_transactions X (t 0) c (nd_pending st) = Ok (valid0, dropped, s0)"
    "\<not> list_ex (\<lambda>r. pr_tx_hash r = tx_hash_string X tx) valid0"
    "enforce_sender_cap X (t 1) c (tx_from tx) (valid0, s0) = Ok pool1"
    "make_room X (t 2) c limit tx pool1 = Ok (rs, s)"
    "validate_pending_transaction X s tx (next_base_fee (last_block (c_blocks c))) = Ok ()"
    "fst (apply_transaction X tx (next_base_fee (last_block (c_blocks c))) s) = Ok fs"
    "st' = st\<lparr>nd_pending := rs @ [\<lparr>pr_tx_hash = tx_hash_string X tx, pr_received_at = t 3, pr_transaction = tx\<rparr>]\<rparr>"
    "su_tx_hash summary = tx_hash_string X tx" "su_mempool_size summary = length rs + 1"
    by (auto simp: rbind_Ok split: sum.splits prod.splits)
  obtain rs1 s1 where "pool1 = (rs1, s1)" by fastforce
  moreover obtain s' where "apply_transaction X tx (next_base_fee (last_block (c_blocks c))) s = (Ok fs, s')"
    using v(10) by (metis prod.collapse)
  moreover have "tx_hash_string X tx \<notin> pr_tx_hash ` set valid0" using v(6) by (auto simp: list_ex_iff)
  ultimately show thesis using v by (intro that) simp_all
qed

lemma submit_transaction_Err:
  "submit_transaction X clk t limit tx st = (Err e, st') \<Longrightarrow> st' = st"
  by (auto simp: submit_transaction_def split: sum.splits prod.splits)

section \<open>Nonces in the pool\<close>

lemma applied_nonce:
  assumes "apply_transaction X tx b s = (Ok fs, s')" and "\<not> is_coinbase tx"
  shows "\<exists>sender. tx_from tx = Some sender \<and> tx_nonce tx = next_nonce_of s sender
    \<and> (\<forall>a. next_nonce_of s' a = (if a = sender then saturating_add (tx_nonce tx) 1 else next_nonce_of s a))"
  using assms(1) unfolding apply_spend_iff [OF assms(2)] validate_spend_Ok [OF assms(2)]
  by (fastforce simp: spend_state_frame)

definition sent_by :: "string \<Rightarrow> transaction list \<Rightarrow> nat" where
  "sent_by a ts = length (filter (\<lambda>tx. tx_from tx = Some a) ts)"

lemma pending_step_nonce:
  assumes "pending_step X b tx s = Some s'" and "unat (next_nonce_of s a) + sent_by a [tx] < 2 ^ 64"
  shows "unat (next_nonce_of s' a) = unat (next_nonce_of s a) + sent_by a [tx]"
proof -
  obtain fs where "apply_transaction X tx b s = (Ok fs, s')" "\<not> is_coinbase tx"
    using assms(1) by (auto simp: pending_step_Some validate_pending_Ok)
  from applied_nonce [OF this] assms(2) show ?thesis
    by (auto simp: sent_by_def unat_saturating_add)
qed

lemma run_nonce:
  "run (pending_step X b) ts s = Some s' \<Longrightarrow> unat (next_nonce_of s a) + sent_by a ts < 2 ^ 64 \<Longrightarrow>
     unat (next_nonce_of s' a) = unat (next_nonce_of s a) + sent_by a ts"
proof (induction ts arbitrary: s)
  case (Cons tx ts)
  then obtain s1 where s1: "pending_step X b tx s = Some s1" "run (pending_step X b) ts s1 = Some s'"
    by (cases "pending_step X b tx s") auto
  have split: "sent_by a (tx # ts) = sent_by a [tx] + sent_by a ts" by (simp add: sent_by_def)
  have "unat (next_nonce_of s1 a) = unat (next_nonce_of s a) + sent_by a [tx]"
    by (rule pending_step_nonce [OF s1(1)]) (use Cons.prems(2) split in linarith)
  with Cons.IH [OF s1(2)] Cons.prems(2) split show ?case by simp
qed (simp add: sent_by_def)

lemma sent_by_records: "sent_by a (map pr_transaction rs) = length (records_of a rs)"
  by (simp add: sent_by_def records_of_def filter_map o_def)

lemma pool_ready_nonce:
  assumes "pool_ready X c rs s" and "unat (next_nonce_of (c_state c) a) + length (records_of a rs) < 2 ^ 64"
  shows "unat (next_nonce_of s a) = unat (next_nonce_of (c_state c) a) + length (records_of a rs)"
  using assms run_nonce [of X "next_base_fee (last_block (c_blocks c))" "map pr_transaction rs" "c_state c" s a]
  by (simp add: pool_ready_def sent_by_records)

section \<open>Templates and the ledger\<close>

definition tip_fold :: "amount \<Rightarrow> amount \<Rightarrow> transaction list \<Rightarrow> amount result" where
  "tip_fold b = try_fold (\<lambda>total tx.
     rbind (validate_fee_against_base_fee tx b) (\<lambda>_.
     rbind (effective_priority_fee tx b) (amount_checked_add total)))"

text \<open>Applicable spends simulate, and the simulated tips are those the template adds up.\<close>

lemma run_simulates:
  assumes "run (pending_step X b) ts s = Some s'" and "pool_inv s"
    and "unat tf = unat bf + unat pf" and "unat tf + ledger_total s < 2 ^ 64"
  shows "\<exists>tf' bf' pf'. mfold (simulate_step X b) (tf, bf, pf) ts s = (Ok (tf', bf', pf'), s')
    \<and> tip_fold b pf ts = Ok pf' \<and> list_all (\<lambda>tx. \<not> is_coinbase tx) ts
    \<and> unat pf' + ledger_total s' \<le> unat pf + ledger_total s"
  using assms
proof (induction ts arbitrary: s tf bf pf)
  case Nil
  then show ?case by (simp add: mret_def tip_fold_def)
next
  case (Cons tx ts)
  then obtain s1 where s1: "pending_step X b tx s = Some s1" "run (pending_step X b) ts s1 = Some s'"
    by (cases "pending_step X b tx s") auto
  then obtain fs where a: "apply_transaction X tx b s = (Ok fs, s1)" and nc: "\<not> is_coinbase tx"
    and v: "validate_transaction_against_state X s tx b = Ok ()"
    by (auto simp: pending_step_Some validate_pending_Ok)
  have wf: "balances_wf s" using Cons.prems(2) by (simp add: pool_inv_def)
  note e = apply_spend_effect [OF nc wf a]
  define tf1 where "tf1 = tf + fs_total_fee fs"
  define bf1 where "bf1 = bf + fs_burned_fee fs"
  define pf1 where "pf1 = pf + fs_priority_fee fs"
  have paid: "unat (fs_total_fee fs) + ledger_total s1 = ledger_total s" using e by simp
  have u: "unat tf1 = unat tf + unat (fs_total_fee fs)" "unat bf1 = unat bf + unat (fs_burned_fee fs)"
    "unat pf1 = unat pf + unat (fs_priority_fee fs)"
  proof -
    have "unat tf + unat (fs_total_fee fs) < 2 ^ 64" using Cons.prems(4) paid by linarith
    moreover have "unat (fs_total_fee fs) = unat (fs_burned_fee fs) + unat (fs_priority_fee fs)" using e by simp
    ultimately show "unat tf1 = unat tf + unat (fs_total_fee fs)" "unat bf1 = unat bf + unat (fs_burned_fee fs)"
      "unat pf1 = unat pf + unat (fs_priority_fee fs)"
      unfolding tf1_def bf1_def pf1_def using Cons.prems(3) by (auto simp: unat_word_ariths)
  qed
  have step: "simulate_step X b (tf, bf, pf) tx s = (Ok (tf1, bf1, pf1), s1)"
    unfolding simulate_step_Ok using a u by blast
  have "b \<le> tx_max_fee tx" using v unfolding validate_spend_Ok [OF nc] by blast
  then have "validate_fee_against_base_fee tx b = Ok ()" by (simp add: validate_fee_Ok)
  moreover have "effective_priority_fee tx b = Ok (fs_priority_fee fs)"
    using a unfolding apply_spend_iff [OF nc] by auto
  moreover have "amount_checked_add pf (fs_priority_fee fs) = Ok pf1" using u(3) by (simp add: amount_add_Ok)
  ultimately have tip: "tip_fold b pf (tx # ts) = tip_fold b pf1 ts"
    by (simp add: tip_fold_def)
  have "pool_inv s1" by (rule pool.step_inv [OF Cons.prems(2) s1(1)])
  moreover have "unat tf1 = unat bf1 + unat pf1" using u Cons.prems(3) e by simp
  moreover have "unat tf1 + ledger_total s1 < 2 ^ 64" using u(1) paid Cons.prems(4) by simp
  ultimately obtain tf' bf' pf' where
    "mfold (simulate_step X b) (tf1, bf1, pf1) ts s1 = (Ok (tf', bf', pf'), s')"
    "tip_fold b pf1 ts = Ok pf'" "list_all (\<lambda>tx. \<not> is_coinbase tx) ts"
    "unat pf' + ledger_total s' \<le> unat pf1 + ledger_total s1"
    using Cons.IH [OF s1(2)] by blast
  with step tip nc u(3) paid e show ?case by (simp add: mbind_def)
qed

text \<open>Applied transactions of one sender have consecutive nonces, so no nonce is seen twice.\<close>

lemma run_sender_nonces:
  assumes "run (pending_step X b) ts s = Some s'"
    and "\<forall>a. unat (next_nonce_of s a) + length ts < 2 ^ 64"
    and "\<forall>(a, n)\<in>set seen. n < next_nonce_of s a"
  shows "check_sender_nonces s0 seen ts = Ok ()"
  using assms
proof (induction ts arbitrary: s seen)
  case (Cons tx ts)
  then obtain s1 where s1: "pending_step X b tx s = Some s1" "run (pending_step X b) ts s1 = Some s'"
    by (cases "pending_step X b tx s") auto
  then obtain sender where n: "tx_from tx = Some sender" "tx_nonce tx = next_nonce_of s sender"
    "\<And>a. next_nonce_of s1 a = (if a = sender then saturating_add (tx_nonce tx) 1 else next_nonce_of s a)"
    using applied_nonce by (fastforce simp: pending_step_Some validate_pending_Ok)
  have room: "unat (next_nonce_of s a) + Suc (length ts) < 2 ^ 64" for a
    using Cons.prems(2) by (metis length_Cons)
  from room [of sender] have "unat (next_nonce_of s sender) + 1 < 2 ^ 64" by linarith
  then have up: "unat (next_nonce_of s1 a) = (if a = sender then unat (next_nonce_of s a) + 1
      else unat (next_nonce_of s a))" for a
    by (simp add: n(2,3) unat_saturating_add)
  have "\<forall>a. unat (next_nonce_of s1 a) + length ts < 2 ^ 64"
    using room up by (simp add: Suc_lessD)
  moreover have "\<forall>(a, m)\<in>set ((sender, tx_nonce tx) # seen). m < next_nonce_of s1 a"
    using Cons.prems(3) up n(2) by (fastforce simp: word_less_nat_alt)
  ultimately have "check_sender_nonces s0 ((sender, tx_nonce tx) # seen) ts = Ok ()"
    by (rule Cons.IH [OF s1(2)])
  moreover have "(sender, tx_nonce tx) \<notin> set seen" using Cons.prems(3) n(2) by fastforce
  ultimately show ?case by (simp add: n(1))
qed simp

lemma chain_ledger_tip:
  assumes "chain_ok X c" and "c_blocks c \<noteq> []"
  shows "ls_applied_block_height (c_state c) = Some (bh_height (b_header (last (c_blocks c))))"
    and "ls_tip_hash (c_state c) = Some (block_hash X (last (c_blocks c)))"
    and "ls_tip_timestamp (c_state c) = Some (bh_timestamp (b_header (last (c_blocks c))))"
proof -
  obtain bs b where bs: "c_blocks c = bs @ [b]" using assms(2) by (metis rev_exhaust)
  then obtain s where "run (ledger_step X) [b] s = Some (c_state c)"
    using assms(1) by (auto simp: chain_ok_def run_append bind_eq_Some_conv)
  then obtain sm where "apply_block X b s = (Ok sm, c_state c)" by (auto simp: ledger_step_Some bind_eq_Some_conv)
  then obtain coinbase sp fs s1 s2 e where "c_state c = record_block X b sm e s2"
    by (rule apply_block_OkE)
  then show "ls_applied_block_height (c_state c) = Some (bh_height (b_header (last (c_blocks c))))"
    "ls_tip_hash (c_state c) = Some (block_hash X (last (c_blocks c)))"
    "ls_tip_timestamp (c_state c) = Some (bh_timestamp (b_header (last (c_blocks c))))"
    by (simp_all add: bs record_block_frame)
qed

lemma tx_coinbase_Ok:
  assumes "tx_coinbase X h to amt = Ok tx"
  shows "is_coinbase tx" and "tx_max_fee tx = 0" and "tx_priority_fee tx = 0" and "tx_amount tx = amt"
    and "amt \<noteq> 0"
  using assms
  by (auto simp: tx_coinbase_def tx_new_def Let_def rbind_Ok is_coinbase_def validate_shape_def
      split: if_splits)

lemma select_applies:
  assumes "chain_ok X c"
  shows "\<exists>sel skipped s. select_pending_for_template X now c pending limit = Ok (sel, skipped)
    \<and> run (pending_step X (next_base_fee (last_block (c_blocks c)))) (map pr_transaction sel) (c_state c) = Some s
    \<and> length sel \<le> limit"
proof (cases "limit = 0")
  case False
  then show ?thesis using select_total [OF assms, of limit now pending] by blast
qed (simp add: select_pending_for_template_def)

text \<open>The block of a template: what its header commits to and which transactions it holds.\<close>

definition fills_template ::
  "externals \<Rightarrow> chain \<Rightarrow> network_config \<Rightarrow> string \<Rightarrow> transaction list \<Rightarrow> block \<Rightarrow> bool" where
  "fills_template X c config miner txs blk \<longleftrightarrow>
     (let tip = last (c_blocks c); h = b_header blk; b = next_base_fee (Some tip);
          height = bh_height (b_header tip) + 1 in
        bh_version h = expected_block_version (nc_network config) height
      \<and> bh_height h = height \<and> bh_previous_hash h = block_hash X tip \<and> bh_base_fee_atomic h = b
      \<and> bh_network_id h = network_id (nc_network config)
      \<and> bh_difficulty h = next_difficulty_for_network (nc_network config) (c_blocks c) (nc_difficulty config)
      \<and> saturating_add (bh_timestamp (b_header tip)) 1 \<le> bh_timestamp h
      \<and> pred_option (\<lambda>m. saturating_add m 1 \<le> bh_timestamp h) (median_time_past (c_blocks c))
      \<and> compute_merkle_root X (b_transactions blk) = Ok (bh_merkle_root h)
      \<and> (\<exists>coinbase tips amt. b_transactions blk = coinbase # txs \<and> tip_fold b 0 txs = Ok tips
          \<and> amount_checked_add (block_reward height) tips = Ok amt
          \<and> tx_coinbase X height miner amt = Ok coinbase))"

lemma template_on_chain_Ok:
  assumes "chain_ok X c" and "template_on_chain X t config (c_blocks c) c path miner limit pending = Ok tmpl"
  obtains sel :: "pending_record list" and s where "c_blocks c \<noteq> []"
    "run (pending_step X (next_base_fee (last_block (c_blocks c)))) (map pr_transaction sel) (c_state c) = Some s"
    "length sel < MAX_TRANSACTIONS_PER_BLOCK" "bt_included tmpl = map pr_tx_hash sel"
    "fills_template X c config miner (map pr_transaction sel) (bt_block tmpl)"
proof -
  let ?limit = "min (min limit (nc_max_mempool_transactions config)) (MAX_TRANSACTIONS_PER_BLOCK - 1)"
  obtain sel skipped s where sel: "select_pending_for_template X (t 0) c pending ?limit = Ok (sel, skipped)"
    "run (pending_step X (next_base_fee (last_block (c_blocks c)))) (map pr_transaction sel) (c_state c) = Some s"
    "length sel \<le> ?limit"
    using select_applies [OF assms(1)] by blast
  note a = assms(2) [unfolded template_on_chain_def Let_def sel(1) tip_fold_def [symmetric]]
  from a have ne: "c_blocks c \<noteq> []" by (auto simp: rbind_Ok last_block_def split: if_splits)
  then have last: "last_block (c_blocks c) = Some (last (c_blocks c))" by (simp add: last_block_def)
  have "fills_template X c config miner (map pr_transaction sel) (bt_block tmpl)"
    "bt_included tmpl = map pr_tx_hash sel"
    using a unfolding last
    by (auto simp: rbind_Ok fills_template_def Let_def block_new_def block_new_with_version_def max_def
        split: option.splits if_splits)
  with ne sel show thesis by (intro that [of sel s]) (auto simp: MAX_TRANSACTIONS_PER_BLOCK_def)
qed

lemma template_ledger:
  assumes "chain_ok X c" and "c_blocks c \<noteq> []" and "length (c_blocks c) < 2 ^ 64"
    and "bh_timestamp (b_header (last (c_blocks c))) \<noteq> - 1"
    and "\<forall>a. unat (next_nonce_of (c_state c) a) + length txs < 2 ^ 64"
    and "run (pending_step X (next_base_fee (last_block (c_blocks c)))) txs (c_state c) = Some s"
    and "fills_template X c config miner txs blk"
  shows "\<exists>sm. validate_block_against_state X (c_state c) blk = Ok sm"
proof -
  let ?tip = "last (c_blocks c)" and ?h = "b_header blk"
  let ?b = "next_base_fee (Some ?tip)" and ?s = "c_state c"
  have last: "last_block (c_blocks c) = Some ?tip" using assms(2) by (simp add: last_block_def)
  note f = assms(7) [unfolded fills_template_def Let_def]
  obtain coinbase tips amt where cb: "b_transactions blk = coinbase # txs" "tip_fold ?b 0 txs = Ok tips"
    "amount_checked_add (block_reward (bh_height ?h)) tips = Ok amt"
    "tx_coinbase X (bh_height ?h) miner amt = Ok coinbase"
    using f by auto
  note c = tx_coinbase_Ok [OF cb(4)]
  note inv = chain_ok_ledger(1) [OF assms(1), unfolded ledger_inv_def]
  have "ledger_total ?s < 2 ^ 64" using chain_ok_pool_inv [OF assms(1)] by (simp add: pool_inv_def)
  then obtain tf bf where sim: "mfold (simulate_step X ?b) (0, 0, 0) txs ?s = (Ok (tf, bf, tips), s)"
    and nc: "list_all (\<lambda>tx. \<not> is_coinbase tx) txs"
    using run_simulates [OF assms(6) chain_ok_pool_inv [OF assms(1)], of 0 0 0] cb(2) by (auto simp: last)
  have "validate_coinbase_structure (coinbase # txs) = Ok coinbase"
    using c nc by (simp add: validate_coinbase_structure_Ok)
  moreover have "expected_coinbase_amount (bh_height ?h) ?b (coinbase # txs) = Ok amt"
    using cb(2,3) by (simp add: expected_coinbase_amount_def Let_def tip_fold_def)
  moreover have "check_sender_nonces ?s [] txs = Ok ()"
    by (rule run_sender_nonces [OF assms(6,5)]) simp
  moreover have "simulate_block X ?s ?b txs = Ok (tf, bf, tips)"
    using sim by (simp add: simulate_block_def)
  moreover have "\<not> bh_timestamp ?h \<le> bh_timestamp (b_header ?tip)"
  proof -
    have "unat (bh_timestamp (b_header ?tip)) + 1 < 2 ^ 64"
      using assms(4) unat_u64_less [of "bh_timestamp (b_header ?tip)"]
      by (auto simp: word_unat_eq_iff unat_max_word)
    then show ?thesis using f by (auto simp: word_le_nat_alt word_less_nat_alt unat_saturating_add)
  qed
  moreover obtain a where "amount_checked_add (ls_emitted_supply ?s) (block_reward (bh_height ?h)) = Ok a"
    "\<not> MAX_SUPPLY_ATOMIC < a"
  proof -
    have n: "ledger_blocks ?s = length (c_blocks c)" by (rule chain_ok_ledger(2) [OF assms(1)])
    then have "unat (bh_height (b_header ?tip)) + 1 = length (c_blocks c)"
      using chain_ledger_tip(1) [OF assms(1,2)] by (simp add: ledger_blocks_def)
    then have "unat (bh_height ?h) = length (c_blocks c)"
      using f assms(3) by (simp add: unat_word_ariths)
    then have "unat (block_reward (bh_height ?h)) = reward_at (length (c_blocks c))"
      by (simp add: unat_block_reward reward_at_def)
    moreover have "unat (ls_emitted_supply ?s) = (\<Sum>h<length (c_blocks c). reward_at h)" using inv n by simp
    ultimately have "unat (ls_emitted_supply ?s) + unat (block_reward (bh_height ?h))
        = (\<Sum>h<Suc (length (c_blocks c)). reward_at h)" by simp
    also have "\<dots> \<le> unat MAX_SUPPLY_ATOMIC"
      using sum_reward_le [of "Suc (length (c_blocks c))"] by (simp add: emission_total_value core_constants)
    finally have "\<exists>a. amount_checked_add (ls_emitted_supply ?s) (block_reward (bh_height ?h)) = Ok a
        \<and> a \<le> MAX_SUPPLY_ATOMIC" by (simp add: reward_fits_supply)
    then show thesis using that by (auto simp: not_less)
  qed
  ultimately show ?thesis
    using f cb c chain_ledger_tip [OF assms(1,2)]
    by (simp add: validate_block_against_state_def Let_def)
qed

section \<open>The stored chain after a block\<close>

lemma load_blocks_not_Nil: "load_blocks X db = Ok bs \<Longrightarrow> bs \<noteq> []"
  by (auto simp: load_blocks_def load_Ok)

lemma build_validated_snoc:
  assumes "build_validated_chain X clk files config bs = Ok c" and "bs \<noteq> []"
    and "append_block X (clk (length bs)) b c = (Ok (), c')"
  shows "build_validated_chain X clk files config (bs @ [b]) = Ok c'"
proof -
  have "chain_step X (clk (length bs), b) c = Some c'" using assms(3) by (simp add: chain_step_Some)
  with assms(1,2) show ?thesis
    by (auto simp: build_validated_Ok chain_from_blocks_Ok clocked_snoc run_append verify_pinned_snoc)
qed

lemma submit_mined_block_Ok:
  assumes "submit_mined_block X clk files path b st = (Ok summary, st')"
  obtains config bs c c' where "load_network_config (nf_config files) = Ok config"
    "load_blocks X (nd_db st) = Ok bs" "build_validated_chain X clk files config bs = Ok c"
    "load_blocks X (nd_db st') = Ok (bs @ [b])" "build_validated_chain X clk files config (bs @ [b]) = Ok c'"
    "nd_pending st' = filter (\<lambda>r. pr_tx_hash r \<notin> tx_hash_string X ` set (drop 1 (b_transactions b))) (nd_pending st)"
proof -
  let ?v = "\<lambda>config blocks b. rbind (build_validated_chain X clk files config blocks) (\<lambda>c.
    map_err NodeCore (fst (append_block X (clk (length blocks)) b c)))"
  obtain config u db where a: "load_network_config (nf_config files) = Ok config"
    "append_validated X b (?v config) (nd_db st) = (Ok u, db)" "nd_db st' = db"
    "nd_pending st' = filter (\<lambda>r. pr_tx_hash r \<notin> tx_hash_string X ` set (drop 1 (b_transactions b))) (nd_pending st)"
    using assms
    by (auto simp: submit_mined_block_def Let_def rbind_Ok split: sum.splits prod.splits)
  obtain bs where bs: "load_blocks X (nd_db st) = Ok bs" "?v config bs b = Ok u" "load_blocks X db = Ok (bs @ [b])"
    using append_validated_Ok [OF a(2)] by metis
  obtain c where c: "build_validated_chain X clk files config bs = Ok c"
    "fst (append_block X (clk (length bs)) b c) = Ok u"
    using bs(2) by (auto simp: rbind_Ok)
  then obtain c' where "append_block X (clk (length bs)) b c = (Ok (), c')"
    by (metis (full_types) prod.collapse old.unit.exhaust)
  with build_validated_snoc [OF c(1) load_blocks_not_Nil [OF bs(1)]] a bs c show thesis
    by (intro that) simp_all
qed

lemma submit_mined_block_Err:
  "submit_mined_block X clk files path b st = (Err e, st') \<Longrightarrow> st' = st"
  by (auto simp: submit_mined_block_def Let_def append_validated_def transact_Err
      split: sum.splits prod.splits)

section \<open>The stored chain after a reorganisation\<close>

lemma replace_validated_validates:
  assumes "replace_validated X now tip cand validate db = (Ok r, db')"
  obtains bs where "load_blocks X db = Ok bs" "validate bs cand = Ok r"
  using assms that by (auto simp: replace_validated_def transact_Ok rbind_Ok Let_def load_blocks_def)

lemma validate_reorg_Ok:
  assumes "validate_reorg X clk files config tip bs cand = Ok (summary, detached, c')"
  obtains c where "build_validated_chain X clk files config bs = Ok c"
    "build_validated_chain X clk files config cand = Ok c'" "bs \<noteq> []" "cand \<noteq> []"
    "block_hash X (hd bs) = block_hash X (hd cand)" "work_sum bs < work_sum cand" "unat (re_previous_chain_work summary) = work_sum bs"
    "unat (re_new_chain_work summary) = work_sum cand"
    "common_ancestor_height X bs cand = Some (re_common_ancestor_height summary)"
    "detached = filter (\<lambda>b. bh_height (b_header b) > re_common_ancestor_height summary) bs"
proof -
  obtain c where c: "build_validated_chain X clk files config bs = Ok c"
    "build_validated_chain X clk files config cand = Ok c'" "select_fork X bs cand = Ok AdoptCandidate"
    "chain_cumulative_work c = Ok (re_previous_chain_work summary)"
    "chain_cumulative_work c' = Ok (re_new_chain_work summary)"
    "common_ancestor_height X bs cand = Some (re_common_ancestor_height summary)"
    "detached = filter (\<lambda>b. bh_height (b_header b) > re_common_ancestor_height summary) bs"
    using assms by (auto simp: validate_reorg_def rbind_Ok Let_def)
  have ne: "bs \<noteq> []" "cand \<noteq> []"
    using c(3) by (auto simp: select_fork_def rbind_Ok first_block_def)
  have ok: "chain_ok X c" "c_blocks c = bs" "chain_ok X c'" "c_blocks c' = cand"
    using c(1,2) chain_from_clocked by (auto simp: build_validated_Ok)
  have "block_hash X (hd bs) = block_hash X (hd cand) \<and> work_sum bs < work_sum cand"
    using select_fork_ok [OF ok(1,3)] ne c(3) ok(2,4) by (auto split: if_splits)
  with c ne ok cumulative_work_Ok show thesis
    by (intro that [of c]) (auto simp: chain_cumulative_work_def)
qed

lemma reconcile_ready:
  assumes "chain_ok X c"
  obtains dropped records s where
    "reconcile_after_reorg X now now' c detached limit pending = Ok (dropped, records)"
    "pool_ready X c records s" "length records \<le> limit"
proof -
  let ?r = "pending @ reinsert_detached X now (set (map pr_tx_hash pending))
    (concat (map (\<lambda>b. drop 1 (b_transactions b)) detached))"
  obtain valid dropped s where v: "sanitize_pending_transactions X now' c ?r = Ok (valid, dropped, s)"
    "pool_ready X c valid s" using sanitize_ready [OF assms] by metis
  let ?b = "next_base_fee (last_block (c_blocks c))"
  have "run (pending_step X ?b) (map pr_transaction (take limit valid @ drop limit valid)) (c_state c) = Some s"
    using v(2) by (simp add: pool_ready_def)
  then obtain s1 where "run (pending_step X ?b) (map pr_transaction (take limit valid)) (c_state c) = Some s1"
    unfolding map_append run_append by (auto simp: bind_eq_Some_conv)
  moreover have "distinct (map pr_tx_hash (take limit valid))"
    using v(2) by (metis distinct_take pool_ready_def take_map)
  moreover have "pr_tx_hash ` set (take limit valid) \<inter> mined_transaction_hashes X c = {}"
    using v(2) set_take_subset [of limit valid] by (fastforce simp: pool_ready_def)
  ultimately have "pool_ready X c (take limit valid) s1" by (simp add: pool_ready_def)
  moreover have "reconcile_after_reorg X now now' c detached limit pending = Ok (dropped, take limit valid)"
    using v(1) by (simp add: reconcile_after_reorg_def Let_def)
  moreover have "length (take limit valid) \<le> limit" by (metis length_take min.cobounded2)
  ultimately show thesis by (intro that [of dropped "take limit valid" s1])
qed

lemma adopt_candidate_chain_Ok:
  assumes "adopt_candidate_chain X clk t files path cand st = (Ok summary, st')"
  obtains config bs c' s where "load_network_config (nf_config files) = Ok config"
    "load_blocks X (nd_db st) = Ok bs" "build_validated_chain X clk files config cand = Ok c'"
    "load_blocks X (nd_db st') = Ok cand" "block_hash X (hd bs) = block_hash X (hd cand)"
    "work_sum bs < work_sum cand"
    "unat (re_new_chain_work summary) = work_sum cand"
    "\<forall>b\<in>set bs. block_hash X b \<notin> block_hash X ` set cand \<longrightarrow>
       map_of (db_orphaned (nd_db st')) (hash_to_hex (block_hash X b)) \<noteq> None"
    "pool_ready X c' (nd_pending st') s" "length (nd_pending st') \<le> nc_max_mempool_transactions config"
proof -
  obtain config tip sm detached c' db dropped records where a: "load_network_config (nf_config files) = Ok config"
    "replace_validated X (t 0) tip cand (validate_reorg X clk files config tip) (nd_db st)
      = (Ok (sm, detached, c'), db)"
    "reconcile_after_reorg X (t 1) (t 2) c' detached (nc_max_mempool_transactions config) (nd_pending st)
      = Ok (dropped, records)"
    "summary = sm\<lparr>re_dropped := dropped\<rparr>" "st' = st\<lparr>nd_db := db, nd_pending := records\<rparr>"
    using assms
    by (auto simp: adopt_candidate_chain_def rbind_Ok split: sum.splits prod.splits)
  obtain bs0 where "validate_reorg X clk files config tip bs0 cand = Ok (sm, detached, c')"
    using replace_validated_validates [OF a(2)] by metis
  then have v: "build_validated_chain X clk files config cand = Ok c'" "cand \<noteq> []"
    by (rule validate_reorg_Ok, blast)+
  then have ok: "chain_ok X c'" "c_blocks c' = cand" using chain_from_clocked by (auto simp: build_validated_Ok)
  then have "structured X cand" using chain_linked_structured by (auto simp: chain_ok_def)
  then obtain bs where r: "load_blocks X (nd_db st) = Ok bs"
    "validate_reorg X clk files config tip bs cand = Ok (sm, detached, c')" "load_blocks X db = Ok cand"
    "\<forall>b\<in>set bs. block_hash X b \<notin> block_hash X ` set cand \<longrightarrow>
       map_of (db_orphaned db) (hash_to_hex (block_hash X b)) \<noteq> None"
    using replace_validated_Ok [OF a(2)] v(2) by metis
  have w: "block_hash X (hd bs) = block_hash X (hd cand)" "work_sum bs < work_sum cand"
    "unat (re_new_chain_work sm) = work_sum cand"
    by (rule validate_reorg_Ok [OF r(2)], blast)+
  obtain dropped' records' s where "reconcile_after_reorg X (t 1) (t 2) c' detached
      (nc_max_mempool_transactions config) (nd_pending st) = Ok (dropped', records')"
    "pool_ready X c' records' s" "length records' \<le> nc_max_mempool_transactions config"
    using reconcile_ready [OF ok(1)] by metis
  with a v r w show thesis by (intro that [of config bs c' s]) auto
qed

lemma adopt_candidate_chain_Err:
  assumes "adopt_candidate_chain X clk t files path cand st = (Err e, st')"
  shows "st' = st"
proof (rule ccontr)
  assume "st' \<noteq> st"
  with assms obtain config tip sm detached c' db where a:
    "replace_validated X (t 0) tip cand (validate_reorg X clk files config tip) (nd_db st)
      = (Ok (sm, detached, c'), db)"
    "reconcile_after_reorg X (t 1) (t 2) c' detached (nc_max_mempool_transactions config) (nd_pending st) = Err e"
    by (auto simp: adopt_candidate_chain_def replace_validated_def transact_Err
        split: sum.splits prod.splits)
  obtain bs0 where "validate_reorg X clk files config tip bs0 cand = Ok (sm, detached, c')"
    using replace_validated_validates [OF a(1)] by metis
  then have "build_validated_chain X clk files config cand = Ok c'" by (rule validate_reorg_Ok)
  then have "chain_ok X c'" using chain_from_clocked by (auto simp: build_validated_Ok)
  from reconcile_ready [OF this] a(2) show False by (metis sum.distinct(1))
qed

end
