(* ===== verification/Vireon_Machine.thy ===== *)
theory Vireon_Machine
  imports
    Vireon_Node
begin

text \<open>
  The node as a whole: the properties of its state-changing operations and of any sequence of
  them, with a sample node on the development network.
\<close>

section \<open>A sample node\<close>

definition sample_node :: node_state where
  "sample_node = \<lparr>nd_db = sample_db, nd_pending = []\<rparr>"

definition sample_genesis_config :: genesis_config where
  "sample_genesis_config =
     \<lparr>gc_network = Devnet, gc_network_id = network_id Devnet, gc_human_name = human_name Devnet,
      gc_status_label = status_label Devnet, gc_address_prefix = address_prefix Devnet,
      gc_timestamp = 1, gc_difficulty = 8, gc_recipient_strategy = ''fixed_address'',
      gc_recipient_address = Some (sample_address 1)\<rparr>"

definition sample_files :: node_files where
  "sample_files = \<lparr>nf_config = sample_config, nf_genesis = sample_genesis_config,
     nf_approval = Err (NodeInput ''no approval'')\<rparr>"

definition sample_path :: data_path where
  "sample_path = \<lparr>dp_components = [default_data_root Devnet], dp_display = default_data_root Devnet\<rparr>"

lemma sample_rewards_differ:
  "tx_hash sample_externals (sample_reward 1 3 1902587534) \<noteq> tx_hash sample_externals (sample_reward 0 1 1902587519)"
  by code_simp

lemma sample_spend_summary:
  "\<exists>s'. apply_transaction sample_externals (sample_spend 1 5 15) 1 sample_ledger
      = (Ok \<lparr>fs_total_fee = 16, fs_burned_fee = 1, fs_priority_fee = 15\<rparr>, s')"
proof -
  have "unat (balance_of sample_ledger (sample_address 1)) = 1902587519"
    "unat (balance_of (set_balance (sample_address 1) v sample_ledger) (sample_address 2)) = 0" for v
    using sample_address_differ by (simp_all add: sample_ledger_view bal.get_put)
  then show ?thesis
    using sample_spend_validates [of 15] sample_spend_fees [of 15 1]
    by (simp add: apply_spend_iff sample_ledger_view amount_checked_sub_def checked_sub_def
        amount_checked_add_def checked_add_def)
qed

lemma sample_next_applies:
  "\<exists>sm s'. apply_block sample_externals sample_next sample_ledger = (Ok sm, s')"
proof -
  let ?c = "sample_reward 1 3 1902587534" and ?t = "sample_spend 1 5 15"
  have c: "is_coinbase ?c" "tx_max_fee ?c = 0" "tx_priority_fee ?c = 0" "tx_amount ?c = 1902587534"
    by (simp_all add: is_coinbase_def sample_reward_def sample_coinbase_def)
  have r: "block_reward 1 = 1902587519" by (simp add: word_unat_eq_iff unat_block_reward)
  have "validate_coinbase_structure [?c, ?t] = Ok ?c"
    using c by (simp add: validate_coinbase_structure_Ok)
  moreover have "validate_fee_against_base_fee ?t 1 = Ok ()" by (simp add: validate_fee_Ok)
  then have "expected_coinbase_amount 1 1 [?c, ?t] = Ok 1902587534"
    using sample_spend_fees [of 15 1]
    by (simp add: expected_coinbase_amount_def Let_def r amount_checked_add_def checked_add_def)
  moreover have "\<not> (61::u64) \<le> 1" by (simp add: word_le_nat_alt)
  moreover have "simulate_block sample_externals sample_ledger 1 [?t] = Ok (16, 1, 15)"
    using sample_spend_summary
    by (auto simp: simulate_block_def simulate_step_def mbind_def mlift_def mret_def
        amount_checked_add_def checked_add_def)
  ultimately obtain sm where sm: "validate_block_against_state sample_externals sample_ledger sample_next = Ok sm"
    using c r
    by (simp add: validate_block_against_state_def Let_def sample_next_def sample_ledger_view
        amount_checked_add_def checked_add_def core_constants)
  have "hash_to_hex (tx_hash sample_externals ?c) \<notin> ls_applied_hashes sample_ledger
      \<union> (\<lambda>t. hash_to_hex (tx_hash sample_externals t)) ` {?t}"
    using sample_rewards_differ sample_hashes_differ by (auto simp: sample_ledger_hashes)
  then have new: "hash_to_hex (tx_hash sample_externals ?c) \<notin> ls_applied_hashes sample_ledger
      \<union> (\<lambda>t. hash_to_hex (tx_hash sample_externals t)) ` set [?t]" by simp
  obtain coinbase spends s1 where v: "b_transactions sample_next = coinbase # spends"
    "apply_spends sample_externals (bs_base_fee sm) spends sample_ledger = (Ok (), s1)"
    "ls_applied_hashes s1 = ls_applied_hashes sample_ledger
       \<union> (\<lambda>t. hash_to_hex (tx_hash sample_externals t)) ` set spends"
    "hash_to_hex (tx_hash sample_externals coinbase) \<notin> ls_applied_hashes s1 \<longrightarrow>
       (\<exists>s'. apply_block sample_externals sample_next sample_ledger = (Ok sm, s'))"
    by (rule apply_block_validated [OF sample_ledger_inv sm]) (rule that)
  have "b_transactions sample_next = [?c, ?t]" by (simp add: sample_next_def)
  then have "coinbase = ?c" "spends = [?t]" using v(1) by (metis list.inject)+
  with v(3,4) new show ?thesis by blast
qed

definition sample_grown :: chain where
  "sample_grown = sample_chain\<lparr>c_state := snd (apply_block sample_externals sample_next sample_ledger),
     c_blocks := [sample_genesis, sample_next]\<rparr>"

lemma sample_next_appends: "append_block sample_externals 0 sample_next sample_chain = (Ok (), sample_grown)"
  using sample_next_valid sample_next_applies
  by (auto simp: append_block_Ok sample_chain_def sample_grown_def last_block_def sample_ledger_view)

lemma sample_build:
  "build_validated_chain sample_externals (\<lambda>_. 0) sample_files sample_config [sample_genesis] = Ok sample_chain"
  "build_validated_chain sample_externals (\<lambda>_. 0) sample_files sample_config [sample_genesis, sample_next]
     = Ok sample_grown"
proof -
  show g: "build_validated_chain sample_externals (\<lambda>_. 0) sample_files sample_config [sample_genesis] = Ok sample_chain"
    using sample_chain_built by (simp add: build_validated_Ok sample_config_def clocked_def requires_explicit_allow_def)
  show "build_validated_chain sample_externals (\<lambda>_. 0) sample_files sample_config [sample_genesis, sample_next]
     = Ok sample_grown"
    using build_validated_snoc [OF g] sample_next_appends by simp
qed

lemma sample_load_chain: "load_chain_only sample_externals (\<lambda>_. 0) sample_db = Ok sample_chain"
proof -
  have "block_network sample_genesis = Ok Devnet" by (rule sample_genesis_network)
  then show ?thesis using sample_chain_built sample_db_loads
    by (simp add: load_chain_only_def first_block_def clocked_def)
qed

section \<open>Transactions\<close>

lemma admitted_pool:
  assumes "submit_transaction X clk t limit tx st = (Ok summary, st')"
  obtains c kept s where "load_chain_only X clk (nd_db st) = Ok c" "nd_db st' = nd_db st"
    "nd_pending st' = kept @ [\<lparr>pr_tx_hash = tx_hash_string X tx, pr_received_at = t 3, pr_transaction = tx\<rparr>]"
    "mset kept \<subseteq># mset (nd_pending st)" "pool_ready X c (nd_pending st') s" "length (nd_pending st') \<le> limit"
    "\<forall>a. tx_from tx = Some a \<longrightarrow> length (records_of a (nd_pending st')) \<le> MAX_PENDING_TXS_PER_SENDER"
    "su_mempool_size summary = length (nd_pending st')"
proof -
  let ?new = "\<lparr>pr_tx_hash = tx_hash_string X tx, pr_received_at = t 3, pr_transaction = tx\<rparr>"
  obtain c valid0 s0 rs1 s1 rs s dropped fs s' where a:
    "load_chain_only X clk (nd_db st) = Ok c" "tx_hash_string X tx \<notin> mined_transaction_hashes X c"
    "sanitize_pending_transactions X (t 0) c (nd_pending st) = Ok (valid0, dropped, s0)"
    "tx_hash_string X tx \<notin> pr_tx_hash ` set valid0"
    "enforce_sender_cap X (t 1) c (tx_from tx) (valid0, s0) = Ok (rs1, s1)"
    "make_room X (t 2) c limit tx (rs1, s1) = Ok (rs, s)"
    "validate_pending_transaction X s tx (next_base_fee (last_block (c_blocks c))) = Ok ()"
    "apply_transaction X tx (next_base_fee (last_block (c_blocks c))) s = (Ok fs, s')"
    "st' = st\<lparr>nd_pending := rs @ [?new]\<rparr>" "su_mempool_size summary = length rs + 1"
    using submit_transaction_Ok [OF assms] by metis
  have ok: "chain_ok X c" using a(1) by (rule load_chain_only_Ok)
  note v = sanitize_readyD [OF ok a(3)]
  note e = enforce_sender_cap_Ok [OF ok v(1) a(5)]
  note m = make_room_Ok [OF ok e(1) a(6)]
  have sub: "mset rs \<subseteq># mset valid0" using subset_mset.order_trans [OF m(2) e(2)] .
  then have "set rs \<subseteq> set valid0" using set_mset_mono by fastforce
  moreover have "pending_step X (next_base_fee (last_block (c_blocks c))) tx s = Some s'"
    using a(7,8) by (simp add: pending_step_Some)
  ultimately have "pool_ready X c (rs @ [?new]) s'"
    using m(1) a(2,4) by (auto simp: pool_ready_def run_append)
  moreover have "length (records_of b (rs @ [?new])) \<le> MAX_PENDING_TXS_PER_SENDER" if "tx_from tx = Some b" for b
    using e(3) [OF that] records_of_mono [OF m(2), of b] by (simp add: records_of_def)
  ultimately show thesis
    using a(1,9,10) m(3) subset_mset.order_trans [OF sub v(2)] by (intro that [of c rs s']) auto
qed

lemma admitted_nonce:
  assumes "submit_transaction X clk t limit tx st = (Ok summary, st')" and "tx_from tx = Some a"
    and "load_chain_only X clk (nd_db st) = Ok c" and "unat (next_nonce_of (c_state c) a) + 32 < 2 ^ 64"
  shows "unat (tx_nonce tx) + 1 = unat (next_nonce_of (c_state c) a) + length (records_of a (nd_pending st'))
    \<and> unat (tx_nonce tx) < unat (next_nonce_of (c_state c) a) + MAX_PENDING_TXS_PER_SENDER"
proof -
  let ?b = "next_base_fee (last_block (c_blocks c))"
  obtain kept s where p: "nd_pending st' = kept @ [\<lparr>pr_tx_hash = tx_hash_string X tx, pr_received_at = t 3,
      pr_transaction = tx\<rparr>]" "pool_ready X c (nd_pending st') s"
    "length (records_of a (nd_pending st')) \<le> MAX_PENDING_TXS_PER_SENDER"
    using admitted_pool [OF assms(1)] assms(2,3) by (metis Inr_inject)
  have n: "length (records_of a (nd_pending st')) = length (records_of a kept) + 1"
    using assms(2) by (simp add: p(1) records_of_def)
  obtain s1 where s1: "run (pending_step X ?b) (map pr_transaction kept) (c_state c) = Some s1"
    "pending_step X ?b tx s1 = Some s"
    using p(2) by (auto simp: p(1) pool_ready_def run_append bind_eq_Some_conv)
  have "unat (next_nonce_of s1 a) = unat (next_nonce_of (c_state c) a) + length (records_of a kept)"
    using run_nonce [OF s1(1), of a] n p(3) assms(4) by (simp add: sent_by_records MAX_PENDING_TXS_PER_SENDER_def)
  moreover have "tx_nonce tx = next_nonce_of s1 a"
    using s1(2) assms(2) applied_nonce by (fastforce simp: pending_step_Some validate_pending_Ok)
  ultimately show ?thesis using n p(3) by simp
qed

lemma sample_submits:
  "\<exists>summary st'. submit_transaction sample_externals (\<lambda>_. 0) (\<lambda>_. 0) 1 (sample_spend 1 5 15) sample_node
      = (Ok summary, st')"
proof -
  let ?tx = "sample_spend 1 5 15"
  have fee: "next_base_fee (Some sample_genesis) = 1" by (rule sample_base_fee)
  have mined: "tx_hash_string sample_externals ?tx \<notin> mined_transaction_hashes sample_externals sample_chain"
    using sample_hashes_differ [of 0 1 1902587519 1 5 15]
    by (auto simp: mined_transaction_hashes_def tx_hash_string_def sample_chain_def sample_genesis_def)
  have "sanitize_pending_transactions sample_externals 0 sample_chain [] = Ok ([], [], sample_ledger)"
    by (simp add: sanitize_pending_transactions_def sanitize_pending_transactions_with_age_def
        filter_pending_candidates_def sort_pending_for_admission_def sample_chain_def mret_def)
  moreover obtain fs s' where "apply_transaction sample_externals ?tx 1 sample_ledger = (Ok fs, s')"
    using sample_spend_applies by blast
  moreover have "enforce_sender_cap sample_externals 0 sample_chain (Some a) ([], sample_ledger) = Ok ([], sample_ledger)"
    "make_room sample_externals 0 sample_chain 1 ?tx ([], sample_ledger) = Ok ([], sample_ledger)" for a
    by (simp_all add: enforce_sender_cap_def sender_indices_def MAX_PENDING_TXS_PER_SENDER_def make_room_def)
  moreover have "c_network sample_chain = Devnet" "next_base_fee (last_block (c_blocks sample_chain)) = 1"
    by (simp_all add: sample_chain_def last_block_def fee)
  moreover have "validate_pending_transaction sample_externals sample_ledger ?tx 1 = Ok ()"
    using sample_spend_validates [of 15] by (simp add: validate_pending_Ok sample_address_parse is_ok_iff)
  ultimately show ?thesis
    using mined by (simp add: submit_transaction_def sample_node_def sample_load_chain Let_def sample_spend_network)
qed

text \<open>
  C18: Submitting a transaction either changes nothing or appends exactly this transaction to a part
  of the old pool. The new pool can be mined as it is: its transactions apply in order from the
  ledger of the stored chain, their hashes are different and none is already mined. It is within
  the configured limit, and the sender has at most 32 records in it.
\<close>

theorem submit_transaction_admits:
  assumes "submit_transaction X clk t limit tx st = (res, st')"
  shows "case res of
      Inl e \<Rightarrow> st' = st
    | Inr summary \<Rightarrow> \<exists>c kept s. load_chain_only X clk (nd_db st) = Ok c \<and> nd_db st' = nd_db st
        \<and> nd_pending st' = kept @ [\<lparr>pr_tx_hash = tx_hash_string X tx, pr_received_at = t 3, pr_transaction = tx\<rparr>]
        \<and> mset kept \<subseteq># mset (nd_pending st) \<and> pool_ready X c (nd_pending st') s
        \<and> length (nd_pending st') \<le> limit
        \<and> (\<forall>a. tx_from tx = Some a \<longrightarrow> length (records_of a (nd_pending st')) \<le> MAX_PENDING_TXS_PER_SENDER)
        \<and> su_mempool_size summary = length (nd_pending st')"
proof (cases res)
  case (Inl e)
  with assms show ?thesis by (simp add: submit_transaction_Err)
next
  case (Inr summary)
  show ?thesis unfolding Inr sum.case by (rule admitted_pool [OF assms [unfolded Inr]]) blast
qed

theorem submit_transaction_admits_witness:
  "\<exists>summary st'. submit_transaction sample_externals (\<lambda>_. 0) (\<lambda>_. 0) 1 (sample_spend 1 5 15) sample_node
      = (Ok summary, st') \<and> length (nd_pending st') = 1"
proof -
  obtain summary st' where s: "submit_transaction sample_externals (\<lambda>_. 0) (\<lambda>_. 0) 1 (sample_spend 1 5 15)
      sample_node = (Ok summary, st')" using sample_submits by blast
  from submit_transaction_admits [OF s] have "length (nd_pending st') = 1"
    by (auto simp: sample_node_def)
  with s show ?thesis by blast
qed

text \<open>
  A sender never runs ahead of the ledger by 32 nonces: an admitted transaction has the nonce
  that follows the sender's remaining records, and there are at most 31 of them. So a sender at
  the cap is refused the next nonce in sequence although its lowest tips are evicted to make
  room for it; only a transaction that takes the nonce of an evicted one gets in.
\<close>

theorem admitted_nonce_follows_pool:
  assumes "submit_transaction X clk t limit tx st = (Ok summary, st')" and "tx_from tx = Some a"
    and "load_chain_only X clk (nd_db st) = Ok c" and "unat (next_nonce_of (c_state c) a) + 32 < 2 ^ 64"
  shows "unat (tx_nonce tx) + 1 = unat (next_nonce_of (c_state c) a) + length (records_of a (nd_pending st'))
    \<and> unat (tx_nonce tx) < unat (next_nonce_of (c_state c) a) + MAX_PENDING_TXS_PER_SENDER"
  using admitted_nonce [OF assms] .

theorem admitted_nonce_follows_pool_witness:
  "\<exists>summary st'. submit_transaction sample_externals (\<lambda>_. 0) (\<lambda>_. 0) 1 (sample_spend 1 5 15) sample_node
      = (Ok summary, st') \<and> length (records_of (sample_address 1) (nd_pending st')) = 1"
proof -
  obtain summary st' where s: "submit_transaction sample_externals (\<lambda>_. 0) (\<lambda>_. 0) 1 (sample_spend 1 5 15)
      sample_node = (Ok summary, st')" using sample_submits by blast
  have "next_nonce_of (c_state sample_chain) (sample_address 1) = 1"
    by (simp add: sample_chain_def sample_ledger_view)
  with admitted_nonce_follows_pool [OF s, of "sample_address 1" sample_chain] s show ?thesis
    by (auto simp: sample_node_def sample_load_chain)
qed

section \<open>Templates\<close>

lemma pending_step_spend:
  assumes "pending_step X b tx s = Some s'"
  shows "tx_verify X tx = Ok ()" and "hash_to_hex (tx_hash X tx) \<notin> ls_applied_hashes s"
    and "ls_applied_hashes s' = insert (hash_to_hex (tx_hash X tx)) (ls_applied_hashes s)"
proof -
  obtain fs where a: "apply_transaction X tx b s = (Ok fs, s')" "\<not> is_coinbase tx"
    "validate_transaction_against_state X s tx b = Ok ()"
    using assms by (auto simp: pending_step_Some validate_pending_Ok)
  then show "tx_verify X tx = Ok ()" unfolding validate_spend_Ok [OF a(2)] by blast
  show "hash_to_hex (tx_hash X tx) \<notin> ls_applied_hashes s"
    "ls_applied_hashes s' = insert (hash_to_hex (tx_hash X tx)) (ls_applied_hashes s)"
    using apply_transaction_hashes [OF a(1)] by simp_all
qed

lemma run_spends:
  "run (pending_step X b) ts s = Some s' \<Longrightarrow>
     distinct (map (tx_hash X) ts) \<and> (\<forall>tx\<in>set ts. tx_verify X tx = Ok ())
     \<and> (\<forall>tx\<in>set ts. hash_to_hex (tx_hash X tx) \<notin> ls_applied_hashes s)"
proof (induction ts arbitrary: s)
  case (Cons tx ts)
  then obtain s1 where s1: "pending_step X b tx s = Some s1" "run (pending_step X b) ts s1 = Some s'"
    by (cases "pending_step X b tx s") auto
  from Cons.IH [OF s1(2)] pending_step_spend [OF s1(1)] show ?case by auto
qed simp

lemma coinbase_verifies: "tx_coinbase X h to amt = Ok tx \<Longrightarrow> tx_verify X tx = Ok ()"
  by (auto simp: tx_coinbase_def tx_new_def tx_verify_def Let_def rbind_Ok is_coinbase_def)

lemma template_coinbase:
  assumes "tip_fold b 0 txs = Ok tips" and "amount_checked_add (block_reward h) tips = Ok amt"
    and "tx_coinbase X h miner amt = Ok coinbase" and "run (pending_step X b) txs s = Some s'"
  shows "validate_coinbase_amount h b (coinbase # txs) = Ok amt"
proof -
  have "list_all (\<lambda>tx. \<not> is_coinbase tx) txs" using assms(4)
  proof (induction txs arbitrary: s)
    case (Cons tx ts)
    then show ?case
      by (cases "pending_step X b tx s") (auto simp: pending_step_Some validate_pending_Ok)
  qed simp
  with tx_coinbase_Ok [OF assms(3)] have "validate_coinbase_structure (coinbase # txs) = Ok coinbase"
    by (simp add: validate_coinbase_structure_Ok)
  moreover have "expected_coinbase_amount h b (coinbase # txs) = Ok amt"
    using assms(1,2) by (simp add: expected_coinbase_amount_def Let_def tip_fold_def)
  ultimately show ?thesis
    using tx_coinbase_Ok [OF assms(3)] by (simp add: validate_coinbase_amount_def)
qed

lemma next_difficulty_fallback:
  "bs \<noteq> [] \<Longrightarrow> next_difficulty_for_network n bs d = next_difficulty_for_network n bs d'"
  by (simp add: next_difficulty_for_network_def lwma_next_difficulty_eq)

lemma chain_linked_times:
  assumes "chain_linked X n bs" and "b \<in> set bs"
  shows "bh_timestamp (b_header b) \<le> bh_timestamp (b_header (last bs))"
proof -
  have up: "i \<le> j \<Longrightarrow> j < length bs \<Longrightarrow> bh_timestamp (b_header (bs ! i)) \<le> bh_timestamp (b_header (bs ! j))" for i j
  proof (induction j rule: dec_induct)
    case (step k)
    then have "bh_timestamp (b_header (bs ! k)) < bh_timestamp (b_header (bs ! Suc k))"
      using assms(1) by (auto simp: chain_linked_def Let_def)
    with step show ?case by simp
  qed simp
  obtain i where "i < length bs" "b = bs ! i" using assms(2) by (metis in_set_conv_nth)
  moreover from this have "last bs = bs ! (length bs - 1)" by (intro last_conv_nth) auto
  ultimately show ?thesis using up [of i "length bs - 1"] by simp
qed

text \<open>
  A block with the fields of a template, a valid proof of work and transactions within the
  limits of the chain's network is accepted, unless its coinbase repeats a known hash.
\<close>

lemma filled_block_appends:
  assumes "chain_ok X c" and "c_blocks c \<noteq> []" and "length (c_blocks c) < 2 ^ 64"
    and "bh_timestamp (b_header (last (c_blocks c))) \<noteq> - 1"
    and "\<forall>a. unat (next_nonce_of (c_state c) a) + length txs < 2 ^ 64"
    and "run (pending_step X (next_base_fee (last_block (c_blocks c)))) txs (c_state c) = Some s"
    and "fills_template X c config miner txs blk" and "nc_network config = c_network c"
    and "length txs < MAX_TRANSACTIONS_PER_BLOCK"
    and "is_ok (ensure_valid X blk)" and "unat (bh_timestamp (b_header blk)) \<le> unat now + 7200"
    and "validate_checkpoint (c_network c) (bh_height (b_header blk)) (block_hash X blk) = Ok ()"
    and "\<forall>tx\<in>set (b_transactions blk). length (tx_encode X tx) \<le> MAX_TRANSACTION_WIRE_BYTES
           \<and> tx_network X tx = Ok (c_network c)"
    and "hash_to_hex (tx_hash X (hd (b_transactions blk)))
           \<notin> ls_applied_hashes (c_state c) \<union> tx_hash_string X ` set txs"
  shows "\<exists>c'. append_block X now blk c = (Ok (), c')"
proof -
  let ?tip = "last (c_blocks c)" and ?h = "b_header blk"
  have last: "last_block (c_blocks c) = Some ?tip" using assms(2) by (simp add: last_block_def)
  note f = assms(7) [unfolded fills_template_def Let_def]
  obtain coinbase tips amt where cb: "b_transactions blk = coinbase # txs"
    "tip_fold (next_base_fee (Some ?tip)) 0 txs = Ok tips"
    "amount_checked_add (block_reward (bh_height ?h)) tips = Ok amt" "tx_coinbase X (bh_height ?h) miner amt = Ok coinbase"
    using f by auto
  note c = tx_coinbase_Ok [OF cb(4)] and spends = run_spends [OF assms(6)]
  obtain sm where sm: "validate_block_against_state X (c_state c) blk = Ok sm"
    using template_ledger [OF assms(1-7)] by blast
  obtain coinbase' spends' s1 where v: "b_transactions blk = coinbase' # spends'"
    "apply_spends X (bs_base_fee sm) spends' (c_state c) = (Ok (), s1)"
    "ls_applied_hashes s1 = ls_applied_hashes (c_state c) \<union> (\<lambda>t. hash_to_hex (tx_hash X t)) ` set spends'"
    "hash_to_hex (tx_hash X coinbase') \<notin> ls_applied_hashes s1 \<longrightarrow> (\<exists>s'. apply_block X blk (c_state c) = (Ok sm, s'))"
    by (rule apply_block_validated [OF chain_ok_ledger(1) [OF assms(1)] sm]) (rule that)
  have "\<exists>s'. apply_block X blk (c_state c) = (Ok sm, s')"
    using v(1,3,4) assms(14) cb(1) by (simp add: tx_hash_string_def)
  moreover have "block_acceptable X now (c_network c) (c_blocks c) (Some ?tip) blk (ls_emitted_supply (c_state c))"
  proof -
    let ?n = "c_network c"
    have txs: "\<forall>tx\<in>set (b_transactions blk). tx_verify X tx = Ok ()" "distinct (map (tx_hash X) (b_transactions blk))"
      using spends assms(14) coinbase_verifies [OF cb(4)] by (auto simp: cb(1) tx_hash_string_def)
    have d: "bh_difficulty ?h = next_difficulty_for_network ?n (c_blocks c) d" for d
      using f assms(8) next_difficulty_fallback [OF assms(2)] by metis
    have range: "minimum_difficulty_leading_zero_bits ?n \<le> bh_difficulty ?h"
      "bh_difficulty ?h \<le> maximum_difficulty_leading_zero_bits ?n"
      using lwma_bounds [OF difficulty_range assms(2)] unfolding d [of 0] next_difficulty_for_network_def by blast+
    have later: "bh_timestamp (b_header ?tip) < bh_timestamp ?h"
      and capped: "unat (ls_emitted_supply (c_state c)) + unat (block_reward (bh_height ?h)) \<le> unat MAX_SUPPLY_ATOMIC"
      using chain_ledger_tip(3) [OF assms(1,2)] by (auto intro: validate_block_OkE [OF sm])
    have "validate_median_time_past (c_blocks c) blk = Ok ()"
      using chain_linked_times assms(1,2) later by (intro mtp_implied) (auto simp: chain_ok_def)
    moreover have "is_ok (validate_coinbase_amount (bh_height ?h) (bh_base_fee_atomic ?h) (b_transactions blk))"
      using template_coinbase [OF cb(2-4)] f assms(6) by (simp add: cb(1) last)
    ultimately show ?thesis
      using f d [of "bh_difficulty ?h"] range later capped txs assms(8-13) cb(1)
      by (simp add: block_acceptable_def Let_def validate_median_Ok)
  qed
  ultimately show ?thesis
    by (auto simp: append_block_Ok last validate_next_block_iff)
qed

text \<open>
  A solved template is accepted. Whatever the pool holds, a block with the transactions and the
  header of a template built on a stored chain, completed with a nonce and mix hash that pass
  the proof-of-work check, extends that chain: header rules, coinbase amount, fees, nonces,
  balances and supply all hold. What remains to assume is about the inputs: the clock has not
  fallen behind the block, the transactions are within the wire limit and of this network, no
  checkpoint contradicts the block, the coinbase does not repeat a known hash, and heights,
  nonces and timestamps are not at the end of 64 bits.
\<close>

theorem mined_template_accepted:
  assumes "build_validated_chain X clk files config bs = Ok c"
    and "template_on_chain X t config bs c path miner limit pending = Ok tmpl"
    and "b_transactions blk = b_transactions (bt_block tmpl)"
    and "b_header blk = (b_header (bt_block tmpl))\<lparr>bh_nonce := nonce, bh_mix_hash := mix\<rparr>"
    and "is_ok (ensure_valid X blk)" and "unat (bh_timestamp (b_header blk)) \<le> unat now + 7200"
    and "validate_checkpoint (c_network c) (bh_height (b_header blk)) (block_hash X blk) = Ok ()"
    and "\<forall>tx\<in>set (b_transactions blk). length (tx_encode X tx) \<le> MAX_TRANSACTION_WIRE_BYTES
           \<and> tx_network X tx = Ok (c_network c)"
    and "hash_to_hex (tx_hash X (hd (b_transactions blk)))
           \<notin> ls_applied_hashes (c_state c) \<union> tx_hash_string X ` set (tl (b_transactions blk))"
    and "length bs < 2 ^ 64" and "bh_timestamp (b_header (last bs)) \<noteq> - 1"
    and "\<forall>a. unat (next_nonce_of (c_state c) a) + MAX_TRANSACTIONS_PER_BLOCK \<le> 2 ^ 64"
  shows "\<exists>c'. append_block X now blk c = (Ok (), c') \<and> chain_ok X c' \<and> c_blocks c' = bs @ [blk]"
proof -
  have c: "chain_ok X c" "c_blocks c = bs" "c_network c = nc_network config"
    using assms(1) chain_from_clocked by (auto simp: build_validated_Ok)
  obtain sel :: "pending_record list" and s where sel: "bs \<noteq> []"
    "run (pending_step X (next_base_fee (last_block bs))) (map pr_transaction sel) (c_state c) = Some s"
    "length sel < MAX_TRANSACTIONS_PER_BLOCK"
    "fills_template X c config miner (map pr_transaction sel) (bt_block tmpl)"
    using template_on_chain_Ok [OF c(1), of t config path miner limit pending tmpl] assms(2) c(2) by metis
  have fills: "fills_template X c config miner (map pr_transaction sel) blk"
    using sel(4) by (simp add: fills_template_def Let_def assms(3,4))
  then have "tl (b_transactions blk) = map pr_transaction sel" by (auto simp: fills_template_def Let_def)
  moreover have "\<forall>a. unat (next_nonce_of (c_state c) a) + length (map pr_transaction sel) < 2 ^ 64"
    using assms(12) sel(3) by (metis add_strict_left_mono length_map less_le_trans)
  ultimately obtain c' where c': "append_block X now blk c = (Ok (), c')"
    using filled_block_appends [OF c(1), of "map pr_transaction sel" s config miner blk now]
      c(2,3) sel fills assms(5-11) by auto
  then have "chain_step X (now, blk) c = Some c'" by (simp add: chain_step_Some)
  then have "chain_ok X c'" by (rule chain.step_inv [OF c(1)])
  with c' c(2) show ?thesis by (auto simp: append_block_Ok)
qed

lemma sample_ledger_nonce: "next_nonce_of sample_ledger a = 1"
proof -
  obtain sm where l: "sample_ledger = record_block sample_externals sample_genesis sm 1902587519
     (coinbase_state sample_externals (sample_reward 0 1 1902587519) 1902587519 ledger_new)"
    using sample_ledger_state by blast
  show ?thesis unfolding l
    by (simp add: record_block_def Let_def coinbase_state_def next_nonce_of_def set_balance_def
        ledger_new_def FIRST_ACCOUNT_NONCE_def)
qed

lemma sample_template_coinbase:
  "tx_coinbase sample_externals 1 (sample_address 3) 1902587519 = Ok (sample_reward 1 3 1902587519)"
  "length (tx_encode sample_externals (sample_reward 1 3 1902587519)) \<le> MAX_TRANSACTION_WIRE_BYTES"
  "tx_network sample_externals (sample_reward 1 3 1902587519) = Ok Devnet"
  "tx_hash sample_externals (sample_reward 1 3 1902587519) \<noteq> tx_hash sample_externals (sample_reward 0 1 1902587519)"
  by code_simp+

definition sample_template_block :: block where
  "sample_template_block = sample_next\<lparr>
     b_header := (b_header sample_next)\<lparr>
       bh_merkle_root := tx_hash sample_externals (sample_reward 1 3 1902587519), bh_nonce := 0\<rparr>,
     b_transactions := [sample_reward 1 3 1902587519]\<rparr>"

lemma sample_template:
  "\<exists>tmpl. template_on_chain sample_externals (\<lambda>_. 61) sample_config [sample_genesis] sample_chain path
       (sample_address 3) 2 [] = Ok tmpl \<and> bt_block tmpl = sample_template_block"
proof -
  have sel: "select_pending_for_template sample_externals 61 sample_chain [] 2 = Ok ([], [])"
    using select_total [OF sample_chain_ok, of 2 61 "[]"] by auto
  have chain: "next_base_fee (Some sample_genesis) = 1" "median_time_past [sample_genesis] = Some 1"
    "saturating_add (1::u64) 1 = 2"
    by (simp_all add: sample_base_fee sample_median saturating_add_def checked_add_def)
  have head: "bh_height (b_header sample_genesis) = 0" "bh_timestamp (b_header sample_genesis) = 1"
    "bh_difficulty (b_header sample_genesis) = 8"
    by (simp_all add: sample_genesis_def)
  have rules: "next_difficulty_for_network Devnet [sample_genesis] d = 8"
    "block_reward 1 = 1902587519" "expected_block_version Devnet 1 = 1" for d
    by (simp_all add: next_difficulty_for_network_def lwma_next_difficulty_def head clamp_def
        word_unat_eq_iff unat_block_reward) code_simp
  have "compute_merkle_root sample_externals [sample_reward 1 3 1902587519]
      = Ok (tx_hash sample_externals (sample_reward 1 3 1902587519))"
    by (simp add: compute_merkle_root_def merkle_loop.simps)
  moreover have "min (min 2 (nc_max_mempool_transactions sample_config)) (MAX_TRANSACTIONS_PER_BLOCK - Suc 0) = 2"
    "nc_network sample_config = Devnet"
    by (simp_all add: sample_config_def MAX_TRANSACTIONS_PER_BLOCK_def)
  ultimately show ?thesis
    by (simp add: template_on_chain_def Let_def sel last_block_def chain head rules sample_template_coinbase(1)
        sample_block_hash block_new_def block_new_with_version_def amount_checked_add_def checked_add_def)
      (simp add: sample_template_block_def sample_next_def max_def LAUNCH_BLOCK_VERSION_def)
qed

theorem mined_template_accepted_witness:
  "\<exists>c'. append_block sample_externals 0 sample_template_block sample_chain = (Ok (), c')
     \<and> c_blocks c' = [sample_genesis, sample_template_block]"
proof -
  obtain tmpl where t: "template_on_chain sample_externals (\<lambda>_. 61) sample_config [sample_genesis] sample_chain []
       (sample_address 3) 2 [] = Ok tmpl" "bt_block tmpl = sample_template_block"
    using sample_template by blast
  let ?h = "b_header sample_template_block"
  have h: "bh_nonce ?h = 0" "bh_mix_hash ?h = hash_zero" "bh_timestamp ?h = 61" "bh_height ?h = 1"
    "bh_difficulty ?h = 8" "b_transactions sample_template_block = [sample_reward 1 3 1902587519]"
    by (simp_all add: sample_template_block_def sample_next_def)
  have "is_ok (ensure_valid sample_externals sample_template_block)"
    by (rule sample_ensure_valid) (simp_all add: h)
  moreover have "validate_checkpoint Devnet 1 hash_zero = Ok ()" by code_simp
  moreover have "bh_timestamp (b_header sample_genesis) \<noteq> - 1" by (simp add: sample_genesis_def)
  moreover have "\<forall>a. unat (next_nonce_of (c_state sample_chain) a) + MAX_TRANSACTIONS_PER_BLOCK \<le> 2 ^ 64"
    by (simp add: sample_chain_def sample_ledger_nonce MAX_TRANSACTIONS_PER_BLOCK_def)
  moreover have "hash_to_hex (tx_hash sample_externals (sample_reward 1 3 1902587519))
      \<notin> ls_applied_hashes (c_state sample_chain)"
    using sample_template_coinbase(4) by (simp add: sample_chain_def sample_ledger_hashes)
  moreover have "c_network sample_chain = Devnet" by (simp add: sample_chain_def)
  ultimately have "\<exists>c'. append_block sample_externals 0 sample_template_block sample_chain = (Ok (), c')
      \<and> chain_ok sample_externals c' \<and> c_blocks c' = [sample_genesis] @ [sample_template_block]"
    using sample_template_coinbase(2,3)
    by (intro mined_template_accepted [OF sample_build(1) t(1), where nonce = 0 and mix = hash_zero])
      (simp_all add: t(2) h sample_block_hash)
  then show ?thesis by auto
qed

section \<open>Reorganisations\<close>

text \<open>A heavier chain for the sample node: the genesis block and one child of it.\<close>

lemma sample_block_hashes:
  "block_hash sample_externals sample_genesis = hash_zero"
  "block_hash sample_externals sample_next \<noteq> block_hash sample_externals sample_genesis"
  by (simp_all add: sample_block_hash_nonce hash_zero_def HASH_SIZE_def numeral_eq_Suc)

lemma sample_grown_ok: "chain_ok sample_externals sample_grown" "c_blocks sample_grown = [sample_genesis, sample_next]"
  using chain_from_clocked sample_build(2) by (auto simp: build_validated_Ok)

lemma sample_reorg_validates:
  "\<exists>summary. validate_reorg sample_externals (\<lambda>_. 0) sample_files sample_config tip [sample_genesis] [sample_genesis, sample_next]
     = Ok (summary, [], sample_grown)"
proof -
  have heights: "bh_height (b_header sample_genesis) = 0" "bh_difficulty (b_header sample_genesis) = 8"
     by (simp_all add: sample_genesis_def)
  have w: "work_sum [sample_genesis] < work_sum [sample_genesis, sample_next]"
    by (simp add: work_sum_def)
  then have "select_fork sample_externals [sample_genesis] [sample_genesis, sample_next] = Ok AdoptCandidate"
    using select_fork_ok [OF sample_chain_ok sample_grown_ok(1)] sample_grown_ok(2) by (simp add: sample_chain_def)
  moreover have "common_ancestor_height sample_externals [sample_genesis] [sample_genesis, sample_next] = Some 0"
    by (simp add: common_ancestor_height_def heights)
  moreover have "\<exists>w. chain_cumulative_work sample_chain = Ok w" "\<exists>w. chain_cumulative_work sample_grown = Ok w"
    using chain_ok_work [OF sample_chain_ok] chain_ok_work [OF sample_grown_ok(1)] by (auto simp: chain_cumulative_work_def)
  ultimately show ?thesis using sample_build by (auto simp: validate_reorg_def heights)
qed

lemma sample_db_grows:
  "\<exists>db. replace_canonical_chain sample_externals now [sample_genesis] [sample_genesis, sample_next] tip sample_db = Ok db"
proof -
  have "height_to_i64 (bh_height (b_header sample_genesis)) = Ok 0" "height_to_i64 (bh_height (b_header sample_next)) = Ok 1"
    by (simp_all add: height_to_i64_def sample_genesis_def sample_next_def)
  then show ?thesis using sample_block_hashes(2) [symmetric]
    by (simp add: replace_canonical_chain_def sample_db_def insert_canonical_block_def)
qed

lemma sample_paths:
  "load_network_config (nf_config sample_files) = Ok sample_config"
  "ensure_network_storage_path (nc_network sample_config) sample_path = Ok ()"
  using sample_config_valid
  by (simp_all add: load_network_config_def sample_files_def ensure_network_storage_path_def sample_path_def)
    (simp add: sample_config_def)

lemma sample_adopts:
  "\<exists>summary st'. adopt_candidate_chain sample_externals (\<lambda>_. 0) (\<lambda>_. 0) sample_files sample_path
      [sample_genesis, sample_next] sample_node = (Ok summary, st')"
proof -
  obtain tip where tip: "hash_to_hex (block_hash sample_externals sample_genesis) = tip" by blast
  obtain summary where v: "validate_reorg sample_externals (\<lambda>_. 0) sample_files sample_config tip [sample_genesis]
      [sample_genesis, sample_next] = Ok (summary, [], sample_grown)" using sample_reorg_validates by blast
  obtain db where db: "replace_canonical_chain sample_externals 0 [sample_genesis] [sample_genesis, sample_next] tip sample_db = Ok db"
    using sample_db_grows by blast
  obtain dropped records where "reconcile_after_reorg sample_externals 0 0 sample_grown [] (nc_max_mempool_transactions sample_config) []
      = Ok (dropped, records)" using reconcile_ready [OF sample_grown_ok(1)] by metis
  with v db tip sample_db_loads sample_paths show ?thesis
    by (simp add: adopt_candidate_chain_def sample_node_def last_block_def replace_validated_def transact_def
        load_blocks_def Let_def)
qed



section \<open>Any sequence of operations\<close>

datatype node_input =
  SubmitTransaction "nat \<Rightarrow> u64" "nat \<Rightarrow> u64" nat transaction
| SubmitBlock "nat \<Rightarrow> u64" block
| AdoptChain "nat \<Rightarrow> u64" "nat \<Rightarrow> u64" "block list"

fun node_step :: "externals \<Rightarrow> node_files \<Rightarrow> data_path \<Rightarrow> node_input \<Rightarrow> node_state \<Rightarrow> node_state option" where
  "node_step X files path (SubmitTransaction clk t limit tx) st = Some (snd (submit_transaction X clk t limit tx st))"
| "node_step X files path (SubmitBlock clk b) st = Some (snd (submit_mined_block X clk files path b st))"
| "node_step X files path (AdoptChain clk t cand) st = Some (snd (adopt_candidate_chain X clk t files path cand st))"

definition node_inv :: "externals \<Rightarrow> node_files \<Rightarrow> nat \<Rightarrow> hash \<Rightarrow> node_state \<Rightarrow> bool" where
  "node_inv X files work genesis st \<longleftrightarrow>
     (\<exists>bs clk c. load_blocks X (nd_db st) = Ok bs \<and> build_validated_chain X clk files (nf_config files) bs = Ok c
        \<and> work \<le> work_sum bs \<and> block_hash X (hd bs) = genesis)"

lemma work_sum_snoc: "work_sum bs \<le> work_sum (bs @ [b])"
  by (simp add: work_sum_def)

lemma load_network_config_Ok: "load_network_config c = Ok c' \<Longrightarrow> c' = c"
  by (auto simp: load_network_config_def rbind_Ok)

lemma node_step_inv:
  assumes "node_inv X files w g st" and "node_step X files path i st = Some st'"
  shows "node_inv X files w g st'"
proof (cases i)
  case (SubmitTransaction clk t limit tx)
  obtain res where r: "submit_transaction X clk t limit tx st = (res, st')"
    using assms(2) SubmitTransaction by (metis node_step.simps(1) option.inject prod.collapse)
  have "nd_db st' = nd_db st"
  proof (cases res)
    case (Inr summary)
    show ?thesis by (rule admitted_pool [OF r [unfolded Inr]])
  qed (use r submit_transaction_Err in blast)
  with assms(1) show ?thesis by (simp add: node_inv_def)
next
  case (SubmitBlock clk b)
  obtain res where r: "submit_mined_block X clk files path b st = (res, st')"
    using assms(2) SubmitBlock by (metis node_step.simps(2) option.inject prod.collapse)
  show ?thesis
  proof (cases res)
    case (Inr summary)
    obtain config bs c c' where a: "load_network_config (nf_config files) = Ok config"
      "load_blocks X (nd_db st) = Ok bs" "build_validated_chain X clk files config bs = Ok c"
      "load_blocks X (nd_db st') = Ok (bs @ [b])" "build_validated_chain X clk files config (bs @ [b]) = Ok c'"
      by (rule submit_mined_block_Ok [OF r [unfolded Inr]]) (rule that)
    have "bs \<noteq> []" using load_blocks_not_Nil [OF a(2)] .
    with a assms(1) work_sum_snoc [of bs b] load_network_config_Ok [OF a(1)] show ?thesis
      unfolding node_inv_def by (metis Inr_inject hd_append2 order_trans)
  qed (use r submit_mined_block_Err assms(1) in blast)
next
  case (AdoptChain clk t cand)
  obtain res where r: "adopt_candidate_chain X clk t files path cand st = (res, st')"
    using assms(2) AdoptChain by (metis node_step.simps(3) option.inject prod.collapse)
  show ?thesis
  proof (cases res)
    case (Inr summary)
    show ?thesis
      by (rule adopt_candidate_chain_Ok [OF r [unfolded Inr]])
        (use assms(1) load_network_config_Ok in \<open>fastforce simp: node_inv_def\<close>)
  qed (use r adopt_candidate_chain_Err assms(1) in blast)
qed

interpretation node: guarded_machine "node_step X files path" "node_inv X files w g" for X files path w g
  by unfold_locales (rule node_step_inv)

text \<open>
  C1: Whatever transactions, blocks and candidate chains a node is given, in whatever order and with
  whatever clock readings, the stored chain stays loadable and valid from the same genesis, its
  work never decreases, and the money of its ledger is conserved.
\<close>

theorem node_run_keeps_valid_chain:
  assumes "load_blocks X (nd_db st) = Ok bs" and "build_validated_chain X clk files (nf_config files) bs = Ok c"
    and "run (node_step X files path) inputs st = Some st'"
  shows "\<exists>bs' clk' c'. load_blocks X (nd_db st') = Ok bs'
    \<and> build_validated_chain X clk' files (nf_config files) bs' = Ok c'
    \<and> chain_linked X (nc_network (nf_config files)) bs'
    \<and> block_hash X (hd bs') = block_hash X (hd bs) \<and> work_sum bs \<le> work_sum bs'
    \<and> ledger_total (c_state c') + unat (ls_total_burned_fees (c_state c')) = unat (ls_emitted_supply (c_state c'))"
proof -
  have "node_inv X files (work_sum bs) (block_hash X (hd bs)) st"
    using assms(1,2) by (auto simp: node_inv_def)
  then have "node_inv X files (work_sum bs) (block_hash X (hd bs)) st'"
    using assms(3) by (rule node.run_inv)
  then obtain bs' clk' c' where n: "load_blocks X (nd_db st') = Ok bs'"
    "build_validated_chain X clk' files (nf_config files) bs' = Ok c'"
    "work_sum bs \<le> work_sum bs'" "block_hash X (hd bs') = block_hash X (hd bs)"
    by (auto simp: node_inv_def)
  have ok: "chain_ok X c'" "c_blocks c' = bs'" "c_network c' = nc_network (nf_config files)"
    using n(2) chain_from_clocked by (auto simp: build_validated_Ok)
  with chain_ok_ledger(1) [OF ok(1)] have "chain_linked X (nc_network (nf_config files)) bs'"
    "ledger_total (c_state c') + unat (ls_total_burned_fees (c_state c')) = unat (ls_emitted_supply (c_state c'))"
    by (auto simp: chain_ok_def ledger_inv_def)
  with n show ?thesis by blast
qed

theorem node_run_keeps_valid_chain_witness:
  "\<exists>st' bs'. run (node_step sample_externals sample_files sample_path)
       [SubmitTransaction (\<lambda>_. 0) (\<lambda>_. 0) 1 (sample_spend 1 5 15), SubmitBlock (\<lambda>_. 0) sample_next] sample_node = Some st'
     \<and> load_blocks sample_externals (nd_db st') = Ok bs' \<and> work_sum [sample_genesis] \<le> work_sum bs'"
proof -
  let ?is = "[SubmitTransaction (\<lambda>_. 0) (\<lambda>_. 0) 1 (sample_spend 1 5 15), SubmitBlock (\<lambda>_. 0) sample_next]"
  obtain st' where r: "run (node_step sample_externals sample_files sample_path) ?is sample_node = Some st'" by simp
  have "load_blocks sample_externals (nd_db sample_node) = Ok [sample_genesis]"
    using sample_db_loads by (simp add: sample_node_def)
  moreover have "build_validated_chain sample_externals (\<lambda>_. 0) sample_files (nf_config sample_files) [sample_genesis]
      = Ok sample_chain"
    using sample_build(1) by (simp add: sample_files_def)
  ultimately show ?thesis using node_run_keeps_valid_chain [OF _ _ r] r by blast
qed

end
