(* ===== verification/Vireon_Reputation.thy ===== *)
theory Vireon_Reputation
  imports Vireon_Mempool
begin

text \<open>
  \<^verbatim>\<open>vireon-node/src/peer_reputation.rs\<close>: the scores and temporary bans of peers. Scores are
  \<open>i32\<close>, read as \<open>int\<close> with saturation at the bounds of the type; the clock is an argument.
  The lemmas show the range of every score, how long a ban lasts, and how an error text is
  classified.
\<close>

section \<open>State\<close>

definition DEFAULT_SCORE :: int where "DEFAULT_SCORE = 50"
definition BAN_THRESHOLD :: int where "BAN_THRESHOLD = 0"
definition SCORE_MIN :: int where "SCORE_MIN = - 100"
definition SCORE_MAX :: int where "SCORE_MAX = 100"
definition DEFAULT_BAN_SECONDS :: u64 where "DEFAULT_BAN_SECONDS = 600"
definition SEVERE_BAN_SECONDS :: u64 where "SEVERE_BAN_SECONDS = 3600"

lemmas reputation_constants = DEFAULT_SCORE_def BAN_THRESHOLD_def SCORE_MIN_def SCORE_MAX_def
  DEFAULT_BAN_SECONDS_def SEVERE_BAN_SECONDS_def

record peer_score_record =
  ps_peer_id :: string
  ps_score :: int
  ps_banned_until :: u64
  ps_last_reason :: "string option"
  ps_good_events :: u64
  ps_bad_events :: u64

record reputation_store =
  rs_peers :: "(string, peer_score_record) btree_map"

definition i32_saturate :: "int \<Rightarrow> int" where
  "i32_saturate x = clamp x (- (2 ^ 31)) (2 ^ 31 - 1)"

section \<open>Operations\<close>

definition reputation_entry :: "reputation_store \<Rightarrow> string \<Rightarrow> peer_score_record" where
  "reputation_entry st peer_id =
     (case map_of (rs_peers st) peer_id of
        Some r \<Rightarrow> r
      | None \<Rightarrow> \<lparr>ps_peer_id = peer_id, ps_score = DEFAULT_SCORE, ps_banned_until = 0,
                 ps_last_reason = None, ps_good_events = 0, ps_bad_events = 0\<rparr>)"

definition write_entry :: "string \<Rightarrow> peer_score_record \<Rightarrow> reputation_store \<Rightarrow> reputation_store" where
  "write_entry peer_id r st = st\<lparr>rs_peers := map_insert peer_id r (rs_peers st)\<rparr>"

definition ban_now :: "u64 \<Rightarrow> string \<Rightarrow> string \<Rightarrow> u64 \<Rightarrow> reputation_store \<Rightarrow> reputation_store" where
  "ban_now now peer_id reason ban_seconds st =
     (let r = reputation_entry st peer_id in
      write_entry peer_id
        (r\<lparr>ps_score := BAN_THRESHOLD, ps_bad_events := saturating_add (ps_bad_events r) 1,
           ps_last_reason := Some reason,
           ps_banned_until := saturating_add now (max ban_seconds 1)\<rparr>) st)"

definition is_banned :: "u64 \<Rightarrow> reputation_store \<Rightarrow> string \<Rightarrow> bool" where
  "is_banned now st peer_id =
     (case map_of (rs_peers st) peer_id of None \<Rightarrow> False | Some r \<Rightarrow> ps_banned_until r > now)"

definition score_of :: "reputation_store \<Rightarrow> string \<Rightarrow> int" where
  "score_of st peer_id =
     (case map_of (rs_peers st) peer_id of None \<Rightarrow> DEFAULT_SCORE | Some r \<Rightarrow> ps_score r)"

definition reward :: "string \<Rightarrow> int \<Rightarrow> string \<Rightarrow> reputation_store \<Rightarrow> reputation_store" where
  "reward peer_id delta reason st =
     (let r = reputation_entry st peer_id in
      write_entry peer_id
        (r\<lparr>ps_score := clamp (i32_saturate (ps_score r + delta)) SCORE_MIN SCORE_MAX,
           ps_good_events := saturating_add (ps_good_events r) 1,
           ps_last_reason := Some reason\<rparr>) st)"

definition penalize :: "u64 \<Rightarrow> string \<Rightarrow> int \<Rightarrow> string \<Rightarrow> u64 \<Rightarrow> reputation_store \<Rightarrow> reputation_store" where
  "penalize now peer_id delta reason ban_seconds st =
     (let r = reputation_entry st peer_id;
          score = clamp (i32_saturate (ps_score r - delta)) SCORE_MIN SCORE_MAX;
          r' = r\<lparr>ps_score := score, ps_bad_events := saturating_add (ps_bad_events r) 1,
                 ps_last_reason := Some reason\<rparr> in
      write_entry peer_id
        (if score \<le> BAN_THRESHOLD
         then r'\<lparr>ps_banned_until := max (ps_banned_until r) (saturating_add now (max ban_seconds 1))\<rparr>
         else r') st)"

definition active_ban_count :: "u64 \<Rightarrow> reputation_store \<Rightarrow> nat" where
  "active_ban_count now st = length (filter (\<lambda>p. ps_banned_until (snd p) > now) (rs_peers st))"

definition prune_expired_bans :: "u64 \<Rightarrow> reputation_store \<Rightarrow> reputation_store" where
  "prune_expired_bans now st =
     st\<lparr>rs_peers := map (\<lambda>(k, r). (k,
          if ps_banned_until r > 0 \<and> ps_banned_until r \<le> now then r\<lparr>ps_banned_until := 0\<rparr> else r))
        (rs_peers st)\<rparr>"

section \<open>Classification of protocol faults\<close>

definition to_ascii_lowercase :: "string \<Rightarrow> string" where
  "to_ascii_lowercase = map ascii_lower"

fun str_contains :: "string \<Rightarrow> string \<Rightarrow> bool" where
  "str_contains [] p = (p = [])"
| "str_contains (c # cs) p = (take (length p) (c # cs) = p \<or> str_contains cs p)"

definition severe_fault :: "string \<Rightarrow> bool" where
  "severe_fault lower \<longleftrightarrow> str_contains lower ''pow'' \<or> str_contains lower ''mix_hash''
     \<or> str_contains lower ''mix hash'' \<or> str_contains lower ''does not match verified header''
     \<or> str_contains lower ''header chain'' \<or> str_contains lower ''work commitment''
     \<or> str_contains lower ''invalid checkpoint'' \<or> str_contains lower ''invalid difficulty''
     \<or> str_contains lower ''firopow''"

definition fault_delta :: "string \<Rightarrow> int" where
  "fault_delta lower =
     (if str_contains lower ''handshake'' \<or> str_contains lower ''genesis'' then 40
      else if str_contains lower ''empty'' \<or> str_contains lower ''unsolicited'' then 20
      else 25)"

definition apply_protocol_fault :: "u64 \<Rightarrow> string \<Rightarrow> string \<Rightarrow> reputation_store \<Rightarrow> reputation_store" where
  "apply_protocol_fault now peer_id message st =
     (let lower = to_ascii_lowercase message in
      if severe_fault lower then ban_now now peer_id message SEVERE_BAN_SECONDS st
      else penalize now peer_id (fault_delta lower) message DEFAULT_BAN_SECONDS st)"

section \<open>Texts\<close>

lemma str_contains_iff: "str_contains s p \<longleftrightarrow> (\<exists>a b. s = a @ p @ b)"
proof (induction s)
  case (Cons c cs)
  have "take (length p) (c # cs) = p \<longleftrightarrow> (\<exists>b. c # cs = p @ b)"
    by (metis append_eq_conv_conj append_take_drop_id)
  moreover have "(\<exists>a b. c # cs = a @ p @ b) \<longleftrightarrow> (\<exists>b. c # cs = p @ b) \<or> (\<exists>a b. cs = a @ p @ b)"
    by (metis append_Cons append_Nil neq_Nil_conv list.inject)
  ultimately show ?case using Cons by simp
qed auto

lemma prefix_split:
  assumes "take n (xs @ ys) = a" and "\<not> length xs < n"
  shows "a @ drop n xs = xs"
proof -
  have "take n xs = a" using assms by simp
  then show ?thesis by (metis append_take_drop_id)
qed

text \<open>A pattern that shares no character with a separator is found on one side of it.\<close>

lemma append_mid_cases:
  assumes "xs @ d # ys = a @ p @ b" and "d \<notin> set p"
  shows "(\<exists>b'. xs = a @ p @ b') \<or> (\<exists>a'. ys = a' @ p @ b)"
proof (cases "length xs < length a")
  case True
  then obtain us where us: "a = xs @ us" "d # ys = us @ p @ b"
    using assms(1) by (auto simp: append_eq_append_conv2)
  with True show ?thesis by (cases us) auto
next
  case False
  have "take (length a) (xs @ d # ys) = a" using assms(1) by simp
  with False have "xs = a @ drop (length a) xs" by (metis prefix_split)
  then obtain u where u: "xs = a @ u" "u @ d # ys = p @ b"
    using assms(1) by (metis append.assoc same_append_eq)
  show ?thesis
  proof (cases "length u < length p")
    case True
    then have "p ! length u = d" using u(2) by (metis append_eq_conv_conj nth_append nth_append_length nth_take)
    with True assms(2) show ?thesis using nth_mem by blast
  next
    case False
    have "take (length p) (u @ d # ys) = p" using u(2) by simp
    with False have "u = p @ drop (length p) u" by (metis prefix_split)
    with u(1) show ?thesis by (metis append.assoc)
  qed
qed

lemma str_contains_sep:
  assumes "d \<notin> set p"
  shows "str_contains (xs @ d # ys) p \<longleftrightarrow> str_contains xs p \<or> str_contains ys p"
  unfolding str_contains_iff using append_mid_cases [OF _ assms]
  by (metis append.assoc append_Cons)

lemma str_contains_digits:
  assumes "ds \<noteq> []" and "set ds \<inter> set p = {}" and "p \<noteq> []"
  shows "str_contains (xs @ ds @ ys) p \<longleftrightarrow> str_contains xs p \<or> str_contains ys p"
  using assms
proof (induction ds arbitrary: xs)
  case (Cons d ds)
  then have d: "d \<notin> set p" by auto
  show ?case
  proof (cases "ds = []")
    case True
    with d show ?thesis by (simp add: str_contains_sep)
  next
    case False
    have "str_contains ((xs @ [d]) @ ds @ ys) p \<longleftrightarrow> str_contains (xs @ [d]) p \<or> str_contains ys p"
      using Cons.prems False by (intro Cons.IH) auto
    moreover have "str_contains (xs @ [d]) p \<longleftrightarrow> str_contains xs p \<or> str_contains [] p"
      using str_contains_sep [OF d, of xs "[]"] by simp
    ultimately show ?thesis using Cons.prems(3) by simp
  qed
qed simp

section \<open>Every store that events can build\<close>

datatype rep_event =
    Rewarded string int string
  | Penalized u64 string int string u64
  | BannedNow u64 string string u64
  | Faulted u64 string string
  | Pruned u64

fun rep_apply :: "rep_event \<Rightarrow> reputation_store \<Rightarrow> reputation_store" where
  "rep_apply (Rewarded p d why) = reward p d why"
| "rep_apply (Penalized now p d why secs) = penalize now p d why secs"
| "rep_apply (BannedNow now p why secs) = ban_now now p why secs"
| "rep_apply (Faulted now p message) = apply_protocol_fault now p message"
| "rep_apply (Pruned now) = prune_expired_bans now"

definition rep_new :: reputation_store where "rep_new = \<lparr>rs_peers = []\<rparr>"

definition reputation_ok :: "reputation_store \<Rightarrow> bool" where
  "reputation_ok st \<longleftrightarrow> map_wf (rs_peers st)
     \<and> (\<forall>k r. map_of (rs_peers st) k = Some r \<longrightarrow>
          ps_peer_id r = k \<and> SCORE_MIN \<le> ps_score r \<and> ps_score r \<le> SCORE_MAX)"

lemma map_of_prune:
  "map_of (rs_peers (prune_expired_bans now st)) k =
     map_option (\<lambda>r. if ps_banned_until r > 0 \<and> ps_banned_until r \<le> now then r\<lparr>ps_banned_until := 0\<rparr> else r)
       (map_of (rs_peers st) k)"
  by (simp add: prune_expired_bans_def map_of_map)

lemma map_wf_map_values: "map_wf (map (\<lambda>(k, r). (k, f r)) m) \<longleftrightarrow> map_wf m"
proof -
  have "map fst (map (\<lambda>(k, r). (k, f r)) m) = map fst m" by (induction m) auto
  then show ?thesis by (simp add: map_wf_def del: map_map)
qed

lemma reputation_ok_prune: "reputation_ok st \<Longrightarrow> reputation_ok (prune_expired_bans now st)"
  unfolding reputation_ok_def map_of_prune
  by (auto simp: prune_expired_bans_def map_wf_map_values split: if_splits)

lemma reputation_ok_write:
  assumes "reputation_ok st" and "ps_peer_id r = p" and "SCORE_MIN \<le> ps_score r" and "ps_score r \<le> SCORE_MAX"
  shows "reputation_ok (write_entry p r st)"
  using assms by (auto simp: reputation_ok_def write_entry_def)

lemma entry_ok:
  assumes "reputation_ok st"
  shows "ps_peer_id (reputation_entry st p) = p" and "ps_score (reputation_entry st p) = score_of st p"
    and "SCORE_MIN \<le> score_of st p" and "score_of st p \<le> SCORE_MAX"
  using assms
  by (auto simp: reputation_ok_def reputation_entry_def score_of_def reputation_constants split: option.splits)

lemma score_clamped: "SCORE_MIN \<le> clamp x SCORE_MIN SCORE_MAX" "clamp x SCORE_MIN SCORE_MAX \<le> SCORE_MAX"
  by (auto simp: clamp_def reputation_constants)

lemma reputation_ok_ops:
  assumes "reputation_ok st"
  shows "reputation_ok (ban_now now p why secs st)" and "reputation_ok (reward p d why st)"
    and "reputation_ok (penalize now p d why secs st)"
  unfolding ban_now_def reward_def penalize_def Let_def
  using entry_ok [OF assms, of p] score_clamped
  by (auto intro!: reputation_ok_write [OF assms] simp: reputation_constants)

lemma reputation_ok_apply: "reputation_ok st \<Longrightarrow> reputation_ok (rep_apply e st)"
  by (cases e)
     (simp_all add: reputation_ok_ops reputation_ok_prune apply_protocol_fault_def Let_def)

interpretation reputation: guarded_machine "\<lambda>e st. Some (rep_apply e st)" reputation_ok
  by unfold_locales (auto dest: reputation_ok_apply)

lemma run_fold: "run (\<lambda>e s. Some (f e s)) es s = Some (fold f es s)"
  by (induction es arbitrary: s) simp_all

lemma reputation_ok_reachable: "reputation_ok (fold rep_apply es rep_new)"
  by (rule reputation.run_inv [OF _ run_fold]) (simp add: reputation_ok_def rep_new_def)

section \<open>Bans\<close>

definition banned_until :: "reputation_store \<Rightarrow> string \<Rightarrow> u64" where
  "banned_until st p = ps_banned_until (reputation_entry st p)"

lemma is_banned_iff: "is_banned t st p \<longleftrightarrow> t < banned_until st p"
  by (auto simp: is_banned_def banned_until_def reputation_entry_def split: option.splits)

lemma entry_write [simp]:
  "reputation_entry (write_entry p r st) q = (if q = p then r else reputation_entry st q)"
  by (simp add: reputation_entry_def write_entry_def)

lemma score_of_entry: "score_of st p = ps_score (reputation_entry st p)"
  by (simp add: score_of_def reputation_entry_def split: option.splits)

lemma score_after:
  "score_of (ban_now now p why secs st) q = (if q = p then BAN_THRESHOLD else score_of st q)"
  "score_of (reward p d why st) q
     = (if q = p then clamp (i32_saturate (score_of st p + d)) SCORE_MIN SCORE_MAX else score_of st q)"
  "score_of (penalize now p d why secs st) q
     = (if q = p then clamp (i32_saturate (score_of st p - d)) SCORE_MIN SCORE_MAX else score_of st q)"
  by (simp_all add: score_of_entry ban_now_def reward_def penalize_def Let_def)

lemma banned_after:
  "banned_until (ban_now now p why secs st) q
     = (if q = p then saturating_add now (max secs 1) else banned_until st q)"
  "banned_until (reward p d why st) q = banned_until st q"
  "banned_until (penalize now p d why secs st) q
     = (if q = p \<and> score_of (penalize now p d why secs st) p \<le> BAN_THRESHOLD
        then max (banned_until st p) (saturating_add now (max secs 1)) else banned_until st q)"
  "banned_until (prune_expired_bans now st) q
     = (if banned_until st q \<le> now then 0 else banned_until st q)"
proof -
  show "banned_until (prune_expired_bans now st) q = (if banned_until st q \<le> now then 0 else banned_until st q)"
    by (auto simp: banned_until_def reputation_entry_def map_of_prune word_gt_0 split: option.splits)
qed (simp_all add: banned_until_def ban_now_def reward_def penalize_def Let_def score_of_entry)

text \<open>The events that do not end a ban of \<open>p\<close> before \<open>u\<close>.\<close>

fun keeps_ban :: "string \<Rightarrow> u64 \<Rightarrow> rep_event \<Rightarrow> bool" where
  "keeps_ban p u (BannedNow now q why secs) \<longleftrightarrow> q \<noteq> p \<or> u \<le> saturating_add now (max secs 1)"
| "keeps_ban p u (Faulted now q message) \<longleftrightarrow> q \<noteq> p \<or> \<not> severe_fault (to_ascii_lowercase message)
     \<or> u \<le> saturating_add now (max SEVERE_BAN_SECONDS 1)"
| "keeps_ban p u (Pruned now) \<longleftrightarrow> now < u"
| "keeps_ban p u _ \<longleftrightarrow> True"

lemma keeps_ban_step: "keeps_ban p u e \<Longrightarrow> u \<le> banned_until st p \<Longrightarrow> u \<le> banned_until (rep_apply e st) p"
  by (cases e) (auto simp: banned_after apply_protocol_fault_def Let_def max_def)

lemma keeps_ban_fold:
  "list_all (keeps_ban p u) es \<Longrightarrow> u \<le> banned_until st p \<Longrightarrow> u \<le> banned_until (fold rep_apply es st) p"
  by (induction es arbitrary: st) (simp_all add: keeps_ban_step)

lemma ban_count_card: "reputation_ok st \<Longrightarrow> active_ban_count now st = card {p. is_banned now st p}"
proof -
  assume ok: "reputation_ok st"
  let ?f = "filter (\<lambda>p. ps_banned_until (snd p) > now) (rs_peers st)"
  have wf: "map_wf (rs_peers st)" using ok by (simp add: reputation_ok_def)
  then have "distinct (map fst (rs_peers st))" by (simp add: map_wf_def strict_sorted_iff)
  then have "distinct (map fst ?f)" by (rule distinct_map_filter)
  then have "length ?f = card (fst ` set ?f)" using distinct_card [of "map fst ?f"] by simp
  moreover have "fst ` set ?f = {p. is_banned now st p}"
  proof (rule set_eqI)
    fix p
    have "p \<in> fst ` set ?f \<longleftrightarrow> (\<exists>r. (p, r) \<in> set (rs_peers st) \<and> now < ps_banned_until r)" by force
    then show "p \<in> fst ` set ?f \<longleftrightarrow> p \<in> {p. is_banned now st p}"
      using map_wf_in_set [OF wf] by (auto simp: is_banned_def split: option.splits)
  qed
  ultimately show ?thesis by (simp add: active_ban_count_def)
qed

section \<open>Properties\<close>


text \<open>
  A penalty that brings a score to the threshold bans the peer for the given time: until then the
  peer is banned after any further events, except a hard ban of the same peer that ends earlier
  (\<open>ban_now\<close> overwrites the end of a running ban) and a pruning whose clock is past the end.
\<close>

theorem penalty_ban_holds:
  assumes "score_of (penalize now p delta why secs st) p \<le> BAN_THRESHOLD"
    and "t < saturating_add now (max secs 1)"
    and "list_all (keeps_ban p (saturating_add now (max secs 1))) events"
  shows "is_banned t (fold rep_apply events (penalize now p delta why secs st)) p"
proof -
  have "saturating_add now (max secs 1) \<le> banned_until (penalize now p delta why secs st) p"
    using assms(1) by (simp add: banned_after)
  from keeps_ban_fold [OF assms(3) this] assms(2) show ?thesis by (simp add: is_banned_iff)
qed

theorem penalty_ban_holds_witness:
  "is_banned 650 (fold rep_apply [Rewarded ''p'' 15 ''reorg'', Pruned 300]
     (penalize 100 ''p'' 60 ''spam'' 600 rep_new)) ''p''"
proof -
  have s: "score_of (penalize 100 ''p'' 60 ''spam'' 600 rep_new) ''p'' \<le> BAN_THRESHOLD"
    by (simp add: score_after) (simp add: score_of_def rep_new_def reputation_constants i32_saturate_def clamp_def)
  have "saturating_add 100 (max 600 1) = (700::u64)" 
    by (simp add: saturating_add_def checked_add_def max_def word_le_nat_alt)
  then show ?thesis by (intro penalty_ban_holds [OF s]) simp_all
qed

lemma fault_severe:
  assumes "severe_fault (to_ascii_lowercase message)"
  shows "score_of (apply_protocol_fault now p message st) p = 0"
    and "is_banned t (apply_protocol_fault now p message st) p \<longleftrightarrow> t < saturating_add now 3600"
proof -
  have "max (3600::u64) 1 = 3600" by (simp add: max_def word_le_nat_alt)
  with assms show "score_of (apply_protocol_fault now p message st) p = 0"
    and "is_banned t (apply_protocol_fault now p message st) p \<longleftrightarrow> t < saturating_add now 3600"
    by (simp_all add: apply_protocol_fault_def score_after banned_after is_banned_iff reputation_constants)
qed

lemma fault_soft:
  assumes "\<not> severe_fault (to_ascii_lowercase message)"
  shows "score_of (apply_protocol_fault now p message st) p
      = clamp (i32_saturate (score_of st p - fault_delta (to_ascii_lowercase message))) (- 100) 100"
    and "is_banned t (apply_protocol_fault now p message st) p \<longleftrightarrow> is_banned t st p
      \<or> score_of (apply_protocol_fault now p message st) p \<le> 0 \<and> t < saturating_add now 600"
proof -
  have "max (600::u64) 1 = 600" by (simp add: max_def word_le_nat_alt)
  with assms show "score_of (apply_protocol_fault now p message st) p
      = clamp (i32_saturate (score_of st p - fault_delta (to_ascii_lowercase message))) (- 100) 100"
    and "is_banned t (apply_protocol_fault now p message st) p \<longleftrightarrow> is_banned t st p
      \<or> score_of (apply_protocol_fault now p message st) p \<le> 0 \<and> t < saturating_add now 600"
    by (auto simp: apply_protocol_fault_def score_after banned_after is_banned_iff reputation_constants
        less_max_iff_disj)
qed

text \<open>
  A fault whose text is classified as severe bans the peer until exactly one hour from now and
  sets its score to 0, also when the score was lower; any other fault subtracts 40, 20 or 25 and
  bans for ten minutes only when the score reaches the threshold.
\<close>

theorem protocol_fault_exact:
  "let st' = apply_protocol_fault now p message st; lower = to_ascii_lowercase message in
   if severe_fault lower
   then score_of st' p = 0 \<and> (\<forall>t. is_banned t st' p \<longleftrightarrow> t < saturating_add now 3600)
   else score_of st' p = clamp (i32_saturate (score_of st p - fault_delta lower)) (- 100) 100
     \<and> (\<forall>t. is_banned t st' p \<longleftrightarrow> is_banned t st p \<or> score_of st' p \<le> 0 \<and> t < saturating_add now 600)"
  by (auto simp: Let_def fault_severe fault_soft)

text \<open>
  The error that the core raises for insufficient proof of work is not classified as severe: a
  new peer that sends such a block loses 25 points and is not banned, although the classification
  is documented to ban forged work at once.
\<close>

theorem forged_work_not_banned:
  "let st = apply_protocol_fault now p (node_error_display (NodeCore (InvalidPow required actual))) rep_new in
   score_of st p = 25 \<and> \<not> is_banned t st p"
proof -
  let ?m = "node_error_display (NodeCore (InvalidPow required actual))"
  define lower where "lower = to_ascii_lowercase ?m"
  have low: "map ascii_lower ds = ds" if "ds = show_nat k" for ds k
    using that show_nat_digits [of _ k] by (fastforce simp: ascii_lower_def intro!: map_idI)
  have m: "to_ascii_lowercase ?m = ''core validation error: invalid proof of work: required ''
      @ show_word required @ '' leading zero bits, got '' @ show_nat actual @ []"
    by (simp add: to_ascii_lowercase_def low) (simp add: ascii_lower_def)
  have digits: "set (show_nat k) \<inter> set q = {}" if "list_all (\<lambda>c. 57 < char_code c \<or> char_code c < 48) q" for k q
    using that show_nat_digits [of _ k] by (fastforce simp: list_all_iff)
  have c: "str_contains lower q \<longleftrightarrow>
      str_contains ''core validation error: invalid proof of work: required '' q
      \<or> str_contains '' leading zero bits, got '' q"
    if "list_all (\<lambda>c. 57 < char_code c \<or> char_code c < 48) q" "q \<noteq> []" for q
  proof -
    note d = str_contains_digits [OF show_nat_not_Nil digits [OF that(1)] that(2)]
    show ?thesis unfolding lower_def m d using that(2) by simp
  qed
  have "\<not> severe_fault lower" and d: "fault_delta lower = 25"
    unfolding severe_fault_def fault_delta_def by (simp_all add: c)
  note f = fault_soft [OF this(1) [unfolded lower_def], folded lower_def, unfolded d]
  have "score_of rep_new p = 50" "\<not> is_banned t rep_new p"
    by (simp_all add: score_of_def is_banned_def rep_new_def reputation_constants)
  then show ?thesis using f(1) f(2) [of t now p rep_new] by (simp add: Let_def i32_saturate_def clamp_def)
qed

end
