(* ===== verification/Vireon_Sync.thy ===== *)
theory Vireon_Sync
  imports Vireon_Machine Vireon_Reputation
begin

text \<open>
  The synchronisation protocol of \<^verbatim>\<open>vireon-node/src/p2p.rs\<close>: what a node answers to the requests
  of its peers and how it processes their answers, up to appended blocks and reorganisations.
  The libp2p swarm is replaced by what the handlers do to it: requests sent and peers
  disconnected are recorded in the state. Peer identities are their texts. Readings of the
  clock, the local miner metrics and the parser of peer identities are in the context.
\<close>

section \<open>Messages and state\<close>

definition P2P_PROTOCOL_VERSION :: u32 where "P2P_PROTOCOL_VERSION = 3"
definition MAX_SYNC_BLOCKS :: nat where "MAX_SYNC_BLOCKS = 128"
definition MAX_SYNC_HEADERS :: nat where "MAX_SYNC_HEADERS = 512"
definition MAX_STAGED_REORG_BLOCKS :: nat where "MAX_STAGED_REORG_BLOCKS = 2048"
definition MINER_PRESENCE_TTL_SECONDS :: u64 where "MINER_PRESENCE_TTL_SECONDS = 30"
definition MAX_LOCATOR_ENTRIES :: nat where "MAX_LOCATOR_ENTRIES = 32"

record peer_hello =
  ph_protocol_version :: u32
  ph_network_id :: string
  ph_chain_magic_hex :: string
  ph_genesis_hash :: string
  ph_best_height :: u64
  ph_best_hash :: string
  ph_cumulative_work :: string
  ph_validating :: bool
  ph_mining :: bool
  ph_hashrate_hs :: u64

record locator_entry =
  lo_height :: u64
  lo_hash :: string

record header_summary =
  hm_height :: u64
  hm_hash :: string
  hm_previous_hash :: string
  hm_difficulty :: u8

record pending_branch =
  pb_remote :: peer_hello
  pb_ancestor_height :: u64
  pb_direct_extension :: bool
  pb_next_height :: u64
  pb_headers_verified :: bool
  pb_headers :: "header_summary list"
  pb_blocks :: "block list"

record connected_peer =
  cp_peer_id :: string
  cp_address :: "string option"
  cp_handshake_validated :: bool
  cp_best_height :: "u64 option"
  cp_best_hash :: "string option"
  cp_cumulative_work :: "string option"
  cp_validating :: bool
  cp_mining :: bool
  cp_hashrate_hs :: u64
  cp_connected_at :: u64
  cp_last_error :: "string option"
  cp_reputation_score :: int
  cp_banned :: bool

text \<open>The fields of \<open>P2pStatus\<close> that the handlers write.\<close>

record p2p_status =
  st_listen_addresses :: "string list"
  st_syncing :: bool
  st_target_height :: "u64 option"
  st_target_hash :: "string option"
  st_target_work :: "string option"
  st_resume_height :: "u64 option"
  st_last_error :: "string option"

datatype sync_request =
    Hello peer_hello
  | FindAncestor peer_hello "locator_entry list"
  | RequestHeaders peer_hello u64 nat
  | RequestBlocks peer_hello u64 nat

datatype sync_response =
    HelloAccepted peer_hello
  | CommonAncestor peer_hello u64
  | Headers peer_hello "header_summary list"
  | Blocks peer_hello "block list"
  | Rejected string

record miner_presence =
  mp_peer_id :: string
  mp_hashrate_hs :: u64
  mp_template_height :: u64
  mp_updated_at :: u64
  mp_local :: bool

record mining_announcement =
  ma_protocol_version :: u32
  ma_network_id :: string
  ma_peer_id :: string
  ma_hashrate_hs :: u64
  ma_template_height :: u64
  ma_updated_at :: u64

record p2p_state =
  p2_node :: node_state
  p2_peers :: "(string, connected_peer) btree_map"
  p2_branches :: "(string, pending_branch) btree_map"
  p2_miners :: "(string, miner_presence) btree_map"
  p2_status :: p2p_status
  p2_reputation :: reputation_store
  p2_sent :: "(string \<times> sync_request) list"
  p2_disconnected :: "string list"

text \<open>
  What a handler reads but does not change: \<open>cx_miner\<close> is the hash rate of fresh local miner
  metrics, \<open>cx_now\<close> the clock of the reputation store, \<open>cx_clk i\<close> and \<open>cx_t\<close> the readings of the
  \<open>i\<close>-th node operation of the call.
\<close>

record sync_context =
  cx_externals :: externals
  cx_files :: node_files
  cx_config :: network_config
  cx_path :: data_path
  cx_miner :: "u64 option"
  cx_now :: u64
  cx_clk :: "nat \<Rightarrow> nat \<Rightarrow> u64"
  cx_t :: "nat \<Rightarrow> u64"
  cx_parse_peer :: "string \<Rightarrow> string + string"

definition map_adjust :: "'k \<Rightarrow> ('v \<Rightarrow> 'v) \<Rightarrow> ('k, 'v) btree_map \<Rightarrow> ('k, 'v) btree_map" where
  "map_adjust k f m = map (\<lambda>(k', v). (k', if k' = k then f v else v)) m"

definition map_remove :: "'k \<Rightarrow> ('k, 'v) btree_map \<Rightarrow> ('k, 'v) btree_map" where
  "map_remove k m = filter (\<lambda>(k', _). k' \<noteq> k) m"

definition show_int :: "int \<Rightarrow> string" where
  "show_int i = (if i < 0 then ''-'' @ show_nat (nat (- i)) else show_nat (nat i))"

section \<open>Greetings\<close>

definition parse_u128 :: "string \<Rightarrow> u128 option" where
  "parse_u128 s =
     (let body = (case s of [] \<Rightarrow> [] | c # cs \<Rightarrow> if c = CHR ''+'' then cs else s)
      in if body = [] then None
         else (case parse_digits 0 body of
                 None \<Rightarrow> None
               | Some n \<Rightarrow> if n < 2 ^ 128 then Some (of_nat n) else None))"

definition parse_chain_work :: "string \<Rightarrow> u128 node_result" where
  "parse_chain_work v =
     ok_or (parse_u128 v) (NodeP2p ''peer advertised invalid cumulative chain work'')"

definition remote_has_more_work :: "peer_hello \<Rightarrow> peer_hello \<Rightarrow> bool node_result" where
  "remote_has_more_work remote local =
     rbind (parse_chain_work (ph_cumulative_work remote)) (\<lambda>r.
     rbind (parse_chain_work (ph_cumulative_work local)) (\<lambda>l. Ok (r > l)))"

definition local_hello :: "sync_context \<Rightarrow> database \<Rightarrow> peer_hello node_result" where
  "local_hello cx db =
     (let X = cx_externals cx; config = cx_config cx in
      rbind (load_blocks X db) (\<lambda>blocks.
      rbind (ok_or (last_block blocks) (ChainNotInitialized (db_path db))) (\<lambda>tip.
      rbind (map_err NodeCore (cumulative_work blocks)) (\<lambda>work.
      Ok \<lparr>ph_protocol_version = P2P_PROTOCOL_VERSION, ph_network_id = nc_network_id config,
          ph_chain_magic_hex = nc_chain_magic_hex config,
          ph_genesis_hash = hash_to_hex (block_hash X (hd blocks)),
          ph_best_height = bh_height (b_header tip), ph_best_hash = hash_to_hex (block_hash X tip),
          ph_cumulative_work = show_word work, ph_validating = True,
          ph_mining = (cx_miner cx \<noteq> None),
          ph_hashrate_hs = (case cx_miner cx of None \<Rightarrow> 0 | Some h \<Rightarrow> h)\<rparr>))))"

definition validate_peer_hello :: "network_config \<Rightarrow> string \<Rightarrow> peer_hello \<Rightarrow> unit node_result" where
  "validate_peer_hello config expected_genesis hello =
     rbind (reject_if (ph_protocol_version hello \<noteq> P2P_PROTOCOL_VERSION)
              (NodeP2p (''unsupported protocol version '' @ show_word (ph_protocol_version hello)
                 @ ''; expected '' @ show_word P2P_PROTOCOL_VERSION))) (\<lambda>_.
     rbind (validate_p2p_handshake config
              \<lparr>hs_network_id = ph_network_id hello, hs_chain_magic_hex = ph_chain_magic_hex hello,
               hs_p2p_port = 0\<rparr>) (\<lambda>_.
     reject_if (ph_genesis_hash hello \<noteq> expected_genesis)
       (GenesisMismatch expected_genesis (ph_genesis_hash hello))))"

definition local_genesis_hash :: "externals \<Rightarrow> database \<Rightarrow> string node_result" where
  "local_genesis_hash X db =
     rbind (load_blocks X db) (\<lambda>blocks.
     ok_or (map_option (\<lambda>b. hash_to_hex (block_hash X b)) (first_block blocks))
       (ChainNotInitialized (db_path db)))"

definition greet_peer :: "peer_hello \<Rightarrow> connected_peer \<Rightarrow> connected_peer" where
  "greet_peer hello p =
     p\<lparr>cp_handshake_validated := True, cp_best_height := Some (ph_best_height hello),
       cp_best_hash := Some (ph_best_hash hello),
       cp_cumulative_work := Some (ph_cumulative_work hello), cp_validating := ph_validating hello,
       cp_mining := ph_mining hello, cp_hashrate_hs := ph_hashrate_hs hello, cp_last_error := None\<rparr>"

definition update_validated_peer :: "string \<Rightarrow> peer_hello \<Rightarrow> p2p_state \<Rightarrow> p2p_state" where
  "update_validated_peer peer hello s = s\<lparr>p2_peers := map_adjust peer (greet_peer hello) (p2_peers s)\<rparr>"

definition remember_sync_target :: "peer_hello \<Rightarrow> p2p_status \<Rightarrow> p2p_status" where
  "remember_sync_target remote st =
     st\<lparr>st_syncing := True, st_target_height := Some (ph_best_height remote),
        st_target_hash := Some (ph_best_hash remote),
        st_target_work := Some (ph_cumulative_work remote)\<rparr>"

definition clear_sync_target :: "p2p_status \<Rightarrow> p2p_status" where
  "clear_sync_target st =
     st\<lparr>st_syncing := False, st_target_height := None, st_target_hash := None,
        st_target_work := None, st_resume_height := None\<rparr>"

section \<open>Ancestor search\<close>

text \<open>
  The loop of \<open>block_locator\<close>: \<open>index\<close> and \<open>step\<close> are \<open>usize\<close> values. The step starts at one and is
  at least one after each doubling; \<open>max step 1\<close> is that step, and makes it evident that the
  index falls.
\<close>

definition locator_entry_of :: "externals \<Rightarrow> block \<Rightarrow> locator_entry" where
  "locator_entry_of X b =
     \<lparr>lo_height = bh_height (b_header b), lo_hash = hash_to_hex (block_hash X b)\<rparr>"

function locator_loop ::
  "externals \<Rightarrow> block list \<Rightarrow> locator_entry list \<Rightarrow> nat \<Rightarrow> nat \<Rightarrow> u64 list \<Rightarrow> locator_entry list" where
  "locator_loop X blocks locator index0 step seen =
     (let index = (if MAX_LOCATOR_ENTRIES - 1 \<le> length locator \<and> index0 \<noteq> 0 then 0 else index0);
          b = blocks ! index; h = bh_height (b_header b);
          locator' = (if h \<in> set seen then locator else locator @ [locator_entry_of X b]) in
      if index = 0 then locator'
      else locator_loop X blocks locator' (index - max step 1)
             (if 8 < length locator' then max (min (step * 2) (2 ^ 64 - 1)) 1 else step) (h # seen))"
  by pat_completeness auto
termination
  by (relation "measure (\<lambda>(_, _, _, index, _, _). index)") (auto simp: Let_def split: if_splits)

declare locator_loop.simps [simp del]

definition block_locator :: "externals \<Rightarrow> database \<Rightarrow> locator_entry list node_result" where
  "block_locator X db =
     rbind (load_blocks X db) (\<lambda>blocks.
     Ok (if blocks = [] then [] else locator_loop X blocks [] (length blocks - 1) 1 []))"

text \<open>\<open>blocks.get(height as usize)\<close>.\<close>

definition block_at :: "block list \<Rightarrow> u64 \<Rightarrow> block option" where
  "block_at blocks height = (if unat height < length blocks then Some (blocks ! unat height) else None)"

definition find_ancestor :: "externals \<Rightarrow> block list \<Rightarrow> locator_entry list \<Rightarrow> locator_entry option" where
  "find_ancestor X blocks locator =
     find (\<lambda>e. case block_at blocks (lo_height e) of
                 None \<Rightarrow> False | Some b \<Rightarrow> hash_to_hex (block_hash X b) = lo_hash e) locator"

section \<open>Answering requests\<close>

definition request_hello :: "sync_request \<Rightarrow> peer_hello" where
  "request_hello r = (case r of Hello h \<Rightarrow> h | FindAncestor h _ \<Rightarrow> h | RequestHeaders h _ _ \<Rightarrow> h | RequestBlocks h _ _ \<Rightarrow> h)"

definition header_summary_of :: "externals \<Rightarrow> block \<Rightarrow> header_summary" where
  "header_summary_of X b =
     \<lparr>hm_height = bh_height (b_header b), hm_hash = hash_to_hex (block_hash X b),
      hm_previous_hash = hash_to_hex (bh_previous_hash (b_header b)),
      hm_difficulty = bh_difficulty (b_header b)\<rparr>"

definition blocks_from :: "externals \<Rightarrow> database \<Rightarrow> u64 \<Rightarrow> nat \<Rightarrow> block list" where
  "blocks_from X db start_height limit =
     (case load_blocks X db of
        Inl _ \<Rightarrow> []
      | Inr blocks \<Rightarrow> take limit (filter (\<lambda>b. bh_height (b_header b) \<ge> start_height) blocks))"

definition answer_request :: "sync_context \<Rightarrow> database \<Rightarrow> peer_hello \<Rightarrow> sync_request \<Rightarrow> sync_response" where
  "answer_request cx db local request =
     (let X = cx_externals cx in
      case request of
        Hello _ \<Rightarrow> HelloAccepted local
      | FindAncestor _ locator \<Rightarrow>
          (case load_blocks X db of
             Inl e \<Rightarrow> Rejected (node_error_display e)
           | Inr blocks \<Rightarrow>
               (case find_ancestor X blocks locator of
                  Some e \<Rightarrow> CommonAncestor local (lo_height e)
                | None \<Rightarrow> Rejected ''no common ancestor exists for the advertised genesis''))
      | RequestHeaders _ start_height max_headers \<Rightarrow>
          Headers local (map (header_summary_of X) (blocks_from X db start_height (min max_headers MAX_SYNC_HEADERS)))
      | RequestBlocks _ start_height max_blocks \<Rightarrow>
          Blocks local (blocks_from X db start_height (min max_blocks MAX_SYNC_BLOCKS)))"

definition handle_sync_request ::
  "sync_context \<Rightarrow> string \<Rightarrow> sync_request \<Rightarrow> p2p_state \<Rightarrow> sync_response \<times> p2p_state" where
  "handle_sync_request cx peer request s =
     (let db = nd_db (p2_node s); hello = request_hello request in
      case rbind (local_genesis_hash (cx_externals cx) db) (\<lambda>g.
           validate_peer_hello (cx_config cx) g hello) of
        Inl e \<Rightarrow> (Rejected (node_error_display e), s)
      | Inr _ \<Rightarrow>
          let s' = update_validated_peer peer hello s in
          (case local_hello cx db of
             Inl e \<Rightarrow> (Rejected (node_error_display e), s')
           | Inr local \<Rightarrow> (answer_request cx db local request, s')))"

section \<open>Checking headers\<close>

definition is_ascii_hexdigit :: "char \<Rightarrow> bool" where
  "is_ascii_hexdigit c \<longleftrightarrow> (48 \<le> char_code c \<and> char_code c \<le> 57) \<or> (65 \<le> char_code c \<and> char_code c \<le> 70)
     \<or> (97 \<le> char_code c \<and> char_code c \<le> 102)"

fun check_headers :: "string \<Rightarrow> u64 \<Rightarrow> header_summary list \<Rightarrow> unit node_result" where
  "check_headers prev_hash expected_height [] = Ok ()"
| "check_headers prev_hash expected_height (h # hs) =
     rbind (reject_if (hm_height h \<noteq> expected_height)
              (NodeP2p (''header height gap: expected '' @ show_word expected_height
                 @ '', got '' @ show_word (hm_height h)))) (\<lambda>_.
     rbind (reject_if (hm_previous_hash h \<noteq> prev_hash)
              (NodeP2p (''header previous_hash mismatch at height '' @ show_word (hm_height h)))) (\<lambda>_.
     rbind (reject_if (length (hm_hash h) \<noteq> 64 \<or> \<not> list_all is_ascii_hexdigit (hm_hash h))
              (NodeP2p ''header hash is not 32-byte hex'')) (\<lambda>_.
     check_headers (hm_hash h) (saturating_add expected_height 1) hs)))"

definition validate_header_chain ::
  "externals \<Rightarrow> database \<Rightarrow> pending_branch \<Rightarrow> header_summary list \<Rightarrow> unit node_result" where
  "validate_header_chain X db branch headers =
     rbind (reject_if (headers = []) (NodeP2p ''peer returned empty headers'')) (\<lambda>_.
     rbind (load_blocks X db) (\<lambda>local_blocks.
     if pb_headers branch = []
     then rbind (ok_or (block_at local_blocks (pb_ancestor_height branch))
                   (NodeP2p ''ancestor missing for header validation'')) (\<lambda>ancestor.
          check_headers (hash_to_hex (block_hash X ancestor)) (pb_ancestor_height branch + 1) headers)
     else check_headers (hm_hash (last (pb_headers branch))) (hm_height (last (pb_headers branch)) + 1) headers))"

definition staged_candidate :: "externals \<Rightarrow> database \<Rightarrow> pending_branch \<Rightarrow> block list node_result" where
  "staged_candidate X db branch =
     rbind (load_blocks X db) (\<lambda>blocks.
     Ok (take (unat (pb_ancestor_height branch) + 1) blocks @ pb_blocks branch))"

section \<open>Steps of the response handler\<close>

definition with_db :: "(database \<Rightarrow> 'a node_result) \<Rightarrow> (p2p_state, node_error, 'a) mut" where
  "with_db f = mlift (\<lambda>s. f (nd_db (p2_node s)))"

definition on_node :: "(node_state, node_error, 'a) mut \<Rightarrow> (p2p_state, node_error, 'a) mut" where
  "on_node m s = (case m (p2_node s) of (r, n) \<Rightarrow> (r, s\<lparr>p2_node := n\<rparr>))"

definition send_request :: "string \<Rightarrow> sync_request \<Rightarrow> p2p_state \<Rightarrow> p2p_state" where
  "send_request peer r s = s\<lparr>p2_sent := p2_sent s @ [(peer, r)]\<rparr>"

definition disconnect_peer_id :: "string \<Rightarrow> p2p_state \<Rightarrow> p2p_state" where
  "disconnect_peer_id peer s = s\<lparr>p2_disconnected := p2_disconnected s @ [peer]\<rparr>"

definition upd_status :: "(p2p_status \<Rightarrow> p2p_status) \<Rightarrow> p2p_state \<Rightarrow> p2p_state" where
  "upd_status f s = s\<lparr>p2_status := f (p2_status s)\<rparr>"

definition upd_reputation :: "(reputation_store \<Rightarrow> reputation_store) \<Rightarrow> p2p_state \<Rightarrow> p2p_state" where
  "upd_reputation f s = s\<lparr>p2_reputation := f (p2_reputation s)\<rparr>"

definition upd_branch :: "string \<Rightarrow> (pending_branch \<Rightarrow> pending_branch) \<Rightarrow> p2p_state \<Rightarrow> p2p_state" where
  "upd_branch peer f s = s\<lparr>p2_branches := map_adjust peer f (p2_branches s)\<rparr>"

definition drop_branch :: "string \<Rightarrow> p2p_state \<Rightarrow> p2p_state" where
  "drop_branch peer s = s\<lparr>p2_branches := map_remove peer (p2_branches s)\<rparr>"

definition get_branch :: "string \<Rightarrow> string \<Rightarrow> (p2p_state, node_error, pending_branch) mut" where
  "get_branch peer message = mlift (\<lambda>s. ok_or (map_of (p2_branches s) peer) (NodeP2p message))"

definition request_branch_headers :: "sync_context \<Rightarrow> string \<Rightarrow> (p2p_state, node_error, unit) mut" where
  "request_branch_headers cx peer =
     mbind (get_branch peer ''missing staged branch state'') (\<lambda>branch.
     mbind (with_db (local_hello cx)) (\<lambda>hello.
     mupd (send_request peer (RequestHeaders hello (pb_next_height branch) MAX_SYNC_HEADERS))))"

definition request_branch_chunk :: "sync_context \<Rightarrow> string \<Rightarrow> (p2p_state, node_error, unit) mut" where
  "request_branch_chunk cx peer =
     mbind (get_branch peer ''missing staged branch state'') (\<lambda>branch.
     mbind (with_db (local_hello cx)) (\<lambda>hello.
     mupd (send_request peer (RequestBlocks hello (pb_next_height branch) MAX_SYNC_BLOCKS))))"

text \<open>The greeting in an answer is checked and recorded before anything else.\<close>

definition accept_hello :: "sync_context \<Rightarrow> string \<Rightarrow> peer_hello \<Rightarrow> (p2p_state, node_error, unit) mut" where
  "accept_hello cx peer hello =
     mbind (with_db (\<lambda>db. rbind (local_genesis_hash (cx_externals cx) db) (\<lambda>g.
              validate_peer_hello (cx_config cx) g hello))) (\<lambda>_.
     mupd (update_validated_peer peer hello))"

text \<open>The height to continue from: the durable resume height if it belongs to this target.\<close>

definition resume_from :: "p2p_status \<Rightarrow> peer_hello \<Rightarrow> u64 \<Rightarrow> u64" where
  "resume_from st remote next =
     (if st_target_hash st = Some (ph_best_hash remote)
      then (case st_resume_height st of
              Some r \<Rightarrow> if r > next \<and> r \<le> ph_best_height remote then r else next
            | None \<Rightarrow> next)
      else next)"

section \<open>Processing answers\<close>

definition note_peer_fault :: "sync_context \<Rightarrow> string \<Rightarrow> string \<Rightarrow> p2p_state \<Rightarrow> p2p_state" where
  "note_peer_fault cx peer message s =
     s\<lparr>p2_peers := map_adjust peer (\<lambda>p. p\<lparr>cp_last_error := Some message,
          cp_reputation_score := score_of (p2_reputation s) peer,
          cp_banned := is_banned (cx_now cx) (p2_reputation s) peer\<rparr>) (p2_peers s)\<rparr>"

definition handle_rejected :: "sync_context \<Rightarrow> string \<Rightarrow> string \<Rightarrow> (p2p_state, node_error, unit) mut" where
  "handle_rejected cx peer reason =
     mbind (mupd (upd_reputation (penalize (cx_now cx) peer 15 reason DEFAULT_BAN_SECONDS))) (\<lambda>_.
     mbind (mupd (note_peer_fault cx peer reason)) (\<lambda>_.
     mbind (mupd (upd_status (\<lambda>st. st\<lparr>st_last_error :=
              Some (''peer '' @ peer @ '' rejected handshake: '' @ reason)\<rparr>))) (\<lambda>_.
     mupd (disconnect_peer_id peer))))"

definition handle_hello_accepted :: "sync_context \<Rightarrow> string \<Rightarrow> peer_hello \<Rightarrow> (p2p_state, node_error, unit) mut" where
  "handle_hello_accepted cx peer hello =
     mbind (accept_hello cx peer hello) (\<lambda>_.
     mbind (mupd (upd_reputation (reward peer 2 ''hello accepted''))) (\<lambda>_.
     mbind (with_db (local_hello cx)) (\<lambda>local.
     mbind (mlift (\<lambda>_. remote_has_more_work hello local)) (\<lambda>more.
     if more \<and> ph_best_hash hello \<noteq> ph_best_hash local
     then
       mbind (mupd (upd_status (remember_sync_target hello))) (\<lambda>_.
       mbind (with_db (block_locator (cx_externals cx))) (\<lambda>locator.
       mupd (send_request peer (FindAncestor local locator))))
     else mupd (\<lambda>s. if st_target_hash (p2_status s) = Some (ph_best_hash local)
                     then upd_status clear_sync_target s else s)))))"

definition handle_common_ancestor ::
  "sync_context \<Rightarrow> string \<Rightarrow> peer_hello \<Rightarrow> u64 \<Rightarrow> (p2p_state, node_error, unit) mut" where
  "handle_common_ancestor cx peer hello height =
     mbind (accept_hello cx peer hello) (\<lambda>_.
     mbind (with_db (local_hello cx)) (\<lambda>local.
     mbind (mlift (\<lambda>_. remote_has_more_work hello local)) (\<lambda>more.
     if \<not> more
     then mbind (mupd (drop_branch peer)) (\<lambda>_. mupd (upd_status clear_sync_target))
     else
       mbind (mupd (upd_status (remember_sync_target hello))) (\<lambda>_.
       mbind (with_db (\<lambda>db. rbind (load_blocks (cx_externals cx) db) (\<lambda>blocks.
                ok_or (block_at blocks height)
                  (NodeP2p (''peer selected unavailable ancestor height '' @ show_word height))))) (\<lambda>_.
       mbind (mupd (\<lambda>s. s\<lparr>p2_branches := map_insert peer
                \<lparr>pb_remote = hello, pb_ancestor_height = height,
                 pb_direct_extension = (height = ph_best_height local),
                 pb_next_height = resume_from (p2_status s) hello (saturating_add height 1),
                 pb_headers_verified = False, pb_headers = [], pb_blocks = []\<rparr> (p2_branches s)\<rparr>)) (\<lambda>_.
       request_branch_headers cx peer))))))"

definition extend_headers ::
  "sync_context \<Rightarrow> string \<Rightarrow> pending_branch \<Rightarrow> header_summary list \<Rightarrow> (p2p_state, node_error, unit) mut" where
  "extend_headers cx peer branch headers =
     (let all = pb_headers branch @ headers; remote = pb_remote branch in
      mbind (mupd (upd_branch peer (\<lambda>b. b\<lparr>pb_headers := pb_headers b @ headers\<rparr>))) (\<lambda>_.
      if all \<noteq> [] \<and> hm_height (last all) < ph_best_height remote
      then
        mbind (mupd (upd_branch peer (\<lambda>b. b\<lparr>pb_next_height := hm_height (last all) + 1\<rparr>))) (\<lambda>_.
        request_branch_headers cx peer)
      else
        mbind (mlift (\<lambda>_. reject_if (\<not> (all \<noteq> [] \<and> hm_hash (last all) = ph_best_hash remote))
                 (NodeP2p ''header chain does not reach the peer committed tip''))) (\<lambda>_.
        mbind (mupd (\<lambda>s. upd_branch peer (\<lambda>b. b\<lparr>pb_headers_verified := True,
                 pb_next_height := resume_from (p2_status s) remote
                   (saturating_add (pb_ancestor_height branch) 1)\<rparr>) s)) (\<lambda>_.
        mbind (mupd (upd_reputation (reward peer 5 ''headers verified''))) (\<lambda>_.
        request_branch_chunk cx peer)))))"

definition handle_headers ::
  "sync_context \<Rightarrow> string \<Rightarrow> peer_hello \<Rightarrow> header_summary list \<Rightarrow> (p2p_state, node_error, unit) mut" where
  "handle_headers cx peer hello headers =
     mbind (accept_hello cx peer hello) (\<lambda>_.
     mbind (get_branch peer ''received unsolicited headers response'') (\<lambda>branch.
     mbind (mlift (\<lambda>_. reject_if (ph_best_hash hello \<noteq> ph_best_hash (pb_remote branch))
              (NodeP2p ''peer changed tip during header sync''))) (\<lambda>_.
     mbind (with_db (\<lambda>db. validate_header_chain (cx_externals cx) db branch headers)) (\<lambda>_.
     extend_headers cx peer branch headers))))"

fun submit_each :: "sync_context \<Rightarrow> nat \<Rightarrow> block list \<Rightarrow> (p2p_state, node_error, unit) mut" where
  "submit_each cx i [] = mret ()"
| "submit_each cx i (b # bs) =
     mbind (on_node (submit_mined_block (cx_externals cx) (cx_clk cx i) (cx_files cx) (cx_path cx) b)) (\<lambda>_.
     submit_each cx (i + 1) bs)"

definition extend_directly ::
  "sync_context \<Rightarrow> string \<Rightarrow> pending_branch \<Rightarrow> block list \<Rightarrow> (p2p_state, node_error, unit) mut" where
  "extend_directly cx peer branch blocks =
     (let next = bh_height (b_header (last blocks)) + 1; remote = pb_remote branch in
      mbind (mupd (upd_branch peer (\<lambda>b. b\<lparr>pb_next_height := next\<rparr>))) (\<lambda>_.
      mbind (submit_each cx 0 blocks) (\<lambda>_.
      mbind (mupd (upd_status (\<lambda>st. remember_sync_target remote (st\<lparr>st_resume_height := Some next\<rparr>)))) (\<lambda>_.
      mbind (with_db (local_hello cx)) (\<lambda>local.
      if ph_best_height local < ph_best_height remote then request_branch_chunk cx peer
      else if ph_best_hash local = ph_best_hash remote \<and> ph_cumulative_work local = ph_cumulative_work remote
      then
        mbind (mupd (upd_reputation (reward peer 10 ''direct extension applied''))) (\<lambda>_.
        mbind (mupd (drop_branch peer)) (\<lambda>_. mupd (upd_status clear_sync_target)))
      else mlift (\<lambda>_. Err (NodeP2p ''direct extension does not match the peer work commitment'')))))))"

definition stage_branch ::
  "sync_context \<Rightarrow> string \<Rightarrow> pending_branch \<Rightarrow> block list \<Rightarrow> (p2p_state, node_error, unit) mut" where
  "stage_branch cx peer branch blocks =
     (let X = cx_externals cx; remote = pb_remote branch;
          branch' = branch\<lparr>pb_next_height := bh_height (b_header (last blocks)) + 1,
                           pb_blocks := pb_blocks branch @ blocks\<rparr> in
      mbind (mlift (\<lambda>_. reject_if (length (pb_blocks branch) + length blocks > MAX_STAGED_REORG_BLOCKS)
               (NodeP2p (''fork exceeds the staged reorg limit of '' @ show_nat MAX_STAGED_REORG_BLOCKS
                  @ '' blocks'')))) (\<lambda>_.
      mbind (mupd (upd_branch peer (\<lambda>_. branch'))) (\<lambda>_.
      mbind (with_db (\<lambda>db. staged_candidate X db branch')) (\<lambda>candidate.
      mbind (mlift (\<lambda>_. map_err NodeCore
               (chain_from_blocks X (nc_network (cx_config cx)) (clocked (cx_clk cx 0) candidate)))) (\<lambda>_.
      mbind (mlift (\<lambda>_. ok_or (last_block candidate) (NodeP2p ''validated reorg candidate is empty''))) (\<lambda>tip.
      if bh_height (b_header tip) < ph_best_height remote then request_branch_chunk cx peer
      else
        mbind (mlift (\<lambda>_.
          rbind (if bh_height (b_header tip) \<noteq> ph_best_height remote
                    \<or> hash_to_hex (block_hash X tip) \<noteq> ph_best_hash remote then Ok False
                 else rbind (map_err NodeCore (cumulative_work candidate)) (\<lambda>w.
                      Ok (show_word w = ph_cumulative_work remote))) (\<lambda>matches.
          reject_if (\<not> matches) (NodeP2p ''downloaded branch does not match the peer work commitment'')))) (\<lambda>_.
        mbind (on_node (adopt_candidate_chain X (cx_clk cx 1) (cx_t cx) (cx_files cx) (cx_path cx) candidate)) (\<lambda>_.
        mbind (mupd (upd_reputation (reward peer 15 ''reorg branch adopted''))) (\<lambda>_.
        mbind (mupd (drop_branch peer)) (\<lambda>_.
        mupd (upd_status clear_sync_target)))))))))))"

definition handle_blocks ::
  "sync_context \<Rightarrow> string \<Rightarrow> peer_hello \<Rightarrow> block list \<Rightarrow> (p2p_state, node_error, unit) mut" where
  "handle_blocks cx peer hello blocks =
     mbind (accept_hello cx peer hello) (\<lambda>_.
     mbind (get_branch peer ''received an unsolicited branch block response'') (\<lambda>branch.
     mbind (mlift (\<lambda>_.
       let remote = pb_remote branch in
       rbind (reject_if (\<not> pb_headers_verified branch)
                (NodeP2p ''blocks received before header-first verification'')) (\<lambda>_.
       rbind (reject_if (ph_best_hash hello \<noteq> ph_best_hash remote
                  \<or> ph_cumulative_work hello \<noteq> ph_cumulative_work remote)
                (NodeP2p ''peer changed its advertised branch during synchronization'')) (\<lambda>_.
       rbind (reject_if (blocks = []) (NodeP2p ''peer returned an empty incomplete branch'')) (\<lambda>_.
       rbind (reject_if (bh_height (b_header (last blocks)) > ph_best_height remote)
                (NodeP2p ''peer sent blocks beyond its committed tip'')) (\<lambda>_.
       reject_if (\<not> list_all (\<lambda>b. list_ex (\<lambda>h. hm_hash h = hash_to_hex (block_hash (cx_externals cx) b)
                     \<and> hm_height h = bh_height (b_header b)) (pb_headers branch)) blocks)
         (NodeP2p ''block body does not match verified header set''))))))) (\<lambda>_.
     if pb_direct_extension branch then extend_directly cx peer branch blocks
     else stage_branch cx peer branch blocks)))"

definition handle_sync_response ::
  "sync_context \<Rightarrow> string \<Rightarrow> sync_response \<Rightarrow> (p2p_state, node_error, unit) mut" where
  "handle_sync_response cx peer response =
     (case response of
        Rejected reason \<Rightarrow> handle_rejected cx peer reason
      | HelloAccepted hello \<Rightarrow> handle_hello_accepted cx peer hello
      | CommonAncestor hello height \<Rightarrow> handle_common_ancestor cx peer hello height
      | Headers hello headers \<Rightarrow> handle_headers cx peer hello headers
      | Blocks hello blocks \<Rightarrow> handle_blocks cx peer hello blocks)"

section \<open>Events of the swarm\<close>

definition accept_mining_presence ::
  "sync_context \<Rightarrow> string option \<Rightarrow> mining_announcement \<Rightarrow> (p2p_state, node_error, unit) mut" where
  "accept_mining_presence cx message_source a =
     mbind (mlift (\<lambda>_.
       rbind (reject_if (ma_protocol_version a \<noteq> P2P_PROTOCOL_VERSION)
                (NodeP2p (''unsupported mining presence protocol version ''
                   @ show_word (ma_protocol_version a)))) (\<lambda>_.
       rbind (reject_if (ma_network_id a \<noteq> nc_network_id (cx_config cx))
                (NetworkMismatch (nc_network_id (cx_config cx)) (ma_network_id a))) (\<lambda>_.
       rbind (map_err (\<lambda>e. NodeP2p (''invalid mining peer ID: '' @ e)) (cx_parse_peer cx (ma_peer_id a))) (\<lambda>announced.
       rbind (reject_if (message_source \<noteq> Some announced)
                (NodeP2p ''mining presence signer does not match its announced peer ID'')) (\<lambda>_.
       rbind (reject_if (ma_updated_at a > saturating_add (cx_now cx) 10
                  \<or> saturating_sub (cx_now cx) (ma_updated_at a) > MINER_PRESENCE_TTL_SECONDS)
                (NodeP2p ''mining presence timestamp is outside the accepted freshness window'')) (\<lambda>_.
       rbind (reject_if (ma_hashrate_hs a = 0)
                (NodeP2p ''mining presence hashrate must be greater than zero'')) (\<lambda>_.
       Ok announced)))))))) (\<lambda>announced.
     mupd (\<lambda>s. s\<lparr>p2_miners := map_insert announced
       \<lparr>mp_peer_id = ma_peer_id a, mp_hashrate_hs = ma_hashrate_hs a,
        mp_template_height = ma_template_height a, mp_updated_at = ma_updated_at a, mp_local = False\<rparr>
       (p2_miners s)\<rparr>))"

text \<open>
  The events the loop reacts to; a gossip payload is the outcome of decoding it. A response
  that cannot be sent is part of the event.
\<close>

datatype swarm_event =
    NewListenAddr string
  | ConnectionEstablished string string nat
  | ConnectionClosed string
  | RequestReceived string sync_request bool
  | ResponseReceived string sync_response
  | OutboundFailure string string
  | InboundFailure string string
  | GossipTransaction string "string + transaction"
  | GossipMining string "string option" "string + mining_announcement"
  | ConnectionError string

definition note_error :: "string \<Rightarrow> p2p_state \<Rightarrow> p2p_state" where
  "note_error message = upd_status (\<lambda>st. st\<lparr>st_last_error := Some message\<rparr>)"

definition forget_peer :: "string \<Rightarrow> p2p_state \<Rightarrow> p2p_state" where
  "forget_peer peer s = (drop_branch peer s)\<lparr>p2_peers := map_remove peer (p2_peers s)\<rparr>"

definition connection_established ::
  "sync_context \<Rightarrow> string \<Rightarrow> string \<Rightarrow> nat \<Rightarrow> p2p_state \<Rightarrow> p2p_state" where
  "connection_established cx peer address num_established s =
     (if length (p2_peers s) \<ge> nc_max_peers (cx_config cx) \<and> map_of (p2_peers s) peer = None
      then note_error (''peer limit '' @ show_nat (nc_max_peers (cx_config cx))
             @ '' reached; refused additional peer'') (disconnect_peer_id peer s)
      else if is_banned (cx_now cx) (p2_reputation s) peer
      then disconnect_peer_id peer (note_error (''refused banned peer '' @ peer @ '' (score ''
             @ show_int (score_of (p2_reputation s) peer) @ '')'') s)
      else
        let s1 = (if map_of (p2_peers s) peer \<noteq> None then s
                  else s\<lparr>p2_peers := map_insert peer
                    \<lparr>cp_peer_id = peer, cp_address = Some address, cp_handshake_validated = False,
                     cp_best_height = None, cp_best_hash = None, cp_cumulative_work = None,
                     cp_validating = False, cp_mining = False, cp_hashrate_hs = 0,
                     cp_connected_at = cx_now cx, cp_last_error = None,
                     cp_reputation_score = score_of (p2_reputation s) peer, cp_banned = False\<rparr> (p2_peers s)\<rparr>) in
        if num_established = 1
        then (case local_hello cx (nd_db (p2_node s1)) of
                Inr hello \<Rightarrow> send_request peer (Hello hello) s1
              | Inl e \<Rightarrow> note_error (''could not build Hello for peer '' @ peer @ '': '' @ node_error_display e) s1)
        else s1)"

definition response_received :: "sync_context \<Rightarrow> string \<Rightarrow> sync_response \<Rightarrow> p2p_state \<Rightarrow> p2p_state" where
  "response_received cx peer response s =
     (case handle_sync_response cx peer response s of
        (Inr _, s1) \<Rightarrow> s1
      | (Inl e, s1) \<Rightarrow>
          let message = node_error_display e;
              s2 = note_peer_fault cx peer message
                     (upd_reputation (apply_protocol_fault (cx_now cx) peer message) s1);
              s3 = disconnect_peer_id peer
                     (note_error (''rejected data from peer '' @ peer @ '': '' @ message) s2) in
          if is_banned (cx_now cx) (p2_reputation s3) peer
          then forget_peer peer s3
          else s3)"

definition outbound_failure :: "sync_context \<Rightarrow> string \<Rightarrow> string \<Rightarrow> p2p_state \<Rightarrow> p2p_state" where
  "outbound_failure cx peer message s =
     (let s1 = drop_branch peer s;
          s2 = note_error message (s1\<lparr>p2_peers :=
                 map_adjust peer (\<lambda>p. p\<lparr>cp_last_error := Some message\<rparr>) (p2_peers s1)\<rparr>) in
      if str_contains message ''supports none of the requested protocols''
         \<or> str_contains message ''UnsupportedProtocols'' \<or> str_contains message ''Unsupported protocol''
      then
        let s3 = disconnect_peer_id peer
              (upd_reputation (penalize (cx_now cx) peer 15 ''unsupported sync protocol'' (DEFAULT_BAN_SECONDS div 2)) s2) in
        forget_peer peer s3
      else s2)"

definition handle_swarm_event :: "sync_context \<Rightarrow> swarm_event \<Rightarrow> p2p_state \<Rightarrow> p2p_state" where
  "handle_swarm_event cx event s =
     (case event of
        NewListenAddr address \<Rightarrow>
          upd_status (\<lambda>st. if address \<in> set (st_listen_addresses st) then st
                          else st\<lparr>st_listen_addresses := st_listen_addresses st @ [address]\<rparr>) s
      | ConnectionEstablished peer address n \<Rightarrow> connection_established cx peer address n s
      | ConnectionClosed peer \<Rightarrow> forget_peer peer s
      | RequestReceived peer request sent \<Rightarrow>
          (let s1 = snd (handle_sync_request cx peer request s) in
           if sent then s1 else note_error (''could not send response to '' @ peer) s1)
      | ResponseReceived peer response \<Rightarrow> response_received cx peer response s
      | OutboundFailure peer message \<Rightarrow> outbound_failure cx peer message s
      | InboundFailure peer message \<Rightarrow>
          note_error message (s\<lparr>p2_peers :=
            map_adjust peer (\<lambda>p. p\<lparr>cp_last_error := Some message\<rparr>) (p2_peers s)\<rparr>)
      | GossipTransaction source payload \<Rightarrow>
          (case payload of
             Inl e \<Rightarrow> note_error (''malformed transaction from peer '' @ source @ '': '' @ e) s
           | Inr tx \<Rightarrow>
               (case on_node (submit_transaction (cx_externals cx) (cx_clk cx 0) (cx_t cx)
                        (nc_max_mempool_transactions (cx_config cx)) tx) s of
                  (Inr _, s1) \<Rightarrow> s1
                | (Inl e, s1) \<Rightarrow> note_error (''rejected transaction from peer '' @ source @ '': ''
                                    @ node_error_display e) s1))
      | GossipMining source signer payload \<Rightarrow>
          (case payload of
             Inl e \<Rightarrow> note_error (''malformed mining presence from '' @ source @ '': '' @ e) s
           | Inr a \<Rightarrow>
               (case accept_mining_presence cx signer a s of
                  (Inr _, s1) \<Rightarrow> s1
                | (Inl e, s1) \<Rightarrow> note_error (''rejected mining presence from '' @ source @ '': ''
                                    @ node_error_display e) s1))
      | ConnectionError message \<Rightarrow> note_error message s)"

end
