(* ===== verification/Vireon_Peer.thy ===== *)
theory Vireon_Peer
  imports Vireon_Sync
begin

text \<open>
  Properties of the synchronisation protocol: what any sequence of swarm events, whatever peers
  send, leaves of the stored chain, the peer table, the staged branches and the reputation
  store, and reorganisations against the commitment of the peer. Handlers are evaluated by weakest
  preconditions.
\<close>

section \<open>Weakest preconditions\<close>

definition wp :: "('s, 'e, 'a) mut \<Rightarrow> ('e + 'a \<Rightarrow> 's \<Rightarrow> bool) \<Rightarrow> 's \<Rightarrow> bool" where
  "wp m Q s = (case m s of (r, s') \<Rightarrow> Q r s')"

named_theorems wp_rules

lemma wp_bind [wp_rules]:
  "wp (mbind m f) Q s = wp m (\<lambda>r s'. case r of Inl e \<Rightarrow> Q (Inl e) s' | Inr a \<Rightarrow> wp (f a) Q s') s"
  by (simp add: wp_def mbind_def split: prod.splits sum.splits)

lemma wp_ret [wp_rules]: "wp (mret a) Q s = Q (Inr a) s"
  by (simp add: wp_def mret_def)

lemma wp_lift [wp_rules]: "wp (mlift f) Q s = Q (f s) s"
  by (simp add: wp_def mlift_def)

lemma wp_upd [wp_rules]: "wp (mupd g) Q s = Q (Inr ()) (g s)"
  by (simp add: wp_def mupd_def)

lemma wp_with_db [wp_rules]: "wp (with_db h) Q s = Q (h (nd_db (p2_node s))) s"
  by (simp add: with_db_def wp_rules)

lemma wp_get_branch [wp_rules]:
  "wp (get_branch peer message) Q s = Q (ok_or (map_of (p2_branches s) peer) (NodeP2p message)) s"
  by (simp add: get_branch_def wp_rules)

lemma wp_on_node [wp_rules]: "wp (on_node m) Q s = wp m (\<lambda>r n. Q r (s\<lparr>p2_node := n\<rparr>)) (p2_node s)"
  by (simp add: wp_def on_node_def split: prod.splits)

lemma wpI: "(\<And>r s'. m s = (r, s') \<Longrightarrow> Q r s') \<Longrightarrow> wp m Q s"
  by (simp add: wp_def split: prod.splits)

lemma wpD: "wp m Q s \<Longrightarrow> m s = (r, s') \<Longrightarrow> Q r s'"
  by (simp add: wp_def)

text \<open>A computation keeps a predicate of the state, whether it succeeds or fails.\<close>

definition keeps :: "('s \<Rightarrow> bool) \<Rightarrow> ('s, 'e, 'a) mut \<Rightarrow> bool" where
  "keeps I m \<longleftrightarrow> (\<forall>s. I s \<longrightarrow> wp m (\<lambda>_. I) s)"

named_theorems keeps_intros

lemma keeps_bind [keeps_intros]: "keeps I m \<Longrightarrow> (\<And>a. keeps I (f a)) \<Longrightarrow> keeps I (mbind m f)"
  unfolding keeps_def wp_bind by (auto simp: wp_def split: prod.splits sum.splits)

lemma keeps_basic [keeps_intros]: "keeps I (mret a)" "keeps I (mlift f)"
  by (simp_all add: keeps_def wp_rules)

lemma keeps_state [keeps_intros]: "keeps I (with_db h)" "keeps I (get_branch peer message)"
  by (simp_all add: keeps_def wp_rules)

lemma keeps_upd [keeps_intros]: "(\<And>s. I s \<Longrightarrow> I (f s)) \<Longrightarrow> keeps I (mupd f)"
  by (simp add: keeps_def wp_rules)

lemma keeps_if [keeps_intros]: "keeps I a \<Longrightarrow> keeps I b \<Longrightarrow> keeps I (if c then a else b)"
  by simp

lemma keepsD: "keeps I m \<Longrightarrow> I s \<Longrightarrow> m s = (r, s') \<Longrightarrow> I s'"
  by (auto simp: keeps_def wp_def)

text \<open>One step of a sequence, with the value it returns.\<close>

lemma wp_step:
  assumes "keeps I m" and "I s" and "\<And>a s'. m s = (Inr a, s') \<Longrightarrow> I s' \<Longrightarrow> wp (f a) (\<lambda>_. I) s'"
  shows "wp (mbind m f) (\<lambda>_. I) s"
  unfolding wp_bind by (rule wpI) (use assms in \<open>auto dest: keepsD split: sum.splits\<close>)

section \<open>Maps\<close>

lemma map_of_adjust [simp]: "map_of (map_adjust k f m) k' = map_option (\<lambda>v. if k' = k then f v else v) (map_of m k')"
  by (induction m) (auto simp: map_adjust_def)

lemma map_adjust_shape [simp]:
  "map fst (map_adjust k f m) = map fst m" "length (map_adjust k f m) = length m"
  by (induction m) (auto simp: map_adjust_def)

lemma map_wf_adjust [simp]: "map_wf (map_adjust k f m) = map_wf m"
  by (simp add: map_wf_def)

lemma map_wf_remove [simp]: "map_wf m \<Longrightarrow> map_wf (map_remove k m)"
  by (induction m) (force simp: map_remove_def split: prod.splits)+

lemma map_of_remove: "map_of (map_remove k m) k' = (if k' = k then None else map_of m k')"
  by (induction m) (auto simp: map_remove_def)

lemma length_map_remove: "length (map_remove k m) \<le> length m"
  by (simp add: map_remove_def)

lemma length_map_insert_new: "map_of m k = None \<Longrightarrow> length (map_insert k v m) = length m + 1"
  by (induction k v m rule: map_insert.induct) auto

section \<open>The invariant\<close>

definition header_links :: "header_summary list \<Rightarrow> bool" where
  "header_links hs \<longleftrightarrow> (\<forall>i. Suc i < length hs \<longrightarrow> hm_previous_hash (hs ! Suc i) = hm_hash (hs ! i))"

definition announced :: "externals \<Rightarrow> header_summary list \<Rightarrow> block \<Rightarrow> bool" where
  "announced X hs b \<longleftrightarrow>
     (\<exists>h\<in>set hs. hm_hash h = hash_to_hex (block_hash X b) \<and> hm_height h = bh_height (b_header b))"

definition branch_ok :: "externals \<Rightarrow> pending_branch \<Rightarrow> bool" where
  "branch_ok X b \<longleftrightarrow> length (pb_blocks b) \<le> MAX_STAGED_REORG_BLOCKS \<and> header_links (pb_headers b)
     \<and> (pb_headers_verified b \<longrightarrow> (\<exists>h\<in>set (pb_headers b). hm_hash h = ph_best_hash (pb_remote b)))
     \<and> (\<forall>blk\<in>set (pb_blocks b). announced X (pb_headers b) blk)"

definition p2p_inv :: "externals \<Rightarrow> node_files \<Rightarrow> nat \<Rightarrow> nat \<Rightarrow> hash \<Rightarrow> p2p_state \<Rightarrow> bool" where
  "p2p_inv X files max_peers work genesis s \<longleftrightarrow>
     node_inv X files work genesis (p2_node s)
     \<and> map_wf (p2_peers s) \<and> length (p2_peers s) \<le> max_peers
     \<and> map_wf (p2_branches s) \<and> (\<forall>k b. map_of (p2_branches s) k = Some b \<longrightarrow> branch_ok X b)
     \<and> reputation_ok (p2_reputation s)"

lemma inv_neutral [keeps_intros]:
  assumes "p2p_inv X files n w g s"
  shows "p2p_inv X files n w g (send_request peer r s)" and "p2p_inv X files n w g (disconnect_peer_id peer s)"
    and "p2p_inv X files n w g (upd_status f s)" and "p2p_inv X files n w g (note_error m s)"
    and "p2p_inv X files n w g (update_validated_peer peer hello s)"
    and "p2p_inv X files n w g (note_peer_fault cx peer m s)"
    and "p2p_inv X files n w g (drop_branch peer s)"
    and "p2p_inv X files n w g (forget_peer peer s)"
    and "p2p_inv X files n w g (s\<lparr>p2_peers := map_adjust peer h (p2_peers s)\<rparr>)"
    and "p2p_inv X files n w g (s\<lparr>p2_miners := ms\<rparr>)"
    and "p2p_inv X files n w g (upd_reputation (reward peer d why) s)"
    and "p2p_inv X files n w g (upd_reputation (penalize now peer d why secs) s)"
    and "p2p_inv X files n w g (upd_reputation (apply_protocol_fault now peer why) s)"
  using assms length_map_remove [of peer "p2_peers s"]
  by (auto simp: p2p_inv_def send_request_def disconnect_peer_id_def upd_status_def note_error_def
      update_validated_peer_def note_peer_fault_def drop_branch_def forget_peer_def upd_reputation_def map_of_remove
      reputation_ok_ops apply_protocol_fault_def Let_def split: if_splits)

lemma inv_branch:
  assumes "p2p_inv X files n w g s" and "\<And>b. map_of (p2_branches s) peer = Some b \<Longrightarrow> branch_ok X b \<Longrightarrow> branch_ok X (f b)"
  shows "p2p_inv X files n w g (upd_branch peer f s)"
  using assms by (auto simp: p2p_inv_def upd_branch_def split: if_splits)

lemma branch_ok_next [simp]: "branch_ok X (b\<lparr>pb_next_height := h\<rparr>) = branch_ok X b"
  by (simp add: branch_ok_def)

lemma inv_insert_branch:
  assumes "p2p_inv X files n w g s" and "branch_ok X b"
  shows "p2p_inv X files n w g (s\<lparr>p2_branches := map_insert peer b (p2_branches s)\<rparr>)"
  using assms by (auto simp: p2p_inv_def split: if_splits)

lemma inv_node:
  assumes "p2p_inv X files n w g s" and "node_inv X files w g st"
  shows "p2p_inv X files n w g (s\<lparr>p2_node := st\<rparr>)"
  using assms by (simp add: p2p_inv_def)

section \<open>Header chains\<close>

lemma header_links_snoc:
  "header_links (hs @ [h]) \<longleftrightarrow> header_links hs \<and> (hs \<noteq> [] \<longrightarrow> hm_previous_hash h = hm_hash (last hs))"
  (is "?l = ?r")
proof
  assume l: ?l
  have "hm_previous_hash (hs ! Suc i) = hm_hash (hs ! i)" if "Suc i < length hs" for i
    using l [unfolded header_links_def, rule_format, of i] that by (simp add: nth_append)
  moreover have "hm_previous_hash h = hm_hash (last hs)" if "hs \<noteq> []"
    using l [unfolded header_links_def, rule_format, of "length hs - 1"] that by (simp add: nth_append last_conv_nth)
  ultimately show ?r by (simp add: header_links_def)
next
  assume ?r
  then show ?l by (auto simp: header_links_def nth_append less_Suc_eq last_conv_nth)
      (metis One_nat_def diff_Suc_1 length_0_conv nat.distinct(1))
qed

lemma check_headers_links:
  assumes "header_links ps" and "ps \<noteq> [] \<longrightarrow> hm_hash (last ps) = prev" and "check_headers prev e hs = Ok ()"
  shows "header_links (ps @ hs)"
  using assms
proof (induction hs arbitrary: ps prev e)
  case (Cons h hs)
  have "header_links ((ps @ [h]) @ hs)"
    using Cons.prems by (intro Cons.IH [of "ps @ [h]" "hm_hash h" "saturating_add e 1"])
      (auto simp: header_links_snoc rbind_Ok)
  then show ?case by simp
qed simp

lemma validate_header_chain_links:
  assumes "validate_header_chain X db b hs = Ok ()" and "header_links (pb_headers b)"
  shows "header_links (pb_headers b @ hs)" and "hs \<noteq> []"
  using assms check_headers_links [of "pb_headers b" _ _ hs]
  by (auto simp: validate_header_chain_def rbind_Ok header_links_def split: if_splits)

lemma branch_ok_extend:
  assumes "branch_ok X b" and "validate_header_chain X db b hs = Ok ()"
  shows "branch_ok X (b\<lparr>pb_headers := pb_headers b @ hs\<rparr>)"
  using assms validate_header_chain_links [OF assms(2)] by (auto simp: branch_ok_def announced_def)

section \<open>Handlers keep the invariant\<close>

lemma keeps_requests [keeps_intros]:
  "keeps (p2p_inv X files n w g) (request_branch_headers cx peer)"
  "keeps (p2p_inv X files n w g) (request_branch_chunk cx peer)"
  "keeps (p2p_inv X files n w g) (accept_hello cx peer hello)"
  unfolding request_branch_headers_def request_branch_chunk_def accept_hello_def
  by (intro keeps_intros; assumption)+

lemma keeps_simple_responses [keeps_intros]:
  "keeps (p2p_inv X files n w g) (handle_rejected cx peer reason)"
  "keeps (p2p_inv X files n w g) (handle_hello_accepted cx peer hello)"
  unfolding handle_rejected_def handle_hello_accepted_def
  by (intro keeps_intros; auto intro: keeps_intros)+

lemma keeps_common_ancestor [keeps_intros]:
  "keeps (p2p_inv X files n w g) (handle_common_ancestor cx peer hello height)"
  unfolding handle_common_ancestor_def
  by (intro keeps_intros inv_insert_branch; assumption?)
    (auto simp: branch_ok_def header_links_def)

lemma keeps_submit_each [keeps_intros]:
  assumes "cx_externals cx = X" and "cx_files cx = files"
  shows "keeps (p2p_inv X files n w g) (submit_each cx i bs)"
proof (induction bs arbitrary: i)
  case (Cons b bs)
  have "p2p_inv X files n w g (s\<lparr>p2_node := st\<rparr>)"
    if "p2p_inv X files n w g s" "submit_mined_block X (cx_clk cx i) files (cx_path cx) b (p2_node s) = (r, st)" for s r st
    using that node_step_inv [of X files w g "p2_node s" "cx_path cx" "SubmitBlock (cx_clk cx i) b" st]
    by (auto simp: p2p_inv_def)
  then have "keeps (p2p_inv X files n w g) (on_node (submit_mined_block X (cx_clk cx i) files (cx_path cx) b))"
    by (auto simp: keeps_def wp_rules intro!: wpI)
  with Cons assms show ?case by (simp add: keeps_bind)
qed (simp add: keeps_intros)

lemma keeps_adopt [keeps_intros]:
  "keeps (p2p_inv X files n w g) (on_node (adopt_candidate_chain X clk t files path cand))"
proof -
  have "p2p_inv X files n w g (s\<lparr>p2_node := st\<rparr>)"
    if "p2p_inv X files n w g s" "adopt_candidate_chain X clk t files path cand (p2_node s) = (r, st)" for s r st
    using that node_step_inv [of X files w g "p2_node s" path "AdoptChain clk t cand" st]
    by (auto simp: p2p_inv_def)
  then show ?thesis by (auto simp: keeps_def wp_rules intro!: wpI)
qed

lemma keeps_submit [keeps_intros]:
  "keeps (p2p_inv X files n w g) (on_node (submit_transaction X clk t limit tx))"
proof -
  have "p2p_inv X files n w g (s\<lparr>p2_node := st\<rparr>)"
    if "p2p_inv X files n w g s" "submit_transaction X clk t limit tx (p2_node s) = (r, st)" for s r st
    using that node_step_inv [of X files w g "p2_node s" path "SubmitTransaction clk t limit tx" st for path]
    by (auto simp: p2p_inv_def)
  then show ?thesis by (auto simp: keeps_def wp_rules intro!: wpI)
qed

lemma wp_extend_headers:
  assumes "p2p_inv X files n w g s" and "map_of (p2_branches s) peer = Some branch"
    and "validate_header_chain X db branch hs = Ok ()"
  shows "wp (extend_headers cx peer branch hs) (\<lambda>_. p2p_inv X files n w g) s"
proof -
  let ?I = "p2p_inv X files n w g" and ?all = "pb_headers branch @ hs"
  let ?s1 = "upd_branch peer (\<lambda>b. b\<lparr>pb_headers := pb_headers b @ hs\<rparr>) s"
  have b: "branch_ok X branch" using assms(1,2) by (auto simp: p2p_inv_def)
  have i1: "?I ?s1"
    using assms(1,2) branch_ok_extend [OF b assms(3)] by (intro inv_branch) auto
  have m1: "map_of (p2_branches ?s1) peer = Some (branch\<lparr>pb_headers := ?all\<rparr>)"
    using assms(2) by (simp add: upd_branch_def)
  have onward: "keeps ?I (mbind (mupd (upd_branch peer (\<lambda>b. b\<lparr>pb_next_height := h\<rparr>))) (\<lambda>_. request_branch_headers cx peer))"
    and finished: "keeps ?I (mbind (mupd (upd_reputation (reward peer 5 ''headers verified''))) (\<lambda>_. request_branch_chunk cx peer))" for h
    by (intro keeps_intros inv_branch; simp add: inv_neutral)+
  have "?I (upd_branch peer (\<lambda>b. b\<lparr>pb_headers_verified := True, pb_next_height := h\<rparr>) ?s1)"
    if "?all \<noteq> []" "hm_hash (last ?all) = ph_best_hash (pb_remote branch)" for h
    using m1 that last_in_set [OF that(1)] by (intro inv_branch [OF i1]) (auto simp: branch_ok_def)
  then show ?thesis
    using i1 onward finished by (auto simp: extend_headers_def Let_def wp_rules keeps_def split: sum.splits)
qed

lemma keeps_headers [keeps_intros]:
  assumes "cx_externals cx = X"
  shows "keeps (p2p_inv X files n w g) (handle_headers cx peer hello hs)" (is "keeps ?I _")
  unfolding keeps_def handle_headers_def
proof (intro allI impI wp_step keeps_intros)
  fix s0 branch s1 s2 s3 u1 u2
  assume "get_branch peer ''received unsolicited headers response'' s0 = (Ok branch, s1)" and i3: "?I s3"
    and "mlift (\<lambda>_. reject_if (ph_best_hash hello \<noteq> ph_best_hash (pb_remote branch))
              (NodeP2p ''peer changed tip during header sync'')) s1 = (Ok u1, s2)"
    and "with_db (\<lambda>db. validate_header_chain (cx_externals cx) db branch hs) s2 = (Ok u2, s3)"
  then have "map_of (p2_branches s3) peer = Some branch"
    "validate_header_chain X (nd_db (p2_node s3)) branch hs = Ok ()"
    using assms by (auto simp: get_branch_def mlift_def with_db_def split: option.splits)
  with i3 show "wp (extend_headers cx peer branch hs) (\<lambda>_. ?I) s3" by (rule wp_extend_headers)
qed assumption+

lemma keeps_extend_directly [keeps_intros]:
  assumes "cx_externals cx = X" and "cx_files cx = files"
  shows "keeps (p2p_inv X files n w g) (extend_directly cx peer branch bs)"
  unfolding extend_directly_def Let_def
  by (intro keeps_intros inv_branch assms) (simp_all add: inv_neutral)

lemma wp_stage_branch:
  assumes "cx_externals cx = X" and "cx_files cx = files" and "p2p_inv X files n w g s"
    and "map_of (p2_branches s) peer = Some branch" and "\<forall>b\<in>set bs. announced X (pb_headers branch) b"
  shows "wp (stage_branch cx peer branch bs) (\<lambda>_. p2p_inv X files n w g) s"
proof (cases "length (pb_blocks branch) + length bs > MAX_STAGED_REORG_BLOCKS")
  case True
  then show ?thesis using assms(3) by (simp add: stage_branch_def Let_def wp_rules)
next
  case False
  have "branch_ok X branch" using assms(3,4) by (auto simp: p2p_inv_def)
  with False assms(5) have "branch_ok X (branch\<lparr>pb_next_height := bh_height (b_header (last bs)) + 1,
      pb_blocks := pb_blocks branch @ bs\<rparr>)"
    by (auto simp: branch_ok_def)
  then have "keeps (p2p_inv X files n w g) (stage_branch cx peer branch bs)"
    unfolding stage_branch_def Let_def assms(1,2)
    by (intro keeps_intros inv_branch) (simp_all add: inv_neutral)
  with assms(3) show ?thesis by (simp add: keeps_def)
qed

lemma keeps_blocks [keeps_intros]:
  assumes "cx_externals cx = X" and "cx_files cx = files"
  shows "keeps (p2p_inv X files n w g) (handle_blocks cx peer hello bs)" (is "keeps ?I _")
  unfolding keeps_def handle_blocks_def
proof (intro allI impI wp_step keeps_intros)
  fix s0 branch s1 s2 u1
  assume "get_branch peer ''received an unsolicited branch block response'' s0 = (Ok branch, s1)" and i2: "?I s2"
    and "mlift (\<lambda>_.
       let remote = pb_remote branch in
       rbind (reject_if (\<not> pb_headers_verified branch)
                (NodeP2p ''blocks received before header-first verification'')) (\<lambda>_.
       rbind (reject_if (ph_best_hash hello \<noteq> ph_best_hash remote
                  \<or> ph_cumulative_work hello \<noteq> ph_cumulative_work remote)
                (NodeP2p ''peer changed its advertised branch during synchronization'')) (\<lambda>_.
       rbind (reject_if (bs = []) (NodeP2p ''peer returned an empty incomplete branch'')) (\<lambda>_.
       rbind (reject_if (ph_best_height remote < bh_height (b_header (last bs)))
                (NodeP2p ''peer sent blocks beyond its committed tip'')) (\<lambda>_.
       reject_if (\<not> list_all (\<lambda>b. list_ex (\<lambda>h. hm_hash h = hash_to_hex (block_hash (cx_externals cx) b)
                     \<and> hm_height h = bh_height (b_header b)) (pb_headers branch)) bs)
         (NodeP2p ''block body does not match verified header set'')))))) s1 = (Ok u1, s2)"
  then have m: "map_of (p2_branches s2) peer = Some branch"
    and a: "\<forall>b\<in>set bs. announced X (pb_headers branch) b"
    using assms by (auto simp: get_branch_def mlift_def Let_def rbind_Ok announced_def list_all_iff list_ex_iff split: option.splits)
  show "wp (if pb_direct_extension branch then extend_directly cx peer branch bs
     else stage_branch cx peer branch bs) (\<lambda>_. ?I) s2"
    using wp_stage_branch [OF assms i2 m a] keeps_extend_directly [OF assms] i2 by (simp add: keeps_def)
qed assumption+

lemma keeps_response:
  assumes "cx_externals cx = X" and "cx_files cx = files"
  shows "keeps (p2p_inv X files n w g) (handle_sync_response cx peer response)"
  unfolding handle_sync_response_def by (cases response) (simp_all add: assms keeps_intros)

section \<open>Events\<close>

lemma response_received_inv:
  assumes "cx_externals cx = X" and "cx_files cx = files" and "p2p_inv X files n w g s"
  shows "p2p_inv X files n w g (response_received cx peer response s)"
proof (cases "handle_sync_response cx peer response s")
  case (Pair r s1)
  then have "p2p_inv X files n w g s1" using keepsD [OF keeps_response [OF assms(1,2)] assms(3)] by blast
  with Pair show ?thesis
    by (auto simp: response_received_def Let_def inv_neutral split: sum.splits)
qed

lemma connection_established_inv:
  assumes "nc_max_peers (cx_config cx) = n" and "p2p_inv X files n w g s"
  shows "p2p_inv X files n w g (connection_established cx peer address k s)"
proof -
  have "p2p_inv X files n w g (s\<lparr>p2_peers := map_insert peer p (p2_peers s)\<rparr>)"
    if "length (p2_peers s) < n" "map_of (p2_peers s) peer = None" for p
    using assms(2) that by (simp add: p2p_inv_def length_map_insert_new)
  with assms show ?thesis
    by (auto simp: connection_established_def Let_def inv_neutral not_le split: sum.splits)
qed

lemma handle_swarm_event_inv:
  assumes "cx_externals cx = X" and "cx_files cx = files" and "nc_max_peers (cx_config cx) = n"
    and "p2p_inv X files n w g s"
  shows "p2p_inv X files n w g (handle_swarm_event cx event s)"
proof (cases event)
  case (GossipTransaction source payload)
  have "p2p_inv X files n w g s1"
    if "on_node (submit_transaction X (cx_clk cx 0) (cx_t cx) l tx) s = (r, s1)" for l tx r s1
    using keepsD [OF keeps_submit assms(4) that] .
  then show ?thesis
    using assms by (auto simp: GossipTransaction handle_swarm_event_def inv_neutral split: sum.splits prod.splits)
next
  case (GossipMining source signer payload)
  have k: "keeps (p2p_inv X files n w g) (accept_mining_presence cx signer a)" for a
    unfolding accept_mining_presence_def by (intro keeps_intros)
  have "p2p_inv X files n w g s1" if "accept_mining_presence cx signer a s = (r, s1)" for a r s1
    using keepsD [OF k assms(4) that] .
  then show ?thesis
    using assms by (auto simp: GossipMining handle_swarm_event_def inv_neutral split: sum.splits prod.splits)
next
  case (RequestReceived peer request sent)
  have "p2p_inv X files n w g (snd (handle_sync_request cx peer request s))"
    using assms(4) by (auto simp: handle_sync_request_def Let_def inv_neutral split: sum.splits)
  then show ?thesis by (simp add: RequestReceived handle_swarm_event_def Let_def inv_neutral)
qed (use assms in \<open>auto simp: handle_swarm_event_def outbound_failure_def Let_def inv_neutral
    response_received_inv connection_established_inv\<close>)

text \<open>
  A run of the service: every event with the context of its call, which always has the same
  libraries, files and peer limit.
\<close>

definition p2p_step ::
  "externals \<Rightarrow> node_files \<Rightarrow> nat \<Rightarrow> sync_context \<times> swarm_event \<Rightarrow> p2p_state \<Rightarrow> p2p_state option" where
  "p2p_step X files n i s =
     (if cx_externals (fst i) = X \<and> cx_files (fst i) = files \<and> nc_max_peers (cx_config (fst i)) = n
      then Some (handle_swarm_event (fst i) (snd i) s) else None)"

interpretation peer: guarded_machine "p2p_step X files n" "p2p_inv X files n w g" for X files n w g
  by unfold_locales (auto simp: p2p_step_def handle_swarm_event_inv split: if_splits)

definition p2p_start :: "node_state \<Rightarrow> reputation_store \<Rightarrow> p2p_state" where
  "p2p_start node rep =
     \<lparr>p2_node = node, p2_peers = [], p2_branches = [], p2_miners = [],
      p2_status = \<lparr>st_listen_addresses = [], st_syncing = False, st_target_height = None,
        st_target_hash = None, st_target_work = None, st_resume_height = None, st_last_error = None\<rparr>,
      p2_reputation = rep, p2_sent = [], p2_disconnected = []\<rparr>"

text \<open>
  C2: Peers cannot corrupt a node. Whatever connections, requests, answers and gossip arrive, in
  whatever order, the stored chain stays valid from the same genesis and never loses work, the
  peer table stays within its limit, no branch stages more than 2048 blocks, and every staged
  block was announced by a header of a linked header chain which contains the committed tip
  once it counts as verified.
\<close>

theorem peers_cannot_corrupt_node:
  assumes "load_blocks X (nd_db node) = Ok bs" and "build_validated_chain X clk files (nf_config files) bs = Ok c"
    and "run (p2p_step X files n) events (p2p_start node rep_new) = Some s"
  shows "\<exists>bs' clk' c'. load_blocks X (nd_db (p2_node s)) = Ok bs'
    \<and> build_validated_chain X clk' files (nf_config files) bs' = Ok c'
    \<and> block_hash X (hd bs') = block_hash X (hd bs) \<and> work_sum bs \<le> work_sum bs'
    \<and> length (p2_peers s) \<le> n
    \<and> (\<forall>peer branch. map_of (p2_branches s) peer = Some branch \<longrightarrow>
         length (pb_blocks branch) \<le> 2048 \<and> header_links (pb_headers branch)
         \<and> (\<forall>b\<in>set (pb_blocks branch). announced X (pb_headers branch) b)
         \<and> (pb_headers_verified branch \<longrightarrow>
              (\<exists>h\<in>set (pb_headers branch). hm_hash h = ph_best_hash (pb_remote branch))))"
proof -
  have "p2p_inv X files n (work_sum bs) (block_hash X (hd bs)) (p2p_start node rep_new)"
    using assms(1,2) reputation_ok_reachable [of "[]"] by (auto simp: p2p_inv_def p2p_start_def node_inv_def)
  then have "p2p_inv X files n (work_sum bs) (block_hash X (hd bs)) s"
    using assms(3) by (rule peer.run_inv)
  then show ?thesis
    unfolding p2p_inv_def node_inv_def branch_ok_def MAX_STAGED_REORG_BLOCKS_def by blast
qed

definition sample_context :: sync_context where
  "sample_context =
     \<lparr>cx_externals = sample_externals, cx_files = sample_files, cx_config = sample_config, cx_path = sample_path,
      cx_miner = None, cx_now = 0, cx_clk = (\<lambda>_ _. 0), cx_t = (\<lambda>_. 0), cx_parse_peer = Inr\<rparr>"

lemma sample_p2p_step:
  "p2p_step sample_externals sample_files 64 (sample_context, e) s = Some (handle_swarm_event sample_context e s)"
  by (simp add: p2p_step_def) (simp add: sample_context_def sample_config_def)

theorem peers_cannot_corrupt_node_witness:
  "\<exists>s bs. run (p2p_step sample_externals sample_files 64)
       [(sample_context, ConnectionEstablished ''p'' ''/ip4/10.0.0.1'' 1),
        (sample_context, ResponseReceived ''p'' (Rejected ''network mismatch'')),
        (sample_context, GossipTransaction ''p'' (Inr (sample_spend 1 5 15)))]
       (p2p_start sample_node rep_new) = Some s
     \<and> load_blocks sample_externals (nd_db (p2_node s)) = Ok bs \<and> length (p2_peers s) \<le> 64"
  (is "\<exists>s bs. run _ ?events _ = Some s \<and> _")
proof -
  obtain s where r: "run (p2p_step sample_externals sample_files 64) ?events (p2p_start sample_node rep_new) = Some s"
    by (simp add: sample_p2p_step)
  have "load_blocks sample_externals (nd_db sample_node) = Ok [sample_genesis]"
    using sample_db_loads by (simp add: sample_node_def)
  moreover have "build_validated_chain sample_externals (\<lambda>_. 0) sample_files (nf_config sample_files) [sample_genesis]
      = Ok sample_chain"
    using sample_build(1) by (simp add: sample_files_def)
  ultimately show ?thesis using peers_cannot_corrupt_node [OF _ _ r] r by blast
qed

section \<open>Reorganisations on behalf of a peer\<close>

lemma node_untouched [simp]:
  "p2_node (send_request peer r s) = p2_node s" "p2_node (disconnect_peer_id peer s) = p2_node s"
  "p2_node (upd_status f s) = p2_node s" "p2_node (upd_reputation h s) = p2_node s"
  "p2_node (upd_branch peer k s) = p2_node s" "p2_node (drop_branch peer s) = p2_node s"
  "p2_node (update_validated_peer peer hello s) = p2_node s"
  by (simp_all add: send_request_def disconnect_peer_id_def upd_status_def upd_reputation_def upd_branch_def
      drop_branch_def update_validated_peer_def)

lemma adopt_stores_candidate:
  assumes "adopt_candidate_chain X clk t files path cand st = (r, st')" and "nd_db st' \<noteq> nd_db st"
  shows "load_blocks X (nd_db st') = Ok cand"
proof (cases r)
  case (Inl e)
  with assms show ?thesis using adopt_candidate_chain_Err by blast
next
  case (Inr summary)
  show ?thesis by (rule adopt_candidate_chain_Ok [OF assms(1) [unfolded Inr]])
qed

definition meets_commitment :: "externals \<Rightarrow> peer_hello \<Rightarrow> block list \<Rightarrow> bool" where
  "meets_commitment X remote bs \<longleftrightarrow> bs \<noteq> [] \<and> bh_height (b_header (last bs)) = ph_best_height remote
     \<and> hash_to_hex (block_hash X (last bs)) = ph_best_hash remote
     \<and> (\<exists>w. cumulative_work bs = Ok w \<and> show_word w = ph_cumulative_work remote)"

lemma stage_branch_commitment:
  fixes cx peer branch bs and s :: p2p_state
  defines "X \<equiv> cx_externals cx"
  defines "Q \<equiv> \<lambda>st. nd_db st \<noteq> nd_db (p2_node s) \<longrightarrow>
    (\<exists>cand. load_blocks X (nd_db st) = Ok cand \<and> meets_commitment X (pb_remote branch) cand)"
  shows "wp (stage_branch cx peer branch bs) (\<lambda>_ s'. Q (p2_node s')) s"
proof -
  have same: "Q (p2_node s)" by (simp add: Q_def)
  have adopt: "wp (adopt_candidate_chain X clk t files path cand) P (p2_node s)"
    if "meets_commitment X (pb_remote branch) cand" and "\<And>r n. Q n \<Longrightarrow> P r n" for clk t files path cand P
    using that adopt_stores_candidate by (intro wpI) (fastforce simp: Q_def)
  have chunk: "wp (request_branch_chunk cx peer) (\<lambda>_ s'. Q (p2_node s')) s1" if "p2_node s1 = p2_node s" for s1
    using that same by (auto simp: request_branch_chunk_def wp_rules split: sum.splits)
  show ?thesis
    unfolding stage_branch_def Let_def
    by (auto simp: wp_bind wp_lift wp_upd wp_with_db wp_on_node same chunk rbind_Ok meets_commitment_def
        X_def [symmetric] last_block_def split: sum.splits if_splits intro!: adopt)
qed

text \<open>
  C10: A reorganisation asked for by a peer delivers what the peer committed to: if processing a
  peer's blocks for a branch that does not extend the local tip changes the stored chain, the
  new chain ends at the height and hash the peer advertised and has exactly the advertised work.
\<close>

theorem reorg_meets_commitment:
  assumes "map_of (p2_branches s) peer = Some branch" and "\<not> pb_direct_extension branch"
    and "handle_sync_response cx peer (Blocks hello bs) s = (r, s')"
    and "nd_db (p2_node s') \<noteq> nd_db (p2_node s)"
  shows "\<exists>cand w. load_blocks (cx_externals cx) (nd_db (p2_node s')) = Ok cand \<and> cand \<noteq> []
    \<and> bh_height (b_header (last cand)) = ph_best_height (pb_remote branch)
    \<and> hash_to_hex (block_hash (cx_externals cx) (last cand)) = ph_best_hash (pb_remote branch)
    \<and> cumulative_work cand = Ok w \<and> show_word w = ph_cumulative_work (pb_remote branch)"
proof -
  let ?Q = "\<lambda>st. nd_db st \<noteq> nd_db (p2_node s) \<longrightarrow> (\<exists>cand. load_blocks (cx_externals cx) (nd_db st) = Ok cand
    \<and> meets_commitment (cx_externals cx) (pb_remote branch) cand)"
  have "wp (stage_branch cx peer branch bs) (\<lambda>_ s'. ?Q (p2_node s')) (update_validated_peer peer hello s)"
    using stage_branch_commitment [of cx peer branch bs "update_validated_peer peer hello s"] by simp
  moreover have "map_of (p2_branches (update_validated_peer peer hello s)) peer = Some branch"
    using assms(1) by (simp add: update_validated_peer_def)
  ultimately have "wp (handle_blocks cx peer hello bs) (\<lambda>_ s'. ?Q (p2_node s')) s"
    using assms(2) unfolding handle_blocks_def accept_hello_def wp_rules by (auto split: sum.splits)
  with assms(3,4) have "\<exists>cand. load_blocks (cx_externals cx) (nd_db (p2_node s')) = Ok cand
    \<and> meets_commitment (cx_externals cx) (pb_remote branch) cand"
    by (auto simp: handle_sync_response_def dest!: wpD)
  then show ?thesis by (auto simp: meets_commitment_def)
qed

definition sample_remote :: "u128 \<Rightarrow> peer_hello" where
  "sample_remote w = \<lparr>ph_protocol_version = P2P_PROTOCOL_VERSION, ph_network_id = nc_network_id sample_config,
     ph_chain_magic_hex = nc_chain_magic_hex sample_config,
     ph_genesis_hash = hash_to_hex (block_hash sample_externals sample_genesis), ph_best_height = 1,
     ph_best_hash = hash_to_hex (block_hash sample_externals sample_next), ph_cumulative_work = show_word w,
     ph_validating = True, ph_mining = False, ph_hashrate_hs = 0\<rparr>"

definition sample_branch :: "u128 \<Rightarrow> pending_branch" where
  "sample_branch w = \<lparr>pb_remote = sample_remote w, pb_ancestor_height = 0, pb_direct_extension = False,
     pb_next_height = 1, pb_headers_verified = True,
     pb_headers = [header_summary_of sample_externals sample_next], pb_blocks = []\<rparr>"

definition sample_syncing :: "u128 \<Rightarrow> p2p_state" where
  "sample_syncing w = (p2p_start sample_node rep_new)\<lparr>p2_branches := [(''p'', sample_branch w)]\<rparr>"

lemma sample_hello_accepted:
  "accept_hello sample_context ''p'' (sample_remote w) (sample_syncing w) = (Ok (), sample_syncing w)"
proof -
  have "local_genesis_hash sample_externals sample_db = Ok (hash_to_hex (block_hash sample_externals sample_genesis))"
    using sample_db_loads by (simp add: local_genesis_hash_def first_block_def)
  moreover have "nd_db (p2_node (sample_syncing w)) = sample_db" by (simp add: sample_syncing_def p2p_start_def sample_node_def)
  moreover have "update_validated_peer ''p'' (sample_remote w) (sample_syncing w) = sample_syncing w"
    by (simp add: update_validated_peer_def sample_syncing_def p2p_start_def map_adjust_def)
  ultimately show ?thesis
    by (simp add: accept_hello_def with_db_def mbind_def mlift_def mupd_def validate_peer_hello_def
        validate_p2p_handshake_def sample_context_def sample_remote_def)
qed

lemma sample_context_fields:
  "cx_externals sample_context = sample_externals" "cx_config sample_context = sample_config"
  "cx_files sample_context = sample_files" "cx_path sample_context = sample_path"
  "cx_clk sample_context i = (\<lambda>_. 0)" "cx_t sample_context = (\<lambda>_. 0)"
  by (simp_all add: sample_context_def)

lemma sample_blocks_staged:
  "handle_sync_response sample_context ''p'' (Blocks (sample_remote w) [sample_next]) (sample_syncing w)
     = stage_branch sample_context ''p'' (sample_branch w) [sample_next] (sample_syncing w)"
proof -
  have "map_of (p2_branches (sample_syncing w)) ''p'' = Some (sample_branch w)"
    by (simp add: sample_syncing_def)
  moreover have "bh_height (b_header sample_next) = 1" by (simp add: sample_next_def)
  ultimately show ?thesis
    by (simp add: handle_sync_response_def handle_blocks_def mbind_def [of "accept_hello _ _ _"] sample_hello_accepted)
      (simp add: get_branch_def mbind_def mlift_def sample_branch_def sample_remote_def header_summary_of_def Let_def
        sample_context_fields)
qed

lemma sample_branch_adopted:
  assumes "cumulative_work [sample_genesis, sample_next] = Ok w"
    and "adopt_candidate_chain sample_externals (\<lambda>_. 0) (\<lambda>_. 0) sample_files sample_path
      [sample_genesis, sample_next] sample_node = (Ok summary, st')"
  shows "nd_db (p2_node (snd (stage_branch sample_context ''p'' (sample_branch w) [sample_next] (sample_syncing w)))) = nd_db st'"
proof -
  let ?b = "sample_branch w\<lparr>pb_next_height := 2, pb_blocks := [sample_next]\<rparr>"
  have h: "bh_height (b_header sample_next) = 1" by (simp add: sample_next_def)
  have s: "p2_node (sample_syncing w) = sample_node" by (simp add: sample_syncing_def p2p_start_def)
  have r: "ph_best_height (sample_remote w) = 1" "ph_cumulative_work (sample_remote w) = show_word w"
    "ph_best_hash (sample_remote w) = hash_to_hex (block_hash sample_externals sample_next)"
    by (simp_all add: sample_remote_def)
  have b: "pb_remote (sample_branch w) = sample_remote w" "pb_blocks (sample_branch w) = []"
    "pb_ancestor_height (sample_branch w) = 0" "pb_next_height (sample_branch w) = 1"
    by (simp_all add: sample_branch_def)
  have c: "chain_from_blocks sample_externals (nc_network sample_config) (clocked (\<lambda>_. 0) [sample_genesis, sample_next]) = Ok sample_grown"
    using sample_build(2) by (simp add: build_validated_Ok)
  have st: "staged_candidate sample_externals (nd_db sample_node) ?b = Ok [sample_genesis, sample_next]"
    using sample_db_loads by (simp add: staged_candidate_def sample_node_def b)
  have lim: "\<not> length [sample_next] > MAX_STAGED_REORG_BLOCKS" by (simp add: MAX_STAGED_REORG_BLOCKS_def)
  have l: "last_block [sample_genesis, sample_next] = Some sample_next" by (simp add: last_block_def)
  show ?thesis using assms lim
    by (simp add: stage_branch_def Let_def mbind_def mlift_def mupd_def with_db_def on_node_def sample_context_fields b h s st c l r)
qed

theorem reorg_meets_commitment_witness:
  "\<exists>w r s'. handle_sync_response sample_context ''p'' (Blocks (sample_remote w) [sample_next]) (sample_syncing w) = (r, s')
    \<and> load_blocks sample_externals (nd_db (p2_node s')) = Ok [sample_genesis, sample_next]
    \<and> hash_to_hex (block_hash sample_externals sample_next) = ph_best_hash (sample_remote w)
    \<and> cumulative_work [sample_genesis, sample_next] = Ok w \<and> show_word w = ph_cumulative_work (sample_remote w)"
proof -
  obtain w where w: "cumulative_work [sample_genesis, sample_next] = Ok w"
    using chain_ok_work [OF sample_grown_ok(1)] sample_grown_ok(2) by auto
  obtain summary st' where ad: "adopt_candidate_chain sample_externals (\<lambda>_. 0) (\<lambda>_. 0) sample_files sample_path
      [sample_genesis, sample_next] sample_node = (Ok summary, st')"
    using sample_adopts by blast
  from adopt_candidate_chain_Ok [OF this] have l: "load_blocks sample_externals (nd_db st') = Ok [sample_genesis, sample_next]" by blast
  obtain r s' where r: "handle_sync_response sample_context ''p'' (Blocks (sample_remote w) [sample_next]) (sample_syncing w) = (r, s')"
    by fastforce
  then have db: "nd_db (p2_node s') = nd_db st'"
    using sample_branch_adopted [OF w ad] by (simp add: sample_blocks_staged)
  have "nd_db (p2_node (sample_syncing w)) = sample_db" by (simp add: sample_syncing_def p2p_start_def sample_node_def)
  with db l sample_db_loads have "nd_db (p2_node s') \<noteq> nd_db (p2_node (sample_syncing w))" by auto
  moreover have "map_of (p2_branches (sample_syncing w)) ''p'' = Some (sample_branch w)" "\<not> pb_direct_extension (sample_branch w)"
    "pb_remote (sample_branch w) = sample_remote w"
    by (simp_all add: sample_syncing_def sample_branch_def)
  ultimately show ?thesis using reorg_meets_commitment [OF _ _ r] r l db w sample_context_fields(1)
    by (intro exI [of _ w] exI [of _ r] exI [of _ s']) auto
qed

end
