(* ===== verification/Vireon_Locator.thy ===== *)
theory Vireon_Locator
  imports
    Vireon_Sync
begin

text \<open>
  The search for the common ancestor of two chains, \<open>block_locator\<close> and \<open>find_ancestor\<close> of
  \<^verbatim>\<open>vireon-node/src/p2p.rs\<close>: the locator is short and spans the whole chain, and it always
  leads two nodes with the same genesis block to a shared block.
\<close>

definition heights_ok :: "block list \<Rightarrow> bool" where
  "heights_ok bs \<longleftrightarrow> (\<forall>i<length bs. unat (bh_height (b_header (bs ! i))) = i)"

lemma locator_step:
  assumes "index = (if MAX_LOCATOR_ENTRIES - 1 \<le> length locator \<and> index0 \<noteq> 0 then 0 else index0)"
    and "bh_height (b_header (bs ! index)) \<notin> set seen"
  shows "\<exists>step'. locator_loop X bs locator index0 step seen
    = (if index = 0 then locator @ [locator_entry_of X (bs ! index)]
       else locator_loop X bs (locator @ [locator_entry_of X (bs ! index)]) (index - max step 1) step'
              (bh_height (b_header (bs ! index)) # seen))"
  by (subst locator_loop.simps) (simp only: Let_def assms(1) [symmetric] assms(2) if_False, blast)

lemma unat_height: "heights_ok bs \<Longrightarrow> i < length bs \<Longrightarrow> unat (bh_height (b_header (bs ! i))) = i"
  by (simp add: heights_ok_def)

lemma locator_loop_shape:
  assumes "heights_ok bs" and "index0 < length bs" and "\<forall>h\<in>set seen. index0 < unat h"
    and "length locator < MAX_LOCATOR_ENTRIES"
  shows "\<exists>is. locator_loop X bs locator index0 step seen = locator @ map (\<lambda>i. locator_entry_of X (bs ! i)) is
    \<and> sorted_wrt (>) is \<and> is \<noteq> [] \<and> last is = 0 \<and> hd is \<le> index0
    \<and> (length locator + 1 < MAX_LOCATOR_ENTRIES \<longrightarrow> hd is = index0)
    \<and> length locator + length is \<le> MAX_LOCATOR_ENTRIES"
  using assms
proof (induction index0 arbitrary: locator step seen rule: less_induct)
  case (less index0)
  define index where "index = (if MAX_LOCATOR_ENTRIES - 1 \<le> length locator \<and> index0 \<noteq> 0 then 0 else index0)"
  let ?e = "locator_entry_of X (bs ! index)" and ?h = "bh_height (b_header (bs ! index))"
  have le: "index \<le> index0" "index < length bs" using less.prems(2) by (auto simp: index_def)
  have uh: "unat ?h = index" by (rule unat_height [OF assms(1) le(2)])
  have "?h \<notin> set seen"
  proof
    assume "?h \<in> set seen"
    with less.prems(3) uh le(1) show False by force
  qed
  then obtain step' where eq: "locator_loop X bs locator index0 step seen
    = (if index = 0 then locator @ [?e] else locator_loop X bs (locator @ [?e]) (index - max step 1) step' (?h # seen))"
    using locator_step [OF index_def] by blast
  show ?case
  proof (cases "index = 0")
    case True
    then have "length locator + 1 < MAX_LOCATOR_ENTRIES \<longrightarrow> index0 = 0" by (auto simp: index_def split: if_splits)
    then show ?thesis using True less.prems(4) eq by (intro exI [of _ "[0]"]) auto
  next
    case False
    then have ix: "index = index0" "length locator + 1 < MAX_LOCATOR_ENTRIES" by (auto simp: index_def split: if_splits)
    have nx: "index - max step 1 < index" using False by simp
    have "\<exists>is. locator_loop X bs (locator @ [?e]) (index - max step 1) step' (?h # seen)
          = (locator @ [?e]) @ map (\<lambda>i. locator_entry_of X (bs ! i)) is
        \<and> sorted_wrt (>) is \<and> is \<noteq> [] \<and> last is = 0 \<and> hd is \<le> index - max step 1
        \<and> (length (locator @ [?e]) + 1 < MAX_LOCATOR_ENTRIES \<longrightarrow> hd is = index - max step 1)
        \<and> length (locator @ [?e]) + length is \<le> MAX_LOCATOR_ENTRIES"
    proof (rule less.IH)
      show "index - max step 1 < index0" using nx ix(1) by simp
      show "index - max step 1 < length bs" using nx le(2) by linarith
      show "\<forall>h\<in>set (?h # seen). index - max step 1 < unat h"
        using less.prems(3) uh nx ix(1) by (simp add: less_imp_diff_less)
    qed (use less.prems(1) ix(2) in simp_all)
    then obtain "is" where i: "locator_loop X bs locator index0 step seen
          = (locator @ [?e]) @ map (\<lambda>i. locator_entry_of X (bs ! i)) is"
      "sorted_wrt (>) is" "is \<noteq> []" "last is = 0" "hd is \<le> index - max step 1"
      "length (locator @ [?e]) + length is \<le> MAX_LOCATOR_ENTRIES"
      using eq False by auto
    have "j < index" if "j \<in> set is" for j
      using that i(2,3,5) nx by (cases "is") auto
    with i ix show ?thesis by (intro exI [of _ "index # is"]) simp
  qed
qed
lemma loaded_heights:
  assumes "load_blocks X db = Ok bs"
  shows "heights_ok bs" "bs \<noteq> []"
  using assms structured_height by (auto simp: heights_ok_def load_blocks_def load_Ok)

lemma find_first: "\<forall>y\<in>set xs. \<not> P y \<Longrightarrow> P x \<Longrightarrow> find P (xs @ x # ys) = Some x"
  by (induction xs) auto

lemma locator_shape:
  assumes "block_locator X db = Ok loc"
  obtains bs "is" where "load_blocks X db = Ok bs" "bs \<noteq> []" "heights_ok bs"
    "loc = map (\<lambda>i. locator_entry_of X (bs ! i)) is" "sorted_wrt (>) is" "is \<noteq> []" "last is = 0"
    "hd is = length bs - 1" "length is \<le> MAX_LOCATOR_ENTRIES"
proof -
  from assms obtain bs where bs: "load_blocks X db = Ok bs"
    "loc = (if bs = [] then [] else locator_loop X bs [] (length bs - 1) 1 [])"
    by (auto simp: block_locator_def rbind_Ok)
  note h = loaded_heights [OF bs(1)]
  have "length bs - 1 < length bs" using h(2) by (cases bs) auto
  from locator_loop_shape [OF h(1) this, of "[]" "[]" X 1] obtain "is" where
    "locator_loop X bs [] (length bs - 1) 1 [] = map (\<lambda>i. locator_entry_of X (bs ! i)) is"
    "sorted_wrt (>) is" "is \<noteq> []" "last is = 0" "hd is = length bs - 1" "length is \<le> MAX_LOCATOR_ENTRIES"
    by (auto simp: MAX_LOCATOR_ENTRIES_def)
  with bs h show thesis by (intro that [of bs "is"]) auto
qed

lemma locator_indices:
  assumes "sorted_wrt (>) is" and "hd is = length bs - 1" and "bs \<noteq> []" and "i \<in> set is"
  shows "i < length bs"
proof -
  have "i \<le> hd is" using assms(1,4) by (cases "is") auto
  with assms(2,3) show ?thesis by (cases bs) auto
qed

text \<open>
  The locator loop ends for a stored chain of any length: it builds a locator of at most 32
  entries which starts at the tip, ends at genesis, has strictly falling heights, and every
  entry is a block of the chain.
\<close>

theorem locator_spans_chain:
  assumes stored: "load_blocks X db = Ok bs"
  shows "\<exists>loc. block_locator X db = Ok loc \<and> loc \<noteq> [] \<and> length loc \<le> 32
    \<and> hd loc = locator_entry_of X (last bs) \<and> last loc = locator_entry_of X (hd bs)
    \<and> sorted_wrt (\<lambda>a b. unat (lo_height a) > unat (lo_height b)) loc
    \<and> set loc \<subseteq> locator_entry_of X ` set bs"
proof -
  obtain loc where loc: "block_locator X db = Ok loc" using stored by (simp add: block_locator_def)
  from locator_shape [OF loc] stored obtain "is" where
    l: "load_blocks X db = Ok bs" "bs \<noteq> []" "heights_ok bs" "loc = map (\<lambda>i. locator_entry_of X (bs ! i)) is"
    "sorted_wrt (>) is" "is \<noteq> []" "last is = 0" "hd is = length bs - 1" "length is \<le> MAX_LOCATOR_ENTRIES"
    by (metis sum.inject(2))
  note inside = locator_indices [OF l(5,8,2)]
  have "sorted_wrt (\<lambda>a b. unat (lo_height a) > unat (lo_height b)) loc"
    unfolding l(4) sorted_wrt_map using l(5)
    by (rule sorted_wrt_mono_rel [rotated]) (simp add: locator_entry_of_def unat_height [OF l(3) inside])
  moreover have "set loc \<subseteq> locator_entry_of X ` set bs" using inside by (auto simp: l(4))
  ultimately show ?thesis using l loc
    by (intro exI [of _ loc]) (simp add: MAX_LOCATOR_ENTRIES_def hd_map last_map last_conv_nth hd_conv_nth)
qed

theorem locator_spans_chain_witness:
  "\<exists>loc. block_locator sample_externals sample_db = Ok loc \<and> loc \<noteq> [] \<and> length loc \<le> 32
     \<and> last loc = locator_entry_of sample_externals sample_genesis"
  using locator_spans_chain [OF sample_db_loads] by auto

text \<open>
  Two nodes with the same genesis block always find a common ancestor: the locator of one
  looked up in the chain of the other gives an entry, its block stands at the same height with the
  same hash in both chains, and no entry before it (of a higher block) is shared.
\<close>

theorem locator_finds_ancestor:
  assumes "block_locator X db = Ok loc" and "load_blocks X db = Ok bs" and "load_blocks X db' = Ok bs'"
    and "block_hash X (hd bs) = block_hash X (hd bs')"
  shows "\<exists>i. i < length bs \<and> i < length bs' \<and> find_ancestor X bs' loc = Some (locator_entry_of X (bs ! i))
    \<and> hash_to_hex (block_hash X (bs ! i)) = hash_to_hex (block_hash X (bs' ! i))
    \<and> (\<forall>e\<in>set loc. unat (lo_height e) > i \<longrightarrow> unat (lo_height e) < length bs' \<longrightarrow>
         hash_to_hex (block_hash X (bs' ! unat (lo_height e))) \<noteq> lo_hash e)"
proof (rule locator_shape [OF assms(1)])
  fix bs2 "is"
  assume l: "load_blocks X db = Ok bs2" "bs2 \<noteq> []" "heights_ok bs2" "loc = map (\<lambda>i. locator_entry_of X (bs2 ! i)) is"
    "sorted_wrt (>) is" "is \<noteq> []" "last is = 0" "hd is = length bs2 - 1" "length is \<le> MAX_LOCATOR_ENTRIES"
  have bs: "bs2 = bs" using l(1) assms(2) by simp
  note inside = locator_indices [OF l(5,8,2), unfolded bs]
  let ?P = "\<lambda>e. case block_at bs' (lo_height e) of None \<Rightarrow> False | Some b \<Rightarrow> hash_to_hex (block_hash X b) = lo_hash e"
  let ?M = "\<lambda>i. i < length bs' \<and> hash_to_hex (block_hash X (bs' ! i)) = hash_to_hex (block_hash X (bs ! i))"
  have P: "?P (locator_entry_of X (bs ! i)) = ?M i" if "i \<in> set is" for i
    using unat_height [OF l(3) [unfolded bs] inside [OF that]] by (simp add: locator_entry_of_def block_at_def)
  have "0 \<in> set is" using l(6,7) last_in_set by metis
  moreover have "?M 0" using assms(4) loaded_heights(2) [OF assms(3)] l(2) bs by (simp add: hd_conv_nth)
  ultimately obtain xs i ys where xs: "is = xs @ i # ys" "?M i" "\<forall>j\<in>set xs. \<not> ?M j"
    using split_list_first_prop [of "is" ?M] by blast
  have "find ?P loc = Some (locator_entry_of X (bs ! i))"
    using xs P by (auto simp: l(4) bs intro!: find_first)
  moreover have "\<not> ?M j" if "j \<in> set is" "i < j" for j
    using that l(5) xs by (auto simp: sorted_wrt_append)
  ultimately show ?thesis using xs inside unat_height [OF l(3) [unfolded bs]]
    by (intro exI [of _ i]) (auto simp: find_ancestor_def l(4) bs locator_entry_of_def)
qed

theorem locator_finds_ancestor_witness:
  "\<exists>loc db'. block_locator sample_externals sample_db = Ok loc
     \<and> load_blocks sample_externals db' = Ok [sample_genesis, sample_next]
     \<and> find_ancestor sample_externals [sample_genesis, sample_next] loc = Some (locator_entry_of sample_externals sample_genesis)"
proof -
  obtain loc where l: "block_locator sample_externals sample_db = Ok loc"
    using sample_db_loads by (simp add: block_locator_def)
  obtain summary st' where "adopt_candidate_chain sample_externals (\<lambda>_. 0) (\<lambda>_. 0) sample_files sample_path
      [sample_genesis, sample_next] sample_node = (Ok summary, st')"
    using sample_adopts by blast
  from adopt_candidate_chain_Ok [OF this]
  have db: "load_blocks sample_externals (nd_db st') = Ok [sample_genesis, sample_next]" by blast
  from locator_finds_ancestor [OF l sample_db_loads db] l db show ?thesis by auto
qed

end
