(* ===== verification/Vireon_Nonce.thy ===== *)
theory Vireon_Nonce
  imports Vireon_Prelude
begin

text \<open>
  \<^verbatim>\<open>vireon-miner/src/nonce.rs\<close>: the lock-free allocator of nonce ranges. Each atomic load,
  store and compare-exchange is one step of a worker, and workers interleave freely; a weak
  compare-exchange may also fail without reason. The ghost fields record every granted range
  with the reset it belongs to. The lemmas show that ranges granted under one reset never
  overlap, what one uninterrupted call returns, and that a reset which interleaves with a
  lease lets the lease leave the new window.
\<close>

section \<open>Ranges and the shared counters\<close>

record nonce_range =
  nr_start :: u64
  nr_end :: u64

definition range_len :: "nonce_range \<Rightarrow> u64" where
  "range_len r = saturating_sub (nr_end r) (nr_start r)"

definition range_is_empty :: "nonce_range \<Rightarrow> bool" where
  "range_is_empty r \<longleftrightarrow> nr_start r \<ge> nr_end r"

record nonce_allocator =
  na_generation :: u64
  na_cursor :: u64
  na_window_end :: u64
  na_work_generation :: u64

definition allocator_new :: nonce_allocator where
  "allocator_new = \<lparr>na_generation = 1, na_cursor = 0, na_window_end = - 1, na_work_generation = 0\<rparr>"

definition window_limit :: "u64 \<Rightarrow> u64 option \<Rightarrow> u64" where
  "window_limit nonce_start window_size =
     (case window_size of
        Some sz \<Rightarrow> if sz > 0 then saturating_add nonce_start sz else - 1
      | None \<Rightarrow> - 1)"

definition lease_take :: "u64 \<Rightarrow> u64 \<Rightarrow> u64 \<Rightarrow> u64" where
  "lease_take count end_cap start = min count (saturating_sub end_cap start)"

section \<open>Workers\<close>

text \<open>Where a worker is inside \<open>lease\<close> or \<open>reset_work\<close>: before which atomic operation.\<close>

datatype worker =
    Idle
  | LoadWindow u64
  | LoadCursor u64 u64
  | Exchange u64 u64 u64
  | Leased "nonce_range option"
  | StoreCursor u64 u64
  | StoreWindow u64
  | BumpWork
  | BumpGeneration

record mining =
  mi_shared :: nonce_allocator
  mi_worker :: "nat \<Rightarrow> worker"
  mi_epoch :: nat
  mi_granted :: "(nat \<times> nonce_range) list"

definition set_worker :: "nat \<Rightarrow> worker \<Rightarrow> mining \<Rightarrow> mining" where
  "set_worker i w m = m\<lparr>mi_worker := (mi_worker m)(i := w)\<rparr>"

inductive nstep :: "mining \<Rightarrow> mining \<Rightarrow> bool" where
  lease_zero: "mi_worker m i = Idle \<Longrightarrow> nstep m (set_worker i (Leased None) m)"
| lease_call: "mi_worker m i = Idle \<Longrightarrow> count \<noteq> 0 \<Longrightarrow> nstep m (set_worker i (LoadWindow count) m)"
| load_window: "mi_worker m i = LoadWindow count \<Longrightarrow>
    nstep m (set_worker i (LoadCursor count (na_window_end (mi_shared m))) m)"
| exhausted: "mi_worker m i = LoadCursor count end_cap \<Longrightarrow> start = na_cursor (mi_shared m) \<Longrightarrow>
    start \<ge> end_cap \<or> lease_take count end_cap start = 0 \<Longrightarrow>
    nstep m (set_worker i (Leased None) m)"
| load_cursor: "mi_worker m i = LoadCursor count end_cap \<Longrightarrow> start = na_cursor (mi_shared m) \<Longrightarrow>
    start < end_cap \<Longrightarrow> lease_take count end_cap start \<noteq> 0 \<Longrightarrow>
    nstep m (set_worker i (Exchange count end_cap start) m)"
| exchange_ok: "mi_worker m i = Exchange count end_cap start \<Longrightarrow> na_cursor (mi_shared m) = start \<Longrightarrow>
    new_cursor = saturating_add start (lease_take count end_cap start) \<Longrightarrow>
    r = \<lparr>nr_start = start, nr_end = new_cursor\<rparr> \<Longrightarrow>
    nstep m (set_worker i (Leased (Some r))
      (m\<lparr>mi_shared := (mi_shared m)\<lparr>na_cursor := new_cursor\<rparr>,
         mi_granted := mi_granted m @ [(mi_epoch m, r)]\<rparr>))"
| exchange_failed: "mi_worker m i = Exchange count end_cap start \<Longrightarrow>
    nstep m (set_worker i (LoadCursor count end_cap) m)"
| lease_return: "mi_worker m i = Leased r \<Longrightarrow> nstep m (set_worker i Idle m)"
| reset_call: "mi_worker m i = Idle \<Longrightarrow>
    nstep m (set_worker i (StoreCursor nonce_start (window_limit nonce_start window_size)) m)"
| store_cursor: "mi_worker m i = StoreCursor nonce_start limit \<Longrightarrow>
    nstep m (set_worker i (StoreWindow limit)
      (m\<lparr>mi_shared := (mi_shared m)\<lparr>na_cursor := nonce_start\<rparr>, mi_epoch := mi_epoch m + 1\<rparr>))"
| store_window: "mi_worker m i = StoreWindow limit \<Longrightarrow>
    nstep m (set_worker i BumpWork (m\<lparr>mi_shared := (mi_shared m)\<lparr>na_window_end := limit\<rparr>\<rparr>))"
| bump_work: "mi_worker m i = BumpWork \<Longrightarrow>
    nstep m (set_worker i BumpGeneration
      (m\<lparr>mi_shared := (mi_shared m)\<lparr>na_work_generation := na_work_generation (mi_shared m) + 1\<rparr>\<rparr>))"
| bump_generation: "mi_worker m i = BumpGeneration \<Longrightarrow>
    nstep m (set_worker i Idle
      (m\<lparr>mi_shared := (mi_shared m)\<lparr>na_generation := na_generation (mi_shared m) + 1\<rparr>\<rparr>))"

definition mining_start :: mining where
  "mining_start = \<lparr>mi_shared = allocator_new, mi_worker = (\<lambda>_. Idle), mi_epoch = 0, mi_granted = []\<rparr>"

abbreviation mining_reachable :: "mining \<Rightarrow> bool" where
  "mining_reachable m \<equiv> nstep\<^sup>*\<^sup>* mining_start m"

section \<open>One call at a time\<close>

text \<open>\<open>lease\<close> and \<open>reset_work\<close> when no other worker runs in between.\<close>

definition lease :: "u64 \<Rightarrow> nonce_allocator \<Rightarrow> nonce_range option \<times> nonce_allocator" where
  "lease count al =
     (let end_cap = na_window_end al; start = na_cursor al; take = lease_take count end_cap start in
      if count = 0 \<or> start \<ge> end_cap \<or> take = 0 then (None, al)
      else (Some \<lparr>nr_start = start, nr_end = saturating_add start take\<rparr>,
            al\<lparr>na_cursor := saturating_add start take\<rparr>))"

definition reset_work :: "u64 \<Rightarrow> u64 option \<Rightarrow> nonce_allocator \<Rightarrow> nonce_allocator" where
  "reset_work nonce_start window_size al =
     al\<lparr>na_cursor := nonce_start, na_window_end := window_limit nonce_start window_size,
        na_work_generation := na_work_generation al + 1, na_generation := na_generation al + 1\<rparr>"

section \<open>The invariant of the interleaving\<close>

definition before :: "nat \<times> nonce_range \<Rightarrow> nat \<times> nonce_range \<Rightarrow> bool" where
  "before a b \<longleftrightarrow> fst a \<le> fst b \<and> (fst a = fst b \<longrightarrow> nr_end (snd a) \<le> nr_start (snd b))"

definition mining_inv :: "mining \<Rightarrow> bool" where
  "mining_inv m \<longleftrightarrow> sorted_wrt before (mi_granted m)
     \<and> (\<forall>(e, r)\<in>set (mi_granted m). nr_start r < nr_end r \<and> e \<le> mi_epoch m
          \<and> (e = mi_epoch m \<longrightarrow> nr_end r \<le> na_cursor (mi_shared m)))
     \<and> (\<forall>i c e s. mi_worker m i = Exchange c e s \<longrightarrow> s < e \<and> lease_take c e s \<noteq> 0)"

lemma lease_end:
  assumes "s < e" and "lease_take c e s \<noteq> 0"
  shows "unat (saturating_add s (lease_take c e s)) = unat s + min (unat c) (unat e - unat s)"
    and "s < saturating_add s (lease_take c e s)" and "saturating_add s (lease_take c e s) \<le> e"
proof -
  have t: "unat (lease_take c e s) = min (unat c) (unat e - unat s)"
    by (simp add: lease_take_def min_def word_le_nat_alt unat_saturating_sub)
  have "unat s < unat e" "unat e < 2 ^ 64" using assms(1) unsigned_less [of e] by (simp_all add: word_less_nat_alt)
  then show u: "unat (saturating_add s (lease_take c e s)) = unat s + min (unat c) (unat e - unat s)"
    by (auto simp: unat_saturating_add t min_def)
  have "unat (lease_take c e s) \<noteq> 0" using assms(2) by (simp add: unat_eq_zero)
  then show "s < saturating_add s (lease_take c e s)" and "saturating_add s (lease_take c e s) \<le> e"
    using u t \<open>unat s < unat e\<close> by (simp_all add: word_less_nat_alt word_le_nat_alt)
qed

lemma mining_inv_start: "mining_inv mining_start"
  by (simp add: mining_inv_def mining_start_def)

lemma mining_inv_idle:
  "mining_inv m \<Longrightarrow> (\<And>c e s. w = Exchange c e s \<Longrightarrow> s < e \<and> lease_take c e s \<noteq> 0) \<Longrightarrow>
     mining_inv (set_worker i w m)"
  by (auto simp: mining_inv_def set_worker_def)

lemma mining_inv_counters [simp]:
  "mining_inv (m\<lparr>mi_shared := (mi_shared m)\<lparr>na_window_end := x\<rparr>\<rparr>) = mining_inv m"
  "mining_inv (m\<lparr>mi_shared := (mi_shared m)\<lparr>na_work_generation := x\<rparr>\<rparr>) = mining_inv m"
  "mining_inv (m\<lparr>mi_shared := (mi_shared m)\<lparr>na_generation := x\<rparr>\<rparr>) = mining_inv m"
  by (simp_all add: mining_inv_def)

lemma mining_inv_step: "nstep m m' \<Longrightarrow> mining_inv m \<Longrightarrow> mining_inv m'"
proof (induction rule: nstep.induct)
  case (exchange_ok m i count end_cap start new_cursor r)
  have e: "start < end_cap" "lease_take count end_cap start \<noteq> 0"
    using exchange_ok.prems exchange_ok.hyps(1) by (auto simp: mining_inv_def)
  from exchange_ok show ?case
    using lease_end(2) [OF e]
    by (intro mining_inv_idle) (fastforce simp: mining_inv_def sorted_wrt_append before_def)+
next
  case (store_cursor m i nonce_start limit)
  then show ?case by (intro mining_inv_idle) (fastforce simp: mining_inv_def)+
qed (auto intro!: mining_inv_idle)

lemma mining_inv_reachable: "mining_reachable m \<Longrightarrow> mining_inv m"
  by (induction rule: rtranclp_induct) (auto intro: mining_inv_start mining_inv_step)

section \<open>Uninterrupted calls\<close>

lemma set_worker_again [simp]:
  "set_worker i w (set_worker i v m) = set_worker i w m" "mi_worker (set_worker i w m) i = w"
  "mi_shared (set_worker i w m) = mi_shared m" "mi_granted (set_worker i w m) = mi_granted m"
  "mi_epoch (set_worker i w m) = mi_epoch m"
  by (simp_all add: set_worker_def)

lemma lease_take_zero: "lease_take count end_cap start = 0 \<longleftrightarrow> count = 0 \<or> end_cap \<le> start"
  by (auto simp: lease_take_def word_unat_eq_iff word_le_nat_alt unat_saturating_sub min_def)

definition granted_by :: "nat \<Rightarrow> nonce_range option \<Rightarrow> nonce_allocator \<Rightarrow> mining \<Rightarrow> mining" where
  "granted_by i r al m =
     set_worker i (Leased r) (m\<lparr>mi_shared := al,
       mi_granted := mi_granted m @ (case r of None \<Rightarrow> [] | Some x \<Rightarrow> [(mi_epoch m, x)])\<rparr>)"

lemma lease_alone:
  assumes "mi_worker m i = Idle" and "lease count (mi_shared m) = (r, al)"
  shows "nstep\<^sup>*\<^sup>* m (granted_by i r al m)"
proof (cases "count = 0")
  case True
  then have "r = None" "al = mi_shared m" using assms(2) by (simp_all add: lease_def)
  with lease_zero [OF assms(1)] show ?thesis by (simp add: granted_by_def r_into_rtranclp)
next
  case False
  let ?e = "na_window_end (mi_shared m)" and ?s = "na_cursor (mi_shared m)"
  let ?m1 = "set_worker i (LoadWindow count) m" and ?m2 = "set_worker i (LoadCursor count ?e) m"
  have "nstep m ?m1" by (rule lease_call [OF assms(1) False])
  moreover have "nstep ?m1 ?m2" using load_window [of ?m1 i count] by simp
  ultimately have two: "nstep\<^sup>*\<^sup>* m ?m2" by simp
  show ?thesis
  proof (cases "?s < ?e")
    case True
    then have t: "lease_take count ?e ?s \<noteq> 0" "\<not> ?e \<le> ?s" using False by (auto simp: lease_take_zero)
    let ?n = "saturating_add ?s (lease_take count ?e ?s)"
    have r: "r = Some \<lparr>nr_start = ?s, nr_end = ?n\<rparr>" "al = (mi_shared m)\<lparr>na_cursor := ?n\<rparr>"
      using assms(2) t False by (simp_all add: lease_def Let_def)
    let ?m3 = "set_worker i (Exchange count ?e ?s) m"
    have "nstep ?m2 ?m3" using load_cursor [of ?m2 i count ?e ?s] True t by simp
    with two have "nstep\<^sup>*\<^sup>* m ?m3" by simp
    moreover have "nstep ?m3 (granted_by i r al m)"
      using exchange_ok [of ?m3 i count ?e ?s ?n, OF _ _ refl refl]
      by (simp add: r granted_by_def set_worker_def)
    ultimately show ?thesis by simp
  next
    case False
    then have r: "r = None" "al = mi_shared m" using assms(2) by (simp_all add: lease_def Let_def not_less)
    have "nstep ?m2 (granted_by i r al m)"
      using exhausted [of ?m2 i count ?e ?s] False by (simp add: not_less r granted_by_def)
    with two show ?thesis by simp
  qed
qed

lemma reset_alone:
  assumes "mi_worker m i = Idle"
  shows "nstep\<^sup>*\<^sup>* m (m\<lparr>mi_epoch := mi_epoch m + 1, mi_shared := reset_work s w (mi_shared m)\<rparr>)"
proof -
  let ?m1 = "set_worker i (StoreCursor s (window_limit s w)) m"
  let ?m2 = "set_worker i (StoreWindow (window_limit s w))
    (?m1\<lparr>mi_shared := (mi_shared ?m1)\<lparr>na_cursor := s\<rparr>, mi_epoch := mi_epoch ?m1 + 1\<rparr>)"
  let ?m3 = "set_worker i BumpWork (?m2\<lparr>mi_shared := (mi_shared ?m2)\<lparr>na_window_end := window_limit s w\<rparr>\<rparr>)"
  let ?m4 = "set_worker i BumpGeneration
    (?m3\<lparr>mi_shared := (mi_shared ?m3)\<lparr>na_work_generation := na_work_generation (mi_shared ?m3) + 1\<rparr>\<rparr>)"
  let ?m5 = "set_worker i Idle
    (?m4\<lparr>mi_shared := (mi_shared ?m4)\<lparr>na_generation := na_generation (mi_shared ?m4) + 1\<rparr>\<rparr>)"
  have "nstep m ?m1" by (rule reset_call [OF assms])
  moreover have "nstep ?m1 ?m2" by (rule store_cursor) simp
  moreover have "nstep ?m2 ?m3" by (rule store_window) simp
  moreover have "nstep ?m3 ?m4" by (rule bump_work) simp
  moreover have "nstep ?m4 ?m5" by (rule bump_generation) simp
  ultimately have "nstep\<^sup>*\<^sup>* m ?m5" by (meson rtranclp.rtrancl_into_rtrancl rtranclp.rtrancl_refl)
  moreover have "(mi_worker m)(i := Idle) = mi_worker m" using assms by (simp add: fun_upd_idem)
  ultimately show ?thesis by (simp add: set_worker_def reset_work_def)
qed

section \<open>Properties\<close>

text \<open>
  C32: In every interleaving of any number of workers leasing and resetting, the ranges granted
  between two resets of the cursor are non-empty and pairwise disjoint.
\<close>

theorem leases_never_overlap:
  assumes "mining_reachable m" and "i < j" and "j < length (mi_granted m)"
    and "mi_granted m ! i = (epoch, a)" and "mi_granted m ! j = (epoch, b)"
  shows "nr_start a < nr_end a \<and> nr_end a \<le> nr_start b \<and> nr_start b < nr_end b"
proof -
  have inv: "mining_inv m" by (rule mining_inv_reachable [OF assms(1)])
  have "before (mi_granted m ! i) (mi_granted m ! j)"
    using inv assms(2,3) by (simp add: mining_inv_def sorted_wrt_iff_nth_less)
  moreover have "mi_granted m ! i \<in> set (mi_granted m)" "mi_granted m ! j \<in> set (mi_granted m)"
    using assms(2,3) by simp_all
  ultimately show ?thesis using inv assms(4,5) by (auto simp: before_def mining_inv_def)
qed

lemma lease_value:
  assumes "count \<noteq> 0" and "na_cursor al < na_window_end al"
    and "unat n = unat (na_cursor al) + min (unat count) (unat (na_window_end al) - unat (na_cursor al))"
  shows "lease count al = (Some \<lparr>nr_start = na_cursor al, nr_end = n\<rparr>, al\<lparr>na_cursor := n\<rparr>)"
proof -
  have t: "lease_take count (na_window_end al) (na_cursor al) \<noteq> 0"
    using assms(1,2) by (simp add: lease_take_zero not_le)
  have "saturating_add (na_cursor al) (lease_take count (na_window_end al) (na_cursor al)) = n"
    using lease_end(1) [OF assms(2) t] assms(3) by (simp add: word_unat_eq_iff)
  with t assms(1,2) show ?thesis by (simp add: lease_def Let_def not_le)
qed

lemma unat_top: "unat (- 1 :: u64) = 18446744073709551615"
  by (simp add: unat_max_word)

lemma two_leases:
  "\<exists>m. mining_reachable m \<and> mi_granted m
     = [(0, \<lparr>nr_start = 0, nr_end = 10\<rparr>), (0, \<lparr>nr_start = 10, nr_end = 20\<rparr>)]"
proof -
  let ?a1 = "allocator_new\<lparr>na_cursor := 10\<rparr>" and ?a2 = "allocator_new\<lparr>na_cursor := 20\<rparr>"
  have l1: "lease 10 allocator_new = (Some \<lparr>nr_start = 0, nr_end = 10\<rparr>, ?a1)"
    using lease_value [of 10 allocator_new 10] by (simp add: allocator_new_def word_less_nat_alt unat_top)
  have l2: "lease 10 ?a1 = (Some \<lparr>nr_start = 10, nr_end = 20\<rparr>, ?a2)"
    using lease_value [of 10 ?a1 20] by (simp add: allocator_new_def word_less_nat_alt unat_top)
  let ?m1 = "granted_by 0 (Some \<lparr>nr_start = 0, nr_end = 10\<rparr>) ?a1 mining_start"
  let ?m2 = "granted_by 1 (Some \<lparr>nr_start = 10, nr_end = 20\<rparr>) ?a2 ?m1"
  have "nstep\<^sup>*\<^sup>* mining_start ?m1"
    by (rule lease_alone [of _ _ 10]) (simp_all add: mining_start_def l1)
  moreover have "nstep\<^sup>*\<^sup>* ?m1 ?m2"
    by (rule lease_alone [of _ _ 10]) (simp_all add: granted_by_def set_worker_def mining_start_def l2)
  ultimately have "mining_reachable ?m2" by simp
  then show ?thesis by (intro exI [of _ ?m2]) (simp add: granted_by_def mining_start_def)
qed

theorem leases_never_overlap_witness:
  "\<exists>m a b. mining_reachable m \<and> mi_granted m = [(0, a), (0, b)] \<and> nr_end a \<le> nr_start b"
proof -
  obtain m where m: "mining_reachable m" "mi_granted m
      = [(0, \<lparr>nr_start = 0, nr_end = 10\<rparr>), (0, \<lparr>nr_start = 10, nr_end = 20\<rparr>)]"
    using two_leases by blast
  with leases_never_overlap [OF m(1), of 0 1] show ?thesis by auto
qed

text \<open>
  A call of \<open>lease\<close> that no other worker interrupts returns: it grants exactly the next
  \<open>count\<close> nonces, or the rest of the window when fewer are left, and reports exhaustion
  without changing anything exactly when the window is used up or nothing was asked for.
\<close>

theorem lease_uninterrupted:
  fixes count :: u64
  assumes "mi_worker m i = Idle"
  shows "\<exists>r al. nstep\<^sup>*\<^sup>* m (granted_by i r al m) \<and>
    (let cursor = na_cursor (mi_shared m); limit = na_window_end (mi_shared m) in
     case r of
       None \<Rightarrow> (count = 0 \<or> limit \<le> cursor) \<and> al = mi_shared m
     | Some x \<Rightarrow> nr_start x = cursor \<and> nr_end x \<le> limit \<and> al = (mi_shared m)\<lparr>na_cursor := nr_end x\<rparr>
         \<and> unat (range_len x) = min (unat count) (unat limit - unat cursor) \<and> \<not> range_is_empty x)"
proof -
  obtain r al where l: "lease count (mi_shared m) = (r, al)" by fastforce
  let ?s = "na_cursor (mi_shared m)" and ?e = "na_window_end (mi_shared m)"
  show ?thesis
  proof (cases "count = 0 \<or> ?e \<le> ?s")
    case True
    then have "r = None" "al = mi_shared m" using l by (auto simp: lease_def Let_def)
    with True lease_alone [OF assms l] show ?thesis
      by (intro exI [of _ r] exI [of _ al]) (simp add: Let_def)
  next
    case False
    then have t: "?s < ?e" "lease_take count ?e ?s \<noteq> 0" by (auto simp: lease_take_zero)
    let ?n = "saturating_add ?s (lease_take count ?e ?s)"
    have "r = Some \<lparr>nr_start = ?s, nr_end = ?n\<rparr>" "al = (mi_shared m)\<lparr>na_cursor := ?n\<rparr>"
      using l False t by (auto simp: lease_def Let_def)
    with lease_alone [OF assms l] lease_end [OF t] show ?thesis
      by (intro exI [of _ r] exI [of _ al])
         (simp add: Let_def range_len_def range_is_empty_def unat_saturating_sub not_le)
  qed
qed

theorem lease_uninterrupted_witness:
  "mi_worker mining_start 0 = Idle \<and> (\<exists>m. mining_reachable m \<and> (\<exists>r. mi_worker m 0 = Leased r))"
proof -
  have i: "mi_worker mining_start 0 = Idle" by (simp add: mining_start_def)
  from lease_uninterrupted [OF i, of 10] obtain r al where "mining_reachable (granted_by 0 r al mining_start)"
    by blast
  moreover have "mi_worker (granted_by 0 r al mining_start) 0 = Leased r" by (simp add: granted_by_def)
  ultimately show ?thesis using i by blast
qed

text \<open>
  The window is not respected when a reset interleaves with a lease: the cursor is stored before
  the end of the window, so a lease in between takes its limit from the old window. A state is
  reachable in which no call is in progress, the window of the last reset ends at 5 and a range
  granted since that reset ends at 100.
\<close>

theorem lease_can_leave_window:
  "\<exists>m r. mining_reachable m \<and> (\<forall>i. mi_worker m i = Idle) \<and> (mi_epoch m, r) \<in> set (mi_granted m)
     \<and> na_window_end (mi_shared m) = 5 \<and> nr_end r = 100"
proof -
  have lim: "window_limit 0 (Some 5) = 5"
    by (simp add: window_limit_def saturating_add_def checked_add_def word_less_nat_alt)
  let ?m1 = "set_worker 0 (StoreCursor 0 5) mining_start"
  let ?m2 = "set_worker 0 (StoreWindow 5)
    (?m1\<lparr>mi_shared := (mi_shared ?m1)\<lparr>na_cursor := 0\<rparr>, mi_epoch := mi_epoch ?m1 + 1\<rparr>)"
  have "nstep mining_start ?m1" using reset_call [of mining_start 0 0 "Some 5"] by (simp add: lim mining_start_def)
  moreover have "nstep ?m1 ?m2" using store_cursor [of ?m1 0 0 5] by simp
  ultimately have r2: "mining_reachable ?m2" by simp
  let ?r = "\<lparr>nr_start = 0, nr_end = 100\<rparr>" and ?a3 = "allocator_new\<lparr>na_cursor := 100\<rparr>"
  have "lease 100 (mi_shared ?m2) = (Some ?r, ?a3)"
    using lease_value [of 100 allocator_new 100]
    by (simp add: mining_start_def allocator_new_def word_less_nat_alt unat_top)
  then have r3: "nstep\<^sup>*\<^sup>* ?m2 (granted_by 1 (Some ?r) ?a3 ?m2)"
    by (intro lease_alone) (simp_all add: set_worker_def mining_start_def)
  let ?m4 = "set_worker 1 Idle (granted_by 1 (Some ?r) ?a3 ?m2)"
  have r4: "nstep (granted_by 1 (Some ?r) ?a3 ?m2) ?m4"
    by (rule lease_return) (simp add: granted_by_def)
  let ?m5 = "set_worker 0 BumpWork (?m4\<lparr>mi_shared := (mi_shared ?m4)\<lparr>na_window_end := 5\<rparr>\<rparr>)"
  have r5: "nstep ?m4 ?m5" by (rule store_window) (simp add: granted_by_def set_worker_def)
  let ?m6 = "set_worker 0 BumpGeneration
    (?m5\<lparr>mi_shared := (mi_shared ?m5)\<lparr>na_work_generation := na_work_generation (mi_shared ?m5) + 1\<rparr>\<rparr>)"
  have r6: "nstep ?m5 ?m6" by (rule bump_work) simp
  let ?m7 = "set_worker 0 Idle
    (?m6\<lparr>mi_shared := (mi_shared ?m6)\<lparr>na_generation := na_generation (mi_shared ?m6) + 1\<rparr>\<rparr>)"
  have "nstep ?m6 ?m7" by (rule bump_generation) simp
  with r2 r3 r4 r5 r6 have "mining_reachable ?m7" by (meson rtranclp.rtrancl_into_rtrancl rtranclp_trans)
  then show ?thesis
    by (intro exI [of _ ?m7] exI [of _ ?r]) (simp add: granted_by_def set_worker_def mining_start_def)
qed

end
