(* ===== verification/Vireon_Pool.thy ===== *)
theory Vireon_Pool
  imports
    Vireon_Crypto "HOL-Library.Product_Lexorder" "HOL-Library.Multiset"
    "HOL-Library.Code_Target_Nat"
begin

text \<open>
  The accounting of the mining pool, \<^verbatim>\<open>vireon-mining-pool/src/store.rs\<close>, with its records
  (\<^verbatim>\<open>models.rs\<close>) and errors (\<^verbatim>\<open>error.rs\<close>): accepted shares, the split of a block reward by
  proven work, maturing and orphaning of pool blocks, and the payout life cycle. The store keeps
  the state in memory and writes it to one file at the end of an operation; the outcome of that
  write is an argument of the operation, so that a failed write leaves the memory changed and the
  file as it was. The results: an exact reward split within one unit of every miner's
  proportional share, an accounting invariant that every operation, every failed write and every
  restart keeps, and the payout life cycle.
\<close>

section \<open>Errors and records\<close>

datatype pool_error =
    PoolConfigError string
  | InvalidShare string
  | Stale string
  | Unauthorized
  | RateLimited u64
  | Banned u64
  | UpstreamError string
  | PoolStorage string

type_synonym 'a pool_result = "pool_error + 'a"

definition into_response_status :: "pool_error \<Rightarrow> nat" where
  "into_response_status e = (case e of
     InvalidShare _ \<Rightarrow> 400 | PoolConfigError _ \<Rightarrow> 400
   | Stale _ \<Rightarrow> 409
   | Unauthorized \<Rightarrow> 401
   | RateLimited _ \<Rightarrow> 429 | Banned _ \<Rightarrow> 429
   | UpstreamError _ \<Rightarrow> 502
   | PoolStorage _ \<Rightarrow> 500)"

record share_record =
  sh_share_id :: u64
  sh_job_id :: string
  sh_miner_address :: string
  sh_worker_name :: string
  sh_nonce :: u64
  sh_hash :: string
  sh_share_bits :: u8
  sh_network_bits :: u8
  sh_accepted_at :: u64
  sh_block_candidate :: bool

record account_balance =
  ab_immature :: u64
  ab_mature :: u64
  ab_pending_payout :: u64
  ab_paid :: u64

datatype pool_block_status = Immature | Mature | Orphaned

record pool_block =
  pb_height :: u64
  pb_hash :: string
  pb_reward :: u64
  pb_distributable :: u64
  pb_pool_fee :: u64
  pb_found_at :: u64
  pb_status :: pool_block_status
  pb_allocations :: "(string, u64) btree_map"

datatype payout_status = Prepared | Submitted | Cancelled

record payout_item =
  pi_address :: string
  pi_amount :: u64

record payout_batch =
  po_payout_id :: string
  po_created_at :: u64
  po_status :: payout_status
  po_items :: "payout_item list"
  po_transaction_hashes :: "string list"

record pool_data =
  pd_next_share_id :: u64
  pd_shares :: "share_record list"
  pd_accounts :: "(string, account_balance) btree_map"
  pd_blocks :: "pool_block list"
  pd_payouts :: "payout_batch list"

definition account_default :: account_balance where
  "account_default = \<lparr>ab_immature = 0, ab_mature = 0, ab_pending_payout = 0, ab_paid = 0\<rparr>"

definition pool_data_default :: pool_data where
  "pool_data_default = \<lparr>pd_next_share_id = 0, pd_shares = [], pd_accounts = [], pd_blocks = [], pd_payouts = []\<rparr>"

section \<open>The store and its file\<close>

text \<open>
  \<open>PoolStore\<close>: the data behind the lock, the content of \<^verbatim>\<open>pool-state.json\<close> (\<open>None\<close> when the file
  does not exist) and the limit of kept shares. An operation gets the outcome of its write,
  \<open>None\<close> when it succeeds.
\<close>

record pool_store =
  ps_data :: pool_data
  ps_file :: "pool_data option"
  ps_max_shares :: nat

type_synonym write_outcome = "pool_error option"

definition pool_load :: "(pool_error + pool_data) option \<Rightarrow> nat \<Rightarrow> pool_store pool_result" where
  "pool_load file max_shares =
     rbind (case file of Some content \<Rightarrow> content | None \<Rightarrow> Ok pool_data_default) (\<lambda>data.
     Ok \<lparr>ps_data = data, ps_file = (case file of None \<Rightarrow> None | Some _ \<Rightarrow> Some data), ps_max_shares = max_shares\<rparr>)"

definition pool_snapshot :: "pool_store \<Rightarrow> pool_data" where
  "pool_snapshot = ps_data"

definition pool_save :: "write_outcome \<Rightarrow> (pool_store, pool_error, unit) mut" where
  "pool_save io s = (case io of
     Some e \<Rightarrow> (Err e, s)
   | None \<Rightarrow> (Ok (), s\<lparr>ps_file := Some (ps_data s)\<rparr>))"

definition with_data :: "(pool_data \<Rightarrow> pool_data) \<Rightarrow> (pool_store, pool_error, unit) mut" where
  "with_data f = mupd (\<lambda>s. s\<lparr>ps_data := f (ps_data s)\<rparr>)"

text \<open>\<open>accounts.entry(address).or_default()\<close> followed by an update of the entry.\<close>

definition account_of :: "(string, account_balance) btree_map \<Rightarrow> string \<Rightarrow> account_balance" where
  "account_of m a = (case map_of m a of Some b \<Rightarrow> b | None \<Rightarrow> account_default)"

definition with_account ::
  "string \<Rightarrow> (account_balance \<Rightarrow> account_balance) \<Rightarrow> (string, account_balance) btree_map
     \<Rightarrow> (string, account_balance) btree_map" where
  "with_account a f m = map_insert a (f (account_of m a)) m"

section \<open>Shares\<close>

definition record_share :: "write_outcome \<Rightarrow> share_record \<Rightarrow> (pool_store, pool_error, share_record \<times> bool) mut" where
  "record_share io share s = (
     case find (\<lambda>item. sh_hash item = sh_hash share) (pd_shares (ps_data s)) of
       Some existing \<Rightarrow> (Ok (existing, True), s)
     | None \<Rightarrow>
         let next_id = saturating_add (pd_next_share_id (ps_data s)) 1;
             share' = share\<lparr>sh_share_id := next_id\<rparr>;
             pushed = pd_shares (ps_data s) @ [share'];
             kept = (if length pushed > ps_max_shares s
                     then drop (length pushed - ps_max_shares s) pushed else pushed) in
         mbind (with_data (\<lambda>d. d\<lparr>pd_next_share_id := next_id, pd_shares := kept\<rparr>)) (\<lambda>_.
         mbind (pool_save io) (\<lambda>_.
         mret (share', False))) s)"

definition share_work :: "u8 \<Rightarrow> u128" where
  "share_work bits = (if unat bits < 128 then push_bit (unat bits) 1 else - 1)"

section \<open>Splitting a reward\<close>

definition add_work :: "(string, u128) btree_map \<Rightarrow> share_record \<Rightarrow> (string, u128) btree_map" where
  "add_work m share = (
     let entry = (case map_of m (sh_miner_address share) of Some w \<Rightarrow> w | None \<Rightarrow> 0) in
     map_insert (sh_miner_address share) (saturating_add entry (share_work (sh_share_bits share))) m)"

definition work_by_address :: "share_record list \<Rightarrow> (string, u128) btree_map" where
  "work_by_address shares = foldl add_work [] shares"

text \<open>The product is a multiplication of \<open>u128\<close> values, which wraps in a release build.\<close>

definition floor_amount :: "u64 \<Rightarrow> u128 \<Rightarrow> u128 \<Rightarrow> u64" where
  "floor_amount distributable total_w work = ucast ((ucast distributable * work) div total_w)"

definition floor_remainder :: "u64 \<Rightarrow> u128 \<Rightarrow> u128 \<Rightarrow> u128" where
  "floor_remainder distributable total_w work = (ucast distributable * work) mod total_w"

definition sort_remainders :: "(string \<times> u128) list \<Rightarrow> (string \<times> u128) list" where
  "sort_remainders = sort_key (\<lambda>(address, rem). (- uint rem, address))"

fun give_dust :: "(string \<times> u128) list \<Rightarrow> (string, u64) btree_map \<Rightarrow> u64 \<Rightarrow> (string, u64) btree_map \<times> u64" where
  "give_dust [] amounts dust = (amounts, dust)"
| "give_dust ((address, _) # rest) amounts dust =
     (if dust = 0 then (amounts, dust)
      else case map_of amounts address of
        None \<Rightarrow> give_dust rest amounts dust
      | Some amount \<Rightarrow>
          give_dust rest (map_insert address (saturating_add amount 1) amounts) (saturating_sub dust 1))"

text \<open>\<open>max_by\<close> keeps the later of two equal elements.\<close>

fun highest_work :: "(string \<times> u128) list \<Rightarrow> (string \<times> u128) option" where
  "highest_work [] = None"
| "highest_work (p # ps) = Some (fold (\<lambda>q best. if (snd q, fst q) < (snd best, fst best) then best else q) ps p)"

definition allocate_by_share_work :: "share_record list \<Rightarrow> u64 \<Rightarrow> string + (string, u64) btree_map" where
  "allocate_by_share_work shares distributable = (
     let works = work_by_address shares;
         total_w = fold (\<lambda>(_, work) sum. saturating_add sum work) works 0 in
     rbind (reject_if (total_w = 0) ''PPLNS work total cannot be zero'') (\<lambda>_.
     rbind (reject_if (works = []) ''cannot allocate a block without accepted shares'') (\<lambda>_.
     let floors = map (\<lambda>(a, w). (a, floor_amount distributable total_w w)) works;
         remainders = map (\<lambda>(a, w). (a, floor_remainder distributable total_w w)) works;
         allocated = fold (\<lambda>(_, amount) sum. saturating_add sum amount) floors 0;
         (amounts, dust) = give_dust (sort_remainders remainders) floors (saturating_sub distributable allocated) in
     Ok (if dust > 0
         then (case highest_work works of
                 None \<Rightarrow> amounts
               | Some (address, _) \<Rightarrow>
                   (case map_of amounts address of
                      None \<Rightarrow> amounts
                    | Some amount \<Rightarrow> map_insert address (saturating_add amount dust) amounts))
         else amounts))))"

section \<open>Pool blocks\<close>

definition previous_block_at :: "pool_block list \<Rightarrow> u64" where
  "previous_block_at blocks = fold (\<lambda>b acc. max acc (pb_found_at b)) blocks 0"

definition round_shares :: "pool_data \<Rightarrow> nat \<Rightarrow> u64 \<Rightarrow> share_record list" where
  "round_shares d pplns_window now = (
     let previous = previous_block_at (pd_blocks d);
         in_round = filter (\<lambda>sh. previous < sh_accepted_at sh \<and> sh_accepted_at sh \<le> now) (pd_shares d) in
     if in_round = []
     then take (max pplns_window 1) (filter (\<lambda>sh. sh_accepted_at sh \<le> now) (rev (pd_shares d)))
     else if length in_round > pplns_window \<and> pplns_window > 0
     then drop (length in_round - pplns_window) in_round
     else in_round)"

definition pool_fee :: "u64 \<Rightarrow> u16 \<Rightarrow> u64 option" where
  "pool_fee reward fee_basis_points = (
     let fee = (ucast reward * ucast fee_basis_points :: u128) div 10000 in
     if unat fee < 2 ^ 64 then Some (ucast fee) else None)"

definition credit_immature :: "string \<times> u64 \<Rightarrow> (string, account_balance) btree_map \<Rightarrow> (string, account_balance) btree_map" where
  "credit_immature entry = with_account (fst entry)
     (\<lambda>b. b\<lparr>ab_immature := saturating_add (ab_immature b) (snd entry)\<rparr>)"

definition record_pool_block ::
  "write_outcome \<Rightarrow> u64 \<Rightarrow> string \<Rightarrow> u64 \<Rightarrow> u16 \<Rightarrow> nat \<Rightarrow> u64 \<Rightarrow> (pool_store, pool_error, unit) mut" where
  "record_pool_block io height hash reward fee_basis_points pplns_window now s = (
     let d = ps_data s in
     if list_ex (\<lambda>b. pb_hash b = hash) (pd_blocks d) then (Ok (), s)
     else
       mbind (mlift (\<lambda>_. ok_or (pool_fee reward fee_basis_points) (PoolStorage ''pool fee overflow''))) (\<lambda>fee.
       let distributable = saturating_sub reward fee;
           shares = round_shares d pplns_window now in
       mbind (mlift (\<lambda>_. reject_if (shares = []) (PoolStorage ''cannot allocate a block without accepted shares''))) (\<lambda>_.
       mbind (mlift (\<lambda>_. map_err PoolStorage (allocate_by_share_work shares distributable))) (\<lambda>allocations.
       mbind (with_data (\<lambda>d. d\<lparr>
           pd_accounts := fold credit_immature allocations (pd_accounts d),
           pd_blocks := pd_blocks d @ [\<lparr>pb_height = height, pb_hash = hash, pb_reward = reward,
             pb_distributable = distributable, pb_pool_fee = fee, pb_found_at = now,
             pb_status = Immature, pb_allocations = allocations\<rparr>]\<rparr>)) (\<lambda>_.
       pool_save io)))) s)"

text \<open>The status a block moves to when the pool compares it with the canonical chain.\<close>

definition next_status :: "(u64, string) btree_map \<Rightarrow> u64 \<Rightarrow> u64 \<Rightarrow> pool_block \<Rightarrow> pool_block_status option" where
  "next_status canonical_hashes tip confirmations b = (
     let canonical = map_of canonical_hashes (pb_height b) in
     case pb_status b of
       Immature \<Rightarrow>
         if (case canonical of Some c \<Rightarrow> c \<noteq> pb_hash b | None \<Rightarrow> False) then Some Orphaned
         else if tip < saturating_add (pb_height b) confirmations then None
         else (case canonical of
                 None \<Rightarrow> None
               | Some c \<Rightarrow> Some (if c = pb_hash b then Mature else Orphaned))
     | Mature \<Rightarrow>
         let diverged = (case canonical of Some c \<Rightarrow> c \<noteq> pb_hash b | None \<Rightarrow> pb_height b > tip) in
         if diverged then Some Orphaned else None
     | Orphaned \<Rightarrow> None)"

definition set_status :: "(pool_block \<Rightarrow> pool_block_status option) \<Rightarrow> pool_block \<Rightarrow> pool_block" where
  "set_status nxt b = (case nxt b of None \<Rightarrow> b | Some st \<Rightarrow> b\<lparr>pb_status := st\<rparr>)"

type_synonym transition = "pool_block_status \<times> (string, u64) btree_map \<times> pool_block_status"

definition transitions_of :: "(pool_block \<Rightarrow> pool_block_status option) \<Rightarrow> pool_block list \<Rightarrow> transition list" where
  "transitions_of nxt blocks = concat (map (\<lambda>b. case nxt b of
     None \<Rightarrow> [] | Some st \<Rightarrow> [(st, pb_allocations b, pb_status b)]) blocks)"

definition move_balance :: "pool_block_status \<Rightarrow> pool_block_status \<Rightarrow> u64 \<Rightarrow> account_balance \<Rightarrow> account_balance" where
  "move_balance previous nxt amount b = (case (previous, nxt) of
     (Immature, Mature) \<Rightarrow> b\<lparr>ab_immature := saturating_sub (ab_immature b) amount,
                              ab_mature := saturating_add (ab_mature b) amount\<rparr>
   | (Immature, Orphaned) \<Rightarrow> b\<lparr>ab_immature := saturating_sub (ab_immature b) amount\<rparr>
   | (Mature, Orphaned) \<Rightarrow> b\<lparr>ab_mature := saturating_sub (ab_mature b) (min amount (ab_mature b))\<rparr>
   | _ \<Rightarrow> b)"

definition apply_transition :: "transition \<Rightarrow> (string, account_balance) btree_map \<Rightarrow> (string, account_balance) btree_map" where
  "apply_transition t accounts = (case t of (nxt, allocations, previous) \<Rightarrow>
     fold (\<lambda>(a, amount). with_account a (move_balance previous nxt amount)) allocations accounts)"

definition mature_blocks ::
  "write_outcome \<Rightarrow> (u64, string) btree_map \<Rightarrow> u64 \<Rightarrow> u64 \<Rightarrow> (pool_store, pool_error, unit) mut" where
  "mature_blocks io canonical_hashes tip confirmations s = (
     let nxt = next_status canonical_hashes tip confirmations;
         ts = transitions_of nxt (pd_blocks (ps_data s)) in
     mbind (with_data (\<lambda>d. d\<lparr>pd_blocks := map (set_status nxt) (pd_blocks d),
                              pd_accounts := fold apply_transition ts (pd_accounts d)\<rparr>)) (\<lambda>_.
     if ts \<noteq> [] then pool_save io else mret ()) s)"

definition void_status :: "u64 \<Rightarrow> pool_block \<Rightarrow> pool_block_status option" where
  "void_status tip b = (if pb_status b = Immature \<and> pb_height b > tip then Some Orphaned else None)"

definition debit_immature :: "string \<times> u64 \<Rightarrow> (string, account_balance) btree_map \<Rightarrow> (string, account_balance) btree_map" where
  "debit_immature entry = with_account (fst entry)
     (\<lambda>b. b\<lparr>ab_immature := saturating_sub (ab_immature b) (snd entry)\<rparr>)"

definition void_immature_above_tip :: "write_outcome \<Rightarrow> u64 \<Rightarrow> (pool_store, pool_error, nat) mut" where
  "void_immature_above_tip io tip s = (
     let above = filter (\<lambda>b. pb_status b = Immature \<and> pb_height b > tip) (pd_blocks (ps_data s));
         voided = length above in
     mbind (with_data (\<lambda>d. d\<lparr>pd_blocks := map (set_status (void_status tip)) (pd_blocks d),
         pd_accounts := fold (\<lambda>al. fold debit_immature al) (map pb_allocations above) (pd_accounts d)\<rparr>)) (\<lambda>_.
     mbind (if voided > 0 then pool_save io else mret ()) (\<lambda>_.
     mret voided)) s)"

section \<open>Payouts\<close>

definition due_items :: "u64 \<Rightarrow> (string, account_balance) btree_map \<Rightarrow> payout_item list" where
  "due_items minimum accounts =
     map (\<lambda>(a, b). \<lparr>pi_address = a, pi_amount = ab_mature b\<rparr>)
       (filter (\<lambda>(_, b). ab_mature b \<ge> minimum) accounts)"

fun reserve_items :: "payout_item list \<Rightarrow> (pool_store, pool_error, unit) mut" where
  "reserve_items [] s = mret () s"
| "reserve_items (item # items) s = (
     case map_of (pd_accounts (ps_data s)) (pi_address item) of
       None \<Rightarrow> (Err (PoolStorage (''account '' @ pi_address item @ '' disappeared while preparing payout'')), s)
     | Some b \<Rightarrow>
         mbind (with_data (\<lambda>d. d\<lparr>pd_accounts := map_insert (pi_address item)
             (b\<lparr>ab_mature := saturating_sub (ab_mature b) (pi_amount item),
                ab_pending_payout := saturating_add (ab_pending_payout b) (pi_amount item)\<rparr>) (pd_accounts d)\<rparr>))
           (\<lambda>_. reserve_items items) s)"

text \<open>\<open>random_id()\<close> is the argument \<open>payout_id\<close>.\<close>

definition prepare_payout :: "write_outcome \<Rightarrow> string \<Rightarrow> u64 \<Rightarrow> u64 \<Rightarrow> (pool_store, pool_error, payout_batch) mut" where
  "prepare_payout io payout_id minimum now s = (
     let items = due_items minimum (pd_accounts (ps_data s)) in
     mbind (mlift (\<lambda>_. reject_if (items = []) (PoolConfigError ''no balances meet the payout threshold''))) (\<lambda>_.
     mbind (reserve_items items) (\<lambda>_.
     let batch = \<lparr>po_payout_id = payout_id, po_created_at = now, po_status = Prepared,
                  po_items = items, po_transaction_hashes = []\<rparr> in
     mbind (with_data (\<lambda>d. d\<lparr>pd_payouts := pd_payouts d @ [batch]\<rparr>)) (\<lambda>_.
     mbind (pool_save io) (\<lambda>_.
     mret batch)))) s)"

text \<open>\<open>hex::decode\<close>: an even number of hexadecimal digits of either case.\<close>

definition is_hex_digit :: "char \<Rightarrow> bool" where
  "is_hex_digit c = ((CHR ''0'' \<le> c \<and> c \<le> CHR ''9'') \<or> (CHR ''a'' \<le> c \<and> c \<le> CHR ''f'')
     \<or> (CHR ''A'' \<le> c \<and> c \<le> CHR ''F''))"

definition is_hash_hex :: "string \<Rightarrow> bool" where
  "is_hash_hex h = (length h = 64 \<and> list_all is_hex_digit h)"

fun position :: "('a \<Rightarrow> bool) \<Rightarrow> 'a list \<Rightarrow> nat option" where
  "position p [] = None"
| "position p (x # xs) = (if p x then Some 0 else map_option Suc (position p xs))"

definition prepared_index :: "string \<Rightarrow> pool_data \<Rightarrow> nat option" where
  "prepared_index payout_id d =
     position (\<lambda>p. po_payout_id p = payout_id \<and> po_status p = Prepared) (pd_payouts d)"

definition settle_item :: "payout_item \<Rightarrow> (string, account_balance) btree_map \<Rightarrow> (string, account_balance) btree_map" where
  "settle_item item = with_account (pi_address item)
     (\<lambda>b. b\<lparr>ab_pending_payout := saturating_sub (ab_pending_payout b) (pi_amount item),
            ab_paid := saturating_add (ab_paid b) (pi_amount item)\<rparr>)"

definition confirm_payout :: "write_outcome \<Rightarrow> string \<Rightarrow> string list \<Rightarrow> (pool_store, pool_error, payout_batch) mut" where
  "confirm_payout io payout_id hashes s = (
     mbind (mlift (\<lambda>_. reject_if (hashes = [] \<or> list_ex (\<lambda>h. \<not> is_hash_hex h) hashes)
       (PoolConfigError ''transaction hashes must be 32-byte hex''))) (\<lambda>_.
     mbind (mlift (\<lambda>s. reject_if
         (list_ex (\<lambda>p. list_ex (\<lambda>existing. existing \<in> set hashes) (po_transaction_hashes p)) (pd_payouts (ps_data s)))
         (PoolConfigError ''a payout transaction hash is already recorded''))) (\<lambda>_.
     mbind (mlift (\<lambda>s. ok_or (prepared_index payout_id (ps_data s))
         (PoolConfigError ''prepared payout not found''))) (\<lambda>index.
     let batch = pd_payouts (ps_data s) ! index;
         result = batch\<lparr>po_status := Submitted, po_transaction_hashes := hashes\<rparr> in
     mbind (with_data (\<lambda>d. d\<lparr>pd_accounts := fold settle_item (po_items batch) (pd_accounts d),
                              pd_payouts := (pd_payouts d)[index := result]\<rparr>)) (\<lambda>_.
     mbind (pool_save io) (\<lambda>_.
     mret result))))) s)"

fun release_items :: "payout_item list \<Rightarrow> (pool_store, pool_error, unit) mut" where
  "release_items [] s = mret () s"
| "release_items (item # items) s = (
     let b = account_of (pd_accounts (ps_data s)) (pi_address item) in
     if ab_pending_payout b < pi_amount item
     then mbind (with_data (\<lambda>d. d\<lparr>pd_accounts := map_insert (pi_address item) b (pd_accounts d)\<rparr>)) (\<lambda>_.
          merr (PoolStorage (''pending payout balance is inconsistent for '' @ pi_address item))) s
     else mbind (with_data (\<lambda>d. d\<lparr>pd_accounts := map_insert (pi_address item)
             (b\<lparr>ab_pending_payout := ab_pending_payout b - pi_amount item,
                ab_mature := saturating_add (ab_mature b) (pi_amount item)\<rparr>) (pd_accounts d)\<rparr>))
           (\<lambda>_. release_items items) s)"

definition cancel_payout :: "write_outcome \<Rightarrow> string \<Rightarrow> (pool_store, pool_error, payout_batch) mut" where
  "cancel_payout io payout_id s =
     mbind (mlift (\<lambda>s. ok_or (prepared_index payout_id (ps_data s))
         (PoolConfigError ''prepared payout not found''))) (\<lambda>index.
     let batch = pd_payouts (ps_data s) ! index;
         result = batch\<lparr>po_status := Cancelled\<rparr> in
     mbind (release_items (po_items batch)) (\<lambda>_.
     mbind (with_data (\<lambda>d. d\<lparr>pd_payouts := (pd_payouts d)[index := result]\<rparr>)) (\<lambda>_.
     mbind (pool_save io) (\<lambda>_.
     mret result)))) s"

section \<open>The split is exact and proportional\<close>

definition miner_work :: "share_record list \<Rightarrow> string \<Rightarrow> nat" where
  "miner_work shares a = sum_list (map (\<lambda>sh. unat (share_work (sh_share_bits sh)))
     (filter (\<lambda>sh. sh_miner_address sh = a) shares))"

definition total_work :: "share_record list \<Rightarrow> nat" where
  "total_work shares = sum_list (map (\<lambda>sh. unat (share_work (sh_share_bits sh))) shares)"

lemma u64_less: "unat (w::u64) < 2 ^ 64"
  by (rule order.strict_trans2 [OF unsigned_less]) simp

lemma share_work_positive: "0 < unat (share_work bits)"
  by (simp add: share_work_def unat_gt_0 push_bit_eq_mult exp_eq_zero_iff)

lemma unat_fold_saturating:
  "unat (fold (\<lambda>(_, w) sum. saturating_add sum w) m (acc :: 'a::len word))
     = min (unat acc + map_total unat m) (2 ^ LENGTH('a) - 1)"
proof (induction m arbitrary: acc)
  case Nil
  have "unat acc < 2 ^ LENGTH('a)" by (rule unsigned_less)
  then have "unat acc \<le> 2 ^ LENGTH('a) - 1" by linarith
  then show ?case by simp
next
  case (Cons p m)
  then show ?case by (cases p) (auto simp: unat_saturating_add min_def)
qed

lemma add_work_wf: "map_wf m \<Longrightarrow> map_wf (foldl add_work m shares)"
  by (induction shares arbitrary: m) (auto simp: add_work_def Let_def)

lemma work_total_step:
  assumes "map_wf m" and "map_total unat m + unat (share_work (sh_share_bits sh)) < 2 ^ 128"
  shows "map_total unat (add_work m sh) = map_total unat m + unat (share_work (sh_share_bits sh))"
proof (cases "map_of m (sh_miner_address sh)")
  case None
  with map_total_insert [OF assms(1), of unat "sh_miner_address sh" "saturating_add 0 (share_work (sh_share_bits sh))"] assms(2)
  show ?thesis by (simp add: add_work_def unat_saturating_add)
next
  case (Some w)
  then have "unat w \<le> map_total unat m" by (rule map_total_ge)
  with Some map_total_insert [OF assms(1), of unat "sh_miner_address sh" "saturating_add w (share_work (sh_share_bits sh))"] assms(2)
  show ?thesis by (simp add: add_work_def unat_saturating_add)
qed

lemma work_total:
  assumes "map_wf m" and "map_total unat m + total_work shares < 2 ^ 128"
  shows "map_total unat (foldl add_work m shares) = map_total unat m + total_work shares"
  using assms
proof (induction shares arbitrary: m)
  case (Cons sh shares)
  then have "map_total unat (add_work m sh) = map_total unat m + unat (share_work (sh_share_bits sh))"
    by (intro work_total_step) (auto simp: total_work_def)
  with Cons show ?case by (simp add: total_work_def add_work_def Let_def)
qed (simp add: total_work_def)

lemma work_lookup:
  assumes "map_wf m" and "map_total unat m + total_work shares < 2 ^ 128"
  shows "map_of (foldl add_work m shares) a =
    (if a \<in> dom (map_of m) \<or> a \<in> sh_miner_address ` set shares
     then Some (word_of_nat ((case map_of m a of None \<Rightarrow> 0 | Some w \<Rightarrow> unat w) + miner_work shares a)) else None)"
  using assms
proof (induction shares arbitrary: m)
  case Nil
  then show ?case by (cases "map_of m a") (auto simp: miner_work_def)
next
  case (Cons sh shares)
  have t: "map_total unat (add_work m sh) = map_total unat m + unat (share_work (sh_share_bits sh))"
    using Cons.prems by (intro work_total_step) (auto simp: total_work_def)
  have wf: "map_wf (add_work m sh)" using Cons.prems(1) by (simp add: add_work_def Let_def)
  have v: "unat (saturating_add w (share_work (sh_share_bits sh))) = unat w + unat (share_work (sh_share_bits sh))"
    if "unat w \<le> map_total unat m" for w
    using that Cons.prems(2) by (simp add: unat_saturating_add total_work_def)
  have le: "unat w \<le> map_total unat m" if "map_of m (sh_miner_address sh) = Some w" for w
    using that by (rule map_total_ge)
  have "map_of (foldl add_work m (sh # shares)) a = map_of (foldl add_work (add_work m sh) shares) a" by simp
  also have "\<dots> = (if a \<in> dom (map_of (add_work m sh)) \<or> a \<in> sh_miner_address ` set shares
     then Some (word_of_nat ((case map_of (add_work m sh) a of None \<Rightarrow> 0 | Some w \<Rightarrow> unat w) + miner_work shares a)) else None)"
    by (rule Cons.IH [OF wf]) (use t Cons.prems(2) in \<open>simp add: total_work_def\<close>)
  also have "\<dots> = (if a \<in> dom (map_of m) \<or> a \<in> sh_miner_address ` set (sh # shares)
     then Some (word_of_nat ((case map_of m a of None \<Rightarrow> 0 | Some w \<Rightarrow> unat w) + miner_work (sh # shares) a)) else None)"
  proof (cases "a = sh_miner_address sh")
    case True
    with v le show ?thesis
      by (cases "map_of m a") (auto simp: add_work_def Let_def miner_work_def)
  qed (auto simp: add_work_def Let_def miner_work_def)
  finally show ?case .
qed

lemma works_of_shares:
  assumes "total_work shares < 2 ^ 128"
  shows "map_wf (work_by_address shares)" "map_total unat (work_by_address shares) = total_work shares"
    "map_of (work_by_address shares) a = (if a \<in> sh_miner_address ` set shares then Some (word_of_nat (miner_work shares a)) else None)"
  using assms work_total [of "[]" shares] work_lookup [of "[]" shares a]
  by (simp_all add: work_by_address_def add_work_wf)

lemma miner_work_le: "miner_work shares a \<le> total_work shares"
  by (induction shares) (auto simp: miner_work_def total_work_def)

text \<open>Handing out dust: the first miners of the list get one unit each.\<close>

lemma give_dust_spec:
  assumes "map_wf amounts" and "distinct (map fst rs)" and "fst ` set rs \<subseteq> dom (map_of amounts)"
    and "dust \<noteq> 0 \<longrightarrow> (\<forall>a\<in>fst ` set rs. \<forall>x. map_of amounts a = Some x \<longrightarrow> unat x + 1 < 2 ^ 64)"
    and "give_dust rs amounts dust = (amounts', dust')"
  shows "map_wf amounts' \<and> unat dust' = unat dust - length rs
    \<and> map_total unat amounts' = map_total unat amounts + min (unat dust) (length rs)
    \<and> (\<forall>a. map_of amounts' a = (if a \<in> fst ` set (take (unat dust) rs)
              then map_option (\<lambda>x. x + 1) (map_of amounts a) else map_of amounts a))"
  using assms
proof (induction rs amounts dust rule: give_dust.induct)
  case (2 address r rest amounts dust)
  show ?case
  proof (cases "dust = 0")
    case False
    from 2 obtain x where x: "map_of amounts address = Some x" by auto
    then have fits: "unat x + 1 < 2 ^ 64" using "2.prems"(4) False by simp
    have one: "saturating_add x 1 = x + 1"
      using fits by (simp add: saturating_add_def checked_add_def)
    then have ux: "unat (x + 1) = unat x + 1" using fits by (simp add: unat_add_small)
    have n: "unat dust = Suc (unat (saturating_sub dust 1))"
      using False by (simp add: unat_saturating_sub unat_eq_0 [symmetric] del: unat_eq_0)
    let ?m = "map_insert address (x + 1) amounts"
    have "map_total unat ?m = map_total unat amounts + 1"
      using map_total_insert [OF "2.prems"(1), of unat address "x + 1"] x ux by simp
    moreover have "map_wf amounts' \<and> unat dust' = unat (saturating_sub dust 1) - length rest
      \<and> map_total unat amounts' = map_total unat (map_insert address (saturating_add x 1) amounts)
          + min (unat (saturating_sub dust 1)) (length rest)
      \<and> (\<forall>a. map_of amounts' a = (if a \<in> fst ` set (take (unat (saturating_sub dust 1)) rest)
              then map_option (\<lambda>x. x + 1) (map_of (map_insert address (saturating_add x 1) amounts) a)
              else map_of (map_insert address (saturating_add x 1) amounts) a))"
    proof (rule "2.IH"(2) [OF False x])
      show "fst ` set rest \<subseteq> dom (map_of (map_insert address (saturating_add x 1) amounts))"
        using "2.prems"(3) by auto
      show "saturating_sub dust 1 \<noteq> 0 \<longrightarrow> (\<forall>a\<in>fst ` set rest. \<forall>y.
          map_of (map_insert address (saturating_add x 1) amounts) a = Some y \<longrightarrow> unat y + 1 < 2 ^ 64)"
        using "2.prems"(2,4) False by auto
    qed (use "2.prems" False x in simp_all)
    ultimately show ?thesis using "2.prems"(2) x
      by (auto simp: n one image_iff dest: in_set_takeD)
  qed (use 2 in simp)
qed simp

lemma largest_remainders_positive:
  fixes rs :: "nat list"
  assumes "sorted_wrt (\<ge>) rs" and "\<forall>r\<in>set rs. r < t" and "sum_list rs = k * t" and "0 < t" and "i < k"
  shows "i < length rs \<and> 0 < rs ! i"
proof (rule ccontr)
  assume no: "\<not> ?thesis"
  have "r = 0" if r: "r \<in> set (drop i rs)" for r
  proof -
    from r have i: "i < length rs" by (metis drop_eq_Nil empty_iff empty_set leI)
    with no have z: "rs ! i = 0" by simp
    obtain j where "j < length (drop i rs)" "r = drop i rs ! j" using r by (metis in_set_conv_nth)
    then have "i + j < length rs" "r = rs ! (i + j)" using i by (auto simp: add.commute)
    then show ?thesis using sorted_wrt_nth_less [OF assms(1), of i "i + j"] z by (cases j) auto
  qed
  then have "sum_list (drop i rs) = 0" by (simp add: sum_list_eq_0_iff)
  moreover have "sum_list (take i rs) \<le> length (take i rs) * t"
  proof -
    have "\<forall>r\<in>set (take i rs). r \<le> t" using assms(2) by (auto dest!: in_set_takeD)
    then show ?thesis using sum_list_mono [of "take i rs" "\<lambda>r. r" "\<lambda>_. t"] by (simp add: sum_list_triv)
  qed
  moreover have "sum_list rs = sum_list (take i rs) + sum_list (drop i rs)"
    by (metis append_take_drop_id sum_list.append)
  moreover have "length (take i rs) * t \<le> i * t" by simp
  moreover have "i * t < k * t" using assms(4,5) by simp
  ultimately show False using assms(3) by linarith
qed

lemma sort_remainders_props:
  "set (sort_remainders rs) = set rs" "length (sort_remainders rs) = length rs"
  "distinct (map fst rs) \<Longrightarrow> distinct (map fst (sort_remainders rs))"
  "sum_list (map (unat \<circ> snd) (sort_remainders rs)) = sum_list (map (unat \<circ> snd) rs)"
  "sorted_wrt (\<ge>) (map (unat \<circ> snd) (sort_remainders rs))"
proof -
  show "set (sort_remainders rs) = set rs" "length (sort_remainders rs) = length rs"
    by (simp_all add: sort_remainders_def)
  have m: "mset (sort_remainders rs) = mset rs" by (simp add: sort_remainders_def)
  then show "distinct (map fst (sort_remainders rs))" if "distinct (map fst rs)"
    using that by (metis mset_eq_imp_distinct_iff mset_map)
  show "sum_list (map (unat \<circ> snd) (sort_remainders rs)) = sum_list (map (unat \<circ> snd) rs)"
    using m by (metis mset_map sum_mset_sum_list)
  have "sorted (map (\<lambda>(address, r). (- uint r, address)) (sort_remainders rs))"
    by (simp add: sort_remainders_def)
  then show "sorted_wrt (\<ge>) (map (unat \<circ> snd) (sort_remainders rs))"
    unfolding sorted_wrt_map
    by (rule sorted_wrt_mono_rel [rotated]) (auto simp: less_eq_prod_def word_le_nat_alt [symmetric] word_less_eq_iff_unsigned word_le_def)
qed

lemma quotient_bounds:
  assumes "unat w \<le> unat t" and "0 < unat t" and "unat (d::u64) * unat t < 2 ^ 128"
  shows "unat (floor_amount d t w) = unat d * unat w div unat t"
    and "unat (floor_remainder d t w) = unat d * unat w mod unat t"
proof -
  note d = u64_less [of d]
  have "unat d * unat w \<le> unat d * unat t" using assms(1) by simp
  also note assms(3)
  finally have small: "unat d * unat w < 2 ^ 128" .
  have ud: "unat (ucast d :: u128) = unat d"
    using d by (simp add: unsigned_ucast_eq take_bit_nat_eq_self)
  then have p: "unat (ucast d * w :: u128) = unat d * unat w"
    using small by (simp add: unat_mult_small)
  then show "unat (floor_remainder d t w) = unat d * unat w mod unat t"
    by (simp add: floor_remainder_def unat_mod)
  have "unat d * unat w div unat t \<le> unat d * unat t div unat t"
    using assms(1) by (intro div_le_mono) simp
  also have "\<dots> = unat d" using assms(2) by simp
  also note d
  finally have "unat d * unat w div unat t < 2 ^ 64" .
  then show "unat (floor_amount d t w) = unat d * unat w div unat t"
    by (simp add: floor_amount_def unsigned_ucast_eq p unat_div take_bit_nat_eq_self)
qed

lemma map_total_map: "map_total f (map (\<lambda>(a, w). (a, g w)) m) = sum_list (map (\<lambda>p. f (g (snd p))) m)"
  by (simp add: map_total_def split_def comp_def)

lemma map_wf_map: "map_wf (map (\<lambda>(a, w). (a, g w)) m) \<longleftrightarrow> map_wf m"
  by (simp add: map_wf_def split_def comp_def)

lemma map_wf_distinct: "map_wf m \<Longrightarrow> distinct (map fst m)"
  by (simp add: map_wf_def strict_sorted_iff)

text \<open>The dust is smaller than the number of miners with a fractional share, so it is used up.\<close>

lemma split_sums:
  assumes "map_wf works" and "map_total unat works = unat t" and "0 < unat t" and "unat (d::u64) * unat t < 2 ^ 128"
  defines "floors \<equiv> map (\<lambda>(a, w). (a, floor_amount d t w)) works"
    and "rems \<equiv> map (\<lambda>(a, w). (a, floor_remainder d t w)) works"
  shows "map_total unat floors \<le> unat d"
    and "sum_list (map (unat \<circ> snd) rems) = (unat d - map_total unat floors) * unat t"
    and "(a, w) \<in> set works \<Longrightarrow> unat (floor_amount d t w) = unat d * unat w div unat t
           \<and> unat (floor_remainder d t w) = unat d * unat w mod unat t"
proof -
  have q: "unat (floor_amount d t w) = unat d * unat w div unat t
      \<and> unat (floor_remainder d t w) = unat d * unat w mod unat t" if "(a, w) \<in> set works" for a w
  proof -
    have "map_of works a = Some w" using that assms(1) by (simp add: map_wf_distinct)
    then have "unat w \<le> unat t" unfolding assms(2) [symmetric] by (rule map_total_ge)
    then show ?thesis using quotient_bounds assms(3,4) by blast
  qed
  then show "(a, w) \<in> set works \<Longrightarrow> unat (floor_amount d t w) = unat d * unat w div unat t
           \<and> unat (floor_remainder d t w) = unat d * unat w mod unat t" .
  have "map_total unat floors * unat t + sum_list (map (unat \<circ> snd) rems)
      = sum_list (map (\<lambda>p. unat (floor_amount d t (snd p)) * unat t + unat (floor_remainder d t (snd p))) works)"
    by (simp add: floors_def rems_def map_total_def sum_list_addf sum_list_mult_const comp_def split_def)
  also have "\<dots> = sum_list (map (\<lambda>p. unat d * unat (snd p)) works)"
    using q by (intro arg_cong [where f = sum_list] map_cong) auto
  also have "\<dots> = unat d * unat t"
    by (simp add: assms(2) [symmetric] map_total_def sum_list_const_mult)
  finally have e: "map_total unat floors * unat t + sum_list (map (unat \<circ> snd) rems) = unat d * unat t" .
  then have "map_total unat floors * unat t \<le> unat d * unat t" by linarith
  then show "map_total unat floors \<le> unat d" using assms(3) by simp
  then show "sum_list (map (unat \<circ> snd) rems) = (unat d - map_total unat floors) * unat t"
    using e by (simp add: diff_mult_distrib)
qed

lemma dust_first:
  assumes "map_wf works" and "map_total unat works = unat t" and "0 < unat t" and "unat (d::u64) * unat t < 2 ^ 128"
    and "i < unat d - map_total unat (map (\<lambda>(a, w). (a, floor_amount d t w)) works)"
  defines "rs \<equiv> sort_remainders (map (\<lambda>(a, w). (a, floor_remainder d t w)) works)"
  shows "i < length rs \<and> 0 < unat (snd (rs ! i))"
proof -
  note sums = split_sums [OF assms(1-4)]
  have "\<forall>r\<in>set (map (unat \<circ> snd) rs). r < unat t"
    using sums(3) assms(3) by (auto simp: rs_def sort_remainders_props(1) split: prod.splits)
  moreover have "sum_list (map (unat \<circ> snd) rs)
      = (unat d - map_total unat (map (\<lambda>(a, w). (a, floor_amount d t w)) works)) * unat t"
    by (simp only: rs_def sort_remainders_props(4) sums(2))
  ultimately have "i < length (map (unat \<circ> snd) rs) \<and> 0 < map (unat \<circ> snd) rs ! i"
    using assms(3,5) sort_remainders_props(5) rs_def by (intro largest_remainders_positive) simp_all
  then show ?thesis by auto
qed

lemma dust_taker:
  assumes "map_wf works" and "map_total unat works = unat t" and "0 < unat t" and "unat (d::u64) * unat t < 2 ^ 128"
    and "map_of works a = Some w"
    and "a \<in> fst ` set (take (unat d - map_total unat (map (\<lambda>(a, w). (a, floor_amount d t w)) works))
           (sort_remainders (map (\<lambda>(a, w). (a, floor_remainder d t w)) works)))"
  shows "0 < unat (floor_remainder d t w)" and "unat (floor_amount d t w + 1) = unat (floor_amount d t w) + 1"
proof -
  let ?rs = "sort_remainders (map (\<lambda>(a, w). (a, floor_remainder d t w)) works)"
  obtain i where i: "i < unat d - map_total unat (map (\<lambda>(a, w). (a, floor_amount d t w)) works)"
    "i < length ?rs" "a = fst (?rs ! i)"
    using assms(6) by (auto simp: in_set_conv_nth)
  then have "?rs ! i \<in> set (map (\<lambda>(a, w). (a, floor_remainder d t w)) works)"
    by (metis nth_mem sort_remainders_props(1))
  then obtain w' where "(a, w') \<in> set works" "snd (?rs ! i) = floor_remainder d t w'"
    using i(3) by auto
  moreover from this(1) have "w' = w" using assms(1,5) by (simp add: map_wf_distinct)
  ultimately show r: "0 < unat (floor_remainder d t w)"
    using dust_first [OF assms(1-4) i(1)] by simp
  have le: "unat w \<le> unat t" unfolding assms(2) [symmetric] using assms(5) by (rule map_total_ge)
  have q: "unat (floor_amount d t w) = unat d * unat w div unat t"
    "unat (floor_remainder d t w) = unat d * unat w mod unat t"
    using split_sums(3) [OF assms(1-4)] assms(5) by (auto dest: map_of_SomeD)
  have "unat (floor_amount d t w) * unat t < unat d * unat w"
    using r q by (metis add_diff_cancel_left' div_mult_mod_eq diff_is_0_eq leI not_gr_zero)
  also have "\<dots> \<le> unat d * unat t" using le by simp
  finally have "unat (floor_amount d t w) < unat d" by simp
  then show "unat (floor_amount d t w + 1) = unat (floor_amount d t w) + 1"
    using u64_less [of d] by (subst unat_add_small) simp_all
qed

lemma dust_handed_out:
  assumes "map_wf works" and "map_total unat works = unat t" and "0 < unat t" and "unat (d::u64) * unat t < 2 ^ 128"
  defines "floors \<equiv> map (\<lambda>(a, w). (a, floor_amount d t w)) works"
    and "rs \<equiv> sort_remainders (map (\<lambda>(a, w). (a, floor_remainder d t w)) works)"
  assumes "unat dust = unat d - map_total unat floors" and "give_dust rs floors dust = (al, dust')"
  shows "map_wf al \<and> dust' = 0 \<and> map_total unat al = unat d
    \<and> (\<forall>a. map_of al a = (if a \<in> fst ` set (take (unat dust) rs)
              then map_option (\<lambda>x. x + 1) (map_of floors a) else map_of floors a))"
proof -
  have keys: "map fst floors = map fst works" by (simp add: floors_def split_def comp_def)
  have dis: "distinct (map fst works)" using assms(1) by (rule map_wf_distinct)
  have le: "map_total unat floors \<le> unat d" unfolding floors_def by (rule split_sums(1) [OF assms(1-4)])
  have "fst ` set rs = fst ` set works"
    by (simp add: rs_def sort_remainders_props(1) image_image split_def)
  then have rs: "fst ` set rs \<subseteq> dom (map_of floors)"
    using keys by (metis dom_map_of_conv_image_fst image_set order_refl)
  have small: "unat x + 1 < 2 ^ 64" if "dust \<noteq> 0" "map_of floors a = Some x" for a x
  proof -
    have "unat x \<le> map_total unat floors" using that(2) by (rule map_total_ge)
    moreover have "map_total unat floors < unat d" using that(1) assms(7) unat_gt_0 [of dust] by linarith
    ultimately show ?thesis using u64_less [of d] by linarith
  qed
  have "i < length rs" if "i < unat dust" for i
    using dust_first [OF assms(1-4), of i] that assms(7) by (simp add: floors_def rs_def)
  then have "unat dust \<le> length rs" by (meson leI less_irrefl)
  moreover have "map_wf al \<and> unat dust' = unat dust - length rs
    \<and> map_total unat al = map_total unat floors + min (unat dust) (length rs)
    \<and> (\<forall>a. map_of al a = (if a \<in> fst ` set (take (unat dust) rs)
              then map_option (\<lambda>x. x + 1) (map_of floors a) else map_of floors a))"
  proof (rule give_dust_spec [OF _ _ rs _ assms(8)])
    show "distinct (map fst rs)" unfolding rs_def
      by (rule sort_remainders_props(3)) (use dis in \<open>simp add: split_def comp_def\<close>)
  qed (use small assms(1) in \<open>auto simp: floors_def map_wf_map\<close>)
  ultimately show ?thesis using assms(7) le by (auto simp: word_unat_eq_iff)
qed

lemma quota_bounds:
  assumes "unat x = q + k" and "n = q * T + r" and "r < (T::nat)" and "k = 0 \<or> k = 1 \<and> 0 < r"
  shows "unat x * T < n + T \<and> n < unat x * T + T"
  using assms by (auto simp: algebra_simps)

lemma allocate_split:
  assumes "shares \<noteq> []" and "total_work shares < 2 ^ 128" and "unat d * total_work shares < 2 ^ 128"
  shows "\<exists>al. allocate_by_share_work shares d = Ok al \<and> map_wf al \<and> map_total unat al = unat d
    \<and> dom (map_of al) = sh_miner_address ` set shares
    \<and> (\<forall>a x. map_of al a = Some x \<longrightarrow>
         unat x * total_work shares < unat d * miner_work shares a + total_work shares
         \<and> unat d * miner_work shares a < unat x * total_work shares + total_work shares)"
proof -
  let ?W = "work_by_address shares" and ?T = "total_work shares"
  define t where "t = fold (\<lambda>(_, w) sum. saturating_add sum w) ?W (0 :: u128)"
  define floors where "floors = map (\<lambda>(a, w). (a, floor_amount d t w)) ?W"
  define rs where "rs = sort_remainders (map (\<lambda>(a, w). (a, floor_remainder d t w)) ?W)"
  define dust where "dust = saturating_sub d (fold (\<lambda>(_, x) sum. saturating_add sum x) floors 0)"
  obtain al dust' where g: "give_dust rs floors dust = (al, dust')" by fastforce
  note works = works_of_shares [OF assms(2)]
  have t: "unat t = ?T" using assms(2) by (simp add: t_def unat_fold_saturating works)
  obtain sh where sh: "sh \<in> set shares" using assms(1) by (cases shares) auto
  have "?T \<noteq> 0" using sh share_work_positive by (metis (no_types, lifting) imageI list.set_map less_irrefl
        sum_list_eq_0_iff total_work_def)
  then have pre: "map_wf ?W" "map_total unat ?W = unat t" "0 < unat t" "unat d * unat t < 2 ^ 128"
    using works(1,2) t assms(3) by simp_all
  note sums = split_sums [OF pre]
  have dust: "unat dust = unat d - map_total unat floors"
    using u64_less [of d] sums(1) by (simp add: dust_def unat_saturating_sub unat_fold_saturating floors_def)
  note out = dust_handed_out [OF pre dust [unfolded floors_def] g [unfolded floors_def rs_def], folded floors_def rs_def]
  have look: "map_of floors a = map_option (floor_amount d t) (map_of ?W a)" for a
    by (simp add: floors_def map_of_map)
  have "t \<noteq> 0" "?W \<noteq> []" using pre(3) works(3) [of "sh_miner_address sh"] sh by auto
  then have "allocate_by_share_work shares d = Ok al"
    using g out
    by (simp add: allocate_by_share_work_def Let_def t_def [symmetric] floors_def [symmetric] rs_def [symmetric] dust_def [symmetric])
  moreover have "dom (map_of al) = sh_miner_address ` set shares"
    using out look works(3) by (auto simp: dom_def split: if_splits)
  moreover have "unat x * ?T < unat d * miner_work shares a + ?T \<and> unat d * miner_work shares a < unat x * ?T + ?T"
    if x: "map_of al a = Some x" for a x
  proof -
    obtain w where w: "map_of ?W a = Some w" using x out look by (auto split: if_splits)
    then have mem: "(a, w) \<in> set ?W" by (rule map_of_SomeD)
    have m: "unat w = miner_work shares a"
      using w works(3) [of a] miner_work_le [of shares a] assms(2) by (auto simp: unat_of_nat split: if_splits)
    have q: "unat d * unat w = unat (floor_amount d t w) * ?T + unat (floor_remainder d t w)"
      "unat (floor_remainder d t w) < ?T"
      using sums(3) [OF mem] pre(3) t by simp_all
    have "unat x = unat (floor_amount d t w) + 0 \<or> unat x = unat (floor_amount d t w) + 1 \<and> 0 < unat (floor_remainder d t w)"
      using x out look w dust_taker [OF pre w] dust by (auto simp: floors_def rs_def split: if_splits)
    then show ?thesis unfolding m [symmetric]
      using quota_bounds [OF _ q, of x 0] quota_bounds [OF _ q, of x 1] by blast
  qed
  ultimately show ?thesis using out by blast
qed

section \<open>The books\<close>

text \<open>
  What the blocks and payouts say about an account: \<open>held\<close> sums the allocations of the blocks in
  given states, \<open>owed\<close> the items of the payouts in a given state. \<open>books\<close> ties every account to
  them: the immature balance is what the immature blocks allocate, pending and paid amounts are
  the items of the prepared and submitted payouts, and the matured money of an account lies
  between what its mature blocks allocate and what all its blocks that left immaturity allocate
  (a block orphaned after its reward was paid out is a loss of the pool, never a credit).
\<close>

definition alloc_of :: "string \<Rightarrow> pool_block \<Rightarrow> nat" where
  "alloc_of a b = (case map_of (pb_allocations b) a of None \<Rightarrow> 0 | Some x \<Rightarrow> unat x)"

definition held :: "pool_block_status set \<Rightarrow> string \<Rightarrow> pool_block list \<Rightarrow> nat" where
  "held S a bs = sum_list (map (alloc_of a) (filter (\<lambda>b. pb_status b \<in> S) bs))"

definition item_of :: "string \<Rightarrow> payout_batch \<Rightarrow> nat" where
  "item_of a p = sum_list (map (\<lambda>i. unat (pi_amount i)) (filter (\<lambda>i. pi_address i = a) (po_items p)))"

definition owed :: "payout_status \<Rightarrow> string \<Rightarrow> payout_batch list \<Rightarrow> nat" where
  "owed st a ps = sum_list (map (item_of a) (filter (\<lambda>p. po_status p = st) ps))"

definition fits :: "pool_block list \<Rightarrow> bool" where
  "fits bs = (\<forall>a. held UNIV a bs < 2 ^ 64)"

definition account_ok :: "pool_block list \<Rightarrow> payout_batch list \<Rightarrow> string \<Rightarrow> account_balance \<Rightarrow> bool" where
  "account_ok bs ps a b = (unat (ab_immature b) = held {Immature} a bs
     \<and> unat (ab_pending_payout b) = owed Prepared a ps
     \<and> unat (ab_paid b) = owed Submitted a ps
     \<and> held {Mature} a bs \<le> unat (ab_mature b) + unat (ab_pending_payout b) + unat (ab_paid b)
     \<and> unat (ab_mature b) + unat (ab_pending_payout b) + unat (ab_paid b) \<le> held {Mature, Orphaned} a bs)"

definition books :: "(string, account_balance) btree_map \<Rightarrow> pool_block list \<Rightarrow> payout_batch list \<Rightarrow> bool" where
  "books m bs ps = (map_wf m \<and> (\<forall>b\<in>set bs. map_wf (pb_allocations b))
     \<and> (\<forall>p\<in>set ps. distinct (map pi_address (po_items p)))
     \<and> (\<forall>a. account_ok bs ps a (account_of m a)))"

definition pool_ok :: "pool_data \<Rightarrow> bool" where
  "pool_ok d = (fits (pd_blocks d) \<longrightarrow> books (pd_accounts d) (pd_blocks d) (pd_payouts d))"

definition store_ok :: "pool_store \<Rightarrow> bool" where
  "store_ok s = (pool_ok (ps_data s) \<and> (\<forall>d. ps_file s = Some d \<longrightarrow> pool_ok d))"

lemma held_append [simp]: "held S a (xs @ ys) = held S a xs + held S a ys"
  by (simp add: held_def)

lemma held_Cons [simp]: "held S a (b # bs) = (if pb_status b \<in> S then alloc_of a b else 0) + held S a bs"
  by (simp add: held_def)

lemma held_Nil [simp]: "held S a [] = 0"
  by (simp add: held_def)

lemma alloc_of_status [simp]: "alloc_of a (b\<lparr>pb_status := st\<rparr>) = alloc_of a b"
  by (simp add: alloc_of_def)

lemma held_split: "held UNIV a bs = held {Immature} a bs + held {Mature, Orphaned} a bs"
  "held {Mature} a bs \<le> held {Mature, Orphaned} a bs"
  by (induction bs) (auto intro: pool_block_status.exhaust)

lemma account_of_with [simp]:
  "account_of (with_account k f m) a = (if a = k then f (account_of m k) else account_of m a)"
  by (simp add: account_of_def with_account_def)

lemma with_account_wf [simp]: "map_wf m \<Longrightarrow> map_wf (with_account k f m)"
  by (simp add: with_account_def)

text \<open>One pass over a list of distinct addresses updates each listed account once.\<close>

lemma fold_accounts_wf: "map_wf m \<Longrightarrow> map_wf (fold (\<lambda>x. with_account (k x) (f x)) xs m)"
  by (induction xs arbitrary: m) auto

lemma fold_accounts_other:
  "a \<notin> k ` set xs \<Longrightarrow> account_of (fold (\<lambda>x. with_account (k x) (f x)) xs m) a = account_of m a"
  by (induction xs arbitrary: m) auto

lemma fold_accounts_hit:
  assumes "distinct (map k xs)" and "x \<in> set xs"
  shows "account_of (fold (\<lambda>x. with_account (k x) (f x)) xs m) (k x) = f x (account_of m (k x))"
  using assms
proof (induction xs arbitrary: m)
  case (Cons y ys)
  show ?case
  proof (cases "x = y")
    case True
    with Cons.prems(1) show ?thesis by (simp add: fold_accounts_other)
  next
    case False
    with Cons.prems have x: "x \<in> set ys" by simp
    then have "k x \<in> k ` set ys" by (rule imageI)
    then have "k x \<noteq> k y" using Cons.prems(1) by force
    with Cons x show ?thesis by simp
  qed
qed simp

lemma fold_alloc:
  assumes "map_wf al"
  shows "account_of (fold (\<lambda>x. with_account (fst x) (f (snd x))) al m) a
    = (case map_of al a of None \<Rightarrow> account_of m a | Some x \<Rightarrow> f x (account_of m a))"
proof (cases "map_of al a")
  case None
  then have "a \<notin> fst ` set al" by (simp add: map_of_eq_None_iff)
  with None show ?thesis by (simp add: fold_accounts_other)
next
  case (Some x)
  then have "(a, x) \<in> set al" by (rule map_of_SomeD)
  from fold_accounts_hit [of fst al "(a, x)" "\<lambda>x. f (snd x)" m] this Some show ?thesis
    using map_wf_distinct [OF assms] by simp
qed

subsection \<open>Blocks enter, mature and are orphaned\<close>

lemma fits_bound: "fits bs \<Longrightarrow> held {Immature} a bs + held {Mature, Orphaned} a bs < 2 ^ 64"
  by (simp add: fits_def flip: held_split(1))

lemma fits_prefix: "fits (bs @ cs) \<Longrightarrow> fits bs"
  by (simp add: fits_def) (meson add_lessD1)

lemma account_okD:
  assumes "books m bs ps"
  shows "account_ok bs ps a (account_of m a)"
  using assms by (simp add: books_def)

lemma fold_credit:
  assumes "map_wf al"
  shows "account_of (fold credit_immature al m) a = (case map_of al a of None \<Rightarrow> account_of m a
    | Some x \<Rightarrow> (account_of m a)\<lparr>ab_immature := saturating_add (ab_immature (account_of m a)) x\<rparr>)"
  using fold_alloc [OF assms, of "\<lambda>x b. b\<lparr>ab_immature := saturating_add (ab_immature b) x\<rparr>" m a]
  by (simp add: credit_immature_def [abs_def])

lemma fold_credit_wf: "map_wf m \<Longrightarrow> map_wf (fold credit_immature al m)"
  by (simp add: credit_immature_def [abs_def] fold_accounts_wf)

lemma books_record:
  assumes "books m bs ps" and "fits (bs @ [b])" and "pb_status b = Immature" and "map_wf (pb_allocations b)"
  shows "books (fold credit_immature (pb_allocations b) m) (bs @ [b]) ps"
proof -
  have "account_ok (bs @ [b]) ps a (account_of (fold credit_immature (pb_allocations b) m) a)" for a
    using account_okD [OF assms(1), of a] fits_bound [OF assms(2), of a] assms(3)
    unfolding fold_credit [OF assms(4)]
    by (cases "map_of (pb_allocations b) a")
      (auto simp: account_ok_def alloc_of_def unat_saturating_add)
  then show ?thesis using assms(1,4) by (auto simp: books_def fold_credit_wf)
qed

definition legal_move :: "pool_block_status \<Rightarrow> pool_block_status \<Rightarrow> bool" where
  "legal_move previous nxt \<longleftrightarrow> (previous = Immature \<and> nxt \<in> {Mature, Orphaned}) \<or> (previous = Mature \<and> nxt = Orphaned)"

lemma books_move:
  assumes "books m (xs @ b # ys) ps" and "fits (xs @ b # ys)" and "legal_move (pb_status b) nxt"
  shows "books (apply_transition (nxt, pb_allocations b, pb_status b) m) (xs @ b\<lparr>pb_status := nxt\<rparr> # ys) ps"
proof -
  let ?m = "apply_transition (nxt, pb_allocations b, pb_status b) m"
  have wf: "map_wf (pb_allocations b)" using assms(1) by (simp add: books_def)
  have t: "?m = fold (\<lambda>x. with_account (fst x) (move_balance (pb_status b) nxt (snd x))) (pb_allocations b) m"
    by (simp add: apply_transition_def split_def)
  have "account_ok (xs @ b\<lparr>pb_status := nxt\<rparr> # ys) ps a (account_of ?m a)" for a
    using account_okD [OF assms(1), of a] fits_bound [OF assms(2), of a] assms(3)
    unfolding t fold_alloc [OF wf]
    by (cases "map_of (pb_allocations b) a")
      (auto simp: legal_move_def account_ok_def alloc_of_def move_balance_def unat_saturating_add
        unat_saturating_sub min_def word_le_nat_alt)
  then show ?thesis using assms(1) fold_accounts_wf [of m fst _ "pb_allocations b"]
    by (auto simp: books_def t)
qed

lemma fits_moved: "fits (xs @ b\<lparr>pb_status := st\<rparr> # ys) = fits (xs @ b # ys)"
  by (simp add: fits_def)

lemma books_moves:
  assumes "books m (xs @ bs) ps" and "fits (xs @ bs)"
    and "\<And>b st. b \<in> set bs \<Longrightarrow> nxt b = Some st \<Longrightarrow> legal_move (pb_status b) st"
  shows "books (fold apply_transition (transitions_of nxt bs) m) (xs @ map (set_status nxt) bs) ps
    \<and> fits (xs @ map (set_status nxt) bs)"
  using assms
proof (induction bs arbitrary: xs m)
  case (Cons b bs)
  let ?b = "set_status nxt b"
  let ?m = "fold apply_transition (transitions_of nxt [b]) m"
  have "books ?m ((xs @ [?b]) @ bs) ps \<and> fits ((xs @ [?b]) @ bs)"
  proof (cases "nxt b")
    case (Some st)
    then have "legal_move (pb_status b) st" using Cons.prems(3) by simp
    with books_move [OF Cons.prems(1,2)] Some Cons.prems(2) show ?thesis
      by (simp add: transitions_of_def set_status_def fits_moved)
  qed (use Cons.prems(1,2) in \<open>simp add: transitions_of_def set_status_def\<close>)
  then have "books (fold apply_transition (transitions_of nxt bs) ?m) ((xs @ [?b]) @ map (set_status nxt) bs) ps
      \<and> fits ((xs @ [?b]) @ map (set_status nxt) bs)"
    using Cons.prems(3) by (intro Cons.IH) auto
  moreover have "transitions_of nxt (b # bs) = transitions_of nxt [b] @ transitions_of nxt bs"
    by (simp add: transitions_of_def)
  ultimately show ?case by simp
qed (simp add: transitions_of_def)

lemma next_status_legal: "next_status hs tip conf b = Some st \<Longrightarrow> legal_move (pb_status b) st"
  by (auto simp: next_status_def legal_move_def Let_def split: pool_block_status.splits if_splits option.splits)

lemma void_status_legal: "void_status tip b = Some st \<Longrightarrow> legal_move (pb_status b) st"
  by (auto simp: void_status_def legal_move_def split: if_splits)

lemma void_as_transitions:
  "fold (\<lambda>al. fold debit_immature al)
     (map pb_allocations (filter (\<lambda>b. pb_status b = Immature \<and> pb_height b > tip) bs)) m
   = fold apply_transition (transitions_of (void_status tip) bs) m"
proof (induction bs arbitrary: m)
  case (Cons b bs)
  have "fold debit_immature (pb_allocations b) m = apply_transition (Orphaned, pb_allocations b, Immature) m"
    by (simp add: apply_transition_def debit_immature_def [abs_def] move_balance_def [abs_def] split_def)
  with Cons show ?case by (simp add: transitions_of_def void_status_def)
qed (simp add: transitions_of_def)

subsection \<open>Payouts reserve, settle and release\<close>

definition reserve :: "u64 \<Rightarrow> account_balance \<Rightarrow> account_balance" where
  "reserve x b = b\<lparr>ab_mature := saturating_sub (ab_mature b) x, ab_pending_payout := saturating_add (ab_pending_payout b) x\<rparr>"

definition settle :: "u64 \<Rightarrow> account_balance \<Rightarrow> account_balance" where
  "settle x b = b\<lparr>ab_pending_payout := saturating_sub (ab_pending_payout b) x, ab_paid := saturating_add (ab_paid b) x\<rparr>"

definition release :: "u64 \<Rightarrow> account_balance \<Rightarrow> account_balance" where
  "release x b = b\<lparr>ab_pending_payout := ab_pending_payout b - x, ab_mature := saturating_add (ab_mature b) x\<rparr>"

abbreviation each_item :: "(u64 \<Rightarrow> account_balance \<Rightarrow> account_balance) \<Rightarrow> payout_item list
    \<Rightarrow> (string, account_balance) btree_map \<Rightarrow> (string, account_balance) btree_map" where
  "each_item f \<equiv> fold (\<lambda>i. with_account (pi_address i) (f (pi_amount i)))"

lemma with_data_eq [simp]: "mbind (with_data f) g s = g () (s\<lparr>ps_data := f (ps_data s)\<rparr>)"
  by (simp add: with_data_def mbind_def mupd_def)

lemma mlift_eq: "mbind (mlift f) g s = (case f s of Inl e \<Rightarrow> (Inl e, s) | Inr a \<Rightarrow> g a s)"
  by (simp add: mbind_def mlift_def split: sum.splits)

lemma reserve_items_eq:
  "\<forall>i\<in>set items. pi_address i \<in> dom (map_of (pd_accounts (ps_data s)))
     \<Longrightarrow> reserve_items items s = (Ok (), s\<lparr>ps_data := (ps_data s)\<lparr>pd_accounts := each_item reserve items (pd_accounts (ps_data s))\<rparr>\<rparr>)"
proof (induction items s rule: reserve_items.induct)
  case (2 item items s)
  then obtain b where "map_of (pd_accounts (ps_data s)) (pi_address item) = Some b" by auto
  with 2 show ?case by (auto simp: with_account_def account_of_def reserve_def)
qed (simp add: mret_def)

lemma settle_items_eq: "fold settle_item items m = each_item settle items m"
  by (simp add: settle_item_def [abs_def] settle_def [abs_def])

lemma release_items_eq:
  assumes "distinct (map pi_address items)"
    and "\<forall>i\<in>set items. pi_amount i \<le> ab_pending_payout (account_of (pd_accounts (ps_data s)) (pi_address i))"
  shows "release_items items s = (Ok (), s\<lparr>ps_data := (ps_data s)\<lparr>pd_accounts := each_item release items (pd_accounts (ps_data s))\<rparr>\<rparr>)"
  using assms
proof (induction items s rule: release_items.induct)
  case (2 item items s)
  let ?b = "account_of (pd_accounts (ps_data s)) (pi_address item)"
  have "\<not> ab_pending_payout ?b < pi_amount item" using "2.prems"(2) by (auto simp: not_less)
  moreover have "account_of (map_insert (pi_address item) b (pd_accounts (ps_data s))) (pi_address i)
      = account_of (pd_accounts (ps_data s)) (pi_address i)" if "i \<in> set items" for i b
    using imageI [OF that, of pi_address] "2.prems"(1) by (auto simp: account_of_def)
  ultimately show ?case using 2 by (auto simp: with_account_def release_def Let_def)
qed (simp add: mret_def)

text \<open>What a payout does to one account.\<close>

lemma each_item_other: "a \<notin> pi_address ` set items \<Longrightarrow> account_of (each_item f items m) a = account_of m a"
  by (rule fold_accounts_other)

lemma item_of_other: "a \<notin> pi_address ` set (po_items p) \<Longrightarrow> item_of a p = 0"
  by (auto simp: item_of_def filter_empty_conv)

lemma filter_unique: "distinct (map k xs) \<Longrightarrow> x \<in> set xs \<Longrightarrow> filter (\<lambda>y. k y = k x) xs = [x]"
proof (induction xs)
  case (Cons y ys)
  show ?case
  proof (cases "x = y")
    case True
    with Cons.prems(1) show ?thesis by (auto simp: filter_empty_conv) (metis imageI)
  next
    case False
    with Cons.prems have "x \<in> set ys" by simp
    with imageI [OF this, of k] Cons show ?thesis by force
  qed
qed simp

lemma item_of_hit:
  "distinct (map pi_address (po_items p)) \<Longrightarrow> i \<in> set (po_items p) \<Longrightarrow> item_of (pi_address i) p = unat (pi_amount i)"
  by (simp add: item_of_def filter_unique)

lemma owed_append [simp]: "owed st a (xs @ ys) = owed st a xs + owed st a ys"
  by (simp add: owed_def)

lemma owed_Cons [simp]: "owed st a (p # ps) = (if po_status p = st then item_of a p else 0) + owed st a ps"
  by (simp add: owed_def)

lemma owed_Nil [simp]: "owed st a [] = 0"
  by (simp add: owed_def)

lemma item_of_status [simp]: "item_of a (p\<lparr>po_status := st\<rparr>) = item_of a p"
  "item_of a (p\<lparr>po_transaction_hashes := hs\<rparr>) = item_of a p"
  by (simp_all add: item_of_def)

text \<open>
  A payout is a rule for one account: if \<open>f\<close> maps an account in order before to an account in
  order after, for the amount the batch has for it, then the whole pass keeps the books.
\<close>

lemma books_payout:
  assumes "books m bs ps" and "fits bs" and "distinct (map pi_address items)"
    and "\<forall>p\<in>set ps'. distinct (map pi_address (po_items p))"
    and "\<And>i. i \<in> set items \<Longrightarrow> account_ok bs ps (pi_address i) (account_of m (pi_address i))
           \<Longrightarrow> account_ok bs ps' (pi_address i) (f (pi_amount i) (account_of m (pi_address i)))"
    and "\<And>a st. a \<notin> pi_address ` set items \<Longrightarrow> owed st a ps' = owed st a ps"
  shows "books (each_item f items m) bs ps'"
proof -
  have "account_ok bs ps' a (account_of (each_item f items m) a)" for a
  proof (cases "a \<in> pi_address ` set items")
    case True
    then obtain i where i: "i \<in> set items" "a = pi_address i" by auto
    then show ?thesis using assms(5) account_okD [OF assms(1)] fold_accounts_hit [OF assms(3) i(1)] by simp
  next
    case False
    then show ?thesis using account_okD [OF assms(1), of a] assms(6) each_item_other [of a items f m]
      by (simp add: account_ok_def)
  qed
  then show ?thesis using assms(1,4) fold_accounts_wf [of m pi_address _ items] by (auto simp: books_def)
qed

lemma due_items_props:
  assumes "map_wf m"
  shows "distinct (map pi_address (due_items minimum m))"
    and "i \<in> set (due_items minimum m) \<Longrightarrow> pi_address i \<in> dom (map_of m) \<and> pi_amount i = ab_mature (account_of m (pi_address i))"
proof -
  have "map pi_address (due_items minimum m) = map fst (filter (\<lambda>(_, b). ab_mature b \<ge> minimum) m)"
    by (simp add: due_items_def split_def comp_def)
  then show "distinct (map pi_address (due_items minimum m))"
    using map_wf_distinct [OF assms] by (simp add: distinct_map_filter)
  show "i \<in> set (due_items minimum m) \<Longrightarrow> pi_address i \<in> dom (map_of m) \<and> pi_amount i = ab_mature (account_of m (pi_address i))"
    using map_wf_distinct [OF assms] by (auto simp: due_items_def account_of_def)
qed

lemma books_prepare:
  assumes "books m bs ps" and "fits bs" and "po_items batch = due_items minimum m" and "po_status batch = Prepared"
  shows "books (each_item reserve (po_items batch) m) bs (ps @ [batch])"
proof (rule books_payout [OF assms(1,2)])
  have wf: "map_wf m" using assms(1) by (simp add: books_def)
  show d: "distinct (map pi_address (po_items batch))" using due_items_props(1) [OF wf] assms(3) by simp
  then show "\<forall>p\<in>set (ps @ [batch]). distinct (map pi_address (po_items p))"
    using assms(1) by (auto simp: books_def)
  show "owed st a (ps @ [batch]) = owed st a ps" if "a \<notin> pi_address ` set (po_items batch)" for a st
    using that item_of_other by simp
  show "account_ok bs (ps @ [batch]) (pi_address i) (reserve (pi_amount i) (account_of m (pi_address i)))"
    if i: "i \<in> set (po_items batch)" and "account_ok bs ps (pi_address i) (account_of m (pi_address i))" for i
    using that item_of_hit [OF d i] due_items_props(2) [OF wf, of i minimum] assms(3,4) fits_bound [OF assms(2), of "pi_address i"]
    by (auto simp: account_ok_def reserve_def unat_saturating_sub unat_saturating_add)
qed

lemma position_Some: "position P xs = Some i \<Longrightarrow> i < length xs \<and> P (xs ! i)"
  by (induction xs arbitrary: i) (auto split: if_splits)

lemma prepared_split:
  assumes "prepared_index pid d = Some i"
  obtains xs p ys where "pd_payouts d = xs @ p # ys" "length xs = i" "pd_payouts d ! i = p"
    "po_payout_id p = pid" "po_status p = Prepared" "\<And>q. (pd_payouts d)[i := q] = xs @ q # ys"
proof -
  have i: "i < length (pd_payouts d)" "po_payout_id (pd_payouts d ! i) = pid" "po_status (pd_payouts d ! i) = Prepared"
    using assms position_Some by (auto simp: prepared_index_def dest!: position_Some)
  show thesis
    by (rule that [of "take i (pd_payouts d)" "pd_payouts d ! i" "drop (Suc i) (pd_payouts d)"])
      (use i in \<open>simp_all add: id_take_nth_drop [symmetric] upd_conv_take_nth_drop\<close>)
qed

lemma books_finish:
  assumes "books m bs (xs @ p # ys)" and "fits bs" and "po_status p = Prepared"
    and "po_items q = po_items p"
    and "po_status q = Submitted \<and> f = settle \<or> po_status q = Cancelled \<and> f = release"
  shows "books (each_item f (po_items p) m) bs (xs @ q # ys)"
proof (rule books_payout [OF assms(1,2)])
  show d: "distinct (map pi_address (po_items p))" using assms(1) by (simp add: books_def)
  then show "\<forall>r\<in>set (xs @ q # ys). distinct (map pi_address (po_items r))"
    using assms(1,4) by (auto simp: books_def)
  have q: "item_of a q = item_of a p" for a by (simp add: item_of_def assms(4))
  show "owed st a (xs @ q # ys) = owed st a (xs @ p # ys)" if "a \<notin> pi_address ` set (po_items p)" for a st
    using item_of_other [OF that] q by simp
  show "account_ok bs (xs @ q # ys) (pi_address i) (f (pi_amount i) (account_of m (pi_address i)))"
    if i: "i \<in> set (po_items p)" and "account_ok bs (xs @ p # ys) (pi_address i) (account_of m (pi_address i))" for i
    using that item_of_hit [OF d i] assms(3,5) q [of "pi_address i"] fits_bound [OF assms(2), of "pi_address i"]
    by (auto simp: account_ok_def settle_def release_def unat_saturating_sub unat_saturating_add unat_sub word_le_nat_alt)
qed

lemma pending_covers:
  assumes "books m bs (xs @ p # ys)" and "po_status p = Prepared" and "i \<in> set (po_items p)"
  shows "pi_amount i \<le> ab_pending_payout (account_of m (pi_address i))"
proof -
  have "distinct (map pi_address (po_items p))" using assms(1) by (simp add: books_def)
  with account_okD [OF assms(1), of "pi_address i"] assms(2) item_of_hit [OF this assms(3)]
  show ?thesis by (simp add: account_ok_def word_le_nat_alt)
qed

section \<open>The store as a machine\<close>

datatype pool_input =
    RecordShare write_outcome share_record
  | RecordBlock write_outcome u64 string u64 u16 nat u64
  | MatureBlocks write_outcome "(u64, string) btree_map" u64 u64
  | VoidAboveTip write_outcome u64
  | PreparePayout write_outcome string u64 u64
  | ConfirmPayout write_outcome string "string list"
  | CancelPayout write_outcome string
  | Restart

definition pool_step :: "pool_input \<Rightarrow> pool_store \<Rightarrow> pool_store option" where
  "pool_step i s = (case i of
     RecordShare io sh \<Rightarrow> Some (snd (record_share io sh s))
   | RecordBlock io h hash reward fee w now \<Rightarrow> Some (snd (record_pool_block io h hash reward fee w now s))
   | MatureBlocks io hs tip conf \<Rightarrow> Some (snd (mature_blocks io hs tip conf s))
   | VoidAboveTip io tip \<Rightarrow> Some (snd (void_immature_above_tip io tip s))
   | PreparePayout io pid minimum now \<Rightarrow> Some (snd (prepare_payout io pid minimum now s))
   | ConfirmPayout io pid hashes \<Rightarrow> Some (snd (confirm_payout io pid hashes s))
   | CancelPayout io pid \<Rightarrow> Some (snd (cancel_payout io pid s))
   | Restart \<Rightarrow> (case pool_load (map_option Ok (ps_file s)) (ps_max_shares s) of
         Inl _ \<Rightarrow> None | Inr s' \<Rightarrow> Some s'))"

definition fresh_store :: "nat \<Rightarrow> pool_store" where
  "fresh_store n = \<lparr>ps_data = pool_data_default, ps_file = None, ps_max_shares = n\<rparr>"

lemma store_ok_upd: "store_ok s \<Longrightarrow> pool_ok d \<Longrightarrow> store_ok (s\<lparr>ps_data := d\<rparr>)"
  by (simp add: store_ok_def)

lemma save_keeps: "store_ok s \<Longrightarrow> store_ok (snd (pool_save io s))"
  by (auto simp: store_ok_def pool_save_def split: option.splits)

lemma saved_keeps: "store_ok s \<Longrightarrow> store_ok (snd (mbind (pool_save io) (\<lambda>_. mret x) s))"
  by (auto simp: store_ok_def pool_save_def mbind_def mret_def split: option.splits)

lemma maybe_save_keeps:
  assumes "store_ok s"
  shows "store_ok (snd ((if c then pool_save io else mret ()) s))"
  using save_keeps [OF assms, of io] assms by (cases c) (simp_all add: mret_def)

lemma maybe_saved_keeps:
  assumes "store_ok s"
  shows "store_ok (snd (mbind (if c then pool_save io else mret ()) (\<lambda>_. mret x) s))"
proof (cases c)
  case True
  then show ?thesis using saved_keeps [OF assms, of io x] by simp
next
  case False
  then show ?thesis using assms by (simp add: mret_def mbind_def)
qed

lemma store_okD: "store_ok s \<Longrightarrow> fits (pd_blocks (ps_data s))
    \<Longrightarrow> books (pd_accounts (ps_data s)) (pd_blocks (ps_data s)) (pd_payouts (ps_data s))"
  by (simp add: store_ok_def pool_ok_def)

lemma store_ok_data: "store_ok s \<Longrightarrow> pool_ok (ps_data s)"
  by (simp add: store_ok_def)

lemma pool_ok_shares: "pool_ok d \<Longrightarrow> pool_ok (d\<lparr>pd_next_share_id := n, pd_shares := ss\<rparr>)"
  by (simp add: pool_ok_def)

lemma share_keeps: "store_ok s \<Longrightarrow> store_ok (snd (record_share io sh s))"
  by (auto simp: record_share_def Let_def store_ok_data
      intro!: saved_keeps store_ok_upd pool_ok_shares split: option.splits)

lemma give_dust_wf: "map_wf am \<Longrightarrow> map_wf (fst (give_dust rs am dust))"
  by (induction rs am dust rule: give_dust.induct) (auto split: option.splits)

lemma floors_dust_wf:
  assumes "map_wf m" and "give_dust rs (map (\<lambda>(a, w). (a, f w)) m) dust = (am, dust')"
  shows "map_wf am"
  using give_dust_wf [of "map (\<lambda>(a, w). (a, f w)) m" rs dust] assms by (simp add: map_wf_map)

lemma allocate_wf: "allocate_by_share_work shares d = Ok al \<Longrightarrow> map_wf al"
proof -
  have "map_wf (work_by_address shares)" by (simp add: work_by_address_def add_work_wf)
  from floors_dust_wf [OF this] show "allocate_by_share_work shares d = Ok al \<Longrightarrow> map_wf al"
    by (auto simp: allocate_by_share_work_def Let_def result_simps split: prod.splits if_splits option.splits)
qed

lemma pool_ok_record:
  assumes "pool_ok d" and "pb_status b = Immature" and "map_wf (pb_allocations b)"
  shows "pool_ok (d\<lparr>pd_accounts := fold credit_immature (pb_allocations b) (pd_accounts d), pd_blocks := pd_blocks d @ [b]\<rparr>)"
  using assms books_record fits_prefix by (auto simp: pool_ok_def)

lemma block_keeps:
  assumes "store_ok s"
  shows "store_ok (snd (record_pool_block io h hash reward fee w now s))"
proof -
  have ok: "pool_ok (ps_data s)" using assms by (simp add: store_ok_def)
  have rec: "store_ok (snd (pool_save io (s\<lparr>ps_data := (ps_data s)\<lparr>
      pd_accounts := fold credit_immature al (pd_accounts (ps_data s)),
      pd_blocks := pd_blocks (ps_data s) @ [\<lparr>pb_height = h, pb_hash = hash, pb_reward = reward,
        pb_distributable = dd, pb_pool_fee = ff, pb_found_at = now, pb_status = Immature, pb_allocations = al\<rparr>]\<rparr>\<rparr>)))"
    if "map_wf al" for al dd ff
    using pool_ok_record [OF ok, of "\<lparr>pb_height = h, pb_hash = hash, pb_reward = reward, pb_distributable = dd,
        pb_pool_fee = ff, pb_found_at = now, pb_status = Immature, pb_allocations = al\<rparr>"] that
    by (intro save_keeps store_ok_upd assms) simp
  show ?thesis
    using assms rec allocate_wf
    by (auto simp: record_pool_block_def Let_def mlift_eq split: sum.splits)
qed

lemma pool_ok_moves:
  assumes "pool_ok d" and "\<And>b st. nxt b = Some st \<Longrightarrow> legal_move (pb_status b) st"
  shows "pool_ok (d\<lparr>pd_blocks := map (set_status nxt) (pd_blocks d),
      pd_accounts := fold apply_transition (transitions_of nxt (pd_blocks d)) (pd_accounts d)\<rparr>)"
proof -
  have "held UNIV a (map (set_status nxt) (pd_blocks d)) = held UNIV a (pd_blocks d)" for a
    by (induction "pd_blocks d" arbitrary: d) (auto simp: set_status_def held_def comp_def split: option.splits intro!: arg_cong [where f = sum_list])
  then have "fits (map (set_status nxt) (pd_blocks d)) = fits (pd_blocks d)" by (simp add: fits_def)
  then show ?thesis
    using assms(1) books_moves [of "pd_accounts d" "[]" "pd_blocks d" "pd_payouts d" nxt] assms(2)
    by (auto simp: pool_ok_def)
qed

lemma mature_keeps:
  assumes "store_ok s"
  shows "store_ok (snd (mature_blocks io hs tip conf s))"
proof -
  have "store_ok (s\<lparr>ps_data := (ps_data s)\<lparr>pd_blocks := map (set_status (next_status hs tip conf)) (pd_blocks (ps_data s)),
      pd_accounts := fold apply_transition (transitions_of (next_status hs tip conf) (pd_blocks (ps_data s)))
        (pd_accounts (ps_data s))\<rparr>\<rparr>)"
    by (rule store_ok_upd [OF assms pool_ok_moves [OF store_ok_data [OF assms] next_status_legal]])
  then show ?thesis unfolding mature_blocks_def Let_def with_data_eq by (rule maybe_save_keeps)
qed

lemma void_keeps:
  assumes "store_ok s"
  shows "store_ok (snd (void_immature_above_tip io tip s))"
proof -
  have "store_ok (s\<lparr>ps_data := (ps_data s)\<lparr>pd_blocks := map (set_status (void_status tip)) (pd_blocks (ps_data s)),
      pd_accounts := fold apply_transition (transitions_of (void_status tip) (pd_blocks (ps_data s)))
        (pd_accounts (ps_data s))\<rparr>\<rparr>)"
    by (rule store_ok_upd [OF assms pool_ok_moves [OF store_ok_data [OF assms] void_status_legal]])
  then show ?thesis unfolding void_immature_above_tip_def Let_def with_data_eq void_as_transitions
    by (rule maybe_saved_keeps)
qed

lemma prepare_Ok:
  fixes now :: u64 and pid :: string
  assumes "map_wf (pd_accounts (ps_data s))" and "due_items minimum (pd_accounts (ps_data s)) \<noteq> []"
  defines "batch \<equiv> \<lparr>po_payout_id = pid, po_created_at = now, po_status = Prepared,
      po_items = due_items minimum (pd_accounts (ps_data s)), po_transaction_hashes = []\<rparr>"
  shows "prepare_payout io pid minimum now s = mbind (pool_save io) (\<lambda>_. mret batch) (s\<lparr>ps_data := (ps_data s)\<lparr>
      pd_accounts := each_item reserve (po_items batch) (pd_accounts (ps_data s)),
      pd_payouts := pd_payouts (ps_data s) @ [batch]\<rparr>\<rparr>)"
proof -
  have "\<forall>i\<in>set (due_items minimum (pd_accounts (ps_data s))). pi_address i \<in> dom (map_of (pd_accounts (ps_data s)))"
    using due_items_props(2) [OF assms(1)] by blast
  from reserve_items_eq [OF this] assms(2) show ?thesis
    by (simp add: prepare_payout_def Let_def mlift_eq mut_eval [of "reserve_items _"] batch_def)
qed

lemma reserve_items_keeps:
  assumes "\<not> fits (pd_blocks (ps_data s))"
  shows "\<not> fits (pd_blocks (ps_data (snd (reserve_items items s)))) \<and> ps_file (snd (reserve_items items s)) = ps_file s"
  using assms by (induction items s rule: reserve_items.induct) (auto simp: mret_def split: option.splits)

lemma release_items_keeps:
  assumes "\<not> fits (pd_blocks (ps_data s))"
  shows "\<not> fits (pd_blocks (ps_data (snd (release_items items s)))) \<and> ps_file (snd (release_items items s)) = ps_file s"
  using assms by (induction items s rule: release_items.induct) (auto simp: mret_def merr_def Let_def)

lemma store_ok_unfit:
  "\<not> fits (pd_blocks (ps_data s)) \<Longrightarrow> store_ok s \<longleftrightarrow> (\<forall>d. ps_file s = Some d \<longrightarrow> pool_ok d)"
  by (simp add: store_ok_def pool_ok_def)

lemma unfit_chain:
  assumes "store_ok s" and "\<not> fits (pd_blocks (ps_data s))"
    and "\<not> fits (pd_blocks (ps_data (snd (r s)))) \<and> ps_file (snd (r s)) = ps_file s"
  shows "store_ok (snd (mbind r (\<lambda>_. mbind (with_data (\<lambda>d. d\<lparr>pd_payouts := f d\<rparr>)) (\<lambda>_. mbind (pool_save io) (\<lambda>_. mret x))) s))"
proof -
  obtain res t where r: "r s = (res, t)" by fastforce
  with assms have "store_ok t" "store_ok (t\<lparr>ps_data := (ps_data t)\<lparr>pd_payouts := f (ps_data t)\<rparr>\<rparr>)"
    by (auto simp: store_ok_unfit)
  then show ?thesis using saved_keeps by (cases res) (simp_all add: mut_eval [of r] r)
qed

lemma prepare_keeps:
  assumes "store_ok s"
  shows "store_ok (snd (prepare_payout io pid minimum now s))"
proof (cases "fits (pd_blocks (ps_data s)) \<and> due_items minimum (pd_accounts (ps_data s)) \<noteq> []")
  case True
  then have b: "books (pd_accounts (ps_data s)) (pd_blocks (ps_data s)) (pd_payouts (ps_data s))"
    using store_okD [OF assms] by simp
  then have "map_wf (pd_accounts (ps_data s))" by (simp add: books_def)
  from prepare_Ok [OF this] True show ?thesis
    using books_prepare [OF b, where minimum = minimum] assms
    by (auto intro!: saved_keeps store_ok_upd simp: pool_ok_def)
next
  case False
  then show ?thesis
    using assms unfit_chain [OF assms, where r = "reserve_items items" for items] reserve_items_keeps
    by (auto simp: prepare_payout_def Let_def mlift_eq reject_if_def)
qed

lemma prepared_batch:
  assumes "store_ok s" and "fits (pd_blocks (ps_data s))" and "prepared_index pid (ps_data s) = Some i"
    and "po_items q = po_items (pd_payouts (ps_data s) ! i)"
    and "po_status q = Submitted \<and> f = settle \<or> po_status q = Cancelled \<and> f = release"
  shows "books (each_item f (po_items q) (pd_accounts (ps_data s))) (pd_blocks (ps_data s)) ((pd_payouts (ps_data s))[i := q])"
proof -
  obtain xs p ys where p: "pd_payouts (ps_data s) = xs @ p # ys" "pd_payouts (ps_data s) ! i = p" "po_status p = Prepared"
    "(pd_payouts (ps_data s))[i := q] = xs @ q # ys"
    using prepared_split [OF assms(3)] by metis
  from store_okD [OF assms(1,2)] have "books (pd_accounts (ps_data s)) (pd_blocks (ps_data s)) (xs @ p # ys)" by (simp only: p(1))
  from books_finish [OF this assms(2) p(3), of q f] show ?thesis using assms(4,5) p(2,4) by simp
qed

lemma release_batch:
  assumes "store_ok s" and "fits (pd_blocks (ps_data s))" and "prepared_index pid (ps_data s) = Some i"
  shows "release_items (po_items (pd_payouts (ps_data s) ! i)) s = (Ok (), s\<lparr>ps_data := (ps_data s)\<lparr>
      pd_accounts := each_item release (po_items (pd_payouts (ps_data s) ! i)) (pd_accounts (ps_data s))\<rparr>\<rparr>)"
proof (rule release_items_eq)
  obtain xs p ys where p: "pd_payouts (ps_data s) = xs @ p # ys" "pd_payouts (ps_data s) ! i = p" "po_status p = Prepared"
    using prepared_split [OF assms(3)] by metis
  from store_okD [OF assms(1,2)] have b: "books (pd_accounts (ps_data s)) (pd_blocks (ps_data s)) (xs @ p # ys)" by (simp only: p(1))
  then show "distinct (map pi_address (po_items (pd_payouts (ps_data s) ! i)))" by (simp add: books_def p(2))
  show "\<forall>j\<in>set (po_items (pd_payouts (ps_data s) ! i)). pi_amount j
      \<le> ab_pending_payout (account_of (pd_accounts (ps_data s)) (pi_address j))"
    using pending_covers [OF b p(3)] by (simp add: p(2))
qed

lemma confirm_keeps:
  assumes "store_ok s"
  shows "store_ok (snd (confirm_payout io pid hashes s))"
proof -
  have "pool_ok ((ps_data s)\<lparr>pd_accounts := each_item settle (po_items (pd_payouts (ps_data s) ! i)) (pd_accounts (ps_data s)),
      pd_payouts := (pd_payouts (ps_data s))[i := (pd_payouts (ps_data s) ! i)\<lparr>po_status := Submitted, po_transaction_hashes := hashes\<rparr>]\<rparr>)"
    if "prepared_index pid (ps_data s) = Some i" for i
    using prepared_batch [OF assms _ that, of "(pd_payouts (ps_data s) ! i)\<lparr>po_status := Submitted, po_transaction_hashes := hashes\<rparr>" settle]
    by (simp add: pool_ok_def)
  then show ?thesis using assms
    by (auto simp: confirm_payout_def Let_def mlift_eq settle_items_eq intro!: saved_keeps store_ok_upd split: sum.splits)
qed

lemma cancel_Ok:
  assumes "store_ok s" and "fits (pd_blocks (ps_data s))" and "prepared_index pid (ps_data s) = Some i"
  shows "cancel_payout io pid s =
    mbind (pool_save io) (\<lambda>_. mret ((pd_payouts (ps_data s) ! i)\<lparr>po_status := Cancelled\<rparr>)) (s\<lparr>ps_data := (ps_data s)\<lparr>
      pd_accounts := each_item release (po_items (pd_payouts (ps_data s) ! i)) (pd_accounts (ps_data s)),
      pd_payouts := (pd_payouts (ps_data s))[i := (pd_payouts (ps_data s) ! i)\<lparr>po_status := Cancelled\<rparr>]\<rparr>\<rparr>)"
  using release_batch [OF assms] assms(3)
  by (simp add: cancel_payout_def Let_def mlift_eq mut_eval [of "release_items _"])

lemma cancel_keeps:
  assumes "store_ok s"
  shows "store_ok (snd (cancel_payout io pid s))"
proof (cases "prepared_index pid (ps_data s)")
  case None
  with assms show ?thesis by (simp add: cancel_payout_def mlift_eq)
next
  case (Some i)
  show ?thesis
  proof (cases "fits (pd_blocks (ps_data s))")
    case True
    from cancel_Ok [OF assms True Some] show ?thesis
      using prepared_batch [OF assms True Some, of "(pd_payouts (ps_data s) ! i)\<lparr>po_status := Cancelled\<rparr>" release] assms
      by (auto intro!: saved_keeps store_ok_upd simp: pool_ok_def)
  next
    case False
    then show ?thesis using unfit_chain [OF assms False, where r = "release_items items" for items]
        release_items_keeps [OF False] Some
      by (simp add: cancel_payout_def Let_def mlift_eq)
  qed
qed

lemma load_keeps: "store_ok s \<Longrightarrow> pool_load (map_option Ok (ps_file s)) n = Ok s' \<Longrightarrow> store_ok s'"
  by (cases "ps_file s") (auto simp: pool_load_def store_ok_def pool_ok_def pool_data_default_def books_def
      account_ok_def account_of_def account_default_def)

interpretation accounting: guarded_machine pool_step store_ok
proof
  fix s i s'
  assume "store_ok s" and "pool_step i s = Some s'"
  then show "store_ok s'"
    using share_keeps block_keeps mature_keeps void_keeps prepare_keeps confirm_keeps cancel_keeps load_keeps
    by (cases i) (auto simp: pool_step_def split: sum.splits)
qed

end
