(* ===== verification/Vireon_Payout.thy ===== *)
theory Vireon_Payout
  imports
    Vireon_Pool
begin

text \<open>
  What the accounting of the mining pool guarantees, for the operations of \<^verbatim>\<open>store.rs\<close> in
  \<open>Vireon_Pool\<close>: the reward of a block is booked to the last unit and split in proportion to the
  proven work, the books balance along every run with failed writes and restarts, a cancelled
  payout is undone, and what a failed write leaves behind.
\<close>

section \<open>Properties\<close>

definition sample_share :: "string \<Rightarrow> string \<Rightarrow> u8 \<Rightarrow> u64 \<Rightarrow> share_record" where
  "sample_share miner hash bits at = \<lparr>sh_share_id = 0, sh_job_id = ''job'', sh_miner_address = miner,
     sh_worker_name = ''rig'', sh_nonce = 0, sh_hash = hash, sh_share_bits = bits, sh_network_bits = 16,
     sh_accepted_at = at, sh_block_candidate = False\<rparr>"

definition sample_round :: pool_store where
  "sample_round = (fresh_store 10)\<lparr>ps_data := pool_data_default\<lparr>pd_next_share_id := 2,
     pd_shares := [sample_share ''a'' ''01'' 8 1, sample_share ''b'' ''02'' 9 2]\<rparr>\<rparr>"

lemma unat_pool_fee:
  assumes "unat bps \<le> 10000"
  shows "\<exists>fee. pool_fee reward bps = Some fee \<and> unat fee = unat reward * unat bps div 10000 \<and> unat fee \<le> unat reward"
proof -
  have r: "unat (ucast reward :: u128) = unat reward"
    using u64_less [of reward] by (simp add: unsigned_ucast_eq take_bit_nat_eq_self)
  have b: "unat (ucast bps :: u128) = unat bps"
    using assms by (simp add: unsigned_ucast_eq take_bit_nat_eq_self)
  have le: "unat reward * unat bps \<le> unat reward * 10000" using assms by simp
  also have "unat reward * 10000 < 2 ^ 128" using u64_less [of reward] by simp
  finally have "unat reward * unat bps < 2 ^ 128" .
  then have p: "unat (ucast reward * ucast bps :: u128) = unat reward * unat bps"
    by (simp add: unat_mult_small r b)
  then have q: "unat ((ucast reward * ucast bps :: u128) div 10000) = unat reward * unat bps div 10000"
    by (simp add: unat_div)
  have "unat reward * unat bps div 10000 \<le> unat reward * 10000 div 10000" using le by (rule div_le_mono)
  then have "unat reward * unat bps div 10000 \<le> unat reward" by simp
  with q u64_less [of reward] show ?thesis
    by (auto simp: pool_fee_def Let_def unsigned_ucast_eq take_bit_nat_eq_self)
qed

text \<open>
  C16: When the pool records a block it had not recorded, with a fee of at most 100 percent and a
  round whose work does not overflow, it books the whole reward: the fee is the floor of
  reward times basis points over 10000 and fee and allocations add up to the reward to the
  last unit; every miner of the round and nobody else has an allocation, and each allocation
  differs from the exact proportional share (distributable times the miner's work over the
  round's work) by less than one unit.
\<close>

theorem pool_reward_split:
  assumes "\<not> list_ex (\<lambda>b. pb_hash b = hash) (pd_blocks (ps_data s))"
    and "unat bps \<le> 10000" and "round_shares (ps_data s) window now = shares" and "shares \<noteq> []"
    and "total_work shares < 2 ^ 128" and "unat reward * total_work shares < 2 ^ 128"
  shows "\<exists>s' b. record_pool_block None height hash reward bps window now s = (Ok (), s')
    \<and> pd_blocks (ps_data s') = pd_blocks (ps_data s) @ [b] \<and> ps_file s' = Some (ps_data s')
    \<and> pb_status b = Immature \<and> pb_height b = height \<and> pb_hash b = hash
    \<and> unat (pb_pool_fee b) = unat reward * unat bps div 10000
    \<and> unat (pb_pool_fee b) + map_total unat (pb_allocations b) = unat reward
    \<and> dom (map_of (pb_allocations b)) = sh_miner_address ` set shares
    \<and> (\<forall>a x. map_of (pb_allocations b) a = Some x \<longrightarrow>
         unat x * total_work shares < unat (pb_distributable b) * miner_work shares a + total_work shares
         \<and> unat (pb_distributable b) * miner_work shares a < unat x * total_work shares + total_work shares)"
proof -
  obtain fee where fee: "pool_fee reward bps = Some fee" "unat fee = unat reward * unat bps div 10000"
    "unat fee \<le> unat reward"
    using unat_pool_fee [OF assms(2)] by blast
  let ?d = "saturating_sub reward fee"
  have d: "unat ?d = unat reward - unat fee" by (simp add: unat_saturating_sub)
  then have "unat ?d * total_work shares \<le> unat reward * total_work shares" by simp
  then have "unat ?d * total_work shares < 2 ^ 128" using assms(6) by linarith
  from allocate_split [OF assms(4,5) this] obtain al where
    al: "allocate_by_share_work shares ?d = Ok al" "map_total unat al = unat ?d"
      "dom (map_of al) = sh_miner_address ` set shares"
      "\<forall>a x. map_of al a = Some x \<longrightarrow>
         unat x * total_work shares < unat ?d * miner_work shares a + total_work shares
         \<and> unat ?d * miner_work shares a < unat x * total_work shares + total_work shares"
    by blast
  let ?b = "\<lparr>pb_height = height, pb_hash = hash, pb_reward = reward, pb_distributable = ?d, pb_pool_fee = fee,
      pb_found_at = now, pb_status = Immature, pb_allocations = al\<rparr>"
  have "record_pool_block None height hash reward bps window now s = (Ok (), s\<lparr>
      ps_data := (ps_data s)\<lparr>pd_accounts := fold credit_immature al (pd_accounts (ps_data s)),
        pd_blocks := pd_blocks (ps_data s) @ [?b]\<rparr>,
      ps_file := Some ((ps_data s)\<lparr>pd_accounts := fold credit_immature al (pd_accounts (ps_data s)),
        pd_blocks := pd_blocks (ps_data s) @ [?b]\<rparr>)\<rparr>)"
    using assms(1,3,4) fee(1) al(1) by (simp add: record_pool_block_def Let_def mlift_eq pool_save_def)
  then show ?thesis using al(2-4) fee(2,3) d
    by (intro exI [of _ ?b] exI [of _ "s\<lparr>
      ps_data := (ps_data s)\<lparr>pd_accounts := fold credit_immature al (pd_accounts (ps_data s)),
        pd_blocks := pd_blocks (ps_data s) @ [?b]\<rparr>,
      ps_file := Some ((ps_data s)\<lparr>pd_accounts := fold credit_immature al (pd_accounts (ps_data s)),
        pd_blocks := pd_blocks (ps_data s) @ [?b]\<rparr>)\<rparr>"]) simp
qed

theorem pool_reward_split_witness:
  "\<exists>s' b. record_pool_block None 7 ''block'' 1000 100 10 3 sample_round = (Ok (), s')
    \<and> pd_blocks (ps_data s') = [b] \<and> unat (pb_pool_fee b) = 10
    \<and> map_total unat (pb_allocations b) = 990"
proof -
  have w: "total_work (round_shares (ps_data sample_round) 10 3) = 768"
    by (simp add: total_work_def share_work_def sample_share_def sample_round_def fresh_store_def pool_data_default_def
        round_shares_def previous_block_at_def)
  have n: "round_shares (ps_data sample_round) 10 3 \<noteq> []" using w by (auto simp: total_work_def)
  have "\<not> list_ex (\<lambda>b. pb_hash b = ''block'') (pd_blocks (ps_data sample_round))"
    by (simp add: sample_round_def pool_data_default_def)
  moreover have b: "pd_blocks (ps_data sample_round) = []" by (simp add: sample_round_def pool_data_default_def)
  ultimately show ?thesis
    using pool_reward_split [of "''block''" sample_round 100 10 3 "round_shares (ps_data sample_round) 10 3" 1000 7] w n
    by fastforce
qed

text \<open>
  C4: The pool's books balance. Start from an empty store and perform any sequence of shares,
  blocks, maturity checks, rewinds, payouts, confirmations and cancellations, in which any write
  of the state file may fail and the process may restart at any point. As long as no account has
  been allocated 2^64 units, every account satisfies: its immature balance is the sum
  of its allocations in immature blocks, its pending and paid amounts are the sums of its items
  in prepared and submitted payouts, and mature, pending and paid together are at least its
  allocations in mature blocks and at most those in blocks that left immaturity.
\<close>

theorem pool_books_balance:
  assumes "run pool_step inputs (fresh_store max_shares) = Some s"
    and "\<forall>a. held UNIV a (pd_blocks (ps_data s)) < 2 ^ 64"
  shows "let b = account_of (pd_accounts (ps_data s)) a; blocks = pd_blocks (ps_data s); payouts = pd_payouts (ps_data s) in
    unat (ab_immature b) = held {Immature} a blocks
    \<and> unat (ab_pending_payout b) = owed Prepared a payouts
    \<and> unat (ab_paid b) = owed Submitted a payouts
    \<and> held {Mature} a blocks \<le> unat (ab_mature b) + unat (ab_pending_payout b) + unat (ab_paid b)
    \<and> unat (ab_mature b) + unat (ab_pending_payout b) + unat (ab_paid b) \<le> held {Mature, Orphaned} a blocks"
proof -
  have "store_ok (fresh_store max_shares)"
    by (simp add: fresh_store_def store_ok_def pool_ok_def pool_data_default_def books_def account_ok_def
        account_of_def account_default_def)
  then have "store_ok s" using assms(1) by (rule accounting.run_inv)
  then have "account_ok (pd_blocks (ps_data s)) (pd_payouts (ps_data s)) a (account_of (pd_accounts (ps_data s)) a)"
    using store_okD assms(2) account_okD fits_def by metis
  then show ?thesis by (simp add: account_ok_def Let_def)
qed


text \<open>A small run: one share, one block, and its maturing while the disk refuses the write.\<close>

definition sample_shared :: pool_data where
  "sample_shared = pool_data_default\<lparr>pd_next_share_id := 1,
     pd_shares := [(sample_share ''a'' ''01'' 8 1)\<lparr>sh_share_id := 1\<rparr>]\<rparr>"

definition sample_pool_block :: "pool_block_status \<Rightarrow> pool_block" where
  "sample_pool_block st = \<lparr>pb_height = 1, pb_hash = ''block'', pb_reward = 1000, pb_distributable = 1000,
     pb_pool_fee = 0, pb_found_at = 2, pb_status = st, pb_allocations = [(''a'', 1000)]\<rparr>"

definition sample_mined :: "pool_block_status \<Rightarrow> account_balance \<Rightarrow> pool_data" where
  "sample_mined st b = sample_shared\<lparr>pd_accounts := [(''a'', b)], pd_blocks := [sample_pool_block st]\<rparr>"

definition sample_inputs :: "pool_input list" where
  "sample_inputs = [RecordShare None (sample_share ''a'' ''01'' 8 1), RecordBlock None 1 ''block'' 1000 0 10 2,
     MatureBlocks (Some (PoolStorage ''disk full'')) [(1, ''block'')] 2 1]"

definition sample_matured :: pool_store where
  "sample_matured = \<lparr>ps_data = sample_mined Mature (account_default\<lparr>ab_mature := 1000\<rparr>),
     ps_file = Some (sample_mined Immature (account_default\<lparr>ab_immature := 1000\<rparr>)), ps_max_shares = 10\<rparr>"

lemma single_entry:
  "map_wf al \<Longrightarrow> dom (map_of al) = {a} \<Longrightarrow> map_total unat al = n \<Longrightarrow> \<exists>x. al = [(a, x)] \<and> unat x = n"
  by (cases al; cases "tl al") (auto simp: dom_map_of_conv_image_fst)

lemma sample_work: "total_work [(sample_share ''a'' ''01'' 8 1)\<lparr>sh_share_id := 1\<rparr>] = 256"
  by (simp add: total_work_def share_work_def sample_share_def)

lemma sample_allocation:
  "allocate_by_share_work [(sample_share ''a'' ''01'' 8 1)\<lparr>sh_share_id := 1\<rparr>] 1000 = Ok [(''a'', 1000)]"
proof -
  let ?ss = "[(sample_share ''a'' ''01'' 8 1)\<lparr>sh_share_id := 1\<rparr>]"
  have "?ss \<noteq> []" "total_work ?ss < 2 ^ 128" "unat (1000::u64) * total_work ?ss < 2 ^ 128" by (simp_all add: sample_work)
  from allocate_split [OF this] obtain al where al: "allocate_by_share_work ?ss 1000 = Ok al"
    "map_wf al" "map_total unat al = unat (1000::u64)" "dom (map_of al) = sh_miner_address ` set ?ss"
    by blast
  have "sh_miner_address ` set ?ss = {''a''}" by (simp add: sample_share_def)
  with single_entry [OF al(2) _ al(3), of "''a''"] al(1,4) obtain x where "allocate_by_share_work ?ss 1000 = Ok [(''a'', x)]" "unat x = unat (1000::u64)" by auto
  then show ?thesis by (simp add: word_unat_eq_iff)
qed

lemma sample_block_split:
  "pool_fee 1000 0 = Some 0"
  "saturating_sub (1000::u64) 0 = 1000"
  "round_shares sample_shared 10 2 = [(sample_share ''a'' ''01'' 8 1)\<lparr>sh_share_id := 1\<rparr>]"
  "pd_blocks sample_shared = []" "pd_accounts sample_shared = []"
  by (simp_all add: pool_fee_def saturating_sub_def round_shares_def sample_shared_def pool_data_default_def
      previous_block_at_def sample_share_def)

lemma sample_run: "run pool_step sample_inputs (fresh_store 10) = Some sample_matured"
proof -
  have "pool_step (RecordShare None (sample_share ''a'' ''01'' 8 1)) (fresh_store 10)
      = Some \<lparr>ps_data = sample_shared, ps_file = Some sample_shared, ps_max_shares = 10\<rparr>"
    by (simp add: pool_step_def record_share_def fresh_store_def pool_data_default_def Let_def mbind_def mret_def
        with_data_def mupd_def pool_save_def sample_shared_def saturating_add_def checked_add_def)
  moreover have "pool_step (RecordBlock None 1 ''block'' 1000 0 10 2)
      \<lparr>ps_data = sample_shared, ps_file = Some sample_shared, ps_max_shares = 10\<rparr>
    = Some \<lparr>ps_data = sample_mined Immature (account_default\<lparr>ab_immature := 1000\<rparr>),
        ps_file = Some (sample_mined Immature (account_default\<lparr>ab_immature := 1000\<rparr>)), ps_max_shares = 10\<rparr>"
    by (simp add: pool_step_def record_pool_block_def Let_def mlift_eq sample_block_split sample_allocation pool_save_def)
      (simp add: sample_mined_def sample_pool_block_def credit_immature_def with_account_def account_of_def
        account_default_def saturating_add_def checked_add_def)
  moreover have "pool_step (MatureBlocks (Some (PoolStorage ''disk full'')) [(1, ''block'')] 2 1)
      \<lparr>ps_data = sample_mined Immature (account_default\<lparr>ab_immature := 1000\<rparr>),
        ps_file = Some (sample_mined Immature (account_default\<lparr>ab_immature := 1000\<rparr>)), ps_max_shares = 10\<rparr>
    = Some sample_matured"
  proof -
    have m: "next_status [(1, ''block'')] 2 1 (sample_pool_block Immature) = Some Mature"
      by (simp add: next_status_def sample_pool_block_def saturating_add_def checked_add_def)
    have "move_balance Immature Mature 1000 (account_default\<lparr>ab_immature := 1000\<rparr>) = account_default\<lparr>ab_mature := 1000\<rparr>"
      by (simp add: move_balance_def account_default_def saturating_add_def checked_add_def saturating_sub_def)
    then have w: "with_account ''a'' (move_balance Immature Mature 1000) [(''a'', account_default\<lparr>ab_immature := 1000\<rparr>)]
        = [(''a'', account_default\<lparr>ab_mature := 1000\<rparr>)]"
      by (simp add: with_account_def account_of_def)
    have p: "pb_status (sample_pool_block Immature) = Immature" "pb_allocations (sample_pool_block Immature) = [(''a'', 1000)]"
      "sample_pool_block Immature\<lparr>pb_status := Mature\<rparr> = sample_pool_block Mature"
      by (simp_all add: sample_pool_block_def)
    show ?thesis
      by (simp add: pool_step_def mature_blocks_def sample_mined_def transitions_of_def Let_def pool_save_def
          apply_transition_def sample_matured_def set_status_def m p w)
  qed
  ultimately show ?thesis by (simp add: sample_inputs_def)
qed

lemma sample_matured_ok: "store_ok sample_matured" "fits (pd_blocks (ps_data sample_matured))"
proof -
  have "store_ok (fresh_store 10)"
    by (simp add: fresh_store_def store_ok_def pool_ok_def pool_data_default_def books_def account_ok_def
        account_of_def account_default_def)
  then show "store_ok sample_matured" using sample_run by (rule accounting.run_inv)
  show "fits (pd_blocks (ps_data sample_matured))"
    by (auto simp: fits_def sample_matured_def sample_mined_def held_def alloc_of_def sample_pool_block_def)
qed

theorem pool_books_balance_witness:
  "run pool_step sample_inputs (fresh_store 10) = Some sample_matured
    \<and> unat (ab_mature (account_of (pd_accounts (ps_data sample_matured)) ''a''))
        \<le> held {Mature, Orphaned} ''a'' (pd_blocks (ps_data sample_matured))
    \<and> ps_file sample_matured \<noteq> Some (ps_data sample_matured)"
proof -
  have "\<forall>a. held UNIV a (pd_blocks (ps_data sample_matured)) < 2 ^ 64"
    using sample_matured_ok(2) by (simp add: fits_def)
  from pool_books_balance [OF sample_run this, of "''a''"]
  have "unat (ab_mature (account_of (pd_accounts (ps_data sample_matured)) ''a''))
      \<le> held {Mature, Orphaned} ''a'' (pd_blocks (ps_data sample_matured))"
    unfolding Let_def by linarith
  moreover have "map pb_status (pd_blocks (the (ps_file sample_matured))) \<noteq> map pb_status (pd_blocks (ps_data sample_matured))"
    by (simp add: sample_matured_def sample_mined_def sample_pool_block_def)
  ultimately show ?thesis using sample_run by auto
qed

lemma position_snoc:
  "position P xs = None \<Longrightarrow> position P (xs @ [x]) = (if P x then Some (length xs) else None)"
  by (induction xs) (auto split: if_splits)

lemma release_reserve:
  assumes "unat (ab_pending_payout b) + unat (ab_mature b) < 2 ^ 64"
  shows "release (ab_mature b) (reserve (ab_mature b) b) = b"
proof -
  have "saturating_add (ab_pending_payout b) (ab_mature b) = ab_pending_payout b + ab_mature b"
    using assms by (simp add: saturating_add_def checked_add_def)
  moreover have "saturating_add (saturating_sub (ab_mature b) (ab_mature b)) (ab_mature b) = ab_mature b"
    by (simp add: saturating_sub_def saturating_add_def checked_add_def u64_less [simplified])
  ultimately show ?thesis by (simp add: release_def reserve_def)
qed

lemma release_reserve_items:
  assumes "books m bs ps" and "fits bs"
  shows "account_of (each_item release (due_items minimum m) (each_item reserve (due_items minimum m) m)) a = account_of m a"
proof (cases "a \<in> pi_address ` set (due_items minimum m)")
  case True
  then obtain i where i: "i \<in> set (due_items minimum m)" "a = pi_address i" by auto
  have wf: "map_wf m" using assms(1) by (simp add: books_def)
  note d = due_items_props [OF wf, where minimum = minimum]
  have "unat (ab_pending_payout (account_of m a)) + unat (ab_mature (account_of m a)) < 2 ^ 64"
    using account_okD [OF assms(1), of a] fits_bound [OF assms(2), of a] by (simp add: account_ok_def)
  then show ?thesis using fold_accounts_hit [OF d(1) i(1)] d(2) [OF i(1)] i(2) release_reserve by simp
qed (simp add: each_item_other)

text \<open>
  Cancelling a prepared payout undoes it. In a store whose books balance, preparing a payout
  under an id no prepared payout has and cancelling it again both succeed, the inconsistency
  error of the cancellation does not occur, every account is back at its balances, and the
  batch remains recorded as cancelled.
\<close>

theorem cancelled_payout_restores:
  assumes "store_ok s" and "fits (pd_blocks (ps_data s))" and "prepare_payout None pid minimum now s = (Ok batch, s1)"
    and "prepared_index pid (ps_data s) = None"
  shows "\<exists>s2. cancel_payout None pid s1 = (Ok (batch\<lparr>po_status := Cancelled\<rparr>), s2)
    \<and> (\<forall>a. account_of (pd_accounts (ps_data s2)) a = account_of (pd_accounts (ps_data s)) a)
    \<and> pd_payouts (ps_data s2) = pd_payouts (ps_data s) @ [batch\<lparr>po_status := Cancelled\<rparr>]
    \<and> ps_file s2 = Some (ps_data s2)"
proof -
  let ?d = "ps_data s" and ?items = "due_items minimum (pd_accounts (ps_data s))"
  have b: "books (pd_accounts ?d) (pd_blocks ?d) (pd_payouts ?d)" using store_okD [OF assms(1,2)] .
  then have wf: "map_wf (pd_accounts ?d)" by (simp add: books_def)
  have ne: "?items \<noteq> []" using assms(3) by (auto simp: prepare_payout_def mlift_eq Let_def reject_if_def split: if_splits)
  have s1: "ps_data s1 = ?d\<lparr>pd_accounts := each_item reserve ?items (pd_accounts ?d), pd_payouts := pd_payouts ?d @ [batch]\<rparr>"
    and bt: "po_items batch = ?items" "po_payout_id batch = pid" "po_status batch = Prepared"
    using prepare_Ok [OF wf ne, of None pid now] assms(3)
    by (auto simp: mbind_def mret_def pool_save_def)
  have ok: "store_ok s1" using prepare_keeps [OF assms(1), of None pid minimum now] assms(3) by simp
  have ix: "prepared_index pid (ps_data s1) = Some (length (pd_payouts ?d))"
    using assms(4) bt by (simp add: prepared_index_def s1 position_snoc)
  have "cancel_payout None pid s1 = mbind (pool_save None) (\<lambda>_. mret (batch\<lparr>po_status := Cancelled\<rparr>))
      (s1\<lparr>ps_data := (ps_data s1)\<lparr>pd_accounts := each_item release ?items (each_item reserve ?items (pd_accounts ?d)),
        pd_payouts := pd_payouts ?d @ [batch\<lparr>po_status := Cancelled\<rparr>]\<rparr>\<rparr>)"
    using cancel_Ok [OF ok _ ix, of None] assms(2) by (simp add: s1 bt)
  then show ?thesis using release_reserve_items [OF b assms(2)] by (auto simp: mbind_def mret_def pool_save_def)
qed

theorem cancelled_payout_restores_witness:
  "\<exists>batch s1 s2. prepare_payout None ''p1'' 500 3 sample_matured = (Ok batch, s1)
    \<and> cancel_payout None ''p1'' s1 = (Ok (batch\<lparr>po_status := Cancelled\<rparr>), s2)
    \<and> account_of (pd_accounts (ps_data s2)) ''a'' = account_default\<lparr>ab_mature := 1000\<rparr>"
proof -
  have a: "pd_accounts (ps_data sample_matured) = [(''a'', account_default\<lparr>ab_mature := 1000\<rparr>)]"
    "pd_payouts (ps_data sample_matured) = []"
    by (simp_all add: sample_matured_def sample_mined_def sample_shared_def pool_data_default_def)
  then have "due_items 500 (pd_accounts (ps_data sample_matured)) \<noteq> []" by (simp add: due_items_def)
  then obtain batch s1 where p: "prepare_payout None ''p1'' 500 3 sample_matured = (Ok batch, s1)"
    using prepare_Ok [of sample_matured 500 None "''p1''" 3] a by (auto simp: mbind_def mret_def pool_save_def)
  have "prepared_index ''p1'' (ps_data sample_matured) = None" by (simp add: prepared_index_def a)
  from cancelled_payout_restores [OF sample_matured_ok p this] p a(1) show ?thesis
    by (auto simp: account_of_def)
qed

text \<open>
  A pool block whose write fails is not lost from memory but its repetition is not written
  either. If recording a new block fails only because the file cannot be written, the call
  reports the error, the block is in memory and not in the file; recording the same block
  again, with a working disk, reports success without writing the file. Until some other
  operation writes, a restart loses the block and its allocations although the pool has
  acknowledged it.
\<close>

theorem failed_block_write_retry:
  assumes "record_pool_block (Some e) height hash reward bps window now s = (Err e, s1)"
    and "s1 \<noteq> s"
  shows "ps_file s1 = ps_file s \<and> list_ex (\<lambda>b. pb_hash b = hash) (pd_blocks (ps_data s1))
    \<and> record_pool_block None height hash reward bps window now' s1 = (Ok (), s1)
    \<and> (\<exists>s2. pool_load (map_option Ok (ps_file s1)) (ps_max_shares s1) = Ok s2
         \<and> pd_blocks (ps_data s2) = (case ps_file s of None \<Rightarrow> [] | Some d \<Rightarrow> pd_blocks d))"
proof -
  from assms have 1: "ps_file s1 = ps_file s" "list_ex (\<lambda>b. pb_hash b = hash) (pd_blocks (ps_data s1))"
    by (auto simp: record_pool_block_def Let_def mlift_eq pool_save_def split: sum.splits if_splits)
  then have "record_pool_block None height hash reward bps window now' s1 = (Ok (), s1)"
    by (simp add: record_pool_block_def)
  with 1 show ?thesis by (cases "ps_file s") (auto simp: pool_load_def pool_data_default_def)
qed

theorem failed_block_write_retry_witness:
  "\<exists>s1. record_pool_block (Some (PoolStorage ''disk full'')) 1 ''block'' 1000 0 10 2
        \<lparr>ps_data = sample_shared, ps_file = Some sample_shared, ps_max_shares = 10\<rparr>
      = (Err (PoolStorage ''disk full''), s1)
    \<and> record_pool_block None 1 ''block'' 1000 0 10 3 s1 = (Ok (), s1) \<and> ps_file s1 = Some sample_shared"
proof -
  let ?s = "\<lparr>ps_data = sample_shared, ps_file = Some sample_shared, ps_max_shares = 10\<rparr>"
  obtain s1 where s1: "record_pool_block (Some (PoolStorage ''disk full'')) 1 ''block'' 1000 0 10 2 ?s
      = (Err (PoolStorage ''disk full''), s1)" "pd_blocks (ps_data s1) \<noteq> []"
    by (simp add: record_pool_block_def Let_def mlift_eq sample_block_split sample_allocation pool_save_def)
  then have "s1 \<noteq> ?s" using sample_block_split(4) by auto
  from failed_block_write_retry [OF s1(1) this, of 3] s1 show ?thesis by auto
qed

end
