(* ===== verification/Vireon_Work.thy ===== *)
theory Vireon_Work
  imports
    Vireon_Block
begin

text \<open>
  The work protocol between node, pool and miner, \<^verbatim>\<open>vireon-miner/src/protocol.rs\<close> with the
  errors of \<^verbatim>\<open>error.rs\<close> and the pool's variant of the template check in \<^verbatim>\<open>source.rs\<close>: a mining
  template, the block a miner builds from it, the submission and the answer to it.
\<close>

section \<open>Errors\<close>

datatype miner_error =
    MinerConfig string
  | InvalidTemplate string
  | MinerRpc string
  | WorkFileMissing string
  | MinerIo string
  | MinerJson string
  | MinerToml string
  | MinerCore VireonError
  | WorkerPanicked
  | MinerGpu string

type_synonym 'a miner_result = "miner_error + 'a"

fun miner_error_display :: "miner_error \<Rightarrow> string" where
  "miner_error_display (MinerConfig m) = ''configuration error: '' @ m"
| "miner_error_display (InvalidTemplate m) = ''invalid mining template: '' @ m"
| "miner_error_display (MinerRpc m) = ''mining RPC error: '' @ m"
| "miner_error_display (WorkFileMissing p) = ''work file does not exist: '' @ p"
| "miner_error_display (MinerIo m) = ''I/O error: '' @ m"
| "miner_error_display (MinerJson m) = ''JSON error: '' @ m"
| "miner_error_display (MinerToml m) = ''TOML error: '' @ m"
| "miner_error_display (MinerCore e) = ''core error: '' @ error_display e"
| "miner_error_display WorkerPanicked = ''worker thread panicked''"
| "miner_error_display (MinerGpu m) = ''GPU mining error: '' @ m"

section \<open>Templates\<close>

definition MINING_PROTOCOL_VERSION :: string where
  "MINING_PROTOCOL_VERSION = ''vireon-mining-v1''"

record mining_template =
  mt_protocol :: string
  mt_template_id :: string
  mt_expires_at :: u64
  mt_version :: u32
  mt_network_id :: string
  mt_height :: u64
  mt_previous_hash :: string
  mt_merkle_root :: string
  mt_base_fee_atomic :: u64
  mt_timestamp :: u64
  mt_difficulty :: u8
  mt_share_difficulty :: "u8 option"
  mt_nonce_start :: u64
  mt_transactions :: "transaction list"

definition parse_hash :: "string \<Rightarrow> string \<Rightarrow> hash miner_result" where
  "parse_hash field v =
     map_err (\<lambda>error. InvalidTemplate (''invalid '' @ field @ '': '' @ error)) (hash_from_hex v)"

text \<open>\<open>now\<close> is the clock reading of the call.\<close>

definition validate_and_build :: "externals \<Rightarrow> u64 \<Rightarrow> string \<Rightarrow> mining_template \<Rightarrow> block miner_result" where
  "validate_and_build X now miner_address t =
     rbind (reject_if (mt_protocol t \<noteq> MINING_PROTOCOL_VERSION)
              (InvalidTemplate (''unsupported protocol '' @ mt_protocol t @ ''; expected '' @ MINING_PROTOCOL_VERSION))) (\<lambda>_.
     rbind (reject_if (trim (mt_template_id t) = []) (InvalidTemplate ''template_id cannot be empty'')) (\<lambda>_.
     rbind (reject_if (mt_expires_at t \<le> now)
              (InvalidTemplate (''template expired at '' @ show_word (mt_expires_at t)))) (\<lambda>_.
     rbind (ok_or (from_network_id (mt_network_id t))
              (InvalidTemplate (''unknown network_id '' @ mt_network_id t))) (\<lambda>network.
     rbind (map_err MinerCore (address_parse X miner_address)) (\<lambda>address.
     rbind (reject_if (addr_network address \<noteq> network)
              (InvalidTemplate (''miner address belongs to '' @ network_id (addr_network address)
                 @ '', template belongs to '' @ network_id network))) (\<lambda>_.
     rbind (case mt_transactions t of [] \<Rightarrow> Err (InvalidTemplate ''transactions must include coinbase'')
            | coinbase # _ \<Rightarrow> Ok coinbase) (\<lambda>coinbase.
     rbind (reject_if (\<not> is_coinbase coinbase \<or> tx_to coinbase \<noteq> miner_address)
              (InvalidTemplate ''first transaction must be coinbase paying miner_address'')) (\<lambda>_.
     rbind (parse_hash ''previous_hash'' (mt_previous_hash t)) (\<lambda>previous_hash.
     rbind (parse_hash ''merkle_root'' (mt_merkle_root t)) (\<lambda>merkle_root.
     let b = \<lparr>b_header = \<lparr>bh_version = mt_version t, bh_network_id = mt_network_id t, bh_height = mt_height t,
                bh_previous_hash = previous_hash, bh_merkle_root = merkle_root,
                bh_base_fee_atomic = mt_base_fee_atomic t, bh_timestamp = mt_timestamp t,
                bh_nonce = mt_nonce_start t, bh_mix_hash = hash_zero, bh_difficulty = mt_difficulty t\<rparr>,
              b_transactions = mt_transactions t\<rparr> in
     rbind (map_err MinerCore (recompute_merkle_root X b)) (\<lambda>computed.
     rbind (reject_if (computed \<noteq> bh_merkle_root (b_header b))
              (InvalidTemplate (''merkle_root mismatch: expected '' @ mt_merkle_root t @ '', computed ''
                 @ hash_to_hex computed))) (\<lambda>_.
     Ok b))))))))))))"

text \<open>\<open>PoolWorkSource::validate_and_build\<close>: the reward goes to the pool's address of the template.\<close>

definition pool_validate_and_build :: "externals \<Rightarrow> u64 \<Rightarrow> mining_template \<Rightarrow> block miner_result" where
  "pool_validate_and_build X now t =
     rbind (case mt_transactions t of [] \<Rightarrow> Err (InvalidTemplate ''coinbase is missing'')
            | tx # _ \<Rightarrow> Ok (tx_to tx)) (\<lambda>reward_address.
     rbind (map_err MinerCore (address_parse X reward_address)) (\<lambda>_.
     validate_and_build X now reward_address t))"

section \<open>Submissions\<close>

record mining_submit_request =
  mr_protocol :: string
  mr_template_id :: string
  mr_nonce :: u64
  mr_block_hash :: string
  mr_mix_hash :: string
  mr_miner_address :: "string option"
  mr_worker_name :: "string option"

definition from_solution :: "string \<Rightarrow> u64 \<Rightarrow> hash \<Rightarrow> hash \<Rightarrow> mining_submit_request" where
  "from_solution template_id nonce final_hash mix_hash =
     \<lparr>mr_protocol = MINING_PROTOCOL_VERSION, mr_template_id = template_id, mr_nonce = nonce,
      mr_block_hash = hash_to_hex final_hash, mr_mix_hash = hash_to_hex mix_hash,
      mr_miner_address = None, mr_worker_name = None\<rparr>"

datatype submit_status = SubmitAccepted | SubmitStale | SubmitRejected | PendingLocal

record mining_submit_response =
  ms_protocol :: string
  ms_status :: submit_status
  ms_template_id :: string
  ms_block_hash :: string
  ms_height :: "u64 option"
  ms_reason :: "string option"

text \<open>The request \<open>PoolWorkSource::submit\<close> sends, and the answer of \<open>FileWorkSource::submit\<close>.\<close>

definition pool_request :: "string \<Rightarrow> string \<Rightarrow> mining_submit_request \<Rightarrow> mining_submit_request" where
  "pool_request miner_address worker_name r =
     r\<lparr>mr_miner_address := Some miner_address, mr_worker_name := Some worker_name\<rparr>"

definition file_submitted :: "mining_submit_request \<Rightarrow> mining_submit_response" where
  "file_submitted r =
     \<lparr>ms_protocol = MINING_PROTOCOL_VERSION, ms_status = PendingLocal, ms_template_id = mr_template_id r,
      ms_block_hash = mr_block_hash r, ms_height = None,
      ms_reason = Some ''written to local submission file; node acceptance is pending''\<rparr>"

section \<open>What a validated template guarantees\<close>

lemma validate_and_build_Ok:
  assumes "validate_and_build X now addr t = Ok b"
  shows "mt_protocol t = MINING_PROTOCOL_VERSION \<and> now < mt_expires_at t
    \<and> b_transactions b = mt_transactions t
    \<and> (\<exists>cb rest. mt_transactions t = cb # rest \<and> is_coinbase cb \<and> tx_to cb = addr)
    \<and> (\<exists>n a. from_network_id (mt_network_id t) = Some n \<and> address_parse X addr = Ok a \<and> addr_network a = n)
    \<and> recompute_merkle_root X b = Ok (bh_merkle_root (b_header b))
    \<and> bh_height (b_header b) = mt_height t \<and> bh_difficulty (b_header b) = mt_difficulty t
    \<and> hash_from_hex (mt_previous_hash t) = Ok (bh_previous_hash (b_header b))
    \<and> bh_nonce (b_header b) = mt_nonce_start t"
  using assms
  by (auto simp: validate_and_build_def Let_def rbind_Ok parse_hash_def not_le split: list.splits)

end
