(* ===== verification/Vireon_PoolApp.thy ===== *)
theory Vireon_PoolApp
  imports
    Vireon_Payout
    Vireon_Work
    Vireon_State
begin

text \<open>
  The service of the mining pool, \<^verbatim>\<open>vireon-mining-pool/src/app.rs\<close> and \<^verbatim>\<open>config.rs\<close>: jobs and the
  work handed to miners, admission (rate limits, worker limits and bans), the check and booking
  of a share, variable difficulty, the payout handlers with their check against the chain, and
  the reconciliation of pool blocks with the canonical chain. Answers of the upstream node and of
  the clock are arguments; every request that is forwarded to the node is recorded. A handler
  is one step: it holds no lock across an upstream call, and an upstream answer is the
  argument it continues with.
\<close>

section \<open>Configuration\<close>

text \<open>The fields of \<open>PoolConfig\<close> without the port, the file paths and the CORS origins.\<close>

record pool_config =
  pc_bind_host :: string
  pc_network_id :: string
  pc_status_label :: string
  pc_pool_name :: string
  pc_pool_address :: string
  pc_upstream_rpc_url :: string
  pc_public_url :: string
  pc_share_difficulty :: u8
  pc_vardiff_enabled :: bool
  pc_min_share_difficulty :: u8
  pc_max_share_difficulty :: u8
  pc_target_share_seconds :: u64
  pc_vardiff_window_shares :: nat
  pc_share_network_gap_bits :: u8
  pc_pool_fee_basis_points :: u16
  pc_pplns_window_shares :: nat
  pc_block_maturity_confirmations :: u64
  pc_minimum_payout_atomic :: u64
  pc_job_cache_seconds :: u64
  pc_hashrate_window_seconds :: u64
  pc_worker_timeout_seconds :: u64
  pc_max_stored_shares :: nat
  pc_max_workers_per_address :: nat
  pc_max_work_requests_per_minute :: u32
  pc_max_share_requests_per_minute :: u32
  pc_invalid_share_ban_threshold :: u32
  pc_ban_seconds :: u64
  pc_allow_public_pool_prototype :: bool

text \<open>
  \<open>PoolConfig::validate\<close>. What the parser of literal addresses says about \<open>bind_host\<close>, whether it
  is a loopback and whether it is the unspecified address, and the scheme the URL parser finds
  are arguments.
\<close>

definition pool_config_validate ::
  "externals \<Rightarrow> (string \<Rightarrow> (bool \<times> bool) option) \<Rightarrow> (string \<Rightarrow> string + string) \<Rightarrow> pool_config \<Rightarrow> unit pool_result" where
  "pool_config_validate X parse_ip url_scheme c =
     rbind (ok_or (parse_ip (pc_bind_host c)) (PoolConfigError ''bind_host must be a literal IP'')) (\<lambda>(is_loopback, is_unspecified).
     rbind (reject_if (\<not> is_loopback \<and> \<not> pc_allow_public_pool_prototype c) (PoolConfigError
       ''non-loopback bind requires allow_public_pool_prototype = true (Prototype only; not a public production pool)'')) (\<lambda>_.
     rbind (reject_if ((is_unspecified \<or> \<not> is_loopback) \<and> take 8 (pc_public_url c) \<noteq> ''https://'')
       (PoolConfigError ''public bind requires an HTTPS public_url'')) (\<lambda>_.
     rbind (reject_if (pc_network_id c \<noteq> ''veiron-mainnet-candidate'')
       (PoolConfigError ''pool currently supports veiron-mainnet-candidate only'')) (\<lambda>_.
     rbind (map_err (\<lambda>e. PoolConfigError (''invalid pool_address: '' @ error_display e))
       (address_parse X (pc_pool_address c))) (\<lambda>address.
     rbind (reject_if (network_id (addr_network address) \<noteq> pc_network_id c)
       (PoolConfigError ''pool_address belongs to another network'')) (\<lambda>_.
     rbind (map_err (\<lambda>e. PoolConfigError (''invalid upstream_rpc_url: '' @ e)) (url_scheme (pc_upstream_rpc_url c))) (\<lambda>scheme.
     rbind (reject_if (scheme \<noteq> ''http'' \<and> scheme \<noteq> ''https'')
       (PoolConfigError ''upstream_rpc_url must use HTTP or HTTPS'')) (\<lambda>_.
     rbind (reject_if (pc_pool_fee_basis_points c > 1000)
       (PoolConfigError ''pool fee cannot exceed 10 percent'')) (\<lambda>_.
     rbind (reject_if (pc_min_share_difficulty c > pc_share_difficulty c
         \<or> pc_share_difficulty c > pc_max_share_difficulty c \<or> pc_max_share_difficulty c > 63)
       (PoolConfigError ''share difficulty must be between the VarDiff minimum and maximum'')) (\<lambda>_.
     rbind (reject_if (pc_share_network_gap_bits c = 0 \<or> pc_share_network_gap_bits c > 16)
       (PoolConfigError ''share_network_gap_bits must be 1..=16 (share target easier than network)'')) (\<lambda>_.
     reject_if (pc_pplns_window_shares c = 0 \<or> pc_block_maturity_confirmations c = 0
         \<or> pc_minimum_payout_atomic c = 0 \<or> pc_max_stored_shares c < pc_pplns_window_shares c
         \<or> pc_target_share_seconds c = 0 \<or> pc_vardiff_window_shares c < 4
         \<or> pc_max_workers_per_address c = 0 \<or> pc_max_work_requests_per_minute c = 0
         \<or> pc_max_share_requests_per_minute c = 0 \<or> pc_invalid_share_ban_threshold c = 0
         \<or> pc_ban_seconds c = 0 \<or> pc_hashrate_window_seconds c = 0 \<or> pc_job_cache_seconds c = 0)
       (PoolConfigError ''PPLNS, maturity, payout and storage limits must be positive and coherent''))))))))))))"

section \<open>State\<close>

record pool_job =
  pj_template :: mining_template
  pj_fetched_at :: u64
  pj_worker_difficulties :: "(string, u8 list) btree_map"

record client_admission =
  ca_window_started_at :: u64
  ca_work_requests :: u32
  ca_share_requests :: u32
  ca_invalid_shares :: u32
  ca_banned_until :: u64

record admission_state =
  ad_clients :: "(string, client_admission) btree_map"
  ad_workers :: "(string, (string, u64) btree_map) btree_map"
  ad_rejected_requests :: u64
  ad_rate_limited_requests :: u64

datatype request_kind = Work | Share

text \<open>\<open>pa_forwarded\<close> records the solutions posted to the node, in order.\<close>

record pool_app =
  pa_store :: pool_store
  pa_jobs :: "(string, pool_job) btree_map"
  pa_current_job :: "string option"
  pa_admission :: admission_state
  pa_upstream_checked :: bool
  pa_upstream_error :: "string option"
  pa_forwarded :: "mining_submit_request list"

definition client_default :: client_admission where
  "client_default = \<lparr>ca_window_started_at = 0, ca_work_requests = 0, ca_share_requests = 0,
     ca_invalid_shares = 0, ca_banned_until = 0\<rparr>"

definition admission_default :: admission_state where
  "admission_default = \<lparr>ad_clients = [], ad_workers = [], ad_rejected_requests = 0, ad_rate_limited_requests = 0\<rparr>"

definition pool_app_new :: "pool_store \<Rightarrow> pool_app" where
  "pool_app_new store = \<lparr>pa_store = store, pa_jobs = [], pa_current_job = None, pa_admission = admission_default,
     pa_upstream_checked = False, pa_upstream_error = None, pa_forwarded = []\<rparr>"

definition on_store :: "(pool_store, pool_error, 'a) mut \<Rightarrow> (pool_app, pool_error, 'a) mut" where
  "on_store m s = (case m (pa_store s) of (r, st) \<Rightarrow> (r, s\<lparr>pa_store := st\<rparr>))"

section \<open>Identities and difficulty\<close>

definition is_worker_char :: "char \<Rightarrow> bool" where
  "is_worker_char c = ((CHR ''0'' \<le> c \<and> c \<le> CHR ''9'') \<or> (CHR ''a'' \<le> c \<and> c \<le> CHR ''z'')
     \<or> (CHR ''A'' \<le> c \<and> c \<le> CHR ''Z'') \<or> c \<in> {CHR ''-'', CHR ''_'', CHR ''.''})"

definition validate_identity :: "externals \<Rightarrow> pool_config \<Rightarrow> string \<Rightarrow> string \<Rightarrow> unit pool_result" where
  "validate_identity X c address worker_name =
     rbind (map_err (\<lambda>e. InvalidShare (error_display e)) (address_parse X address)) (\<lambda>a.
     rbind (reject_if (network_id (addr_network a) \<noteq> pc_network_id c)
       (InvalidShare ''miner address belongs to another network'')) (\<lambda>_.
     reject_if (worker_name = [] \<or> length worker_name > 64 \<or> \<not> list_all is_worker_char worker_name)
       (InvalidShare ''invalid worker_name'')))"

definition worker_identity :: "string \<Rightarrow> string \<Rightarrow> string" where
  "worker_identity address worker_name = address @ ''/'' @ worker_name"

definition share_difficulty_bounds :: "u8 \<Rightarrow> u8 \<Rightarrow> u8 \<Rightarrow> u8 \<Rightarrow> u8 \<Rightarrow> u8 \<times> u8 \<times> u8" where
  "share_difficulty_bounds min_cfg max_cfg initial_cfg network_bits gap_bits = (
     let gap = max gap_bits 1;
         network_share_cap = (if network_bits \<le> 1 then 0
           else min (saturating_sub network_bits gap) (saturating_sub network_bits 1));
         minimum = min min_cfg network_share_cap;
         maximum = max (min max_cfg network_share_cap) minimum in
     (minimum, maximum, clamp initial_cfg minimum maximum))"

definition worker_difficulty :: "pool_config \<Rightarrow> pool_data \<Rightarrow> string \<Rightarrow> string \<Rightarrow> u8 \<Rightarrow> u8" where
  "worker_difficulty c d address worker_name network_bits = (
     let (minimum, maximum, initial) = share_difficulty_bounds (pc_min_share_difficulty c)
           (pc_max_share_difficulty c) (pc_share_difficulty c) network_bits (pc_share_network_gap_bits c) in
     if \<not> pc_vardiff_enabled c then initial
     else
       let shares = take (pc_vardiff_window_shares c)
             (filter (\<lambda>sh. sh_miner_address sh = address \<and> sh_worker_name sh = worker_name) (rev (pd_shares d)));
           current = clamp (case shares of [] \<Rightarrow> initial | sh # _ \<Rightarrow> sh_share_bits sh) minimum maximum in
       if length shares < 4 then current
       else
         let newest = sh_accepted_at (hd shares);
             oldest = sh_accepted_at (last shares);
             intervals = word_of_nat (length shares - 1) :: u64;
             average_seconds = max (saturating_sub newest oldest) 1 div max intervals 1;
             target = pc_target_share_seconds c in
         if saturating_mul average_seconds 2 < target then min (saturating_add current 1) maximum
         else if average_seconds > saturating_mul target 2 then max (saturating_sub current 1) minimum
         else current)"

section \<open>Admission\<close>

definition client_of :: "(string, client_admission) btree_map \<Rightarrow> string \<Rightarrow> client_admission" where
  "client_of m k = (case map_of m k of Some e \<Rightarrow> e | None \<Rightarrow> client_default)"

text \<open>The address of the client, when the request has one, is an argument as text.\<close>

definition admission_keys :: "string option \<Rightarrow> string \<Rightarrow> string \<Rightarrow> string list" where
  "admission_keys client_ip address worker_name =
     (''worker:'' @ worker_identity address worker_name)
       # (case client_ip of None \<Rightarrow> [] | Some ip \<Rightarrow> [''ip:'' @ ip])"

definition rate_limited :: "admission_state \<Rightarrow> admission_state" where
  "rate_limited a = a\<lparr>ad_rate_limited_requests := saturating_add (ad_rate_limited_requests a) 1\<rparr>"

definition admit_worker :: "pool_config \<Rightarrow> u64 \<Rightarrow> string \<Rightarrow> string \<Rightarrow> (admission_state, pool_error, unit) mut" where
  "admit_worker c now address worker_name a = (
     let seen = (case map_of (ad_workers a) address of Some w \<Rightarrow> w | None \<Rightarrow> []);
         workers = filter (\<lambda>(_, at). saturating_sub now at \<le> pc_worker_timeout_seconds c) seen;
         full = (map_of workers worker_name = None \<and> length workers \<ge> pc_max_workers_per_address c) in
     if full
     then (Err (RateLimited (pc_worker_timeout_seconds c)),
           rate_limited (a\<lparr>ad_workers := map_insert address workers (ad_workers a)\<rparr>))
     else (Ok (), a\<lparr>ad_workers := map_insert address (map_insert worker_name now workers) (ad_workers a)\<rparr>))"

definition open_window :: "u64 \<Rightarrow> client_admission \<Rightarrow> client_admission" where
  "open_window now e =
     (if saturating_sub now (ca_window_started_at e) \<ge> 60
      then e\<lparr>ca_window_started_at := now, ca_work_requests := 0, ca_share_requests := 0, ca_invalid_shares := 0\<rparr>
      else e)"

definition count_request :: "request_kind \<Rightarrow> client_admission \<Rightarrow> client_admission" where
  "count_request kind e = (case kind of
     Work \<Rightarrow> e\<lparr>ca_work_requests := saturating_add (ca_work_requests e) 1\<rparr>
   | Share \<Rightarrow> e\<lparr>ca_share_requests := saturating_add (ca_share_requests e) 1\<rparr>)"

definition exceeds_limit :: "pool_config \<Rightarrow> request_kind \<Rightarrow> client_admission \<Rightarrow> bool" where
  "exceeds_limit c kind e = (case kind of
     Work \<Rightarrow> ca_work_requests e > pc_max_work_requests_per_minute c
   | Share \<Rightarrow> ca_share_requests e > pc_max_share_requests_per_minute c)"

definition admit_key :: "pool_config \<Rightarrow> request_kind \<Rightarrow> u64 \<Rightarrow> string \<Rightarrow> (admission_state, pool_error, unit) mut" where
  "admit_key c kind now key a = (
     let entry = client_of (ad_clients a) key in
     if ca_banned_until entry > now
     then (Err (Banned (ca_banned_until entry - now)), a\<lparr>ad_clients := map_insert key entry (ad_clients a)\<rparr>)
     else
       let entry' = count_request kind (open_window now entry);
           a' = a\<lparr>ad_clients := map_insert key entry' (ad_clients a)\<rparr>;
           retry_after = saturating_sub 60 (saturating_sub now (ca_window_started_at entry')) in
       if exceeds_limit c kind entry' then (Err (RateLimited retry_after), rate_limited a')
       else (Ok (), a'))"

definition admit_request ::
  "pool_config \<Rightarrow> string list \<Rightarrow> request_kind \<Rightarrow> (string \<times> string) option \<Rightarrow> u64 \<Rightarrow> (admission_state, pool_error, unit) mut" where
  "admit_request c keys kind worker now =
     mbind (case worker of None \<Rightarrow> mret () | Some (address, worker_name) \<Rightarrow> admit_worker c now address worker_name) (\<lambda>_.
     mfold (\<lambda>_ key. admit_key c kind now key) () keys)"

definition count_invalid :: "pool_config \<Rightarrow> u64 \<Rightarrow> client_admission \<Rightarrow> client_admission" where
  "count_invalid c now e = (
     let e' = e\<lparr>ca_invalid_shares := saturating_add (ca_invalid_shares e) 1\<rparr> in
     if ca_invalid_shares e' \<ge> pc_invalid_share_ban_threshold c
     then e'\<lparr>ca_banned_until := saturating_add now (pc_ban_seconds c), ca_invalid_shares := 0\<rparr>
     else e')"

definition record_invalid_share :: "pool_config \<Rightarrow> string list \<Rightarrow> u64 \<Rightarrow> admission_state \<Rightarrow> admission_state" where
  "record_invalid_share c keys now a = (
     let a1 = a\<lparr>ad_rejected_requests := saturating_add (ad_rejected_requests a) 1\<rparr> in
     a1\<lparr>ad_clients := fold (\<lambda>key m. map_insert key (count_invalid c now (client_of m key)) m) keys (ad_clients a1)\<rparr>)"

definition on_admission :: "(admission_state, pool_error, 'a) mut \<Rightarrow> (pool_app, pool_error, 'a) mut" where
  "on_admission m s = (case m (pa_admission s) of (r, a) \<Rightarrow> (r, s\<lparr>pa_admission := a\<rparr>))"

section \<open>Jobs\<close>

definition live_job_id :: "u64 \<Rightarrow> pool_app \<Rightarrow> string option" where
  "live_job_id now s = (case pa_current_job s of
     None \<Rightarrow> None
   | Some job_id \<Rightarrow>
       (case map_of (pa_jobs s) job_id of
          None \<Rightarrow> None
        | Some job \<Rightarrow> if mt_expires_at (pj_template job) > saturating_add now 2 then Some job_id else None))"

definition job_needs_upstream_refresh :: "pool_config \<Rightarrow> string \<Rightarrow> u64 \<Rightarrow> pool_app \<Rightarrow> bool" where
  "job_needs_upstream_refresh c job_id now s = (case map_of (pa_jobs s) job_id of
     None \<Rightarrow> True
   | Some job \<Rightarrow>
       if mt_expires_at (pj_template job) \<le> saturating_add now 10 then True
       else saturating_sub now (pj_fetched_at job) \<ge> pc_job_cache_seconds c)"

definition same_work :: "mining_template \<Rightarrow> mining_template \<Rightarrow> bool" where
  "same_work prev t = (mt_height prev = mt_height t \<and> mt_previous_hash prev = mt_previous_hash t
     \<and> mt_merkle_root prev = mt_merkle_root t \<and> mt_difficulty prev = mt_difficulty t
     \<and> mt_timestamp prev = mt_timestamp t)"

definition install_or_refresh_job :: "mining_template \<Rightarrow> u64 \<Rightarrow> pool_app \<Rightarrow> pool_app" where
  "install_or_refresh_job t now s = (
     let job_id = mt_template_id t;
         jobs = filter (\<lambda>(_, job). mt_expires_at (pj_template job) > now) (pa_jobs s);
         fresh = \<lparr>pj_template = t, pj_fetched_at = now, pj_worker_difficulties = []\<rparr>;
         job = (case map_of jobs job_id of
            Some existing \<Rightarrow> existing\<lparr>pj_template := t, pj_fetched_at := now\<rparr>
          | None \<Rightarrow>
              (case Option.bind (pa_current_job s) (map_of jobs) of
                 None \<Rightarrow> fresh
               | Some prev \<Rightarrow>
                   if same_work (pj_template prev) t
                   then \<lparr>pj_template = (pj_template prev)\<lparr>mt_template_id := job_id, mt_expires_at := mt_expires_at t\<rparr>,
                         pj_fetched_at = now, pj_worker_difficulties = pj_worker_difficulties prev\<rparr>
                   else fresh)) in
     s\<lparr>pa_jobs := map_insert job_id job jobs, pa_current_job := Some job_id\<rparr>)"

definition issue_difficulty :: "string \<Rightarrow> u8 \<Rightarrow> pool_job \<Rightarrow> pool_job" where
  "issue_difficulty identity bits job = (
     let issued = (case map_of (pj_worker_difficulties job) identity of Some l \<Rightarrow> l | None \<Rightarrow> []) in
     job\<lparr>pj_worker_difficulties := map_insert identity
           (if bits \<in> set issued then issued else issued @ [bits]) (pj_worker_difficulties job)\<rparr>)"

definition issue_worker_template ::
  "pool_config \<Rightarrow> string \<Rightarrow> string \<Rightarrow> string \<Rightarrow> (pool_app, pool_error, mining_template) mut" where
  "issue_worker_template c job_id miner_address worker_name s = (case map_of (pa_jobs s) job_id of
     None \<Rightarrow> (Err (Stale ''unknown job''), s)
   | Some job \<Rightarrow>
       let difficulty = worker_difficulty c (pool_snapshot (pa_store s)) miner_address worker_name
             (mt_difficulty (pj_template job));
           job' = issue_difficulty (worker_identity miner_address worker_name) difficulty job in
       (Ok ((pj_template job')\<lparr>mt_share_difficulty := Some difficulty\<rparr>),
        s\<lparr>pa_jobs := map_insert job_id job' (pa_jobs s)\<rparr>))"

text \<open>\<open>fetched\<close> is the answer of the node to the request for a template.\<close>

definition work_handler ::
  "externals \<Rightarrow> pool_config \<Rightarrow> mining_template pool_result \<Rightarrow> string option \<Rightarrow> string \<Rightarrow> string \<Rightarrow> u64
     \<Rightarrow> (pool_app, pool_error, mining_template) mut" where
  "work_handler X c fetched client_ip miner_address worker_name now =
     mbind (mlift (\<lambda>_. validate_identity X c miner_address worker_name)) (\<lambda>_.
     mbind (on_admission (admit_request c (admission_keys client_ip miner_address worker_name) Work
              (Some (miner_address, worker_name)) now)) (\<lambda>_.
     mbind (mlift (\<lambda>s. Ok (live_job_id now s))) (\<lambda>live_job.
     mbind (mlift (\<lambda>s. Ok (case live_job of Some job_id \<Rightarrow> job_needs_upstream_refresh c job_id now s | None \<Rightarrow> True))) (\<lambda>needs.
     mbind (if needs then
              (case fetched of
                 Inr t \<Rightarrow> mupd (install_or_refresh_job (t\<lparr>mt_share_difficulty := None\<rparr>) now)
               | Inl e \<Rightarrow> if live_job = None then merr e else mret ())
            else mret ()) (\<lambda>_.
     mbind (mlift (\<lambda>s. ok_or (live_job_id now s) (UpstreamError ''no live mining job available''))) (\<lambda>job_id.
     issue_worker_template c job_id miner_address worker_name))))))"

section \<open>Shares\<close>

text \<open>The dash in the texts of the stale answers is an ASCII hyphen here.\<close>

definition stale_share_response :: "mining_submit_request \<Rightarrow> string \<Rightarrow> mining_submit_response" where
  "stale_share_response r reason =
     \<lparr>ms_protocol = MINING_PROTOCOL_VERSION, ms_status = SubmitStale, ms_template_id = mr_template_id r,
      ms_block_hash = mr_block_hash r, ms_height = None, ms_reason = Some reason\<rparr>"

definition pending_response :: "mining_submit_request \<Rightarrow> string \<Rightarrow> string \<Rightarrow> mining_submit_response" where
  "pending_response r hash reason =
     \<lparr>ms_protocol = MINING_PROTOCOL_VERSION, ms_status = PendingLocal, ms_template_id = mr_template_id r,
      ms_block_hash = hash, ms_height = None, ms_reason = Some reason\<rparr>"

text \<open>The block of a submission: the template's block with the submitted nonce and mix hash.\<close>

definition share_block :: "externals \<Rightarrow> pool_config \<Rightarrow> u64 \<Rightarrow> mining_template \<Rightarrow> mining_submit_request \<Rightarrow> block pool_result" where
  "share_block X c now t r =
     rbind (map_err (\<lambda>e. InvalidShare (miner_error_display e)) (validate_and_build X now (pc_pool_address c) t)) (\<lambda>b.
     let b1 = b\<lparr>b_header := (b_header b)\<lparr>bh_nonce := mr_nonce r\<rparr>\<rparr> in
     if trim (mr_mix_hash r) = [] then Ok b1
     else rbind (map_err (\<lambda>e. InvalidShare (''invalid mix_hash: '' @ e)) (hash_from_hex (trim (mr_mix_hash r)))) (\<lambda>mix.
       Ok (b1\<lparr>b_header := (b_header b1)\<lparr>bh_mix_hash := mix\<rparr>\<rparr>)))"

definition best_bits :: "hash \<Rightarrow> u8 list \<Rightarrow> u8 pool_result" where
  "best_bits hash issued = (case filter (check_pow hash) issued of
     [] \<Rightarrow> Err (InvalidShare ''hash does not meet share difficulty'')
   | b # bs \<Rightarrow> Ok (fold max bs b))"

text \<open>The part of \<open>process_share\<close> that decides what the submission proves.\<close>

definition check_share ::
  "externals \<Rightarrow> pool_config \<Rightarrow> u64 \<Rightarrow> mining_template \<Rightarrow> u8 list \<Rightarrow> mining_submit_request \<Rightarrow> (block \<times> u8) pool_result" where
  "check_share X c now t issued r =
     rbind (share_block X c now t r) (\<lambda>b.
     let hash = block_pow_hash X b in
     rbind (reject_if (hash_to_hex hash \<noteq> map ascii_lower (mr_block_hash r))
       (InvalidShare ''submitted final_hash does not match FiroPoW nonce/mix_hash'')) (\<lambda>_.
     rbind (best_bits hash issued) (\<lambda>bits.
     Ok (b, bits))))"

text \<open>
  The part after the share is known to be valid: it is recorded, a repetition is answered, a
  block candidate is posted to the node and an accepted block is booked. \<open>io 0\<close> and \<open>io 1\<close> are the
  outcomes of the two possible writes, \<open>t 2\<close> and \<open>t 3\<close> clock readings.
\<close>

definition book_share ::
  "externals \<Rightarrow> pool_config \<Rightarrow> (nat \<Rightarrow> write_outcome) \<Rightarrow> (nat \<Rightarrow> u64)
     \<Rightarrow> (mining_submit_request \<Rightarrow> mining_submit_response pool_result)
     \<Rightarrow> mining_template \<Rightarrow> string \<Rightarrow> string \<Rightarrow> mining_submit_request \<Rightarrow> block \<Rightarrow> u8
     \<Rightarrow> (pool_app, pool_error, mining_submit_response) mut" where
  "book_share X c io t upstream template miner_address worker_name r b bits = (
     let hash = block_pow_hash X b;
         hash_hex = hash_to_hex hash;
         block_candidate = check_pow hash (mt_difficulty template) in
     mbind (on_store (record_share (io 0)
       \<lparr>sh_share_id = 0, sh_job_id = mr_template_id r, sh_miner_address = miner_address,
        sh_worker_name = worker_name, sh_nonce = mr_nonce r, sh_hash = hash_hex, sh_share_bits = bits,
        sh_network_bits = mt_difficulty template, sh_accepted_at = t 2, sh_block_candidate = block_candidate\<rparr>))
       (\<lambda>(recorded, duplicate).
     if duplicate
     then mret (pending_response r (sh_hash recorded) ''share already recorded (duplicate hash ignored)'')
     else if \<not> block_candidate
     then mret (pending_response r hash_hex ''share accepted by pool'')
     else
       let request = from_solution (mr_template_id r) (mr_nonce r) hash (bh_mix_hash (b_header b)) in
       mbind (mupd (\<lambda>s. s\<lparr>pa_forwarded := pa_forwarded s @ [request]\<rparr>)) (\<lambda>_.
       mbind (mlift (\<lambda>_. upstream request)) (\<lambda>answer.
       if ms_status answer = SubmitAccepted
       then
         let reward = (case mt_transactions template of [] \<Rightarrow> 0 | tx # _ \<Rightarrow> tx_amount tx) in
         mbind (on_store (record_pool_block (io 1)
             (case ms_height answer of Some h \<Rightarrow> h | None \<Rightarrow> mt_height template)
             (ms_block_hash answer) reward (pc_pool_fee_basis_points c) (pc_pplns_window_shares c) (t 3))) (\<lambda>_.
         mbind (mupd (\<lambda>s. s\<lparr>pa_current_job := None\<rparr>)) (\<lambda>_.
         mret answer))
       else mret answer))))"

text \<open>\<open>t 0\<close> is the reading the job is checked against, \<open>t 1\<close> the one of the template check.\<close>

definition process_share ::
  "externals \<Rightarrow> pool_config \<Rightarrow> (nat \<Rightarrow> write_outcome) \<Rightarrow> (nat \<Rightarrow> u64)
     \<Rightarrow> (mining_submit_request \<Rightarrow> mining_submit_response pool_result)
     \<Rightarrow> mining_submit_request \<Rightarrow> string \<Rightarrow> string \<Rightarrow> (pool_app, pool_error, mining_submit_response) mut" where
  "process_share X c io t upstream r miner_address worker_name s = (
     case rbind (reject_if (mr_protocol r \<noteq> MINING_PROTOCOL_VERSION) (InvalidShare ''unsupported mining protocol'')) (\<lambda>_.
          validate_identity X c miner_address worker_name) of
       Inl e \<Rightarrow> (Err e, s)
     | Inr _ \<Rightarrow>
       (case map_of (pa_jobs s) (mr_template_id r) of
          None \<Rightarrow> (Ok (stale_share_response r ''unknown job - fetch fresh work''), s)
        | Some job \<Rightarrow>
          if mt_expires_at (pj_template job) \<le> t 0
          then (Ok (stale_share_response r ''job expired - fetch fresh work''), s)
          else
            let template = pj_template job;
                identity = worker_identity miner_address worker_name;
                registered = (case map_of (pj_worker_difficulties job) identity of Some l \<Rightarrow> l | None \<Rightarrow> []);
                job' = (if registered = []
                        then issue_difficulty identity (worker_difficulty c (pool_snapshot (pa_store s)) miner_address
                               worker_name (mt_difficulty template)) job
                        else job);
                issued = (case map_of (pj_worker_difficulties job') identity of Some l \<Rightarrow> l | None \<Rightarrow> []) in
            mbind (mupd (\<lambda>s. if registered = [] then s\<lparr>pa_jobs := map_insert (mr_template_id r) job' (pa_jobs s)\<rparr> else s)) (\<lambda>_.
            if issued = []
            then mret (stale_share_response r ''work was not issued to this worker - fetch fresh work'')
            else
              mbind (mlift (\<lambda>_. check_share X c (t 1) template issued r)) (\<lambda>(b, bits).
              book_share X c io t upstream template miner_address worker_name r b bits)) s))"

text \<open>\<open>t 4\<close> and \<open>t 5\<close> are the readings of the admission and of the ban.\<close>

definition submit_share ::
  "externals \<Rightarrow> pool_config \<Rightarrow> (nat \<Rightarrow> write_outcome) \<Rightarrow> (nat \<Rightarrow> u64)
     \<Rightarrow> (mining_submit_request \<Rightarrow> mining_submit_response pool_result) \<Rightarrow> string option
     \<Rightarrow> mining_submit_request \<Rightarrow> (pool_app, pool_error, mining_submit_response) mut" where
  "submit_share X c io t upstream client_ip r =
     mbind (mlift (\<lambda>_. ok_or (mr_miner_address r) (InvalidShare ''miner_address is required''))) (\<lambda>miner_address.
     mbind (mlift (\<lambda>_. ok_or (mr_worker_name r) (InvalidShare ''worker_name is required''))) (\<lambda>worker_name.
     let keys = admission_keys client_ip miner_address worker_name in
     mbind (on_admission (admit_request c keys Share None (t 4))) (\<lambda>_.
     (\<lambda>s. case process_share X c io t upstream r miner_address worker_name s of
        (Inl (InvalidShare m), s') \<Rightarrow>
          (Err (InvalidShare m), s'\<lparr>pa_admission := record_invalid_share c keys (t 5) (pa_admission s')\<rparr>)
      | (res, s') \<Rightarrow> (res, s')))))"

section \<open>Payout handlers\<close>

text \<open>\<open>admin_token\<close> is the content of the token file, \<open>authorization\<close> the header of that name.\<close>

definition require_admin :: "string option \<Rightarrow> string option \<Rightarrow> unit pool_result" where
  "require_admin admin_token authorization =
     rbind (ok_or admin_token Unauthorized) (\<lambda>expected.
     rbind (ok_or (Option.bind authorization (\<lambda>v. if take 7 v = ''Bearer '' then Some (drop 7 v) else None)) Unauthorized) (\<lambda>actual.
     reject_if (actual \<noteq> trim expected) Unauthorized))"

datatype json_field = JsonNumber u64 | JsonText string | JsonOther

record payout_tx =
  px_to :: "string option"
  px_amount_atomic :: "json_field option"
  px_lifecycle_status :: "string option"
  px_block_height :: "u64 option"

definition parse_atomic_field :: "json_field option \<Rightarrow> u64 option" where
  "parse_atomic_field v = (case v of
     Some (JsonNumber n) \<Rightarrow> Some n
   | Some (JsonText s) \<Rightarrow> parse_u64 s
   | _ \<Rightarrow> None)"

fun contains_text :: "string \<Rightarrow> string \<Rightarrow> bool" where
  "contains_text pat [] = (pat = [])"
| "contains_text pat (c # cs) = (take (length pat) (c # cs) = pat \<or> contains_text pat cs)"

text \<open>\<open>lookup\<close> is the node's answer for a transaction hash.\<close>

definition payout_transfer :: "(string \<Rightarrow> payout_tx pool_result) \<Rightarrow> string \<Rightarrow> (string \<times> u64) pool_result" where
  "payout_transfer lookup raw_hash = (
     let hash = map ascii_lower (trim raw_hash) in
     rbind (lookup hash) (\<lambda>tx.
     rbind (ok_or (px_to tx) (PoolConfigError (''payout tx '' @ hash @ '' missing recipient''))) (\<lambda>recipient.
     rbind (ok_or (parse_atomic_field (px_amount_atomic tx))
       (PoolConfigError (''payout tx '' @ hash @ '' missing amount_atomic''))) (\<lambda>amount.
     let lifecycle = map ascii_lower (case px_lifecycle_status tx of Some l \<Rightarrow> l | None \<Rightarrow> []) in
     rbind (reject_if (contains_text ''pending'' lifecycle \<or> contains_text ''mempool'' lifecycle)
       (PoolConfigError (''payout tx '' @ hash @ '' is not confirmed yet ('' @ lifecycle @ '')''))) (\<lambda>_.
     let height = (case px_block_height tx of Some h \<Rightarrow> h | None \<Rightarrow> 0) in
     rbind (reject_if (height = 0 \<and> lifecycle = [])
       (PoolConfigError (''payout tx '' @ hash @ '' has no block height''))) (\<lambda>_.
     Ok (recipient, amount)))))))"

definition cover :: "(string \<Rightarrow> payout_tx pool_result) \<Rightarrow> (string, u64) btree_map \<Rightarrow> string \<Rightarrow> (string, u64) btree_map pool_result" where
  "cover lookup covered raw_hash =
     rbind (payout_transfer lookup raw_hash) (\<lambda>(recipient, amount).
     Ok (map_insert recipient (saturating_add (case map_of covered recipient of Some x \<Rightarrow> x | None \<Rightarrow> 0) amount) covered))"

definition verify_payout_txs_on_chain :: "(string \<Rightarrow> payout_tx pool_result) \<Rightarrow> payout_batch \<Rightarrow> string list \<Rightarrow> unit pool_result" where
  "verify_payout_txs_on_chain lookup batch hashes =
     rbind (reject_if (hashes = []) (PoolConfigError ''transaction hashes are required to confirm a payout'')) (\<lambda>_.
     rbind (try_fold (cover lookup) [] hashes) (\<lambda>covered.
     try_each (\<lambda>item.
       let paid = (case map_of covered (pi_address item) of Some x \<Rightarrow> x | None \<Rightarrow> 0) in
       reject_if (paid < pi_amount item)
         (PoolConfigError (''payout for '' @ pi_address item @ '' requires '' @ show_word (pi_amount item)
            @ '' atomic but on-chain transfers only cover '' @ show_word paid))) (po_items batch)))"

definition prepare_payout_handler ::
  "pool_config \<Rightarrow> string option \<Rightarrow> string option \<Rightarrow> write_outcome \<Rightarrow> string \<Rightarrow> u64 \<Rightarrow> (pool_app, pool_error, payout_batch) mut" where
  "prepare_payout_handler c admin_token authorization io payout_id now =
     mbind (mlift (\<lambda>_. require_admin admin_token authorization)) (\<lambda>_.
     on_store (prepare_payout io payout_id (pc_minimum_payout_atomic c) now))"

definition confirm_payout_handler ::
  "string option \<Rightarrow> string option \<Rightarrow> (string \<Rightarrow> payout_tx pool_result) \<Rightarrow> write_outcome \<Rightarrow> string \<Rightarrow> string list
     \<Rightarrow> (pool_app, pool_error, payout_batch) mut" where
  "confirm_payout_handler admin_token authorization lookup io payout_id hashes =
     mbind (mlift (\<lambda>_. require_admin admin_token authorization)) (\<lambda>_.
     mbind (mlift (\<lambda>s. ok_or (find (\<lambda>p. po_payout_id p = payout_id \<and> po_status p = Prepared)
         (pd_payouts (pool_snapshot (pa_store s)))) (PoolConfigError ''prepared payout not found''))) (\<lambda>batch.
     mbind (mlift (\<lambda>_. verify_payout_txs_on_chain lookup batch hashes)) (\<lambda>_.
     on_store (confirm_payout io payout_id hashes))))"

definition cancel_payout_handler ::
  "string option \<Rightarrow> string option \<Rightarrow> write_outcome \<Rightarrow> string \<Rightarrow> (pool_app, pool_error, payout_batch) mut" where
  "cancel_payout_handler admin_token authorization io payout_id =
     mbind (mlift (\<lambda>_. require_admin admin_token authorization)) (\<lambda>_.
     on_store (cancel_payout io payout_id))"

section \<open>Reconciliation with the canonical chain\<close>

text \<open>
  \<open>status\<close> is the node's answer for its height, \<open>canonical h\<close> the one for the block at height \<open>h\<close>
  (\<open>Ok None\<close> when the node has none); \<open>io 0\<close> and \<open>io 1\<close> are the outcomes of the two writes.
\<close>

definition canonical_hashes_of ::
  "(u64 \<Rightarrow> string option pool_result) \<Rightarrow> pool_block list \<Rightarrow> (u64, string) btree_map pool_result" where
  "canonical_hashes_of canonical blocks =
     try_fold (\<lambda>hashes b. rbind (canonical (pb_height b)) (\<lambda>answer.
         Ok (case answer of None \<Rightarrow> hashes | Some hash \<Rightarrow> map_insert (pb_height b) hash hashes))) []
       (filter (\<lambda>b. pb_status b \<in> {Immature, Mature}) blocks)"

definition reconcile_maturity ::
  "pool_config \<Rightarrow> (nat \<Rightarrow> write_outcome) \<Rightarrow> u64 option pool_result \<Rightarrow> (u64 \<Rightarrow> string option pool_result)
     \<Rightarrow> (pool_app, pool_error, unit) mut" where
  "reconcile_maturity c io status canonical =
     mbind (mlift (\<lambda>_. status)) (\<lambda>height.
     (case height of
        None \<Rightarrow> mret ()
      | Some tip \<Rightarrow>
          mbind (on_store (void_immature_above_tip (io 0) tip)) (\<lambda>_.
          mbind (mlift (\<lambda>s. canonical_hashes_of canonical (pd_blocks (pool_snapshot (pa_store s))))) (\<lambda>hashes.
          on_store (mature_blocks (io 1) hashes tip (pc_block_maturity_confirmations c))))))"

definition pool_error_display :: "pool_error \<Rightarrow> string" where
  "pool_error_display e = (case e of
     PoolConfigError m \<Rightarrow> ''configuration error: '' @ m
   | InvalidShare m \<Rightarrow> ''invalid share: '' @ m
   | Stale m \<Rightarrow> ''stale share: '' @ m
   | Unauthorized \<Rightarrow> ''unauthorized''
   | RateLimited n \<Rightarrow> ''request limit exceeded; retry after '' @ show_word n @ '' seconds''
   | Banned n \<Rightarrow> ''client temporarily banned; retry after '' @ show_word n @ '' seconds''
   | UpstreamError m \<Rightarrow> ''upstream error: '' @ m
   | PoolStorage m \<Rightarrow> ''storage error: '' @ m)"

text \<open>The part of \<open>pool_status\<close> that changes the state; the view it returns is not modelled.\<close>

definition pool_status_refresh ::
  "pool_config \<Rightarrow> (nat \<Rightarrow> write_outcome) \<Rightarrow> u64 option pool_result \<Rightarrow> (u64 \<Rightarrow> string option pool_result)
     \<Rightarrow> pool_app \<Rightarrow> pool_app" where
  "pool_status_refresh c io status canonical s = (case reconcile_maturity c io status canonical s of
     (res, s') \<Rightarrow> s'\<lparr>pa_upstream_checked := True,
       pa_upstream_error := (case res of Inl e \<Rightarrow> Some (pool_error_display e) | Inr _ \<Rightarrow> None)\<rparr>)"

section \<open>Difficulty stays below the network's\<close>

lemma share_bounds:
  assumes "share_difficulty_bounds lo hi initial nb gap = (minimum, maximum, start)" and "lo \<le> hi" and "1 < nb"
  shows "minimum \<le> maximum" and "minimum \<le> start" and "start \<le> maximum" and "maximum \<le> hi"
    and "unat maximum \<le> unat nb - max (unat gap) 1" and "minimum = min lo (min (saturating_sub nb (max gap 1)) (saturating_sub nb 1))"
proof -
  let ?cap = "min (saturating_sub nb (max gap 1)) (saturating_sub nb 1)"
  have cap: "unat ?cap = unat nb - max (unat gap) 1"
    by (auto simp: min_def max_def word_le_nat_alt unat_saturating_sub)
  have m: "minimum = min lo ?cap" "maximum = max (min hi ?cap) minimum" "start = clamp initial minimum maximum"
    using assms(1,3) by (auto simp: share_difficulty_bounds_def Let_def not_le)
  show mm: "minimum \<le> maximum" using m by auto
  have "minimum \<le> lo" using m(1) by simp
  then show "maximum \<le> hi" using m(2) assms(2) by (simp add: le_max_iff_disj)
  show "minimum \<le> start" "start \<le> maximum" using m(3) clamp_bounds [OF mm] by simp_all
  have "maximum \<le> ?cap" unfolding m(2) m(1) by (intro max.boundedI min.cobounded2)
  then show "unat maximum \<le> unat nb - max (unat gap) 1" using cap by (simp add: word_le_nat_alt)
  show "minimum = min lo ?cap" by (rule m)
qed

lemma vardiff_step:
  assumes "lo \<le> x" and "x \<le> (hi :: u8)"
  shows "lo \<le> min (saturating_add x 1) hi" and "max (saturating_sub x 1) lo \<le> hi"
proof -
  have "unat x < 2 ^ LENGTH(8)" by (rule unsigned_less)
  then have "x \<le> saturating_add x 1" by (simp add: word_le_nat_alt unat_saturating_add min_def)
  then show "lo \<le> min (saturating_add x 1) hi" using assms by (meson min.boundedI order_trans)
  have "saturating_sub x 1 \<le> x" by (simp add: word_le_nat_alt unat_saturating_sub)
  then show "max (saturating_sub x 1) lo \<le> hi" using assms by (meson max.boundedI order_trans)
qed

text \<open>
  Whatever the worker's history, the share difficulty the pool assigns is at least the
  configured gap (and at least one bit) easier than the network's difficulty, at most the configured
  maximum, and at least the configured minimum where the gap leaves room for it.
\<close>

theorem share_difficulty_below_network:
  assumes "pc_min_share_difficulty c \<le> pc_max_share_difficulty c" and "1 < network_bits"
  shows "let bits = worker_difficulty c d address worker_name network_bits;
             room = unat network_bits - max (unat (pc_share_network_gap_bits c)) 1 in
    unat bits \<le> room \<and> unat bits < unat network_bits \<and> bits \<le> pc_max_share_difficulty c
    \<and> min (unat (pc_min_share_difficulty c)) room \<le> unat bits"
proof -
  obtain lo hi start where b: "share_difficulty_bounds (pc_min_share_difficulty c) (pc_max_share_difficulty c)
      (pc_share_difficulty c) network_bits (pc_share_network_gap_bits c) = (lo, hi, start)"
    by (cases "share_difficulty_bounds (pc_min_share_difficulty c) (pc_max_share_difficulty c)
      (pc_share_difficulty c) network_bits (pc_share_network_gap_bits c)") auto
  note bounds = share_bounds [OF b assms]
  let ?k = "worker_difficulty c d address worker_name network_bits"
  have c: "lo \<le> clamp x lo hi \<and> clamp x lo hi \<le> hi" for x using bounds(1) clamp_bounds by blast
  have "lo \<le> ?k \<and> ?k \<le> hi"
    using bounds(2,3) c vardiff_step [of lo "clamp x lo hi" hi for x]
    by (auto simp: worker_difficulty_def b Let_def)
  moreover have "unat lo = min (unat (pc_min_share_difficulty c)) (unat network_bits - max (unat (pc_share_network_gap_bits c)) 1)"
    unfolding bounds(6) by (auto simp: min_def max_def word_le_nat_alt unat_saturating_sub)
  ultimately show ?thesis using bounds(4,5) assms(2)
    by (auto simp: Let_def word_le_nat_alt word_less_nat_alt)
qed

section \<open>A recorded share proves work\<close>

lemma on_store_eq: "on_store m s = (fst (m (pa_store s)), s\<lparr>pa_store := snd (m (pa_store s))\<rparr>)"
  by (simp add: on_store_def split: prod.splits)

lemma record_share_cases:
  assumes "record_share io sh s = (res, s')"
  shows "(\<exists>existing. find (\<lambda>i. sh_hash i = sh_hash sh) (pd_shares (ps_data s)) = Some existing
            \<and> res = Ok (existing, True) \<and> s' = s)
    \<or> (find (\<lambda>i. sh_hash i = sh_hash sh) (pd_shares (ps_data s)) = None
        \<and> set (pd_shares (ps_data s')) \<subseteq> insert (sh\<lparr>sh_share_id := saturating_add (pd_next_share_id (ps_data s)) 1\<rparr>) (set (pd_shares (ps_data s)))
        \<and> (0 < ps_max_shares s \<longrightarrow> sh\<lparr>sh_share_id := saturating_add (pd_next_share_id (ps_data s)) 1\<rparr> \<in> set (pd_shares (ps_data s')))
        \<and> ps_max_shares s' = ps_max_shares s
        \<and> (\<forall>r. res = Ok r \<longrightarrow> r = (sh\<lparr>sh_share_id := saturating_add (pd_next_share_id (ps_data s)) 1\<rparr>, False)))"
proof (cases "find (\<lambda>i. sh_hash i = sh_hash sh) (pd_shares (ps_data s))")
  case None
  let ?n = "sh\<lparr>sh_share_id := saturating_add (pd_next_share_id (ps_data s)) 1\<rparr>"
  let ?p = "pd_shares (ps_data s) @ [?n]"
  let ?k = "if length ?p > ps_max_shares s then drop (length ?p - ps_max_shares s) ?p else ?p"
  have "pd_shares (ps_data s') = ?k" "ps_max_shares s' = ps_max_shares s" "\<forall>r. res = Ok r \<longrightarrow> r = (?n, False)"
    using assms None
    by (auto simp: record_share_def Let_def mbind_def mret_def pool_save_def with_data_def mupd_def split: option.splits)
  moreover have "set ?k \<subseteq> insert ?n (set (pd_shares (ps_data s)))"
    by (auto dest: in_set_dropD)
  moreover have "?n \<in> set ?k" if "0 < ps_max_shares s"
    using that by (auto simp: drop_append)
  ultimately show ?thesis using None by auto
qed (use assms in \<open>simp add: record_share_def\<close>)

lemma record_pool_block_frame:
  "pd_shares (ps_data (snd (record_pool_block io h hash reward bps w now s))) = pd_shares (ps_data s)"
  "ps_max_shares (snd (record_pool_block io h hash reward bps w now s)) = ps_max_shares s"
  by (auto simp: record_pool_block_def Let_def mlift_eq pool_save_def split: sum.splits option.splits)

definition share_of ::
  "externals \<Rightarrow> (nat \<Rightarrow> u64) \<Rightarrow> mining_template \<Rightarrow> string \<Rightarrow> string \<Rightarrow> mining_submit_request \<Rightarrow> block \<Rightarrow> u8 \<Rightarrow> share_record" where
  "share_of X t template miner_address worker_name r b bits =
     \<lparr>sh_share_id = 0, sh_job_id = mr_template_id r, sh_miner_address = miner_address,
      sh_worker_name = worker_name, sh_nonce = mr_nonce r, sh_hash = hash_to_hex (block_pow_hash X b), sh_share_bits = bits,
      sh_network_bits = mt_difficulty template, sh_accepted_at = t 2,
      sh_block_candidate = check_pow (block_pow_hash X b) (mt_difficulty template)\<rparr>"

lemma book_share_effect:
  assumes "book_share X c io t up template a w r b bits s = (res, s')"
    and "record_share (io 0) (share_of X t template a w r b bits) (pa_store s) = (r0, st0)"
  shows "pd_shares (ps_data (pa_store s')) = pd_shares (ps_data st0)"
    and "ps_max_shares (pa_store s') = ps_max_shares st0" and "pa_jobs s' = pa_jobs s"
    and "pa_forwarded s' = pa_forwarded s \<or> (\<exists>n. r0 = Ok (n, False))"
    and "\<forall>n. r0 = Ok (n, True) \<longrightarrow> res = Ok (pending_response r (sh_hash n) ''share already recorded (duplicate hash ignored)'')
           \<and> s' = s\<lparr>pa_store := st0\<rparr>"
proof -
  let ?k = "\<lambda>(recorded, duplicate). if duplicate
     then mret (pending_response r (sh_hash recorded) ''share already recorded (duplicate hash ignored)'')
     else if \<not> check_pow (block_pow_hash X b) (mt_difficulty template)
     then mret (pending_response r (hash_to_hex (block_pow_hash X b)) ''share accepted by pool'')
     else
       let request = from_solution (mr_template_id r) (mr_nonce r) (block_pow_hash X b) (bh_mix_hash (b_header b)) in
       mbind (mupd (\<lambda>s. s\<lparr>pa_forwarded := pa_forwarded s @ [request]\<rparr>)) (\<lambda>_.
       mbind (mlift (\<lambda>_. up request)) (\<lambda>answer.
       if ms_status answer = SubmitAccepted
       then
         let reward = (case mt_transactions template of [] \<Rightarrow> 0 | tx # _ \<Rightarrow> tx_amount tx) in
         mbind (on_store (record_pool_block (io 1)
             (case ms_height answer of Some h \<Rightarrow> h | None \<Rightarrow> mt_height template)
             (ms_block_hash answer) reward (pc_pool_fee_basis_points c) (pc_pplns_window_shares c) (t 3))) (\<lambda>_.
         mbind (mupd (\<lambda>s. s\<lparr>pa_current_job := None\<rparr>)) (\<lambda>_.
         mret answer))
       else mret answer))"
  have eq: "book_share X c io t up template a w r b bits s
      = (case r0 of Inl e \<Rightarrow> (Inl e, s\<lparr>pa_store := st0\<rparr>) | Inr x \<Rightarrow> ?k x (s\<lparr>pa_store := st0\<rparr>))"
    using assms(2) by (simp add: book_share_def Let_def share_of_def mbind_def on_store_eq split: sum.splits)
  have "pd_shares (ps_data (pa_store s')) = pd_shares (ps_data st0) \<and> ps_max_shares (pa_store s') = ps_max_shares st0
    \<and> pa_jobs s' = pa_jobs s \<and> (pa_forwarded s' = pa_forwarded s \<or> (\<exists>n. r0 = Ok (n, False)))"
  proof (cases r0)
    case (Inl e)
    then show ?thesis using assms(1) eq by auto
  next
    case (Inr x)
    then show ?thesis using assms(1) unfolding eq
      by (cases x) (auto simp: mret_def mbind_def mupd_def mlift_def Let_def on_store_eq record_pool_block_frame
          split: if_splits sum.splits prod.splits)
  qed
  then show "pd_shares (ps_data (pa_store s')) = pd_shares (ps_data st0)"
    "ps_max_shares (pa_store s') = ps_max_shares st0" "pa_jobs s' = pa_jobs s"
    "pa_forwarded s' = pa_forwarded s \<or> (\<exists>n. r0 = Ok (n, False))" by blast+
  show "\<forall>n. r0 = Ok (n, True) \<longrightarrow> res = Ok (pending_response r (sh_hash n) ''share already recorded (duplicate hash ignored)'')
           \<and> s' = s\<lparr>pa_store := st0\<rparr>"
    using assms(1) eq by (auto simp: mret_def)
qed

text \<open>What the worker has been issued for a job, and the job after an automatic issue.\<close>

definition issued_to :: "string \<Rightarrow> pool_job \<Rightarrow> u8 list" where
  "issued_to identity job = (case map_of (pj_worker_difficulties job) identity of Some l \<Rightarrow> l | None \<Rightarrow> [])"

definition ensured_job :: "pool_config \<Rightarrow> pool_app \<Rightarrow> string \<Rightarrow> string \<Rightarrow> pool_job \<Rightarrow> pool_job" where
  "ensured_job c s a w job =
     (if issued_to (worker_identity a w) job = []
      then issue_difficulty (worker_identity a w)
             (worker_difficulty c (pool_snapshot (pa_store s)) a w (mt_difficulty (pj_template job))) job
      else job)"

definition ensured_app :: "pool_config \<Rightarrow> pool_app \<Rightarrow> string \<Rightarrow> string \<Rightarrow> string \<Rightarrow> pool_job \<Rightarrow> pool_app" where
  "ensured_app c s a w jid job =
     (if issued_to (worker_identity a w) job = []
      then s\<lparr>pa_jobs := map_insert jid (ensured_job c s a w job) (pa_jobs s)\<rparr> else s)"

lemma ensured_job_props:
  "pj_template (ensured_job c s a w job) = pj_template job"
  "issued_to (worker_identity a w) (ensured_job c s a w job) \<noteq> []"
  by (auto simp: ensured_job_def issue_difficulty_def issued_to_def Let_def)

lemma ensured_issued:
  "k \<in> set (issued_to (worker_identity a w) (ensured_job c s a w job)) \<Longrightarrow>
     k \<in> set (issued_to (worker_identity a w) job)
     \<or> k = worker_difficulty c (ps_data (pa_store s)) a w (mt_difficulty (pj_template job))"
  by (auto simp: ensured_job_def issue_difficulty_def issued_to_def Let_def pool_snapshot_def split: if_splits)

lemma ensured_again: "ensured_job c s' a w (ensured_job c s a w job) = ensured_job c s a w job"
  using ensured_job_props(2) [of a w c s job] by (simp add: ensured_job_def [of c s' a w])

lemma ensured_app_frame:
  "pa_store (ensured_app c s a w jid job) = pa_store s"
  "pa_forwarded (ensured_app c s a w jid job) = pa_forwarded s"
  "map_of (pa_jobs s) jid = Some job \<Longrightarrow> map_of (pa_jobs (ensured_app c s a w jid job)) jid = Some (ensured_job c s a w job)"
  by (auto simp: ensured_app_def ensured_job_def)

lemma process_share_eq:
  assumes "mr_protocol r = MINING_PROTOCOL_VERSION" and "validate_identity X c a w = Ok ()"
    and "map_of (pa_jobs s) (mr_template_id r) = Some job" and "t 0 < mt_expires_at (pj_template job)"
  shows "process_share X c io t up r a w s =
    (case check_share X c (t 1) (pj_template job) (issued_to (worker_identity a w) (ensured_job c s a w job)) r of
       Inl e \<Rightarrow> (Err e, ensured_app c s a w (mr_template_id r) job)
     | Inr (b, bits) \<Rightarrow> book_share X c io t up (pj_template job) a w r b bits (ensured_app c s a w (mr_template_id r) job))"
proof -
  let ?i = "worker_identity a w"
  have reg: "(case map_of (pj_worker_difficulties job) ?i of None \<Rightarrow> [] | Some l \<Rightarrow> l) = issued_to ?i job"
    by (simp add: issued_to_def split: option.splits)
  have iss: "(case map_of (pj_worker_difficulties (ensured_job c s a w job)) ?i of None \<Rightarrow> [] | Some l \<Rightarrow> l)
      = issued_to ?i (ensured_job c s a w job)"
    by (simp add: issued_to_def split: option.splits)
  have ne: "issued_to ?i (ensured_job c s a w job) \<noteq> []" by (rule ensured_job_props(2))
  have job: "(if issued_to ?i job = [] then issue_difficulty ?i
      (worker_difficulty c (pool_snapshot (pa_store s)) a w (mt_difficulty (pj_template job))) job else job) = ensured_job c s a w job"
    by (simp add: ensured_job_def)
  have g: "\<not> mt_expires_at (pj_template job) \<le> t 0" using assms(4) by simp
  show ?thesis
    unfolding process_share_def Let_def
    by (simp add: assms(1-3) g reg job iss ne mbind_def [of "mupd _"] mupd_def mlift_eq split: sum.splits prod.splits)
      (auto simp: ensured_app_def ensured_job_def)
qed

lemma process_share_else:
  assumes "\<not> (mr_protocol r = MINING_PROTOCOL_VERSION \<and> validate_identity X c a w = Ok ()
      \<and> (\<exists>job. map_of (pa_jobs s) (mr_template_id r) = Some job \<and> t 0 < mt_expires_at (pj_template job)))"
  shows "snd (process_share X c io t up r a w s) = s"
  using assms
  by (auto simp: process_share_def Let_def reject_if_def rbind_Ok split: sum.splits option.splits if_splits)

lemma check_share_Ok:
  assumes "check_share X c now template issued r = Ok (b, bits)"
  shows "share_block X c now template r = Ok b" and "hash_to_hex (block_pow_hash X b) = map ascii_lower (mr_block_hash r)"
    and "bits \<in> set issued" and "check_pow (block_pow_hash X b) bits"
proof -
  from assms have b: "share_block X c now template r = Ok b" "best_bits (block_pow_hash X b) issued = Ok bits"
    "hash_to_hex (block_pow_hash X b) = map ascii_lower (mr_block_hash r)"
    by (auto simp: check_share_def Let_def rbind_Ok)
  from b(2) obtain x xs where x: "filter (check_pow (block_pow_hash X b)) issued = x # xs" "bits = fold max xs x"
    by (auto simp: best_bits_def split: list.splits)
  have "fold max xs x \<in> set (x # xs)" for x :: u8 and xs
  proof (induction xs arbitrary: x)
    case (Cons y ys)
    from Cons [of "max y x"] show ?case by (auto simp: max_def split: if_splits)
  qed simp
  then have "bits \<in> set (filter (check_pow (block_pow_hash X b)) issued)" using x by simp
  with b show "share_block X c now template r = Ok b" "hash_to_hex (block_pow_hash X b) = map ascii_lower (mr_block_hash r)"
    "bits \<in> set issued" "check_pow (block_pow_hash X b) bits" by auto
qed

text \<open>
  C11: A share enters the pool's books only with proof. If processing a submission adds a share,
  then the submission names a job of the pool that has not expired, the share's hash is the
  FiroPoW hash of that job's block with the submitted nonce, equals the hash the miner claimed, was not
  recorded before and meets the difficulty the share is credited with; and that difficulty was
  issued to this worker for this job or is the one assigned to the worker now.
\<close>

theorem recorded_share_proves_work:
  assumes "process_share X c io t upstream r a w s = (res, s')"
    and "sh \<in> set (pd_shares (ps_data (pa_store s')))" and "sh \<notin> set (pd_shares (ps_data (pa_store s)))"
  shows "\<exists>job b. map_of (pa_jobs s) (mr_template_id r) = Some job \<and> t 0 < mt_expires_at (pj_template job)
    \<and> share_block X c (t 1) (pj_template job) r = Ok b
    \<and> sh_hash sh = hash_to_hex (block_pow_hash X b) \<and> sh_hash sh = map ascii_lower (mr_block_hash r)
    \<and> sh_hash sh \<notin> sh_hash ` set (pd_shares (ps_data (pa_store s)))
    \<and> check_pow (block_pow_hash X b) (sh_share_bits sh)
    \<and> (sh_share_bits sh \<in> set (issued_to (worker_identity a w) job)
       \<or> sh_share_bits sh = worker_difficulty c (ps_data (pa_store s)) a w (mt_difficulty (pj_template job)))
    \<and> sh_miner_address sh = a \<and> sh_worker_name sh = w \<and> validate_identity X c a w = Ok ()"
proof -
  have "snd (process_share X c io t upstream r a w s) \<noteq> s" using assms by auto
  then obtain job where g: "mr_protocol r = MINING_PROTOCOL_VERSION" "validate_identity X c a w = Ok ()"
    "map_of (pa_jobs s) (mr_template_id r) = Some job" "t 0 < mt_expires_at (pj_template job)"
    using process_share_else by blast
  let ?issued = "issued_to (worker_identity a w) (ensured_job c s a w job)"
  let ?s0 = "ensured_app c s a w (mr_template_id r) job"
  note eq = process_share_eq [where t = t, OF g, of io upstream]
  obtain b bits where c: "check_share X c (t 1) (pj_template job) ?issued r = Ok (b, bits)"
    using assms eq ensured_app_frame(1) [of c s a w "mr_template_id r" job] by (auto split: sum.splits)
  let ?n = "share_of X t (pj_template job) a w r b bits"
  have book: "book_share X c io t upstream (pj_template job) a w r b bits ?s0 = (res, s')"
    using assms(1) eq c by simp
  obtain r0 st0 where rec: "record_share (io 0) ?n (pa_store ?s0) = (r0, st0)" by fastforce
  have "sh \<in> set (pd_shares (ps_data st0))"
    using assms(2) book_share_effect(1) [OF book rec] by simp
  with record_share_cases [OF rec] assms(3)
  have sh: "sh = ?n\<lparr>sh_share_id := saturating_add (pd_next_share_id (ps_data (pa_store s))) 1\<rparr>"
    and new: "find (\<lambda>i. sh_hash i = sh_hash ?n) (pd_shares (ps_data (pa_store s))) = None"
    by (auto simp: ensured_app_frame(1))
  have "sh_hash sh = hash_to_hex (block_pow_hash X b)" "sh_share_bits sh = bits" "sh_miner_address sh = a"
    "sh_worker_name sh = w" "sh_hash ?n = sh_hash sh"
    by (simp_all add: sh share_of_def)
  moreover have "sh_hash sh \<notin> sh_hash ` set (pd_shares (ps_data (pa_store s)))"
    using new by (auto simp: sh find_None_iff)
  ultimately show ?thesis using g check_share_Ok [OF c] ensured_issued
    by (intro exI [of _ job] exI [of _ b]) metis
qed

lemma check_share_clock:
  assumes "check_share X c now template issued r = Ok (b, bits)" and "now' < mt_expires_at template"
  shows "check_share X c now' template issued r = Ok (b, bits)"
proof -
  have "now < mt_expires_at template"
    using check_share_Ok(1) [OF assms(1)] validate_and_build_Ok by (auto simp: share_block_def rbind_Ok)
  then have "validate_and_build X now' (pc_pool_address c) template = validate_and_build X now (pc_pool_address c) template"
    using assms(2) by (simp add: validate_and_build_def not_le [symmetric] cong del: rbind_weak_cong)
  with assms(1) show ?thesis by (simp add: check_share_def share_block_def)
qed


section \<open>Admission guards the pool\<close>

lemma admit_key_clients:
  "client_of (ad_clients (snd (admit_key c kind now k a))) key
     = (if key = k \<and> ca_banned_until (client_of (ad_clients a) k) \<le> now
        then count_request kind (open_window now (client_of (ad_clients a) k))
        else client_of (ad_clients a) key)"
  by (auto simp: admit_key_def Let_def client_of_def rate_limited_def not_le)

lemma banned_kept:
  "ca_banned_until (client_of (ad_clients (snd (admit_key c kind now k a))) key) = ca_banned_until (client_of (ad_clients a) key)"
  by (simp add: admit_key_clients count_request_def open_window_def split: request_kind.split)

definition within_limits :: "pool_config \<Rightarrow> request_kind \<Rightarrow> u64 \<Rightarrow> client_admission \<Rightarrow> bool" where
  "within_limits c kind now e \<longleftrightarrow> \<not> exceeds_limit c kind e \<and> saturating_sub now (ca_window_started_at e) < 60"

lemma admit_key_Ok:
  assumes "admit_key c kind now k a = (Ok (), a')"
  shows "ca_banned_until (client_of (ad_clients a) k) \<le> now" "within_limits c kind now (client_of (ad_clients a') k)"
proof -
  from assms show b: "ca_banned_until (client_of (ad_clients a) k) \<le> now"
    by (auto simp: admit_key_def Let_def split: if_splits)
  have e: "client_of (ad_clients a') k = count_request kind (open_window now (client_of (ad_clients a) k))"
    using admit_key_clients [of c kind now k a k] assms b by simp
  have "saturating_sub now (ca_window_started_at (open_window now x)) < 60" for x
    by (auto simp: open_window_def saturating_sub_def not_le)
  moreover have "ca_window_started_at (count_request kind x) = ca_window_started_at x" for x
    by (simp add: count_request_def split: request_kind.split)
  moreover have "\<not> exceeds_limit c kind (client_of (ad_clients a') k)"
    using assms b by (auto simp: e admit_key_def Let_def split: if_splits)
  ultimately show "within_limits c kind now (client_of (ad_clients a') k)" by (simp add: within_limits_def e)
qed

lemma admit_keys_Ok:
  assumes "mfold (\<lambda>_ key. admit_key c kind now key) () keys a = (Ok (), a')"
  shows "\<forall>key\<in>set keys. ca_banned_until (client_of (ad_clients a) key) \<le> now \<and> within_limits c kind now (client_of (ad_clients a') key)"
    and "\<forall>key. key \<notin> set keys \<longrightarrow> client_of (ad_clients a') key = client_of (ad_clients a) key"
    and "ad_workers a' = ad_workers a"
proof -
  have "(\<forall>key\<in>set keys. ca_banned_until (client_of (ad_clients a) key) \<le> now \<and> within_limits c kind now (client_of (ad_clients a') key))
    \<and> (\<forall>key. key \<notin> set keys \<longrightarrow> client_of (ad_clients a') key = client_of (ad_clients a) key) \<and> ad_workers a' = ad_workers a"
    using assms
  proof (induction keys arbitrary: a)
    case (Cons k keys)
    then obtain a1 where k: "admit_key c kind now k a = (Ok (), a1)"
      and rest: "mfold (\<lambda>_ key. admit_key c kind now key) () keys a1 = (Ok (), a')"
      by (auto simp: mbind_Ok)
    note IH = Cons.IH [OF rest]
    have other: "client_of (ad_clients a1) key = client_of (ad_clients a) key" if "key \<noteq> k" for key
      using admit_key_clients [of c kind now k a key] that k by simp
    have ban: "ca_banned_until (client_of (ad_clients a1) key) = ca_banned_until (client_of (ad_clients a) key)" for key
      using banned_kept [of c kind now k a key] k by simp
    have "ad_workers a1 = ad_workers a" using k by (auto simp: admit_key_def Let_def split: if_splits)
    then show ?case using IH other ban admit_key_Ok [OF k] by (metis insert_iff list.set(2))
  qed (simp add: mret_Ok)
  then show "\<forall>key\<in>set keys. ca_banned_until (client_of (ad_clients a) key) \<le> now \<and> within_limits c kind now (client_of (ad_clients a') key)"
    "\<forall>key. key \<notin> set keys \<longrightarrow> client_of (ad_clients a') key = client_of (ad_clients a) key" "ad_workers a' = ad_workers a"
    by blast+
qed

text \<open>
  C26: A submission reaches the pool only when it is admitted. If a submission changes the store, the
  jobs or the posts to the node, then it names a miner and a worker, neither the worker nor
  its address was banned at that time, and after counting this request both are within the
  number of share requests allowed in the current window of sixty seconds.
\<close>

theorem admission_guards_pool:
  assumes "submit_share X c io t upstream ip r s = (res, s')"
    and "pa_store s' \<noteq> pa_store s \<or> pa_jobs s' \<noteq> pa_jobs s \<or> pa_forwarded s' \<noteq> pa_forwarded s"
  shows "\<exists>a w adm. mr_miner_address r = Some a \<and> mr_worker_name r = Some w
    \<and> admit_request c (admission_keys ip a w) Share None (t 4) (pa_admission s) = (Ok (), adm)
    \<and> (\<forall>key\<in>set (admission_keys ip a w).
         ca_banned_until (client_of (ad_clients (pa_admission s)) key) \<le> t 4
         \<and> ca_share_requests (client_of (ad_clients adm) key) \<le> pc_max_share_requests_per_minute c
         \<and> saturating_sub (t 4) (ca_window_started_at (client_of (ad_clients adm) key)) < 60)"
proof -
  from assms obtain a w where aw: "mr_miner_address r = Some a" "mr_worker_name r = Some w"
    by (cases "mr_miner_address r"; cases "mr_worker_name r") (auto simp: submit_share_def mlift_eq)
  obtain ares adm where adm: "admit_request c (admission_keys ip a w) Share None (t 4) (pa_admission s) = (ares, adm)" by fastforce
  have "ares = Ok ()"
  proof (cases ares)
    case (Inl e)
    then show ?thesis using assms adm
      by (auto simp: submit_share_def mlift_eq aw Let_def mbind_def [of "on_admission _"] on_admission_def)
  qed simp
  with adm have ok: "admit_request c (admission_keys ip a w) Share None (t 4) (pa_admission s) = (Ok (), adm)" by simp
  then have "mfold (\<lambda>_ key. admit_key c Share (t 4) key) () (admission_keys ip a w) (pa_admission s) = (Ok (), adm)"
    by (simp add: admit_request_def mbind_Ok mret_Ok)
  from admit_keys_Ok(1) [OF this] have "\<forall>key\<in>set (admission_keys ip a w).
         ca_banned_until (client_of (ad_clients (pa_admission s)) key) \<le> t 4
         \<and> ca_share_requests (client_of (ad_clients adm) key) \<le> pc_max_share_requests_per_minute c
         \<and> saturating_sub (t 4) (ca_window_started_at (client_of (ad_clients adm) key)) < 60"
    by (simp add: within_limits_def exceeds_limit_def not_less)
  then show ?thesis using aw ok by blast
qed

section \<open>Confirmed payouts\<close>

definition paid_to :: "(string \<Rightarrow> payout_tx pool_result) \<Rightarrow> string list \<Rightarrow> string \<Rightarrow> nat" where
  "paid_to lookup hashes a = sum_list (map (\<lambda>h. case payout_transfer lookup h of
     Inr (recipient, amount) \<Rightarrow> (if recipient = a then unat amount else 0) | Inl _ \<Rightarrow> 0) hashes)"

abbreviation covered_for :: "(string, u64) btree_map \<Rightarrow> string \<Rightarrow> u64" where
  "covered_for m a \<equiv> (case map_of m a of Some x \<Rightarrow> x | None \<Rightarrow> 0)"

lemma cover_bound:
  assumes "try_fold (cover lookup) m hashes = Ok m'"
  shows "unat (covered_for m' a) \<le> unat (covered_for m a) + paid_to lookup hashes a"
  using assms
proof (induction hashes arbitrary: m)
  case (Cons h hs)
  then obtain m1 where m1: "cover lookup m h = Ok m1" "try_fold (cover lookup) m1 hs = Ok m'" by (auto simp: rbind_Ok)
  obtain to amount where p: "payout_transfer lookup h = Ok (to, amount)"
    "m1 = map_insert to (saturating_add (covered_for m to) amount) m"
    using m1(1) by (auto simp: cover_def rbind_Ok)
  have "unat (covered_for m1 a) \<le> unat (covered_for m a) + (if to = a then unat amount else 0)"
    by (auto simp: p(2) unat_saturating_add)
  with Cons.IH [OF m1(2)] show ?case by (simp add: paid_to_def p(1))
qed (simp add: paid_to_def)

text \<open>
  C25: A payout is marked as paid only by the administrator and only against transfers the node
  reports: if the confirmation succeeds, the token matched, the batch was prepared under this id,
  and for every item the reported amounts of the listed transactions to that address add up to at
  least the item (a transaction listed twice is added twice).
\<close>

theorem confirmed_payout_covered:
  assumes "confirm_payout_handler admin_token authorization lookup io payout_id hashes s = (Ok result, s')"
  shows "\<exists>batch expected. batch \<in> set (pd_payouts (ps_data (pa_store s))) \<and> po_payout_id batch = payout_id
    \<and> po_status batch = Prepared \<and> admin_token = Some expected \<and> authorization = Some (''Bearer '' @ trim expected)
    \<and> hashes \<noteq> [] \<and> (\<forall>item\<in>set (po_items batch). unat (pi_amount item) \<le> paid_to lookup hashes (pi_address item))"
proof -
  from assms obtain batch where b: "require_admin admin_token authorization = Ok ()"
    "find (\<lambda>p. po_payout_id p = payout_id \<and> po_status p = Prepared) (pd_payouts (ps_data (pa_store s))) = Some batch"
    "verify_payout_txs_on_chain lookup batch hashes = Ok ()"
    by (auto simp: confirm_payout_handler_def mlift_eq pool_snapshot_def split: sum.splits)
  from b(1) obtain expected v where tok: "admin_token = Some expected" "authorization = Some v" "take 7 v = ''Bearer ''" "drop 7 v = trim expected"
    by (auto simp: require_admin_def rbind_Ok split: if_splits option.splits bind_splits)
  then have "authorization = Some (''Bearer '' @ trim expected)" by (metis append_take_drop_id)
  moreover from b(3) obtain m where m: "hashes \<noteq> []" "try_fold (cover lookup) [] hashes = Ok m"
    "\<forall>item\<in>set (po_items batch). pi_amount item \<le> covered_for m (pi_address item)"
    by (auto simp: verify_payout_txs_on_chain_def rbind_Ok try_each_Ok Let_def not_less)
  have "unat (pi_amount item) \<le> paid_to lookup hashes (pi_address item)" if "item \<in> set (po_items batch)" for item
    using m(3) that cover_bound [OF m(2), of "pi_address item"] by (auto simp: word_le_nat_alt)
  moreover have "batch \<in> set (pd_payouts (ps_data (pa_store s)))" "po_payout_id batch = payout_id" "po_status batch = Prepared"
    using b(2) by (auto simp: find_Some_iff)
  ultimately show ?thesis using tok(1) m(1) by blast
qed

section \<open>A sample pool\<close>

definition sample_pool_config :: pool_config where
  "sample_pool_config = \<lparr>pc_bind_host = ''127.0.0.1'', pc_network_id = network_id Devnet, pc_status_label = [],
     pc_pool_name = ''pool'', pc_pool_address = sample_address 3, pc_upstream_rpc_url = ''http://127.0.0.1'',
     pc_public_url = [], pc_share_difficulty = 4, pc_vardiff_enabled = False, pc_min_share_difficulty = 2,
     pc_max_share_difficulty = 28, pc_target_share_seconds = 15, pc_vardiff_window_shares = 16,
     pc_share_network_gap_bits = 4, pc_pool_fee_basis_points = 100, pc_pplns_window_shares = 10,
     pc_block_maturity_confirmations = 10, pc_minimum_payout_atomic = 1, pc_job_cache_seconds = 15,
     pc_hashrate_window_seconds = 60, pc_worker_timeout_seconds = 120, pc_max_stored_shares = 100,
     pc_max_workers_per_address = 4, pc_max_work_requests_per_minute = 60, pc_max_share_requests_per_minute = 60,
     pc_invalid_share_ban_threshold = 5, pc_ban_seconds = 600, pc_allow_public_pool_prototype = False\<rparr>"

definition sample_work_template :: mining_template where
  "sample_work_template = \<lparr>mt_protocol = MINING_PROTOCOL_VERSION, mt_template_id = ''t1'', mt_expires_at = 100,
     mt_version = 1, mt_network_id = network_id Devnet, mt_height = 1, mt_previous_hash = hash_to_hex hash_zero,
     mt_merkle_root = hash_to_hex (tx_hash sample_externals (sample_reward 1 3 5)), mt_base_fee_atomic = 1,
     mt_timestamp = 61, mt_difficulty = 8, mt_share_difficulty = None, mt_nonce_start = 0,
     mt_transactions = [sample_reward 1 3 5]\<rparr>"

definition sample_app :: pool_app where
  "sample_app = (pool_app_new (fresh_store 10))\<lparr>
     pa_jobs := [(''t1'', \<lparr>pj_template = sample_work_template, pj_fetched_at = 0, pj_worker_difficulties = []\<rparr>)],
     pa_current_job := Some ''t1''\<rparr>"

definition sample_submission :: mining_submit_request where
  "sample_submission = pool_request (sample_address 1) ''rig''
     \<lparr>mr_protocol = MINING_PROTOCOL_VERSION, mr_template_id = ''t1'', mr_nonce = 0,
      mr_block_hash = hash_to_hex hash_zero, mr_mix_hash = [], mr_miner_address = None, mr_worker_name = None\<rparr>"

lemma sample_identity: "validate_identity sample_externals sample_pool_config (sample_address 1) ''rig'' = Ok ()"
  by (simp add: validate_identity_def sample_address_parse sample_pool_config_def address_from_public_key_def is_worker_char_def)

lemma sample_difficulty: "worker_difficulty sample_pool_config d a w 8 = 4"
proof -
  have "share_difficulty_bounds 2 28 4 8 4 = (2, 4, 4)" by code_simp
  then show ?thesis by (simp add: worker_difficulty_def sample_pool_config_def)
qed

lemma zero_pow: "check_pow hash_zero 4" "check_pow hash_zero 8"
  by code_simp+

lemma sample_hex:
  "hash_from_hex (hash_to_hex hash_zero) = Ok hash_zero"
  "hash_from_hex (hash_to_hex (tx_hash sample_externals (sample_reward 1 3 5))) = Ok (tx_hash sample_externals (sample_reward 1 3 5))"
  "map ascii_lower (hash_to_hex hash_zero) = hash_to_hex hash_zero"
  by (rule zero_hash_hex sample_tx_hash_hex hash_hex_lower)+


lemma sample_share_checked:
  assumes "now < 100"
  shows "\<exists>b. check_share sample_externals sample_pool_config now sample_work_template [4] sample_submission = Ok (b, 4)
    \<and> block_pow_hash sample_externals b = hash_zero"
proof -
  note t = sample_work_template_def
  have f: "mt_protocol sample_work_template = MINING_PROTOCOL_VERSION" "trim (mt_template_id sample_work_template) \<noteq> []"
    "\<not> mt_expires_at sample_work_template \<le> now" "from_network_id (mt_network_id sample_work_template) = Some Devnet"
    "mt_transactions sample_work_template = [sample_reward 1 3 5]" "mt_previous_hash sample_work_template = hash_to_hex hash_zero"
    "mt_merkle_root sample_work_template = hash_to_hex (tx_hash sample_externals (sample_reward 1 3 5))"
    using assms by (simp_all add: t trim_def is_ws_def from_network_id_def)
  have c: "is_coinbase (sample_reward 1 3 5)" "tx_to (sample_reward 1 3 5) = sample_address 3"
    by (simp_all add: is_coinbase_def sample_reward_def sample_coinbase_def)
  have "compute_merkle_root sample_externals [sample_reward 1 3 5] = Ok (tx_hash sample_externals (sample_reward 1 3 5))"
    by (simp add: compute_merkle_root_def merkle_loop.simps)
  then obtain b where b: "validate_and_build sample_externals now (sample_address 3) sample_work_template = Ok b"
    by (simp add: validate_and_build_def f c sample_address_parse address_from_public_key_def parse_hash_def sample_hex
        recompute_merkle_root_def Let_def)
  let ?b = "b\<lparr>b_header := (b_header b)\<lparr>bh_nonce := 0\<rparr>\<rparr>"
  have z: "block_pow_hash sample_externals ?b = hash_zero"
    using sample_block_hash [of ?b] by (simp add: block_hash_def)
  have "share_block sample_externals sample_pool_config now sample_work_template sample_submission = Ok ?b"
    using b by (simp add: share_block_def sample_pool_config_def sample_submission_def pool_request_def trim_def)
  moreover have "best_bits hash_zero [4] = Ok 4" by (simp add: best_bits_def zero_pow)
  ultimately show ?thesis using z
    by (intro exI [of _ ?b]) (simp add: check_share_def, simp add: sample_submission_def pool_request_def sample_hex)
qed

lemma sample_forwarded:
  "\<exists>s' sh. process_share sample_externals sample_pool_config (\<lambda>_. None) (\<lambda>_. 10) (\<lambda>_. Err (UpstreamError ''timeout''))
      sample_submission (sample_address 1) ''rig'' (sample_app\<lparr>pa_admission := adm\<rparr>) = (Err (UpstreamError ''timeout''), s')
    \<and> length (pa_forwarded s') = 1 \<and> pd_shares (ps_data (pa_store s')) = [sh]"
proof -
  let ?job = "\<lparr>pj_template = sample_work_template, pj_fetched_at = 0, pj_worker_difficulties = []\<rparr>"
  let ?s = "sample_app\<lparr>pa_admission := adm\<rparr>" and ?i = "worker_identity (sample_address 1) ''rig''"
  let ?a = "sample_address 1"
  have j: "map_of (pa_jobs ?s) (mr_template_id sample_submission) = Some ?job" "mr_protocol sample_submission = MINING_PROTOCOL_VERSION"
    by (simp_all add: sample_app_def sample_submission_def pool_request_def)
  have d: "mt_difficulty sample_work_template = 8" "mt_expires_at sample_work_template = 100"
    by (simp_all add: sample_work_template_def)
  have iss: "issued_to ?i (ensured_job sample_pool_config ?s ?a ''rig'' ?job) = [4]"
    by (simp add: ensured_job_def issued_to_def issue_difficulty_def d sample_difficulty)
  obtain b where b: "check_share sample_externals sample_pool_config 10 sample_work_template [4] sample_submission = Ok (b, 4)"
    "block_pow_hash sample_externals b = hash_zero"
    using sample_share_checked [of 10] by auto
  have st: "pa_store (ensured_app sample_pool_config ?s ?a ''rig'' (mr_template_id sample_submission) ?job) = fresh_store 10"
    "pa_forwarded (ensured_app sample_pool_config ?s ?a ''rig'' (mr_template_id sample_submission) ?job) = []"
    by (simp_all add: ensured_app_frame) (simp_all add: sample_app_def pool_app_new_def)
  let ?app = "ensured_app sample_pool_config ?s ?a ''rig'' (mr_template_id sample_submission) ?job"
  let ?sh = "share_of sample_externals (\<lambda>_. 10) sample_work_template ?a ''rig'' sample_submission b 4"
  obtain n st0 where r: "record_share None ?sh (fresh_store 10) = (Ok (n, False), st0)" "pd_shares (ps_data st0) = [n]"
    by (simp add: record_share_def fresh_store_def pool_data_default_def Let_def mbind_def mret_def
        with_data_def mupd_def pool_save_def)
  obtain res s' where bk: "book_share sample_externals sample_pool_config (\<lambda>_. None) (\<lambda>_. 10) (\<lambda>_. Err (UpstreamError ''timeout''))
      sample_work_template ?a ''rig'' sample_submission b 4 ?app = (res, s')" by fastforce
  then have "res = Err (UpstreamError ''timeout'')" "length (pa_forwarded s') = 1"
    using r(1) st by (auto simp: book_share_def Let_def share_of_def b(2) d zero_pow mbind_def on_store_eq mupd_def mlift_def)
  moreover have "pd_shares (ps_data (pa_store s')) = [n]"
    using book_share_effect(1) [OF bk, of "Ok (n, False)" st0] r st by simp
  moreover have "process_share sample_externals sample_pool_config (\<lambda>_. None) (\<lambda>_. 10) (\<lambda>_. Err (UpstreamError ''timeout''))
      sample_submission ?a ''rig'' ?s = (res, s')"
    using process_share_eq [where t = "\<lambda>_. 10", OF j(2) sample_identity j(1), of "\<lambda>_. None" "\<lambda>_. Err (UpstreamError ''timeout'')"] bk
    by (simp add: d iss b(1))
  ultimately show ?thesis by blast
qed

theorem share_difficulty_below_network_witness:
  "let bits = worker_difficulty sample_pool_config (ps_data (fresh_store 10)) ''a'' ''rig'' 8 in
     unat bits \<le> 4 \<and> unat bits < 8"
proof -
  have "pc_min_share_difficulty sample_pool_config \<le> pc_max_share_difficulty sample_pool_config"
    "pc_share_network_gap_bits sample_pool_config = 4" by (simp_all add: sample_pool_config_def)
  with share_difficulty_below_network [of sample_pool_config 8 "ps_data (fresh_store 10)" "''a''" "''rig''"]
  show ?thesis by (simp add: Let_def)
qed

theorem recorded_share_proves_work_witness:
  "\<exists>res s' sh b. process_share sample_externals sample_pool_config (\<lambda>_. None) (\<lambda>_. 10) (\<lambda>_. Err (UpstreamError ''timeout''))
      sample_submission (sample_address 1) ''rig'' sample_app = (res, s')
    \<and> sh \<in> set (pd_shares (ps_data (pa_store s'))) \<and> sh_hash sh = hash_to_hex (block_pow_hash sample_externals b)
    \<and> check_pow (block_pow_hash sample_externals b) (sh_share_bits sh)"
proof -
  obtain s' sh where p: "process_share sample_externals sample_pool_config (\<lambda>_. None) (\<lambda>_. 10) (\<lambda>_. Err (UpstreamError ''timeout''))
      sample_submission (sample_address 1) ''rig'' sample_app = (Err (UpstreamError ''timeout''), s')"
    "pd_shares (ps_data (pa_store s')) = [sh]"
    using sample_forwarded [of "pa_admission sample_app"] by auto
  have "pd_shares (ps_data (pa_store sample_app)) = []"
    by (simp add: sample_app_def pool_app_new_def fresh_store_def pool_data_default_def)
  with recorded_share_proves_work [OF p(1), of sh] p show ?thesis by auto
qed


theorem admission_guards_pool_witness:
  "\<exists>res s' adm. submit_share sample_externals sample_pool_config (\<lambda>_. None) (\<lambda>_. 10) (\<lambda>_. Err (UpstreamError ''timeout'')) None
      sample_submission sample_app = (res, s') \<and> length (pa_forwarded s') = 1
    \<and> admit_request sample_pool_config (admission_keys None (sample_address 1) ''rig'') Share None 10 (pa_admission sample_app) = (Ok (), adm)
    \<and> (\<forall>key\<in>set (admission_keys None (sample_address 1) ''rig'').
         ca_share_requests (client_of (ad_clients adm) key) \<le> pc_max_share_requests_per_minute sample_pool_config)"
proof -
  let ?keys = "admission_keys None (sample_address 1) ''rig''"
  have r: "mr_miner_address sample_submission = Some (sample_address 1)" "mr_worker_name sample_submission = Some ''rig''"
    by (simp_all add: sample_submission_def pool_request_def)
  obtain adm where adm: "admit_request sample_pool_config ?keys Share None 10 (pa_admission sample_app) = (Ok (), adm)"
    by (simp add: admit_request_def mbind_def mret_def admission_keys_def admit_key_def Let_def client_of_def sample_app_def
        pool_app_new_def admission_default_def client_default_def open_window_def count_request_def exceeds_limit_def
        sample_pool_config_def saturating_add_def checked_add_def saturating_sub_def)
  obtain s1 sh where p: "process_share sample_externals sample_pool_config (\<lambda>_. None) (\<lambda>_. 10) (\<lambda>_. Err (UpstreamError ''timeout''))
      sample_submission (sample_address 1) ''rig'' (sample_app\<lparr>pa_admission := adm\<rparr>) = (Err (UpstreamError ''timeout''), s1)"
    "length (pa_forwarded s1) = 1"
    using sample_forwarded [of adm] by auto
  have sub: "submit_share sample_externals sample_pool_config (\<lambda>_. None) (\<lambda>_. 10) (\<lambda>_. Err (UpstreamError ''timeout'')) None
      sample_submission sample_app = (Err (UpstreamError ''timeout''), s1)"
    using adm p(1) by (simp add: submit_share_def mlift_eq r Let_def mbind_def [of "on_admission _"] on_admission_def)
  have "pa_forwarded s1 \<noteq> pa_forwarded sample_app" using p(2) by (auto simp: sample_app_def pool_app_new_def)
  with admission_guards_pool [OF sub] r adm have "\<forall>key\<in>set ?keys.
      ca_share_requests (client_of (ad_clients adm) key) \<le> pc_max_share_requests_per_minute sample_pool_config" by auto
  with sub p(2) adm show ?thesis by blast
qed

definition sample_batch :: payout_batch where
  "sample_batch = \<lparr>po_payout_id = ''p1'', po_created_at = 3, po_status = Prepared,
     po_items = [\<lparr>pi_address = ''a'', pi_amount = 1000\<rparr>], po_transaction_hashes = []\<rparr>"

definition sample_prepared :: pool_app where
  "sample_prepared = pool_app_new (sample_matured\<lparr>ps_data := (ps_data sample_matured)\<lparr>
     pd_accounts := [(''a'', account_default\<lparr>ab_pending_payout := 1000\<rparr>)], pd_payouts := [sample_batch]\<rparr>\<rparr>)"

text \<open>A node that reports one mined transfer of the given amount to the miner.\<close>

definition sample_transfer :: "u64 \<Rightarrow> string \<Rightarrow> payout_tx pool_result" where
  "sample_transfer amount h = Ok \<lparr>px_to = Some ''a'', px_amount_atomic = Some (JsonNumber amount),
     px_lifecycle_status = Some ''mined'', px_block_height = Some 5\<rparr>"

abbreviation sample_tx_hash :: string where
  "sample_tx_hash \<equiv> replicate 64 (CHR ''0'')"

lemma sample_transfer_read: "payout_transfer (sample_transfer n) h = Ok (''a'', n)"
proof -
  have "\<not> contains_text ''pending'' (map ascii_lower ''mined'')" "\<not> contains_text ''mempool'' (map ascii_lower ''mined'')"
    by code_simp+
  then show ?thesis by (simp add: payout_transfer_def sample_transfer_def parse_atomic_field_def Let_def)
qed

lemma sample_admin: "require_admin (Some ''tok'') (Some ''Bearer tok'') = Ok ()"
  by (simp add: require_admin_def trim_def is_ws_def)

lemma sample_prepared_payouts: "pd_payouts (ps_data (pa_store sample_prepared)) = [sample_batch]"
  by (simp add: sample_prepared_def pool_app_new_def)

lemma sample_confirm:
  "is_ok (fst (confirm_payout None ''p1'' (sample_tx_hash # hs) (pa_store sample_prepared)))"
  if "\<forall>h\<in>set hs. h = sample_tx_hash"
proof -
  have "is_hash_hex sample_tx_hash" by code_simp
  then have "list_all is_hash_hex (sample_tx_hash # hs)" using that by (auto simp: list_all_iff)
  then have "\<not> list_ex (\<lambda>h. \<not> is_hash_hex h) (sample_tx_hash # hs)" by (auto simp: list_ex_iff list_all_iff)
  moreover have "po_transaction_hashes sample_batch = []" "prepared_index ''p1'' (ps_data (pa_store sample_prepared)) = Some 0"
    by (simp_all add: sample_batch_def prepared_index_def sample_prepared_payouts)
  ultimately show ?thesis
    by (simp add: confirm_payout_def mlift_eq Let_def sample_prepared_payouts mbind_def [of "pool_save _"] pool_save_def mret_def)
qed

theorem confirmed_payout_covered_witness:
  "\<exists>result s'. confirm_payout_handler (Some ''tok'') (Some ''Bearer tok'') (sample_transfer 1000) None ''p1'' [sample_tx_hash]
      sample_prepared = (Ok result, s') \<and> 1000 \<le> paid_to (sample_transfer 1000) [sample_tx_hash] ''a''"
proof -
  have "verify_payout_txs_on_chain (sample_transfer 1000) sample_batch [sample_tx_hash] = Ok ()"
    by (simp add: verify_payout_txs_on_chain_def cover_def sample_transfer_read sample_batch_def saturating_add_def checked_add_def)
  moreover have "po_payout_id sample_batch = ''p1''" "po_status sample_batch = Prepared" by (simp_all add: sample_batch_def)
  ultimately obtain result s' where r: "confirm_payout_handler (Some ''tok'') (Some ''Bearer tok'') (sample_transfer 1000) None ''p1''
      [sample_tx_hash] sample_prepared = (Ok result, s')"
    using sample_confirm [of "[]"]
    by (auto simp: confirm_payout_handler_def mlift_eq sample_admin pool_snapshot_def sample_prepared_payouts on_store_eq is_ok_iff)
  from confirmed_payout_covered [OF r] have "\<forall>item\<in>set (po_items sample_batch). unat (pi_amount item)
      \<le> paid_to (sample_transfer 1000) [sample_tx_hash] (pi_address item)"
    by (auto simp: sample_prepared_payouts)
  with r show ?thesis by (auto simp: sample_batch_def)
qed

text \<open>
  One transfer can be counted twice. The node reports a single transfer of 600 units for a
  payout item of 1000 units: confirming the payout with that transaction hash is refused, but
  confirming it with the same hash listed twice succeeds and marks the miner as paid in full.
\<close>

theorem repeated_transfer_counts_twice:
  "\<not> is_ok (fst (confirm_payout_handler (Some ''tok'') (Some ''Bearer tok'') (sample_transfer 600) None ''p1'' [sample_tx_hash] sample_prepared))
   \<and> is_ok (fst (confirm_payout_handler (Some ''tok'') (Some ''Bearer tok'') (sample_transfer 600) None ''p1''
        [sample_tx_hash, sample_tx_hash] sample_prepared))"
proof -
  have "\<not> is_ok (verify_payout_txs_on_chain (sample_transfer 600) sample_batch [sample_tx_hash])"
    "verify_payout_txs_on_chain (sample_transfer 600) sample_batch [sample_tx_hash, sample_tx_hash] = Ok ()"
    by (simp_all add: verify_payout_txs_on_chain_def cover_def sample_transfer_read sample_batch_def saturating_add_def checked_add_def)
  moreover have "po_payout_id sample_batch = ''p1''" "po_status sample_batch = Prepared" by (simp_all add: sample_batch_def)
  ultimately show ?thesis using sample_confirm [of "[sample_tx_hash]"]
    by (auto simp: confirm_payout_handler_def mlift_eq sample_admin pool_snapshot_def sample_prepared_payouts on_store_eq
        split: sum.splits)
qed
end
