(* ===== verification/Vireon_Index.thy ===== *)
theory Vireon_Index
  imports
    Vireon_Machine
begin

text \<open>
  The chain index, \<^verbatim>\<open>vireon-indexer/src/index.rs\<close>, \<^verbatim>\<open>storage.rs\<close> and \<^verbatim>\<open>error.rs\<close>: the index of blocks,
  transactions and addresses built from a stored chain, its incremental extension, the check that
  decides between keeping, extending and rebuilding it, its status and the lookups. The file of the
  index is its parsed content or the text of the parse error; the outcome of a write is an argument.
\<close>

section \<open>Data\<close>

datatype indexer_error =
    IndexerIo string
  | IndexerJson string
  | IndexerNode node_error
  | IndexerCore VireonError
  | IndexNotInitialized string
  | InvalidIndexFile string string
  | NotFound string

type_synonym 'a indexer_result = "indexer_error + 'a"

fun indexer_error_display :: "indexer_error \<Rightarrow> string" where
  "indexer_error_display (IndexerIo m) = ''I/O error: '' @ m"
| "indexer_error_display (IndexerJson m) = ''JSON error: '' @ m"
| "indexer_error_display (IndexerNode e) = ''node error: '' @ node_error_display e"
| "indexer_error_display (IndexerCore e) = ''core error: '' @ error_display e"
| "indexer_error_display (IndexNotInitialized p) = ''chain index is not initialized at '' @ p"
| "indexer_error_display (InvalidIndexFile p m) = ''invalid index file at '' @ p @ '': '' @ m"
| "indexer_error_display (NotFound m) = ''resource not found: '' @ m"

definition INDEXER_MODE :: string where
  "INDEXER_MODE = ''Draft / Local Indexer / Prototype''"

record supply_summary =
  sy_emitted_supply :: u64
  sy_max_supply :: u64
  sy_remaining_supply :: u64

record indexed_transaction =
  it_lifecycle_status :: string
  it_hash :: string
  it_block_height :: u64
  it_block_hash :: string
  it_block_transaction_count :: nat
  it_transaction_index :: nat
  it_version :: u32
  it_nonce :: u64
  it_from :: "string option"
  it_to :: string
  it_amount :: u64
  it_fee :: u64
  it_max_fee :: u64
  it_priority_fee :: u64
  it_effective_fee :: u64
  it_burned_fee :: u64
  it_effective_priority_fee :: u64
  it_base_fee :: u64
  it_memo_hash :: "string option"
  it_sender_public_key_hex :: "string option"
  it_signature_hex :: "string option"
  it_authorization_state :: string

record indexed_block =
  ib_height :: u64
  ib_hash :: string
  ib_previous_hash :: string
  ib_merkle_root :: string
  ib_timestamp :: u64
  ib_nonce :: u64
  ib_difficulty :: u8
  ib_transaction_count :: nat
  ib_miner_address :: string
  ib_coinbase_payout :: u64
  ib_miner_reward :: u64
  ib_fees :: u64
  ib_burned_fees :: u64
  ib_priority_fees :: u64
  ib_base_fee :: u64
  ib_transaction_hashes :: "string list"

record address_activity =
  aa_address :: string
  aa_exists_in_ledger :: bool
  aa_balance :: u64
  aa_total_received :: u64
  aa_total_sent :: u64
  aa_mined_reward :: u64
  aa_transaction_hashes :: "string list"
  aa_sent_tx_hashes :: "string list"
  aa_received_tx_hashes :: "string list"
  aa_mined_block_heights :: "u64 list"

record index_summary =
  xs_mode :: string
  xs_network :: string
  xs_status :: string
  xs_indexed_height :: "u64 option"
  xs_indexed_block_count :: nat
  xs_transaction_count :: nat
  xs_address_count :: nat
  xs_tip_hash :: "string option"
  xs_latest_block_hash :: "string option"
  xs_latest_block_timestamp :: "u64 option"
  xs_supply :: supply_summary

text \<open>The six maps that \<open>index_chain\<close> fills as local variables, and \<open>IndexData\<close>.\<close>

record index_maps =
  ix_blocks_by_height :: "(u64, indexed_block) btree_map"
  ix_blocks_by_hash :: "(string, indexed_block) btree_map"
  ix_transactions_by_hash :: "(string, indexed_transaction) btree_map"
  ix_addresses :: "(string, address_activity) btree_map"
  ix_miner_rewards_by_block :: "(u64, u64) btree_map"
  ix_fees_by_block :: "(u64, u64) btree_map"

record index_data = index_maps +
  ix_summary :: index_summary

definition empty_maps :: index_maps where
  "empty_maps =
     \<lparr>ix_blocks_by_height = [], ix_blocks_by_hash = [], ix_transactions_by_hash = [],
      ix_addresses = [], ix_miner_rewards_by_block = [], ix_fees_by_block = []\<rparr>"

section \<open>The file\<close>

record index_store =
  xf_path :: string
  xf_file :: "(string + index_data) option"

text \<open>\<open>io\<close> is the error of a failing write: an atomic write that fails leaves the old file.\<close>

definition write_index :: "indexer_error option \<Rightarrow> index_data \<Rightarrow> (index_store, indexer_error, unit) mut" where
  "write_index io d st = (case io of Some e \<Rightarrow> (Err e, st) | None \<Rightarrow> (Ok (), st\<lparr>xf_file := Some (Ok d)\<rparr>))"

definition load_index :: "index_store \<Rightarrow> index_data indexer_result" where
  "load_index st =
     (case xf_file st of
        None \<Rightarrow> Err (IndexNotInitialized (xf_path st))
      | Some r \<Rightarrow> map_err (InvalidIndexFile (xf_path st)) r)"

definition reset_index :: "index_store \<Rightarrow> index_store" where
  "reset_index st = st\<lparr>xf_file := None\<rparr>"

section \<open>Building\<close>

definition make_indexed_transaction ::
  "externals \<Rightarrow> transaction \<Rightarrow> u64 \<Rightarrow> string \<Rightarrow> nat \<Rightarrow> nat \<Rightarrow> amount \<Rightarrow> indexed_transaction" where
  "make_indexed_transaction X t block_height hash size_of_block i base_fee =
     (let priority = (case effective_priority_fee t base_fee of Inr a \<Rightarrow> a | Inl _ \<Rightarrow> 0);
          fee = (case effective_fee t base_fee of Inr a \<Rightarrow> a | Inl _ \<Rightarrow> 0) in
      \<lparr>it_lifecycle_status = ''mined'', it_hash = hash_to_hex (tx_hash X t), it_block_height = block_height,
       it_block_hash = hash, it_block_transaction_count = size_of_block,
       it_transaction_index = i, it_version = tx_version t, it_nonce = tx_nonce t,
       it_from = tx_from t, it_to = tx_to t, it_amount = tx_amount t, it_fee = fee,
       it_max_fee = tx_max_fee t, it_priority_fee = tx_priority_fee t, it_effective_fee = fee,
       it_burned_fee = (if is_coinbase t then 0 else base_fee), it_effective_priority_fee = priority,
       it_base_fee = base_fee, it_memo_hash = map_option hash_to_hex (tx_memo_hash t),
       it_sender_public_key_hex = map_option public_key_to_hex (tx_sender_public_key t),
       it_signature_hex = map_option (\<lambda>s. hex_of_bytes (sig_bytes s)) (tx_signature t),
       it_authorization_state = (if is_coinbase t then ''coinbase''
                                 else if tx_signature t \<noteq> None then ''signed'' else ''unsigned'')\<rparr>)"

definition empty_address_activity :: "string \<Rightarrow> address_activity" where
  "empty_address_activity address =
     \<lparr>aa_address = address, aa_exists_in_ledger = False, aa_balance = 0, aa_total_received = 0,
      aa_total_sent = 0, aa_mined_reward = 0, aa_transaction_hashes = [], aa_sent_tx_hashes = [],
      aa_received_tx_hashes = [], aa_mined_block_heights = []\<rparr>"

text \<open>\<open>entry(address).or_insert_with(empty_address_activity)\<close> followed by an update of the entry.\<close>

definition touch_address ::
  "string \<Rightarrow> (address_activity \<Rightarrow> address_activity) \<Rightarrow> (string, address_activity) btree_map
     \<Rightarrow> (string, address_activity) btree_map" where
  "touch_address address f m =
     map_insert address
       (f (case map_of m address of Some e \<Rightarrow> e | None \<Rightarrow> empty_address_activity address)) m"

definition note_sent :: "string \<Rightarrow> u64 \<Rightarrow> address_activity \<Rightarrow> address_activity" where
  "note_sent h debit e =
     e\<lparr>aa_sent_tx_hashes := aa_sent_tx_hashes e @ [h], aa_transaction_hashes := aa_transaction_hashes e @ [h],
       aa_total_sent := saturating_add (aa_total_sent e) debit\<rparr>"

definition note_received :: "string \<Rightarrow> u64 \<Rightarrow> address_activity \<Rightarrow> address_activity" where
  "note_received h amt e =
     e\<lparr>aa_received_tx_hashes := aa_received_tx_hashes e @ [h],
       aa_transaction_hashes := aa_transaction_hashes e @ [h],
       aa_total_received := saturating_add (aa_total_received e) amt\<rparr>"

definition note_mined :: "u64 \<Rightarrow> u64 \<Rightarrow> address_activity \<Rightarrow> address_activity" where
  "note_mined height reward e =
     e\<lparr>aa_mined_block_heights := aa_mined_block_heights e @ [height],
       aa_mined_reward := saturating_add (aa_mined_reward e) reward\<rparr>"

definition index_addresses ::
  "transaction \<Rightarrow> indexed_transaction \<Rightarrow> u64 \<Rightarrow> u64 \<Rightarrow> (string, address_activity) btree_map
     \<Rightarrow> (string, address_activity) btree_map" where
  "index_addresses t itx height reward m =
     (let m1 = (case it_from itx of
                  None \<Rightarrow> m
                | Some sender \<Rightarrow> touch_address sender (note_sent (it_hash itx) (tx_amount t + it_effective_fee itx)) m)
      in touch_address (it_to itx)
           (\<lambda>e. let e1 = note_received (it_hash itx) (tx_amount t) e in
                if is_coinbase t then note_mined height reward e1 else e1) m1)"

text \<open>One transaction of the loop over a block, with its position in the block.\<close>

definition index_transaction ::
  "externals \<Rightarrow> block \<Rightarrow> u64 \<Rightarrow> nat \<times> transaction \<Rightarrow> 'm index_maps_scheme \<Rightarrow> 'm index_maps_scheme" where
  "index_transaction X blk reward it m =
     (case it of (i, t) \<Rightarrow>
      let height = bh_height (b_header blk);
          itx = make_indexed_transaction X t height (hash_to_hex (block_hash X blk))
                  (length (b_transactions blk)) i (bh_base_fee_atomic (b_header blk)) in
      m\<lparr>ix_addresses := index_addresses t itx height reward (ix_addresses m),
        ix_transactions_by_hash := map_insert (it_hash itx) itx (ix_transactions_by_hash m)\<rparr>)"

definition ledger_entry :: "(u64, amount) btree_map \<Rightarrow> u64 \<Rightarrow> u64" where
  "ledger_entry m height = (case map_of m height of Some a \<Rightarrow> a | None \<Rightarrow> 0)"

definition make_indexed_block :: "externals \<Rightarrow> ledger_state \<Rightarrow> block \<Rightarrow> transaction \<Rightarrow> indexed_block" where
  "make_indexed_block X s blk coinbase =
     (let h = b_header blk; height = bh_height h in
      \<lparr>ib_height = height, ib_hash = hash_to_hex (block_hash X blk),
       ib_previous_hash = hash_to_hex (bh_previous_hash h), ib_merkle_root = hash_to_hex (bh_merkle_root h),
       ib_timestamp = bh_timestamp h, ib_nonce = bh_nonce h, ib_difficulty = bh_difficulty h,
       ib_transaction_count = length (b_transactions blk), ib_miner_address = tx_to coinbase,
       ib_coinbase_payout = tx_amount coinbase, ib_miner_reward = ledger_entry (ls_coinbase_rewards s) height,
       ib_fees = ledger_entry (ls_block_fees s) height,
       ib_burned_fees = ledger_entry (ls_block_burned_fees s) height,
       ib_priority_fees = ledger_entry (ls_block_priority_fees s) height,
       ib_base_fee = bh_base_fee_atomic h,
       ib_transaction_hashes = map (\<lambda>t. hash_to_hex (tx_hash X t)) (b_transactions blk)\<rparr>)"

text \<open>
  The body of the loop over blocks, which \<^verbatim>\<open>index.rs\<close> contains twice: in \<open>index_chain\<close> on local
  variables and in \<open>append_block_to_index_maps\<close> on the fields of the index.
\<close>

definition append_block_to_index_maps ::
  "externals \<Rightarrow> ledger_state \<Rightarrow> block \<Rightarrow> 'm index_maps_scheme \<Rightarrow> 'm index_maps_scheme indexer_result" where
  "append_block_to_index_maps X s blk m =
     (let height = bh_height (b_header blk); reward = ledger_entry (ls_coinbase_rewards s) height in
      rbind (ok_or (case b_transactions blk of [] \<Rightarrow> None | t # _ \<Rightarrow> Some t)
               (NotFound (''missing coinbase for block '' @ show_word height))) (\<lambda>coinbase.
      let m1 = fold (index_transaction X blk reward) (enumerate 0 (b_transactions blk)) m;
          ib = make_indexed_block X s blk coinbase in
      Ok (m1\<lparr>ix_miner_rewards_by_block := map_insert height reward (ix_miner_rewards_by_block m1),
             ix_fees_by_block := map_insert height (ib_fees ib) (ix_fees_by_block m1),
             ix_blocks_by_hash := map_insert (ib_hash ib) ib (ix_blocks_by_hash m1),
             ix_blocks_by_height := map_insert height ib (ix_blocks_by_height m1)\<rparr>)))"

definition refresh_balances ::
  "(string, amount) btree_map \<Rightarrow> (string, address_activity) btree_map \<Rightarrow> (string, address_activity) btree_map" where
  "refresh_balances balances m =
     fold (\<lambda>(address, balance). touch_address address
             (\<lambda>e. e\<lparr>aa_exists_in_ledger := True, aa_balance := balance\<rparr>)) balances m"

definition make_summary :: "externals \<Rightarrow> network \<Rightarrow> chain \<Rightarrow> nat \<Rightarrow> 'm index_maps_scheme \<Rightarrow> index_summary" where
  "make_summary X n c block_count m =
     (let indexed_height = chain_height c; tip_hash = map_option hash_to_hex (chain_tip_hash X c) in
      \<lparr>xs_mode = INDEXER_MODE, xs_network = network_id n, xs_status = status_label n,
       xs_indexed_height = indexed_height, xs_indexed_block_count = block_count,
       xs_transaction_count = length (ix_transactions_by_hash m), xs_address_count = length (ix_addresses m),
       xs_tip_hash = tip_hash, xs_latest_block_hash = tip_hash,
       xs_latest_block_timestamp = map_option ib_timestamp
         (Option.bind indexed_height (map_of (ix_blocks_by_height m))),
       xs_supply = \<lparr>sy_emitted_supply = chain_emitted_supply c, sy_max_supply = MAX_SUPPLY_ATOMIC,
                    sy_remaining_supply = MAX_SUPPLY_ATOMIC - chain_emitted_supply c\<rparr>\<rparr>)"

definition with_summary :: "index_maps \<Rightarrow> index_summary \<Rightarrow> index_data" where
  "with_summary m s =
     \<lparr>ix_blocks_by_height = ix_blocks_by_height m, ix_blocks_by_hash = ix_blocks_by_hash m,
      ix_transactions_by_hash = ix_transactions_by_hash m, ix_addresses = ix_addresses m,
      ix_miner_rewards_by_block = ix_miner_rewards_by_block m, ix_fees_by_block = ix_fees_by_block m,
      ix_summary = s\<rparr>"

definition chain_of_blocks :: "externals \<Rightarrow> (nat \<Rightarrow> u64) \<Rightarrow> string \<Rightarrow> block list \<Rightarrow> (network \<times> chain) indexer_result" where
  "chain_of_blocks X clk path blocks =
     rbind (ok_or (first_block blocks) (IndexerNode (ChainNotInitialized path))) (\<lambda>first.
     rbind (map_err IndexerCore (block_network first)) (\<lambda>n.
     rbind (map_err IndexerCore (chain_from_blocks X n (clocked clk blocks))) (\<lambda>c.
     Ok (n, c))))"

definition build_index :: "externals \<Rightarrow> network \<Rightarrow> chain \<Rightarrow> block list \<Rightarrow> index_data indexer_result" where
  "build_index X n c blocks =
     rbind (try_fold (\<lambda>m blk. append_block_to_index_maps X (c_state c) blk m) empty_maps blocks) (\<lambda>m0.
     let m = m0\<lparr>ix_addresses := refresh_balances (ls_balances (c_state c)) (ix_addresses m0)\<rparr> in
     Ok (with_summary m (make_summary X n c (length blocks) m)))"

definition index_chain ::
  "externals \<Rightarrow> (nat \<Rightarrow> u64) \<Rightarrow> indexer_error option \<Rightarrow> database \<Rightarrow> (index_store, indexer_error, index_data) mut" where
  "index_chain X clk io db =
     mbind (mlift (\<lambda>_. rbind (map_err IndexerNode (load_blocks X db)) (\<lambda>blocks.
              rbind (chain_of_blocks X clk (db_path db) blocks) (\<lambda>(n, c). build_index X n c blocks)))) (\<lambda>index.
     mbind (write_index io index) (\<lambda>_.
     mret index))"

section \<open>Following the chain\<close>

definition observe_chain_tip :: "externals \<Rightarrow> database \<Rightarrow> (u64 option \<times> string option) indexer_result" where
  "observe_chain_tip X db =
     rbind (map_err IndexerNode (load_blocks X db)) (\<lambda>blocks.
     let tip = last_block blocks in
     Ok (map_option (\<lambda>b. bh_height (b_header b)) tip, map_option (\<lambda>b. hash_to_hex (block_hash X b)) tip))"

text \<open>
  The loop over \<open>0..=sample\<close>: offsets \<open>offset, offset + 1, \<dots>\<close> while \<open>left\<close> rounds remain. The
  parent \<open>chain_blocks[height - 1]\<close> exists because the block at \<open>height\<close> does.
\<close>

fun links_match :: "externals \<Rightarrow> index_data \<Rightarrow> block list \<Rightarrow> u64 \<Rightarrow> nat \<Rightarrow> u64 \<Rightarrow> bool" where
  "links_match X index blocks tip_height 0 offset = True"
| "links_match X index blocks tip_height (Suc left) offset =
     (let height = saturating_sub tip_height offset in
      case map_of (ix_blocks_by_height index) height of
        None \<Rightarrow> False
      | Some indexed \<Rightarrow>
          if unat height \<ge> length blocks then False
          else
            let on_chain = blocks ! unat height in
            if bh_height (b_header on_chain) \<noteq> height then False
            else if ib_hash indexed \<noteq> hash_to_hex (block_hash X on_chain) then False
            else if height > 0 \<and> ib_previous_hash indexed \<noteq> hash_to_hex (block_hash X (blocks ! unat (height - 1)))
            then False
            else links_match X index blocks tip_height left (offset + 1))"

definition index_parent_links_match_chain :: "externals \<Rightarrow> index_data \<Rightarrow> database \<Rightarrow> bool indexer_result" where
  "index_parent_links_match_chain X index db =
     (case xs_indexed_height (ix_summary index) of
        None \<Rightarrow> Ok (xs_tip_hash (ix_summary index) = None)
      | Some tip_height \<Rightarrow>
          rbind (map_err IndexerNode (load_blocks X db)) (\<lambda>blocks.
          case last_block blocks of
            None \<Rightarrow> Ok False
          | Some chain_tip \<Rightarrow>
              Ok (bh_height (b_header chain_tip) = tip_height
                  \<and> xs_tip_hash (ix_summary index) = Some (hash_to_hex (block_hash X chain_tip))
                  \<and> links_match X index blocks tip_height (Suc (unat (min tip_height 16))) 0)))"

fun links_continue :: "externals \<Rightarrow> block list \<Rightarrow> bool" where
  "links_continue X (a # b # rest) =
     (hash_to_hex (bh_previous_hash (b_header b)) = hash_to_hex (block_hash X a) \<and> links_continue X (b # rest))"
| "links_continue X _ = True"

definition clear_balances :: "(string, address_activity) btree_map \<Rightarrow> (string, address_activity) btree_map" where
  "clear_balances m = map (\<lambda>(a, e). (a, e\<lparr>aa_exists_in_ledger := False, aa_balance := 0\<rparr>)) m"

text \<open>The part of \<open>try_append_index\<close> after its checks: \<open>new\<close> are the blocks above the index.\<close>

definition extend_index ::
  "externals \<Rightarrow> network \<Rightarrow> chain \<Rightarrow> nat \<Rightarrow> block list \<Rightarrow> index_data \<Rightarrow> index_data indexer_result" where
  "extend_index X n c block_count new existing =
     rbind (try_fold (\<lambda>m blk. append_block_to_index_maps X (c_state c) blk m) existing new) (\<lambda>m0.
     let m = m0\<lparr>ix_addresses := refresh_balances (ls_balances (c_state c)) (clear_balances (ix_addresses m0))\<rparr> in
     Ok (m\<lparr>ix_summary := make_summary X n c block_count m\<rparr>))"

definition try_append_index ::
  "externals \<Rightarrow> (nat \<Rightarrow> u64) \<Rightarrow> index_data \<Rightarrow> database \<Rightarrow> index_data option indexer_result" where
  "try_append_index X clk existing db =
     (case (xs_indexed_height (ix_summary existing), xs_tip_hash (ix_summary existing)) of
        (Some indexed_height, Some indexed_tip) \<Rightarrow>
          rbind (map_err IndexerNode (load_blocks X db)) (\<lambda>blocks.
          if blocks = [] then Ok None
          else if unat indexed_height \<ge> length blocks then Ok None
          else if bh_height (b_header (blocks ! unat indexed_height)) \<noteq> indexed_height then Ok None
          else if hash_to_hex (block_hash X (blocks ! unat indexed_height)) \<noteq> indexed_tip then Ok None
          else if (of_nat (length blocks) :: u64) = saturating_add indexed_height 1 then Ok (Some existing)
          else if (of_nat (length blocks) :: u64) \<le> saturating_add indexed_height 1 then Ok None
          else
            let new = drop (unat indexed_height + 1) blocks in
            if new = [] then Ok (Some existing)
            else if hash_to_hex (bh_previous_hash (b_header (hd new))) \<noteq> indexed_tip then Ok None
            else if \<not> links_continue X new then Ok None
            else
              rbind (chain_of_blocks X clk (db_path db) blocks) (\<lambda>(n, c).
              rbind (extend_index X n c (length blocks) new existing) (\<lambda>index.
              Ok (Some index))))
      | _ \<Rightarrow> Ok None)"

text \<open>
  \<open>ensure_index_matches_chain\<close>: keep, extend or rebuild. The clock readings of a validation in
  \<open>try_append_index\<close> and of one in \<open>index_chain\<close> are \<open>clk 0\<close> and \<open>clk 1\<close>.
\<close>

definition ensure_index_matches_chain ::
  "externals \<Rightarrow> (nat \<Rightarrow> nat \<Rightarrow> u64) \<Rightarrow> indexer_error option \<Rightarrow> database
     \<Rightarrow> (index_store, indexer_error, index_data) mut" where
  "ensure_index_matches_chain X clk io db =
     mbind (mlift (\<lambda>_. observe_chain_tip X db)) (\<lambda>(height, tip) st.
     case load_index st of
       Inr existing \<Rightarrow>
         mbind (mlift (\<lambda>_.
           if xs_indexed_height (ix_summary existing) = height \<and> xs_tip_hash (ix_summary existing) = tip
           then index_parent_links_match_chain X existing db else Ok False)) (\<lambda>current.
         if current then mret existing
         else
           mbind (mlift (\<lambda>_. try_append_index X (clk 0) existing db)) (\<lambda>appended.
           case appended of
             Some index \<Rightarrow> mbind (write_index io index) (\<lambda>_. mret index)
           | None \<Rightarrow> index_chain X (clk 1) io db)) st
     | Inl (IndexNotInitialized _) \<Rightarrow> index_chain X (clk 1) io db st
     | Inl e \<Rightarrow> (Err e, st))"

text \<open>
  \<open>watch_index\<close>: \<open>seen i\<close> is what the \<open>i\<close>-th round finds: the clock readings, the outcome of a write
  and the stored chain. The loop does not end when no number of rounds is given.
\<close>

partial_function (option) watch_index ::
  "externals \<Rightarrow> (nat \<Rightarrow> (nat \<Rightarrow> nat \<Rightarrow> u64) \<times> indexer_error option \<times> database) \<Rightarrow> u64 option \<Rightarrow> u64
     \<Rightarrow> index_store \<Rightarrow> (unit indexer_result \<times> index_store) option" where
  "watch_index X seen max_iterations i st =
     (case seen 0 of (clk, io, db) \<Rightarrow>
      case ensure_index_matches_chain X clk io db st of
        (Inl e, st') \<Rightarrow> Some (Err e, st')
      | (Inr _, st') \<Rightarrow>
          let i' = saturating_add i 1 in
          if (case max_iterations of Some m \<Rightarrow> i' \<ge> m | None \<Rightarrow> False) then Some (Ok (), st')
          else watch_index X (\<lambda>k. seen (Suc k)) max_iterations i' st')"

section \<open>Status and lookups\<close>

record indexer_status =
  is_mode :: string
  is_network_id :: "string option"
  is_status_label :: "string option"
  is_initialized :: bool
  is_index_dir :: string
  is_indexed_height :: "u64 option"
  is_indexed_block_count :: nat
  is_transaction_count :: nat
  is_address_count :: nat
  is_tip_hash :: "string option"
  is_chain_height :: "u64 option"
  is_chain_tip_hash :: "string option"
  is_in_sync :: bool
  is_lag_blocks :: u64

definition lag_blocks :: "u64 option \<Rightarrow> u64 option \<Rightarrow> u64" where
  "lag_blocks height indexed =
     (case (height, indexed) of
        (Some h, Some i) \<Rightarrow> if h > i then h - i else 0
      | (Some h, None) \<Rightarrow> saturating_add h 1
      | _ \<Rightarrow> 0)"

definition indexer_status_with_chain ::
  "externals \<Rightarrow> string \<Rightarrow> database option \<Rightarrow> index_store \<Rightarrow> indexer_status indexer_result" where
  "indexer_status_with_chain X index_dir db st =
     (let (height, tip) = (case db of
            Some d \<Rightarrow> (case observe_chain_tip X d of Inr p \<Rightarrow> p | Inl _ \<Rightarrow> (None, None))
          | None \<Rightarrow> (None, None)) in
      case load_index st of
        Inr index \<Rightarrow>
          let s = ix_summary index;
              in_sync = (tip \<noteq> None \<and> xs_tip_hash s = tip \<and> xs_indexed_height s = height) in
          Ok \<lparr>is_mode = INDEXER_MODE, is_network_id = Some (xs_network s), is_status_label = Some (xs_status s),
              is_initialized = True, is_index_dir = index_dir, is_indexed_height = xs_indexed_height s,
              is_indexed_block_count = xs_indexed_block_count s, is_transaction_count = xs_transaction_count s,
              is_address_count = xs_address_count s, is_tip_hash = xs_tip_hash s, is_chain_height = height,
              is_chain_tip_hash = tip, is_in_sync = (db = None \<or> in_sync),
              is_lag_blocks = lag_blocks height (xs_indexed_height s)\<rparr>
      | Inl (IndexNotInitialized _) \<Rightarrow>
          Ok \<lparr>is_mode = INDEXER_MODE, is_network_id = None, is_status_label = None, is_initialized = False,
              is_index_dir = index_dir, is_indexed_height = None, is_indexed_block_count = 0,
              is_transaction_count = 0, is_address_count = 0, is_tip_hash = None, is_chain_height = height,
              is_chain_tip_hash = tip, is_in_sync = False,
              is_lag_blocks = (case height of Some h \<Rightarrow> saturating_add h 1 | None \<Rightarrow> 0)\<rparr>
      | Inl e \<Rightarrow> Err e)"

definition find_block :: "index_store \<Rightarrow> u64 \<Rightarrow> indexed_block indexer_result" where
  "find_block st height =
     rbind (load_index st) (\<lambda>index.
     ok_or (map_of (ix_blocks_by_height index) height)
       (NotFound (''block at height '' @ show_word height @ '' not found'')))"

definition latest_block :: "index_store \<Rightarrow> indexed_block indexer_result" where
  "latest_block st =
     rbind (load_index st) (\<lambda>index.
     rbind (ok_or (xs_indexed_height (ix_summary index)) (NotFound ''no indexed block available'')) (\<lambda>height.
     ok_or (map_of (ix_blocks_by_height index) height) (NotFound ''no indexed block available'')))"

definition find_transaction :: "index_store \<Rightarrow> string \<Rightarrow> indexed_transaction indexer_result" where
  "find_transaction st h =
     rbind (load_index st) (\<lambda>index.
     ok_or (map_of (ix_transactions_by_hash index) h)
       (NotFound (''transaction with hash '' @ h @ '' not found'')))"

definition find_address :: "index_store \<Rightarrow> string \<Rightarrow> address_activity indexer_result" where
  "find_address st address =
     rbind (load_index st) (\<lambda>index.
     ok_or (map_of (ix_addresses index) address)
       (NotFound (''address '' @ address @ '' not found in index'')))"
end
