(* ===== verification/Vireon_Gateway.thy ===== *)
theory Vireon_Gateway
  imports
    Vireon_Index
    Vireon_Work
begin

text \<open>
  The RPC gateway, \<^verbatim>\<open>vireon-rpc-gateway/src\<close>: configuration and exposed routes (\<^verbatim>\<open>config.rs\<close>), errors
  (\<^verbatim>\<open>error.rs\<close>), the answers it computes from a chain (\<^verbatim>\<open>models.rs\<close>), and its handlers (\<^verbatim>\<open>app.rs\<close>): the
  store of mining templates, submission of solutions and transactions, the cached chain and the
  cached index with their lookups and pages. A handler runs the operations of the node on the same
  files and is one step; a fingerprint of a file is the value read in the call.
\<close>

section \<open>Configuration\<close>

datatype rpc_access_mode = Local | PublicRead | PublicSubmit | PrivateMining

definition allows_transaction_submission :: "rpc_access_mode \<Rightarrow> bool" where
  "allows_transaction_submission m = (m = Local \<or> m = PublicSubmit)"

definition default_exposes_mining :: "rpc_access_mode \<Rightarrow> bool" where
  "default_exposes_mining m = (m = Local \<or> m = PrivateMining)"

record rpc_config =
  rc_bind_host :: string
  rc_bind_port :: u16
  rc_network :: network
  rc_network_id :: string
  rc_human_name :: string
  rc_status_label :: string
  rc_address_prefix :: string
  rc_chain_data_path :: string
  rc_indexer_data_path :: string
  rc_mempool_data_path :: string
  rc_public_rpc_allowed :: bool
  rc_access_mode :: rpc_access_mode
  rc_expose_mining_endpoints :: "bool option"
  rc_max_mempool_transactions :: nat
  rc_max_request_body_bytes :: nat
  rc_cors_allowed_origin :: string
  rc_cors_allowed_origins :: "string list"
  rc_explorer_static_path :: string
  rc_allow_mainnet_candidate :: bool

definition effective_cors_origins :: "rpc_config \<Rightarrow> string list" where
  "effective_cors_origins c =
     (if rc_cors_allowed_origins c = [] then [rc_cors_allowed_origin c] else rc_cors_allowed_origins c)"

definition mining_endpoints_enabled :: "rpc_config \<Rightarrow> bool" where
  "mining_endpoints_enabled c =
     (case rc_expose_mining_endpoints c of
        Some b \<Rightarrow> b | None \<Rightarrow> default_exposes_mining (rc_access_mode c))"

datatype rpc_error =
    RpcIo string
  | RpcJson string
  | RpcToml string
  | RpcNode node_error
  | RpcIndexer indexer_error
  | RpcCore VireonError
  | RpcConfigError string
  | BadRequest string
  | RpcNotFound string

type_synonym 'a rpc_result = "rpc_error + 'a"

fun rpc_error_display :: "rpc_error \<Rightarrow> string" where
  "rpc_error_display (RpcIo m) = ''I/O error: '' @ m"
| "rpc_error_display (RpcJson m) = ''JSON error: '' @ m"
| "rpc_error_display (RpcToml m) = ''TOML error: '' @ m"
| "rpc_error_display (RpcNode e) = ''node error: '' @ node_error_display e"
| "rpc_error_display (RpcIndexer e) = ''indexer error: '' @ indexer_error_display e"
| "rpc_error_display (RpcCore e) = ''core error: '' @ error_display e"
| "rpc_error_display (RpcConfigError m) = ''config error: '' @ m"
| "rpc_error_display (BadRequest m) = ''bad request: '' @ m"
| "rpc_error_display (RpcNotFound m) = ''resource not found: '' @ m"

fun rpc_status_code :: "rpc_error \<Rightarrow> nat" where
  "rpc_status_code (BadRequest _) = 400"
| "rpc_status_code (RpcNotFound _) = 404"
| "rpc_status_code (RpcNode (ChainNotInitialized _)) = 404"
| "rpc_status_code (RpcIndexer (IndexNotInitialized _)) = 404"
| "rpc_status_code (RpcIndexer (NotFound _)) = 404"
| "rpc_status_code _ = 500"

definition rpc_error_body :: "rpc_error \<Rightarrow> string \<times> nat" where
  "rpc_error_body e =
     (let status = rpc_status_code e in
      (if status = 400 \<or> status = 404 then rpc_error_display e else ''internal server error'', status))"

text \<open>
  \<open>refused origin\<close> is the text \<open>{origin:?}: {error}\<close> for an origin that \<open>HeaderValue::from_str\<close> of the
  crate \<^verbatim>\<open>http\<close> does not accept.
\<close>

definition check_origin :: "(string \<Rightarrow> string option) \<Rightarrow> rpc_config \<Rightarrow> string \<Rightarrow> unit rpc_result" where
  "check_origin refused c origin =
     rbind (reject_if (trim origin = ''*'' \<and> rc_access_mode c \<noteq> Local)
              (RpcConfigError ''CORS origin '*' is only allowed when access_mode = local'')) (\<lambda>_.
     case refused origin of
       Some text \<Rightarrow> Err (RpcConfigError (''invalid CORS origin '' @ text))
     | None \<Rightarrow> Ok ())"

definition rpc_config_validate :: "(string \<Rightarrow> string option) \<Rightarrow> rpc_config \<Rightarrow> unit rpc_result" where
  "rpc_config_validate refused c =
     (let n = rc_network c; public = (rc_bind_host c = ''0.0.0.0'') in
      rbind (reject_if (trim (rc_bind_host c) = []) (RpcConfigError ''bind_host cannot be empty'')) (\<lambda>_.
      rbind (reject_if (rc_bind_port c = 0) (RpcConfigError ''bind_port must be greater than zero'')) (\<lambda>_.
      rbind (reject_if (rc_network_id c \<noteq> network_id n)
               (RpcConfigError (''network_id must be '' @ network_id n))) (\<lambda>_.
      rbind (reject_if (rc_human_name c \<noteq> human_name n)
               (RpcConfigError (''human_name must be '' @ human_name n))) (\<lambda>_.
      rbind (reject_if (rc_status_label c \<noteq> status_label n)
               (RpcConfigError (''status_label must be '' @ status_label n))) (\<lambda>_.
      rbind (reject_if (rc_address_prefix c \<noteq> address_prefix n)
               (RpcConfigError (''address_prefix must be '' @ address_prefix n))) (\<lambda>_.
      rbind (reject_if (rc_bind_port c \<noteq> default_rpc_port n)
               (RpcConfigError (''bind_port must be '' @ show_word (default_rpc_port n)))) (\<lambda>_.
      rbind (reject_if (public \<and> \<not> rc_public_rpc_allowed c)
               (RpcConfigError ''bind_host 0.0.0.0 requires public_rpc_allowed = true'')) (\<lambda>_.
      rbind (reject_if (public \<and> rc_access_mode c = Local)
               (RpcConfigError ''local RPC access mode cannot bind to 0.0.0.0'')) (\<lambda>_.
      rbind (reject_if (requires_explicit_allow n \<and> \<not> rc_allow_mainnet_candidate c)
               (RpcConfigError ''mainnet candidate RPC requires allow_mainnet_candidate = true'')) (\<lambda>_.
      rbind (reject_if (trim (rc_chain_data_path c) = []) (RpcConfigError ''chain_data_path cannot be empty'')) (\<lambda>_.
      rbind (reject_if (trim (rc_indexer_data_path c) = []) (RpcConfigError ''indexer_data_path cannot be empty'')) (\<lambda>_.
      rbind (reject_if (trim (rc_mempool_data_path c) = []) (RpcConfigError ''mempool_data_path cannot be empty'')) (\<lambda>_.
      rbind (reject_if (rc_max_mempool_transactions c = 0)
               (RpcConfigError ''max_mempool_transactions must be greater than zero'')) (\<lambda>_.
      rbind (reject_if (rc_max_request_body_bytes c = 0)
               (RpcConfigError ''max_request_body_bytes must be greater than zero'')) (\<lambda>_.
      rbind (reject_if (trim (rc_cors_allowed_origin c) = [])
               (RpcConfigError ''cors_allowed_origin cannot be empty'')) (\<lambda>_.
      rbind (try_each (check_origin refused c) (effective_cors_origins c)) (\<lambda>_.
      reject_if (mining_endpoints_enabled c \<and> public \<and> rc_access_mode c \<noteq> PrivateMining)
        (RpcConfigError (''public RPC profiles cannot expose mining endpoints on 0.0.0.0; use private-mining ''
           @ ''on an un-published container network''))))))))))))))))))))"

text \<open>The routes that depend on the configuration, and whether every origin is allowed.\<close>

definition write_routes :: "rpc_config \<Rightarrow> string list" where
  "write_routes c =
     (if allows_transaction_submission (rc_access_mode c) then [''/transactions''] else [])
     @ (if mining_endpoints_enabled c then [''/mining/template'', ''/mining/submit''] else [])"

definition any_origin :: "rpc_config \<Rightarrow> bool" where
  "any_origin c = (''*'' \<in> set (effective_cors_origins c))"

section \<open>Answers\<close>

record transaction_response =
  tr_lifecycle_status :: string
  tr_hash :: string
  tr_block_height :: "u64 option"
  tr_block_hash :: "string option"
  tr_version :: u32
  tr_nonce :: u64
  tr_from :: "string option"
  tr_to :: string
  tr_amount :: u64
  tr_fee :: u64
  tr_max_fee :: u64
  tr_priority_fee :: u64
  tr_effective_fee :: u64
  tr_burned_fee :: u64
  tr_effective_priority_fee :: u64
  tr_base_fee :: u64
  tr_memo_hash :: "string option"
  tr_sender_public_key_hex :: "string option"
  tr_signature_hex :: "string option"
  tr_authorization_state :: string
  tr_signature_standard_id :: string
  tr_signatures_status :: string

definition make_transaction_response ::
  "externals \<Rightarrow> transaction \<Rightarrow> string \<Rightarrow> u64 option \<Rightarrow> string option \<Rightarrow> amount \<Rightarrow> transaction_response" where
  "make_transaction_response X t status height hash base_fee =
     (let priority = (case effective_priority_fee t base_fee of Inr a \<Rightarrow> a | Inl _ \<Rightarrow> 0);
          fee = (case effective_fee t base_fee of Inr a \<Rightarrow> a | Inl _ \<Rightarrow> 0) in
      \<lparr>tr_lifecycle_status = status, tr_hash = hash_to_hex (tx_hash X t),
       tr_block_height = height, tr_block_hash = hash, tr_version = tx_version t,
       tr_nonce = tx_nonce t, tr_from = tx_from t, tr_to = tx_to t, tr_amount = tx_amount t, tr_fee = fee,
       tr_max_fee = tx_max_fee t, tr_priority_fee = tx_priority_fee t, tr_effective_fee = fee,
       tr_burned_fee = (if is_coinbase t then 0 else base_fee), tr_effective_priority_fee = priority,
       tr_base_fee = base_fee, tr_memo_hash = map_option hash_to_hex (tx_memo_hash t),
       tr_sender_public_key_hex = map_option public_key_to_hex (tx_sender_public_key t),
       tr_signature_hex = map_option (\<lambda>s. hex_of_bytes (sig_bytes s)) (tx_signature t),
       tr_authorization_state = (if is_coinbase t then ''coinbase''
                                 else if tx_signature t \<noteq> None then ''signed'' else ''unsigned''),
       tr_signature_standard_id = ss_standard_id launch_signing_standard,
       tr_signatures_status = ''Prototype implementation on frozen launch standard''\<rparr>)"

record block_response =
  br_network_id :: string
  br_height :: u64
  br_hash :: string
  br_previous_hash :: string
  br_merkle_root :: string
  br_base_fee :: u64
  br_timestamp :: u64
  br_nonce :: u64
  br_difficulty :: u8
  br_transaction_count :: nat
  br_transactions :: "transaction_response list"

definition make_block_response :: "externals \<Rightarrow> block \<Rightarrow> block_response" where
  "make_block_response X blk =
     (let h = b_header blk; hash = hash_to_hex (block_hash X blk) in
      \<lparr>br_network_id = bh_network_id h, br_height = bh_height h, br_hash = hash,
       br_previous_hash = hash_to_hex (bh_previous_hash h), br_merkle_root = hash_to_hex (bh_merkle_root h),
       br_base_fee = bh_base_fee_atomic h, br_timestamp = bh_timestamp h, br_nonce = bh_nonce h,
       br_difficulty = bh_difficulty h, br_transaction_count = length (b_transactions blk),
       br_transactions = map (\<lambda>t. make_transaction_response X t ''mined'' (Some (bh_height h)) (Some hash)
                                    (bh_base_fee_atomic h)) (b_transactions blk)\<rparr>)"

record address_account_response =
  ar_address :: string
  ar_exists :: bool
  ar_balance :: u64
  ar_next_nonce :: u64
  ar_tip_hash :: "string option"
  ar_tip_height :: "u64 option"
  ar_anticipated_base_fee :: u64

definition make_address_account_response ::
  "externals \<Rightarrow> chain \<Rightarrow> string \<Rightarrow> u64 list \<Rightarrow> u64 \<Rightarrow> address_account_response" where
  "make_address_account_response X c address mempool_nonces anticipated_base_fee =
     (let s = c_state c in
      \<lparr>ar_address = address,
       ar_exists = (map_of (ls_balances s) address \<noteq> None \<or> next_nonce_of s address > FIRST_ACCOUNT_NONCE),
       ar_balance = balance_of s address,
       ar_next_nonce = fold (\<lambda>nonce next. max next (saturating_add nonce 1)) mempool_nonces (next_nonce_of s address),
       ar_tip_hash = map_option hash_to_hex (chain_tip_hash X c), ar_tip_height = chain_height c,
       ar_anticipated_base_fee = anticipated_base_fee\<rparr>)"

record state_response =
  sr_height :: "u64 option"
  sr_tip_hash :: "string option"
  sr_emitted_supply :: u64
  sr_tracked_addresses :: nat
  sr_latest_base_fee :: "u64 option"
  sr_latest_fees :: "u64 option"
  sr_latest_burned_fees :: "u64 option"
  sr_latest_priority_fees :: "u64 option"
  sr_latest_coinbase_reward :: "u64 option"
  sr_balances :: "(string \<times> u64 \<times> u64) list"

definition make_state_response :: "externals \<Rightarrow> chain \<Rightarrow> state_response" where
  "make_state_response X c =
     (let s = c_state c; latest = chain_height c in
      \<lparr>sr_height = latest, sr_tip_hash = map_option hash_to_hex (chain_tip_hash X c),
       sr_emitted_supply = chain_emitted_supply c, sr_tracked_addresses = length (ls_balances s),
       sr_latest_base_fee = Option.bind latest (\<lambda>h. map_option (\<lambda>b. bh_base_fee_atomic (b_header b))
         (find (\<lambda>b. bh_height (b_header b) = h) (c_blocks c))),
       sr_latest_fees = Option.bind latest (map_of (ls_block_fees s)),
       sr_latest_burned_fees = Option.bind latest (map_of (ls_block_burned_fees s)),
       sr_latest_priority_fees = Option.bind latest (map_of (ls_block_priority_fees s)),
       sr_latest_coinbase_reward = Option.bind latest (map_of (ls_coinbase_rewards s)),
       sr_balances = map (\<lambda>(address, balance). (address, balance, next_nonce_of s address)) (ls_balances s)\<rparr>)"

definition make_supply_response :: "chain \<Rightarrow> supply_summary" where
  "make_supply_response c =
     \<lparr>sy_emitted_supply = chain_emitted_supply c, sy_max_supply = MAX_SUPPLY_ATOMIC,
      sy_remaining_supply = MAX_SUPPLY_ATOMIC - chain_emitted_supply c\<rparr>"

section \<open>Mining templates\<close>

definition MINING_TEMPLATE_TTL_SECONDS :: u64 where "MINING_TEMPLATE_TTL_SECONDS = 90"
definition MINING_TEMPLATE_REUSE_MIN_REMAINING_SECONDS :: u64 where
  "MINING_TEMPLATE_REUSE_MIN_REMAINING_SECONDS = 25"
definition MAX_ACTIVE_MINING_TEMPLATES :: nat where "MAX_ACTIVE_MINING_TEMPLATES = 256"

record stored_mining_template =
  sm_expires_at :: u64
  sm_block :: block
  sm_miner_address :: string

type_synonym template_store = "(string, stored_mining_template) btree_map"

text \<open>The part of \<open>RpcState\<close> the mining routes use, with the files of the node they work on.\<close>

record gateway_state =
  gw_node :: node_state
  gw_templates :: template_store

definition map_submission_error :: "node_error \<Rightarrow> rpc_error" where
  "map_submission_error e =
     (case e of
        NodeInput message \<Rightarrow> BadRequest message
      | NodeCore core_error \<Rightarrow> BadRequest (error_display core_error)
      | other \<Rightarrow> RpcNode other)"

definition live_templates :: "u64 \<Rightarrow> template_store \<Rightarrow> template_store" where
  "live_templates now ts = filter (\<lambda>(_, stored). sm_expires_at stored > now) ts"

definition reusable :: "u64 \<Rightarrow> string \<Rightarrow> block \<Rightarrow> stored_mining_template \<Rightarrow> bool" where
  "reusable now miner fresh stored =
     (let h = b_header (sm_block stored); f = b_header fresh in
      sm_expires_at stored > saturating_add now MINING_TEMPLATE_REUSE_MIN_REMAINING_SECONDS
      \<and> sm_miner_address stored = miner \<and> bh_height h = bh_height f
      \<and> hash_to_hex (bh_previous_hash h) = hash_to_hex (bh_previous_hash f)
      \<and> hash_to_hex (bh_merkle_root h) = hash_to_hex (bh_merkle_root f)
      \<and> bh_difficulty h = bh_difficulty f)"

text \<open>The answer as the miner reads it: it has no share difficulty.\<close>

definition template_answer :: "string \<Rightarrow> u64 \<Rightarrow> block \<Rightarrow> mining_template" where
  "template_answer template_id expires_at blk =
     (let h = b_header blk in
      \<lparr>mt_protocol = MINING_PROTOCOL_VERSION, mt_template_id = template_id, mt_expires_at = expires_at,
       mt_version = bh_version h, mt_network_id = bh_network_id h, mt_height = bh_height h,
       mt_previous_hash = hash_to_hex (bh_previous_hash h), mt_merkle_root = hash_to_hex (bh_merkle_root h),
       mt_base_fee_atomic = bh_base_fee_atomic h, mt_timestamp = bh_timestamp h,
       mt_difficulty = bh_difficulty h, mt_share_difficulty = None, mt_nonce_start = 0,
       mt_transactions = b_transactions blk\<rparr>)"

text \<open>
  The block under the lock of the store. The store is a \<open>HashMap\<close>: \<open>order\<close> is the order in which it
  is visited; \<open>new_id\<close> is the random identifier of the call.
\<close>

definition issue_template ::
  "(template_store \<Rightarrow> template_store) \<Rightarrow> u64 \<Rightarrow> string \<Rightarrow> string \<Rightarrow> block
     \<Rightarrow> (template_store, rpc_error, mining_template) mut" where
  "issue_template order now new_id miner fresh ts =
     (let live = live_templates now ts in
      case find (\<lambda>(_, stored). reusable now miner fresh stored) (order live) of
        Some (template_id, stored) \<Rightarrow> (Ok (template_answer template_id (sm_expires_at stored) (sm_block stored)), live)
      | None \<Rightarrow>
          let expires_at = saturating_add now MINING_TEMPLATE_TTL_SECONDS in
          if length live \<ge> MAX_ACTIVE_MINING_TEMPLATES
          then (Err (BadRequest ''too many active mining templates; retry after expiration''), live)
          else (Ok (template_answer new_id expires_at fresh),
                map_insert new_id \<lparr>sm_expires_at = expires_at, sm_block = fresh, sm_miner_address = miner\<rparr> live))"

text \<open>The handlers of \<open>/mining/template\<close> and \<open>/mining/submit\<close>.\<close>

definition mining_template_route ::
  "externals \<Rightarrow> int \<Rightarrow> (genesis_review_payload \<Rightarrow> bytes) \<Rightarrow> (nat \<Rightarrow> u64) \<Rightarrow> (nat \<Rightarrow> u64) \<Rightarrow> node_files \<Rightarrow> data_path
     \<Rightarrow> rpc_config \<Rightarrow> (template_store \<Rightarrow> template_store) \<Rightarrow> u64 \<Rightarrow> string \<Rightarrow> string \<Rightarrow> gateway_state
     \<Rightarrow> (mining_template rpc_result \<times> gateway_state) option" where
  "mining_template_route X threads json clk t files path cfg order now new_id miner gs =
     map_option (\<lambda>r.
       case r of
         Inl e \<Rightarrow> (Err (map_submission_error e), gs)
       | Inr tmpl \<Rightarrow>
           (case issue_template order now new_id miner (bt_block tmpl) (gw_templates gs) of
              (res, ts) \<Rightarrow> (res, gs\<lparr>gw_templates := ts\<rparr>)))
       (create_block_template X threads json clk t files path miner (rc_max_mempool_transactions cfg) (gw_node gs))"

definition submit_answer ::
  "mining_submit_request \<Rightarrow> submit_status \<Rightarrow> string \<Rightarrow> u64 option \<Rightarrow> string option \<Rightarrow> mining_submit_response" where
  "submit_answer r status hash height reason =
     \<lparr>ms_protocol = MINING_PROTOCOL_VERSION, ms_status = status, ms_template_id = mr_template_id r,
      ms_block_hash = hash, ms_height = height, ms_reason = reason\<rparr>"

definition submission_failure :: "mining_submit_request \<Rightarrow> string \<Rightarrow> node_error \<Rightarrow> mining_submit_response" where
  "submission_failure r computed e =
     (case e of
        NodeCore (InvalidPreviousHash _ _) \<Rightarrow>
          submit_answer r SubmitStale computed None (Some ''chain tip changed before submission'')
      | _ \<Rightarrow> submit_answer r SubmitRejected computed None (Some (node_error_display e)))"

definition mining_submit_route ::
  "externals \<Rightarrow> (nat \<Rightarrow> u64) \<Rightarrow> node_files \<Rightarrow> data_path \<Rightarrow> u64 \<Rightarrow> mining_submit_request
     \<Rightarrow> (gateway_state, rpc_error, mining_submit_response) mut" where
  "mining_submit_route X clk files path now r gs =
     (if mr_protocol r \<noteq> MINING_PROTOCOL_VERSION
      then (Err (BadRequest (''unsupported mining protocol '' @ mr_protocol r @ ''; expected ''
                  @ MINING_PROTOCOL_VERSION)), gs)
      else
        let live = live_templates now (gw_templates gs);
            gs1 = gs\<lparr>gw_templates := filter (\<lambda>(template_id, _). template_id \<noteq> mr_template_id r) live\<rparr> in
        case map_of live (mr_template_id r) of
          None \<Rightarrow> (Ok (submit_answer r SubmitStale (mr_block_hash r) None (Some ''template is unknown or expired'')), gs1)
        | Some stored \<Rightarrow>
            (case (if trim (mr_mix_hash r) = [] then Ok (bh_mix_hash (b_header (sm_block stored)))
                   else map_err (\<lambda>e. BadRequest (''invalid mix_hash: '' @ e)) (hash_from_hex (trim (mr_mix_hash r)))) of
               Inl e \<Rightarrow> (Err e, gs1)
             | Inr mix \<Rightarrow>
                 let candidate = with_solution (sm_block stored) (mr_nonce r) mix;
                     computed = hash_to_hex (block_hash X candidate) in
                 if computed \<noteq> map ascii_lower (mr_block_hash r)
                 then (Ok (submit_answer r SubmitRejected computed None
                         (Some ''submitted block_hash does not match FiroPoW final hash for nonce/mix_hash'')), gs1)
                 else
                   (case submit_mined_block X clk files path candidate (gw_node gs1) of
                      (Inr summary, node) \<Rightarrow>
                        (Ok (submit_answer r SubmitAccepted (sb_hash summary) (Some (sb_height summary)) None),
                         gs1\<lparr>gw_node := node\<rparr>)
                    | (Inl e, node) \<Rightarrow> (Ok (submission_failure r computed e), gs1\<lparr>gw_node := node\<rparr>))))"

text \<open>The handler of \<open>POST /transactions\<close>.\<close>

definition submit_transaction_route ::
  "externals \<Rightarrow> (nat \<Rightarrow> u64) \<Rightarrow> (nat \<Rightarrow> u64) \<Rightarrow> rpc_config \<Rightarrow> transaction
     \<Rightarrow> (gateway_state, rpc_error, submit_summary) mut" where
  "submit_transaction_route X clk t cfg tx gs =
     (case submit_transaction X clk t (rc_max_mempool_transactions cfg) tx (gw_node gs) of
        (r, node) \<Rightarrow> (map_err map_submission_error r, gs\<lparr>gw_node := node\<rparr>))"

end
