(* ===== verification/Vireon_Serving.thy ===== *)
theory Vireon_Serving
  imports
    Vireon_Gateway
begin

text \<open>
  What the mining routes of the gateway guarantee: a solution of a template is accepted and
  extends the stored chain, a template is spent by the first submission that names it, the store
  of templates is bounded and has at most one reusable template per piece of work, a solution for
  an outgrown template is answered as rejected, and the configuration checks keep the routes
  off public listeners.
\<close>

section \<open>Later clocks\<close>

lemma append_block_later:
  assumes "append_block X now b c = (Ok (), c')" and "now \<le> now'"
  shows "append_block X now' b c = (Ok (), c')"
  using assms unfolding append_block_Ok validate_next_block_iff
  by (auto simp: block_acceptable_def Let_def word_le_nat_alt)

lemma chain_from_blocks_later:
  assumes "chain_from_blocks X n (clocked clk bs) = Ok c" and "\<And>i. clk i \<le> clk' i"
  shows "chain_from_blocks X n (clocked clk' bs) = Ok c"
proof -
  have "run (chain_step X) (clocked clk bs) c0 = Some c1 \<Longrightarrow> run (chain_step X) (clocked clk' bs) c0 = Some c1" for c0 c1
  proof (induction bs arbitrary: c1 rule: rev_induct)
    case (snoc b bs)
    then obtain c2 where "run (chain_step X) (clocked clk bs) c0 = Some c2" "chain_step X (clk (length bs), b) c2 = Some c1"
      by (auto simp: clocked_snoc run_append bind_eq_Some_conv split: option.splits)
    moreover from this(2) have "chain_step X (clk' (length bs), b) c2 = Some c1"
      using append_block_later [OF _ assms(2)] by (simp add: chain_step_Some)
    ultimately show ?case using snoc.IH by (simp add: clocked_snoc run_append)
  qed (simp add: clocked_def)
  with assms(1) show ?thesis by (simp add: chain_from_blocks_Ok)
qed

lemma build_validated_later:
  assumes "build_validated_chain X clk files config bs = Ok c" and "\<And>i. clk i \<le> clk' i"
  shows "build_validated_chain X clk' files config bs = Ok c"
  using assms chain_from_blocks_later [of X _ clk bs c clk'] by (auto simp: build_validated_Ok)

section \<open>Submitting a valid block\<close>

lemma append_validated_accepts:
  assumes "load_blocks X db = Ok bs" and "validate bs b = Ok r"
    and "structured X (bs @ [b])" and "height_stored b" and "block_hash X b \<notin> block_hash X ` set bs"
  shows "\<exists>db'. append_validated X b validate db = (Ok r, db')"
proof -
  have l: "load_blocks_from_connection X db False = Ok bs" using assms(1) by (simp add: load_blocks_def)
  then have "verify_tip_extension X bs b = Ok ()" using assms(3) by (simp add: load_Ok verify_tip_Ok)
  moreover have "\<exists>db'. insert_canonical_block X b db = Ok db'"
  proof -
    have rows: "db_canonical db = map (row_entry X) bs" "list_all height_stored bs" using l by (simp_all add: load_Ok)
    have "uint (bh_height (b_header x)) \<noteq> uint (bh_height (b_header b))" if "x \<in> set bs" for x
    proof -
      obtain i where i: "i < length bs" "x = bs ! i" using \<open>x \<in> set bs\<close> by (metis in_set_conv_nth)
      have "list_all height_stored (bs @ [b])" using rows(2) assms(4) by simp
      from structured_height [OF assms(3) this, of i] structured_height [OF assms(3) this, of "length bs"] i
      show ?thesis by (auto simp: nth_append word_uint_eq_iff [symmetric])
    qed
    then have "map_of (db_canonical db) (uint (bh_height (b_header b))) = None"
      by (fastforce simp: rows(1) map_of_eq_None_iff row_entry_def)
    moreover have "\<forall>x\<in>set bs. block_hash X x \<noteq> block_hash X b" using assms(5) by (metis image_eqI)
    ultimately show ?thesis using assms(4)
      by (auto simp: insert_canonical_block_def height_stored_def rbind_Ok height_to_i64_Ok rows(1) list_ex_iff row_entry_def)
  qed
  ultimately show ?thesis using l assms(2) by (auto simp: append_validated_def transact_def)
qed

lemma submit_mined_accepts:
  assumes "load_network_config (nf_config files) = Ok config"
    and "ensure_network_storage_path (nc_network config) path = Ok ()"
    and "load_blocks X (nd_db st) = Ok bs" and "build_validated_chain X clk files config bs = Ok c"
    and "append_block X (clk (length bs)) b c = (Ok (), c')" and "length bs < 2 ^ 63"
    and "block_hash X b \<notin> block_hash X ` set bs"
  shows "\<exists>summary st'. submit_mined_block X clk files path b st = (Ok summary, st')
    \<and> sb_hash summary = hash_to_hex (block_hash X b) \<and> sb_height summary = bh_height (b_header b)
    \<and> load_blocks X (nd_db st') = Ok (bs @ [b])"
proof -
  let ?v = "\<lambda>blocks b. rbind (build_validated_chain X clk files config blocks) (\<lambda>c.
    map_err NodeCore (fst (append_block X (clk (length blocks)) b c)))"
  have "build_validated_chain X clk files config (bs @ [b]) = Ok c'"
    by (rule build_validated_snoc [OF assms(4) load_blocks_not_Nil [OF assms(3)] assms(5)])
  then have c': "chain_ok X c'" "c_blocks c' = bs @ [b]" using chain_from_clocked by (auto simp: build_validated_Ok)
  then have "structured X (bs @ [b])" by (metis chain_linked_structured chain_ok_def)
  moreover have "height_stored b"
    using c' assms(6) by (auto simp: chain_ok_def chain_linked_def height_stored_def Let_def dest: spec [of _ "length bs"])
  ultimately obtain db where db: "append_validated X b ?v (nd_db st) = (Ok (), db)"
    using append_validated_accepts [OF assms(3), of ?v b "()"] assms(4,5,7) by auto
  have "load_blocks X db = Ok (bs @ [b])"
    using append_validated_Ok [OF db] assms(3) by (metis sum.inject(2))
  with assms(1,2) db show ?thesis by (simp add: submit_mined_block_def Let_def)
qed

section \<open>From a template to an accepted block\<close>

text \<open>The miner rebuilds the block of the template, up to the fields it searches.\<close>

lemma template_rebuilt:
  assumes "validate_and_build X now miner (template_answer template_id expires blk) = Ok b"
  shows "with_solution b nonce mix = with_solution blk nonce mix"
    and "b_transactions b = b_transactions blk" and "bh_height (b_header b) = bh_height (b_header blk)"
    and "bh_timestamp (b_header b) = bh_timestamp (b_header blk)"
  using assms
  by (auto simp: validate_and_build_def template_answer_def Let_def rbind_Ok parse_hash_def with_solution_def
      dest!: hash_hex_same)

lemma issue_new:
  assumes "issue_template order now new_id miner fresh ts = (Ok tmpl, ts')" and "set (order (live_templates now ts)) = set (live_templates now ts)"
    and "map_of ts new_id = None" and "mt_template_id tmpl = new_id"
  shows "tmpl = template_answer new_id (saturating_add now MINING_TEMPLATE_TTL_SECONDS) fresh"
    and "map_of ts' new_id = Some \<lparr>sm_expires_at = saturating_add now MINING_TEMPLATE_TTL_SECONDS, sm_block = fresh,
           sm_miner_address = miner\<rparr>"
proof -
  have "find (\<lambda>(_, stored). reusable now miner fresh stored) (order (live_templates now ts)) = None"
  proof (rule ccontr)
    assume "\<not> ?thesis"
    then obtain i s where f: "find (\<lambda>(_, stored). reusable now miner fresh stored) (order (live_templates now ts)) = Some (i, s)"
      by auto
    then have "(i, s) \<in> set (order (live_templates now ts))" by (metis find_Some_iff nth_mem)
    then have "(i, s) \<in> set ts" using assms(2) by (simp add: live_templates_def)
    moreover have "i = new_id" using assms(1,4) f by (auto simp: issue_template_def Let_def template_answer_def)
    ultimately show False using assms(3) by (force simp: map_of_eq_None_iff)
  qed
  with assms(1) show "tmpl = template_answer new_id (saturating_add now MINING_TEMPLATE_TTL_SECONDS) fresh"
    "map_of ts' new_id = Some \<lparr>sm_expires_at = saturating_add now MINING_TEMPLATE_TTL_SECONDS, sm_block = fresh,
       sm_miner_address = miner\<rparr>"
    by (auto simp: issue_template_def Let_def split: if_splits)
qed

lemma create_template_Ok:
  assumes "create_block_template X threads json clk t files path miner limit st = Some (Ok tmpl)"
  obtains config bs c where "load_network_config (nf_config files) = Ok config"
    "ensure_network_storage_path (nc_network config) path = Ok ()" "load_blocks X (nd_db st) = Ok bs"
    "build_validated_chain X clk files config bs = Ok c"
    "template_on_chain X t config bs c (db_path (nd_db st)) miner limit (nd_pending st) = Ok tmpl"
  using assms
  by (auto simp: create_block_template_def load_validated_chain_def rbind_Ok split: sum.splits if_splits option.splits)

lemma live_lookup:
  "map_of ts k = Some v \<Longrightarrow> now < sm_expires_at v \<Longrightarrow> map_of (live_templates now ts) k = Some v"
  unfolding live_templates_def by (induction ts) (auto split: if_splits)

lemma solution_submitted:
  assumes "map_of (live_templates now (gw_templates gs)) template_id = Some stored"
    and "blk = with_solution (sm_block stored) nonce mix" and "length (hash_bytes mix) = 32"
  shows "mining_submit_route X clk files path now (from_solution template_id nonce (block_hash X blk) mix) gs
    = (let r = from_solution template_id nonce (block_hash X blk) mix; computed = hash_to_hex (block_hash X blk);
           gs1 = gs\<lparr>gw_templates := filter (\<lambda>(i, _). i \<noteq> template_id) (live_templates now (gw_templates gs))\<rparr> in
       case submit_mined_block X clk files path blk (gw_node gs) of
         (Inr summary, node) \<Rightarrow>
           (Ok (submit_answer r SubmitAccepted (sb_hash summary) (Some (sb_height summary)) None), gs1\<lparr>gw_node := node\<rparr>)
       | (Inl e, node) \<Rightarrow> (Ok (submission_failure r computed e), gs1\<lparr>gw_node := node\<rparr>))"
proof -
  have hex: "trim (hash_to_hex mix) = hash_to_hex mix" "hash_to_hex mix \<noteq> []"
    using assms(3) length_hex_of_bytes [of "hash_bytes mix"]
    by (auto simp: hash_to_hex_def trim_id hex_of_bytes_not_ws simp del: length_hex_of_bytes)
  then show ?thesis
    using assms by (simp add: mining_submit_route_def from_solution_def Let_def hash_hex_roundtrip hash_hex_lower)
qed

lemma template_height:
  assumes "build_validated_chain X clk files config bs = Ok c" and "bs \<noteq> []" and "length bs < 2 ^ 63"
    and "fills_template X c config miner txs blk"
  shows "bh_height (b_header blk) \<noteq> 0"
proof -
  have c: "chain_ok X c" "c_blocks c = bs" using assms(1) chain_from_clocked by (auto simp: build_validated_Ok)
  then have "unat (bh_height (b_header (last bs))) = length bs - 1"
    using assms(2) by (auto simp: chain_ok_def chain_linked_def Let_def last_conv_nth)
  moreover have "bh_height (b_header blk) = bh_height (b_header (last bs)) + 1"
    using assms(4) c(2) by (simp add: fills_template_def Let_def)
  ultimately have "unat (bh_height (b_header blk)) = length bs"
    using assms(2,3) by (simp add: unat_add_small Suc_leI)
  with assms(2) show ?thesis by auto
qed

lemma template_route_Ok:
  assumes "mining_template_route X threads json clk t files path cfg order now new_id miner gs = Some (Ok tmpl, gs1)"
  obtains bt ts where "create_block_template X threads json clk t files path miner (rc_max_mempool_transactions cfg)
      (gw_node gs) = Some (Ok bt)" "issue_template order now new_id miner (bt_block bt) (gw_templates gs) = (Ok tmpl, ts)"
    "gs1 = gs\<lparr>gw_templates := ts\<rparr>"
proof -
  obtain r where r: "create_block_template X threads json clk t files path miner (rc_max_mempool_transactions cfg)
      (gw_node gs) = Some r"
    using assms by (auto simp: mining_template_route_def)
  show thesis
  proof (cases r)
    case (Inr bt)
    with r assms show thesis
      by (intro that [of bt "snd (issue_template order now new_id miner (bt_block bt) (gw_templates gs))"])
        (auto simp: mining_template_route_def split: prod.splits)
  qed (use r assms in \<open>simp add: mining_template_route_def\<close>)
qed

text \<open>
  C7: A solution of a served template becomes the next block. A template was issued by
  \<open>/mining/template\<close> under a fresh identifier; the miner's client accepted it and built its block;
  the miner found a nonce and mix hash for it. Then \<open>/mining/submit\<close> before the expiry, on a
  node whose chain has not changed, answers \<open>accepted\<close> with the hash and height of the block, and
  the stored chain is the old one followed by that block. Assumed are the clock not running
  backwards, limits of the inputs as for the node, and that the hash of the block is new.
\<close>

theorem gateway_solution_accepted:
  assumes "mining_template_route X threads json clk t files path cfg order now new_id miner gs = Some (Ok tmpl, gs1)"
    and "\<forall>ts. set (order ts) = set ts" and "map_of (gw_templates gs) new_id = None" and "mt_template_id tmpl = new_id"
    and "validate_and_build X now1 miner tmpl = Ok b" and "blk = with_solution b nonce mix"
    and "is_ok (ensure_valid X blk)" and "length (hash_bytes mix) = 32"
    and "now2 < mt_expires_at tmpl" and "\<forall>i. clk i \<le> clk2 i"
    and "load_network_config (nf_config files) = Ok config" and "load_blocks X (nd_db (gw_node gs)) = Ok bs"
    and "build_validated_chain X clk files config bs = Ok c"
    and "unat (bh_timestamp (b_header b)) \<le> unat (clk2 (length bs)) + 7200"
    and "\<forall>tx\<in>set (b_transactions b). length (tx_encode X tx) \<le> MAX_TRANSACTION_WIRE_BYTES
           \<and> tx_network X tx = Ok (c_network c)"
    and "hash_to_hex (tx_hash X (hd (b_transactions b)))
           \<notin> ls_applied_hashes (c_state c) \<union> tx_hash_string X ` set (tl (b_transactions b))"
    and "length bs < 2 ^ 63" and "bh_timestamp (b_header (last bs)) \<noteq> - 1"
    and "\<forall>a. unat (next_nonce_of (c_state c) a) + MAX_TRANSACTIONS_PER_BLOCK \<le> 2 ^ 64"
    and "block_hash X blk \<notin> block_hash X ` set bs"
  shows "\<exists>gs2. mining_submit_route X clk2 files path now2 (from_solution new_id nonce (block_hash X blk) mix) gs1
      = (Ok (submit_answer (from_solution new_id nonce (block_hash X blk) mix) SubmitAccepted
               (hash_to_hex (block_hash X blk)) (Some (mt_height tmpl)) None), gs2)
    \<and> load_blocks X (nd_db (gw_node gs2)) = Ok (bs @ [blk])"
proof -
  obtain bt ts where bt: "create_block_template X threads json clk t files path miner (rc_max_mempool_transactions cfg)
      (gw_node gs) = Some (Ok bt)" "issue_template order now new_id miner (bt_block bt) (gw_templates gs) = (Ok tmpl, ts)"
    "gs1 = gs\<lparr>gw_templates := ts\<rparr>"
    by (rule template_route_Ok [OF assms(1)])
  note new = issue_new [OF bt(2) _ assms(3,4)]
  have tmpl: "tmpl = template_answer new_id (saturating_add now MINING_TEMPLATE_TTL_SECONDS) (bt_block bt)"
    "map_of ts new_id = Some \<lparr>sm_expires_at = mt_expires_at tmpl, sm_block = bt_block bt, sm_miner_address = miner\<rparr>"
    using new assms(2) by (simp_all add: template_answer_def Let_def)
  have path: "ensure_network_storage_path (nc_network config) path = Ok ()"
    and tc: "template_on_chain X t config bs c (db_path (nd_db (gw_node gs))) miner (rc_max_mempool_transactions cfg)
      (nd_pending (gw_node gs)) = Ok bt"
    using create_template_Ok [OF bt(1)] assms(11-13) by (metis sum.inject(2))+
  note re = template_rebuilt [OF assms(5) [unfolded tmpl(1)]]
  have sol: "blk = with_solution (bt_block bt) nonce mix" using re(1) assms(6) by simp
  have c: "chain_ok X c" "c_blocks c = bs" "c_network c = nc_network config" and ne: "bs \<noteq> []"
    using assms(12,13) chain_from_clocked load_blocks_not_Nil by (auto simp: build_validated_Ok)
  obtain txs where "fills_template X c config miner txs (bt_block bt)"
    using template_on_chain_Ok [OF c(1)] tc c(2) by metis
  then have "bh_height (b_header blk) \<noteq> 0"
    using template_height [OF assms(13) ne assms(17)] by (simp add: sol with_solution_def)
  then have "validate_checkpoint (c_network c) (bh_height (b_header blk)) (block_hash X blk) = Ok ()"
    by (simp add: checkpoint_admits)
  then obtain c' where c': "append_block X (clk2 (length bs)) blk c = (Ok (), c')"
    using mined_template_accepted [OF assms(13) tc, where blk = blk and nonce = nonce and mix = mix and now = "clk2 (length bs)"] assms(7,14-19) re
    by (auto simp: sol with_solution_def)
  have build: "build_validated_chain X clk2 files config bs = Ok c" using build_validated_later assms(10,13) by blast
  obtain summary st' where sub: "submit_mined_block X clk2 files path blk (gw_node gs) = (Ok summary, st')"
    "sb_hash summary = hash_to_hex (block_hash X blk)" "sb_height summary = bh_height (b_header blk)"
    "load_blocks X (nd_db st') = Ok (bs @ [blk])"
    using submit_mined_accepts [OF assms(11) path assms(12) build c' assms(17,20)] by blast
  let ?stored = "\<lparr>sm_expires_at = mt_expires_at tmpl, sm_block = bt_block bt, sm_miner_address = miner\<rparr>"
  have live: "map_of (live_templates now2 (gw_templates gs1)) new_id = Some ?stored"
    using live_lookup [OF tmpl(2)] assms(9) bt(3) by simp
  have "mt_height tmpl = bh_height (b_header blk)"
    by (simp add: tmpl(1) sol template_answer_def Let_def with_solution_def)
  with sub show ?thesis
    using solution_submitted [OF live _ assms(8), of blk nonce X clk2 files path] sol by (simp add: bt(3) Let_def)
qed

section \<open>A sample gateway\<close>

definition sample_rpc_config :: rpc_config where
  "sample_rpc_config =
     \<lparr>rc_bind_host = ''127.0.0.1'', rc_bind_port = default_rpc_port Devnet, rc_network = Devnet,
      rc_network_id = network_id Devnet, rc_human_name = human_name Devnet,
      rc_status_label = status_label Devnet, rc_address_prefix = address_prefix Devnet,
      rc_chain_data_path = ''chain'', rc_indexer_data_path = ''indexer'', rc_mempool_data_path = ''mempool'',
      rc_public_rpc_allowed = False, rc_access_mode = Local, rc_expose_mining_endpoints = None,
      rc_max_mempool_transactions = 2, rc_max_request_body_bytes = 65536,
      rc_cors_allowed_origin = ''http://127.0.0.1:4173'', rc_cors_allowed_origins = [],
      rc_explorer_static_path = [], rc_allow_mainnet_candidate = False\<rparr>"

definition sample_gateway :: gateway_state where
  "sample_gateway = \<lparr>gw_node = sample_node, gw_templates = []\<rparr>"

lemma sample_create_template:
  "\<exists>bt. create_block_template sample_externals threads json (\<lambda>_. 0) (\<lambda>_. 61) sample_files sample_path
       (sample_address 3) 2 sample_node = Some (Ok bt) \<and> bt_block bt = sample_template_block"
proof -
  obtain tmpl where t: "template_on_chain sample_externals (\<lambda>_. 61) sample_config [sample_genesis] sample_chain
       (db_path sample_db) (sample_address 3) 2 [] = Ok tmpl" "bt_block tmpl = sample_template_block"
    using sample_template by blast
  have "is_ok (address_parse sample_externals (sample_address 3))" by code_simp
  moreover have "\<not> requires_explicit_allow (nc_network sample_config)"
    by (simp add: sample_config_def requires_explicit_allow_def)
  ultimately show ?thesis
    using t sample_paths sample_db_loads sample_build(1)
    by (auto simp: create_block_template_def load_validated_chain_def MAX_BLOCK_TEMPLATE_TRANSACTIONS_def is_ok_iff
        sample_node_def)
qed

lemma sample_template_route:
  "mining_template_route sample_externals threads json (\<lambda>_. 0) (\<lambda>_. 61) sample_files sample_path sample_rpc_config
       (\<lambda>ts. ts) 100 ''t1'' (sample_address 3) sample_gateway
     = Some (Ok (template_answer ''t1'' 190 sample_template_block),
             sample_gateway\<lparr>gw_templates := [(''t1'', \<lparr>sm_expires_at = 190, sm_block = sample_template_block,
                                                  sm_miner_address = sample_address 3\<rparr>)]\<rparr>)"
proof -
  obtain bt where "create_block_template sample_externals threads json (\<lambda>_. 0) (\<lambda>_. 61) sample_files sample_path
       (sample_address 3) 2 sample_node = Some (Ok bt)" "bt_block bt = sample_template_block"
    using sample_create_template by blast
  moreover have "saturating_add (100::u64) 90 = 190" by code_simp
  ultimately show ?thesis
    by (simp add: mining_template_route_def sample_gateway_def sample_rpc_config_def issue_template_def
        live_templates_def MINING_TEMPLATE_TTL_SECONDS_def MAX_ACTIVE_MINING_TEMPLATES_def)
qed

lemma sample_miner_builds:
  "validate_and_build sample_externals 101 (sample_address 3) (template_answer ''t1'' 190 sample_template_block)
     = Ok sample_template_block"
proof -
  let ?t = "sample_reward 1 3 1902587519" and ?tm = "template_answer ''t1'' 190 sample_template_block"
  have f: "mt_protocol ?tm = MINING_PROTOCOL_VERSION" "trim (mt_template_id ?tm) \<noteq> []" "mt_expires_at ?tm = 190"
    "from_network_id (mt_network_id ?tm) = Some Devnet" "mt_transactions ?tm = [?t]"
    "mt_previous_hash ?tm = hash_to_hex hash_zero" "mt_merkle_root ?tm = hash_to_hex (tx_hash sample_externals ?t)"
    by (simp_all add: template_answer_def sample_template_block_def sample_next_def trim_def is_ws_def from_network_id_def)
  have c: "is_coinbase ?t" "tx_to ?t = sample_address 3"
    by (simp_all add: is_coinbase_def sample_reward_def sample_coinbase_def)
  have hex: "hash_from_hex (hash_to_hex hash_zero) = Ok hash_zero"
    "hash_from_hex (hash_to_hex (tx_hash sample_externals ?t)) = Ok (tx_hash sample_externals ?t)"
    by (simp_all add: zero_hash_hex sample_tx_hash_hex)
  have "compute_merkle_root sample_externals [?t] = Ok (tx_hash sample_externals ?t)"
    by (simp add: compute_merkle_root_def merkle_loop.simps)
  then show ?thesis
    by (simp add: validate_and_build_def f c sample_address_parse address_from_public_key_def parse_hash_def hex
        recompute_merkle_root_def Let_def)
      (simp add: template_answer_def sample_template_block_def sample_next_def)
qed

theorem gateway_solution_accepted_witness:
  "\<exists>gs1 tmpl gs2. mining_template_route sample_externals 1 (\<lambda>_. []) (\<lambda>_. 0) (\<lambda>_. 61) sample_files sample_path
       sample_rpc_config (\<lambda>ts. ts) 100 ''t1'' (sample_address 3) sample_gateway = Some (Ok tmpl, gs1)
     \<and> load_blocks sample_externals (nd_db (gw_node gs2)) = Ok [sample_genesis, with_solution sample_template_block 1 hash_zero]
     \<and> snd (mining_submit_route sample_externals (\<lambda>_. 0) sample_files sample_path 150
              (from_solution ''t1'' 1 (block_hash sample_externals (with_solution sample_template_block 1 hash_zero)) hash_zero) gs1)
         = gs2"
proof -
  let ?b = "with_solution sample_template_block 1 hash_zero" and ?h = "b_header sample_template_block"
  have h: "bh_timestamp ?h = 61" "bh_difficulty ?h = 8" "b_transactions sample_template_block = [sample_reward 1 3 1902587519]"
    by (simp_all add: sample_template_block_def sample_next_def)
  have valid: "is_ok (ensure_valid sample_externals ?b)"
    by (rule sample_ensure_valid) (simp_all add: h with_solution_def)
  have new: "block_hash sample_externals ?b \<notin> block_hash sample_externals ` set [sample_genesis]"
    by (simp add: sample_block_hash_nonce with_solution_def sample_genesis_def)
  have nonces: "\<forall>a. unat (next_nonce_of (c_state sample_chain) a) + MAX_TRANSACTIONS_PER_BLOCK \<le> 2 ^ 64"
    by (simp add: sample_chain_def sample_ledger_nonce MAX_TRANSACTIONS_PER_BLOCK_def)
  have cb: "hash_to_hex (tx_hash sample_externals (sample_reward 1 3 1902587519)) \<notin> ls_applied_hashes (c_state sample_chain)"
    using sample_template_coinbase(4) by (simp add: sample_chain_def sample_ledger_hashes)
  have "\<exists>gs2. mining_submit_route sample_externals (\<lambda>_. 0) sample_files sample_path 150
        (from_solution ''t1'' 1 (block_hash sample_externals ?b) hash_zero)
        (sample_gateway\<lparr>gw_templates := [(''t1'', \<lparr>sm_expires_at = 190, sm_block = sample_template_block,
                                                  sm_miner_address = sample_address 3\<rparr>)]\<rparr>)
      = (Ok (submit_answer (from_solution ''t1'' 1 (block_hash sample_externals ?b) hash_zero) SubmitAccepted
               (hash_to_hex (block_hash sample_externals ?b)) (Some (mt_height (template_answer ''t1'' 190 sample_template_block))) None), gs2)
      \<and> load_blocks sample_externals (nd_db (gw_node gs2)) = Ok ([sample_genesis] @ [?b])"
    by (rule gateway_solution_accepted [OF sample_template_route [where threads = 1 and json = "\<lambda>_. []"] _ _ _ sample_miner_builds _ valid
          _ _ _ sample_paths(1) _ sample_build(1) _ _ _ _ _ nonces new])
      (use cb sample_template_coinbase(2,3) sample_db_loads in \<open>simp_all add: h sample_gateway_def sample_node_def
         template_answer_def Let_def hash_zero_def HASH_SIZE_def sample_genesis_def sample_chain_def\<close>)
  then show ?thesis using sample_template_route [where threads = 1 and json = "\<lambda>_. []"] by force
qed

section \<open>A template is spent once\<close>

lemma submit_spends:
  assumes "mr_protocol r = MINING_PROTOCOL_VERSION"
  shows "gw_templates (snd (mining_submit_route X clk files path now r gs))
    = filter (\<lambda>(i, _). i \<noteq> mr_template_id r) (live_templates now (gw_templates gs))"
  using assms by (simp add: mining_submit_route_def Let_def split: option.splits sum.splits prod.splits)

lemma lookup_removed: "map_of (live_templates now (filter (\<lambda>(i, _). i \<noteq> k) ts)) k = None"
  by (auto simp: live_templates_def map_of_eq_None_iff)

text \<open>
  A template is spent by the first submission that names it, whatever becomes of that
  submission. After a request with the supported protocol, also one with an unreadable mix hash,
  a wrong block hash or a block the node refuses, every later request for the same template is
  answered \<open>stale\<close>, with any nonce, and leaves the node alone.
\<close>

theorem template_spent_once:
  assumes "mr_protocol r = MINING_PROTOCOL_VERSION" and "mr_protocol r' = MINING_PROTOCOL_VERSION"
    and "mr_template_id r' = mr_template_id r"
    and "mining_submit_route X clk files path now r gs = (res, gs1)"
  shows "fst (mining_submit_route X clk' files path now' r' gs1)
      = Ok (submit_answer r' SubmitStale (mr_block_hash r') None (Some ''template is unknown or expired''))
    \<and> gw_node (snd (mining_submit_route X clk' files path now' r' gs1)) = gw_node gs1"
proof -
  have "gw_templates gs1 = filter (\<lambda>(i, _). i \<noteq> mr_template_id r) (live_templates now (gw_templates gs))"
    using submit_spends [OF assms(1), of X clk files path now gs] assms(4) by simp
  then have "map_of (live_templates now' (gw_templates gs1)) (mr_template_id r') = None"
    using assms(3) by (simp add: lookup_removed)
  then show ?thesis using assms(2) by (simp add: mining_submit_route_def Let_def)
qed

definition sample_served :: gateway_state where
  "sample_served = sample_gateway\<lparr>gw_templates := [(''t1'', \<lparr>sm_expires_at = 190, sm_block = sample_template_block,
     sm_miner_address = sample_address 3\<rparr>)]\<rparr>"

theorem template_spent_once_witness:
  "let bad = (from_solution ''t1'' 0 hash_zero hash_zero)\<lparr>mr_mix_hash := ''z''\<rparr>;
       good = from_solution ''t1'' 1 (block_hash sample_externals (with_solution sample_template_block 1 hash_zero)) hash_zero
   in is_ok (fst (mining_submit_route sample_externals (\<lambda>_. 0) sample_files sample_path 150 good sample_served))
      \<and> (case mining_submit_route sample_externals (\<lambda>_. 0) sample_files sample_path 150 bad sample_served of
          (res, gs1) \<Rightarrow> \<not> is_ok res \<and> fst (mining_submit_route sample_externals (\<lambda>_. 0) sample_files sample_path 150 good gs1)
            = Ok (submit_answer good SubmitStale (mr_block_hash good) None (Some ''template is unknown or expired'')))"
proof -
  let ?bad = "(from_solution ''t1'' 0 hash_zero hash_zero)\<lparr>mr_mix_hash := ''z''\<rparr>"
  let ?good = "from_solution ''t1'' 1 (block_hash sample_externals (with_solution sample_template_block 1 hash_zero)) hash_zero"
  let ?live = "[(''t1'', \<lparr>sm_expires_at = 190, sm_block = sample_template_block, sm_miner_address = sample_address 3\<rparr>)]"
  obtain res gs1 where r: "mining_submit_route sample_externals (\<lambda>_. 0) sample_files sample_path 150 ?bad sample_served = (res, gs1)"
    by fastforce
  have live: "live_templates 150 (gw_templates sample_served) = ?live"
    by (simp add: live_templates_def sample_served_def)
  have "\<not> is_ok (hash_from_hex (trim ''z''))" by code_simp
  then have bad: "\<not> is_ok res"
    using r by (auto simp: mining_submit_route_def live from_solution_def is_ok_def trim_def is_ws_def Let_def split: sum.splits prod.splits)
  have "map_of (live_templates 150 (gw_templates sample_served)) ''t1''
      = Some \<lparr>sm_expires_at = 190, sm_block = sample_template_block, sm_miner_address = sample_address 3\<rparr>"
    by (simp add: live)
  note sub = solution_submitted [OF this refl, of hash_zero sample_externals "\<lambda>_. 0" sample_files sample_path 1]
  have "is_ok (fst (mining_submit_route sample_externals (\<lambda>_. 0) sample_files sample_path 150 ?good sample_served))"
    using sub by (auto simp: hash_zero_def HASH_SIZE_def Let_def split: sum.splits prod.splits)
  moreover have "fst (mining_submit_route sample_externals (\<lambda>_. 0) sample_files sample_path 150 ?good gs1)
      = Ok (submit_answer ?good SubmitStale (mr_block_hash ?good) None (Some ''template is unknown or expired''))"
    using template_spent_once [of ?bad ?good, OF _ _ _ r] by (simp add: from_solution_def)
  ultimately show ?thesis using r bad by (simp add: Let_def)
qed

section \<open>A solution that comes too late\<close>

lemma append_wrong_height:
  assumes "b_transactions b \<noteq> []" and "length (b_transactions b) \<le> MAX_TRANSACTIONS_PER_BLOCK"
    and "validate_block_bodies X [] (b_transactions b) = Ok ()" and "bh_network_id (b_header b) = network_id (c_network c)"
    and "c_blocks c \<noteq> []" and "bh_height (b_header b) \<noteq> bh_height (b_header (last (c_blocks c))) + 1"
  shows "fst (append_block X now b c)
    = Err (InvalidHeight (bh_height (b_header (last (c_blocks c))) + 1) (bh_height (b_header b)))"
  using assms
  by (simp add: append_block_def mbind_def mlift_def validate_next_block_def Let_def last_block_def not_less)

text \<open>
  A solution for a template the chain has outgrown is answered \<open>rejected\<close>, not \<open>stale\<close>. When the
  stored chain already has a block at the height of the template, validation stops at the height
  before it compares previous hashes, so the answer \<open>stale\<close> with the reason \<open>chain tip changed
  before submission\<close> is not given; the node is unchanged.
\<close>

theorem outgrown_solution_rejected:
  assumes "map_of (live_templates now (gw_templates gs)) template_id = Some stored"
    and "blk = with_solution (sm_block stored) nonce mix" and "length (hash_bytes mix) = 32"
    and "load_network_config (nf_config files) = Ok config"
    and "ensure_network_storage_path (nc_network config) path = Ok ()"
    and "load_blocks X (nd_db (gw_node gs)) = Ok bs" and "build_validated_chain X clk files config bs = Ok c"
    and "b_transactions blk \<noteq> []" and "length (b_transactions blk) \<le> MAX_TRANSACTIONS_PER_BLOCK"
    and "validate_block_bodies X [] (b_transactions blk) = Ok ()"
    and "bh_network_id (b_header blk) = network_id (nc_network config)"
    and "unat (bh_height (b_header blk)) < length bs"
  shows "\<exists>answer gs1. mining_submit_route X clk files path now (from_solution template_id nonce (block_hash X blk) mix) gs
      = (Ok answer, gs1)
    \<and> ms_status answer = SubmitRejected
    \<and> ms_reason answer = Some (node_error_display (NodeCore (InvalidHeight
        (bh_height (b_header (last bs)) + 1) (bh_height (b_header blk)))))
    \<and> gw_node gs1 = gw_node gs"
proof -
  have c: "chain_ok X c" "c_blocks c = bs" "c_network c = nc_network config" and ne: "bs \<noteq> []"
    using assms(6,7) chain_from_clocked load_blocks_not_Nil by (auto simp: build_validated_Ok)
  have "unat (bh_height (b_header (last bs))) = length bs - 1"
    using c ne by (auto simp: chain_ok_def chain_linked_def Let_def last_conv_nth)
  moreover have "unat (bh_height (b_header (last bs))) < 2 ^ 63"
    using assms(6) ne by (auto simp: load_blocks_def load_Ok list_all_iff height_stored_def)
  ultimately have "unat (bh_height (b_header (last bs)) + 1) = length bs" using ne by (simp add: unat_add_small)
  then have "bh_height (b_header blk) \<noteq> bh_height (b_header (last bs)) + 1" using assms(12) by auto
  then have "fst (append_block X (clk (length bs)) blk c)
      = Err (InvalidHeight (bh_height (b_header (last bs)) + 1) (bh_height (b_header blk)))"
    using append_wrong_height [OF assms(8-10)] assms(11) c(2,3) ne by simp
  then have "submit_mined_block X clk files path blk (gw_node gs)
      = (Err (NodeCore (InvalidHeight (bh_height (b_header (last bs)) + 1) (bh_height (b_header blk)))), gw_node gs)"
    using assms(4-7) by (simp add: submit_mined_block_def append_validated_def transact_def load_blocks_def)
  then show ?thesis
    using solution_submitted [OF assms(1-3), of X clk files path]
    by (simp add: Let_def submission_failure_def submit_answer_def)
qed

theorem outgrown_solution_rejected_witness:
  "\<exists>gs answer gs1. load_blocks sample_externals (nd_db (gw_node gs)) = Ok [sample_genesis, sample_next]
     \<and> mining_submit_route sample_externals (\<lambda>_. 0) sample_files sample_path 150
          (from_solution ''t1'' 1 (block_hash sample_externals (with_solution sample_template_block 1 hash_zero)) hash_zero) gs
         = (Ok answer, gs1)
     \<and> ms_status answer = SubmitRejected"
proof -
  obtain summary st' where "adopt_candidate_chain sample_externals (\<lambda>_. 0) (\<lambda>_. 0) sample_files sample_path
      [sample_genesis, sample_next] sample_node = (Ok summary, st')"
    using sample_adopts by blast
  from adopt_candidate_chain_Ok [OF this]
  have db: "load_blocks sample_externals (nd_db st') = Ok [sample_genesis, sample_next]" by blast
  let ?stored = "\<lparr>sm_expires_at = 190, sm_block = sample_template_block, sm_miner_address = sample_address 3\<rparr>"
  let ?gs = "\<lparr>gw_node = st', gw_templates = [(''t1'', ?stored)]\<rparr>" and ?t = "sample_reward 1 3 1902587519"
  have b: "b_transactions (with_solution sample_template_block 1 hash_zero) = [?t]"
    "bh_height (b_header (with_solution sample_template_block 1 hash_zero)) = 1" "bh_height (b_header sample_template_block) = 1"
    "bh_network_id (b_header (with_solution sample_template_block 1 hash_zero)) = network_id (nc_network sample_config)"
    by (simp_all add: with_solution_def sample_template_block_def sample_next_def sample_config_def)
  have mix: "length (hash_bytes hash_zero) = 32" by (simp add: hash_zero_def HASH_SIZE_def)
  have bodies: "validate_block_bodies sample_externals [] [?t] = Ok ()"
    using sample_template_coinbase(2) coinbase_verifies [OF sample_template_coinbase(1)] by simp
  have "\<exists>answer gs1. mining_submit_route sample_externals (\<lambda>_. 0) sample_files sample_path 150
        (from_solution ''t1'' 1 (block_hash sample_externals (with_solution sample_template_block 1 hash_zero)) hash_zero) ?gs
      = (Ok answer, gs1)
    \<and> ms_status answer = SubmitRejected
    \<and> ms_reason answer = Some (node_error_display (NodeCore (InvalidHeight
        (bh_height (b_header (last [sample_genesis, sample_next])) + 1)
        (bh_height (b_header (with_solution sample_template_block 1 hash_zero))))))
    \<and> gw_node gs1 = gw_node ?gs"
    by (rule outgrown_solution_rejected [OF _ _ _ sample_paths _ sample_build(2), where stored = ?stored])
      (use db bodies mix in \<open>simp_all add: b live_templates_def MAX_TRANSACTIONS_PER_BLOCK_def
         del: validate_block_bodies.simps\<close>)
  then show ?thesis using db by (intro exI [of _ ?gs]) auto
qed

section \<open>The store of templates\<close>

text \<open>
  The states of a running gateway, with the last clock reading of a mining route. The clock does
  not run backwards, and the node's files may change between two requests in any way.
\<close>

inductive gateway_reach :: "externals \<Rightarrow> u64 \<Rightarrow> gateway_state \<Rightarrow> bool" for X where
  started: "gw_templates gs = [] \<Longrightarrow> gateway_reach X now gs"
| node_changed: "gateway_reach X now gs \<Longrightarrow> gateway_reach X now (gs\<lparr>gw_node := node\<rparr>)"
| template: "gateway_reach X now gs \<Longrightarrow> now \<le> now' \<Longrightarrow> (\<And>ts. mset (order ts) = mset ts)
    \<Longrightarrow> mining_template_route X threads json clk t files path cfg order now' new_id miner gs = Some (res, gs')
    \<Longrightarrow> gateway_reach X now' gs'"
| submission: "gateway_reach X now gs \<Longrightarrow> now \<le> now' \<Longrightarrow> mining_submit_route X clk files path now' r gs = (res', gs')
    \<Longrightarrow> gateway_reach X now' gs'"

definition store_ok :: "u64 \<Rightarrow> template_store \<Rightarrow> bool" where
  "store_ok now ts \<longleftrightarrow> map_wf ts \<and> length ts \<le> MAX_ACTIVE_MINING_TEMPLATES
     \<and> (\<forall>miner fresh. \<forall>p\<in>set ts. \<forall>q\<in>set ts.
          reusable now miner fresh (snd p) \<and> reusable now miner fresh (snd q) \<longrightarrow> p = q)"

lemma reusable_earlier: "reusable now' miner fresh s \<Longrightarrow> now \<le> now' \<Longrightarrow> reusable now miner fresh s"
  by (auto simp: reusable_def Let_def word_less_nat_alt word_le_nat_alt unat_saturating_add)

lemma map_wf_filter: "map_wf m \<Longrightarrow> map_wf (filter P m)"
  by (induction m) auto

lemma store_ok_shrinks:
  assumes "store_ok now ts" and "now \<le> now'"
  shows "store_ok now' (filter P ts)"
proof -
  have "p = q" if "p \<in> set (filter P ts)" "q \<in> set (filter P ts)" "reusable now' m f (snd p)" "reusable now' m f (snd q)"
    for p q m f
    using that assms(1) reusable_earlier [OF _ assms(2)] unfolding store_ok_def set_filter by blast
  with assms(1) show ?thesis unfolding store_ok_def
    by (metis (no_types, lifting) map_wf_filter le_trans length_filter_le)
qed

lemma set_map_insert_fresh: "set (map_insert k v m) \<subseteq> insert (k, v) (set m)"
  by (induction k v m rule: map_insert.induct) auto

lemma length_map_insert: "length (map_insert k v m) \<le> Suc (length m)"
  by (induction k v m rule: map_insert.induct) auto

lemma same_work:
  "reusable now a f s \<Longrightarrow> reusable now a f u \<Longrightarrow> reusable now b g u \<Longrightarrow> reusable now b g s"
  by (auto simp: reusable_def Let_def)

lemma issue_keeps_store:
  assumes "store_ok now ts" and "now \<le> now'" and "mset (order (live_templates now' ts)) = mset (live_templates now' ts)"
    and "issue_template order now' new_id miner fresh ts = (res, ts')"
  shows "store_ok now' ts'"
proof -
  let ?live = "live_templates now' ts" and ?new = "\<lparr>sm_expires_at = saturating_add now' MINING_TEMPLATE_TTL_SECONDS,
    sm_block = fresh, sm_miner_address = miner\<rparr>"
  have live: "store_ok now' ?live"
    using store_ok_shrinks [OF assms(1,2)] by (simp add: live_templates_def)
  consider "ts' = ?live"
    | "find (\<lambda>(_, stored). reusable now' miner fresh stored) (order ?live) = None"
      "length ?live < MAX_ACTIVE_MINING_TEMPLATES" "ts' = map_insert new_id ?new ?live"
    using assms(4) by (auto simp: issue_template_def Let_def not_le split: option.splits if_splits)
  then show ?thesis
  proof cases
    case 2
    have "set (order ?live) = set ?live" using assms(3) by (metis set_mset_mset)
    then have none: "\<not> reusable now' miner fresh s" if "(i, s) \<in> set ?live" for i s
      using 2(1) that by (auto simp: find_None_iff)
    have "p = q" if "p \<in> set ts'" "q \<in> set ts'" "reusable now' m f (snd p)" "reusable now' m f (snd q)" for p q m f
    proof -
      have "p = (new_id, ?new) \<or> p \<in> set ?live" "q = (new_id, ?new) \<or> q \<in> set ?live"
        using that(1,2) set_map_insert_fresh [of new_id ?new ?live] 2(3) by auto
      moreover have "\<not> reusable now' m f (snd x)" if "x \<in> set ?live" "reusable now' m f ?new" for x
      proof
        assume "reusable now' m f (snd x)"
        moreover have "reusable now' miner fresh ?new" using that(2) by (simp add: reusable_def Let_def)
        ultimately have "reusable now' miner fresh (snd x)" using that(2) same_work by blast
        with none [of "fst x" "snd x"] that(1) show False by simp
      qed
      ultimately show "p = q" using that(3,4) live unfolding store_ok_def by (metis snd_conv)
    qed
    moreover have "map_wf ts'" "length ts' \<le> MAX_ACTIVE_MINING_TEMPLATES"
      using live 2 le_trans [OF length_map_insert] by (auto simp: store_ok_def Suc_le_eq)
    ultimately show ?thesis unfolding store_ok_def by blast
  qed (simp add: live)
qed

lemma gateway_reach_store: "gateway_reach X now gs \<Longrightarrow> store_ok now (gw_templates gs)"
proof (induction rule: gateway_reach.induct)
  case (template now gs now' order threads json clk t files path cfg new_id miner res gs')
  obtain r where r: "create_block_template X threads json clk t files path miner (rc_max_mempool_transactions cfg)
      (gw_node gs) = Some r"
    using template.hyps(4) by (auto simp: mining_template_route_def)
  show ?case
  proof (cases r)
    case (Inl e)
    then have "gw_templates gs' = filter (\<lambda>_. True) (gw_templates gs)"
      using r template.hyps(4) by (simp add: mining_template_route_def)
    then show ?thesis using store_ok_shrinks [OF template.IH template.hyps(2)] by metis
  next
    case (Inr bt)
    then have "gw_templates gs' = snd (issue_template order now' new_id miner (bt_block bt) (gw_templates gs))"
      using r template.hyps(4) by (auto simp: mining_template_route_def split: prod.splits)
    then show ?thesis
      using issue_keeps_store [of now "gw_templates gs" now' order, OF template.IH template.hyps(2,3)] by (metis prod.collapse)
  qed
next
  case (submission now gs now' clk files path r res' gs')
  show ?case
  proof (cases "mr_protocol r = MINING_PROTOCOL_VERSION")
    case True
    then have "gw_templates gs' = filter (\<lambda>(i, _). i \<noteq> mr_template_id r) (live_templates now' (gw_templates gs))"
      using submit_spends [OF True, of X clk files path now' gs] submission.hyps(3) by simp
    also have "\<dots> = filter (\<lambda>p. fst p \<noteq> mr_template_id r \<and> now' < sm_expires_at (snd p)) (gw_templates gs)"
      by (simp add: live_templates_def case_prod_beta conj_commute)
    finally show ?thesis using store_ok_shrinks [OF submission.IH submission.hyps(2)] by simp
  next
    case False
    then have "gs' = gs" using submission.hyps(3) by (simp add: mining_submit_route_def)
    then show ?thesis using store_ok_shrinks [OF submission.IH submission.hyps(2), of "\<lambda>_. True"] by simp
  qed
qed (simp_all add: store_ok_def)

lemma find_unique:
  assumes "mset xs = mset ys" and "\<And>p q. p \<in> set xs \<Longrightarrow> q \<in> set xs \<Longrightarrow> P p \<Longrightarrow> P q \<Longrightarrow> p = q"
  shows "find P xs = find P ys"
proof -
  have s: "set xs = set ys" using assms(1) by (metis set_mset_mset)
  show ?thesis
  proof (cases "find P xs")
    case None
    then show ?thesis using s by (simp add: find_None_iff) (metis None find_None_iff)
  next
    case (Some p)
    then have p: "p \<in> set xs" "P p" by (metis find_Some_iff nth_mem, metis find_Some_iff)
    then obtain q where q: "find P ys = Some q" using s by (metis find_None_iff not_Some_eq)
    then have "q \<in> set ys" "P q" by (metis find_Some_iff nth_mem, metis find_Some_iff)
    with p q Some assms(2) s show ?thesis by simp
  qed
qed



section \<open>Exposure\<close>

text \<open>
  What a validated configuration exposes. A gateway that listens on all addresses serves
  the mining routes only in the private mining mode, where it takes no transactions; it is never
  in local mode and its operator allowed it. Every origin is allowed only in local mode, hence
  never on such a listener. The port and the identity are those of the network, and the mainnet
  candidate needs its explicit permission.
\<close>

theorem validated_config_exposure:
  assumes "rpc_config_validate refused c = Ok ()"
  shows "(rc_bind_host c = ''0.0.0.0'' \<longrightarrow> rc_public_rpc_allowed c \<and> rc_access_mode c \<noteq> Local \<and> \<not> any_origin c
      \<and> (''/mining/submit'' \<in> set (write_routes c) \<longrightarrow> rc_access_mode c = PrivateMining \<and> ''/transactions'' \<notin> set (write_routes c)))
    \<and> (any_origin c \<longrightarrow> rc_access_mode c = Local)
    \<and> rc_bind_port c = default_rpc_port (rc_network c) \<and> rc_network_id c = network_id (rc_network c)
    \<and> (rc_network c = MainnetCandidate \<longrightarrow> rc_allow_mainnet_candidate c)"
proof -
  note v = assms [unfolded rpc_config_validate_def Let_def]
  have origins: "\<forall>u\<in>set (effective_cors_origins c). \<not> (trim u = ''*'' \<and> rc_access_mode c \<noteq> Local)"
    using v by (auto simp: rbind_Ok try_each_Ok check_origin_def)
  have "trim ''*'' = ''*''" by (simp add: trim_def is_ws_def)
  with origins have any: "any_origin c \<longrightarrow> rc_access_mode c = Local" by (auto simp: any_origin_def)
  have facts: "rc_bind_host c = ''0.0.0.0'' \<longrightarrow> rc_public_rpc_allowed c \<and> rc_access_mode c \<noteq> Local"
    "mining_endpoints_enabled c \<and> rc_bind_host c = ''0.0.0.0'' \<longrightarrow> rc_access_mode c = PrivateMining"
    "rc_bind_port c = default_rpc_port (rc_network c)" "rc_network_id c = network_id (rc_network c)"
    "rc_network c = MainnetCandidate \<longrightarrow> rc_allow_mainnet_candidate c"
    using v by (auto simp: rbind_Ok requires_explicit_allow_def)
  have "''/mining/submit'' \<in> set (write_routes c) \<longleftrightarrow> mining_endpoints_enabled c"
    "''/transactions'' \<in> set (write_routes c) \<longleftrightarrow> allows_transaction_submission (rc_access_mode c)"
    by (auto simp: write_routes_def)
  with any facts show ?thesis by (auto simp: allows_transaction_submission_def)
qed

lemma sample_public_config:
  "rpc_config_validate (\<lambda>_. None) (sample_rpc_config\<lparr>rc_bind_host := ''0.0.0.0'', rc_public_rpc_allowed := True,
     rc_access_mode := PrivateMining\<rparr>) = Ok ()"
  by code_simp

theorem validated_config_exposure_witness:
  "let c = sample_rpc_config\<lparr>rc_bind_host := ''0.0.0.0'', rc_public_rpc_allowed := True, rc_access_mode := PrivateMining\<rparr>
   in ''/mining/submit'' \<in> set (write_routes c) \<and> ''/transactions'' \<notin> set (write_routes c) \<and> \<not> any_origin c"
proof -
  have "''/mining/submit'' \<in> set (write_routes (sample_rpc_config\<lparr>rc_bind_host := ''0.0.0.0'', rc_public_rpc_allowed := True,
     rc_access_mode := PrivateMining\<rparr>))"
    by code_simp
  with validated_config_exposure [OF sample_public_config] show ?thesis by (simp add: Let_def)
qed

text \<open>
  The check looks for the text \<open>0.0.0.0\<close>: \<open>[::]\<close>, the IPv6 address of all interfaces, passes it in local mode,
  with the mining routes and without \<open>public_rpc_allowed\<close>.
\<close>

lemma ipv6_wildcard_passes:
  "let c = sample_rpc_config\<lparr>rc_bind_host := ''[::]''\<rparr>
   in rpc_config_validate (\<lambda>_. None) c = Ok () \<and> ''/mining/submit'' \<in> set (write_routes c) \<and> \<not> rc_public_rpc_allowed c"
  by code_simp

end
