(* ===== verification/Vireon_Indexed.thy ===== *)
theory Vireon_Indexed
  imports
    Vireon_Index
begin

text \<open>
  What the chain index guarantees: following the chain incrementally gives exactly the index of a
  full rebuild; balances agree with the indexed transfers; every mined transaction is found.
\<close>

section \<open>Ordered maps of activities\<close>

lemma map_insert_same: "map_wf m \<Longrightarrow> map_of m k = Some v \<Longrightarrow> map_insert k v m = m"
proof (induction m)
  case (Cons p m)
  obtain k' v' where p: "p = (k', v')" by (cases p)
  show ?case
  proof (cases "k = k'")
    case False
    with Cons.prems p have m: "map_wf m" "map_of m k = Some v" by simp_all
    have "k' < k" using Cons.prems(1) p map_of_SomeD [OF m(2)] by (force simp: map_wf_def)
    with False Cons.IH [OF m] p show ?thesis by auto
  qed (use Cons.prems p in simp)
qed simp

definition keys :: "('k, 'v) btree_map \<Rightarrow> 'k set" where
  "keys m = fst ` set m"

lemma keys_Nil [simp]: "keys [] = {}" by (simp add: keys_def)

lemma keys_insert [simp]: "keys (map_insert k v m) = insert k (keys m)"
  using set_map_insert [of k v m] by (simp add: keys_def)

lemma keys_map_of: "a \<in> keys m \<Longrightarrow> \<exists>e. map_of m a = Some e"
  by (metis keys_def map_of_eq_None_iff not_None_eq)

lemma map_insert_values:
  "map (\<lambda>(k, v). (k, g v)) (map_insert k v m) = map_insert k (g v) (map (\<lambda>(k, v). (k, g v)) m)"
  by (induction k v m rule: map_insert.induct) auto

definition clear_entry :: "address_activity \<Rightarrow> address_activity" where
  "clear_entry e = e\<lparr>aa_exists_in_ledger := False, aa_balance := 0\<rparr>"

lemma clear_balances_alt: "clear_balances m = map (\<lambda>(a, e). (a, clear_entry e)) m"
  by (simp add: clear_balances_def clear_entry_def)

lemma map_of_clear [simp]: "map_of (clear_balances m) a = map_option clear_entry (map_of m a)"
  by (simp add: clear_balances_alt map_of_map)

lemma map_wf_clear [simp]: "map_wf (clear_balances m) = map_wf m"
  by (simp add: clear_balances_alt map_wf_def comp_def case_prod_unfold)

lemma clear_entry_empty [simp]: "clear_entry (empty_address_activity a) = empty_address_activity a"
  by (simp add: clear_entry_def empty_address_activity_def)

lemma clear_touch:
  assumes "\<And>e. clear_entry (f e) = f (clear_entry e)"
  shows "clear_balances (touch_address a f m) = touch_address a f (clear_balances m)"
  by (simp add: touch_address_def clear_balances_alt map_insert_values assms map_of_map
      split: option.splits)

lemma clear_notes [simp]:
  "clear_entry (note_sent h d e) = note_sent h d (clear_entry e)"
  "clear_entry (note_received h x e) = note_received h x (clear_entry e)"
  "clear_entry (note_mined k r e) = note_mined k r (clear_entry e)"
  by (simp_all add: clear_entry_def note_sent_def note_received_def note_mined_def)

lemma clear_index_addresses:
  "clear_balances (index_addresses t itx h r m) = index_addresses t itx h r (clear_balances m)"
  by (auto simp: index_addresses_def Let_def clear_touch split: option.splits)

lemma map_wf_touch [simp]: "map_wf m \<Longrightarrow> map_wf (touch_address a f m)"
  by (simp add: touch_address_def)

lemma keys_touch [simp]: "keys (touch_address a f m) = insert a (keys m)"
  by (simp add: touch_address_def)

lemma map_wf_index_addresses: "map_wf m \<Longrightarrow> map_wf (index_addresses t itx h r m)"
  by (simp add: index_addresses_def Let_def split: option.splits)

lemma refresh_Cons [simp]:
  "refresh_balances ((a, b) # bal) m =
     refresh_balances bal (touch_address a (\<lambda>e. e\<lparr>aa_exists_in_ledger := True, aa_balance := b\<rparr>) m)"
  by (simp add: refresh_balances_def)

lemma refresh_Nil [simp]: "refresh_balances [] m = m"
  by (simp add: refresh_balances_def)

lemma clear_refresh:
  "map_wf m \<Longrightarrow> keys bal \<subseteq> keys m \<Longrightarrow>
     clear_balances (refresh_balances bal m) = clear_balances m"
proof (induction bal arbitrary: m)
  case (Cons p bal)
  obtain a b where p: "p = (a, b)" by (cases p)
  let ?f = "\<lambda>e. e\<lparr>aa_exists_in_ledger := True, aa_balance := b\<rparr>"
  obtain e where e: "map_of m a = Some e" using Cons.prems(2) p keys_map_of [of a m] by (auto simp: keys_def)
  have "clear_balances (touch_address a ?f m) = map_insert a (clear_entry e) (clear_balances m)"
    by (simp add: touch_address_def e clear_balances_alt map_insert_values clear_entry_def)
  also have "\<dots> = clear_balances m"
    using Cons.prems(1) e by (intro map_insert_same) simp_all
  finally show ?case
    using Cons.IH [of "touch_address a ?f m"] Cons.prems p by (simp add: keys_def [of bal] keys_def [of "(a, b) # bal"]) blast
qed simp

section \<open>One block\<close>

definition index_block :: "externals \<Rightarrow> ledger_state \<Rightarrow> block \<Rightarrow> 'm index_maps_scheme \<Rightarrow> 'm index_maps_scheme" where
  "index_block X s blk m =
     (let height = bh_height (b_header blk); reward = ledger_entry (ls_coinbase_rewards s) height;
          m1 = fold (index_transaction X blk reward) (enumerate 0 (b_transactions blk)) m;
          ib = make_indexed_block X s blk (hd (b_transactions blk)) in
      m1\<lparr>ix_miner_rewards_by_block := map_insert height reward (ix_miner_rewards_by_block m1),
         ix_fees_by_block := map_insert height (ib_fees ib) (ix_fees_by_block m1),
         ix_blocks_by_hash := map_insert (ib_hash ib) ib (ix_blocks_by_hash m1),
         ix_blocks_by_height := map_insert height ib (ix_blocks_by_height m1)\<rparr>)"

lemma append_to_maps_Ok:
  "append_block_to_index_maps X s blk m = Ok m' \<longleftrightarrow> b_transactions blk \<noteq> [] \<and> m' = index_block X s blk m"
  by (cases "b_transactions blk") (auto simp: append_block_to_index_maps_def index_block_def Let_def rbind_Ok)

lemma append_all_Ok:
  "try_fold (\<lambda>m blk. append_block_to_index_maps X s blk m) m bs = Ok m' \<longleftrightarrow>
     (\<forall>b\<in>set bs. b_transactions b \<noteq> []) \<and> m' = fold (index_block X s) bs m"
  by (induction bs arbitrary: m) (auto simp: rbind_Ok append_to_maps_Ok)

definition records_at :: "ledger_state \<Rightarrow> u64 \<Rightarrow> u64 \<times> u64 \<times> u64 \<times> u64" where
  "records_at s h = (ledger_entry (ls_coinbase_rewards s) h, ledger_entry (ls_block_fees s) h,
     ledger_entry (ls_block_burned_fees s) h, ledger_entry (ls_block_priority_fees s) h)"

lemma index_block_cong:
  "records_at s (bh_height (b_header b)) = records_at s' (bh_height (b_header b)) \<Longrightarrow>
     index_block X s b m = index_block X s' b m"
  by (simp add: index_block_def make_indexed_block_def records_at_def Let_def)

lemma index_blocks_cong:
  "(\<And>b. b \<in> set bs \<Longrightarrow> records_at s (bh_height (b_header b)) = records_at s' (bh_height (b_header b))) \<Longrightarrow>
     fold (index_block X s) bs m = fold (index_block X s') bs m"
  by (rule fold_cong) (auto intro!: ext index_block_cong)

definition cleared :: "'m index_maps_scheme \<Rightarrow> 'm index_maps_scheme" where
  "cleared m = m\<lparr>ix_addresses := clear_balances (ix_addresses m)\<rparr>"

lemma fold_hom: "(\<And>x m. x \<in> set xs \<Longrightarrow> h (f x m) = g x (h m)) \<Longrightarrow> h (fold f xs m) = fold g xs (h m)"
  by (induction xs arbitrary: m) auto

lemma cleared_index_transaction:
  "cleared (index_transaction X blk r it m) = index_transaction X blk r it (cleared m)"
  by (simp add: cleared_def index_transaction_def clear_index_addresses Let_def split: prod.splits)

lemma cleared_index_block: "cleared (index_block X s b m) = index_block X s b (cleared m)"
proof -
  let ?r = "ledger_entry (ls_coinbase_rewards s) (bh_height (b_header b))"
  let ?f = "fold (index_transaction X b ?r) (enumerate 0 (b_transactions b))"
  have "cleared (?f m) = ?f (cleared m)"
    by (rule fold_hom) (rule cleared_index_transaction)
  from this [symmetric] show ?thesis unfolding index_block_def Let_def by (simp add: cleared_def)
qed

lemma truncate_sel [simp]:
  "ix_addresses (index_maps.truncate m) = ix_addresses m"
  "ix_transactions_by_hash (index_maps.truncate m) = ix_transactions_by_hash m"
  "ix_blocks_by_height (index_maps.truncate m) = ix_blocks_by_height m"
  "ix_blocks_by_hash (index_maps.truncate m) = ix_blocks_by_hash m"
  "ix_miner_rewards_by_block (index_maps.truncate m) = ix_miner_rewards_by_block m"
  "ix_fees_by_block (index_maps.truncate m) = ix_fees_by_block m"
  by (simp_all add: index_maps.truncate_def)

lemma truncate_index_transaction:
  "index_maps.truncate (index_transaction X blk r it m) = index_transaction X blk r it (index_maps.truncate m)"
  by (cases it) (simp add: index_transaction_def Let_def index_maps.truncate_def)

lemma truncate_index_block:
  "index_maps.truncate (index_block X s b m) = index_block X s b (index_maps.truncate m)"
proof -
  let ?r = "ledger_entry (ls_coinbase_rewards s) (bh_height (b_header b))"
  let ?f = "\<lambda>m. fold (index_transaction X b ?r) (enumerate 0 (b_transactions b)) m"
  have t: "index_maps.truncate (?f m) = fold (index_transaction X b ?r) (enumerate 0 (b_transactions b)) (index_maps.truncate m)"
    by (rule fold_hom) (rule truncate_index_transaction)
  show ?thesis unfolding index_block_def Let_def t [symmetric] by (simp add: index_maps.truncate_def)
qed

lemma truncate_cleared: "index_maps.truncate (cleared m) = cleared (index_maps.truncate m)"
  by (simp add: cleared_def index_maps.truncate_def)

section \<open>The ledger behind the index\<close>

lemma apply_transaction_records:
  assumes "apply_transaction X t b s = (Ok fs, s')"
  shows "ls_coinbase_rewards s' = ls_coinbase_rewards s \<and> ls_block_fees s' = ls_block_fees s
    \<and> ls_block_burned_fees s' = ls_block_burned_fees s \<and> ls_block_priority_fees s' = ls_block_priority_fees s"
proof (cases "is_coinbase t")
  case True
  with assms show ?thesis by (auto simp: apply_coinbase_iff coinbase_state_def set_balance_def)
next
  case False
  with assms show ?thesis by (auto simp: apply_spend_iff spend_state_def set_balance_def)
qed

definition tx_addresses :: "transaction \<Rightarrow> string set" where
  "tx_addresses t = insert (tx_to t) (set_option (tx_from t))"

definition block_addresses :: "block \<Rightarrow> string set" where
  "block_addresses b = (\<Union>t\<in>set (b_transactions b). tx_addresses t)"

lemma keys_set_balance [simp]:
  "keys (ls_balances (set_balance a v s)) = insert a (keys (ls_balances s))"
  by (simp add: set_balance_def)

lemma apply_transaction_accounts:
  assumes "apply_transaction X t b s = (Ok fs, s')"
  shows "keys (ls_balances s') \<subseteq> keys (ls_balances s) \<union> tx_addresses t"
proof (cases "is_coinbase t")
  case True
  with assms show ?thesis by (auto simp: apply_coinbase_iff coinbase_state_frame tx_addresses_def)
next
  case False
  with assms obtain sender left got burned where
    "tx_from t = Some sender" "s' = spend_state X t sender left got burned s"
    by (auto simp: apply_spend_iff)
  then show ?thesis by (auto simp: spend_state_frame tx_addresses_def)
qed

lemma apply_spends_effect:
  assumes "apply_spends X b ts s = (Ok (), s')"
  shows "keys (ls_balances s') \<subseteq> keys (ls_balances s) \<union> (\<Union>t\<in>set ts. tx_addresses t)"
    and "ls_coinbase_rewards s' = ls_coinbase_rewards s \<and> ls_block_fees s' = ls_block_fees s
    \<and> ls_block_burned_fees s' = ls_block_burned_fees s \<and> ls_block_priority_fees s' = ls_block_priority_fees s"
  using assms
proof (induction ts arbitrary: s)
  case (Cons t ts)
  {
    case 1
    then obtain fs s1 where "apply_transaction X t b s = (Ok fs, s1)" "apply_spends X b ts s1 = (Ok (), s')"
      by (auto simp: apply_spends_def mbind_Ok mret_Ok)
    with Cons.IH(1) [of s1] apply_transaction_accounts [of X t b s fs s1] show ?case by auto
  next
    case 2
    then obtain fs s1 where "apply_transaction X t b s = (Ok fs, s1)" "apply_spends X b ts s1 = (Ok (), s')"
      by (auto simp: apply_spends_def mbind_Ok mret_Ok)
    with Cons.IH(2) [of s1] apply_transaction_records [of X t b s fs s1] show ?case by simp
  }
qed (simp_all add: apply_spends_def mret_Ok)

lemma apply_block_index_facts:
  assumes "ledger_inv s" and "apply_block X blk s = (Ok sm, s')"
  shows "h \<noteq> bh_height (b_header blk) \<Longrightarrow> records_at s' h = records_at s h"
    and "keys (ls_balances s') \<subseteq> keys (ls_balances s) \<union> block_addresses blk"
    and "b_transactions blk \<noteq> []"
proof -
  obtain coinbase spends fs s1 s2 emitted where b:
    "b_transactions blk = coinbase # spends" "apply_spends X (bs_base_fee sm) spends s = (Ok (), s1)"
    "apply_transaction X coinbase (bs_base_fee sm) s1 = (Ok fs, s2)" "s' = record_block X blk sm emitted s2"
    using assms(2) by (rule apply_block_OkE)
  note records = apply_spends_effect(2) [OF b(2)] apply_transaction_records [OF b(3)]
  show "h \<noteq> bh_height (b_header blk) \<Longrightarrow> records_at s' h = records_at s h"
    using records by (simp add: b(4) records_at_def record_block_def Let_def ledger_entry_def)
  show "keys (ls_balances s') \<subseteq> keys (ls_balances s) \<union> block_addresses blk"
    using apply_spends_effect(1) [OF b(2)] apply_transaction_accounts [OF b(3)]
    by (auto simp: b(1,4) record_block_frame block_addresses_def)
  show "b_transactions blk \<noteq> []" by (simp add: b(1))
qed

lemma run_ledger_index_facts:
  assumes "ledger_inv s" and "run (ledger_step X) bs s = Some s'"
  shows "unat h < ledger_blocks s \<Longrightarrow> records_at s' h = records_at s h"
    and "keys (ls_balances s') \<subseteq> keys (ls_balances s) \<union> (\<Union>b\<in>set bs. block_addresses b)"
    and "\<forall>b\<in>set bs. b_transactions b \<noteq> []"
  using assms
proof (induction bs arbitrary: s)
  case (Cons b bs)
  have step: "\<exists>sm s1. apply_block X b s = (Ok sm, s1) \<and> run (ledger_step X) bs s1 = Some s' \<and> ledger_inv s1
      \<and> ledger_blocks s1 = ledger_blocks s + 1 \<and> unat (bh_height (b_header b)) = ledger_blocks s"
    if "ledger_inv s" "run (ledger_step X) (b # bs) s = Some s'" for s
    using that apply_block_inv [OF that(1)] by (cases "ledger_step X b s") (auto simp: ledger_step_Some)
  {
    case 1
    from step [OF 1(2,3)] obtain sm s1 where s1: "apply_block X b s = (Ok sm, s1)"
      "run (ledger_step X) bs s1 = Some s'" "ledger_inv s1" "ledger_blocks s1 = ledger_blocks s + 1"
      "unat (bh_height (b_header b)) = ledger_blocks s" by blast
    have "h \<noteq> bh_height (b_header b)" using 1(1) s1(5) by auto
    with Cons.IH(1) [OF _ s1(3,2)] apply_block_index_facts(1) [OF 1(2) s1(1)] 1(1) s1(4) show ?case by simp
  next
    case 2
    from step [OF 2] obtain sm s1 where s1: "apply_block X b s = (Ok sm, s1)"
      "run (ledger_step X) bs s1 = Some s'" "ledger_inv s1" by blast
    from Cons.IH(2) [OF s1(3,2)] apply_block_index_facts(2) [OF 2(1) s1(1)] show ?case by auto
  next
    case 3
    from step [OF 3] obtain sm s1 where s1: "apply_block X b s = (Ok sm, s1)"
      "run (ledger_step X) bs s1 = Some s'" "ledger_inv s1" by blast
    from Cons.IH(3) [OF s1(3,2)] apply_block_index_facts(3) [OF 3(1) s1(1)] show ?case by auto
  }
qed auto

section \<open>Extending is rebuilding\<close>

lemma index_transaction_addresses:
  "keys (ix_addresses (index_transaction X blk r (i, t) m)) = keys (ix_addresses m) \<union> tx_addresses t"
  "map_wf (ix_addresses m) \<Longrightarrow> map_wf (ix_addresses (index_transaction X blk r (i, t) m))"
  by (auto simp: index_transaction_def index_addresses_def make_indexed_transaction_def tx_addresses_def Let_def
      split: option.splits)

lemma index_transactions_addresses:
  "keys (ix_addresses (fold (index_transaction X blk r) its m))
     = keys (ix_addresses m) \<union> (\<Union>t\<in>snd ` set its. tx_addresses t)"
  "map_wf (ix_addresses m) \<Longrightarrow> map_wf (ix_addresses (fold (index_transaction X blk r) its m))"
  by (induction its arbitrary: m) (auto simp: index_transaction_addresses)

lemma index_block_addresses:
  "keys (ix_addresses (index_block X s b m)) = keys (ix_addresses m) \<union> block_addresses b"
  "map_wf (ix_addresses m) \<Longrightarrow> map_wf (ix_addresses (index_block X s b m))"
proof -
  have "snd ` set (enumerate 0 ts) = set ts" for ts :: "transaction list"
    by (metis list.set_map map_snd_enumerate)
  then show "keys (ix_addresses (index_block X s b m)) = keys (ix_addresses m) \<union> block_addresses b"
    by (simp add: index_block_def Let_def index_transactions_addresses block_addresses_def)
  show "map_wf (ix_addresses m) \<Longrightarrow> map_wf (ix_addresses (index_block X s b m))"
    by (simp add: index_block_def Let_def index_transactions_addresses)
qed

lemma index_blocks_addresses:
  "keys (ix_addresses (fold (index_block X s) bs m))
     = keys (ix_addresses m) \<union> (\<Union>b\<in>set bs. block_addresses b)"
  "map_wf (ix_addresses m) \<Longrightarrow> map_wf (ix_addresses (fold (index_block X s) bs m))"
  by (induction bs arbitrary: m) (auto simp: index_block_addresses)

lemma truncate_with_summary [simp]:
  "index_maps.truncate (with_summary m sm) = m" "ix_summary (with_summary m sm) = sm"
  by (simp_all add: with_summary_def index_maps.truncate_def)

lemma index_data_eqI:
  "index_maps.truncate d = index_maps.truncate d' \<Longrightarrow> ix_summary d = ix_summary d' \<Longrightarrow> d = (d' :: index_data)"
  by (cases d, cases d') (simp add: index_maps.truncate_def)

lemma truncate_set_summary:
  "index_maps.truncate (d\<lparr>ix_summary := sm\<rparr>) = index_maps.truncate (d :: index_data)"
  "ix_summary (d\<lparr>ix_summary := sm\<rparr>) = sm"
  by (simp_all add: index_maps.truncate_def)

lemma make_summary_truncate: "make_summary X n c k (index_maps.truncate m) = make_summary X n c k m"
  by (simp add: make_summary_def)

lemma extend_index_exact:
  assumes old: "build_index X n c0 bs = Ok old" and c0: "chain_ok X c0" "c_blocks c0 = bs"
    and c: "chain_ok X c" "c_blocks c = bs @ new"
  shows "\<exists>index. build_index X n c (bs @ new) = Ok index
    \<and> extend_index X n c (length (bs @ new)) new old = Ok index"
proof -
  let ?before = "c_state c0" and ?s = "c_state c"
  let ?m = "fold (index_block X ?before) bs empty_maps" and ?mf = "fold (index_block X ?s) (bs @ new) empty_maps"
  let ?d = "fold (index_block X ?s) new old"
  have runs: "run (ledger_step X) bs ledger_new = Some ?before" "run (ledger_step X) new ?before = Some ?s"
    using c0 c by (simp_all add: chain_ok_def run_append)
  have inv: "ledger_inv ?before" and blocks: "ledger_blocks ?before = length bs"
    using chain_ok_ledger [OF c0(1)] c0(2) by simp_all
  have nonempty: "\<forall>b\<in>set (bs @ new). b_transactions b \<noteq> []"
    using run_ledger_index_facts(3) [OF ledger_inv_new runs(1)] run_ledger_index_facts(3) [OF inv runs(2)] by auto
  have "records_at ?before (bh_height (b_header b)) = records_at ?s (bh_height (b_header b))" if "b \<in> set bs" for b
  proof -
    from that obtain i where "i < length bs" "b = bs ! i" by (auto simp: in_set_conv_nth)
    then have "unat (bh_height (b_header b)) < ledger_blocks ?before"
      using c0 blocks by (auto simp: chain_ok_def chain_linked_def Let_def)
    from run_ledger_index_facts(1) [OF inv runs(2) this] show ?thesis by simp
  qed
  then have m: "?m = fold (index_block X ?s) bs empty_maps" by (rule index_blocks_cong)
  have old': "old = with_summary (?m\<lparr>ix_addresses := refresh_balances (ls_balances ?before) (ix_addresses ?m)\<rparr>)
      (ix_summary old)"
    using old by (auto simp: build_index_def rbind_Ok append_all_Ok Let_def)
  have wf: "map_wf (ix_addresses ?m)" by (rule index_blocks_addresses) (simp add: empty_maps_def)
  have "keys (ls_balances ?before) \<subseteq> keys (ix_addresses ?m)"
    using run_ledger_index_facts(2) [OF ledger_inv_new runs(1)]
    by (simp add: index_blocks_addresses empty_maps_def ledger_new_def)
  note clear = clear_refresh [OF wf this]
  have cm: "cleared ?m = ?m"
    using fold_hom [where h = cleared and f = "index_block X ?before" and g = "index_block X ?before" and xs = bs and m = empty_maps,
        OF cleared_index_block]
    by (simp add: cleared_def empty_maps_def clear_balances_def)
  have "index_maps.truncate (cleared old) = ?m"
    unfolding truncate_cleared by (subst old') (use clear cm in \<open>simp add: cleared_def\<close>)
  moreover have "index_maps.truncate (cleared ?d) = fold (index_block X ?s) new (index_maps.truncate (cleared old))"
    unfolding fold_hom [where h = cleared and f = "index_block X ?s" and g = "index_block X ?s" and xs = new and m = old,
        OF cleared_index_block]
    by (rule fold_hom) (rule truncate_index_block)
  ultimately have d: "cleared (index_maps.truncate ?d) = ?mf" by (simp add: m truncate_cleared)
  show ?thesis
  proof (intro exI conjI)
    let ?f = "?mf\<lparr>ix_addresses := refresh_balances (ls_balances ?s) (ix_addresses ?mf)\<rparr>"
    show "build_index X n c (bs @ new) = Ok (with_summary ?f (make_summary X n c (length (bs @ new)) ?f))"
      using nonempty by (auto simp: build_index_def rbind_Ok append_all_Ok Let_def)
    let ?e = "?d\<lparr>ix_addresses := refresh_balances (ls_balances ?s) (clear_balances (ix_addresses ?d))\<rparr>"
    have e: "index_maps.truncate ?e = ?f"
      unfolding d [symmetric] by (simp add: index_maps.truncate_def cleared_def)
    have "extend_index X n c (length (bs @ new)) new old = Ok (?e\<lparr>ix_summary := make_summary X n c (length (bs @ new)) ?e\<rparr>)"
      using nonempty by (auto simp: extend_index_def rbind_Ok append_all_Ok Let_def)
    also have "?e\<lparr>ix_summary := make_summary X n c (length (bs @ new)) ?e\<rparr>
        = with_summary ?f (make_summary X n c (length (bs @ new)) ?f)"
      using e make_summary_truncate [of X n c _ ?e]
      by (intro index_data_eqI) (simp_all only: truncate_set_summary truncate_with_summary)
    finally show "extend_index X n c (length (bs @ new)) new old
        = Ok (with_summary ?f (make_summary X n c (length (bs @ new)) ?f))" .
  qed
qed

section \<open>Following the chain\<close>

text \<open>A chain is determined by the hash of its last block, if no two different blocks share a hash.\<close>

lemma linked_prefix:
  assumes "chain_linked X n bs" and "chain_linked X n' bs'" and "k < length bs" and "k < length bs'"
    and "block_hash X (bs ! k) = block_hash X (bs' ! k)"
    and "\<forall>b\<in>set bs. \<forall>b'\<in>set bs'. block_hash X b = block_hash X b' \<longrightarrow> b = b'"
  shows "take (Suc k) bs = take (Suc k) bs'"
  using assms(3-5)
proof (induction k)
  case 0
  then have "bs ! 0 = bs' ! 0" using assms(6) by simp
  with 0 show ?case by (simp add: take_Suc_conv_app_nth)
next
  case (Suc k)
  have eq: "bs ! Suc k = bs' ! Suc k" using assms(6) Suc.prems by simp
  have "bh_previous_hash (b_header (bs ! Suc k)) = block_hash X (bs ! k)"
    "bh_previous_hash (b_header (bs' ! Suc k)) = block_hash X (bs' ! k)"
    using assms(1,2) Suc.prems(1,2) by (simp_all add: chain_linked_def Let_def)
  with eq have "block_hash X (bs ! k) = block_hash X (bs' ! k)" by simp
  with Suc have "take (Suc k) bs = take (Suc k) bs'" by simp
  with eq Suc.prems show ?case by (simp add: take_Suc_conv_app_nth [of "Suc k"])
qed

lemma chain_of_blocks_Ok:
  assumes "chain_of_blocks X clk path bs = Ok (n, c)"
  shows "chain_ok X c" and "c_blocks c = bs" and "c_network c = n" and "bs \<noteq> []" and "block_network (hd bs) = Ok n"
  using assms chain_from_clocked
  by (auto simp: chain_of_blocks_def rbind_Ok first_block_def split: list.splits)

lemma chain_unique:
  assumes "chain_ok X c" and "chain_ok X c'" and "c_blocks c = c_blocks c'" and "c_network c = c_network c'"
  shows "c = c'"
  using assms by (cases c, cases c') (simp add: chain_ok_def)

definition is_index_of :: "externals \<Rightarrow> block list \<Rightarrow> index_data \<Rightarrow> bool" where
  "is_index_of X bs index \<longleftrightarrow> (\<exists>clk path n c. chain_of_blocks X clk path bs = Ok (n, c) \<and> build_index X n c bs = Ok index)"

lemma build_index_total:
  assumes "chain_ok X c" and "c_blocks c = bs"
  shows "\<exists>index. build_index X n c bs = Ok index"
proof -
  have "run (ledger_step X) bs ledger_new = Some (c_state c)" using assms by (simp add: chain_ok_def)
  from run_ledger_index_facts(3) [OF ledger_inv_new this] show ?thesis
    by (simp add: build_index_def append_all_Ok [THEN iffD2] Let_def)
qed

lemma is_index_of_summary:
  assumes "is_index_of X bs index"
  shows "bs \<noteq> []" "xs_indexed_height (ix_summary index) = Some (bh_height (b_header (last bs)))"
    "xs_tip_hash (ix_summary index) = Some (hash_to_hex (block_hash X (last bs)))"
    "unat (bh_height (b_header (last bs))) = length bs - 1"
proof -
  obtain clk path n c where c: "chain_of_blocks X clk path bs = Ok (n, c)" and i: "build_index X n c bs = Ok index"
    using assms by (auto simp: is_index_of_def)
  note ok = chain_of_blocks_Ok [OF c]
  show "bs \<noteq> []" by (fact ok)
  have "ix_summary index = make_summary X n c (length bs) (index_maps.truncate index)"
    using i by (auto simp: build_index_def rbind_Ok Let_def)
  then show "xs_indexed_height (ix_summary index) = Some (bh_height (b_header (last bs)))"
    "xs_tip_hash (ix_summary index) = Some (hash_to_hex (block_hash X (last bs)))"
    using ok by (simp_all add: make_summary_def chain_height_def chain_tip_hash_def last_block_def Let_def)
  have "last bs = bs ! (length bs - 1)" "length bs - 1 < length bs" using ok(4) by (simp_all add: last_conv_nth)
  then show "unat (bh_height (b_header (last bs))) = length bs - 1"
    using ok by (metis (no_types, lifting) chain_linked_def chain_ok_def)
qed

lemma same_tip_same_chain:
  assumes "is_index_of X bs0 old" and "chain_of_blocks X clk path bs = Ok (n, c)"
    and "\<forall>b\<in>set bs0. \<forall>b'\<in>set bs. block_hash X b = block_hash X b' \<longrightarrow> b = b'"
    and "length bs0 \<le> length bs" and "block_hash X (last bs0) = block_hash X (bs ! (length bs0 - 1))"
  obtains c0 new where "bs = bs0 @ new" "chain_ok X c0" "c_blocks c0 = bs0" "c_network c0 = n" "build_index X n c0 bs0 = Ok old"
proof -
  obtain clk0 path0 n0 c0 where c0: "chain_of_blocks X clk0 path0 bs0 = Ok (n0, c0)" "build_index X n0 c0 bs0 = Ok old"
    using assms(1) by (auto simp: is_index_of_def)
  note ok0 = chain_of_blocks_Ok [OF c0(1)] and ok = chain_of_blocks_Ok [OF assms(2)]
  have len: "length bs0 - 1 < length bs0" "length bs0 - 1 < length bs" "Suc (length bs0 - 1) = length bs0"
    using ok0(4) assms(4) by (cases bs0, simp, simp)+
  have "take (Suc (length bs0 - 1)) bs0 = take (Suc (length bs0 - 1)) bs"
    using ok0 ok assms(3-5) len
    by (intro linked_prefix [of X n0 _ n]) (auto simp: chain_ok_def last_conv_nth)
  then have "bs0 = take (length bs0) bs" using len(3) by simp
  then have bs: "bs = bs0 @ drop (length bs0) bs" by (metis append_take_drop_id)
  then have "hd bs = hd bs0" using ok0(4) by (metis hd_append2)
  with ok0(5) ok(5) have "n0 = n" by simp
  with bs c0(2) ok0 show thesis by (intro that) auto
qed

lemma appended_length:
  assumes "length bs0 \<le> length bs" and "unat h = length bs0 - 1" and "bs0 \<noteq> []"
    and "(of_nat (length bs) :: u64) = saturating_add h 1" and "length bs \<le> 2 ^ 64"
  shows "length bs = length bs0"
proof -
  have h: "unat (saturating_add h 1) = min (length bs0) (2 ^ 64 - 1)"
    using assms(2,3) by (simp add: unat_saturating_add Suc_leI)
  have "length bs \<noteq> 2 ^ 64"
  proof
    assume "length bs = 2 ^ 64"
    then have "(of_nat (length bs) :: u64) = 0" by (simp add: of_nat_eq_0_iff)
    with assms(4) h have "min (length bs0) (2 ^ 64 - 1) = 0" by (metis unat_0)
    with assms(3) show False by (simp add: min_def split: if_splits)
  qed
  with assms(5) have "unat (of_nat (length bs) :: u64) = length bs" by (simp add: unat_of_nat)
  with assms(1,4) h \<open>length bs \<noteq> 2 ^ 64\<close> assms(5) show ?thesis by (simp add: min_def split: if_splits)
qed

lemma try_append_exact:
  assumes idx: "is_index_of X bs0 old" and bs: "load_blocks X db = Ok bs"
    and c: "chain_of_blocks X clk (db_path db) bs = Ok (n, c)"
    and inj: "\<forall>b\<in>set bs0. \<forall>b'\<in>set bs. block_hash X b = block_hash X b' \<longrightarrow> b = b'"
  shows "try_append_index X clk old db = Ok None
    \<or> (\<exists>index. try_append_index X clk old db = Ok (Some index) \<and> build_index X n c bs = Ok index)"
proof -
  let ?h = "bh_height (b_header (last bs0))"
  note sum = is_index_of_summary [OF idx] and ok = chain_of_blocks_Ok [OF c]
  note def = try_append_index_def [of X clk old db, unfolded sum(2,3) bs map_err_simps rbind_simps, simplified]
  show ?thesis
  proof (cases "unat ?h < length bs \<and> bh_height (b_header (bs ! unat ?h)) = ?h
      \<and> block_hash X (bs ! unat ?h) = block_hash X (last bs0)")
    case False
    then show ?thesis by (auto simp: def)
  next
    case True
    then have len: "length bs0 \<le> length bs" using sum(1,4) by (cases bs0) auto
    obtain c0 new where new: "bs = bs0 @ new" "chain_ok X c0" "c_blocks c0 = bs0" "c_network c0 = n"
      "build_index X n c0 bs0 = Ok old"
      using True sum(4) len by (auto intro: same_tip_same_chain [OF idx c inj])
    have keep: "build_index X n c bs = Ok old" if "new = []"
      using chain_unique [of X c c0] that new ok by simp
    have "new = []" if "(of_nat (length bs) :: u64) = saturating_add ?h 1"
      using appended_length [OF len sum(4,1) that] chain_ok_length [OF ok(1)] ok(2) new(1) by simp
    moreover have "drop (unat ?h + 1) bs = new" using sum(1,4) new(1) by (cases bs0) auto
    moreover obtain index where "build_index X n c bs = Ok index" "extend_index X n c (length bs) new old = Ok index"
      using extend_index_exact [OF new(5,2,3), of c new] ok(1,2) new(1) by auto
    ultimately show ?thesis using keep c by (auto simp: def Let_def)
  qed
qed

lemma ensure_index_steps:
  assumes "xf_file st = Some (Ok old)" and "observe_chain_tip X db = Ok (height, tip)"
  shows "ensure_index_matches_chain X clk None db st =
    (case (if xs_indexed_height (ix_summary old) = height \<and> xs_tip_hash (ix_summary old) = tip
           then index_parent_links_match_chain X old db else Ok False) of
       Inl e \<Rightarrow> (Err e, st)
     | Inr current \<Rightarrow>
         if current then (Ok old, st)
         else case try_append_index X (clk 0) old db of
             Inl e \<Rightarrow> (Err e, st)
           | Inr None \<Rightarrow> index_chain X (clk 1) None db st
           | Inr (Some i) \<Rightarrow> (Ok i, st\<lparr>xf_file := Some (Ok i)\<rparr>))"
proof -
  have "load_index st = Ok old" by (simp add: load_index_def assms(1))
  then show ?thesis
    by (simp add: ensure_index_matches_chain_def mbind_def mlift_def mret_def write_index_def assms(2)
        split: sum.split option.split)
qed

lemma sync_gives_rebuild:
  assumes "xf_file st = None \<or> (\<exists>old. xf_file st = Some (Ok old) \<and> is_index_of X bs0 old)"
    and "load_blocks X db = Ok bs" and "\<forall>k. chain_of_blocks X (clk k) (db_path db) bs = Ok (n, c)"
    and "\<forall>b\<in>set bs0. \<forall>b'\<in>set bs. block_hash X b = block_hash X b' \<longrightarrow> b = b'"
  shows "\<exists>index. build_index X n c bs = Ok index
    \<and> ensure_index_matches_chain X clk None db st = (Ok index, st\<lparr>xf_file := Some (Ok index)\<rparr>)"
proof -
  have c: "chain_of_blocks X (clk k) (db_path db) bs = Ok (n, c)" for k using assms(3) by blast
  note ok = chain_of_blocks_Ok [OF c]
  obtain index where index: "build_index X n c bs = Ok index" using build_index_total [OF ok(1,2)] by blast
  have rebuild: "index_chain X (clk k) None db st = (Ok index, st\<lparr>xf_file := Some (Ok index)\<rparr>)" for k
    using assms(2) c index by (simp add: index_chain_def mut_eval mlift_def write_index_def mret_def)
  have tip: "observe_chain_tip X db = Ok (Some (bh_height (b_header (last bs))), Some (hash_to_hex (block_hash X (last bs))))"
    using assms(2) ok(4) by (simp add: observe_chain_tip_def last_block_def Let_def)
  show ?thesis
  proof (cases "xf_file st")
    case None
    with rebuild index tip show ?thesis
      by (simp add: ensure_index_matches_chain_def mut_eval mlift_def load_index_def)
  next
    case (Some r)
    with assms(1) obtain old where old: "xf_file st = Some (Ok old)" "is_index_of X bs0 old" by auto
    note sum = is_index_of_summary [OF old(2)]
    have same: "index = old" if "bh_height (b_header (last bs0)) = bh_height (b_header (last bs))"
      "block_hash X (last bs0) = block_hash X (last bs)"
    proof -
      have "is_index_of X bs index" using c [of 0] index by (auto simp: is_index_of_def)
      from is_index_of_summary(4) [OF this] sum(1,4) ok(4) that(1) have "length bs0 = length bs"
        by (metis One_nat_def Suc_pred length_greater_0_conv)
      moreover have "block_hash X (last bs0) = block_hash X (bs ! (length bs - 1))"
        using that(2) ok(4) by (simp add: last_conv_nth)
      ultimately obtain c0 where "bs = bs0" "chain_ok X c0" "c_blocks c0 = bs0" "c_network c0 = n"
        "build_index X n c0 bs0 = Ok old"
        using same_tip_same_chain [OF old(2) c [of 0] assms(4)] by (metis append_eq_append_conv append_Nil2 order_refl)
      then show ?thesis using chain_unique [of X c c0] ok index by simp
    qed
    have links: "\<exists>b. index_parent_links_match_chain X old db = Ok b"
      using assms(2) ok(4) by (simp add: index_parent_links_match_chain_def sum(2) last_block_def)
    let ?cond = "xs_indexed_height (ix_summary old) = Some (bh_height (b_header (last bs)))
        \<and> xs_tip_hash (ix_summary old) = Some (hash_to_hex (block_hash X (last bs)))"
    obtain b where b: "index_parent_links_match_chain X old db = Ok b" using links by blast
    have "ensure_index_matches_chain X clk None db st = (Ok index, st\<lparr>xf_file := Some (Ok index)\<rparr>)"
    proof (cases "?cond \<and> b")
      case True
      then have "index = old" using sum(2,3) by (intro same) simp_all
      with True old(1) show ?thesis
        unfolding ensure_index_steps [OF old(1) tip] b by simp
    next
      case False
      then have "(if ?cond then index_parent_links_match_chain X old db else Ok False) = Ok False"
        unfolding b by (simp split: if_split)
      with try_append_exact [OF old(2) assms(2) c [of 0] assms(4)] rebuild index show ?thesis
        unfolding ensure_index_steps [OF old(1) tip] by auto
    qed
    with index show ?thesis by blast
  qed
qed

text \<open>
  C12: Following the chain is rebuilding. Start with no index or with the index of any earlier valid
  chain, and let the stored chain since have grown, shrunk or been reorganised: if it is valid and
  no two different blocks of the two chains share a hash, the synchronisation succeeds, and what it
  returns and writes is exactly the index built from the stored chain from scratch, whether it kept,
  extended or rebuilt the old one.
\<close>

theorem index_sync_exact:
  assumes "xf_file st = None \<or> (\<exists>old. xf_file st = Some (Ok old) \<and> is_index_of X bs0 old)"
    and "load_blocks X db = Ok bs" and "\<forall>k. chain_of_blocks X (clk k) (db_path db) bs = Ok (n, c)"
    and "\<forall>b\<in>set bs0. \<forall>b'\<in>set bs. block_hash X b = block_hash X b' \<longrightarrow> b = b'"
  shows "\<exists>index. build_index X n c bs = Ok index
    \<and> ensure_index_matches_chain X clk None db st = (Ok index, st\<lparr>xf_file := Some (Ok index)\<rparr>)"
  by (rule sync_gives_rebuild [OF assms])

lemma sample_chains_of_blocks:
  "chain_of_blocks sample_externals (\<lambda>_. 0) path [sample_genesis] = Ok (Devnet, sample_chain)"
  "chain_of_blocks sample_externals (\<lambda>_. 0) path [sample_genesis, sample_next] = Ok (Devnet, sample_grown)"
proof -
  have "block_network sample_genesis = Ok Devnet" by (rule sample_genesis_network)
  moreover have "nc_network sample_config = Devnet" by (simp add: sample_config_def)
  ultimately show "chain_of_blocks sample_externals (\<lambda>_. 0) path [sample_genesis] = Ok (Devnet, sample_chain)"
    "chain_of_blocks sample_externals (\<lambda>_. 0) path [sample_genesis, sample_next] = Ok (Devnet, sample_grown)"
    using sample_build by (auto simp: chain_of_blocks_def first_block_def build_validated_Ok)
qed

lemma sample_hash_differs: "block_hash sample_externals sample_genesis \<noteq> block_hash sample_externals sample_next"
  by (simp add: sample_block_hash_nonce)

theorem index_sync_exact_witness:
  "\<exists>db old index st. load_blocks sample_externals db = Ok [sample_genesis, sample_next]
     \<and> is_index_of sample_externals [sample_genesis] old \<and> xf_file st = Some (Ok old)
     \<and> build_index sample_externals Devnet sample_grown [sample_genesis, sample_next] = Ok index
     \<and> fst (ensure_index_matches_chain sample_externals (\<lambda>_ _. 0) None db st) = Ok index"
proof -
  obtain summary st' where "adopt_candidate_chain sample_externals (\<lambda>_. 0) (\<lambda>_. 0) sample_files sample_path
      [sample_genesis, sample_next] sample_node = (Ok summary, st')"
    using sample_adopts by blast
  from adopt_candidate_chain_Ok [OF this]
  have db: "load_blocks sample_externals (nd_db st') = Ok [sample_genesis, sample_next]" by blast
  obtain old where "build_index sample_externals Devnet sample_chain [sample_genesis] = Ok old"
    using build_index_total [of _ sample_chain] chain_of_blocks_Ok [OF sample_chains_of_blocks(1)] by metis
  then have old: "is_index_of sample_externals [sample_genesis] old"
    using sample_chains_of_blocks(1) [of "[]"] by (auto simp: is_index_of_def)
  let ?st = "\<lparr>xf_path = [], xf_file = Some (Ok old)\<rparr>"
  obtain index where "build_index sample_externals Devnet sample_grown [sample_genesis, sample_next] = Ok index"
    "ensure_index_matches_chain sample_externals (\<lambda>_ _. 0) None (nd_db st') ?st
       = (Ok index, ?st\<lparr>xf_file := Some (Ok index)\<rparr>)"
    using index_sync_exact [of ?st sample_externals "[sample_genesis]" "nd_db st'" "[sample_genesis, sample_next]" "\<lambda>_ _. 0" Devnet sample_grown]
      old db sample_chains_of_blocks(2) sample_hash_differs by auto
  with db old show ?thesis
    by (intro exI [of _ "nd_db st'"] exI [of _ old] exI [of _ index] exI [of _ ?st]) simp
qed

section \<open>Watching\<close>

lemma watch_rounds:
  assumes "\<And>k. load_blocks X (db k) = Ok (bs k)"
    and "\<And>k j. chain_of_blocks X (clk k j) (db_path (db k)) (bs k) = Ok (n k, c k)"
    and "\<And>k l. \<forall>b\<in>set (bs k). \<forall>b'\<in>set (bs l). block_hash X b = block_hash X b' \<longrightarrow> b = b'"
    and "xf_file st = None \<or> (\<exists>old k. xf_file st = Some (Ok old) \<and> is_index_of X (bs k) old)"
  shows "\<exists>index. watch_index X (\<lambda>k. (clk (first + k), None, db (first + k))) (Some m) i st
      = Some (Ok (), st\<lparr>xf_file := Some (Ok index)\<rparr>)
    \<and> is_index_of X (bs (first + (unat m - 1 - unat i))) index"
  using assms(4)
proof (induction "unat m - unat i" arbitrary: first i st rule: less_induct)
  case less
  have "\<exists>k0. xf_file st = None \<or> (\<exists>old. xf_file st = Some (Ok old) \<and> is_index_of X (bs k0) old)"
    using less.prems by blast
  then obtain k0 where k0: "xf_file st = None \<or> (\<exists>old. xf_file st = Some (Ok old) \<and> is_index_of X (bs k0) old)" ..
  obtain index where index: "build_index X (n first) (c first) (bs first) = Ok index"
    "ensure_index_matches_chain X (clk first) None (db first) st = (Ok index, st\<lparr>xf_file := Some (Ok index)\<rparr>)"
    using sync_gives_rebuild [OF k0 assms(1) [of first], of "clk first" "n first" "c first"] assms(2,3) by blast
  have idx: "is_index_of X (bs first) index" using assms(2) [of first 0] index(1) by (auto simp: is_index_of_def)
  let ?i = "saturating_add i 1" and ?st = "st\<lparr>xf_file := Some (Ok index)\<rparr>"
  have i: "unat ?i = min (unat i + 1) (2 ^ 64 - 1)" by (simp add: unat_saturating_add)
  show ?case
  proof (cases "m \<le> ?i")
    case True
    then have "unat m - 1 - unat i = 0" using i by (simp add: word_le_nat_alt)
    with True idx index(2) show ?thesis by (intro exI [of _ index], subst watch_index.simps) (simp add: Let_def)
  next
    case False
    then have lt: "unat i + 1 < unat m" using i unat_u64_less [of m] by (auto simp: word_le_nat_alt min_def split: if_splits)
    then have ui: "unat ?i = unat i + 1" using i unat_u64_less [of m] by simp
    have "\<exists>index'. watch_index X (\<lambda>k. (clk (Suc first + k), None, db (Suc first + k))) (Some m) ?i ?st
        = Some (Ok (), ?st\<lparr>xf_file := Some (Ok index')\<rparr>) \<and> is_index_of X (bs (Suc first + (unat m - 1 - unat ?i))) index'"
      using lt ui idx by (intro less.hyps) auto
    moreover have eq: "Suc first + (unat m - 1 - unat ?i) = first + (unat m - 1 - unat i)" using lt ui by simp
    ultimately obtain index' where "watch_index X (\<lambda>k. (clk (Suc first + k), None, db (Suc first + k))) (Some m) ?i ?st
        = Some (Ok (), ?st\<lparr>xf_file := Some (Ok index')\<rparr>)" "is_index_of X (bs (first + (unat m - 1 - unat i))) index'"
      unfolding eq by blast
    then show ?thesis using False index(2) by (intro exI [of _ index'], subst watch_index.simps) (simp add: Let_def)
  qed
qed

text \<open>
  C28: The watcher returns and is up to date. Given a number of rounds (zero counts as one), valid stored
  chains in all rounds, however they change in between, and no two different blocks with one hash,
  the loop ends after that number of rounds without an error, and the file then holds the index of
  the chain found in the last round.
\<close>

theorem watch_index_follows:
  assumes "\<forall>k. load_blocks X (db k) = Ok (bs k)"
    and "\<forall>k j. chain_of_blocks X (clk k j) (db_path (db k)) (bs k) = Ok (n k, c k)"
    and "\<forall>k l. \<forall>b\<in>set (bs k). \<forall>b'\<in>set (bs l). block_hash X b = block_hash X b' \<longrightarrow> b = b'"
    and "xf_file st = None"
  shows "\<exists>index. watch_index X (\<lambda>k. (clk k, None, db k)) (Some m) 0 st = Some (Ok (), st\<lparr>xf_file := Some (Ok index)\<rparr>)
    \<and> is_index_of X (bs (unat m - 1)) index"
  using watch_rounds [of X db bs clk n c st 0 m 0] assms by simp

theorem watch_index_follows_witness:
  "\<exists>db index. watch_index sample_externals (\<lambda>k. (\<lambda>_ _. 0, None, if k = 0 then sample_db else db)) (Some 2) 0
        \<lparr>xf_path = [], xf_file = None\<rparr> = Some (Ok (), \<lparr>xf_path = [], xf_file = Some (Ok index)\<rparr>)
     \<and> is_index_of sample_externals [sample_genesis, sample_next] index"
proof -
  obtain summary st' where "adopt_candidate_chain sample_externals (\<lambda>_. 0) (\<lambda>_. 0) sample_files sample_path
      [sample_genesis, sample_next] sample_node = (Ok summary, st')"
    using sample_adopts by blast
  from adopt_candidate_chain_Ok [OF this]
  have db: "load_blocks sample_externals (nd_db st') = Ok [sample_genesis, sample_next]" by blast
  let ?bs = "\<lambda>k. if k = (0::nat) then [sample_genesis] else [sample_genesis, sample_next]"
  let ?db = "\<lambda>k. if k = (0::nat) then sample_db else nd_db st'" and ?st = "\<lparr>xf_path = [], xf_file = None\<rparr>"
  have "\<exists>index. watch_index sample_externals (\<lambda>k. (\<lambda>_ _. 0, None, ?db k)) (Some 2) 0 ?st
      = Some (Ok (), ?st\<lparr>xf_file := Some (Ok index)\<rparr>) \<and> is_index_of sample_externals (?bs (unat (2::u64) - 1)) index"
    using db sample_db_loads sample_chains_of_blocks sample_hash_differs
    by (intro watch_index_follows [where n = "\<lambda>_. Devnet" and c = "\<lambda>k. if k = 0 then sample_chain else sample_grown"]) auto
  then show ?thesis by auto
qed

end
