(* ===== verification/Vireon_Activity.thy ===== *)
theory Vireon_Activity
  imports
    Vireon_Indexed
begin

text \<open>
  What the index says of addresses and transactions: the balance of an indexed address is what it
  received less what it sent, and every transaction of the chain is found under its hash.
\<close>

section \<open>Balances and transfers\<close>

definition tx_received :: "string \<Rightarrow> transaction \<Rightarrow> nat" where
  "tx_received a t = (if tx_to t = a then unat (tx_amount t) else 0)"

definition tx_sent :: "string \<Rightarrow> u64 \<Rightarrow> transaction \<Rightarrow> nat" where
  "tx_sent a base_fee t =
     (if tx_from t = Some a
      then unat (tx_amount t + (case effective_fee t base_fee of Inr f \<Rightarrow> f | Inl _ \<Rightarrow> 0)) else 0)"

definition entry_of :: "(string, address_activity) btree_map \<Rightarrow> string \<Rightarrow> address_activity" where
  "entry_of m a = (case map_of m a of Some e \<Rightarrow> e | None \<Rightarrow> empty_address_activity a)"

lemma entry_of_touch [simp]: "entry_of (touch_address a f m) b = (if b = a then f (entry_of m a) else entry_of m b)"
  by (simp add: entry_of_def touch_address_def)

lemma note_totals [simp]:
  "aa_total_received (note_sent h d e) = aa_total_received e"
  "aa_total_sent (note_sent h d e) = saturating_add (aa_total_sent e) d"
  "aa_total_received (note_received h x e) = saturating_add (aa_total_received e) x"
  "aa_total_sent (note_received h x e) = aa_total_sent e"
  "aa_total_received (note_mined k r e) = aa_total_received e"
  "aa_total_sent (note_mined k r e) = aa_total_sent e"
  by (simp_all add: note_sent_def note_received_def note_mined_def)

abbreviation cap :: "nat \<Rightarrow> nat" where "cap n \<equiv> min n (2 ^ 64 - 1)"

lemma cap_unat [simp]: "min (unat (x :: u64)) 18446744073709551615 = unat x"
  using unat_u64_less [of x] by simp

lemma index_transaction_totals:
  "unat (aa_total_received (entry_of (ix_addresses (index_transaction X blk r (i, t) m)) a))
     = cap (unat (aa_total_received (entry_of (ix_addresses m) a)) + tx_received a t)"
  "unat (aa_total_sent (entry_of (ix_addresses (index_transaction X blk r (i, t) m)) a))
     = cap (unat (aa_total_sent (entry_of (ix_addresses m) a)) + tx_sent a (bh_base_fee_atomic (b_header blk)) t)"
proof -
  show "unat (aa_total_received (entry_of (ix_addresses (index_transaction X blk r (i, t) m)) a))
     = cap (unat (aa_total_received (entry_of (ix_addresses m) a)) + tx_received a t)"
    by (simp add: index_transaction_def index_addresses_def make_indexed_transaction_def tx_received_def
        unat_saturating_add Let_def split: option.split)
  show "unat (aa_total_sent (entry_of (ix_addresses (index_transaction X blk r (i, t) m)) a))
     = cap (unat (aa_total_sent (entry_of (ix_addresses m) a)) + tx_sent a (bh_base_fee_atomic (b_header blk)) t)"
    by (simp add: index_transaction_def index_addresses_def make_indexed_transaction_def tx_sent_def
        unat_saturating_add Let_def split: option.split)
qed

definition received_in :: "string \<Rightarrow> block list \<Rightarrow> nat" where
  "received_in a bs = (\<Sum>b\<leftarrow>bs. \<Sum>t\<leftarrow>b_transactions b. tx_received a t)"

definition sent_in :: "string \<Rightarrow> block list \<Rightarrow> nat" where
  "sent_in a bs = (\<Sum>b\<leftarrow>bs. \<Sum>t\<leftarrow>b_transactions b. tx_sent a (bh_base_fee_atomic (b_header b)) t)"

lemma index_transactions_totals:
  "unat (aa_total_received (entry_of (ix_addresses (fold (index_transaction X blk r) (enumerate i ts) m)) a))
     = cap (unat (aa_total_received (entry_of (ix_addresses m) a)) + (\<Sum>t\<leftarrow>ts. tx_received a t))"
  "unat (aa_total_sent (entry_of (ix_addresses (fold (index_transaction X blk r) (enumerate i ts) m)) a))
     = cap (unat (aa_total_sent (entry_of (ix_addresses m) a))
         + (\<Sum>t\<leftarrow>ts. tx_sent a (bh_base_fee_atomic (b_header blk)) t))"
proof (induction ts arbitrary: i m)
  case Nil
  { case 1 show ?case by simp next case 2 show ?case by simp }
next
  case (Cons t ts)
  { case 1 show ?case by (simp add: Cons.IH index_transaction_totals) next
    case 2 show ?case by (simp add: Cons.IH index_transaction_totals) }
qed

lemma index_blocks_totals:
  "unat (aa_total_received (entry_of (ix_addresses (fold (index_block X s) bs m)) a))
     = cap (unat (aa_total_received (entry_of (ix_addresses m) a)) + received_in a bs)"
  "unat (aa_total_sent (entry_of (ix_addresses (fold (index_block X s) bs m)) a))
     = cap (unat (aa_total_sent (entry_of (ix_addresses m) a)) + sent_in a bs)"
proof (induction bs arbitrary: m)
  case Nil
  { case 1 show ?case by (simp add: received_in_def) next case 2 show ?case by (simp add: sent_in_def) }
next
  case (Cons b bs)
  have block: "ix_addresses (index_block X s b m) = ix_addresses (fold (index_transaction X b
      (ledger_entry (ls_coinbase_rewards s) (bh_height (b_header b)))) (enumerate 0 (b_transactions b)) m)" for m :: "'a index_maps_scheme"
    by (simp add: index_block_def Let_def)
  { case 1 show ?case by (simp add: Cons.IH block index_transactions_totals received_in_def) next
    case 2 show ?case by (simp add: Cons.IH block index_transactions_totals sent_in_def) }
qed

lemma keys_Cons: "keys (p # m) = insert (fst p) (keys m)"
  by (simp add: keys_def)

lemma keys_refresh: "keys (refresh_balances bal m) = keys m \<union> keys bal"
proof (induction bal arbitrary: m)
  case (Cons p bal)
  then show ?case by (cases p) (auto simp: keys_Cons)
qed simp

lemma build_index_fields:
  assumes "build_index X n c bs = Ok index"
  shows "ix_addresses index
      = refresh_balances (ls_balances (c_state c)) (ix_addresses (fold (index_block X (c_state c)) bs empty_maps))"
    and "ix_transactions_by_hash index = ix_transactions_by_hash (fold (index_block X (c_state c)) bs empty_maps)"
    and "ix_blocks_by_height index = ix_blocks_by_height (fold (index_block X (c_state c)) bs empty_maps)"
  using assms unfolding build_index_def rbind_Ok append_all_Ok by (auto simp: Let_def with_summary_def)

lemma refresh_entry:
  "map_wf bal \<Longrightarrow> aa_total_received (entry_of (refresh_balances bal m) a) = aa_total_received (entry_of m a)
    \<and> aa_total_sent (entry_of (refresh_balances bal m) a) = aa_total_sent (entry_of m a)
    \<and> aa_balance (entry_of (refresh_balances bal m) a)
        = (case map_of bal a of Some b \<Rightarrow> b | None \<Rightarrow> aa_balance (entry_of m a))"
proof (induction bal arbitrary: m)
  case (Cons p bal)
  obtain k v where p: "p = (k, v)" by (cases p)
  have "map_of bal k = None" using Cons.prems p by (auto simp: map_wf_Cons map_of_eq_None_iff)
  with Cons p show ?case by (auto simp: map_wf_Cons split: option.split)
qed simp

lemma account_step:
  assumes "apply_transaction X t b s = (Ok fs, s')"
  shows "unat (balance_of s' a) + tx_sent a b t = unat (balance_of s a) + tx_received a t"
proof (cases "is_coinbase t")
  case True
  with assms obtain got where got: "amount_checked_add (balance_of s (tx_to t)) (tx_amount t) = Ok got"
    "s' = coinbase_state X t got s" by (auto simp: apply_coinbase_iff)
  have "tx_from t = None" using True by (simp add: is_coinbase_def)
  moreover have "balance_of s' a = (if a = tx_to t then got else balance_of s a)"
    by (simp add: got(2) coinbase_state_def balance_of_def set_balance_def)
  ultimately show ?thesis using got(1) by (auto simp: tx_sent_def tx_received_def amount_add_Ok)
next
  case False
  with assms obtain sender fee debit left got burned where v: "tx_from t = Some sender"
    "effective_fee t b = Ok fee" "total_debit t b = Ok debit"
    "amount_checked_sub (balance_of s sender) debit = Ok left"
    "amount_checked_add (balance_of (set_balance sender left s) (tx_to t)) (tx_amount t) = Ok got"
    "s' = spend_state X t sender left got burned s"
    unfolding apply_spend_iff [OF False] by blast
  have debit: "unat debit = unat (tx_amount t) + unat fee" using v(2,3) by (simp add: total_debit_def amount_add_Ok)
  then have "debit = tx_amount t + fee" using unat_u64_less [of debit]
    by (simp add: word_unat_eq_iff unat_add_small)
  then have sent: "tx_sent a b t = (if a = sender then unat debit else 0)" by (simp add: tx_sent_def v(1,2))
  have bal: "balance_of s' a = (if a = tx_to t then got else if a = sender then left else balance_of s a)"
    by (simp add: v(6) spend_state_def balance_of_def set_balance_def)
  have "unat left + unat debit = unat (balance_of s sender)"
    "unat got = unat (if tx_to t = sender then left else balance_of s (tx_to t)) + unat (tx_amount t)"
    using v(4,5) by (simp_all add: amount_sub_Ok amount_add_Ok bal.get_put)
  then show ?thesis by (auto simp: sent bal tx_received_def)
qed

lemma clear_entry_balance: "clear_entry e = e \<Longrightarrow> aa_balance e = 0"
  by (cases e) (simp add: clear_entry_def)

lemma cleared_empty: "cleared empty_maps = empty_maps"
  by (simp add: cleared_def empty_maps_def clear_balances_def)

lemma cleared_sel: "ix_addresses (cleared m) = clear_balances (ix_addresses m)"
  by (simp add: cleared_def)

lemma account_spends:
  "apply_spends X b ts s = (Ok (), s') \<Longrightarrow>
     unat (balance_of s' a) + (\<Sum>t\<leftarrow>ts. tx_sent a b t) = unat (balance_of s a) + (\<Sum>t\<leftarrow>ts. tx_received a t)"
proof (induction ts arbitrary: s)
  case (Cons t ts)
  then obtain fs s1 where "apply_transaction X t b s = (Ok fs, s1)" "apply_spends X b ts s1 = (Ok (), s')"
    by (auto simp: apply_spends_def mbind_Ok mret_Ok)
  with Cons.IH [of s1] account_step [of X t b s fs s1 a] show ?case by simp
qed (simp add: apply_spends_def mret_Ok)

lemma account_block:
  assumes "apply_block X blk s = (Ok sm, s')"
  shows "unat (balance_of s' a) + sent_in a [blk] = unat (balance_of s a) + received_in a [blk]"
proof -
  obtain coinbase spends fs s1 s2 emitted where b: "validate_block_against_state X s blk = Ok sm"
    "b_transactions blk = coinbase # spends" "apply_spends X (bs_base_fee sm) spends s = (Ok (), s1)"
    "apply_transaction X coinbase (bs_base_fee sm) s1 = (Ok fs, s2)" "s' = record_block X blk sm emitted s2"
    using assms by (rule apply_block_OkE)
  have "bs_base_fee sm = bh_base_fee_atomic (b_header blk)"
    using validate_block_OkE [OF b(1)] by (metis block_ledger_summary.select_convs(5))
  moreover have "balance_of s' a = balance_of s2 a" by (simp add: b(5) balance_of_def record_block_frame)
  ultimately show ?thesis using account_spends [OF b(3), of a] account_step [OF b(4), of a]
    by (simp add: sent_in_def received_in_def b(2))
qed

lemma account_run:
  "run (ledger_step X) bs s = Some s' \<Longrightarrow> unat (balance_of s' a) + sent_in a bs = unat (balance_of s a) + received_in a bs"
proof (induction bs arbitrary: s)
  case (Cons b bs)
  then obtain sm s1 where s1: "apply_block X b s = (Ok sm, s1)" "run (ledger_step X) bs s1 = Some s'"
    by (cases "ledger_step X b s") (auto simp: ledger_step_Some)
  from Cons.IH [OF s1(2)] account_block [OF s1(1), of a] show ?case
    by (simp add: sent_in_def received_in_def)
qed (simp add: sent_in_def received_in_def)

lemma indexed_totals:
  assumes "chain_ok X c" and "build_index X n c bs = Ok index" and "map_of (ix_addresses index) a = Some e"
  shows "unat (aa_total_received e) = cap (received_in a bs)" and "unat (aa_total_sent e) = cap (sent_in a bs)"
    and "aa_balance e = balance_of (c_state c) a"
proof -
  let ?bal = "ls_balances (c_state c)" and ?m = "ix_addresses (fold (index_block X (c_state c)) bs empty_maps)"
  have "map_wf ?bal" using chain_ok_ledger(1) [OF assms(1)] by (simp add: ledger_inv_def balances_wf_def)
  note refresh = refresh_entry [OF this, of ?m a]
  have e: "e = entry_of (refresh_balances ?bal ?m) a"
    using assms(3) by (simp add: entry_of_def build_index_fields(1) [OF assms(2)])
  have start: "entry_of (ix_addresses empty_maps) a = empty_address_activity a"
    by (simp add: entry_of_def empty_maps_def)
  show "unat (aa_total_received e) = cap (received_in a bs)" "unat (aa_total_sent e) = cap (sent_in a bs)"
    using refresh index_blocks_totals [of X "c_state c" bs empty_maps a]
    by (simp_all add: e start empty_address_activity_def)
  have "clear_balances ?m = ?m"
    using fold_hom [where h = cleared and f = "index_block X (c_state c)" and g = "index_block X (c_state c)" and xs = bs
        and m = empty_maps, OF cleared_index_block]
    unfolding cleared_empty cleared_sel [symmetric] by (rule arg_cong)
  then have "aa_balance (entry_of ?m a) = 0"
    using map_of_clear [of ?m a]
    by (cases "map_of ?m a") (auto simp: entry_of_def empty_address_activity_def dest!: clear_entry_balance [OF sym])
  then show "aa_balance e = balance_of (c_state c) a"
    using refresh by (simp add: e balance_of_def split: option.split)
qed

lemma indexed_address:
  assumes "build_index X n c bs = Ok index" and "b \<in> set bs" and "t \<in> set (b_transactions b)" and "a \<in> tx_addresses t"
  shows "\<exists>e. map_of (ix_addresses index) a = Some e"
  using assms(2-4)
  by (intro keys_map_of) (auto simp: build_index_fields(1) [OF assms(1)] keys_refresh index_blocks_addresses block_addresses_def)

text \<open>
  C20: The index balances. In the index of a valid chain the balance shown for an address is its ledger
  balance, and what the address received is its balance plus what it sent, fees included, unless
  the received total has reached the end of 64 bits, where it stays.
\<close>

theorem index_reconciles:
  assumes "chain_of_blocks X clk path bs = Ok (n, c)" and "build_index X n c bs = Ok index"
    and "map_of (ix_addresses index) a = Some e" and "aa_total_received e \<noteq> - 1"
  shows "aa_balance e = balance_of (c_state c) a
    \<and> unat (aa_total_received e) = unat (aa_balance e) + unat (aa_total_sent e)"
proof -
  note ok = chain_of_blocks_Ok [OF assms(1)] and e = indexed_totals [OF _ assms(2,3)]
  have "run (ledger_step X) bs ledger_new = Some (c_state c)" using ok by (simp add: chain_ok_def)
  then have "unat (balance_of (c_state c) a) + sent_in a bs = received_in a bs"
    using account_run [of X bs ledger_new "c_state c" a] by (simp add: ledger_new_def balance_of_def)
  moreover have "unat (aa_total_received e) \<noteq> unat (- 1 :: u64)"
    using assms(4) by (rule contrapos_nn) (simp only: word_unat_eq_iff)
  then have "unat (aa_total_received e) \<noteq> 2 ^ 64 - 1" by (simp add: unat_max_word)
  ultimately show ?thesis using e [OF ok(1)] by (auto simp: min_def split: if_splits)
qed

theorem index_reconciles_witness:
  "\<exists>index e. build_index sample_externals Devnet sample_grown [sample_genesis, sample_next] = Ok index
     \<and> map_of (ix_addresses index) (sample_address 2) = Some e
     \<and> unat (aa_total_received e) = unat (aa_balance e) + unat (aa_total_sent e)"
proof -
  let ?bs = "[sample_genesis, sample_next]" and ?a = "sample_address 2"
  note c = sample_chains_of_blocks(2) [of "[]"] and ok = chain_of_blocks_Ok [OF sample_chains_of_blocks(2)]
  obtain index where i: "build_index sample_externals Devnet sample_grown ?bs = Ok index"
    using build_index_total [OF ok(1,2)] by blast
  obtain e where e: "map_of (ix_addresses index) ?a = Some e"
    using indexed_address [OF i, of sample_next "sample_spend 1 5 15" ?a]
    by (auto simp: sample_next_def tx_addresses_def sample_spend_def)
  have "received_in ?a ?bs \<le> 2 ^ 63"
    by (simp add: received_in_def tx_received_def sample_genesis_def sample_next_def sample_spend_def
        sample_reward_def sample_coinbase_def)
  with indexed_totals(1) [OF ok(1) i e] have "aa_total_received e \<noteq> - 1"
    using unat_max_word [where 'a = 64] by auto
  from index_reconciles [OF c i e this] i e show ?thesis by blast
qed

section \<open>Transactions\<close>

lemma map_of_inserts:
  "(k, v) \<in> set kvs \<Longrightarrow> distinct (map fst kvs) \<Longrightarrow> map_of (fold (\<lambda>(k, v). map_insert k v) kvs m) k = Some v"
proof (induction kvs arbitrary: m)
  case (Cons p kvs)
  have keep: "k \<notin> fst ` set kvs \<Longrightarrow> map_of (fold (\<lambda>(k, v). map_insert k v) kvs m) k = map_of m k" for m
    by (induction kvs arbitrary: m) auto
  show ?case
  proof (cases "p = (k, v)")
    case True
    with Cons.prems(2) keep show ?thesis by simp
  next
    case False
    with Cons show ?thesis by (cases p) auto
  qed
qed simp

definition block_entries :: "externals \<Rightarrow> block \<Rightarrow> (string \<times> indexed_transaction) list" where
  "block_entries X b = map (\<lambda>(i, t). (hash_to_hex (tx_hash X t),
     make_indexed_transaction X t (bh_height (b_header b)) (hash_to_hex (block_hash X b))
       (length (b_transactions b)) i (bh_base_fee_atomic (b_header b)))) (enumerate 0 (b_transactions b))"

lemma index_transactions_map:
  "ix_transactions_by_hash (fold (index_transaction X b r) its m)
     = fold (\<lambda>(k, v). map_insert k v) (map (\<lambda>(i, t). (hash_to_hex (tx_hash X t),
         make_indexed_transaction X t (bh_height (b_header b)) (hash_to_hex (block_hash X b))
           (length (b_transactions b)) i (bh_base_fee_atomic (b_header b)))) its) (ix_transactions_by_hash m)"
  by (induction its arbitrary: m)
     (auto simp: index_transaction_def Let_def make_indexed_transaction_def [of X, THEN arg_cong [of _ _ it_hash]])

lemma index_blocks_map:
  "ix_transactions_by_hash (fold (index_block X s) bs m)
     = fold (\<lambda>(k, v). map_insert k v) (concat (map (block_entries X) bs)) (ix_transactions_by_hash m)"
  by (induction bs arbitrary: m)
     (simp_all add: index_block_def Let_def index_transactions_map block_entries_def)

definition block_hashes :: "externals \<Rightarrow> block \<Rightarrow> string list" where
  "block_hashes X b = map (\<lambda>t. hash_to_hex (tx_hash X t)) (b_transactions b)"

lemma block_entries_keys: "map fst (block_entries X b) = block_hashes X b"
  unfolding block_entries_def block_hashes_def
  by (subst (2) map_snd_enumerate [of 0, symmetric]) (simp del: map_snd_enumerate add: comp_def case_prod_unfold)

lemma spends_hashes_distinct:
  "apply_spends X b ts s = (Ok (), s') \<Longrightarrow>
     distinct (map (\<lambda>t. hash_to_hex (tx_hash X t)) ts)
     \<and> (\<lambda>t. hash_to_hex (tx_hash X t)) ` set ts \<inter> ls_applied_hashes s = {}
     \<and> ls_applied_hashes s' = ls_applied_hashes s \<union> (\<lambda>t. hash_to_hex (tx_hash X t)) ` set ts"
proof (induction ts arbitrary: s)
  case (Cons t ts)
  then obtain fs s1 where "apply_transaction X t b s = (Ok fs, s1)" "apply_spends X b ts s1 = (Ok (), s')"
    by (auto simp: apply_spends_def mbind_Ok mret_Ok)
  with Cons.IH [of s1] apply_transaction_hashes [of X t b s fs s1] show ?case by (auto simp: image_iff)
qed (simp add: apply_spends_def mret_Ok)

lemma block_hashes_distinct:
  assumes "apply_block X blk s = (Ok sm, s')"
  shows "distinct (block_hashes X blk)" and "set (block_hashes X blk) \<inter> ls_applied_hashes s = {}"
    and "ls_applied_hashes s' = ls_applied_hashes s \<union> set (block_hashes X blk)"
proof -
  obtain coinbase spends fs s1 s2 emitted where b: "b_transactions blk = coinbase # spends"
    "apply_spends X (bs_base_fee sm) spends s = (Ok (), s1)"
    "apply_transaction X coinbase (bs_base_fee sm) s1 = (Ok fs, s2)" "s' = record_block X blk sm emitted s2"
    using assms by (rule apply_block_OkE)
  note h = spends_hashes_distinct [OF b(2)] apply_transaction_hashes [OF b(3)]
  show "distinct (block_hashes X blk)" "set (block_hashes X blk) \<inter> ls_applied_hashes s = {}"
    "ls_applied_hashes s' = ls_applied_hashes s \<union> set (block_hashes X blk)"
    using h by (auto simp: block_hashes_def b(1,4) record_block_frame)
qed

lemma chain_hashes_distinct:
  "run (ledger_step X) bs s = Some s' \<Longrightarrow>
     distinct (concat (map (block_hashes X) bs)) \<and> set (concat (map (block_hashes X) bs)) \<inter> ls_applied_hashes s = {}"
proof (induction bs arbitrary: s)
  case (Cons b bs)
  then obtain sm s1 where s1: "apply_block X b s = (Ok sm, s1)" "run (ledger_step X) bs s1 = Some s'"
    by (cases "ledger_step X b s") (auto simp: ledger_step_Some)
  from Cons.IH [OF s1(2)] block_hashes_distinct [OF s1(1)] show ?case by auto
qed simp

lemma index_blocks_heights:
  "ix_blocks_by_height (fold (index_block X s) bs m)
     = fold (\<lambda>(k, v). map_insert k v)
         (map (\<lambda>b. (bh_height (b_header b), make_indexed_block X s b (hd (b_transactions b)))) bs) (ix_blocks_by_height m)"
proof -
  have keep: "ix_blocks_by_height (fold (index_transaction X b r) its m) = ix_blocks_by_height m" for b r its m
    by (induction its arbitrary: m) (auto simp: index_transaction_def Let_def)
  show ?thesis by (induction bs arbitrary: m) (simp_all add: index_block_def Let_def keep)
qed

text \<open>
  Everything mined is found. In the index of a valid chain the lookup of any transaction of any
  block by its hash returns the record of that transaction, with the height and hash of its block
  and its position in it, and the lookup of the block's height returns the record of that block,
  which lists the transaction at the same position.
\<close>

theorem index_finds_mined:
  assumes "chain_of_blocks X clk path bs = Ok (n, c)" and "build_index X n c bs = Ok index"
    and "xf_file st = Some (Ok index)" and "i < length bs" and "j < length (b_transactions (bs ! i))"
  shows "let b = bs ! i; t = b_transactions b ! j; h = hash_to_hex (tx_hash X t) in
    \<exists>itx ib. find_transaction st h = Ok itx \<and> find_block st (of_nat i) = Ok ib
      \<and> it_hash itx = h \<and> unat (it_block_height itx) = i \<and> it_transaction_index itx = j
      \<and> it_block_hash itx = hash_to_hex (block_hash X b) \<and> it_amount itx = tx_amount t \<and> it_to itx = tx_to t
      \<and> ib_hash ib = it_block_hash itx \<and> ib_transaction_hashes ib ! j = h"
proof -
  note ok = chain_of_blocks_Ok [OF assms(1)]
  let ?b = "bs ! i" and ?t = "b_transactions (bs ! i) ! j"
  let ?h = "hash_to_hex (tx_hash X ?t)"
  let ?itx = "make_indexed_transaction X ?t (bh_height (b_header ?b)) (hash_to_hex (block_hash X ?b))
    (length (b_transactions ?b)) j (bh_base_fee_atomic (b_header ?b))"
  let ?ib = "make_indexed_block X (c_state c) ?b (hd (b_transactions ?b))"
  have unat_of_nat_inv: "of_nat (unat w) = w" for w :: u64 by simp
  have run: "run (ledger_step X) bs ledger_new = Some (c_state c)" using ok by (simp add: chain_ok_def)
  have heights: "unat (bh_height (b_header (bs ! k))) = k" if "k < length bs" for k
    using ok that by (auto simp: chain_ok_def chain_linked_def Let_def)
  then have height: "bh_height (b_header ?b) = of_nat i" using assms(4) by (metis unat_of_nat_inv)
  have "(?h, ?itx) \<in> set (block_entries X ?b)"
    using assms(5) by (force simp: block_entries_def in_set_enumerate_eq)
  then have "(?h, ?itx) \<in> set (concat (map (block_entries X) bs))" using assms(4) by auto
  moreover have "map fst (concat (map (block_entries X) bs)) = concat (map (block_hashes X) bs)"
    by (induction bs) (simp_all add: block_entries_keys)
  ultimately have "map_of (ix_transactions_by_hash index) ?h = Some ?itx"
    using chain_hashes_distinct [OF run]
    by (simp add: build_index_fields(2) [OF assms(2)] index_blocks_map map_of_inserts)
  moreover have "distinct (map (\<lambda>b. bh_height (b_header b)) bs)"
    unfolding distinct_conv_nth using heights by (metis length_map nth_map)
  then have "map_of (ix_blocks_by_height index) (of_nat i) = Some ?ib"
    using assms(4) height
    unfolding build_index_fields(3) [OF assms(2)] index_blocks_heights
    by (intro map_of_inserts) (auto simp: comp_def image_iff intro!: bexI [of _ ?b])
  ultimately show ?thesis
    using heights [OF assms(4)] assms(5)
    by (simp add: Let_def find_transaction_def find_block_def load_index_def assms(3) make_indexed_transaction_def
        make_indexed_block_def)
qed

theorem index_finds_mined_witness:
  "\<exists>index itx. build_index sample_externals Devnet sample_grown [sample_genesis, sample_next] = Ok index
     \<and> find_transaction \<lparr>xf_path = [], xf_file = Some (Ok index)\<rparr>
          (hash_to_hex (tx_hash sample_externals (sample_spend 1 5 15))) = Ok itx
     \<and> unat (it_block_height itx) = 1 \<and> it_transaction_index itx = 1"
proof -
  let ?bs = "[sample_genesis, sample_next]"
  note c = sample_chains_of_blocks(2) [of "[]"] and ok = chain_of_blocks_Ok [OF sample_chains_of_blocks(2)]
  obtain index where i: "build_index sample_externals Devnet sample_grown ?bs = Ok index"
    using build_index_total [OF ok(1,2)] by blast
  have "b_transactions sample_next = [sample_reward 1 3 1902587534, sample_spend 1 5 15]" by (simp add: sample_next_def)
  with index_finds_mined [OF c i, of "\<lparr>xf_path = [], xf_file = Some (Ok index)\<rparr>" 1 1] i show ?thesis
    by (auto simp: Let_def)
qed

end
