(* ===== verification/Vireon_Explorer.thy ===== *)
theory Vireon_Explorer
  imports
    Vireon_Serving
    Vireon_Activity
begin

text \<open>
  The reading routes of the gateway, \<^verbatim>\<open>vireon-rpc-gateway/src/app.rs\<close>: the cached chain, the cached
  and sorted index, the lookups of blocks, transactions and accounts, the status answers and the
  pages of the explorer, and \<open>mempool_status\<close> of \<^verbatim>\<open>vireon-node/src/devnet.rs\<close>. What a request finds
  on disk, with the fingerprints of the files, is an argument. The lemmas show that an answer from a
  cache is the one a fresh load would give, that the pages of a listing enumerate the index once,
  newest or richest first, and that the nonce offered to a wallet is the one the node admits.
\<close>

section \<open>Caches\<close>

record file_fingerprint =
  ff_len :: u64
  ff_modified_millis :: u64

record chain_storage_fingerprint =
  cf_database :: file_fingerprint
  cf_wal :: file_fingerprint

record loaded_chain =
  lc_blocks :: "block list"
  lc_chain :: chain
  lc_height :: "u64 option"
  lc_tip_hash :: "string option"
  lc_emitted_supply :: u64
  lc_cumulative_work :: "string option"

record cached_chain =
  cc_fingerprint :: chain_storage_fingerprint
  cc_loaded :: loaded_chain

record cached_index =
  ci_fingerprint :: "u64 \<times> u64"
  ci_data :: index_data
  ci_transactions :: "indexed_transaction list"
  ci_addresses :: "address_activity list"

record reader_state =
  rd_chain_cache :: "cached_chain option"
  rd_index_cache :: "cached_index option"

text \<open>The files as one request finds them.\<close>

record disk =
  dk_db :: database
  dk_chain_fingerprint :: chain_storage_fingerprint
  dk_index :: index_store
  dk_index_fingerprint :: "u64 \<times> u64"
  dk_pending :: "pending_record list"

definition make_loaded_chain :: "externals \<Rightarrow> block list \<Rightarrow> chain \<Rightarrow> loaded_chain" where
  "make_loaded_chain X blocks c =
     \<lparr>lc_blocks = blocks, lc_chain = c, lc_height = chain_height c,
      lc_tip_hash = map_option hash_to_hex (chain_tip_hash X c),
      lc_emitted_supply = chain_emitted_supply c,
      lc_cumulative_work = (case chain_cumulative_work c of Inr w \<Rightarrow> Some (show_word w) | Inl _ \<Rightarrow> None)\<rparr>"

text \<open>The part of \<open>load_chain\<close> after a miss.\<close>

definition reload_chain ::
  "externals \<Rightarrow> (nat \<Rightarrow> u64) \<Rightarrow> rpc_config \<Rightarrow> disk \<Rightarrow> (reader_state, rpc_error, loaded_chain) mut" where
  "reload_chain X clk cfg d st =
     (case load_blocks X (dk_db d) of
        Inl e \<Rightarrow> (Err (RpcNode e), st)
      | Inr blocks \<Rightarrow>
          if blocks = [] then (Err (RpcNode (ChainNotInitialized (db_path (dk_db d)))), st\<lparr>rd_chain_cache := None\<rparr>)
          else
            (case chain_from_blocks X (rc_network cfg) (clocked clk blocks) of
               Inl e \<Rightarrow> (Err (RpcCore e), st)
             | Inr c \<Rightarrow>
                 let loaded = make_loaded_chain X blocks c in
                 (Ok loaded, st\<lparr>rd_chain_cache := Some \<lparr>cc_fingerprint = dk_chain_fingerprint d, cc_loaded = loaded\<rparr>\<rparr>)))"

definition load_chain ::
  "externals \<Rightarrow> (nat \<Rightarrow> u64) \<Rightarrow> rpc_config \<Rightarrow> disk \<Rightarrow> (reader_state, rpc_error, loaded_chain) mut" where
  "load_chain X clk cfg d st =
     (case rd_chain_cache st of
        Some cached \<Rightarrow>
          if cc_fingerprint cached = dk_chain_fingerprint d then (Ok (cc_loaded cached), st)
          else reload_chain X clk cfg d st
      | None \<Rightarrow> reload_chain X clk cfg d st)"

text \<open>
  \<open>sort_by\<close> is stable: a descending order is an ascending one on the reversed list, reversed.
\<close>

definition newest_first :: "indexed_transaction list \<Rightarrow> indexed_transaction list" where
  "newest_first ts =
     rev (sort_key (\<lambda>t. (unat (it_block_height t), it_transaction_index t, it_hash t)) (rev ts))"

definition richest_first :: "address_activity list \<Rightarrow> address_activity list" where
  "richest_first as = sort_key (\<lambda>a. (- uint (aa_balance a), aa_address a)) as"

definition make_cached_index :: "disk \<Rightarrow> index_data \<Rightarrow> cached_index" where
  "make_cached_index d data =
     \<lparr>ci_fingerprint = dk_index_fingerprint d, ci_data = data,
      ci_transactions = newest_first (map snd (ix_transactions_by_hash data)),
      ci_addresses = richest_first (map snd (ix_addresses data))\<rparr>"

definition load_cached_index :: "disk \<Rightarrow> (reader_state, rpc_error, cached_index) mut" where
  "load_cached_index d st =
     (let miss = (case load_index (dk_index d) of
            Inl e \<Rightarrow> (Err (RpcIndexer e), st)
          | Inr data \<Rightarrow>
              let cached = make_cached_index d data in
              (Ok cached, st\<lparr>rd_index_cache := Some cached\<rparr>)) in
      case rd_index_cache st of
        Some cached \<Rightarrow> if ci_fingerprint cached = dk_index_fingerprint d then (Ok cached, st) else miss
      | None \<Rightarrow> miss)"

definition load_index_data :: "disk \<Rightarrow> (reader_state, rpc_error, index_data) mut" where
  "load_index_data d = mbind (load_cached_index d) (\<lambda>cached. mret (ci_data cached))"

definition cached_indexer_status ::
  "rpc_config \<Rightarrow> disk \<Rightarrow> u64 option \<Rightarrow> string option \<Rightarrow> (reader_state, rpc_error, indexer_status) mut" where
  "cached_indexer_status cfg d height tip st =
     (let dir = (if rc_access_mode cfg \<noteq> Local then ''redacted'' else rc_indexer_data_path cfg) in
      case load_index_data d st of
        (Inr index, st') \<Rightarrow>
          let s = ix_summary index in
          (Ok \<lparr>is_mode = INDEXER_MODE, is_network_id = Some (xs_network s), is_status_label = Some (xs_status s),
               is_initialized = True, is_index_dir = dir, is_indexed_height = xs_indexed_height s,
               is_indexed_block_count = xs_indexed_block_count s, is_transaction_count = xs_transaction_count s,
               is_address_count = xs_address_count s, is_tip_hash = xs_tip_hash s, is_chain_height = height,
               is_chain_tip_hash = tip,
               is_in_sync = (tip \<noteq> None \<and> xs_tip_hash s = tip \<and> xs_indexed_height s = height),
               is_lag_blocks = lag_blocks height (xs_indexed_height s)\<rparr>, st')
      | (Inl (RpcIndexer (IndexNotInitialized _)), st') \<Rightarrow>
          (Ok \<lparr>is_mode = INDEXER_MODE, is_network_id = None, is_status_label = None, is_initialized = False,
               is_index_dir = dir, is_indexed_height = None, is_indexed_block_count = 0,
               is_transaction_count = 0, is_address_count = 0, is_tip_hash = None, is_chain_height = height,
               is_chain_tip_hash = tip, is_in_sync = False,
               is_lag_blocks = (case height of Some h \<Rightarrow> saturating_add h 1 | None \<Rightarrow> 0)\<rparr>, st')
      | (Inl e, st') \<Rightarrow> (Err e, st'))"

section \<open>Chain routes\<close>

definition health_mode :: "rpc_config \<Rightarrow> string" where
  "health_mode c =
     rc_status_label c @ '' / '' @
     (case rc_access_mode c of
        Local \<Rightarrow> ''Local only''
      | PublicRead \<Rightarrow> ''Public read''
      | PublicSubmit \<Rightarrow>
          if mining_endpoints_enabled c then ''Public submit + mining (loopback/proxy-deny required)''
          else ''Public submit (mining disabled)''
      | PrivateMining \<Rightarrow> ''Private container-network mining (no published host port)'')"

record status_response =
  st_network_id :: string
  st_network_name :: string
  st_status_label :: string
  st_initialized :: bool
  st_block_count :: nat
  st_height :: "u64 option"
  st_tip_hash :: "string option"
  st_emitted_supply :: "u64 option"
  st_index_tip_hash :: "string option"
  st_index_height :: "u64 option"
  st_index_in_sync :: bool
  st_index_lag_blocks :: u64
  st_cumulative_work :: "string option"

definition status_route ::
  "externals \<Rightarrow> (nat \<Rightarrow> u64) \<Rightarrow> rpc_config \<Rightarrow> disk \<Rightarrow> (reader_state, rpc_error, status_response) mut" where
  "status_route X clk cfg d st =
     (case load_chain X clk cfg d st of
        (Inr loaded, st1) \<Rightarrow>
          (case cached_indexer_status cfg d (lc_height loaded) (lc_tip_hash loaded) st1 of
             (r, st2) \<Rightarrow>
               let idx = (case r of Inr s \<Rightarrow> Some s | Inl _ \<Rightarrow> None) in
               (Ok \<lparr>st_network_id = rc_network_id cfg, st_network_name = rc_human_name cfg,
                    st_status_label = rc_status_label cfg, st_initialized = True,
                    st_block_count = length (lc_blocks loaded), st_height = lc_height loaded,
                    st_tip_hash = lc_tip_hash loaded, st_emitted_supply = Some (lc_emitted_supply loaded),
                    st_index_tip_hash = Option.bind idx is_tip_hash, st_index_height = Option.bind idx is_indexed_height,
                    st_index_in_sync = (case idx of Some s \<Rightarrow> is_in_sync s | None \<Rightarrow> False),
                    st_index_lag_blocks = (case idx of Some s \<Rightarrow> is_lag_blocks s | None \<Rightarrow> 0),
                    st_cumulative_work = lc_cumulative_work loaded\<rparr>, st2))
      | (Inl (RpcNode (ChainNotInitialized _)), st1) \<Rightarrow>
          (Ok \<lparr>st_network_id = rc_network_id cfg, st_network_name = rc_human_name cfg,
               st_status_label = rc_status_label cfg, st_initialized = False, st_block_count = 0,
               st_height = None, st_tip_hash = None, st_emitted_supply = None, st_index_tip_hash = None,
               st_index_height = None, st_index_in_sync = False, st_index_lag_blocks = 0,
               st_cumulative_work = None\<rparr>, st1)
      | (Inl e, st1) \<Rightarrow> (Err e, st1))"

definition chain_tip_route ::
  "externals \<Rightarrow> (nat \<Rightarrow> u64) \<Rightarrow> rpc_config \<Rightarrow> disk \<Rightarrow> (reader_state, rpc_error, u64 \<times> string) mut" where
  "chain_tip_route X clk cfg d =
     mbind (load_chain X clk cfg d) (\<lambda>loaded.
     mlift (\<lambda>_.
       rbind (ok_or (lc_height loaded) (RpcNotFound ''no chain tip available'')) (\<lambda>height.
       rbind (ok_or (lc_tip_hash loaded) (RpcNotFound ''no chain tip available'')) (\<lambda>hash.
       Ok (height, hash)))))"

definition chain_height_route ::
  "externals \<Rightarrow> (nat \<Rightarrow> u64) \<Rightarrow> rpc_config \<Rightarrow> disk \<Rightarrow> (reader_state, rpc_error, u64) mut" where
  "chain_height_route X clk cfg d =
     mbind (load_chain X clk cfg d) (\<lambda>loaded.
     mlift (\<lambda>_. ok_or (lc_height loaded) (RpcNotFound ''no chain height available'')))"

definition block_answer ::
  "externals \<Rightarrow> (nat \<Rightarrow> u64) \<Rightarrow> rpc_config \<Rightarrow> disk \<Rightarrow> (block list \<Rightarrow> block option) \<Rightarrow> string
     \<Rightarrow> (reader_state, rpc_error, block_response) mut" where
  "block_answer X clk cfg d pick missing =
     mbind (load_chain X clk cfg d) (\<lambda>loaded.
     mlift (\<lambda>_. rbind (ok_or (pick (lc_blocks loaded)) (RpcNotFound missing)) (\<lambda>b.
                 Ok (make_block_response X b))))"

definition blocks_latest where
  "blocks_latest X clk cfg d = block_answer X clk cfg d last_block ''latest block not found''"

definition blocks_by_height where
  "blocks_by_height X clk cfg d height =
     block_answer X clk cfg d (find (\<lambda>b. bh_height (b_header b) = height))
       (''block at height '' @ show_word height @ '' not found'')"

definition blocks_by_hash where
  "blocks_by_hash X clk cfg d hash =
     block_answer X clk cfg d (find (\<lambda>b. hash_to_hex (block_hash X b) = hash))
       (''block with hash '' @ hash @ '' not found'')"

definition find_mined :: "externals \<Rightarrow> string \<Rightarrow> block list \<Rightarrow> (block \<times> transaction) option" where
  "find_mined X hash blocks =
     fold (\<lambda>b found. case found of
              Some r \<Rightarrow> Some r
            | None \<Rightarrow> map_option (Pair b) (find (\<lambda>t. hash_to_hex (tx_hash X t) = hash) (b_transactions b)))
       blocks None"

definition transactions_by_hash ::
  "externals \<Rightarrow> (nat \<Rightarrow> u64) \<Rightarrow> rpc_config \<Rightarrow> disk \<Rightarrow> string \<Rightarrow> (reader_state, rpc_error, transaction_response) mut" where
  "transactions_by_hash X clk cfg d hash =
     mbind (load_chain X clk cfg d) (\<lambda>loaded.
     mlift (\<lambda>_.
       case find (\<lambda>r. pr_tx_hash r = hash) (dk_pending d) of
         Some r \<Rightarrow> Ok (make_transaction_response X (pr_transaction r) ''pending'' None None
                         (next_base_fee (last_block (lc_blocks loaded))))
       | None \<Rightarrow>
           (case find_mined X hash (lc_blocks loaded) of
              Some (b, t) \<Rightarrow> Ok (make_transaction_response X t ''mined'' (Some (bh_height (b_header b)))
                                  (Some (hash_to_hex (block_hash X b))) (bh_base_fee_atomic (b_header b)))
            | None \<Rightarrow> Err (RpcNotFound (''transaction with hash '' @ hash @ '' not found'')))))"

definition address_account ::
  "externals \<Rightarrow> (nat \<Rightarrow> u64) \<Rightarrow> rpc_config \<Rightarrow> disk \<Rightarrow> string \<Rightarrow> (reader_state, rpc_error, address_account_response) mut" where
  "address_account X clk cfg d address =
     mbind (load_chain X clk cfg d) (\<lambda>loaded.
     mret (make_address_account_response X (lc_chain loaded) address
             (map (\<lambda>r. tx_nonce (pr_transaction r))
                (filter (\<lambda>r. tx_from (pr_transaction r) = Some address) (dk_pending d)))
             (next_base_fee (last_block (lc_blocks loaded)))))"

definition state_snapshot where
  "state_snapshot X clk cfg d =
     mbind (load_chain X clk cfg d) (\<lambda>loaded. mret (make_state_response X (lc_chain loaded)))"

definition supply_route where
  "supply_route X clk cfg d =
     mbind (load_chain X clk cfg d) (\<lambda>loaded. mret (make_supply_response (lc_chain loaded)))"

section \<open>The pool\<close>

record mempool_status_summary =
  mp_status :: string
  mp_mempool_dir :: string
  mp_pending_count :: nat
  mp_anticipated_base_fee :: u64
  mp_total_fees :: u64
  mp_total_burned_fees :: u64
  mp_total_priority_fees :: u64
  mp_highest_priority_fee :: u64
  mp_highest_max_fee :: u64
  mp_pending_hashes :: "string list"

definition max_or_zero :: "u64 list \<Rightarrow> u64" where
  "max_or_zero xs = foldr max xs 0"

definition fee_or_zero :: "amount result \<Rightarrow> u64" where
  "fee_or_zero r = (case r of Inr a \<Rightarrow> a | Inl _ \<Rightarrow> 0)"

definition summarize_pool :: "string \<Rightarrow> chain \<Rightarrow> pending_record list \<Rightarrow> mempool_status_summary" where
  "summarize_pool dir c records =
     (let base_fee = next_base_fee (last_block (c_blocks c)); txs = map pr_transaction records in
      \<lparr>mp_status = prototype_mode (c_network c), mp_mempool_dir = dir, mp_pending_count = length records,
       mp_anticipated_base_fee = base_fee,
       mp_total_fees = sum_list (map (\<lambda>t. fee_or_zero (effective_fee t base_fee)) txs),
       mp_total_burned_fees = sum_list (map (\<lambda>t. if is_coinbase t then 0 else base_fee) txs),
       mp_total_priority_fees = sum_list (map (\<lambda>t. fee_or_zero (effective_priority_fee t base_fee)) txs),
       mp_highest_priority_fee = max_or_zero (map (\<lambda>t. fee_or_zero (effective_priority_fee t base_fee))
         (filter (\<lambda>t. is_ok (effective_priority_fee t base_fee)) txs)),
       mp_highest_max_fee = max_or_zero (map tx_max_fee txs),
       mp_pending_hashes = map pr_tx_hash records\<rparr>)"

text \<open>\<open>mempool_status\<close> also drops what is no longer valid from the file. The sums wrap at 64 bits.\<close>

definition mempool_status ::
  "externals \<Rightarrow> (nat \<Rightarrow> u64) \<Rightarrow> u64 \<Rightarrow> string \<Rightarrow> (node_state, node_error, mempool_status_summary) mut" where
  "mempool_status X clk now dir st =
     (case rbind (load_chain_only X clk (nd_db st)) (\<lambda>c.
           rbind (sanitize_pending_transactions X now c (nd_pending st)) (\<lambda>(valid, _, _). Ok (c, valid))) of
        Inl e \<Rightarrow> (Err e, st)
      | Inr (c, valid) \<Rightarrow> (Ok (summarize_pool dir c valid), st\<lparr>nd_pending := valid\<rparr>))"

section \<open>Explorer routes\<close>

record 'a page =
  pg_total :: nat
  pg_offset :: nat
  pg_limit :: nat
  pg_items :: "'a list"

definition page_bounds :: "nat option \<Rightarrow> nat option \<Rightarrow> nat \<times> nat" where
  "page_bounds offset limit =
     (case offset of Some k \<Rightarrow> k | None \<Rightarrow> 0, max 1 (min 100 (case limit of Some k \<Rightarrow> k | None \<Rightarrow> 20)))"

definition page_of :: "'a list \<Rightarrow> nat option \<Rightarrow> nat option \<Rightarrow> 'a page" where
  "page_of xs offset limit =
     (case page_bounds offset limit of (k, n) \<Rightarrow>
      \<lparr>pg_total = length xs, pg_offset = k, pg_limit = n, pg_items = take n (drop k xs)\<rparr>)"

definition indexer_blocks_page ::
  "disk \<Rightarrow> nat option \<Rightarrow> nat option \<Rightarrow> (reader_state, rpc_error, indexed_block page) mut" where
  "indexer_blocks_page d offset limit =
     mbind (load_index_data d) (\<lambda>index. mret (page_of (rev (map snd (ix_blocks_by_height index))) offset limit))"

definition indexer_transactions_page ::
  "disk \<Rightarrow> nat option \<Rightarrow> nat option \<Rightarrow> (reader_state, rpc_error, indexed_transaction page) mut" where
  "indexer_transactions_page d offset limit =
     mbind (load_cached_index d) (\<lambda>cached. mret (page_of (ci_transactions cached) offset limit))"

definition indexer_addresses_page ::
  "disk \<Rightarrow> nat option \<Rightarrow> nat option \<Rightarrow> (reader_state, rpc_error, address_activity page) mut" where
  "indexer_addresses_page d offset limit =
     mbind (load_cached_index d) (\<lambda>cached. mret (page_of (ci_addresses cached) offset limit))"

definition indexer_overview ::
  "disk \<Rightarrow> nat option \<Rightarrow> nat option
     \<Rightarrow> (reader_state, rpc_error, index_summary \<times> indexed_block list \<times> indexed_transaction list) mut" where
  "indexer_overview d blocks transactions =
     mbind (load_cached_index d) (\<lambda>cached.
     let index = ci_data cached;
         block_limit = max 1 (min 100 (case blocks of Some k \<Rightarrow> k | None \<Rightarrow> 12));
         transaction_limit = max 1 (min 200 (case transactions of Some k \<Rightarrow> k | None \<Rightarrow> 20)) in
     mret (ix_summary index, take block_limit (rev (map snd (ix_blocks_by_height index))),
           take transaction_limit (ci_transactions cached)))"

definition index_lookup ::
  "disk \<Rightarrow> (index_data \<Rightarrow> 'a option) \<Rightarrow> string \<Rightarrow> (reader_state, rpc_error, 'a) mut" where
  "index_lookup d pick missing =
     mbind (load_index_data d) (\<lambda>index. mlift (\<lambda>_. ok_or (pick index) (RpcNotFound missing)))"

definition indexer_blocks_latest where
  "indexer_blocks_latest d =
     index_lookup d (\<lambda>index. Option.bind (xs_indexed_height (ix_summary index)) (map_of (ix_blocks_by_height index)))
       ''no indexed block available''"

definition indexer_blocks_by_height where
  "indexer_blocks_by_height d height =
     index_lookup d (\<lambda>index. map_of (ix_blocks_by_height index) height)
       (''block at height '' @ show_word height @ '' not found'')"

definition indexer_blocks_by_hash where
  "indexer_blocks_by_hash d hash =
     index_lookup d (\<lambda>index. map_of (ix_blocks_by_hash index) hash)
       (''block with hash '' @ hash @ '' not found'')"

definition indexer_transaction_by_hash where
  "indexer_transaction_by_hash d hash =
     index_lookup d (\<lambda>index. map_of (ix_transactions_by_hash index) hash)
       (''transaction with hash '' @ hash @ '' not found'')"

definition indexer_address where
  "indexer_address d address =
     index_lookup d (\<lambda>index. map_of (ix_addresses index) address)
       (''address '' @ address @ '' not found in index'')"

section \<open>Answers from a cache\<close>

text \<open>
  The caches after any sequence of requests that found the files as in \<open>D\<close>: every handler above
  changes them only by loading the chain or the index.
\<close>

inductive reader_reach :: "externals \<Rightarrow> rpc_config \<Rightarrow> disk set \<Rightarrow> reader_state \<Rightarrow> bool" for X cfg D where
  empty: "reader_reach X cfg D \<lparr>rd_chain_cache = None, rd_index_cache = None\<rparr>"
| chain: "reader_reach X cfg D st \<Longrightarrow> d \<in> D \<Longrightarrow> reader_reach X cfg D (snd (load_chain X clk cfg d st))"
| index: "reader_reach X cfg D st \<Longrightarrow> d \<in> D \<Longrightarrow> reader_reach X cfg D (snd (load_cached_index d st))"

definition chain_loaded_from :: "externals \<Rightarrow> rpc_config \<Rightarrow> disk \<Rightarrow> loaded_chain \<Rightarrow> bool" where
  "chain_loaded_from X cfg d loaded \<longleftrightarrow>
     (\<exists>bs c clk. load_blocks X (dk_db d) = Ok bs \<and> chain_from_blocks X (rc_network cfg) (clocked clk bs) = Ok c
        \<and> loaded = make_loaded_chain X bs c)"

definition index_loaded_from :: "disk \<Rightarrow> cached_index \<Rightarrow> bool" where
  "index_loaded_from d cached \<longleftrightarrow>
     load_index (dk_index d) = Ok (ci_data cached)
     \<and> ci_transactions cached = newest_first (map snd (ix_transactions_by_hash (ci_data cached)))
     \<and> ci_addresses cached = richest_first (map snd (ix_addresses (ci_data cached)))"

lemma load_chain_cases:
  assumes "load_chain X clk cfg d st = (r, st')"
  obtains (hit) cached where "rd_chain_cache st = Some cached" "cc_fingerprint cached = dk_chain_fingerprint d"
      "r = Ok (cc_loaded cached)" "st' = st"
    | (miss) loaded where "r = Ok loaded" "chain_loaded_from X cfg d loaded"
      "st' = st\<lparr>rd_chain_cache := Some \<lparr>cc_fingerprint = dk_chain_fingerprint d, cc_loaded = loaded\<rparr>\<rparr>"
    | (failed) e where "r = Err e" "st' = st \<or> st' = st\<lparr>rd_chain_cache := None\<rparr>"
proof -
  have reload: thesis if r: "reload_chain X clk cfg d st = (r, st')"
  proof (cases "load_blocks X (dk_db d)")
    case (Inl e)
    show thesis by (rule failed [of "RpcNode e"]) (use Inl r in \<open>simp_all add: reload_chain_def\<close>)
  next
    case (Inr bs)
    show thesis
    proof (cases "bs = []")
      case True
      show thesis
        by (rule failed [of "RpcNode (ChainNotInitialized (db_path (dk_db d)))"])
          (use Inr True r in \<open>simp_all add: reload_chain_def\<close>)
    next
      case False
      note bs = this Inr
      show thesis
      proof (cases "chain_from_blocks X (rc_network cfg) (clocked clk bs)")
        case (Inl e)
        show thesis by (rule failed [of "RpcCore e"]) (use Inl bs r in \<open>simp_all add: reload_chain_def\<close>)
      next
        case (Inr c)
        show thesis
          by (rule miss [of "make_loaded_chain X bs c"])
            (use Inr bs r in \<open>auto simp: reload_chain_def Let_def chain_loaded_from_def\<close>)
      qed
    qed
  qed
  show thesis
  proof (cases "\<exists>cached. rd_chain_cache st = Some cached \<and> cc_fingerprint cached = dk_chain_fingerprint d")
    case True
    then obtain cached where c: "rd_chain_cache st = Some cached" "cc_fingerprint cached = dk_chain_fingerprint d" by blast
    show thesis by (rule hit [OF c]) (use assms c in \<open>simp_all add: load_chain_def\<close>)
  next
    case False
    then have "reload_chain X clk cfg d st = (r, st')" using assms by (auto simp: load_chain_def split: option.splits)
    then show thesis by (rule reload)
  qed
qed

lemma load_index_cases:
  assumes "load_cached_index d st = (r, st')"
  obtains (hit) cached where "rd_index_cache st = Some cached" "ci_fingerprint cached = dk_index_fingerprint d"
      "r = Ok cached" "st' = st"
    | (miss) cached where "r = Ok cached" "index_loaded_from d cached" "ci_fingerprint cached = dk_index_fingerprint d"
      "st' = st\<lparr>rd_index_cache := Some cached\<rparr>"
    | (failed) e where "r = Err e" "st' = st"
proof (cases "\<exists>cached. rd_index_cache st = Some cached \<and> ci_fingerprint cached = dk_index_fingerprint d")
  case True
  then obtain cached where c: "rd_index_cache st = Some cached" "ci_fingerprint cached = dk_index_fingerprint d" by blast
  show thesis by (rule hit [OF c]) (use assms c in \<open>simp_all add: load_cached_index_def Let_def\<close>)
next
  case False
  then have other: "load_cached_index d st = (case load_index (dk_index d) of
      Inl e \<Rightarrow> (Err (RpcIndexer e), st)
    | Inr data \<Rightarrow> (Ok (make_cached_index d data), st\<lparr>rd_index_cache := Some (make_cached_index d data)\<rparr>))"
    unfolding load_cached_index_def Let_def by (auto split: option.splits)
  show thesis
  proof (cases "load_index (dk_index d)")
    case (Inl e)
    show thesis by (rule failed [of "RpcIndexer e"]) (use assms Inl other in simp_all)
  next
    case (Inr data)
    show thesis
      by (rule miss [of "make_cached_index d data"])
        (use assms Inr other in \<open>simp_all add: index_loaded_from_def make_cached_index_def\<close>)
  qed
qed

lemma reader_reach_caches:
  assumes "reader_reach X cfg D st"
  shows "(\<forall>cached. rd_chain_cache st = Some cached \<longrightarrow>
        (\<exists>d\<in>D. cc_fingerprint cached = dk_chain_fingerprint d \<and> chain_loaded_from X cfg d (cc_loaded cached)))
    \<and> (\<forall>cached. rd_index_cache st = Some cached \<longrightarrow>
        (\<exists>d\<in>D. ci_fingerprint cached = dk_index_fingerprint d \<and> index_loaded_from d cached))"
  using assms
proof induction
  case (chain st d clk)
  show ?case
    by (rule load_chain_cases [of X clk cfg d st "fst (load_chain X clk cfg d st)" "snd (load_chain X clk cfg d st)"])
      (use chain in auto)
next
  case (index st d)
  show ?case
    by (rule load_index_cases [of d st "fst (load_cached_index d st)" "snd (load_cached_index d st)"])
      (use index in auto)
qed simp

text \<open>
  C19: Caching does not change answers. As long as files with equal fingerprints have equal
  contents, a chain or an index that a request gets, from a cache filled by whatever requests came
  before or from the file, is what loading the present file gives: its blocks with the state a
  validation of them produced, and its index with the two sorted listings.
\<close>

theorem cached_reads_fresh:
  assumes "reader_reach X cfg D st" and "d \<in> D"
    and "\<forall>a\<in>D. \<forall>b\<in>D. dk_chain_fingerprint a = dk_chain_fingerprint b \<longrightarrow> load_blocks X (dk_db a) = load_blocks X (dk_db b)"
    and "\<forall>a\<in>D. \<forall>b\<in>D. dk_index_fingerprint a = dk_index_fingerprint b \<longrightarrow> dk_index a = dk_index b"
  shows "(\<forall>loaded. fst (load_chain X clk cfg d st) = Ok loaded \<longrightarrow> chain_loaded_from X cfg d loaded)
    \<and> (\<forall>cached. fst (load_cached_index d st) = Ok cached \<longrightarrow> index_loaded_from d cached)"
proof -
  note c = reader_reach_caches [OF assms(1)]
  have "chain_loaded_from X cfg d loaded" if ok: "fst (load_chain X clk cfg d st) = Ok loaded" for loaded
  proof -
    have "load_chain X clk cfg d st = (Ok loaded, snd (load_chain X clk cfg d st))" using ok by (simp add: prod_eq_iff)
    then show ?thesis
    proof (cases rule: load_chain_cases)
      case (hit cached)
      then obtain d' where "d' \<in> D" "cc_fingerprint cached = dk_chain_fingerprint d'" "chain_loaded_from X cfg d' loaded"
        using c by auto
      moreover from this have "load_blocks X (dk_db d') = load_blocks X (dk_db d)" using hit(2) assms(2,3) by metis
      ultimately show ?thesis by (simp add: chain_loaded_from_def)
    qed simp_all
  qed
  moreover have "index_loaded_from d cached" if ok: "fst (load_cached_index d st) = Ok cached" for cached
  proof -
    have "load_cached_index d st = (Ok cached, snd (load_cached_index d st))" using ok by (simp add: prod_eq_iff)
    then show ?thesis
    proof (cases rule: load_index_cases)
      case (hit cached')
      then obtain d' where "d' \<in> D" "ci_fingerprint cached = dk_index_fingerprint d'" "index_loaded_from d' cached"
        using c by auto
      moreover from this have "dk_index d' = dk_index d" using hit assms(2,4) by (metis sum.inject(2))
      ultimately show ?thesis by (simp add: index_loaded_from_def)
    qed simp_all
  qed
  ultimately show ?thesis by blast
qed

definition sample_disk :: disk where
  "sample_disk = \<lparr>dk_db = sample_db, dk_chain_fingerprint = \<lparr>cf_database = \<lparr>ff_len = 8192, ff_modified_millis = 7\<rparr>,
       cf_wal = \<lparr>ff_len = 0, ff_modified_millis = 0\<rparr>\<rparr>,
     dk_index = \<lparr>xf_path = [], xf_file = None\<rparr>, dk_index_fingerprint = (0, 0), dk_pending = []\<rparr>"

abbreviation no_cache :: reader_state where
  "no_cache \<equiv> \<lparr>rd_chain_cache = None, rd_index_cache = None\<rparr>"

lemma sample_first_load:
  "load_chain sample_externals (\<lambda>_. 0) sample_rpc_config (sample_disk\<lparr>dk_pending := p\<rparr>) no_cache
     = (Ok (make_loaded_chain sample_externals [sample_genesis] sample_chain),
        \<lparr>rd_chain_cache = Some \<lparr>cc_fingerprint = dk_chain_fingerprint sample_disk,
           cc_loaded = make_loaded_chain sample_externals [sample_genesis] sample_chain\<rparr>, rd_index_cache = None\<rparr>)"
proof -
  have "chain_from_blocks sample_externals (rc_network sample_rpc_config) (clocked (\<lambda>_. 0) [sample_genesis]) = Ok sample_chain"
    using sample_chain_built by (simp add: clocked_def sample_rpc_config_def)
  then show ?thesis using sample_db_loads
    by (simp add: load_chain_def reload_chain_def sample_disk_def Let_def)
qed

theorem cached_reads_fresh_witness:
  "\<exists>st cached. reader_reach sample_externals sample_rpc_config {sample_disk} st \<and> rd_chain_cache st = Some cached
     \<and> fst (load_chain sample_externals (\<lambda>_. 5) sample_rpc_config sample_disk st) = Ok (cc_loaded cached)
     \<and> chain_loaded_from sample_externals sample_rpc_config sample_disk (cc_loaded cached)"
proof -
  let ?st = "snd (load_chain sample_externals (\<lambda>_. 0) sample_rpc_config sample_disk no_cache)"
  have r: "reader_reach sample_externals sample_rpc_config {sample_disk} ?st"
    by (rule reader_reach.chain [OF reader_reach.empty]) simp
  have d: "sample_disk\<lparr>dk_pending := []\<rparr> = sample_disk" by (simp add: sample_disk_def)
  from sample_first_load [of "[]", unfolded d]
  have c: "rd_chain_cache ?st = Some \<lparr>cc_fingerprint = dk_chain_fingerprint sample_disk,
      cc_loaded = make_loaded_chain sample_externals [sample_genesis] sample_chain\<rparr>" by simp
  then have "fst (load_chain sample_externals (\<lambda>_. 5) sample_rpc_config sample_disk ?st)
      = Ok (make_loaded_chain sample_externals [sample_genesis] sample_chain)"
    by (simp add: load_chain_def)
  with cached_reads_fresh [OF r, of sample_disk "\<lambda>_. 5"] r c show ?thesis by (intro exI [of _ ?st]) auto
qed

section \<open>The nonce offered to a wallet\<close>

lemma run_offered_nonce:
  assumes "run (pending_step X b) ts s = Some s'"
  shows "fold (\<lambda>nonce next. max next (saturating_add nonce 1)) (map tx_nonce (filter (\<lambda>t. tx_from t = Some a) ts))
      (next_nonce_of s a) = next_nonce_of s' a"
  using assms
proof (induction ts arbitrary: s)
  case (Cons tx ts)
  then obtain s1 where s1: "pending_step X b tx s = Some s1" "run (pending_step X b) ts s1 = Some s'"
    by (cases "pending_step X b tx s") auto
  then obtain sender where n: "tx_from tx = Some sender" "tx_nonce tx = next_nonce_of s sender"
    "\<And>a. next_nonce_of s1 a = (if a = sender then saturating_add (tx_nonce tx) 1 else next_nonce_of s a)"
    using applied_nonce by (fastforce simp: pending_step_Some validate_pending_Ok)
  have "max m (saturating_add m 1) = saturating_add m (1::u64)" for m
    using unat_u64_less [of m] by (intro max_absorb2) (simp add: word_le_nat_alt unat_saturating_add)
  with Cons.IH [OF s1(2)] n show ?case by auto
qed simp

text \<open>
  A wallet gets the nonce the node will admit. When the pool file holds transactions that
  apply in order after the stored chain, as every admission leaves it, the nonce in the answer of
  \<open>/addresses/:address/account\<close> is the one the ledger expects of this account after the pool, and no
  other transaction of the account applies there.
\<close>

theorem offered_nonce_applies:
  assumes "fst (load_chain X clk cfg d st) = Ok loaded" and "pool_ready X (lc_chain loaded) (dk_pending d) s"
  shows "\<exists>answer. fst (address_account X clk cfg d a st) = Ok answer \<and> ar_next_nonce answer = next_nonce_of s a
    \<and> (\<forall>tx base fs s'. tx_from tx = Some a \<and> \<not> is_coinbase tx \<and> apply_transaction X tx base s = (Ok fs, s')
          \<longrightarrow> tx_nonce tx = ar_next_nonce answer)"
proof -
  let ?answer = "make_address_account_response X (lc_chain loaded) a
    (map (\<lambda>r. tx_nonce (pr_transaction r)) (filter (\<lambda>r. tx_from (pr_transaction r) = Some a) (dk_pending d)))
    (next_base_fee (last_block (lc_blocks loaded)))"
  have run: "run (pending_step X (next_base_fee (last_block (c_blocks (lc_chain loaded)))))
      (map pr_transaction (dk_pending d)) (c_state (lc_chain loaded)) = Some s"
    using assms(2) by (simp add: pool_ready_def)
  have "ar_next_nonce ?answer = next_nonce_of s a"
    using run_offered_nonce [OF run, of a]
    by (simp add: make_address_account_response_def Let_def filter_map comp_def)
  moreover have "fst (address_account X clk cfg d a st) = Ok ?answer"
    using assms(1) by (cases "load_chain X clk cfg d st") (simp add: address_account_def mbind_def mret_def)
  moreover have "tx_nonce tx = next_nonce_of s a"
    if "tx_from tx = Some a" "\<not> is_coinbase tx" "apply_transaction X tx base s = (Ok fs, s')" for tx base fs s'
    using applied_nonce [OF that(3,2)] that(1) by auto
  ultimately show ?thesis by auto
qed

theorem offered_nonce_applies_witness:
  "\<exists>p answer. length p = 1
     \<and> fst (address_account sample_externals (\<lambda>_. 0) sample_rpc_config (sample_disk\<lparr>dk_pending := p\<rparr>) (sample_address 1) no_cache)
         = Ok answer
     \<and> ar_next_nonce answer = 2"
proof -
  let ?b = "next_base_fee (last_block (c_blocks sample_chain))"
  obtain summary st' where s: "submit_transaction sample_externals (\<lambda>_. 0) (\<lambda>_. 0) 1 (sample_spend 1 5 15)
      sample_node = (Ok summary, st')" using sample_submits by blast
  then obtain s' where p: "pool_ready sample_externals sample_chain (nd_pending st') s'" "length (nd_pending st') \<le> 1"
    "nd_pending st' \<noteq> []"
    by (rule admitted_pool) (auto simp: sample_node_def sample_load_chain)
  let ?d = "sample_disk\<lparr>dk_pending := nd_pending st'\<rparr>"
  have "next_nonce_of (c_state sample_chain) (sample_address 1) = 1"
    by (simp add: sample_chain_def sample_ledger_view)
  moreover from this have "length (records_of (sample_address 1) (nd_pending st')) = 1"
    using admitted_nonce [OF s, of "sample_address 1" sample_chain] by (simp add: sample_node_def sample_load_chain)
  ultimately have "unat (next_nonce_of s' (sample_address 1)) = 2"
    using pool_ready_nonce [OF p(1), of "sample_address 1"] by simp
  then have "next_nonce_of s' (sample_address 1) = 2" by (simp add: word_unat_eq_iff)
  moreover obtain answer where "fst (address_account sample_externals (\<lambda>_. 0) sample_rpc_config ?d (sample_address 1) no_cache)
      = Ok answer" "ar_next_nonce answer = next_nonce_of s' (sample_address 1)"
    using offered_nonce_applies [of sample_externals "\<lambda>_. 0" sample_rpc_config ?d no_cache _ s' "sample_address 1"] p(1)
    by (auto simp: sample_first_load make_loaded_chain_def)
  moreover have "length (nd_pending st') = 1" using p(2,3) by (simp add: le_Suc_eq)
  ultimately show ?thesis by auto
qed

section \<open>Pages\<close>

lemma concat_pages: "concat (map (\<lambda>k. take n (drop (k * n) xs)) [0..<m]) = take (m * n) xs"
proof (induction m)
  case (Suc m)
  have "take (m * n) xs @ take n (drop (m * n) xs) = take (m * n + n) xs" by (rule take_add [symmetric])
  with Suc show ?case by (simp add: add.commute)
qed simp

lemma page_items: "1 \<le> n \<Longrightarrow> n \<le> 100 \<Longrightarrow> pg_items (page_of xs (Some k) (Some n)) = take n (drop k xs)"
  by (simp add: page_of_def page_bounds_def)

definition items :: "rpc_error + 'a page \<Rightarrow> 'a list" where
  "items r = (case r of Inr p \<Rightarrow> pg_items p | Inl _ \<Rightarrow> [])"

text \<open>
  The pages of the explorer enumerate the index. For any page size from 1 to 100, the
  pages at offsets 0, n, 2n and so on hold every transaction of the index exactly once, newest
  first (by height, position in the block and hash), and every address exactly once, by falling
  balance and then by address. Whatever offset and limit a request names, it gets at most 100
  entries.
\<close>

theorem explorer_pages_enumerate:
  assumes "fst (load_cached_index d st) = Ok cached" and "index_loaded_from d cached" and "1 \<le> n" and "n \<le> 100"
    and "length (ci_transactions cached) \<le> m * n" and "length (ci_addresses cached) \<le> m * n"
  shows "let ts = concat (map (\<lambda>k. items (fst (indexer_transactions_page d (Some (k * n)) (Some n) st))) [0..<m]);
             as = concat (map (\<lambda>k. items (fst (indexer_addresses_page d (Some (k * n)) (Some n) st))) [0..<m]);
             index = ci_data cached
    in mset ts = mset (map snd (ix_transactions_by_hash index))
     \<and> sorted_wrt (\<lambda>a b. (unat (it_block_height b), it_transaction_index b, it_hash b)
                          \<le> (unat (it_block_height a), it_transaction_index a, it_hash a)) ts
     \<and> mset as = mset (map snd (ix_addresses index))
     \<and> sorted_wrt (\<lambda>a b. aa_balance b < aa_balance a \<or> aa_balance a = aa_balance b \<and> aa_address a \<le> aa_address b) as
     \<and> (\<forall>offset limit. length (items (fst (indexer_transactions_page d offset limit st))) \<le> 100)"
proof -
  let ?ts = "ci_transactions cached" and ?as = "ci_addresses cached"
  have r: "fst (indexer_transactions_page d offset limit st) = Ok (page_of ?ts offset limit)"
    "fst (indexer_addresses_page d offset limit st) = Ok (page_of ?as offset limit)" for offset limit
    using assms(1) by (cases "load_cached_index d st",
        simp add: indexer_transactions_page_def indexer_addresses_page_def mbind_def mret_def)+
  have ts: "concat (map (\<lambda>k. items (fst (indexer_transactions_page d (Some (k * n)) (Some n) st))) [0..<m]) = ?ts"
    and as: "concat (map (\<lambda>k. items (fst (indexer_addresses_page d (Some (k * n)) (Some n) st))) [0..<m]) = ?as"
    using assms(3-6) by (simp_all add: r items_def page_items concat_pages)
  have ord: "sorted_wrt (\<lambda>a b. (unat (it_block_height b), it_transaction_index b, it_hash b)
      \<le> (unat (it_block_height a), it_transaction_index a, it_hash a)) ?ts"
    using assms(2) sorted_sort_key [of "\<lambda>t. (unat (it_block_height t), it_transaction_index t, it_hash t)"]
    by (simp add: index_loaded_from_def newest_first_def sorted_wrt_rev sorted_map)
  have "sorted_wrt (\<lambda>a b. (- uint (aa_balance a), aa_address a) \<le> (- uint (aa_balance b), aa_address b)) ?as"
    using assms(2) sorted_sort_key [of "\<lambda>a. (- uint (aa_balance a), aa_address a)"]
    by (simp add: index_loaded_from_def richest_first_def sorted_map)
  then have rich: "sorted_wrt (\<lambda>a b. aa_balance b < aa_balance a \<or> aa_balance a = aa_balance b \<and> aa_address a \<le> aa_address b) ?as"
    by (rule sorted_wrt_mono_rel [rotated]) (auto simp: less_eq_prod_def word_less_def word_uint_eq_iff)
  have "mset ?ts = mset (map snd (ix_transactions_by_hash (ci_data cached)))"
    "mset ?as = mset (map snd (ix_addresses (ci_data cached)))"
    using assms(2) by (simp_all add: index_loaded_from_def newest_first_def richest_first_def)
  moreover have "length (items (fst (indexer_transactions_page d offset limit st))) \<le> 100" for offset limit
    by (simp add: r items_def page_of_def page_bounds_def)
  ultimately show ?thesis using ord rich by (simp add: ts as Let_def)
qed

theorem explorer_pages_enumerate_witness:
  "\<exists>d index m. build_index sample_externals Devnet sample_grown [sample_genesis, sample_next] = Ok index
     \<and> dk_index d = \<lparr>xf_path = [], xf_file = Some (Ok index)\<rparr>
     \<and> mset (concat (map (\<lambda>k. items (fst (indexer_transactions_page d (Some (k * 50)) (Some 50) no_cache))) [0..<m]))
         = mset (map snd (ix_transactions_by_hash index))"
proof -
  note ok = chain_of_blocks_Ok [OF sample_chains_of_blocks(2) [of "[]"]]
  obtain index where i: "build_index sample_externals Devnet sample_grown [sample_genesis, sample_next] = Ok index"
    using build_index_total [OF ok(1,2)] by blast
  let ?d = "sample_disk\<lparr>dk_index := \<lparr>xf_path = [], xf_file = Some (Ok index)\<rparr>\<rparr>"
  let ?c = "make_cached_index ?d index" and ?m = "length (ci_transactions (make_cached_index (sample_disk\<lparr>dk_index := \<lparr>xf_path = [],
    xf_file = Some (Ok index)\<rparr>\<rparr>) index)) + length (ci_addresses (make_cached_index (sample_disk\<lparr>dk_index := \<lparr>xf_path = [],
    xf_file = Some (Ok index)\<rparr>\<rparr>) index))"
  have c: "fst (load_cached_index ?d no_cache) = Ok ?c" "index_loaded_from ?d ?c" "ci_data ?c = index"
    by (simp_all add: load_cached_index_def load_index_def index_loaded_from_def make_cached_index_def Let_def)
  from explorer_pages_enumerate [OF c(1,2), of 50 ?m] i show ?thesis
    by (intro exI [of _ ?d] exI [of _ index] exI [of _ ?m]) (simp add: Let_def c(3))
qed

end
