(* ===== verification/Vireon_Wallet.thy ===== *)
theory Vireon_Wallet
  imports
    Vireon_Machine
begin

text \<open>
  The wallet, \<^verbatim>\<open>vireon-wallet/src/storage.rs\<close>, \<^verbatim>\<open>wallet.rs\<close> and \<^verbatim>\<open>error.rs\<close>: the wallet file with its
  encrypted or plain key, unlocking, import, and the signing of a transaction against a stored
  chain. The file is its parsed content. Argon2id, AES-256-GCM and Base64 are the record
  \<open>wallet_crypto\<close> with the laws \<open>wallet_crypto_laws\<close>; random bytes and the passphrase of the
  environment are arguments. The lemmas show that a key that was written is unlocked again and never
  stored in plain on the mainnet candidate, and that the node admits what the wallet signs.
\<close>

section \<open>Errors\<close>

datatype wallet_error =
    WalletIo string
  | WalletJson string
  | WalletHttp string
  | WalletCore VireonError
  | WalletNode node_error
  | WalletNotFound string
  | StorageUnavailable
  | RpcUnavailable string
  | WalletInput string

type_synonym 'a wallet_result = "wallet_error + 'a"

fun wallet_error_display :: "wallet_error \<Rightarrow> string" where
  "wallet_error_display (WalletIo m) = ''I/O error: '' @ m"
| "wallet_error_display (WalletJson m) = ''JSON error: '' @ m"
| "wallet_error_display (WalletHttp m) = ''HTTP error: '' @ m"
| "wallet_error_display (WalletCore e) = ''core error: '' @ error_display e"
| "wallet_error_display (WalletNode e) = ''node error: '' @ node_error_display e"
| "wallet_error_display (WalletNotFound p) = ''wallet not found at '' @ p"
| "wallet_error_display StorageUnavailable = ''wallet storage path is unavailable''"
| "wallet_error_display (RpcUnavailable m) = ''RPC unavailable: '' @ m"
| "wallet_error_display (WalletInput m) = ''wallet input error: '' @ m"

section \<open>The encrypted key\<close>

text \<open>
  \<open>wc_derive\<close> is Argon2id with the parameters of \<open>derive_key\<close>, \<open>wc_encrypt\<close> and \<open>wc_decrypt\<close> are
  AES-256-GCM on key, nonce and text, where \<open>None\<close> is a failure.
\<close>

record wallet_crypto =
  wc_derive :: "bytes \<Rightarrow> bytes \<Rightarrow> string + bytes"
  wc_encrypt :: "bytes \<Rightarrow> bytes \<Rightarrow> bytes \<Rightarrow> bytes option"
  wc_decrypt :: "bytes \<Rightarrow> bytes \<Rightarrow> bytes \<Rightarrow> bytes option"
  wc_b64_encode :: "bytes \<Rightarrow> string"
  wc_b64_decode :: "string \<Rightarrow> string + bytes"

record encrypted_secret =
  es_kdf :: string
  es_salt_b64 :: string
  es_nonce_b64 :: string
  es_ciphertext_b64 :: string

definition derive_key :: "wallet_crypto \<Rightarrow> string \<Rightarrow> bytes \<Rightarrow> bytes wallet_result" where
  "derive_key W passphrase salt =
     map_err (\<lambda>e. WalletInput (''argon2 derive failed: '' @ e)) (wc_derive W (str_bytes passphrase) salt)"

definition encrypt_secret ::
  "wallet_crypto \<Rightarrow> bytes \<Rightarrow> bytes \<Rightarrow> string \<Rightarrow> bytes \<Rightarrow> encrypted_secret wallet_result" where
  "encrypt_secret W salt nonce passphrase plaintext =
     rbind (derive_key W passphrase salt) (\<lambda>key.
     rbind (ok_or (wc_encrypt W key nonce plaintext) (WalletInput ''encryption failed'')) (\<lambda>ciphertext.
     Ok \<lparr>es_kdf = ''argon2id'', es_salt_b64 = wc_b64_encode W salt, es_nonce_b64 = wc_b64_encode W nonce,
         es_ciphertext_b64 = wc_b64_encode W ciphertext\<rparr>))"

definition decrypt_secret :: "wallet_crypto \<Rightarrow> string \<Rightarrow> encrypted_secret \<Rightarrow> bytes wallet_result" where
  "decrypt_secret W passphrase secret =
     rbind (reject_if (es_kdf secret \<noteq> ''argon2id'') (WalletInput (''unsupported kdf '' @ es_kdf secret))) (\<lambda>_.
     rbind (map_err (\<lambda>e. WalletInput (''salt: '' @ e)) (wc_b64_decode W (es_salt_b64 secret))) (\<lambda>salt.
     rbind (map_err (\<lambda>e. WalletInput (''nonce: '' @ e)) (wc_b64_decode W (es_nonce_b64 secret))) (\<lambda>nonce.
     rbind (map_err (\<lambda>e. WalletInput (''ciphertext: '' @ e)) (wc_b64_decode W (es_ciphertext_b64 secret))) (\<lambda>ciphertext.
     rbind (reject_if (length nonce \<noteq> 12) (WalletInput ''invalid nonce length'')) (\<lambda>_.
     rbind (derive_key W passphrase salt) (\<lambda>key.
     ok_or (wc_decrypt W key nonce ciphertext) (WalletInput ''decryption failed (wrong passphrase?)'')))))))"

text \<open>Documented behaviour: Base64 decodes what it encoded, and the cipher opens what it sealed.\<close>

definition wallet_crypto_laws :: "wallet_crypto \<Rightarrow> bool" where
  "wallet_crypto_laws W \<longleftrightarrow>
     (\<forall>bs. wc_b64_decode W (wc_b64_encode W bs) = Ok bs)
   \<and> (\<forall>key nonce text c. wc_encrypt W key nonce text = Some c \<longrightarrow> wc_decrypt W key nonce c = Some text)"

section \<open>The wallet file\<close>

record stored_wallet =
  sw_schema :: string
  sw_network_id :: string
  sw_network_name :: string
  sw_status_label :: string
  sw_warning :: string
  sw_address :: string
  sw_public_key_hex :: string
  sw_private_key_hex :: "string option"
  sw_encrypted :: "encrypted_secret option"
  sw_key_origin :: "string option"
  sw_derivation_path :: "string option"
  sw_wallet_seed_standard_id :: "string option"
  sw_key_derivation_policy_id :: "string option"

definition SCHEMA_PLAINTEXT_LEGACY :: string where "SCHEMA_PLAINTEXT_LEGACY = ''veiron-wallet-plaintext-v0''"
definition SCHEMA_ENCRYPTED_V1 :: string where "SCHEMA_ENCRYPTED_V1 = ''veiron-wallet-encrypted-v1''"

definition wallet_network :: "stored_wallet \<Rightarrow> network wallet_result" where
  "wallet_network w = map_err WalletCore (network_from_str (sw_network_id w))"

definition is_encrypted :: "stored_wallet \<Rightarrow> bool" where
  "is_encrypted w =
     (sw_encrypted w \<noteq> None \<or> sw_schema w = SCHEMA_ENCRYPTED_V1
      \<or> (case sw_private_key_hex w of Some s \<Rightarrow> s = [] | None \<Rightarrow> True) \<and> sw_encrypted w \<noteq> None)"

definition requires_encryption :: "network \<Rightarrow> bool" where
  "requires_encryption n = (n = MainnetCandidate)"

text \<open>\<open>env\<close> is the value of \<open>VIREON_WALLET_PASSPHRASE\<close>.\<close>

definition resolve_passphrase :: "string option \<Rightarrow> string option \<Rightarrow> string wallet_result" where
  "resolve_passphrase env explicit =
     (if (case explicit of Some p \<Rightarrow> p \<noteq> [] | None \<Rightarrow> False) then Ok (the explicit)
      else if (case env of Some p \<Rightarrow> trim p \<noteq> [] | None \<Rightarrow> False) then Ok (the env)
      else Err (WalletInput
        ''mainnet-candidate wallets must be encrypted: set VIREON_WALLET_PASSPHRASE or pass an encryption passphrase''))"

text \<open>
  The files of the wallet: the wallet file of the directory, and the signed transactions under their
  file names. What surrounds an operation is a record: the passphrase of the environment and the
  random salt and nonce.
\<close>

record wallet_store =
  ws_wallet :: "stored_wallet option"
  ws_signed :: "(string, transaction) btree_map"

record wallet_env =
  we_crypto :: wallet_crypto
  we_passphrase :: "string option"
  we_salt :: bytes
  we_nonce :: bytes

record wallet_metadata =
  wm_key_origin :: "string option"
  wm_derivation_path :: "string option"
  wm_wallet_seed_standard_id :: "string option"
  wm_key_derivation_policy_id :: "string option"

definition stored_material ::
  "wallet_env \<Rightarrow> private_key \<Rightarrow> network \<Rightarrow> string option
     \<Rightarrow> (string \<times> string option \<times> encrypted_secret option \<times> string) wallet_result" where
  "stored_material E key n passphrase =
     (if requires_encryption n
      then rbind (resolve_passphrase (we_passphrase E) passphrase) (\<lambda>pass.
           rbind (encrypt_secret (we_crypto E) (we_salt E) (we_nonce E) pass (str_bytes (private_key_to_hex key))) (\<lambda>encrypted.
           Ok (SCHEMA_ENCRYPTED_V1, None, Some encrypted,
             ''Encrypted wallet file (AES-256-GCM + Argon2id). Private key is never stored in plaintext.'')))
      else Ok (SCHEMA_PLAINTEXT_LEGACY, Some (private_key_to_hex key), None,
             ''Local prototype wallet material (devnet/test fixtures). Mainnet-candidate wallets are encrypted.''))"

definition write_wallet_with_metadata_passphrase ::
  "externals \<Rightarrow> wallet_env \<Rightarrow> private_key \<Rightarrow> network \<Rightarrow> wallet_metadata \<Rightarrow> string option
     \<Rightarrow> (wallet_store, wallet_error, stored_wallet) mut" where
  "write_wallet_with_metadata_passphrase X E key n meta passphrase st =
     (let public_key = private_key_public_key X key in
      case stored_material E key n passphrase of
        Inl e \<Rightarrow> (Err e, st)
      | Inr (schema, private_key_hex, encrypted, warning) \<Rightarrow>
          (let wallet =
             \<lparr>sw_schema = schema, sw_network_id = network_id n, sw_network_name = human_name n,
              sw_status_label = status_label n, sw_warning = warning,
              sw_address = address_to_string X (address_from_public_key public_key n),
              sw_public_key_hex = public_key_to_hex public_key, sw_private_key_hex = private_key_hex,
              sw_encrypted = encrypted, sw_key_origin = wm_key_origin meta,
              sw_derivation_path = wm_derivation_path meta,
              sw_wallet_seed_standard_id = wm_wallet_seed_standard_id meta,
              sw_key_derivation_policy_id = wm_key_derivation_policy_id meta\<rparr>
           in (Ok wallet, st\<lparr>ws_wallet := Some wallet\<rparr>)))"

definition write_wallet_with_metadata ::
  "externals \<Rightarrow> wallet_env \<Rightarrow> private_key \<Rightarrow> network \<Rightarrow> wallet_metadata
     \<Rightarrow> (wallet_store, wallet_error, stored_wallet) mut" where
  "write_wallet_with_metadata X E key n meta = write_wallet_with_metadata_passphrase X E key n meta None"

definition write_wallet ::
  "externals \<Rightarrow> wallet_env \<Rightarrow> private_key \<Rightarrow> network \<Rightarrow> (wallet_store, wallet_error, stored_wallet) mut" where
  "write_wallet X E key n = write_wallet_with_metadata X E key n
     \<lparr>wm_key_origin = None, wm_derivation_path = None, wm_wallet_seed_standard_id = None,
      wm_key_derivation_policy_id = None\<rparr>"

text \<open>
  \<open>path\<close> is the path of the file. The second parse of \<open>load_wallet\<close> reads the field
  \<open>private_key_hex\<close> of the same text, which is a string exactly when the first parse filled it.
\<close>

definition load_wallet :: "string \<Rightarrow> wallet_store \<Rightarrow> stored_wallet wallet_result" where
  "load_wallet path st =
     rbind (ok_or (ws_wallet st) (WalletNotFound path)) (\<lambda>wallet.
     Ok (if sw_private_key_hex wallet = None \<and> sw_encrypted wallet = None
         then (case sw_private_key_hex wallet of
                 Some hex \<Rightarrow> wallet\<lparr>sw_private_key_hex := Some hex, sw_schema := SCHEMA_PLAINTEXT_LEGACY\<rparr>
               | None \<Rightarrow> wallet)
         else wallet))"

text \<open>\<open>std::str::from_utf8\<close>: the well-formed byte sequences of the Unicode standard, table 3-7.\<close>

definition in_range :: "nat \<Rightarrow> nat \<Rightarrow> u8 \<Rightarrow> bool" where
  "in_range lo hi b \<longleftrightarrow> lo \<le> unat b \<and> unat b \<le> hi"

abbreviation continuation :: "u8 \<Rightarrow> bool" where "continuation \<equiv> in_range 128 191"

fun utf8_well_formed :: "bytes \<Rightarrow> bool" where
  "utf8_well_formed [] = True"
| "utf8_well_formed (b # rest) =
     (if in_range 0 127 b then utf8_well_formed rest
      else if in_range 194 223 b
      then (case rest of c # r \<Rightarrow> continuation c \<and> utf8_well_formed r | _ \<Rightarrow> False)
      else if in_range 224 239 b
      then (case rest of
              c # d # r \<Rightarrow> (if b = 224 then in_range 160 191 c else if b = 237 then in_range 128 159 c else continuation c)
                 \<and> continuation d \<and> utf8_well_formed r
            | _ \<Rightarrow> False)
      else if in_range 240 244 b
      then (case rest of
              c # d # e # r \<Rightarrow> (if b = 240 then in_range 144 191 c else if b = 244 then in_range 128 143 c else continuation c)
                 \<and> continuation d \<and> continuation e \<and> utf8_well_formed r
            | _ \<Rightarrow> False)
      else False)"

definition from_utf8 :: "bytes \<Rightarrow> string option" where
  "from_utf8 bs = (if utf8_well_formed bs then Some (map (\<lambda>b. char_of (unat b)) bs) else None)"

definition private_key_from_wallet_passphrase ::
  "wallet_env \<Rightarrow> stored_wallet \<Rightarrow> string option \<Rightarrow> private_key wallet_result" where
  "private_key_from_wallet_passphrase E wallet passphrase =
     (case sw_encrypted wallet of
        Some secret \<Rightarrow>
          rbind (resolve_passphrase (we_passphrase E) passphrase) (\<lambda>pass.
          rbind (decrypt_secret (we_crypto E) pass secret) (\<lambda>plain.
          rbind (ok_or (from_utf8 plain) (WalletInput ''decrypted key is not utf8'')) (\<lambda>hex.
          map_err WalletCore (private_key_from_hex hex))))
      | None \<Rightarrow>
          (case sw_private_key_hex wallet of
             Some hex \<Rightarrow>
               (if hex \<noteq> [] then
                  (if sw_network_id wallet = network_id MainnetCandidate
                   then Err (WalletInput
                     ''legacy plaintext mainnet-candidate wallet detected; re-import with encryption (VIREON_WALLET_PASSPHRASE)'')
                   else map_err WalletCore (private_key_from_hex hex))
                else Err (WalletInput ''wallet file has no usable private key material''))
           | None \<Rightarrow> Err (WalletInput ''wallet file has no usable private key material'')))"

definition private_key_from_wallet :: "wallet_env \<Rightarrow> stored_wallet \<Rightarrow> private_key wallet_result" where
  "private_key_from_wallet E wallet = private_key_from_wallet_passphrase E wallet None"

section \<open>The standards the wallet reports\<close>

definition WALLET_SEED_STANDARD_ID :: string where "WALLET_SEED_STANDARD_ID = ''vireon-wallet-bip39-slip10-v1''"
definition KEY_DERIVATION_POLICY_ID :: string where "KEY_DERIVATION_POLICY_ID = ''vireon-key-ed25519-v1''"

section \<open>Creating and importing\<close>

text \<open>The key of \<open>PrivateKey::generate\<close> and the words of \<open>generate_mnemonic\<close> are arguments.\<close>

definition raw_key_metadata :: "string \<Rightarrow> wallet_metadata" where
  "raw_key_metadata origin =
     \<lparr>wm_key_origin = Some origin, wm_derivation_path = None, wm_wallet_seed_standard_id = None,
      wm_key_derivation_policy_id = Some KEY_DERIVATION_POLICY_ID\<rparr>"

definition mnemonic_metadata :: "string \<Rightarrow> derivation_path \<Rightarrow> wallet_metadata" where
  "mnemonic_metadata origin path =
     \<lparr>wm_key_origin = Some origin, wm_derivation_path = Some (path_display path),
      wm_wallet_seed_standard_id = Some WALLET_SEED_STANDARD_ID,
      wm_key_derivation_policy_id = Some KEY_DERIVATION_POLICY_ID\<rparr>"

definition create_dev_wallet ::
  "externals \<Rightarrow> wallet_env \<Rightarrow> private_key \<Rightarrow> network \<Rightarrow> (wallet_store, wallet_error, stored_wallet) mut" where
  "create_dev_wallet X E generated n = write_wallet_with_metadata X E generated n (raw_key_metadata ''raw-private-key'')"

definition import_dev_private_key ::
  "externals \<Rightarrow> wallet_env \<Rightarrow> string \<Rightarrow> network \<Rightarrow> (wallet_store, wallet_error, stored_wallet) mut" where
  "import_dev_private_key X E private_key_hex n =
     mbind (mlift (\<lambda>_. map_err WalletCore (private_key_from_hex private_key_hex))) (\<lambda>key.
     write_wallet_with_metadata X E key n (raw_key_metadata ''raw-private-key-import''))"

record created_wallet =
  cw_network_id :: string
  cw_network_name :: string
  cw_status_label :: string
  cw_address :: string
  cw_public_key_hex :: string
  cw_derivation_path :: string
  cw_wallet_seed_standard_id :: string
  cw_key_derivation_policy_id :: string
  cw_mnemonic_word_count :: nat
  cw_mnemonic :: string
  cw_warning :: string

definition create_wallet ::
  "externals \<Rightarrow> wallet_env \<Rightarrow> (mnemonic_word_count \<Rightarrow> string result) \<Rightarrow> network \<Rightarrow> mnemonic_word_count
     \<Rightarrow> derivation_path \<Rightarrow> (wallet_store, wallet_error, created_wallet) mut" where
  "create_wallet X E generate_mnemonic n word_count path =
     mbind (mlift (\<lambda>_. map_err WalletCore (generate_mnemonic word_count))) (\<lambda>mnemonic.
     mbind (mlift (\<lambda>_. map_err WalletCore (derive_private_key_from_mnemonic X mnemonic [] path))) (\<lambda>key.
     mbind (write_wallet_with_metadata X E key n (mnemonic_metadata ''bip39-mnemonic'' path)) (\<lambda>wallet.
     mret \<lparr>cw_network_id = sw_network_id wallet, cw_network_name = sw_network_name wallet,
           cw_status_label = sw_status_label wallet, cw_address = sw_address wallet,
           cw_public_key_hex = sw_public_key_hex wallet, cw_derivation_path = path_display path,
           cw_wallet_seed_standard_id = WALLET_SEED_STANDARD_ID,
           cw_key_derivation_policy_id = KEY_DERIVATION_POLICY_ID,
           cw_mnemonic_word_count = word_count_as_usize word_count, cw_mnemonic = mnemonic,
           cw_warning = ''Back up this mnemonic now. It is shown once and is not stored in the repository or returned by later wallet commands.''\<rparr>)))"

definition import_mnemonic_wallet ::
  "externals \<Rightarrow> wallet_env \<Rightarrow> string \<Rightarrow> string \<Rightarrow> network \<Rightarrow> derivation_path
     \<Rightarrow> (wallet_store, wallet_error, stored_wallet) mut" where
  "import_mnemonic_wallet X E phrase passphrase n path =
     mbind (mlift (\<lambda>_. map_err WalletCore (derive_private_key_from_mnemonic X phrase passphrase path))) (\<lambda>key.
     write_wallet_with_metadata X E key n (mnemonic_metadata ''bip39-mnemonic-import'' path))"

definition wallet_address :: "string \<Rightarrow> wallet_store \<Rightarrow> string wallet_result" where
  "wallet_address path st = rbind (load_wallet path st) (\<lambda>wallet. Ok (sw_address wallet))"

record public_wallet_info =
  pi_network_id :: string
  pi_network_name :: string
  pi_status_label :: string
  pi_address :: string
  pi_public_key_hex :: string
  pi_address_standard_id :: string
  pi_signature_standard_id :: string
  pi_key_derivation_policy_id :: string
  pi_wallet_seed_standard_id :: string
  pi_key_origin :: string
  pi_derivation_path :: "string option"

definition export_public_info :: "string \<Rightarrow> wallet_store \<Rightarrow> public_wallet_info wallet_result" where
  "export_public_info path st =
     rbind (load_wallet path st) (\<lambda>wallet.
     rbind (wallet_network wallet) (\<lambda>n.
     Ok \<lparr>pi_network_id = sw_network_id wallet, pi_network_name = sw_network_name wallet,
         pi_status_label = sw_status_label wallet, pi_address = sw_address wallet,
         pi_public_key_hex = sw_public_key_hex wallet,
         pi_address_standard_id = as_standard_id (launch_address_standard n),
         pi_signature_standard_id = ss_standard_id launch_signing_standard,
         pi_key_derivation_policy_id = KEY_DERIVATION_POLICY_ID,
         pi_wallet_seed_standard_id = WALLET_SEED_STANDARD_ID,
         pi_key_origin = (case sw_key_origin wallet of Some v \<Rightarrow> v | None \<Rightarrow> ''legacy-raw-private-key''),
         pi_derivation_path = sw_derivation_path wallet\<rparr>))"

record wallet_status_report =
  st_mode :: string
  st_protocol_parameters_id :: string
  st_active_network_id :: string
  st_active_network_name :: string
  st_active_status_label :: string
  st_address_standard_id :: string
  st_address_prefix :: string
  st_signature_standard_id :: string
  st_tx_signing_domain :: string
  st_key_derivation_policy_id :: string
  st_wallet_seed_standard_id :: string
  st_wallet_dir :: string
  st_signed_tx_dir :: string
  st_wallet_present :: bool
  st_address :: "string option"
  st_key_origin :: "string option"
  st_derivation_path :: "string option"
  st_rpc_base_url :: string

definition wallet_status ::
  "network \<Rightarrow> string \<Rightarrow> string \<Rightarrow> string \<Rightarrow> string \<Rightarrow> wallet_store \<Rightarrow> wallet_status_report wallet_result" where
  "wallet_status selected path wallet_dir signed_tx_dir rpc_base_url st =
     rbind (if ws_wallet st \<noteq> None
            then rbind (load_wallet path st) (\<lambda>wallet.
                 rbind (wallet_network wallet) (\<lambda>n.
                 Ok (n, sw_network_name wallet, sw_status_label wallet, Some (sw_address wallet),
                     sw_key_origin wallet, sw_derivation_path wallet)))
            else Ok (selected, human_name selected, status_label selected, None, None, None))
       (\<lambda>(n, name, label, address, origin, derivation).
     Ok \<lparr>st_mode = label @ '' / Prototype'',
         st_protocol_parameters_id = pp_parameters_id (launch_protocol_parameters n),
         st_active_network_id = network_id n, st_active_network_name = name, st_active_status_label = label,
         st_address_standard_id = as_standard_id (launch_address_standard n),
         st_address_prefix = as_address_prefix (launch_address_standard n),
         st_signature_standard_id = ss_standard_id launch_signing_standard,
         st_tx_signing_domain = ss_tx_signing_domain launch_signing_standard,
         st_key_derivation_policy_id = KEY_DERIVATION_POLICY_ID,
         st_wallet_seed_standard_id = WALLET_SEED_STANDARD_ID,
         st_wallet_dir = wallet_dir, st_signed_tx_dir = signed_tx_dir,
         st_wallet_present = (ws_wallet st \<noteq> None), st_address = address, st_key_origin = origin,
         st_derivation_path = derivation, st_rpc_base_url = rpc_base_url\<rparr>)"

section \<open>Signing\<close>

text \<open>The clock readings of the appends are \<open>clk\<close>.\<close>

definition wallet_load_chain :: "externals \<Rightarrow> (nat \<Rightarrow> u64) \<Rightarrow> database \<Rightarrow> chain wallet_result" where
  "wallet_load_chain X clk db =
     rbind (map_err WalletNode (load_blocks X db)) (\<lambda>blocks.
     rbind (ok_or (first_block blocks) (WalletNode (ChainNotInitialized (db_path db)))) (\<lambda>b.
     rbind (map_err WalletCore (block_network b)) (\<lambda>n.
     case mfold (\<lambda>_ i. append_block X (fst i) (snd i)) () (clocked clk blocks) (chain_new n) of
       (r, c) \<Rightarrow> rbind (map_err WalletCore r) (\<lambda>_. Ok c))))"

definition scanned_nonce :: "block list \<Rightarrow> string \<Rightarrow> u64" where
  "scanned_nonce blocks address =
     (case map tx_nonce (filter (\<lambda>t. tx_from t = Some address) (concat (map b_transactions blocks))) of
        [] \<Rightarrow> FIRST_ACCOUNT_NONCE
      | n # ns \<Rightarrow> fold max ns n + 1)"

definition next_account_nonce ::
  "externals \<Rightarrow> (nat \<Rightarrow> u64) \<Rightarrow> block list \<Rightarrow> string \<Rightarrow> u64" where
  "next_account_nonce X clk blocks address =
     (case first_block blocks of
        None \<Rightarrow> scanned_nonce blocks address
      | Some b \<Rightarrow>
          (case block_network b of
             Inl _ \<Rightarrow> scanned_nonce blocks address
           | Inr n \<Rightarrow>
               (case chain_from_blocks X n (clocked clk blocks) of
                  Inl _ \<Rightarrow> scanned_nonce blocks address
                | Inr c \<Rightarrow> next_nonce_of (c_state c) address)))"

record signed_tx_file =
  sf_mode :: string
  sf_network_id :: string
  sf_network_name :: string
  sf_status_label :: string
  sf_warning :: string
  sf_tx_hash :: string
  sf_path :: string
  sf_transaction :: transaction

text \<open>\<open>clk\<close> and \<open>clk'\<close> are the readings of the two replays of the chain.\<close>

definition sign_tx ::
  "externals \<Rightarrow> wallet_env \<Rightarrow> (nat \<Rightarrow> u64) \<Rightarrow> (nat \<Rightarrow> u64) \<Rightarrow> string \<Rightarrow> string \<Rightarrow> database
     \<Rightarrow> string \<Rightarrow> string \<Rightarrow> string \<Rightarrow> (wallet_store, wallet_error, signed_tx_file) mut" where
  "sign_tx X E clk clk' path signed_tx_dir db to amount_text fee_text st =
     (case
        rbind (map_err WalletCore (address_parse X to)) (\<lambda>recipient.
        rbind (map_err WalletCore (parse_vire amount_text)) (\<lambda>amt.
        rbind (map_err WalletCore (parse_vire fee_text)) (\<lambda>fee.
        rbind (reject_if (amt = 0) (WalletInput ''transaction amount must be greater than zero'')) (\<lambda>_.
        rbind (load_wallet path st) (\<lambda>wallet.
        rbind (wallet_network wallet) (\<lambda>n.
        rbind (reject_if (addr_network recipient \<noteq> n)
                 (WalletCore (InvalidNetwork (network_id n) (network_id (addr_network recipient))))) (\<lambda>_.
        rbind (private_key_from_wallet E wallet) (\<lambda>key.
        rbind (wallet_load_chain X clk db) (\<lambda>c.
        rbind (reject_if (c_network c \<noteq> n)
                 (WalletInput (''wallet network '' @ network_id n @ '' does not match chain network ''
                    @ network_id (c_network c)))) (\<lambda>_.
        let base_fee = next_base_fee (last_block (c_blocks c)); balance = balance_of (c_state c) (sw_address wallet) in
        rbind (map_err WalletCore (rbind (amount_checked_add amt base_fee) (\<lambda>v. amount_checked_add v fee))) (\<lambda>required.
        rbind (reject_if (balance < required)
                 (WalletInput (''insufficient Mainnet Candidate balance: available '' @ show_word balance
                    @ '', required '' @ show_word required))) (\<lambda>_.
        let nonce = next_account_nonce X clk' (c_blocks c) (sw_address wallet) in
        rbind (map_err WalletCore (amount_checked_add base_fee fee)) (\<lambda>max_fee.
        rbind (map_err WalletCore (tx_new_signed X 1 nonce n key to amt max_fee fee None)) (\<lambda>tx.
        Ok (wallet, tx)))))))))))))))
      of
        Inl e \<Rightarrow> (Err e, st)
      | Inr (wallet, tx) \<Rightarrow>
          (let h = tx_hash_string X tx; file = signed_tx_dir @ ''/'' @ h @ ''.json'' in
           (Ok \<lparr>sf_mode = sw_status_label wallet @ '' / Prototype'', sf_network_id = sw_network_id wallet,
                sf_network_name = sw_network_name wallet, sf_status_label = sw_status_label wallet,
                sf_warning = ''Saved signed transaction for local prototype use only. Submit it through the matching local RPC endpoint.'',
                sf_tx_hash = h, sf_path = file, sf_transaction = tx\<rparr>,
            st\<lparr>ws_signed := map_insert file tx (ws_signed st)\<rparr>)))"

text \<open>A file that is missing is an I/O error; \<open>missing\<close> is its text.\<close>

definition verify_tx :: "externals \<Rightarrow> string \<Rightarrow> string \<Rightarrow> wallet_store \<Rightarrow> transaction wallet_result" where
  "verify_tx X missing file st =
     rbind (ok_or (map_of (ws_signed st) file) (WalletIo missing)) (\<lambda>tx.
     rbind (map_err WalletCore (tx_verify X tx)) (\<lambda>_. Ok tx))"

record submitted_tx_result =
  sb_network_id :: string
  sb_status :: string
  sb_tx_hash :: string
  sb_lifecycle_status :: string
  sb_mempool_size :: nat
  sb_source_path :: string

text \<open>\<open>rpc_submit\<close> is the client of the RPC endpoint.\<close>

definition submit_tx ::
  "externals \<Rightarrow> string \<Rightarrow> (transaction \<Rightarrow> submit_summary wallet_result) \<Rightarrow> string \<Rightarrow> wallet_store
     \<Rightarrow> submitted_tx_result wallet_result" where
  "submit_tx X missing rpc_submit file st =
     rbind (verify_tx X missing file st) (\<lambda>tx.
     rbind (map_err WalletCore (tx_network X tx)) (\<lambda>n.
     rbind (rpc_submit tx) (\<lambda>response.
     Ok \<lparr>sb_network_id = network_id n, sb_status = su_status response, sb_tx_hash = su_tx_hash response,
         sb_lifecycle_status = su_lifecycle_status response, sb_mempool_size = su_mempool_size response,
         sb_source_path = file\<rparr>)))"

text \<open>\<open>rpc_balance\<close> is the client too; the balance of a malformed address is never asked for.\<close>

definition wallet_balance ::
  "externals \<Rightarrow> (string \<Rightarrow> (string \<times> u64) wallet_result) \<Rightarrow> string \<Rightarrow> (string \<times> u64) wallet_result" where
  "wallet_balance X rpc_balance address =
     rbind (map_err WalletCore (address_parse X address)) (\<lambda>_. rpc_balance address)"

end
