(* ===== verification/Vireon_Signing.thy ===== *)
theory Vireon_Signing
  imports
    Vireon_Wallet
    Vireon_Activity
begin

text \<open>
  What the wallet guarantees: a key that was written is unlocked again and is encrypted on the
  mainnet candidate; the nonce of the wallet is the ledger's, whether the chain replays or the
  blocks are scanned; and a transaction that the wallet signs is admitted by the node whose chain
  it read.
\<close>

section \<open>The written key\<close>

lemma hex_char_ascii:
  assumes "v < (16::u8)"
  shows "char_code (hex_char v) < 128"
proof -
  have "list_all (\<lambda>v. char_code (hex_char v) < 128) [0,1,2,3,4,5,6,7,8,9,10,11,12,13,14,15]"
    by (simp add: hex_char_def)
  with nibble_cases [OF assms] show ?thesis unfolding list_all_iff by blast
qed

lemma hex_ascii: "c \<in> set (hex_of_bytes bs) \<Longrightarrow> char_code c < 128"
  by (induction bs) (auto simp: hex_char_ascii nibble_bounds)

lemma from_utf8_ascii:
  assumes "\<forall>c\<in>set s. char_code c < 128"
  shows "from_utf8 (str_bytes s) = Some s"
proof -
  have "unat (word_of_nat (char_code c) :: u8) = char_code c" if "char_code c < 128" for c
    using that by (simp add: unat_of_nat)
  then have "utf8_well_formed (str_bytes s)" "map (\<lambda>b. char_of (unat b)) (str_bytes s) = s"
    using assms by (induction s) (auto simp: str_bytes_def in_range_def)
  then show ?thesis by (simp add: from_utf8_def)
qed

lemma decrypt_encrypted:
  assumes "wallet_crypto_laws W" and "length nonce = 12" and "encrypt_secret W salt nonce pass text = Ok secret"
  shows "decrypt_secret W pass secret = Ok text"
  using assms by (auto simp: encrypt_secret_def decrypt_secret_def wallet_crypto_laws_def rbind_Ok)

lemma private_key_hex: "length (sk_bytes k) = 32 \<Longrightarrow> private_key_from_hex (private_key_to_hex k) = Ok k"
  using parse_hex_array_hex [of "sk_bytes k"] by (simp add: private_key_from_hex_def private_key_to_hex_def)

lemma stored_material_unlocks:
  assumes "wallet_crypto_laws (we_crypto E)" and "length (we_nonce E) = 12" and "length (sk_bytes key) = 32"
    and "stored_material E key n pass = Ok (schema, hex, secret, warning)"
    and "sw_encrypted w = secret" and "sw_private_key_hex w = hex" and "sw_network_id w = network_id n"
  shows "private_key_from_wallet_passphrase E w pass = Ok key"
proof (cases "requires_encryption n")
  case True
  with assms(4) obtain p es where p: "resolve_passphrase (we_passphrase E) pass = Ok p"
    "encrypt_secret (we_crypto E) (we_salt E) (we_nonce E) p (str_bytes (private_key_to_hex key)) = Ok es"
    "secret = Some es" by (auto simp: stored_material_def rbind_Ok)
  have "from_utf8 (str_bytes (private_key_to_hex key)) = Some (private_key_to_hex key)"
    using hex_ascii by (intro from_utf8_ascii) (auto simp: private_key_to_hex_def)
  then show ?thesis using p assms(5) decrypt_encrypted [OF assms(1,2) p(2)] private_key_hex [OF assms(3)]
    by (simp add: private_key_from_wallet_passphrase_def)
next
  case False
  then have "network_id n \<noteq> network_id MainnetCandidate" by (cases n) (simp_all add: requires_encryption_def)
  moreover have "private_key_to_hex key \<noteq> []"
    using assms(3) by (cases "sk_bytes key") (simp_all add: private_key_to_hex_def)
  moreover have "sw_encrypted w = None" "sw_private_key_hex w = Some (private_key_to_hex key)"
    using False assms(4-6) by (auto simp: stored_material_def)
  ultimately show ?thesis using assms(7) private_key_hex [OF assms(3)]
    by (simp add: private_key_from_wallet_passphrase_def)
qed

lemma write_wallet_Ok:
  assumes "write_wallet_with_metadata_passphrase X E key n meta pass st = (Ok w, st')"
  obtains schema hex secret warning where
    "stored_material E key n pass = Ok (schema, hex, secret, warning)" "st' = st\<lparr>ws_wallet := Some w\<rparr>"
    "sw_schema w = schema" "sw_encrypted w = secret" "sw_private_key_hex w = hex" "sw_network_id w = network_id n"
    "sw_address w = address_to_string X (address_from_public_key (private_key_public_key X key) n)"
  using assms by (auto simp: write_wallet_with_metadata_passphrase_def Let_def split: sum.splits prod.splits)

lemma load_stored: "ws_wallet st = Some w \<Longrightarrow> load_wallet path st = Ok w"
  by (simp add: load_wallet_def)

section \<open>The nonce\<close>

text \<open>
  How the nonce of an account moves over transactions: it never falls, and unless it has reached
  the largest value it is one more than the largest nonce that the account spent.
\<close>

definition nonce_span :: "string \<Rightarrow> transaction list \<Rightarrow> ledger_state \<Rightarrow> ledger_state \<Rightarrow> bool" where
  "nonce_span a ts s s' \<longleftrightarrow> next_nonce_of s a \<le> next_nonce_of s' a
     \<and> (next_nonce_of s' a \<noteq> - 1 \<longrightarrow>
          (\<forall>t\<in>set ts. tx_from t = Some a \<longrightarrow> tx_nonce t < next_nonce_of s' a)
        \<and> (next_nonce_of s' a = next_nonce_of s a \<and> (\<forall>t\<in>set ts. tx_from t \<noteq> Some a)
           \<or> (\<exists>t\<in>set ts. tx_from t = Some a \<and> next_nonce_of s' a = tx_nonce t + 1)))"

lemma nonce_span_append:
  assumes "nonce_span a ts s s1" and "nonce_span a us s1 s2"
  shows "nonce_span a (ts @ us) s s2"
proof -
  have "next_nonce_of s1 a \<noteq> - 1" if "next_nonce_of s2 a \<noteq> - 1"
  proof
    assume "next_nonce_of s1 a = - 1"
    then have "- 1 \<le> next_nonce_of s2 a" using assms(2) by (simp add: nonce_span_def)
    with that show False by (metis word_n1_ge order.antisym)
  qed
  with assms show ?thesis unfolding nonce_span_def
    by (auto dest: order_trans order_less_le_trans)
qed

lemma nonce_span_step:
  assumes "apply_transaction X t b s = (Ok fs, s')"
  shows "nonce_span a [t] s s'"
proof (cases "is_coinbase t")
  case True
  with assms obtain got where "s' = coinbase_state X t got s" by (auto simp: apply_coinbase_iff)
  moreover have "tx_from t = None" using True by (simp add: is_coinbase_def)
  ultimately show ?thesis by (simp add: nonce_span_def next_nonce_of_def coinbase_state_def)
next
  case False
  obtain sender where v: "tx_from t = Some sender" "tx_nonce t = next_nonce_of s sender"
    "next_nonce_of s' a = (if a = sender then saturating_add (tx_nonce t) 1 else next_nonce_of s a)"
    using applied_nonce [OF assms False] by blast
  have "saturating_add n 1 \<noteq> - 1 \<Longrightarrow> saturating_add n 1 = n + 1 \<and> n < saturating_add n 1" for n :: u64
    by (auto simp: saturating_add_def checked_add_def word_less_nat_alt unat_add_small split: if_splits)
  moreover have "n \<le> saturating_add n 1" for n :: u64
  proof (cases "unat n + 1 < 2 ^ 64")
    case True
    then show ?thesis by (simp add: saturating_add_def checked_add_def word_le_nat_alt unat_add_small)
  qed (simp add: saturating_add_def checked_add_def)
  ultimately show ?thesis using v by (auto simp: nonce_span_def)
qed

lemma nonce_span_spends: "apply_spends X b ts s = (Ok (), s') \<Longrightarrow> nonce_span a ts s s'"
proof (induction ts arbitrary: s)
  case (Cons t ts)
  then obtain fs s1 where "apply_transaction X t b s = (Ok fs, s1)" "apply_spends X b ts s1 = (Ok (), s')"
    by (auto simp: apply_spends_def mbind_Ok mret_Ok)
  with Cons.IH [of s1] nonce_span_append [OF nonce_span_step] show ?case by (metis append_Cons append_Nil)
qed (simp add: apply_spends_def mret_Ok nonce_span_def)

lemma nonce_span_set: "nonce_span a ts s s' \<Longrightarrow> set ts = set us \<Longrightarrow> nonce_span a us s s'"
  by (simp add: nonce_span_def)

lemma nonce_span_block:
  assumes "apply_block X blk s = (Ok sm, s')"
  shows "nonce_span a (b_transactions blk) s s'"
proof -
  obtain coinbase spends fs s1 s2 emitted where b: "b_transactions blk = coinbase # spends"
    "apply_spends X (bs_base_fee sm) spends s = (Ok (), s1)"
    "apply_transaction X coinbase (bs_base_fee sm) s1 = (Ok fs, s2)" "s' = record_block X blk sm emitted s2"
    using assms by (rule apply_block_OkE)
  have "nonce_span a (spends @ [coinbase]) s s2"
    by (rule nonce_span_append [OF nonce_span_spends [OF b(2)] nonce_span_step [OF b(3)]])
  moreover have "next_nonce_of s' = next_nonce_of s2" by (simp add: fun_eq_iff b(4) next_nonce_of_def record_block_def Let_def)
  ultimately show ?thesis unfolding nonce_span_def b(1) by simp
qed

lemma nonce_span_run:
  "run (ledger_step X) bs s = Some s' \<Longrightarrow> nonce_span a (concat (map b_transactions bs)) s s'"
proof (induction bs arbitrary: s)
  case (Cons b bs)
  then obtain sm s1 where s1: "apply_block X b s = (Ok sm, s1)" "run (ledger_step X) bs s1 = Some s'"
    by (cases "ledger_step X b s") (auto simp: ledger_step_Some)
  show ?case using nonce_span_append [OF nonce_span_block [OF s1(1)] Cons.IH [OF s1(2)]] by simp
qed (simp add: nonce_span_def)

lemma fold_max_bound:
  fixes n :: u64
  assumes "m \<in> set (n # ns)" and "\<forall>x\<in>set (n # ns). x \<le> m"
  shows "fold max ns n = m"
  using assms
proof (induction ns arbitrary: n)
  case (Cons k ns)
  then show ?case by (cases "n \<le> k") (auto simp: max_def)
qed simp

lemma scanned_nonce_exact:
  assumes "nonce_span a (concat (map b_transactions bs)) ledger_new s" and "next_nonce_of s a \<noteq> - 1"
  shows "scanned_nonce bs a = next_nonce_of s a"
proof -
  define ts where "ts = filter (\<lambda>t. tx_from t = Some a) (concat (map b_transactions bs))"
  have below: "tx_nonce t < next_nonce_of s a" if "t \<in> set ts" for t
    using assms that by (auto simp: nonce_span_def ts_def)
  consider "ts = []" "next_nonce_of s a = FIRST_ACCOUNT_NONCE"
    | t where "t \<in> set ts" "next_nonce_of s a = tx_nonce t + 1"
    using assms unfolding nonce_span_def ts_def by (fastforce simp: filter_empty_conv next_nonce_of_def ledger_new_def)
  then show ?thesis
  proof cases
    case 1
    then show ?thesis by (simp add: scanned_nonce_def ts_def [symmetric])
  next
    case 2
    have up: "tx_nonce t < tx_nonce t + 1" using below [OF 2(1)] 2(2) by simp
    have le: "\<forall>x\<in>set (map tx_nonce ts). x \<le> tx_nonce t"
    proof
      fix x assume "x \<in> set (map tx_nonce ts)"
      then have "x < tx_nonce t + 1" using below 2(2) by auto
      moreover have "unat (tx_nonce t + 1) \<le> unat (tx_nonce t) + 1" by (simp add: unat_word_ariths(1))
      ultimately show "x \<le> tx_nonce t" by (simp add: word_le_nat_alt word_less_nat_alt)
    qed
    obtain n ns where l: "map tx_nonce ts = n # ns" using 2(1) by (cases ts) auto
    have "fold max ns n = tx_nonce t"
      using le 2(1) unfolding l by (intro fold_max_bound) (auto simp: l [symmetric])
    then show ?thesis using 2(2) by (simp add: scanned_nonce_def ts_def [symmetric] l)
  qed
qed

section \<open>The chain the wallet reads\<close>

lemma wallet_load_chain_Ok: "wallet_load_chain X clk db = Ok c \<longleftrightarrow> load_chain_only X clk db = Ok c"
  by (auto simp: wallet_load_chain_def load_chain_only_def chain_from_blocks_def rbind_Ok split: prod.splits)

text \<open>Two readings of one database agree, whatever the clocks were.\<close>

lemma load_chain_unique:
  assumes "load_chain_only X clk db = Ok c" and "load_chain_only X clk' db = Ok c'"
  shows "c' = c"
proof -
  note a = load_chain_only_Ok [OF assms(1)] and b = load_chain_only_Ok [OF assms(2)]
  have bs: "c_blocks c' = c_blocks c" using a(2) b(2) by simp
  have "c_network c' = c_network c"
    using assms by (auto simp: load_chain_only_def rbind_Ok dest!: chain_from_clocked(3))
  moreover have "c_state c' = c_state c" using a(1) b(1) bs by (simp add: chain_ok_def)
  ultimately show ?thesis using bs by simp
qed

lemma chain_applied_hashes:
  "run (ledger_step X) bs s = Some s' \<Longrightarrow>
     ls_applied_hashes s' = ls_applied_hashes s \<union> set (concat (map (block_hashes X) bs))"
proof (induction bs arbitrary: s)
  case (Cons b bs)
  then obtain sm s1 where s1: "apply_block X b s = (Ok sm, s1)" "run (ledger_step X) bs s1 = Some s'"
    by (cases "ledger_step X b s") (auto simp: ledger_step_Some)
  from Cons.IH [OF s1(2)] block_hashes_distinct(3) [OF s1(1)] show ?case by auto
qed simp

lemma applied_are_mined:
  assumes "chain_ok X c"
  shows "ls_applied_hashes (c_state c) = mined_transaction_hashes X c"
  using chain_applied_hashes [of X "c_blocks c" ledger_new "c_state c"] assms
  by (auto simp: chain_ok_def ledger_new_def mined_transaction_hashes_def block_hashes_def tx_hash_string_def)

lemma next_account_nonce_ledger:
  assumes "load_chain_only X clk db = Ok c" and "next_nonce_of (c_state c) a \<noteq> - 1"
  shows "next_account_nonce X clk' (c_blocks c) a = next_nonce_of (c_state c) a"
proof -
  note l = load_chain_only_Ok [OF assms(1)]
  have span: "nonce_span a (concat (map b_transactions (c_blocks c))) ledger_new (c_state c)"
    using l(1) by (intro nonce_span_run [of X]) (simp add: chain_ok_def)
  obtain b n where b: "first_block (c_blocks c) = Some b" "block_network b = Ok n"
    using assms(1) l(2) by (auto simp: load_chain_only_def rbind_Ok)
  show ?thesis
  proof (cases "chain_from_blocks X n (clocked clk' (c_blocks c))")
    case (Inl e)
    then show ?thesis using b scanned_nonce_exact [OF span assms(2)] by (simp add: next_account_nonce_def)
  next
    case (Inr c')
    then have "load_chain_only X clk' db = Ok c'" using b l(2) by (simp add: load_chain_only_def)
    then show ?thesis using b Inr load_chain_unique [OF assms(1)] by (simp add: next_account_nonce_def)
  qed
qed

section \<open>The signed transaction\<close>

lemma tx_new_signed_fields:
  assumes "tx_new_signed X v nonce n key to amt max_fee prio memo = Ok tx"
  shows "tx_from tx = Some (address_to_string X (address_from_public_key (private_key_public_key X key) n))"
    and "tx_to tx = to" and "tx_nonce tx = nonce" and "tx_amount tx = amt" and "tx_max_fee tx = max_fee"
    and "tx_priority_fee tx = prio" and "\<not> is_coinbase tx"
  using assms
  by (auto simp: tx_new_signed_def tx_new_def tx_sign_def Let_def rbind_Ok is_coinbase_def
      split: prod.splits sum.splits if_splits)

lemma sign_tx_Ok:
  assumes "sign_tx X E clk clk' path dir db to amount_text fee_text st = (Ok file, st')"
  obtains recipient amt fee wallet n key c required max_fee where
    "address_parse X to = Ok recipient" "amt \<noteq> 0" "load_wallet path st = Ok wallet" "wallet_network wallet = Ok n"
    "addr_network recipient = n" "private_key_from_wallet E wallet = Ok key" "wallet_load_chain X clk db = Ok c"
    "c_network c = n"
    "rbind (amount_checked_add amt (next_base_fee (last_block (c_blocks c)))) (\<lambda>v. amount_checked_add v fee) = Ok required"
    "required \<le> balance_of (c_state c) (sw_address wallet)"
    "amount_checked_add (next_base_fee (last_block (c_blocks c))) fee = Ok max_fee"
    "tx_new_signed X 1 (next_account_nonce X clk' (c_blocks c) (sw_address wallet)) n key to amt max_fee fee None
       = Ok (sf_transaction file)"
    "sf_path file = dir @ ''/'' @ tx_hash_string X (sf_transaction file) @ ''.json''"
    "st' = st\<lparr>ws_signed := map_insert (sf_path file) (sf_transaction file) (ws_signed st)\<rparr>"
  using assms unfolding sign_tx_def Let_def
  by (auto simp: rbind_Ok not_less split: sum.splits prod.splits)

lemma pool_empty_submits:
  assumes "load_chain_only X clk (nd_db st) = Ok c" and "nd_pending st = []" and "0 < limit"
    and "tx_hash_string X tx \<notin> mined_transaction_hashes X c" and "tx_network X tx = Ok (c_network c)"
    and "validate_pending_transaction X (c_state c) tx (next_base_fee (last_block (c_blocks c))) = Ok ()"
  shows "\<exists>summary. submit_transaction X clk t limit tx st = (Ok summary, st\<lparr>nd_pending :=
      [\<lparr>pr_tx_hash = tx_hash_string X tx, pr_received_at = t 3, pr_transaction = tx\<rparr>]\<rparr>)
    \<and> su_tx_hash summary = tx_hash_string X tx \<and> su_mempool_size summary = 1"
proof -
  have "pool_inv (c_state c)" by (rule chain_ok_pool_inv [OF load_chain_only_Ok(1) [OF assms(1)]])
  then obtain fs s' where ap: "apply_transaction X tx (next_base_fee (last_block (c_blocks c))) (c_state c) = (Ok fs, s')"
    using validated_applies assms(6) unfolding validate_pending_Ok by blast
  have "sanitize_pending_transactions X (t 0) c [] = Ok ([], [], c_state c)"
    by (simp add: sanitize_pending_transactions_def sanitize_pending_transactions_with_age_def
        filter_pending_candidates_def sort_pending_for_admission_def mret_def)
  moreover have "enforce_sender_cap X (t 1) c (tx_from tx) ([], c_state c) = Ok ([], c_state c)"
    by (simp add: enforce_sender_cap_def sender_indices_def MAX_PENDING_TXS_PER_SENDER_def split: option.split)
  moreover have "make_room X (t 2) c limit tx ([], c_state c) = Ok ([], c_state c)" using assms(3) by (simp add: make_room_def)
  ultimately show ?thesis using assms ap by (simp add: submit_transaction_def Let_def)
qed

lemma signed_debit:
  assumes "\<not> is_coinbase tx" and "tx_amount tx = amt" and "tx_max_fee tx = max_fee" and "tx_priority_fee tx = fee"
    and "amount_checked_add b fee = Ok max_fee"
    and "rbind (amount_checked_add amt b) (\<lambda>v. amount_checked_add v fee) = Ok required"
  shows "total_debit tx b = Ok required" and "b \<le> max_fee"
proof -
  have m: "unat max_fee = unat b + unat fee" using assms(5) by (simp add: amount_add_Ok)
  show le: "b \<le> max_fee" using m by (simp add: word_le_nat_alt)
  have r: "unat required = unat amt + unat b + unat fee" using assms(6) by (auto simp: rbind_Ok amount_add_Ok)
  have "max_fee - b = fee" using m le by (simp add: word_unat_eq_iff unat_sub_if_size word_le_nat_alt)
  then have "effective_fee tx b = Ok max_fee"
    using assms(1,3,4,5) m le by (simp add: effective_fee_def effective_priority_fee_def amount_sub_exact word_le_nat_alt)
  then show "total_debit tx b = Ok required"
    using m r assms(2) by (simp add: total_debit_def amount_add_Ok)
qed

lemma unlock_randomness:
  "private_key_from_wallet_passphrase (E\<lparr>we_salt := salt, we_nonce := nonce\<rparr>) w pass
     = private_key_from_wallet_passphrase E w pass"
  by (cases "resolve_passphrase (we_passphrase E) pass")
     (simp_all add: private_key_from_wallet_passphrase_def split: option.split)

lemma written_material:
  assumes "write_wallet_with_metadata_passphrase X E key n meta pass st = (Ok w, st')"
  shows "is_encrypted w = (n = MainnetCandidate)" and "(sw_private_key_hex w = None) = (n = MainnetCandidate)"
proof -
  obtain schema hex secret warning where m: "stored_material E key n pass = Ok (schema, hex, secret, warning)"
    "sw_schema w = schema" "sw_encrypted w = secret" "sw_private_key_hex w = hex"
    using assms by (rule write_wallet_Ok) metis
  have ne: "SCHEMA_PLAINTEXT_LEGACY \<noteq> SCHEMA_ENCRYPTED_V1" by code_simp
  have "is_encrypted w = (n = MainnetCandidate) \<and> (sw_private_key_hex w = None) = (n = MainnetCandidate)"
  proof (cases "requires_encryption n")
    case True
    with m show ?thesis by (auto simp: stored_material_def rbind_Ok is_encrypted_def requires_encryption_def)
  next
    case False
    then have "schema = SCHEMA_PLAINTEXT_LEGACY" "secret = None" "hex \<noteq> None" using m(1) by (auto simp: stored_material_def)
    with False m ne show ?thesis by (simp add: is_encrypted_def requires_encryption_def)
  qed
  then show "is_encrypted w = (n = MainnetCandidate)" "(sw_private_key_hex w = None) = (n = MainnetCandidate)" by simp_all
qed

lemma written_unlocks:
  assumes "wallet_crypto_laws (we_crypto E)" and "length (we_nonce E) = 12" and "length (sk_bytes key) = 32"
    and "write_wallet_with_metadata_passphrase X E key n meta pass st = (Ok w, st')"
  shows "private_key_from_wallet_passphrase E w pass = Ok key"
    and "load_wallet path st' = Ok w" and "wallet_network w = Ok n"
    and "sw_address w = address_to_string X (address_from_public_key (private_key_public_key X key) n)"
proof -
  obtain schema hex secret warning where m: "stored_material E key n pass = Ok (schema, hex, secret, warning)"
    "st' = st\<lparr>ws_wallet := Some w\<rparr>" "sw_encrypted w = secret" "sw_private_key_hex w = hex" "sw_network_id w = network_id n"
    "sw_address w = address_to_string X (address_from_public_key (private_key_public_key X key) n)"
    using assms(4) by (rule write_wallet_Ok) metis
  show "private_key_from_wallet_passphrase E w pass = Ok key"
    by (rule stored_material_unlocks [OF assms(1-3) m(1,3-5)])
  show "load_wallet path st' = Ok w" by (simp add: load_wallet_def m(2))
  have "network_from_str (network_id n) = Ok n" by (cases n) (simp_all add: network_from_str_def)
  then show "wallet_network w = Ok n" by (simp add: wallet_network_def m(5))
  show "sw_address w = address_to_string X (address_from_public_key (private_key_public_key X key) n)" by (rule m(6))
qed

text \<open>What a wallet that was written signs.\<close>

lemma written_signs:
  assumes "wallet_crypto_laws (we_crypto E)" and "length (we_nonce E) = 12" and "length (sk_bytes key) = 32"
    and "write_wallet_with_metadata X E key n meta st0 = (Ok w, st)"
    and "sign_tx X E clk clk' path dir db to amount_text fee_text st = (Ok file, st')"
  obtains amt fee c required max_fee where
    "load_chain_only X clk db = Ok c" "c_network c = n" "tx_from (sf_transaction file) = Some (sw_address w)"
    "rbind (amount_checked_add amt (next_base_fee (last_block (c_blocks c)))) (\<lambda>v. amount_checked_add v fee) = Ok required"
    "required \<le> balance_of (c_state c) (sw_address w)" "amt \<noteq> 0"
    "amount_checked_add (next_base_fee (last_block (c_blocks c))) fee = Ok max_fee"
    "tx_new_signed X 1 (next_account_nonce X clk' (c_blocks c) (sw_address w)) n key to amt max_fee fee None
       = Ok (sf_transaction file)"
    "st' = st\<lparr>ws_signed := map_insert (sf_path file) (sf_transaction file) (ws_signed st)\<rparr>"
    "\<exists>recipient. address_parse X to = Ok recipient \<and> addr_network recipient = n"
proof -
  note w = written_unlocks [OF assms(1-3) assms(4) [unfolded write_wallet_with_metadata_def]]
  obtain recipient amt fee wallet m key' c required max_fee where g:
    "address_parse X to = Ok recipient" "amt \<noteq> 0" "load_wallet path st = Ok wallet" "wallet_network wallet = Ok m"
    "addr_network recipient = m" "private_key_from_wallet E wallet = Ok key'" "wallet_load_chain X clk db = Ok c"
    "c_network c = m"
    "rbind (amount_checked_add amt (next_base_fee (last_block (c_blocks c)))) (\<lambda>v. amount_checked_add v fee) = Ok required"
    "required \<le> balance_of (c_state c) (sw_address wallet)"
    "amount_checked_add (next_base_fee (last_block (c_blocks c))) fee = Ok max_fee"
    "tx_new_signed X 1 (next_account_nonce X clk' (c_blocks c) (sw_address wallet)) m key' to amt max_fee fee None
       = Ok (sf_transaction file)"
    "st' = st\<lparr>ws_signed := map_insert (sf_path file) (sf_transaction file) (ws_signed st)\<rparr>"
    using assms(5) by (rule sign_tx_Ok) metis
  have e: "wallet = w" "m = n" "key' = key"
    using g(3,4,6) w(2,3) w(1) by (simp_all add: private_key_from_wallet_def)
  have "tx_from (sf_transaction file) = Some (sw_address w)" using tx_new_signed_fields(1) [OF g(12)] w(4) e by simp
  with g show thesis unfolding e wallet_load_chain_Ok by (intro that) auto
qed

section \<open>A sample wallet\<close>

definition sample_wallet_crypto :: wallet_crypto where
  "sample_wallet_crypto =
     \<lparr>wc_derive = (\<lambda>p s. Ok p), wc_encrypt = (\<lambda>k n t. Some (rev t)), wc_decrypt = (\<lambda>k n c. Some (rev c)),
      wc_b64_encode = map (\<lambda>b. char_of (unat b)), wc_b64_decode = (\<lambda>s. Ok (str_bytes s))\<rparr>"

definition sample_wallet_env :: wallet_env where
  "sample_wallet_env =
     \<lparr>we_crypto = sample_wallet_crypto, we_passphrase = Some ''pass'', we_salt = replicate 16 0, we_nonce = replicate 12 0\<rparr>"

definition sample_wallet_store :: wallet_store where
  "sample_wallet_store = \<lparr>ws_wallet = None, ws_signed = []\<rparr>"

lemma sample_wallet_laws: "wallet_crypto_laws (we_crypto sample_wallet_env)"
proof -
  have "str_bytes (map (\<lambda>b. char_of (unat b)) bs) = bs" for bs
  proof (induction bs)
    case (Cons b bs)
    have "unat b < 256" using unsigned_less [of b] by simp
    with Cons show ?case by (simp add: str_bytes_def)
  qed (simp add: str_bytes_def)
  then show ?thesis by (simp add: wallet_crypto_laws_def sample_wallet_env_def sample_wallet_crypto_def)
qed

lemma sample_wallet_sizes: "length (we_nonce sample_wallet_env) = 12" "length (sk_bytes sample_key) = 32"
  by (simp_all add: sample_wallet_env_def sample_key_def)

lemma sample_wallet_writes:
  "\<exists>w. write_wallet_with_metadata sample_externals sample_wallet_env sample_key n meta sample_wallet_store
     = (Ok w, sample_wallet_store\<lparr>ws_wallet := Some w\<rparr>) \<and> sw_status_label w = status_label n"
proof -
  have "trim ''pass'' \<noteq> []" by code_simp
  then have "\<exists>m. stored_material sample_wallet_env sample_key n None = Ok m"
    by (simp add: stored_material_def resolve_passphrase_def encrypt_secret_def derive_key_def
        sample_wallet_env_def sample_wallet_crypto_def)
  then show ?thesis
    by (auto simp: write_wallet_with_metadata_def write_wallet_with_metadata_passphrase_def Let_def)
qed

lemma sample_wallet_signs:
  assumes "write_wallet_with_metadata sample_externals sample_wallet_env sample_key Devnet meta sample_wallet_store = (Ok w, st)"
  shows "\<exists>file st'. sign_tx sample_externals sample_wallet_env (\<lambda>_. 0) (\<lambda>_. 0) path dir sample_db (sample_address 2)
      ''0.00000005'' ''0.00000019'' st = (Ok file, st') \<and> sf_transaction file = sample_spend 1 5 19"
proof -
  note w = written_unlocks [OF sample_wallet_laws sample_wallet_sizes assms [unfolded write_wallet_with_metadata_def]]
  have adr: "sw_address w = sample_address 1" using w(4) by (simp add: sample_public_key sample_address_def)
  have fee: "next_base_fee (last_block (c_blocks sample_chain)) = 1"
  proof -
    have "next_base_fee (Some sample_genesis) = 1" by (rule sample_base_fee)
    then show ?thesis by (simp add: sample_chain_def last_block_def)
  qed
  have p: "parse_vire ''0.00000005'' = Ok 5" "parse_vire ''0.00000019'' = Ok 19" by code_simp+
  have n: "next_account_nonce sample_externals (\<lambda>_. 0) (c_blocks sample_chain) (sample_address 1) = 1"
    using next_account_nonce_ledger [OF sample_load_chain, of "sample_address 1"]
    by (simp add: sample_chain_def sample_ledger_view)
  have t: "tx_new_signed sample_externals 1 1 Devnet sample_key (sample_address 2) 5 20 19 None = Ok (sample_spend 1 5 19)"
    using sample_signed_eq [of 5 19 1] by (simp add: sample_signed_def)
  have "wallet_load_chain sample_externals (\<lambda>_. 0) sample_db = Ok sample_chain"
    by (simp add: wallet_load_chain_Ok sample_load_chain)
  moreover have "c_network sample_chain = Devnet" "balance_of (c_state sample_chain) (sample_address 1) = 1902587519"
    by (simp_all add: sample_chain_def sample_ledger_view)
  moreover have "addr_network (address_from_public_key k Devnet) = Devnet" for k by (simp add: address_from_public_key_def)
  moreover have "amount_checked_add 5 1 = Ok 6" "amount_checked_add 6 19 = Ok 25" "amount_checked_add 1 19 = Ok 20"
    by (simp_all add: amount_checked_add_def checked_add_def)
  moreover have "\<not> (1902587519 :: u64) < 25" by simp
  ultimately show ?thesis using w(1,2,3) p n t fee
    by (simp add: sign_tx_def sample_address_parse private_key_from_wallet_def adr Let_def)
qed

lemma sample_wallet_unmined:
  "tx_hash_string sample_externals (sample_spend 1 5 19) \<notin> mined_transaction_hashes sample_externals sample_chain"
  using sample_hashes_differ [of 0 1 1902587519 1 5 19]
  by (auto simp: mined_transaction_hashes_def tx_hash_string_def sample_chain_def sample_genesis_def)

lemma sample_wallet_submits:
  "\<exists>summary node'. submit_transaction sample_externals (\<lambda>_. 0) (\<lambda>_. 0) 1 (sample_spend 1 5 19) sample_node = (Ok summary, node')"
proof -
  have fee: "next_base_fee (Some sample_genesis) = 1" by (rule sample_base_fee)
  have "validate_pending_transaction sample_externals (c_state sample_chain) (sample_spend 1 5 19)
      (next_base_fee (last_block (c_blocks sample_chain))) = Ok ()"
    using sample_spend_validates [of 19]
    by (simp add: validate_pending_Ok sample_address_parse is_ok_iff sample_chain_def last_block_def fee)
  with pool_empty_submits [of sample_externals "\<lambda>_. 0" sample_node sample_chain 1 "sample_spend 1 5 19"] sample_wallet_unmined
  show ?thesis by (fastforce simp: sample_node_def sample_load_chain sample_spend_network sample_chain_def)
qed

section \<open>Properties\<close>

text \<open>
  C21: A wallet that was written is read back and unlocked with the same passphrase to the key that
  was written, on the network it was written for. On the mainnet candidate, and only there, the key
  is encrypted, and the file then has no plain key.
\<close>

theorem wallet_key_roundtrip:
  assumes "wallet_crypto_laws (we_crypto E)" and "length (we_nonce E) = 12" and "length (sk_bytes key) = 32"
    and "write_wallet_with_metadata_passphrase X E key n meta pass st = (Ok w, st')"
  shows "load_wallet path st' = Ok w \<and> wallet_network w = Ok n
    \<and> private_key_from_wallet_passphrase (E\<lparr>we_salt := salt, we_nonce := nonce\<rparr>) w pass = Ok key
    \<and> is_encrypted w = (n = MainnetCandidate) \<and> (sw_private_key_hex w = None) = (n = MainnetCandidate)"
  using written_unlocks [OF assms] written_material [OF assms(4)] by (simp add: unlock_randomness)

theorem wallet_key_roundtrip_witness:
  "\<exists>w st. write_wallet_with_metadata_passphrase sample_externals sample_wallet_env sample_key MainnetCandidate
       (raw_key_metadata ''raw-private-key'') None sample_wallet_store = (Ok w, st)
     \<and> private_key_from_wallet_passphrase (sample_wallet_env\<lparr>we_salt := [], we_nonce := []\<rparr>) w None = Ok sample_key
     \<and> sw_private_key_hex w = None"
proof -
  obtain w st where w: "write_wallet_with_metadata_passphrase sample_externals sample_wallet_env sample_key
      MainnetCandidate (raw_key_metadata ''raw-private-key'') None sample_wallet_store = (Ok w, st)"
    using sample_wallet_writes unfolding write_wallet_with_metadata_def by blast
  from wallet_key_roundtrip [OF sample_wallet_laws sample_wallet_sizes w] w show ?thesis by blast
qed

text \<open>
  The nonce that the wallet signs with is the next nonce of the account in the ledger of the
  stored chain. This holds on both paths of the code: when the chain is replayed, and when the
  replay is refused and the blocks are scanned for the largest nonce of the account.
\<close>

theorem wallet_nonce_exact:
  assumes "wallet_load_chain X clk db = Ok c" and "next_nonce_of (c_state c) a \<noteq> - 1"
  shows "next_account_nonce X clk' (c_blocks c) a = next_nonce_of (c_state c) a
    \<and> scanned_nonce (c_blocks c) a = next_nonce_of (c_state c) a"
proof -
  have l: "load_chain_only X clk db = Ok c" using assms(1) by (simp add: wallet_load_chain_Ok)
  have "nonce_span a (concat (map b_transactions (c_blocks c))) ledger_new (c_state c)"
    using load_chain_only_Ok(1) [OF l] by (intro nonce_span_run [of X]) (simp add: chain_ok_def)
  with l assms(2) show ?thesis by (simp add: next_account_nonce_ledger scanned_nonce_exact)
qed

theorem wallet_nonce_exact_witness:
  "next_account_nonce sample_externals (\<lambda>_. 0) [sample_genesis] (sample_address 1) = 1
   \<and> scanned_nonce [sample_genesis] (sample_address 1) = 1"
proof -
  have "wallet_load_chain sample_externals (\<lambda>_. 0) sample_db = Ok sample_chain"
    by (simp add: wallet_load_chain_Ok sample_load_chain)
  from wallet_nonce_exact [OF this, of "sample_address 1"] show ?thesis
    by (simp add: sample_chain_def sample_ledger_view)
qed

text \<open>
  C8: A transaction that the wallet signs against a stored chain verifies when it is read back from
  its file, and the node that has this chain and an empty pool admits it, unless a transaction with
  its hash was mined.
\<close>

theorem signed_transaction_admitted:
  assumes "bech32_laws X" and "ed25519_laws X"
    and "wallet_crypto_laws (we_crypto E)" and "length (we_nonce E) = 12" and "length (sk_bytes key) = 32"
    and "write_wallet_with_metadata X E key n meta st0 = (Ok w, st)"
    and "sign_tx X E clk clk' path dir (nd_db node) to amount_text fee_text st = (Ok file, st')"
    and "load_chain_only X clk'' (nd_db node) = Ok c" and "next_nonce_of (c_state c) (sw_address w) \<noteq> - 1"
    and "tx_hash_string X (sf_transaction file) \<notin> mined_transaction_hashes X c"
    and "nd_pending node = []" and "0 < limit"
  shows "verify_tx X missing (sf_path file) st' = Ok (sf_transaction file)
    \<and> tx_from (sf_transaction file) = Some (sw_address w) \<and> tx_to (sf_transaction file) = to
    \<and> (\<exists>summary. submit_transaction X clk'' t limit (sf_transaction file) node = (Ok summary, node\<lparr>nd_pending :=
          [\<lparr>pr_tx_hash = tx_hash_string X (sf_transaction file), pr_received_at = t 3, pr_transaction = sf_transaction file\<rparr>]\<rparr>))"
proof -
  let ?tx = "sf_transaction file"
  obtain amt fee required max_fee where g: "c_network c = n" "tx_from ?tx = Some (sw_address w)"
    "rbind (amount_checked_add amt (next_base_fee (last_block (c_blocks c)))) (\<lambda>v. amount_checked_add v fee) = Ok required"
    "required \<le> balance_of (c_state c) (sw_address w)" "amt \<noteq> 0"
    "amount_checked_add (next_base_fee (last_block (c_blocks c))) fee = Ok max_fee"
    "tx_new_signed X 1 (next_account_nonce X clk' (c_blocks c) (sw_address w)) n key to amt max_fee fee None = Ok ?tx"
    "st' = st\<lparr>ws_signed := map_insert (sf_path file) ?tx (ws_signed st)\<rparr>"
    "\<exists>recipient. address_parse X to = Ok recipient \<and> addr_network recipient = n"
    using written_signs [OF assms(3-7)] load_chain_unique [OF assms(8)] by metis
  note f = tx_new_signed_fields [OF g(7)]
  have v: "tx_verify X ?tx = Ok ()" by (rule tx_new_signed_verify [OF assms(1,2) g(7)])
  note d = signed_debit [OF f(7,4,5,6) g(6,3)]
  have nonce: "tx_nonce ?tx = next_nonce_of (c_state c) (sw_address w)"
    using f(3) next_account_nonce_ledger [OF assms(8,9)] by simp
  have "validate_transaction_against_state X (c_state c) ?tx (next_base_fee (last_block (c_blocks c))) = Ok ()"
    unfolding validate_spend_Ok [OF f(7)] using g(2,4,5) f(4,5) v d nonce assms(10)
      applied_are_mined [OF load_chain_only_Ok(1) [OF assms(8)]] by (simp add: tx_hash_string_def)
  then have "validate_pending_transaction X (c_state c) ?tx (next_base_fee (last_block (c_blocks c))) = Ok ()"
    using f(2,7) g(9) by (auto simp: validate_pending_Ok is_ok_iff)
  moreover have "tx_network X ?tx = Ok (c_network c)"
    using tx_network_Ok_of_verify [OF v f(7)] g(1,9) f(2) by (auto simp: tx_network_def rbind_Ok)
  ultimately have "\<exists>summary. submit_transaction X clk'' t limit ?tx node = (Ok summary, node\<lparr>nd_pending :=
      [\<lparr>pr_tx_hash = tx_hash_string X ?tx, pr_received_at = t 3, pr_transaction = ?tx\<rparr>]\<rparr>)"
    using pool_empty_submits [OF assms(8,11,12,10)] by blast
  then show ?thesis using g(2,8) f(2) v by (simp add: verify_tx_def)
qed

theorem signed_transaction_admitted_witness:
  "\<exists>w st out st' summary node'.
     write_wallet_with_metadata sample_externals sample_wallet_env sample_key Devnet (raw_key_metadata ''raw-private-key'')
       sample_wallet_store = (Ok w, st)
   \<and> sign_tx sample_externals sample_wallet_env (\<lambda>_. 0) (\<lambda>_. 0) ''wallet'' ''signed'' (nd_db sample_node) (sample_address 2)
       ''0.00000005'' ''0.00000019'' st = (Ok out, st')
   \<and> submit_transaction sample_externals (\<lambda>_. 0) (\<lambda>_. 0) 1 (sf_transaction out) sample_node = (Ok summary, node')"
proof -
  obtain w st where w: "write_wallet_with_metadata sample_externals sample_wallet_env sample_key Devnet
      (raw_key_metadata ''raw-private-key'') sample_wallet_store = (Ok w, st)" using sample_wallet_writes by blast
  have db: "nd_db sample_node = sample_db" "nd_pending sample_node = []" by (simp_all add: sample_node_def)
  obtain out st' where f: "sign_tx sample_externals sample_wallet_env (\<lambda>_. 0) (\<lambda>_. 0) ''wallet'' ''signed'' (nd_db sample_node)
      (sample_address 2) ''0.00000005'' ''0.00000019'' st = (Ok out, st')" "sf_transaction out = sample_spend 1 5 19"
    using sample_wallet_signs [OF w] unfolding db by blast
  have adr: "sw_address w = sample_address 1"
    using written_unlocks(4) [OF sample_wallet_laws sample_wallet_sizes w [unfolded write_wallet_with_metadata_def]]
    by (simp add: sample_public_key sample_address_def)
  have "next_nonce_of (c_state sample_chain) (sw_address w) \<noteq> - 1" by (simp add: adr sample_chain_def sample_ledger_view)
  moreover have "tx_hash_string sample_externals (sf_transaction out) \<notin> mined_transaction_hashes sample_externals sample_chain"
    unfolding f(2) by (rule sample_wallet_unmined)
  ultimately show ?thesis
    using signed_transaction_admitted [OF sample_bech32_laws sample_ed25519_laws sample_wallet_laws sample_wallet_sizes w f(1),
        of "\<lambda>_. 0" sample_chain 1 _ "\<lambda>_. 0"] w f(1) by (simp add: db sample_load_chain) blast
qed

text \<open>
  C40: A transaction of the wallet never queues behind another one of its sender: when the node
  admits it, it is the sender's only transaction in the pool. The wallet takes the nonce from the
  chain alone, so while an earlier payment is pending a further one is refused or takes its place.
\<close>

theorem wallet_tx_not_queued:
  assumes "wallet_crypto_laws (we_crypto E)" and "length (we_nonce E) = 12" and "length (sk_bytes key) = 32"
    and "write_wallet_with_metadata X E key n meta st0 = (Ok w, st)"
    and "sign_tx X E clk clk' path dir (nd_db node) to amount_text fee_text st = (Ok file, st')"
    and "load_chain_only X clk'' (nd_db node) = Ok c" and "unat (next_nonce_of (c_state c) (sw_address w)) + 32 < 2 ^ 64"
    and "submit_transaction X clk'' t limit (sf_transaction file) node = (Ok summary, node')"
  shows "length (records_of (sw_address w) (nd_pending node')) = 1"
proof -
  have n: "next_nonce_of (c_state c) (sw_address w) \<noteq> - 1"
  proof
    assume "next_nonce_of (c_state c) (sw_address w) = - 1"
    with assms(7) show False by (simp add: unsigned_minus_1_eq_mask mask_eq_exp_minus_1)
  qed
  obtain amt fee max_fee where g: "tx_from (sf_transaction file) = Some (sw_address w)"
    "tx_new_signed X 1 (next_account_nonce X clk' (c_blocks c) (sw_address w)) n key to amt max_fee fee None
       = Ok (sf_transaction file)"
    using written_signs [OF assms(1-5)] load_chain_unique [OF assms(6)] by metis
  have "tx_nonce (sf_transaction file) = next_nonce_of (c_state c) (sw_address w)"
    using tx_new_signed_fields(3) [OF g(2)] next_account_nonce_ledger [OF assms(6) n] by simp
  with admitted_nonce [OF assms(8) g(1) assms(6,7)] show ?thesis by simp
qed

theorem wallet_tx_not_queued_witness:
  "\<exists>summary node'. submit_transaction sample_externals (\<lambda>_. 0) (\<lambda>_. 0) 1 (sample_spend 1 5 19) sample_node = (Ok summary, node')
     \<and> length (records_of (sample_address 1) (nd_pending node')) = 1"
proof -
  obtain w st where w: "write_wallet_with_metadata sample_externals sample_wallet_env sample_key Devnet
      (raw_key_metadata ''raw-private-key'') sample_wallet_store = (Ok w, st)" using sample_wallet_writes by blast
  have db: "nd_db sample_node = sample_db" by (simp add: sample_node_def)
  obtain out st' where f: "sign_tx sample_externals sample_wallet_env (\<lambda>_. 0) (\<lambda>_. 0) ''wallet'' ''signed'' (nd_db sample_node)
      (sample_address 2) ''0.00000005'' ''0.00000019'' st = (Ok out, st')" "sf_transaction out = sample_spend 1 5 19"
    using sample_wallet_signs [OF w] unfolding db by blast
  have adr: "sw_address w = sample_address 1"
    using written_unlocks(4) [OF sample_wallet_laws sample_wallet_sizes w [unfolded write_wallet_with_metadata_def]]
    by (simp add: sample_public_key sample_address_def)
  obtain summary node' where s: "submit_transaction sample_externals (\<lambda>_. 0) (\<lambda>_. 0) 1 (sf_transaction out) sample_node
      = (Ok summary, node')" using sample_wallet_submits unfolding f(2) by blast
  have c: "load_chain_only sample_externals (\<lambda>_. 0) (nd_db sample_node) = Ok sample_chain" by (simp add: db sample_load_chain)
  have "unat (next_nonce_of (c_state sample_chain) (sw_address w)) + 32 < 2 ^ 64"
    by (simp add: adr sample_chain_def sample_ledger_view)
  from wallet_tx_not_queued [OF sample_wallet_laws sample_wallet_sizes w f(1) c this s] s show ?thesis
    unfolding adr f(2) by blast
qed

end
