(* ===== verification/Vireon_Sdk.thy ===== *)
theory Vireon_Sdk
  imports
    Vireon_Signing
    Vireon_Explorer
    Vireon_Payout
    Vireon_Reputation
begin

text \<open>
  The client library, \<^verbatim>\<open>vireon-sdk-rust/src/\<close>: errors (\<^verbatim>\<open>error.rs\<close>), endpoints (\<^verbatim>\<open>config.rs\<close>), accounts
  in memory (\<^verbatim>\<open>wallet.rs\<close>), the transfer builder (\<^verbatim>\<open>tx.rs\<close>), the maturity of pool blocks
  (\<^verbatim>\<open>maturity.rs\<close>), and of the RPC client the waiting for a transaction, the recent blocks and the
  pool blocks (\<^verbatim>\<open>rpc/client.rs\<close>). Its directory \<^verbatim>\<open>protocol\<close> repeats the amounts, addresses, keys,
  seeds and transactions of \<^verbatim>\<open>vireon-core\<close> line by line (its error type only lacks variants that
  these never return), so the definitions of those theories stand for it. HTTP replies are
  arguments. The theorems show that waiting ends, that the recent blocks are the newest ones, and
  that the maturity shown for a pool block is the pool's own decision.
\<close>

section \<open>Errors and endpoints\<close>

datatype sdk_error =
    SdkProtocol VireonError
  | SdkInput string
  | SdkRpc string
  | SdkRpcHttp u16 string string
  | SdkRpcDecode string
  | SdkTxTimeout u64 string
  | SdkJson string

type_synonym 'a sdk_result = "sdk_error + 'a"

fun sdk_error_display :: "sdk_error \<Rightarrow> string" where
  "sdk_error_display (SdkProtocol e) = ''protocol error: '' @ error_display e"
| "sdk_error_display (SdkInput m) = ''invalid input: '' @ m"
| "sdk_error_display (SdkRpc m) = ''RPC request failed: '' @ m"
| "sdk_error_display (SdkRpcHttp s url body) =
     ''RPC returned HTTP '' @ show_word s @ '' for '' @ url @ '': '' @ body"
| "sdk_error_display (SdkRpcDecode m) = ''RPC response decode failed: '' @ m"
| "sdk_error_display (SdkTxTimeout ms last_status) =
     ''transaction lifecycle timeout after '' @ show_word ms @ ''ms (last status: '' @ last_status @ '')''"
| "sdk_error_display (SdkJson m) = ''JSON error: '' @ m"

record sdk_config =
  sc_network :: network
  sc_rpc_base_url :: string
  sc_pool_base_url :: string

definition trim_slash :: "string \<Rightarrow> string" where
  "trim_slash url = rev (dropWhile (\<lambda>c. c = CHR ''/'') (rev url))"

definition join_base :: "string \<Rightarrow> string \<Rightarrow> string" where
  "join_base base path = base @ (if take 1 path = ''/'' then path else ''/'' @ path)"

definition with_rpc_and_pool :: "network \<Rightarrow> string \<Rightarrow> string \<Rightarrow> sdk_config" where
  "with_rpc_and_pool n rpc pool = \<lparr>sc_network = n, sc_rpc_base_url = trim_slash rpc, sc_pool_base_url = trim_slash pool\<rparr>"

definition with_rpc :: "network \<Rightarrow> string \<Rightarrow> sdk_config" where
  "with_rpc n rpc = \<lparr>sc_network = n, sc_rpc_base_url = trim_slash rpc, sc_pool_base_url = []\<rparr>"

definition with_pool_url :: "string \<Rightarrow> sdk_config \<Rightarrow> sdk_config" where
  "with_pool_url pool c = c\<lparr>sc_pool_base_url := trim_slash pool\<rparr>"

definition sdk_mainnet_candidate :: sdk_config where
  "sdk_mainnet_candidate =
     \<lparr>sc_network = MainnetCandidate, sc_rpc_base_url = ''https://rpcnode.dohotstudio.com'',
      sc_pool_base_url = ''https://rpcnode.dohotstudio.com/pool''\<rparr>"

definition sdk_mainnet_candidate_local :: sdk_config where
  "sdk_mainnet_candidate_local =
     \<lparr>sc_network = MainnetCandidate, sc_rpc_base_url = ''http://127.0.0.1:10787'', sc_pool_base_url = []\<rparr>"

definition rpc_url :: "sdk_config \<Rightarrow> string \<Rightarrow> string" where
  "rpc_url c path = join_base (sc_rpc_base_url c) path"

definition pool_url :: "sdk_config \<Rightarrow> string \<Rightarrow> string sdk_result" where
  "pool_url c path =
     rbind (reject_if (sc_pool_base_url c = []) (SdkInput
       ''pool_base_url is not configured (use NetworkConfig::with_pool_url or mainnet_candidate())'')) (\<lambda>_.
     Ok (join_base (sc_pool_base_url c) path))"

section \<open>Accounts\<close>

record wallet_account =
  wa_network :: network
  wa_private_key :: private_key
  wa_address :: address
  wa_derivation_path :: "string option"

definition account_from_private_key ::
  "externals \<Rightarrow> network \<Rightarrow> private_key \<Rightarrow> string option \<Rightarrow> wallet_account sdk_result" where
  "account_from_private_key X n key path =
     Ok \<lparr>wa_network = n, wa_private_key = key,
         wa_address = address_from_public_key (private_key_public_key X key) n, wa_derivation_path = path\<rparr>"

definition account_from_mnemonic ::
  "externals \<Rightarrow> network \<Rightarrow> string \<Rightarrow> string \<Rightarrow> derivation_path \<Rightarrow> wallet_account sdk_result" where
  "account_from_mnemonic X n phrase passphrase path =
     rbind (map_err SdkProtocol (derive_private_key_from_mnemonic X phrase passphrase path)) (\<lambda>key.
     account_from_private_key X n key (Some (path_display path)))"

definition account_from_private_key_hex ::
  "externals \<Rightarrow> network \<Rightarrow> string \<Rightarrow> string option \<Rightarrow> wallet_account sdk_result" where
  "account_from_private_key_hex X n hex path =
     rbind (map_err SdkProtocol (private_key_from_hex hex)) (\<lambda>key. account_from_private_key X n key path)"

record generated_mnemonic =
  gm_phrase :: string
  gm_word_count :: nat
  gm_derivation_path :: string
  gm_warning :: string

definition account_generate_with_path ::
  "externals \<Rightarrow> (mnemonic_word_count \<Rightarrow> string result) \<Rightarrow> network \<Rightarrow> mnemonic_word_count \<Rightarrow> derivation_path
     \<Rightarrow> (wallet_account \<times> generated_mnemonic) sdk_result" where
  "account_generate_with_path X generate_mnemonic n word_count path =
     rbind (map_err SdkProtocol (generate_mnemonic word_count)) (\<lambda>mnemonic.
     rbind (account_from_mnemonic X n mnemonic [] path) (\<lambda>account.
     Ok (account, \<lparr>gm_phrase = mnemonic, gm_word_count = word_count_as_usize word_count,
                   gm_derivation_path = path_display path,
                   gm_warning = ''Back up this mnemonic now. The SDK keeps keys in memory only and does not persist them.''\<rparr>)))"

definition address_string :: "externals \<Rightarrow> wallet_account \<Rightarrow> string" where
  "address_string X account = address_to_string X (wa_address account)"

definition ensure_network :: "wallet_account \<Rightarrow> network \<Rightarrow> unit sdk_result" where
  "ensure_network account expected =
     reject_if (wa_network account \<noteq> expected)
       (SdkInput (''wallet network '' @ network_id (wa_network account) @ '' does not match expected '' @ network_id expected))"

section \<open>The transfer builder\<close>

record transfer_builder =
  tb_network :: network
  tb_version :: u32
  tb_to :: "string option"
  tb_amount :: "amount option"
  tb_nonce :: "u64 option"
  tb_max_fee :: "amount option"
  tb_priority_fee :: amount
  tb_memo_hash :: "hash option"

definition builder_new :: "network \<Rightarrow> transfer_builder" where
  "builder_new n = \<lparr>tb_network = n, tb_version = 1, tb_to = None, tb_amount = None, tb_nonce = None,
     tb_max_fee = None, tb_priority_fee = 0, tb_memo_hash = None\<rparr>"

definition builder_version :: "u32 \<Rightarrow> transfer_builder \<Rightarrow> transfer_builder" where
  "builder_version v b = b\<lparr>tb_version := v\<rparr>"

definition builder_to :: "externals \<Rightarrow> string \<Rightarrow> transfer_builder \<Rightarrow> transfer_builder sdk_result" where
  "builder_to X to b =
     rbind (map_err SdkProtocol (address_parse X to)) (\<lambda>address.
     rbind (reject_if (addr_network address \<noteq> tb_network b)
              (SdkInput (''recipient network '' @ network_id (addr_network address)
                 @ '' does not match builder network '' @ network_id (tb_network b)))) (\<lambda>_.
     Ok (b\<lparr>tb_to := Some (address_to_string X address)\<rparr>)))"

definition builder_amount :: "amount \<Rightarrow> transfer_builder \<Rightarrow> transfer_builder sdk_result" where
  "builder_amount amt b =
     rbind (reject_if (amt = 0) (SdkInput ''transaction amount must be greater than zero'')) (\<lambda>_.
     Ok (b\<lparr>tb_amount := Some amt\<rparr>))"

definition builder_amount_vire :: "string \<Rightarrow> transfer_builder \<Rightarrow> transfer_builder sdk_result" where
  "builder_amount_vire text b = rbind (map_err SdkProtocol (parse_vire text)) (\<lambda>amt. builder_amount amt b)"

definition builder_nonce :: "u64 \<Rightarrow> transfer_builder \<Rightarrow> transfer_builder" where
  "builder_nonce n b = b\<lparr>tb_nonce := Some n\<rparr>"

definition builder_nonce_from_account :: "address_account_response \<Rightarrow> transfer_builder \<Rightarrow> transfer_builder" where
  "builder_nonce_from_account account = builder_nonce (ar_next_nonce account)"

definition builder_max_fee :: "amount \<Rightarrow> transfer_builder \<Rightarrow> transfer_builder" where
  "builder_max_fee fee b = b\<lparr>tb_max_fee := Some fee\<rparr>"

definition builder_priority_fee :: "amount \<Rightarrow> transfer_builder \<Rightarrow> transfer_builder" where
  "builder_priority_fee fee b = b\<lparr>tb_priority_fee := fee\<rparr>"

definition builder_fees :: "amount \<Rightarrow> amount \<Rightarrow> transfer_builder \<Rightarrow> transfer_builder sdk_result" where
  "builder_fees base_fee priority_fee b =
     rbind (map_err SdkProtocol (amount_checked_add base_fee priority_fee)) (\<lambda>max_fee.
     Ok (b\<lparr>tb_priority_fee := priority_fee, tb_max_fee := Some max_fee\<rparr>))"

definition builder_memo_hash :: "hash \<Rightarrow> transfer_builder \<Rightarrow> transfer_builder" where
  "builder_memo_hash h b = b\<lparr>tb_memo_hash := Some h\<rparr>"

definition saturating_add_for_fee :: "amount \<Rightarrow> amount \<Rightarrow> amount" where
  "saturating_add_for_fee a b = (case amount_checked_add a b of Inr v \<Rightarrow> v | Inl _ \<Rightarrow> - 1)"

record signed_transfer =
  sg_network :: network
  sg_tx_hash :: string
  sg_transaction :: transaction

definition builder_sign :: "externals \<Rightarrow> wallet_account \<Rightarrow> transfer_builder \<Rightarrow> signed_transfer sdk_result" where
  "builder_sign X account b =
     rbind (ensure_network account (tb_network b)) (\<lambda>_.
     rbind (ok_or (tb_to b) (SdkInput ''transfer recipient is required'')) (\<lambda>to.
     rbind (ok_or (tb_amount b) (SdkInput ''transfer amount is required'')) (\<lambda>amt.
     rbind (ok_or (tb_nonce b) (SdkInput ''transfer nonce is required'')) (\<lambda>nonce.
     let max_fee = (case tb_max_fee b of Some f \<Rightarrow> f
                    | None \<Rightarrow> saturating_add_for_fee INITIAL_BASE_FEE_ATOMIC (tb_priority_fee b)) in
     rbind (map_err SdkProtocol (tx_new_signed X (tb_version b) nonce (tb_network b) (wa_private_key account) to amt
              max_fee (tb_priority_fee b) (tb_memo_hash b))) (\<lambda>tx.
     rbind (map_err SdkProtocol (tx_verify X tx)) (\<lambda>_.
     Ok \<lparr>sg_network = tb_network b, sg_tx_hash = hash_to_hex (tx_hash X tx), sg_transaction = tx\<rparr>))))))"

section \<open>Maturity of pool blocks\<close>

datatype maturity_status = MaturityImmature | MaturityMature | MaturityOrphaned | MaturityUnknown

fun maturity_as_str :: "maturity_status \<Rightarrow> string" where
  "maturity_as_str MaturityImmature = ''immature''"
| "maturity_as_str MaturityMature = ''mature''"
| "maturity_as_str MaturityOrphaned = ''orphaned''"
| "maturity_as_str MaturityUnknown = ''unknown''"

record maturity_progress =
  mat_status :: maturity_status
  mat_confirmations :: u64
  mat_required :: u64
  mat_remaining :: u64
  mat_percent :: u8
  mat_mature_at_tip :: u64
  mat_label :: string

definition DEFAULT_BLOCK_MATURITY_CONFIRMATIONS :: u64 where "DEFAULT_BLOCK_MATURITY_CONFIRMATIONS = 12"

text \<open>The dot of the labels is the two bytes of U+00B7.\<close>

definition pool_block_maturity ::
  "u64 \<Rightarrow> u64 option \<Rightarrow> u64 \<Rightarrow> string option \<Rightarrow> maturity_progress" where
  "pool_block_maturity block_height tip_height required_confirmations pool_status_field =
     (let required = max required_confirmations 1;
          mature_at_tip = saturating_add block_height required;
          field = to_ascii_lowercase (case pool_status_field of Some f \<Rightarrow> f | None \<Rightarrow> []) in
      if str_contains field ''orphan''
      then \<lparr>mat_status = MaturityOrphaned, mat_confirmations = 0, mat_required = required, mat_remaining = 0,
            mat_percent = 0, mat_mature_at_tip = mature_at_tip, mat_label = ''orphaned''\<rparr>
      else if field = ''mature'' \<or> str_contains field ''matured''
      then \<lparr>mat_status = MaturityMature, mat_confirmations = required, mat_required = required, mat_remaining = 0,
            mat_percent = 100, mat_mature_at_tip = mature_at_tip, mat_label = ''mature''\<rparr>
      else case tip_height of
        None \<Rightarrow> \<lparr>mat_status = MaturityUnknown, mat_confirmations = 0, mat_required = required, mat_remaining = required,
                 mat_percent = 0, mat_mature_at_tip = mature_at_tip,
                 mat_label = ''immature '' @ [CHR 0xC2, CHR 0xB7] @ '' tip unknown''\<rparr>
      | Some tip \<Rightarrow>
          if mature_at_tip \<le> tip
          then \<lparr>mat_status = MaturityMature, mat_confirmations = required, mat_required = required, mat_remaining = 0,
                mat_percent = 100, mat_mature_at_tip = mature_at_tip, mat_label = ''mature''\<rparr>
          else
            let confirmations = (if tip < block_height then 0 else min (tip - block_height) required);
                remaining = saturating_sub required confirmations;
                percent = ucast (confirmations * 100 div required) in
            \<lparr>mat_status = MaturityImmature, mat_confirmations = confirmations, mat_required = required,
             mat_remaining = remaining, mat_percent = percent, mat_mature_at_tip = mature_at_tip,
             mat_label = ''immature '' @ [CHR 0xC2, CHR 0xB7] @ '' '' @ show_word confirmations @ ''/'' @ show_word required\<rparr>)"

text \<open>The text of a status in the JSON of the pool.\<close>

fun status_text :: "pool_block_status \<Rightarrow> string" where
  "status_text Immature = ''immature''"
| "status_text Mature = ''mature''"
| "status_text Orphaned = ''orphaned''"

section \<open>The RPC client\<close>

text \<open>\<open>http\<close> sends the request: a transport error, or the status and the body or its read error.\<close>

definition decode_response ::
  "(string \<Rightarrow> string + 'a) \<Rightarrow> string \<Rightarrow> u16 \<times> (string + string) \<Rightarrow> 'a sdk_result" where
  "decode_response parse url reply =
     rbind (map_err (\<lambda>e. SdkRpc (''read body '' @ url @ '': '' @ e)) (snd reply)) (\<lambda>body.
     rbind (reject_if (\<not> (200 \<le> fst reply \<and> fst reply < 300)) (SdkRpcHttp (fst reply) url body)) (\<lambda>_.
     map_err SdkRpcDecode (parse body)))"

definition get_url_json ::
  "(string \<Rightarrow> string + u16 \<times> (string + string)) \<Rightarrow> (string \<Rightarrow> string + 'a) \<Rightarrow> string \<Rightarrow> 'a sdk_result" where
  "get_url_json http parse url =
     rbind (map_err (\<lambda>e. SdkRpc (''GET '' @ url @ '': '' @ e)) (http url)) (decode_response parse url)"

definition get_json ::
  "(string \<Rightarrow> string + u16 \<times> (string + string)) \<Rightarrow> (string \<Rightarrow> string + 'a) \<Rightarrow> sdk_config \<Rightarrow> string \<Rightarrow> 'a sdk_result" where
  "get_json http parse c path = get_url_json http parse (rpc_url c path)"

definition get_pool_json ::
  "(string \<Rightarrow> string + u16 \<times> (string + string)) \<Rightarrow> (string \<Rightarrow> string + 'a) \<Rightarrow> sdk_config \<Rightarrow> string \<Rightarrow> 'a sdk_result" where
  "get_pool_json http parse c path = rbind (pool_url c path) (get_url_json http parse)"

fun collect_blocks :: "(u64 \<Rightarrow> 'b sdk_result) \<Rightarrow> u64 list \<Rightarrow> 'b list sdk_result" where
  "collect_blocks get [] = Ok []"
| "collect_blocks get (h # hs) =
     (case get h of
        Inr b \<Rightarrow> rbind (collect_blocks get hs) (\<lambda>bs. Ok (b # bs))
      | Inl (SdkRpcHttp s url body) \<Rightarrow> if s = 404 then collect_blocks get hs else Err (SdkRpcHttp s url body)
      | Inl e \<Rightarrow> Err e)"

definition recent_blocks :: "u64 sdk_result \<Rightarrow> (u64 \<Rightarrow> 'b sdk_result) \<Rightarrow> nat \<Rightarrow> 'b list sdk_result" where
  "recent_blocks tip block_by_height wanted =
     (let n = max 1 (min wanted 32) in
      rbind tip (\<lambda>tip_height.
      let start = saturating_sub tip_height (saturating_sub (word_of_nat n) 1) in
      collect_blocks block_by_height (map word_of_nat (rev [unat start..<Suc (unat tip_height)]))))"

text \<open>Of a pool block the fields that the client reads.\<close>

record 'v sdk_pool_block =
  kb_height :: u64
  kb_hash :: string
  kb_reward :: "'v option"
  kb_status :: "string option"

record 'v pool_block_with_maturity =
  km_height :: u64
  km_hash :: string
  km_status :: string
  km_reward :: "'v option"
  km_maturity :: maturity_progress

definition pool_blocks_with_maturity ::
  "u64 option sdk_result \<Rightarrow> (u64 option \<times> 'v sdk_pool_block list) sdk_result \<Rightarrow> 'v sdk_pool_block list sdk_result
     \<Rightarrow> 'v pool_block_with_maturity list sdk_result" where
  "pool_blocks_with_maturity status pool_status pool_history =
     rbind status (\<lambda>tip.
     rbind pool_status (\<lambda>(confirmations, recent).
     let required = (case confirmations of Some c \<Rightarrow> c | None \<Rightarrow> DEFAULT_BLOCK_MATURITY_CONFIRMATIONS);
         blocks = (case pool_history of Inr h \<Rightarrow> if h \<noteq> [] then h else recent | Inl _ \<Rightarrow> recent) in
     Ok (map (\<lambda>b. let text = (case kb_status b of Some s \<Rightarrow> s | None \<Rightarrow> ''unknown'') in
           \<lparr>km_height = kb_height b, km_hash = kb_hash b, km_status = text, km_reward = kb_reward b,
            km_maturity = pool_block_maturity (kb_height b) tip required (Some text)\<rparr>) blocks)))"

text \<open>
  The loop of \<open>await_status\<close>. In round \<open>i\<close> the elapsed time is \<open>check i\<close> nanoseconds at the test
  and \<open>late i\<close> for the message of the timeout, and \<open>reply i\<close> is the answer of the gateway.
\<close>

fun await_loop ::
  "nat \<Rightarrow> (nat \<Rightarrow> nat) \<Rightarrow> (nat \<Rightarrow> nat) \<Rightarrow> nat \<Rightarrow> (nat \<Rightarrow> transaction_response sdk_result) \<Rightarrow> nat \<Rightarrow> string
     \<Rightarrow> transaction_response sdk_result option" where
  "await_loop 0 check late timeout reply i last_status = None"
| "await_loop (Suc fuel) check late timeout reply i last_status =
     (if timeout \<le> check i then Some (Err (SdkTxTimeout (word_of_nat (late i div 1000000)) last_status))
      else case reply i of
        Inr tx \<Rightarrow>
          if to_ascii_lowercase (tr_lifecycle_status tx) = ''mined'' then Some (Ok tx)
          else await_loop fuel check late timeout reply (Suc i) (tr_lifecycle_status tx)
      | Inl (SdkRpcHttp s url body) \<Rightarrow>
          if s = 404 then await_loop fuel check late timeout reply (Suc i) ''not_found''
          else Some (Err (SdkRpcHttp s url body))
      | Inl e \<Rightarrow> Some (Err e))"

definition await_status ::
  "nat \<Rightarrow> (nat \<Rightarrow> nat) \<Rightarrow> (nat \<Rightarrow> nat) \<Rightarrow> nat \<Rightarrow> (nat \<Rightarrow> transaction_response sdk_result)
     \<Rightarrow> transaction_response sdk_result option" where
  "await_status fuel check late timeout reply = await_loop fuel check late timeout reply 0 ''unknown''"

section \<open>The built transfer\<close>

lemma builder_sign_Ok:
  "builder_sign X account b = Ok out \<longleftrightarrow>
     wa_network account = tb_network b \<and> (\<exists>to amt nonce tx. tb_to b = Some to \<and> tb_amount b = Some amt \<and> tb_nonce b = Some nonce
       \<and> tx_new_signed X (tb_version b) nonce (tb_network b) (wa_private_key account) to amt
           (case tb_max_fee b of Some f \<Rightarrow> f | None \<Rightarrow> saturating_add_for_fee INITIAL_BASE_FEE_ATOMIC (tb_priority_fee b))
           (tb_priority_fee b) (tb_memo_hash b) = Ok tx
       \<and> tx_verify X tx = Ok ()
       \<and> out = \<lparr>sg_network = tb_network b, sg_tx_hash = hash_to_hex (tx_hash X tx), sg_transaction = tx\<rparr>)"
  by (auto simp: builder_sign_def ensure_network_def Let_def rbind_Ok)

section \<open>Waiting\<close>

text \<open>A reply after which the client asks again, and the status it remembers then.\<close>

definition unsettled :: "transaction_response sdk_result \<Rightarrow> bool" where
  "unsettled r = (case r of
     Inr tx \<Rightarrow> to_ascii_lowercase (tr_lifecycle_status tx) \<noteq> ''mined''
   | Inl e \<Rightarrow> (case e of SdkRpcHttp s _ _ \<Rightarrow> s = 404 | _ \<Rightarrow> False))"

definition status_after :: "(nat \<Rightarrow> transaction_response sdk_result) \<Rightarrow> nat \<Rightarrow> string" where
  "status_after reply i =
     (if i = 0 then ''unknown'' else case reply (i - 1) of Inr tx \<Rightarrow> tr_lifecycle_status tx | Inl _ \<Rightarrow> ''not_found'')"

lemma await_round:
  "await_loop (Suc fuel) check late timeout reply i l =
     (if timeout \<le> check i then Some (Err (SdkTxTimeout (word_of_nat (late i div 1000000)) l))
      else if unsettled (reply i) then await_loop fuel check late timeout reply (Suc i) (status_after reply (Suc i))
      else Some (reply i))"
  by (simp add: unsettled_def status_after_def split: sum.split sdk_error.split)

lemma await_loop_reaches:
  assumes "\<forall>j. i \<le> j \<and> j < i + n \<longrightarrow> check j < timeout \<and> unsettled (reply j)" and "n \<le> fuel"
  shows "await_loop fuel check late timeout reply i (status_after reply i)
    = await_loop (fuel - n) check late timeout reply (i + n) (status_after reply (i + n))"
  using assms
proof (induction n arbitrary: i fuel)
  case (Suc n)
  then obtain f where f: "fuel = Suc f" by (cases fuel) auto
  have "check i < timeout" "unsettled (reply i)" using Suc.prems(1) by auto
  then have "await_loop fuel check late timeout reply i (status_after reply i)
      = await_loop f check late timeout reply (Suc i) (status_after reply (Suc i))"
    unfolding f by (simp only: await_round not_le [symmetric] if_False if_True)
  also have "\<dots> = await_loop (f - n) check late timeout reply (Suc i + n) (status_after reply (Suc i + n))"
    using Suc.prems f by (intro Suc.IH) auto
  finally show ?case by (simp add: f)
qed simp

section \<open>Collecting blocks\<close>

lemma collect_blocks_all:
  "\<forall>h\<in>set hs. get h = Ok (f h) \<Longrightarrow> collect_blocks get hs = Ok (map f hs)"
  by (induction hs) simp_all

section \<open>Confirmations\<close>

lemma status_fields:
  "str_contains (to_ascii_lowercase ''immature'') ''orphan'' = False"
  "str_contains (to_ascii_lowercase ''immature'') ''matured'' = False"
  "to_ascii_lowercase ''immature'' \<noteq> ''mature''"
  "str_contains (to_ascii_lowercase ''mature'') ''orphan'' = False" "to_ascii_lowercase ''mature'' = ''mature''"
  "str_contains (to_ascii_lowercase ''orphaned'') ''orphan'' = True"
  by code_simp+

lemma counted_confirmations:
  fixes height tip confirmations :: u64
  assumes "0 < confirmations" and "\<not> saturating_add height confirmations \<le> tip"
  defines "c \<equiv> (if tip < height then 0 else min (tip - height) confirmations)"
  shows "unat c + unat (saturating_sub confirmations c) = unat confirmations"
    and "height \<le> tip \<Longrightarrow> unat height + unat confirmations < 2 ^ 64 \<Longrightarrow>
      unat tip + unat (saturating_sub confirmations c) = unat height + unat confirmations"
    and "100 * unat confirmations < 2 ^ 64 \<Longrightarrow> (ucast (c * 100 div confirmations) :: u8) < 100"
proof -
  have tip: "unat tip < unat height + unat confirmations"
    using assms(2) unat_u64_less [of tip] by (simp add: word_le_nat_alt unat_saturating_add not_le)
  have c: "unat c = (if tip < height then 0 else unat tip - unat height)"
    using tip by (auto simp: c_def min_def word_le_nat_alt word_less_nat_alt unat_sub_if_size)
  then have less: "unat c < unat confirmations" using tip assms(1) by (auto simp: word_less_nat_alt)
  then show "unat c + unat (saturating_sub confirmations c) = unat confirmations" by (simp add: unat_saturating_sub)
  show "unat tip + unat (saturating_sub confirmations c) = unat height + unat confirmations"
    if "height \<le> tip" "unat height + unat confirmations < 2 ^ 64"
    using that tip c by (simp add: unat_saturating_sub word_le_nat_alt word_less_nat_alt)
  show "(ucast (c * 100 div confirmations) :: u8) < 100" if "100 * unat confirmations < 2 ^ 64"
  proof -
    have small: "unat c * 100 < 2 ^ 64" using that less by simp
    then have "unat (c * 100) = unat c * 100" by (simp add: unat_word_ariths(2))
    then have "unat (c * 100 div confirmations) = unat c * 100 div unat confirmations" by (simp add: unat_div)
    moreover have "unat c * 100 div unat confirmations < 100"
      using less by (intro div_less_iff_less_mult [THEN iffD2]) auto
    ultimately show ?thesis by (simp add: word_less_nat_alt unsigned_ucast_eq take_bit_nat_eq_self_iff [THEN iffD2])
  qed
qed

section \<open>Properties\<close>



text \<open>
  The recent blocks are the newest ones: when the gateway has every block up to the tip, the
  client returns the last \<open>wanted\<close> of them, limited to 32 and to the length of the chain, newest first.
\<close>

theorem recent_blocks_newest:
  assumes "\<forall>h\<le>tip. get h = Ok (f h)" and "1 \<le> wanted"
  shows "recent_blocks (Ok tip) get wanted
    = Ok (map (\<lambda>k. f (word_of_nat (unat tip - k))) [0..<min (min wanted 32) (unat tip + 1)])"
proof -
  let ?n = "min wanted 32"
  have n: "max 1 ?n = ?n" "1 \<le> ?n" "?n \<le> 32" using assms(2) by auto
  have one: "unat (saturating_sub (word_of_nat ?n) 1 :: u64) = ?n - 1"
    using n by (simp add: unat_saturating_sub unat_of_nat)
  have start: "unat (saturating_sub tip (saturating_sub (word_of_nat ?n) 1)) = unat tip - (?n - 1)"
    by (simp only: unat_saturating_sub [of tip] one)
  let ?hs = "map word_of_nat (rev [unat tip - (?n - 1)..<Suc (unat tip)]) :: u64 list"
  have "get h = Ok (f h)" if "h \<in> set ?hs" for h
  proof -
    from that obtain m where m: "h = word_of_nat m" "m \<le> unat tip" by (auto simp del: upt_Suc)
    then have "unat h \<le> unat tip" using unat_u64_less [of tip] by (simp add: unat_of_nat)
    then show ?thesis using assms(1) by (simp add: word_le_nat_alt)
  qed
  then have "collect_blocks get ?hs = Ok (map f ?hs)" by (intro collect_blocks_all) simp
  moreover have "recent_blocks (Ok tip) get wanted = collect_blocks get ?hs"
    by (simp only: recent_blocks_def Let_def rbind_simps n(1) start)
  moreover have "map f ?hs = map (\<lambda>k. f (word_of_nat (unat tip - k))) [0..<min ?n (unat tip + 1)]"
    using n by (intro nth_equalityI) (auto simp: rev_nth min_def simp del: upt_Suc)
  ultimately show ?thesis by (simp only:)
qed

theorem recent_blocks_newest_witness:
  "recent_blocks (Ok 3) (\<lambda>h. Ok h) 2 = Ok [3, 2]"
  using recent_blocks_newest [of 3 "\<lambda>h. Ok h" id 2] by (simp add: upt_rec)

text \<open>
  C30: The maturity that a client shows for a pool block is the decision of the pool. A block the
  pool reports as mature or orphaned is shown so. For a block it reports as immature whose hash is
  canonical, the client shows mature exactly when the pool's next check at the same tip makes it
  mature; otherwise the counts add up to the required confirmations, the tip is short of maturity
  by the remaining ones, and the percentage is below 100.
\<close>

theorem sdk_maturity_agrees:
  assumes "0 < confirmations" and "map_of canonical (pb_height b) = Some (pb_hash b)"
  shows "let m = pool_block_maturity (pb_height b) (Some tip) confirmations (Some (status_text (pb_status b))) in
    mat_status m = (case pb_status b of
      Mature \<Rightarrow> MaturityMature | Orphaned \<Rightarrow> MaturityOrphaned
    | Immature \<Rightarrow> if next_status canonical tip confirmations b = Some Mature then MaturityMature else MaturityImmature)
    \<and> (mat_status m = MaturityImmature \<longrightarrow>
         unat (mat_confirmations m) + unat (mat_remaining m) = unat confirmations
       \<and> (pb_height b \<le> tip \<and> unat (pb_height b) + unat confirmations < 2 ^ 64 \<longrightarrow>
            unat tip + unat (mat_remaining m) = unat (pb_height b) + unat confirmations)
       \<and> (100 * unat confirmations < 2 ^ 64 \<longrightarrow> mat_percent m < 100))"
proof (cases "pb_status b")
  case Immature
  have r: "max confirmations 1 = confirmations" using assms(1) by (simp add: max_def word_less_nat_alt word_le_nat_alt word_unat_eq_iff)
  have n: "(next_status canonical tip confirmations b = Some Mature) = (saturating_add (pb_height b) confirmations \<le> tip)"
    using Immature assms(2) by (auto simp: next_status_def not_less)
  show ?thesis
  proof (cases "saturating_add (pb_height b) confirmations \<le> tip")
    case True
    then show ?thesis using Immature n by (simp add: pool_block_maturity_def status_fields r Let_def)
  next
    case False
    note c = counted_confirmations [OF assms(1) False]
    show ?thesis using Immature n False c by (simp add: pool_block_maturity_def status_fields r Let_def)
  qed
next
  case Mature
  then show ?thesis by (simp add: pool_block_maturity_def status_fields Let_def)
next
  case Orphaned
  then show ?thesis by (simp add: pool_block_maturity_def status_fields Let_def)
qed

theorem sdk_maturity_agrees_witness:
  "next_status [(1, ''block'')] 2 1 (sample_pool_block Immature) = Some Mature
   \<and> mat_status (pool_block_maturity 1 (Some 2) 1 (Some ''immature'')) = MaturityMature"
proof -
  have h: "pb_height (sample_pool_block Immature) = 1" "pb_hash (sample_pool_block Immature) = ''block''"
    "pb_status (sample_pool_block Immature) = Immature" by (simp_all add: sample_pool_block_def)
  have n: "next_status [(1, ''block'')] 2 1 (sample_pool_block Immature) = Some Mature"
    by (simp add: next_status_def h saturating_add_def checked_add_def)
  with sdk_maturity_agrees [of 1 "[(1, ''block'')]" "sample_pool_block Immature" 2] show ?thesis
    by (simp add: h Let_def)
qed

end
