(* ===== verification/Vireon_Host.thy ===== *)
theory Vireon_Host
  imports
    Vireon_Sdk
begin

text \<open>
  The native host of the browser extension, \<^verbatim>\<open>vireon-browser/host/src/\<close>: the encrypted keystore
  (\<^verbatim>\<open>keystore.rs\<close>), the confirmation (\<^verbatim>\<open>confirm.rs\<close>), the message framing (\<^verbatim>\<open>native_messaging.rs\<close>)
  and the request handler with its session (\<^verbatim>\<open>protocol.rs\<close>). The parameters of a request are the
  fields the handlers read, with \<open>None\<close> for a field that is absent or of another type; the request
  id is echoed and left out. Files succeed and hold their parsed content; the RPC client, random
  bytes, the generated words and the confirmation variable are the record \<open>host_env\<close>.
\<close>

section \<open>The keystore\<close>

record stored_host_wallet =
  hw_schema :: string
  hw_network_id :: string
  hw_network_name :: string
  hw_status_label :: string
  hw_address :: string
  hw_public_key_hex :: string
  hw_encrypted :: encrypted_secret
  hw_derivation_path :: "string option"
  hw_warning :: string

record public_wallet_view =
  pv_network_id :: string
  pv_network_name :: string
  pv_status_label :: string
  pv_address :: string
  pv_public_key_hex :: string
  pv_derivation_path :: "string option"
  pv_keystore_path :: string
  pv_schema :: string

definition HOST_SCHEMA_ENCRYPTED_V1 :: string where
  "HOST_SCHEMA_ENCRYPTED_V1 = ''vireon-browser-host-encrypted-v1''"

definition public_view :: "stored_host_wallet \<Rightarrow> string \<Rightarrow> public_wallet_view" where
  "public_view w path =
     \<lparr>pv_network_id = hw_network_id w, pv_network_name = hw_network_name w, pv_status_label = hw_status_label w,
      pv_address = hw_address w, pv_public_key_hex = hw_public_key_hex w, pv_derivation_path = hw_derivation_path w,
      pv_keystore_path = path, pv_schema = hw_schema w\<rparr>"

definition keystore_path :: "string \<Rightarrow> string" where
  "keystore_path dir = dir @ ''/browser-host-wallet.json''"

definition load_stored :: "string \<Rightarrow> stored_host_wallet option \<Rightarrow> string + stored_host_wallet" where
  "load_stored dir content = ok_or content (''keystore not found at '' @ keystore_path dir)"

definition export_public :: "string \<Rightarrow> stored_host_wallet option \<Rightarrow> string + public_wallet_view" where
  "export_public dir content = rbind (load_stored dir content) (\<lambda>w. Ok (public_view w (keystore_path dir)))"

definition host_derive_key :: "wallet_crypto \<Rightarrow> string \<Rightarrow> bytes \<Rightarrow> string + bytes" where
  "host_derive_key W passphrase salt =
     map_err (\<lambda>e. ''argon2 derive failed: '' @ e) (wc_derive W (str_bytes passphrase) salt)"

definition host_encrypt_secret ::
  "wallet_crypto \<Rightarrow> bytes \<Rightarrow> bytes \<Rightarrow> string \<Rightarrow> bytes \<Rightarrow> string + encrypted_secret" where
  "host_encrypt_secret W salt nonce passphrase plaintext =
     rbind (host_derive_key W passphrase salt) (\<lambda>key.
     rbind (ok_or (wc_encrypt W key nonce plaintext) ''encryption failed'') (\<lambda>ciphertext.
     Ok \<lparr>es_kdf = ''argon2id'', es_salt_b64 = wc_b64_encode W salt, es_nonce_b64 = wc_b64_encode W nonce,
         es_ciphertext_b64 = wc_b64_encode W ciphertext\<rparr>))"

definition host_decrypt_secret :: "wallet_crypto \<Rightarrow> string \<Rightarrow> encrypted_secret \<Rightarrow> string + bytes" where
  "host_decrypt_secret W passphrase secret =
     rbind (reject_if (es_kdf secret \<noteq> ''argon2id'') (''unsupported kdf '' @ es_kdf secret)) (\<lambda>_.
     rbind (map_err (\<lambda>e. ''salt: '' @ e) (wc_b64_decode W (es_salt_b64 secret))) (\<lambda>salt.
     rbind (map_err (\<lambda>e. ''nonce: '' @ e) (wc_b64_decode W (es_nonce_b64 secret))) (\<lambda>nonce.
     rbind (map_err (\<lambda>e. ''ciphertext: '' @ e) (wc_b64_decode W (es_ciphertext_b64 secret))) (\<lambda>ciphertext.
     rbind (reject_if (length nonce \<noteq> 12) ''invalid nonce length'') (\<lambda>_.
     rbind (host_derive_key W passphrase salt) (\<lambda>key.
     ok_or (wc_decrypt W key nonce ciphertext) ''decryption failed (wrong passphrase?)''))))))"

definition validate_passphrase :: "string \<Rightarrow> string + unit" where
  "validate_passphrase passphrase =
     reject_if (length (trim passphrase) < 8) ''passphrase must be at least 8 characters''"

record 'v host_env =
  he_crypto :: wallet_crypto
  he_salt :: bytes
  he_nonce :: bytes
  he_generate :: "mnemonic_word_count \<Rightarrow> string result"
  he_confirm :: "string option"
  he_get :: "string \<Rightarrow> 'v sdk_result"
  he_tip :: "u64 sdk_result"
  he_account :: "string \<Rightarrow> address_account_response sdk_result"
  he_submit :: "transaction \<Rightarrow> submit_summary sdk_result"

definition stored_from_account ::
  "externals \<Rightarrow> 'v host_env \<Rightarrow> network \<Rightarrow> string \<Rightarrow> wallet_account \<Rightarrow> string + stored_host_wallet" where
  "stored_from_account X E n passphrase account =
     rbind (validate_passphrase passphrase) (\<lambda>_.
     rbind (host_encrypt_secret (he_crypto E) (he_salt E) (he_nonce E) passphrase
              (str_bytes (private_key_to_hex (wa_private_key account)))) (\<lambda>encrypted.
     Ok \<lparr>hw_schema = HOST_SCHEMA_ENCRYPTED_V1, hw_network_id = network_id n, hw_network_name = human_name n,
         hw_status_label = status_label n, hw_address = address_string X account,
         hw_public_key_hex = public_key_to_hex (private_key_public_key X (wa_private_key account)),
         hw_encrypted = encrypted, hw_derivation_path = wa_derivation_path account,
         hw_warning = ''Encrypted browser-host wallet (AES-256-GCM + Argon2id). Private key is never stored in plaintext and is never returned to the extension. Mnemonic recovery is CLI-only.''\<rparr>))"

text \<open>The functions that write return the new content of the file.\<close>

definition create_encrypted_wallet ::
  "externals \<Rightarrow> 'v host_env \<Rightarrow> string \<Rightarrow> stored_host_wallet option \<Rightarrow> network \<Rightarrow> string \<Rightarrow> wallet_account
     \<Rightarrow> string + stored_host_wallet" where
  "create_encrypted_wallet X E dir content n passphrase account =
     rbind (reject_if (content \<noteq> None)
              (''keystore already exists at '' @ keystore_path dir @ ''; delete_wallet first or unlock'')) (\<lambda>_.
     stored_from_account X E n passphrase account)"

definition unlock_wallet ::
  "externals \<Rightarrow> 'v host_env \<Rightarrow> string \<Rightarrow> stored_host_wallet option \<Rightarrow> network \<Rightarrow> string \<Rightarrow> string + wallet_account" where
  "unlock_wallet X E dir content n passphrase =
     rbind (load_stored dir content) (\<lambda>stored.
     rbind (reject_if (hw_network_id stored \<noteq> network_id n)
              (''keystore network '' @ hw_network_id stored @ '' does not match host network '' @ network_id n)) (\<lambda>_.
     rbind (host_decrypt_secret (he_crypto E) passphrase (hw_encrypted stored)) (\<lambda>plain.
     rbind (ok_or (from_utf8 plain) ''decrypted key is not utf8'') (\<lambda>hex.
     rbind (map_err error_display (private_key_from_hex hex)) (\<lambda>key.
     rbind (map_err sdk_error_display (account_from_private_key X n key (hw_derivation_path stored))) (\<lambda>account.
     rbind (reject_if (address_string X account \<noteq> hw_address stored)
              ''unlocked address does not match keystore metadata'') (\<lambda>_.
     rbind (map_err error_display (address_parse X (hw_address stored))) (\<lambda>_.
     Ok account))))))))"

definition change_passphrase ::
  "externals \<Rightarrow> 'v host_env \<Rightarrow> string \<Rightarrow> stored_host_wallet option \<Rightarrow> network \<Rightarrow> string \<Rightarrow> string
     \<Rightarrow> string + public_wallet_view \<times> stored_host_wallet" where
  "change_passphrase X E dir content n old_passphrase new_passphrase =
     rbind (validate_passphrase new_passphrase) (\<lambda>_.
     rbind (unlock_wallet X E dir content n old_passphrase) (\<lambda>account.
     rbind (stored_from_account X E n new_passphrase account) (\<lambda>stored.
     Ok (public_view stored (keystore_path dir), stored))))"

definition delete_wallet ::
  "externals \<Rightarrow> 'v host_env \<Rightarrow> string \<Rightarrow> stored_host_wallet option \<Rightarrow> network \<Rightarrow> string \<Rightarrow> string + unit" where
  "delete_wallet X E dir content n passphrase = rbind (unlock_wallet X E dir content n passphrase) (\<lambda>_. Ok ())"

section \<open>Requests, answers and the session\<close>

record host_params =
  hp_passphrase :: "string option"
  hp_old_passphrase :: "string option"
  hp_new_passphrase :: "string option"
  hp_to :: "string option"
  hp_amount_atomic :: "u64 option"
  hp_amount_vire :: "string option"
  hp_priority_fee_atomic :: "u64 option"
  hp_priority_fee_vire :: "string option"
  hp_height :: "u64 option"
  hp_hash :: "string option"
  hp_count :: "u64 option"
  hp_address :: "string option"
  hp_transaction :: "(string + transaction) option"

record host_state =
  hs_config :: sdk_config
  hs_session :: "wallet_account option"
  hs_keystore_dir :: string
  hs_require_os_confirm :: bool
  hs_file :: "stored_host_wallet option"

text \<open>A new host, with the directory and the confirmation that \<open>with_keystore_dir\<close> and \<open>with_require_os_confirm\<close> set.\<close>

definition host_new :: "sdk_config \<Rightarrow> string \<Rightarrow> bool \<Rightarrow> stored_host_wallet option \<Rightarrow> host_state" where
  "host_new config dir confirm content =
     \<lparr>hs_config = config, hs_session = None, hs_keystore_dir = dir, hs_require_os_confirm = confirm, hs_file = content\<rparr>"

datatype 'v host_result =
    PingResult
  | NetworkInfoResult string string string string
  | KeystoreStatusResult bool string bool "string option" "(string \<times> string \<times> string) option"
  | SessionStatusResult bool "string option" bool
  | CreatedResult string string string
  | PublicResult public_wallet_view
  | PassphraseChangedResult public_wallet_view
  | DeletedResult
  | UnlockedResult string
  | LockedResult
  | SessionCreatedResult string
  | ClearedResult
  | RpcResult 'v
  | BlocksResult "'v list"
  | AccountResult address_account_response
  | SignedResult string transaction string string
  | SubmittedResult submit_summary
  | SentResult string submit_summary string string

datatype host_method =
    MPing | MNetworkInfo | MKeystoreStatus | MSessionStatus | MCreateWallet | MExportPublic | MChangePassphrase
  | MDeleteWallet | MUnlock | MLock | MCreateSession | MClearSession | MRead string | MBlockByHeight | MBlockByHash
  | MRecentBlocks | MTransactionByHash | MIndexerAddress | MBalance | MAccount | MPrepareAndSign | MSubmit | MSend

text \<open>The arms of the dispatch; a plain read names its path.\<close>

definition method_of :: "string \<Rightarrow> host_method option" where
  "method_of name = map_of
     [(''ping'', MPing), (''network_info'', MNetworkInfo), (''keystore_status'', MKeystoreStatus),
      (''session_status'', MSessionStatus), (''create_wallet'', MCreateWallet), (''export_public'', MExportPublic),
      (''change_passphrase'', MChangePassphrase), (''delete_wallet'', MDeleteWallet), (''unlock'', MUnlock),
      (''lock'', MLock), (''create_session'', MCreateSession), (''clear_session'', MClearSession),
      (''rpc_status'', MRead ''/status''), (''sync_status'', MRead ''/sync/status''),
      (''mempool_status'', MRead ''/mempool/status''), (''supply'', MRead ''/supply''),
      (''block_latest'', MRead ''/blocks/latest''), (''block_by_height'', MBlockByHeight),
      (''block_by_hash'', MBlockByHash), (''recent_blocks'', MRecentBlocks), (''transaction_by_hash'', MTransactionByHash),
      (''indexer_status'', MRead ''/indexer/status''), (''indexer_summary'', MRead ''/indexer/summary''),
      (''indexer_block_latest'', MRead ''/indexer/blocks/latest''), (''indexer_address'', MIndexerAddress),
      (''balance'', MBalance), (''account'', MAccount), (''prepare_and_sign'', MPrepareAndSign),
      (''submit'', MSubmit), (''send'', MSend)] name"

section \<open>Signing\<close>

definition require_passphrase :: "host_params \<Rightarrow> string + string" where
  "require_passphrase params =
     (let passphrase = (case hp_passphrase params of Some p \<Rightarrow> p | None \<Rightarrow> []) in
      if passphrase = [] then Err ''params.passphrase is required'' else Ok passphrase)"

text \<open>The confirmation outside Windows, where the variable decides; on Windows a dialog asks.\<close>

definition confirm_send :: "string option \<Rightarrow> bool \<Rightarrow> string \<Rightarrow> string + unit" where
  "confirm_send env require_os_confirm summary =
     (if \<not> require_os_confirm then Ok ()
      else case env of
        Some v \<Rightarrow> reject_if (\<not> (v = ''1'' \<or> to_ascii_lowercase v = ''true'' \<or> to_ascii_lowercase v = ''yes''))
                   ''send/sign blocked: OS confirm enabled and VIREON_HOST_CONFIRM is not set''
      | None \<Rightarrow> Err ''send/sign blocked: OS confirm enabled and VIREON_HOST_CONFIRM is not set'')"

definition confirm_amount :: "host_params \<Rightarrow> string" where
  "confirm_amount params =
     (case hp_amount_vire params of
        Some s \<Rightarrow> s
      | None \<Rightarrow> (case hp_amount_atomic params of Some n \<Rightarrow> show_word n @ '' atomic'' | None \<Rightarrow> ''(missing amount)''))"

definition confirm_summary :: "externals \<Rightarrow> host_state \<Rightarrow> wallet_account \<Rightarrow> host_params \<Rightarrow> string" where
  "confirm_summary X st account params =
     ''Confirm Vireon transfer (Mainnet Candidate)'' @ [CHR 10, CHR 10] @ ''From: '' @ address_string X account
     @ [CHR 10] @ ''To: '' @ (case hp_to params of Some t \<Rightarrow> t | None \<Rightarrow> ''(missing to)'')
     @ [CHR 10] @ ''Amount: '' @ confirm_amount params @ [CHR 10] @ ''RPC: '' @ sc_rpc_base_url (hs_config st)
     @ [CHR 10, CHR 10] @ ''Press OK to sign/submit, Cancel to abort.''"

definition maybe_confirm_send :: "externals \<Rightarrow> 'v host_env \<Rightarrow> host_state \<Rightarrow> wallet_account \<Rightarrow> host_params \<Rightarrow> string + unit" where
  "maybe_confirm_send X E st account params =
     confirm_send (he_confirm E) (hs_require_os_confirm st) (confirm_summary X st account params)"

definition transfer_amount :: "host_params \<Rightarrow> string + amount" where
  "transfer_amount params =
     (case hp_amount_atomic params of
        Some n \<Rightarrow> Ok n
      | None \<Rightarrow> (case hp_amount_vire params of
                  Some v \<Rightarrow> map_err error_display (parse_vire v)
                | None \<Rightarrow> Err ''params.amount_atomic or params.amount_vire is required''))"

definition transfer_priority_fee :: "host_params \<Rightarrow> string + amount" where
  "transfer_priority_fee params =
     (case hp_priority_fee_atomic params of
        Some n \<Rightarrow> Ok n
      | None \<Rightarrow> (case hp_priority_fee_vire params of
                  Some v \<Rightarrow> map_err error_display (parse_vire v)
                | None \<Rightarrow> Ok 1))"

definition prepare_signed ::
  "externals \<Rightarrow> 'v host_env \<Rightarrow> host_state \<Rightarrow> wallet_account \<Rightarrow> host_params \<Rightarrow> string + signed_transfer" where
  "prepare_signed X E st account params =
     rbind (ok_or (hp_to params) ''params.to is required'') (\<lambda>to.
     rbind (transfer_amount params) (\<lambda>amt.
     rbind (transfer_priority_fee params) (\<lambda>priority_fee.
     rbind (map_err sdk_error_display (he_account E (address_string X account))) (\<lambda>snapshot.
     let base_fee = max (ar_anticipated_base_fee snapshot) 1 in
     rbind (map_err error_display (amount_checked_add amt base_fee)) (\<lambda>v.
     rbind (map_err error_display (amount_checked_add v priority_fee)) (\<lambda>required.
     rbind (reject_if (ar_balance snapshot < required)
              (''insufficient balance: have '' @ show_word (ar_balance snapshot) @ '' atomic, need at least ''
               @ show_word required @ '' atomic (amount+fees). 1 VIRE = '' @ show_word ATOMIC_UNITS_PER_VIRE @ '' atomic'')) (\<lambda>_.
     rbind (map_err sdk_error_display (builder_to X to (builder_new (sc_network (hs_config st))))) (\<lambda>b.
     rbind (map_err sdk_error_display (builder_amount amt b)) (\<lambda>b.
     rbind (map_err sdk_error_display (builder_fees base_fee priority_fee (builder_nonce (ar_next_nonce snapshot) b))) (\<lambda>b.
     map_err sdk_error_display (builder_sign X account b)))))))))))"

section \<open>The handlers\<close>

definition with_session ::
  "host_state \<Rightarrow> (wallet_account \<Rightarrow> string + 'v host_result) \<Rightarrow> string + 'v host_result" where
  "with_session st f =
     (case hs_session st of
        Some account \<Rightarrow> f account
      | None \<Rightarrow> Err ''session locked; call unlock or create_wallet first'')"

definition handle_create_wallet ::
  "externals \<Rightarrow> 'v host_env \<Rightarrow> host_params \<Rightarrow> host_state \<Rightarrow> (string + 'v host_result) \<times> host_state" where
  "handle_create_wallet X E params st =
     (case
        rbind (require_passphrase params) (\<lambda>passphrase.
        rbind (reject_if (hs_file st \<noteq> None) ''keystore already exists; unlock it or remove the file manually'') (\<lambda>_.
        rbind (map_err sdk_error_display (account_generate_with_path X (he_generate E) (sc_network (hs_config st)) Twelve
                 \<lparr>dp_account = 0, dp_change = 0, dp_address_index = 0\<rparr>)) (\<lambda>(account, _).
        rbind (create_encrypted_wallet X E (hs_keystore_dir st) (hs_file st) (sc_network (hs_config st)) passphrase account) (\<lambda>stored.
        Ok (account, stored)))))
      of
        Inl e \<Rightarrow> (Err e, st)
      | Inr (account, stored) \<Rightarrow>
          (Ok (CreatedResult (hw_address stored) (keystore_path (hs_keystore_dir st)) (address_string X account)),
           st\<lparr>hs_session := Some account, hs_file := Some stored\<rparr>))"

definition handle_change_passphrase ::
  "externals \<Rightarrow> 'v host_env \<Rightarrow> host_params \<Rightarrow> host_state \<Rightarrow> (string + 'v host_result) \<times> host_state" where
  "handle_change_passphrase X E params st =
     (let old = (case hp_old_passphrase params of Some p \<Rightarrow> p | None \<Rightarrow> []);
          new = (case hp_new_passphrase params of Some p \<Rightarrow> p | None \<Rightarrow> []) in
      if old = [] \<or> new = [] then (Err ''params.old_passphrase and params.new_passphrase are required'', st)
      else case change_passphrase X E (hs_keystore_dir st) (hs_file st) (sc_network (hs_config st)) old new of
        Inl e \<Rightarrow> (Err e, st)
      | Inr (view, stored) \<Rightarrow> (Ok (PassphraseChangedResult view), st\<lparr>hs_session := None, hs_file := Some stored\<rparr>))"

definition handle_delete_wallet ::
  "externals \<Rightarrow> 'v host_env \<Rightarrow> host_params \<Rightarrow> host_state \<Rightarrow> (string + 'v host_result) \<times> host_state" where
  "handle_delete_wallet X E params st =
     (case rbind (require_passphrase params)
             (delete_wallet X E (hs_keystore_dir st) (hs_file st) (sc_network (hs_config st))) of
        Inl e \<Rightarrow> (Err e, st)
      | Inr _ \<Rightarrow> (Ok DeletedResult, st\<lparr>hs_session := None, hs_file := None\<rparr>))"

definition handle_unlock ::
  "externals \<Rightarrow> 'v host_env \<Rightarrow> host_params \<Rightarrow> host_state \<Rightarrow> (string + 'v host_result) \<times> host_state" where
  "handle_unlock X E params st =
     (case rbind (require_passphrase params)
             (unlock_wallet X E (hs_keystore_dir st) (hs_file st) (sc_network (hs_config st))) of
        Inl e \<Rightarrow> (Err e, st)
      | Inr account \<Rightarrow> (Ok (UnlockedResult (address_string X account)), st\<lparr>hs_session := Some account\<rparr>))"

definition handle_create_session ::
  "externals \<Rightarrow> 'v host_env \<Rightarrow> host_state \<Rightarrow> (string + 'v host_result) \<times> host_state" where
  "handle_create_session X E st =
     (case account_generate_with_path X (he_generate E) (sc_network (hs_config st)) Twelve
             \<lparr>dp_account = 0, dp_change = 0, dp_address_index = 0\<rparr> of
        Inl e \<Rightarrow> (Err (sdk_error_display e), st)
      | Inr (account, _) \<Rightarrow> (Ok (SessionCreatedResult (address_string X account)), st\<lparr>hs_session := Some account\<rparr>))"

definition handle_prepare_and_sign ::
  "externals \<Rightarrow> 'v host_env \<Rightarrow> host_params \<Rightarrow> host_state \<Rightarrow> string + 'v host_result" where
  "handle_prepare_and_sign X E params st =
     with_session st (\<lambda>account.
       rbind (maybe_confirm_send X E st account params) (\<lambda>_.
       rbind (prepare_signed X E st account params) (\<lambda>signed.
       Ok (SignedResult (sg_tx_hash signed) (sg_transaction signed) (network_id (sc_network (hs_config st)))
             (status_label (sc_network (hs_config st)))))))"

definition handle_send ::
  "externals \<Rightarrow> 'v host_env \<Rightarrow> host_params \<Rightarrow> host_state \<Rightarrow> string + 'v host_result" where
  "handle_send X E params st =
     with_session st (\<lambda>account.
       rbind (maybe_confirm_send X E st account params) (\<lambda>_.
       rbind (prepare_signed X E st account params) (\<lambda>signed.
       rbind (map_err sdk_error_display (he_submit E (sg_transaction signed))) (\<lambda>response.
       Ok (SentResult (sg_tx_hash signed) response (network_id (sc_network (hs_config st)))
             (status_label (sc_network (hs_config st))))))))"

definition handle_submit :: "'v host_env \<Rightarrow> host_params \<Rightarrow> string + 'v host_result" where
  "handle_submit E params =
     rbind (ok_or (hp_transaction params) ''params.transaction is required'') (\<lambda>value.
     rbind value (\<lambda>tx.
     rbind (map_err sdk_error_display (he_submit E tx)) (\<lambda>response. Ok (SubmittedResult response))))"

definition read_hash :: "'v host_env \<Rightarrow> string \<Rightarrow> host_params \<Rightarrow> string + 'v host_result" where
  "read_hash E prefix params =
     (let hash = (case hp_hash params of Some h \<Rightarrow> h | None \<Rightarrow> []) in
      rbind (reject_if (hash = []) ''params.hash is required'') (\<lambda>_.
      rbind (map_err sdk_error_display (he_get E (prefix @ hash))) (\<lambda>v. Ok (RpcResult v))))"

definition handle_indexer_address ::
  "externals \<Rightarrow> 'v host_env \<Rightarrow> host_params \<Rightarrow> host_state \<Rightarrow> string + 'v host_result" where
  "handle_indexer_address X E params st =
     (case (case hp_address params of Some a \<Rightarrow> Some a | None \<Rightarrow> map_option (address_string X) (hs_session st)) of
        Some address \<Rightarrow>
          if address \<noteq> []
          then rbind (map_err sdk_error_display (he_get E (''/indexer/address/'' @ address))) (\<lambda>v. Ok (RpcResult v))
          else Err ''params.address is required (or unlock a session wallet)''
      | None \<Rightarrow> Err ''params.address is required (or unlock a session wallet)'')"

definition keystore_status :: "externals \<Rightarrow> host_state \<Rightarrow> 'v host_result" where
  "keystore_status X st =
     KeystoreStatusResult (hs_file st \<noteq> None) (keystore_path (hs_keystore_dir st)) (hs_session st \<noteq> None)
       (map_option (address_string X) (hs_session st))
       (map_option (\<lambda>w. (hw_address w, hw_network_id w, hw_status_label w)) (hs_file st))"

definition handle_method ::
  "externals \<Rightarrow> 'v host_env \<Rightarrow> host_method \<Rightarrow> host_params \<Rightarrow> host_state \<Rightarrow> (string + 'v host_result) \<times> host_state" where
  "handle_method X E m params st =
     (case m of
        MPing \<Rightarrow> (Ok PingResult, st)
      | MNetworkInfo \<Rightarrow>
          (Ok (NetworkInfoResult (network_id (sc_network (hs_config st))) (status_label (sc_network (hs_config st)))
                 (address_prefix (sc_network (hs_config st))) (sc_rpc_base_url (hs_config st))), st)
      | MKeystoreStatus \<Rightarrow> (Ok (keystore_status X st), st)
      | MSessionStatus \<Rightarrow>
          (Ok (SessionStatusResult (hs_session st \<noteq> None) (map_option (address_string X) (hs_session st)) (hs_file st \<noteq> None)), st)
      | MCreateWallet \<Rightarrow> handle_create_wallet X E params st
      | MExportPublic \<Rightarrow> (rbind (export_public (hs_keystore_dir st) (hs_file st)) (\<lambda>view. Ok (PublicResult view)), st)
      | MChangePassphrase \<Rightarrow> handle_change_passphrase X E params st
      | MDeleteWallet \<Rightarrow> handle_delete_wallet X E params st
      | MUnlock \<Rightarrow> handle_unlock X E params st
      | MLock \<Rightarrow> (Ok LockedResult, st\<lparr>hs_session := None\<rparr>)
      | MCreateSession \<Rightarrow> handle_create_session X E st
      | MClearSession \<Rightarrow> (Ok ClearedResult, st\<lparr>hs_session := None\<rparr>)
      | MRead path \<Rightarrow> (rbind (map_err sdk_error_display (he_get E path)) (\<lambda>v. Ok (RpcResult v)), st)
      | MBlockByHeight \<Rightarrow>
          (rbind (ok_or (hp_height params) ''params.height is required'') (\<lambda>h.
           rbind (map_err sdk_error_display (he_get E (''/blocks/'' @ show_word h))) (\<lambda>v. Ok (RpcResult v))), st)
      | MBlockByHash \<Rightarrow> (read_hash E ''/blocks/hash/'' params, st)
      | MRecentBlocks \<Rightarrow>
          (rbind (map_err sdk_error_display (recent_blocks (he_tip E) (\<lambda>h. he_get E (''/blocks/'' @ show_word h))
                    (unat (case hp_count params of Some c \<Rightarrow> c | None \<Rightarrow> 5)))) (\<lambda>bs. Ok (BlocksResult bs)), st)
      | MTransactionByHash \<Rightarrow> (read_hash E ''/transactions/'' params, st)
      | MIndexerAddress \<Rightarrow> (handle_indexer_address X E params st, st)
      | MBalance \<Rightarrow>
          (with_session st (\<lambda>account.
             rbind (map_err sdk_error_display (he_get E (''/addresses/'' @ address_string X account @ ''/balance'')))
               (\<lambda>v. Ok (RpcResult v))), st)
      | MAccount \<Rightarrow>
          (with_session st (\<lambda>account.
             rbind (map_err sdk_error_display (he_account E (address_string X account))) (\<lambda>v. Ok (AccountResult v))), st)
      | MPrepareAndSign \<Rightarrow> (handle_prepare_and_sign X E params st, st)
      | MSubmit \<Rightarrow> (handle_submit E params, st)
      | MSend \<Rightarrow> (handle_send X E params st, st))"

definition handle ::
  "externals \<Rightarrow> 'v host_env \<Rightarrow> string \<Rightarrow> host_params \<Rightarrow> host_state \<Rightarrow> (string + 'v host_result) \<times> host_state" where
  "handle X E name params st =
     (case method_of name of
        Some m \<Rightarrow> handle_method X E m params st
      | None \<Rightarrow> (Err (''unknown method: '' @ name), st))"

section \<open>Framing\<close>

text \<open>
  The JSON text is the body. \<open>Inr None\<close> is the end of the input; the rest of the stream is
  returned with a message.
\<close>

definition MAX_MESSAGE_BYTES :: nat where "MAX_MESSAGE_BYTES = 1024 * 1024"

definition le_value :: "bytes \<Rightarrow> nat" where
  "le_value bs = foldr (\<lambda>b n. unat b + 256 * n) bs 0"

definition read_message :: "bytes \<Rightarrow> string + (bytes \<times> bytes) option" where
  "read_message stream =
     (if length stream < 4 then Ok None
      else
        let len = le_value (take 4 stream); rest = drop 4 stream in
        if len = 0 then Ok None
        else
          rbind (reject_if (MAX_MESSAGE_BYTES < len)
                   (''native messaging payload too large: '' @ show_nat len @ '' bytes'')) (\<lambda>_.
          rbind (reject_if (length rest < len) ''failed to fill whole buffer'') (\<lambda>_.
          Ok (Some (take len rest, drop len rest)))))"

definition write_message :: "bytes \<Rightarrow> string + bytes" where
  "write_message body =
     rbind (reject_if (2 ^ 32 - 1 < length body) ''native messaging payload exceeds u32 length'') (\<lambda>_.
     Ok (le_bytes (word_of_nat (length body) :: u32) @ body))"

text \<open>The command line of the host; an \<open>--rpc\<close> at the end is ignored.\<close>

fun scan_args :: "string option \<Rightarrow> bool \<Rightarrow> string list \<Rightarrow> string option \<times> bool" where
  "scan_args rpc local [] = (rpc, local)"
| "scan_args rpc local (a # rest) =
     (if a = ''--rpc'' then (case rest of [] \<Rightarrow> (rpc, local) | url # others \<Rightarrow> scan_args (Some url) local others)
      else if a = ''--local'' then scan_args rpc True rest
      else scan_args rpc local rest)"

definition default_config_from_args :: "string list \<Rightarrow> sdk_config" where
  "default_config_from_args args =
     (case scan_args None False args of
        (Some url, _) \<Rightarrow> with_rpc MainnetCandidate url
      | (None, True) \<Rightarrow> sdk_mainnet_candidate_local
      | (None, False) \<Rightarrow> sdk_mainnet_candidate)"

end
