(* ===== verification/Vireon_Session.thy ===== *)
theory Vireon_Session
  imports
    Vireon_Host
begin

text \<open>
  What the browser host guarantees: it signs only for the account of its open session and only
  when the confirmation allows it; a created or re-encrypted keystore is unlocked to the same
  account; what the confirmation shows and what is signed; a transfer it prepares from the
  gateway's answer extends the pool; and what its frames give back.
\<close>

section \<open>The keystore\<close>

definition account_for :: "externals \<Rightarrow> network \<Rightarrow> wallet_account \<Rightarrow> bool" where
  "account_for X n a \<longleftrightarrow> wa_network a = n
     \<and> wa_address a = address_from_public_key (private_key_public_key X (wa_private_key a)) n"

lemma host_decrypt_encrypted:
  assumes "wallet_crypto_laws W" and "length nonce = 12" and "host_encrypt_secret W salt nonce pass text = Ok secret"
  shows "host_decrypt_secret W pass secret = Ok text"
  using assms by (auto simp: host_encrypt_secret_def host_decrypt_secret_def wallet_crypto_laws_def rbind_Ok)

lemma key_from_hex_length:
  assumes "private_key_from_hex hex = Ok key"
  shows "length (sk_bytes key) = 32"
proof -
  have pairs: "decode_hex_pairs nib bs = Ok out \<Longrightarrow> length out = length bs div 2" for nib :: "u8 \<Rightarrow> u8 result" and bs out
    by (induction nib bs arbitrary: out rule: decode_hex_pairs.induct) (auto simp: rbind_Ok)
  from assms obtain bs where "decode_hex_pairs signing_decode_hex_nibble (str_bytes (trim hex)) = Ok bs"
    "length (trim hex) = 64" "key = PrivateKey bs"
    by (auto simp: private_key_from_hex_def parse_hex_array_def Let_def rbind_Ok split: if_splits)
  with pairs [of signing_decode_hex_nibble "str_bytes (trim hex)" bs] show ?thesis by simp
qed

text \<open>HMAC-SHA-512 has 64 bytes.\<close>

definition hmac_64 :: "externals \<Rightarrow> bool" where
  "hmac_64 X \<longleftrightarrow> (\<forall>k d v. hmac_sha512 X k d = Ok v \<longrightarrow> length v = 64)"

lemma mnemonic_key_length:
  assumes "hmac_64 X" and "derive_private_key_from_mnemonic X phrase pass path = Ok key"
  shows "length (sk_bytes key) = 32"
proof -
  have node: "length (dn_key m) = 32" if "derive_node X k d = Ok m" for k d m
    using assms(1) that by (auto simp: derive_node_def hmac_64_def rbind_Ok)
  have fold: "length (dn_key m) = 32 \<Longrightarrow> try_fold (derive_child_node X) m segs = Ok m' \<Longrightarrow> length (dn_key m') = 32" for m m' segs
    by (induction segs arbitrary: m) (auto simp: rbind_Ok derive_child_node_def dest: node)
  from assms(2) obtain seed master segs m' where "derive_master_node X seed = Ok master"
    "try_fold (derive_child_node X) master segs = Ok m'" "key = PrivateKey (dn_key m')"
    by (auto simp: derive_private_key_from_mnemonic_def rbind_Ok)
  moreover from this(1) have "length (dn_key master) = 32" unfolding derive_master_node_def by (rule node)
  ultimately show ?thesis using fold by (metis private_key.sel)
qed

lemma stored_unlocks:
  assumes "bech32_laws X" and "ed25519_laws X" and "wallet_crypto_laws (he_crypto E)" and "length (he_nonce E) = 12"
    and "length (sk_bytes (wa_private_key a)) = 32" and "account_for X n a"
    and "stored_from_account X E n pass a = Ok stored" and "he_crypto E' = he_crypto E"
  shows "unlock_wallet X E' dir (Some stored) n pass = Ok a"
proof -
  let ?hex = "private_key_to_hex (wa_private_key a)"
  obtain secret where s: "host_encrypt_secret (he_crypto E) (he_salt E) (he_nonce E) pass (str_bytes ?hex) = Ok secret"
    "hw_encrypted stored = secret" "hw_network_id stored = network_id n" "hw_address stored = address_string X a"
    "hw_derivation_path stored = wa_derivation_path a"
    using assms(7) by (auto simp: stored_from_account_def rbind_Ok)
  have d: "host_decrypt_secret (he_crypto E') pass secret = Ok (str_bytes ?hex)"
    using host_decrypt_encrypted [OF assms(3,4) s(1)] assms(8) by simp
  have u: "from_utf8 (str_bytes ?hex) = Some ?hex"
    using hex_ascii by (intro from_utf8_ascii) (auto simp: private_key_to_hex_def)
  have "account_from_private_key X n (wa_private_key a) (wa_derivation_path a) = Ok a"
    using assms(6) by (cases a) (simp add: account_from_private_key_def account_for_def)
  moreover have "address_parse X (address_string X a) = Ok (wa_address a)"
    using assms(2,6) unfolding address_string_def
    by (intro address_parse_to_string [OF assms(1)])
      (auto simp: account_for_def address_wf_def address_from_public_key_def private_key_public_key_def ed25519_laws_def
        ADDRESS_PAYLOAD_SIZE_def)
  ultimately show ?thesis using s d u private_key_hex [OF assms(5)]
    by (simp add: unlock_wallet_def load_stored_def)
qed

lemma unlock_account:
  assumes "unlock_wallet X E dir content n pass = Ok a"
  shows "account_for X n a" and "length (sk_bytes (wa_private_key a)) = 32" and "content \<noteq> None"
  using assms key_from_hex_length
  by (auto simp: unlock_wallet_def load_stored_def rbind_Ok account_from_private_key_def account_for_def)

lemma generated_account:
  assumes "account_generate_with_path X gen n words path = Ok (a, m)"
  shows "account_for X n a" and "hmac_64 X \<Longrightarrow> length (sk_bytes (wa_private_key a)) = 32"
  using assms mnemonic_key_length [of X]
  by (auto simp: account_generate_with_path_def account_from_mnemonic_def account_from_private_key_def account_for_def rbind_Ok)

section \<open>The session\<close>

definition host_ok :: "externals \<Rightarrow> host_state \<Rightarrow> bool" where
  "host_ok X st \<longleftrightarrow> (\<forall>a. hs_session st = Some a \<longrightarrow> account_for X (sc_network (hs_config st)) a)"

text \<open>
  States of a host that was started with a configuration, whatever it is asked, when its surroundings
  are among the given ones.
\<close>

inductive host_reach :: "externals \<Rightarrow> sdk_config \<Rightarrow> 'v host_env set \<Rightarrow> host_state \<Rightarrow> bool" for X config envs where
  start: "host_reach X config envs (host_new config dir confirm content)"
| ask: "host_reach X config envs st \<Longrightarrow> E \<in> envs \<Longrightarrow> host_reach X config envs (snd (handle X E name params st))"

lemma handle_method_keeps:
  assumes "host_ok X st"
  shows "host_ok X (snd (handle_method X E m params st)) \<and> hs_config (snd (handle_method X E m params st)) = hs_config st"
proof (cases m)
  case MCreateWallet
  have "host_ok X (snd (handle_create_wallet X E params st)) \<and> hs_config (snd (handle_create_wallet X E params st)) = hs_config st"
    using assms by (auto simp: handle_create_wallet_def host_ok_def rbind_Ok dest: generated_account(1) split: sum.split prod.split)
  with MCreateWallet show ?thesis by (simp add: handle_method_def)
next
  case MUnlock
  have "host_ok X (snd (handle_unlock X E params st)) \<and> hs_config (snd (handle_unlock X E params st)) = hs_config st"
    using assms by (auto simp: handle_unlock_def host_ok_def rbind_Ok dest: unlock_account(1) split: sum.split)
  with MUnlock show ?thesis by (simp add: handle_method_def)
next
  case MCreateSession
  have "host_ok X (snd (handle_create_session X E st)) \<and> hs_config (snd (handle_create_session X E st)) = hs_config st"
    using assms by (auto simp: handle_create_session_def host_ok_def dest: generated_account(1) split: sum.split prod.split)
  with MCreateSession show ?thesis by (simp add: handle_method_def)
next
  case MChangePassphrase
  then show ?thesis using assms
    by (auto simp: handle_method_def handle_change_passphrase_def host_ok_def Let_def split: sum.split prod.split)
next
  case MDeleteWallet
  then show ?thesis using assms by (auto simp: handle_method_def handle_delete_wallet_def host_ok_def split: sum.split)
qed (insert assms, simp_all add: handle_method_def host_ok_def)

lemma host_reach_ok: "host_reach X config envs st \<Longrightarrow> host_ok X st \<and> hs_config st = config"
proof (induction rule: host_reach.induct)
  case (start dir confirm content)
  show ?case by (simp add: host_ok_def host_new_def)
next
  case (ask st E name params)
  then show ?case using handle_method_keeps [of X st E _ params] by (auto simp: handle_def split: option.split)
qed

section \<open>Prepared transfers\<close>

lemma prepare_signed_Ok:
  assumes "prepare_signed X E st a params = Ok out"
  obtains to amt prio snapshot address max_fee v required where
    "hp_to params = Some to" "transfer_amount params = Ok amt" "transfer_priority_fee params = Ok prio"
    "he_account E (address_string X a) = Ok snapshot" "address_parse X to = Ok address"
    "addr_network address = sc_network (hs_config st)" "amt \<noteq> 0" "wa_network a = sc_network (hs_config st)"
    "amount_checked_add amt (max (ar_anticipated_base_fee snapshot) 1) = Ok v" "amount_checked_add v prio = Ok required"
    "required \<le> ar_balance snapshot"
    "amount_checked_add (max (ar_anticipated_base_fee snapshot) 1) prio = Ok max_fee"
    "tx_new_signed X 1 (ar_next_nonce snapshot) (sc_network (hs_config st)) (wa_private_key a) (address_to_string X address)
       amt max_fee prio None = Ok (sg_transaction out)"
    "tx_verify X (sg_transaction out) = Ok ()" "sg_tx_hash out = tx_hash_string X (sg_transaction out)"
  using assms unfolding prepare_signed_def Let_def
  by (auto simp: rbind_Ok builder_to_def builder_amount_def builder_fees_def builder_nonce_def builder_new_def
      builder_sign_Ok tx_hash_string_def not_less)

text \<open>What stands behind a signature of the host.\<close>

definition host_authorised :: "externals \<Rightarrow> 'v host_env \<Rightarrow> host_state \<Rightarrow> string \<Rightarrow> transaction \<Rightarrow> bool" where
  "host_authorised X E st h tx \<longleftrightarrow>
     (\<exists>a snapshot. hs_session st = Some a \<and> (hs_require_os_confirm st \<longrightarrow> confirm_send (he_confirm E) True [] = Ok ())
        \<and> tx_verify X tx = Ok () \<and> h = tx_hash_string X tx \<and> tx_from tx = Some (address_string X a)
        \<and> he_account E (address_string X a) = Ok snapshot \<and> tx_nonce tx = ar_next_nonce snapshot
        \<and> unat (tx_amount tx) + unat (tx_max_fee tx) \<le> unat (ar_balance snapshot))"

lemma prepared_authorised:
  assumes "host_ok X st" and "hs_session st = Some a" and "maybe_confirm_send X E st a params = Ok ()"
    and "prepare_signed X E st a params = Ok out"
  shows "host_authorised X E st (sg_tx_hash out) (sg_transaction out)"
proof -
  obtain amt prio snapshot address max_fee v required where p:
    "he_account E (address_string X a) = Ok snapshot"
    "amount_checked_add amt (max (ar_anticipated_base_fee snapshot) 1) = Ok v" "amount_checked_add v prio = Ok required"
    "required \<le> ar_balance snapshot" "amount_checked_add (max (ar_anticipated_base_fee snapshot) 1) prio = Ok max_fee"
    "tx_new_signed X 1 (ar_next_nonce snapshot) (sc_network (hs_config st)) (wa_private_key a) (address_to_string X address)
       amt max_fee prio None = Ok (sg_transaction out)"
    "tx_verify X (sg_transaction out) = Ok ()" "sg_tx_hash out = tx_hash_string X (sg_transaction out)"
    using assms(4) by (rule prepare_signed_Ok) metis
  note f = tx_new_signed_fields [OF p(6)]
  have "account_for X (sc_network (hs_config st)) a" using assms(1,2) by (simp add: host_ok_def)
  then have "tx_from (sg_transaction out) = Some (address_string X a)"
    using f(1) by (simp add: account_for_def address_string_def)
  moreover have "unat amt + unat max_fee \<le> unat (ar_balance snapshot)"
    using p(2-5) by (simp add: amount_add_Ok word_le_nat_alt)
  moreover have "confirm_send (he_confirm E) True [] = Ok ()" if "hs_require_os_confirm st"
    using assms(3) that by (auto simp: maybe_confirm_send_def confirm_send_def split: option.splits)
  ultimately show ?thesis using assms(2) p(1,7,8) f(3,4,5) by (auto simp: host_authorised_def)
qed

lemmas handler_answers =
  handle_method_def handle_create_wallet_def handle_change_passphrase_def handle_delete_wallet_def handle_unlock_def
  handle_create_session_def handle_submit_def read_hash_def handle_indexer_address_def keystore_status_def with_session_def
  rbind_Ok Let_def

lemma signed_by_method:
  "fst (handle_method X E m params st) = Ok (SignedResult h tx nid lbl) \<Longrightarrow> m = MPrepareAndSign"
  by (cases m) (auto simp: handler_answers handle_send_def split: sum.splits prod.splits option.splits if_splits)

lemma sent_by_method:
  "fst (handle_method X E m params st) = Ok (SentResult h response nid lbl) \<Longrightarrow> m = MSend"
  by (cases m) (auto simp: handler_answers handle_prepare_and_sign_def split: sum.splits prod.splits option.splits if_splits)

lemma next_base_fee_pos: "1 \<le> next_base_fee p"
proof (cases p)
  case None
  then show ?thesis by (simp add: next_base_fee_def initial_base_fee_def core_constants)
next
  case (Some b)
  have "unat (max x 1) \<le> unat (saturating_add (max x 1) y)" for x y :: u64
    using unat_u64_less [of "max x 1"] by (simp add: unat_saturating_add)
  moreover have "1 \<le> unat (max x (1 :: u64))" for x by (simp add: max_def word_le_nat_alt)
  ultimately have "1 \<le> saturating_add (max x 1) y" for x y :: u64 by (metis le_trans unat_1 word_le_nat_alt)
  with Some show ?thesis
    by (simp add: next_base_fee_def next_base_fee_from_block_def Let_def MIN_BASE_FEE_ATOMIC_def)
qed

section \<open>Frames\<close>

lemma le_value_nat_le_bytes: "le_value (nat_le_bytes k x) = x mod 256 ^ k"
proof (induction k arbitrary: x)
  case (Suc k)
  have "unat (word_of_nat (x mod 256) :: u8) = x mod 256" by (simp add: unat_of_nat)
  moreover have "x mod (256 * 256 ^ k) = 256 * (x div 256 mod 256 ^ k) + x mod 256" by (rule mod_mult2_eq)
  ultimately show ?case using Suc by (simp add: le_value_def)
qed (simp add: le_value_def)

lemma le_value_u32: "le_value (le_bytes (w :: u32)) = unat w"
proof -
  have "unat w < 2 ^ 32" using unsigned_less [of w] by simp
  then show ?thesis by (simp add: le_bytes_def le_value_nat_le_bytes)
qed

section \<open>A sample host\<close>

definition sample_snapshot :: address_account_response where
  "sample_snapshot = make_address_account_response sample_externals sample_chain (sample_address 1) [] 1"

definition sample_host_env :: "unit host_env" where
  "sample_host_env =
     \<lparr>he_crypto = sample_wallet_crypto, he_salt = replicate 16 0, he_nonce = replicate 12 0, he_generate = (\<lambda>_. Ok ''words''),
      he_confirm = Some ''1'', he_get = (\<lambda>_. Err (SdkRpc [])), he_tip = Err (SdkRpc []),
      he_account = (\<lambda>_. Ok sample_snapshot), he_submit = (\<lambda>_. Err (SdkRpc []))\<rparr>"

definition sample_account :: wallet_account where
  "sample_account =
     \<lparr>wa_network = Devnet, wa_private_key = sample_key,
      wa_address = address_from_public_key (private_key_public_key sample_externals sample_key) Devnet, wa_derivation_path = None\<rparr>"

definition no_params :: host_params where
  "no_params = \<lparr>hp_passphrase = None, hp_old_passphrase = None, hp_new_passphrase = None, hp_to = None,
     hp_amount_atomic = None, hp_amount_vire = None, hp_priority_fee_atomic = None, hp_priority_fee_vire = None,
     hp_height = None, hp_hash = None, hp_count = None, hp_address = None, hp_transaction = None\<rparr>"

definition sample_params :: host_params where
  "sample_params = no_params\<lparr>hp_passphrase := Some ''pass-1234'', hp_to := Some (sample_address 2), hp_amount_atomic := Some 5,
     hp_amount_vire := Some ''0.00000001'', hp_priority_fee_atomic := Some 19\<rparr>"

definition sample_config :: sdk_config where
  "sample_config = with_rpc Devnet ''http://127.0.0.1:10787/''"

lemma sample_account_address: "address_string sample_externals sample_account = sample_address 1"
  by (simp add: address_string_def sample_account_def sample_public_key sample_address_def)

lemma sample_account_for: "account_for sample_externals Devnet sample_account"
  by (simp add: account_for_def sample_account_def)

definition sample_host :: "stored_host_wallet option \<Rightarrow> host_state" where
  "sample_host content = (host_new sample_config ''dir'' True content)\<lparr>hs_session := Some sample_account\<rparr>"

lemma sample_prepares:
  "\<exists>out. prepare_signed sample_externals sample_host_env (sample_host content) sample_account sample_params = Ok out
     \<and> sg_transaction out = sample_spend 1 5 19"
proof -
  have net: "sc_network (hs_config (sample_host content)) = Devnet"
    by (simp add: sample_host_def host_new_def sample_config_def with_rpc_def)
  have snap: "ar_next_nonce sample_snapshot = 1" "ar_anticipated_base_fee sample_snapshot = 1"
    "ar_balance sample_snapshot = 1902587519"
    by (simp_all add: sample_snapshot_def make_address_account_response_def Let_def sample_chain_def sample_ledger_view)
  have to: "builder_to sample_externals (sample_address 2) (builder_new Devnet)
      = Ok ((builder_new Devnet)\<lparr>tb_to := Some (sample_address 2)\<rparr>)"
    by (simp add: builder_to_def sample_address_parse builder_new_def address_from_public_key_def [of _ Devnet])
      (simp add: sample_address_def address_from_public_key_def)
  have t: "tx_new_signed sample_externals 1 1 Devnet sample_key (sample_address 2) 5 20 19 None = Ok (sample_spend 1 5 19)"
    using sample_signed_eq [of 5 19 1] by (simp add: sample_signed_def)
  have v: "tx_verify sample_externals (sample_spend 1 5 19) = Ok ()" using sample_spend_verify [of 5 19 1] by simp
  have add: "amount_checked_add 5 1 = Ok 6" "amount_checked_add 6 19 = Ok 25" "amount_checked_add 1 19 = Ok 20"
    by (simp_all add: amount_checked_add_def checked_add_def)
  have key: "wa_private_key sample_account = sample_key" "wa_network sample_account = Devnet" by (simp_all add: sample_account_def)
  have par: "hp_to sample_params = Some (sample_address 2)" "hp_amount_atomic sample_params = Some 5"
    "hp_priority_fee_atomic sample_params = Some 19" by (simp_all add: sample_params_def no_params_def)
  let ?b = "(builder_new Devnet)\<lparr>tb_to := Some (sample_address 2), tb_amount := Some 5, tb_nonce := Some 1,
    tb_priority_fee := 19, tb_max_fee := Some 20\<rparr>"
  have sign: "\<exists>out. builder_sign sample_externals sample_account ?b = Ok out \<and> sg_transaction out = sample_spend 1 5 19"
    by (simp add: builder_sign_def ensure_network_def key builder_new_def t v)
  have acc: "he_account sample_host_env x = Ok sample_snapshot" for x by (simp add: sample_host_env_def)
  have "\<not> (1902587519 :: u64) < 25" "max (1 :: u64) 1 = 1" by simp_all
  with sign show ?thesis
    by (auto simp: prepare_signed_def par transfer_amount_def transfer_priority_fee_def acc snap add net to
        builder_amount_def builder_fees_def builder_nonce_def Let_def)
qed

lemma sample_host_laws: "wallet_crypto_laws (he_crypto sample_host_env)" "length (he_nonce sample_host_env) = 12"
  using sample_wallet_laws by (simp_all add: sample_host_env_def sample_wallet_env_def)

lemma sample_stores:
  assumes "8 \<le> length (trim pass)"
  shows "\<exists>stored. stored_from_account sample_externals sample_host_env n pass a = Ok stored"
  using assms by (simp add: stored_from_account_def validate_passphrase_def host_encrypt_secret_def host_derive_key_def
      sample_host_env_def sample_wallet_crypto_def not_less)

lemma sample_passphrases: "8 \<le> length (trim ''pass-1234'')" "8 \<le> length (trim ''pass-5678'')"
  by code_simp+

lemma sample_unlocks:
  assumes "stored_from_account sample_externals sample_host_env Devnet pass sample_account = Ok stored"
  shows "unlock_wallet sample_externals sample_host_env dir (Some stored) Devnet pass = Ok sample_account"
  by (rule stored_unlocks [OF sample_bech32_laws sample_ed25519_laws sample_host_laws _ sample_account_for assms refl])
    (simp add: sample_account_def sample_key_def)

lemma sample_host_reached: "\<exists>content. host_reach sample_externals sample_config {sample_host_env} (sample_host content)"
proof -
  obtain stored where s: "stored_from_account sample_externals sample_host_env Devnet ''pass-1234'' sample_account = Ok stored"
    using sample_stores sample_passphrases by blast
  let ?st = "host_new sample_config ''dir'' True (Some stored)"
  have m: "method_of ''unlock'' = Some MUnlock" by code_simp
  have "hs_file ?st = Some stored" "sc_network (hs_config ?st) = Devnet"
    by (simp_all add: host_new_def sample_config_def with_rpc_def)
  then have "snd (handle sample_externals sample_host_env ''unlock'' sample_params ?st) = sample_host (Some stored)"
    using sample_unlocks [OF s]
    by (simp add: handle_def m handle_method_def handle_unlock_def require_passphrase_def sample_params_def sample_host_def)
  then show ?thesis using host_reach.ask [OF host_reach.start, of sample_host_env "{sample_host_env}"] by (metis singletonI)
qed

lemma sample_creates:
  "\<exists>r st1. handle_create_wallet sample_externals sample_host_env sample_params (host_new sample_config ''dir'' True None) = (Ok r, st1)"
proof -
  have p: "require_passphrase sample_params = Ok ''pass-1234''" by (simp add: require_passphrase_def sample_params_def)
  let ?path = "\<lparr>dp_account = 0, dp_change = 0, dp_address_index = 0\<rparr>"
  have node: "\<exists>m. derive_node sample_externals k d = Ok m" for k d by (simp add: derive_node_def sample_externals_def)
  have fold: "\<exists>m'. try_fold (derive_child_node sample_externals) m segs = Ok m'" for m segs
  proof (induction segs arbitrary: m)
    case (Cons seg segs)
    obtain m1 where "derive_child_node sample_externals m seg = Ok m1" using node by (metis derive_child_node_def)
    with Cons show ?case by simp
  qed simp
  have "is_ok (hardened_segments ?path)" by code_simp
  then obtain segs where segs: "hardened_segments ?path = Ok segs" by (auto simp: is_ok_iff)
  obtain seed where seed: "rbind (map_err InvalidMnemonic (bip39_parse sample_externals ''words''))
      (\<lambda>m. derive_master_node sample_externals (bip39_seed sample_externals m [])) = Ok seed"
    using node by (auto simp: derive_master_node_def sample_externals_def)
  have "\<exists>key. derive_private_key_from_mnemonic sample_externals ''words'' [] ?path = Ok key"
    using seed segs fold [of seed segs] by (auto simp: derive_private_key_from_mnemonic_def rbind_Ok)
  then obtain a words where "account_generate_with_path sample_externals (he_generate sample_host_env) Devnet Twelve ?path = Ok (a, words)"
    by (auto simp: account_generate_with_path_def account_from_mnemonic_def account_from_private_key_def sample_host_env_def)
  moreover obtain stored where "stored_from_account sample_externals sample_host_env Devnet ''pass-1234'' a = Ok stored"
    using sample_stores sample_passphrases by blast
  ultimately show ?thesis
    by (simp add: handle_create_wallet_def p create_encrypted_wallet_def host_new_def sample_config_def with_rpc_def)
qed

lemma sample_changes:
  "\<exists>content r st1. handle_change_passphrase sample_externals sample_host_env
       (sample_params\<lparr>hp_old_passphrase := Some ''pass-1234'', hp_new_passphrase := Some ''pass-5678''\<rparr>) (sample_host (Some content))
         = (Ok r, st1)
     \<and> unlock_wallet sample_externals sample_host_env ''dir'' (Some content) Devnet ''pass-1234'' = Ok sample_account"
proof -
  obtain stored where s: "stored_from_account sample_externals sample_host_env Devnet ''pass-1234'' sample_account = Ok stored"
    using sample_stores sample_passphrases by blast
  obtain stored' where s': "stored_from_account sample_externals sample_host_env Devnet ''pass-5678'' sample_account = Ok stored'"
    using sample_stores sample_passphrases by blast
  have "validate_passphrase ''pass-5678'' = Ok ()" using sample_passphrases(2) by (simp add: validate_passphrase_def not_less)
  with s s' sample_unlocks [OF s, of "''dir''"] show ?thesis
    by (intro exI [of _ stored]) (simp add: handle_change_passphrase_def change_passphrase_def sample_host_def host_new_def
        sample_config_def with_rpc_def Let_def)
qed

section \<open>Properties\<close>



text \<open>
  C22: A keystore gives its account back: after \<open>create_wallet\<close> the host is unlocked, and once it is
  locked, \<open>unlock\<close> with the same passphrase restores exactly this state.
\<close>

theorem host_wallet_survives:
  assumes "bech32_laws X" and "ed25519_laws X" and "hmac_64 X" and "wallet_crypto_laws (he_crypto E)"
    and "length (he_nonce E) = 12" and "he_crypto E' = he_crypto E"
    and "handle_create_wallet X E params st = (Ok r, st1)"
  shows "\<exists>a. hs_session st1 = Some a
     \<and> handle_unlock X E' params (st1\<lparr>hs_session := None\<rparr>) = (Ok (UnlockedResult (address_string X a)), st1)"
proof -
  let ?n = "sc_network (hs_config st)"
  obtain pass a words stored where g: "require_passphrase params = Ok pass"
    "account_generate_with_path X (he_generate E) ?n Twelve \<lparr>dp_account = 0, dp_change = 0, dp_address_index = 0\<rparr> = Ok (a, words)"
    "stored_from_account X E ?n pass a = Ok stored" "st1 = st\<lparr>hs_session := Some a, hs_file := Some stored\<rparr>"
    using assms(7) by (auto simp: handle_create_wallet_def create_encrypted_wallet_def rbind_Ok split: sum.splits prod.splits)
  have "unlock_wallet X E' (hs_keystore_dir st) (Some stored) ?n pass = Ok a"
    using stored_unlocks [OF assms(1,2,4,5) _ _ g(3) assms(6)] generated_account [OF g(2)] assms(3) by blast
  then show ?thesis using g(1,4) by (simp add: handle_unlock_def)
qed

theorem host_wallet_survives_witness:
  "\<exists>r st1 a. handle_create_wallet sample_externals sample_host_env sample_params (host_new sample_config ''dir'' True None) = (Ok r, st1)
     \<and> handle_unlock sample_externals sample_host_env sample_params (st1\<lparr>hs_session := None\<rparr>)
         = (Ok (UnlockedResult (address_string sample_externals a)), st1)"
proof -
  obtain r st1 where c: "handle_create_wallet sample_externals sample_host_env sample_params
      (host_new sample_config ''dir'' True None) = (Ok r, st1)" using sample_creates by blast
  have "hmac_64 sample_externals" by (auto simp: hmac_64_def sample_externals_def zero_fit_def)
  from host_wallet_survives [OF sample_bech32_laws sample_ed25519_laws this sample_host_laws refl c] c show ?thesis by blast
qed

text \<open>
  Changing the passphrase keeps the key: the host is locked afterwards, and \<open>unlock\<close> with the
  new passphrase opens the account that the old one opened.
\<close>

theorem host_passphrase_change:
  assumes "bech32_laws X" and "ed25519_laws X" and "wallet_crypto_laws (he_crypto E)"
    and "length (he_nonce E) = 12" and "he_crypto E' = he_crypto E"
    and "handle_change_passphrase X E params st = (Ok r, st1)" and "hp_passphrase params' = hp_new_passphrase params"
  shows "\<exists>old a. hp_old_passphrase params = Some old
     \<and> unlock_wallet X E (hs_keystore_dir st) (hs_file st) (sc_network (hs_config st)) old = Ok a
     \<and> hs_session st1 = None
     \<and> handle_unlock X E' params' st1 = (Ok (UnlockedResult (address_string X a)), st1\<lparr>hs_session := Some a\<rparr>)"
proof -
  let ?n = "sc_network (hs_config st)"
  obtain old new a stored where g: "hp_old_passphrase params = Some old" "hp_new_passphrase params = Some new" "new \<noteq> []"
    "unlock_wallet X E (hs_keystore_dir st) (hs_file st) ?n old = Ok a" "stored_from_account X E ?n new a = Ok stored"
    "st1 = st\<lparr>hs_session := None, hs_file := Some stored\<rparr>"
    using assms(6) by (auto simp: handle_change_passphrase_def change_passphrase_def rbind_Ok Let_def
        split: sum.splits prod.splits if_splits option.splits)
  have "unlock_wallet X E' (hs_keystore_dir st) (Some stored) ?n new = Ok a"
    using stored_unlocks [OF assms(1-4) _ _ g(5) assms(5)] unlock_account [OF g(4)] by blast
  then show ?thesis using g assms(7) by (simp add: handle_unlock_def require_passphrase_def)
qed

theorem host_passphrase_change_witness:
  "\<exists>content r st1. handle_change_passphrase sample_externals sample_host_env
       (sample_params\<lparr>hp_old_passphrase := Some ''pass-1234'', hp_new_passphrase := Some ''pass-5678''\<rparr>) (sample_host (Some content))
         = (Ok r, st1)
     \<and> hs_session st1 = None
     \<and> fst (handle_unlock sample_externals sample_host_env (sample_params\<lparr>hp_passphrase := Some ''pass-5678''\<rparr>) st1)
         = Ok (UnlockedResult (sample_address 1))"
proof -
  obtain content r st1 where c: "handle_change_passphrase sample_externals sample_host_env
      (sample_params\<lparr>hp_old_passphrase := Some ''pass-1234'', hp_new_passphrase := Some ''pass-5678''\<rparr>) (sample_host (Some content))
        = (Ok r, st1)"
    "unlock_wallet sample_externals sample_host_env ''dir'' (Some content) Devnet ''pass-1234'' = Ok sample_account"
    using sample_changes by blast
  have n: "sc_network (hs_config (sample_host (Some content))) = Devnet" "hs_keystore_dir (sample_host (Some content)) = ''dir''"
    "hs_file (sample_host (Some content)) = Some content"
    by (simp_all add: sample_host_def host_new_def sample_config_def with_rpc_def)
  from host_passphrase_change [OF sample_bech32_laws sample_ed25519_laws sample_host_laws refl c(1),
      of "sample_params\<lparr>hp_passphrase := Some ''pass-5678''\<rparr>"] c(2) n
  have "hs_session st1 = None" "fst (handle_unlock sample_externals sample_host_env (sample_params\<lparr>hp_passphrase := Some ''pass-5678''\<rparr>) st1)
      = Ok (UnlockedResult (sample_address 1))" by (auto simp: sample_account_address)
  with c(1) show ?thesis by blast
qed

text \<open>
  C31: What the confirmation shows and what is signed. When a request names its amount once, the
  text shown is that amount. When it names both \<open>amount_vire\<close> and \<open>amount_atomic\<close>, the
  confirmation shows the first and the second is signed, whatever the two are.
\<close>

theorem confirmed_amount:
  assumes "prepare_signed X E st a params = Ok out"
  shows "case (hp_amount_atomic params, hp_amount_vire params) of
      (Some n, Some v) \<Rightarrow> tx_amount (sg_transaction out) = n \<and> confirm_amount params = v
    | (Some n, None) \<Rightarrow> tx_amount (sg_transaction out) = n \<and> confirm_amount params = show_word n @ '' atomic''
    | (None, Some v) \<Rightarrow> parse_vire v = Ok (tx_amount (sg_transaction out)) \<and> confirm_amount params = v
    | (None, None) \<Rightarrow> False"
proof -
  obtain amt where "transfer_amount params = Ok amt" "tx_amount (sg_transaction out) = amt"
    using assms by (rule prepare_signed_Ok) (metis tx_new_signed_fields(4))
  then show ?thesis by (auto simp: transfer_amount_def confirm_amount_def split: option.splits)
qed

theorem confirmed_amount_witness:
  "\<exists>out. prepare_signed sample_externals sample_host_env (sample_host None) sample_account sample_params = Ok out
     \<and> tx_amount (sg_transaction out) = 5 \<and> confirm_amount sample_params = ''0.00000001''
     \<and> parse_vire ''0.00000001'' = Ok 1"
proof -
  obtain out where out: "prepare_signed sample_externals sample_host_env (sample_host None) sample_account sample_params = Ok out"
    using sample_prepares by blast
  have "hp_amount_atomic sample_params = Some 5" "hp_amount_vire sample_params = Some ''0.00000001''"
    by (simp_all add: sample_params_def no_params_def)
  moreover have "parse_vire ''0.00000001'' = Ok 1" by code_simp
  ultimately show ?thesis using confirmed_amount [OF out] out by auto
qed

text \<open>
  C14: A transfer that the host prepares fits the pool of the node. When its snapshot is the answer
  of the gateway for a pool that applies in order after the stored chain, the transfer appended to
  this pool still applies in order, if the balance that the pool leaves covers it and its hash is new.
\<close>

theorem host_transfer_extends_pool:
  assumes "account_for X (sc_network (hs_config st)) a" and "prepare_signed X E st a params = Ok out"
    and "he_account E (address_string X a) = Ok snapshot"
    and "fst (address_account X clk cfg d (address_string X a) reader) = Ok snapshot"
    and "fst (load_chain X clk cfg d reader) = Ok loaded" and "chain_loaded_from X cfg d loaded"
    and "pool_ready X (lc_chain loaded) (dk_pending d) s"
    and "unat (tx_amount (sg_transaction out)) + unat (tx_max_fee (sg_transaction out)) \<le> unat (balance_of s (address_string X a))"
    and "sg_tx_hash out \<notin> ls_applied_hashes s \<union> pr_tx_hash ` set (dk_pending d) \<union> mined_transaction_hashes X (lc_chain loaded)"
  shows "\<exists>s'. pool_ready X (lc_chain loaded)
    (dk_pending d @ [\<lparr>pr_tx_hash = sg_tx_hash out, pr_received_at = now, pr_transaction = sg_transaction out\<rparr>]) s'"
proof -
  let ?tx = "sg_transaction out" and ?c = "lc_chain loaded" and ?a = "address_string X a"
  let ?b = "next_base_fee (last_block (c_blocks (lc_chain loaded)))"
  obtain bs c clk' where c: "chain_from_blocks X (rc_network cfg) (clocked clk' bs) = Ok c" "loaded = make_loaded_chain X bs c"
    using assms(6) by (auto simp: chain_loaded_from_def)
  have lc: "?c = c" "lc_blocks loaded = c_blocks ?c"
    using chain_from_clocked(2) [OF c(1)] by (simp_all add: c(2) make_loaded_chain_def)
  have run: "run (pending_step X ?b) (map pr_transaction (dk_pending d)) (c_state ?c) = Some s"
    using assms(7) by (simp add: pool_ready_def)
  have inv: "pool_inv s"
    using pool.run_inv [OF chain_ok_pool_inv run] chain_from_clocked(1) [OF c(1)] lc(1) by simp
  have "snapshot = make_address_account_response X ?c ?a
      (map (\<lambda>r. tx_nonce (pr_transaction r)) (filter (\<lambda>r. tx_from (pr_transaction r) = Some ?a) (dk_pending d))) ?b"
    using assms(4,5) lc(2) by (cases "load_chain X clk cfg d reader") (simp add: address_account_def mbind_def mret_def)
  then have snap: "ar_next_nonce snapshot = next_nonce_of s ?a" "ar_anticipated_base_fee snapshot = ?b"
    using run_offered_nonce [OF run, of ?a]
    by (simp_all add: make_address_account_response_def Let_def filter_map comp_def)
  have one: "max ?b 1 = ?b" using next_base_fee_pos by (rule max_absorb1)
  obtain amt prio address max_fee v required snapshot' where p':
    "he_account E ?a = Ok snapshot'" "amount_checked_add amt (max (ar_anticipated_base_fee snapshot') 1) = Ok v"
    "amount_checked_add v prio = Ok required" "amt \<noteq> 0"
    "amount_checked_add (max (ar_anticipated_base_fee snapshot') 1) prio = Ok max_fee"
    "tx_new_signed X 1 (ar_next_nonce snapshot') (sc_network (hs_config st)) (wa_private_key a) (address_to_string X address)
       amt max_fee prio None = Ok ?tx"
    "tx_verify X ?tx = Ok ()" "sg_tx_hash out = tx_hash_string X ?tx"
    using assms(2) by (rule prepare_signed_Ok) metis
  have e: "snapshot' = snapshot" using p'(1) assms(3) by simp
  note p = p'(2,3,4,5,6,7,8) [unfolded e snap one]
  note f = tx_new_signed_fields [OF p(5)]
  have from_a: "tx_from ?tx = Some ?a" using f(1) assms(1) by (simp add: account_for_def address_string_def)
  have "rbind (amount_checked_add amt ?b) (\<lambda>v. amount_checked_add v prio) = Ok required" using p(1,2) by simp
  note d = signed_debit [OF f(7,4,5,6) p(4) this]
  have "unat required = unat amt + unat max_fee" using p(1,2,4) by (simp add: amount_add_Ok)
  then have "required \<le> balance_of s ?a" using assms(8) f(4,5) by (simp add: word_le_nat_alt)
  then have "validate_transaction_against_state X s ?tx ?b = Ok ()"
    unfolding validate_spend_Ok [OF f(7)] using from_a p(3,6,7) f(3,4,5) d assms(9) by (simp add: tx_hash_string_def)
  moreover have "is_ok (address_parse X (tx_to ?tx))" using tx_verify_OkE [OF p(6) f(7)] by (metis is_ok_iff)
  ultimately have "is_ok (validate_pending_transaction X s ?tx ?b)" using f(7) by (simp add: is_ok_iff validate_pending_Ok)
  with inv obtain s' where "pending_step X ?b ?tx s = Some s'" using pending_step_total by metis
  then show ?thesis using assms(7,9) by (auto simp: pool_ready_def run_append)
qed

theorem host_transfer_extends_pool_witness:
  "\<exists>out s'. prepare_signed sample_externals sample_host_env (sample_host None) sample_account sample_params = Ok out
     \<and> pool_ready sample_externals sample_chain
         [\<lparr>pr_tx_hash = sg_tx_hash out, pr_received_at = 0, pr_transaction = sg_transaction out\<rparr>] s'"
proof -
  let ?d = "sample_disk\<lparr>dk_pending := []\<rparr>" and ?l = "make_loaded_chain sample_externals [sample_genesis] sample_chain"
  obtain out where out: "prepare_signed sample_externals sample_host_env (sample_host None) sample_account sample_params = Ok out"
    "sg_transaction out = sample_spend 1 5 19" using sample_prepares by blast
  have h: "sg_tx_hash out = tx_hash_string sample_externals (sg_transaction out)" using out(1) by (rule prepare_signed_Ok)
  have net: "account_for sample_externals (sc_network (hs_config (sample_host None))) sample_account"
    using sample_account_for by (simp add: sample_host_def host_new_def sample_config_def with_rpc_def)
  have fee: "next_base_fee (Some sample_genesis) = 1" by (rule sample_base_fee)
  have l: "fst (load_chain sample_externals (\<lambda>_. 0) sample_rpc_config ?d no_cache) = Ok ?l" by (simp add: sample_first_load)
  have lc: "lc_chain ?l = sample_chain" by (simp add: make_loaded_chain_def)
  have a: "fst (address_account sample_externals (\<lambda>_. 0) sample_rpc_config ?d (address_string sample_externals sample_account) no_cache)
      = Ok sample_snapshot"
    by (simp add: address_account_def mbind_def mret_def sample_first_load make_loaded_chain_def sample_account_address
        sample_snapshot_def last_block_def fee)
  have f: "chain_loaded_from sample_externals sample_rpc_config ?d ?l"
    unfolding chain_loaded_from_def using sample_db_loads sample_chain_built
    by (intro exI [of _ "[sample_genesis]"] exI [of _ sample_chain] exI [of _ "\<lambda>_. 0"])
      (simp add: sample_disk_def clocked_def sample_rpc_config_def)
  have p: "pool_ready sample_externals (lc_chain ?l) (dk_pending ?d) sample_ledger"
    unfolding lc by (simp add: pool_ready_def sample_chain_def)
  have b: "unat (tx_amount (sg_transaction out)) + unat (tx_max_fee (sg_transaction out))
      \<le> unat (balance_of sample_ledger (address_string sample_externals sample_account))"
    by (simp add: out(2) sample_account_address sample_ledger_view sample_spend_def Let_def)
  have ok: "chain_ok sample_externals sample_chain" by (rule chain_from_blocks_ok [OF sample_chain_built])
  have new: "sg_tx_hash out \<notin> ls_applied_hashes sample_ledger \<union> pr_tx_hash ` set (dk_pending ?d)
      \<union> mined_transaction_hashes sample_externals (lc_chain ?l)"
    using applied_are_mined [OF ok] sample_wallet_unmined unfolding lc by (simp add: h out(2)) (simp add: sample_chain_def)
  have s: "he_account sample_host_env (address_string sample_externals sample_account) = Ok sample_snapshot"
    by (simp add: sample_host_env_def)
  from host_transfer_extends_pool [OF net out(1) s a l f p b new, of 0] out(1) show ?thesis by (auto simp: lc)
qed

text \<open>
  A message that the host writes is read back with the rest of the stream, unless it is empty,
  which reads as the end of the input, or longer than one megabyte: the writer accepts it up to the
  largest 32-bit length, the reader refuses it.
\<close>

theorem frame_roundtrip:
  assumes "write_message body = Ok frame"
  shows "read_message (frame @ rest) =
    (if body = [] then Ok None
     else if length body \<le> MAX_MESSAGE_BYTES then Ok (Some (body, rest))
     else Err (''native messaging payload too large: '' @ show_nat (length body) @ '' bytes''))"
proof -
  have f: "frame = le_bytes (word_of_nat (length body) :: u32) @ body" "length body < 2 ^ 32"
    using assms by (auto simp: write_message_def rbind_Ok)
  have len: "le_value (le_bytes (word_of_nat (length body) :: u32)) = length body"
    using f(2) by (simp add: le_value_u32 unat_of_nat)
  show ?thesis by (auto simp: read_message_def f(1) len Let_def)
qed

theorem frame_roundtrip_witness:
  "\<exists>frame. write_message [1, 2] = Ok frame \<and> read_message (frame @ [3]) = Ok (Some ([1, 2], [3]))"
proof -
  obtain frame where "write_message [1, 2] = Ok frame" by (simp add: write_message_def)
  with frame_roundtrip [OF this, of "[3]"] show ?thesis by (simp add: MAX_MESSAGE_BYTES_def)
qed

end
